(* ===== verification/Go_Prelude.thy ===== *)
theory Go_Prelude
  imports Main "HOL-Library.Word" "HOL-Library.Sublist" "HOL-Library.Char_ord"
    "HOL-Library.List_Lexorder" "HOL-Library.Multiset"
begin

unbundle bit_operations_syntax

section \<open>What the components share: Go strings, words, lists and sorting\<close>

text \<open>
  The prelude holds the parts of Go and of its standard library that the modelled packages
  use, and the generic lemmas their proofs share.

  \<^item> A Go \<^verbatim>\<open>string\<close> is a sequence of bytes, here \<^typ>\<open>string\<close> (a list of
    8-bit characters). \<open>rune_at\<close>, \<open>runes\<close> and \<open>valid_utf8\<close> are the UTF-8 decoding
    that \<^verbatim>\<open>for _, r := range s\<close> and \<^verbatim>\<open>utf8.ValidString\<close> do.
  \<^item> A \<^verbatim>\<open>[]byte\<close> is a list of 8-bit words; a nil and an empty slice are one value.
  \<^item> An \<^verbatim>\<open>int64\<close> or \<^verbatim>\<open>uint64\<close> whose wrap-around or byte layout matters is a
    64-bit word; a count, a size or a VLAN number is an \<^typ>\<open>int\<close>.
  \<^item> An error return is \<^term>\<open>Inl e\<close> of a sum type, a result \<^term>\<open>Inr x\<close>.
  \<^item> Letter case beyond ASCII is given by the Unicode tables of the \<^verbatim>\<open>unicode\<close>
    package: the record \<open>unicase\<close> stands for them, and every lemma holds for any tables.
  \<^item> \<^verbatim>\<open>sort.Slice\<close> promises a sorted permutation and nothing about ties: the locale
    \<open>slice_sort\<close> states that, and functions that sort take the sorter as an argument.
\<close>

named_theorems go_simps \<open>equations of the Go string and list functions\<close>

type_synonym byte = "8 word"
type_synonym bytes = "byte list"
type_synonym int64 = "64 word"
type_synonym rune = nat

subsection \<open>Strings and runes\<close>

abbreviation code_of :: "char \<Rightarrow> nat" where
  "code_of c \<equiv> of_char c"

definition rune_error :: rune where
  "rune_error = 65533"

definition is_cont :: "nat \<Rightarrow> bool" where
  "is_cont b \<longleftrightarrow> 128 \<le> b \<and> b \<le> 191"

text \<open>
  The second byte of a well-formed sequence has a range that depends on the first byte
  (the \<^verbatim>\<open>acceptRanges\<close> of \<^verbatim>\<open>unicode/utf8\<close>).
\<close>

definition second_ok :: "nat \<Rightarrow> nat \<Rightarrow> bool" where
  "second_ok b0 b1 =
     (if b0 = 224 then 160 \<le> b1 \<and> b1 \<le> 191
      else if b0 = 237 then 128 \<le> b1 \<and> b1 \<le> 159
      else if b0 = 240 then 144 \<le> b1 \<and> b1 \<le> 191
      else if b0 = 244 then 128 \<le> b1 \<and> b1 \<le> 143
      else is_cont b1)"

text \<open>
  \<open>rune_at bs\<close> is the rune at the start of a non-empty byte sequence and its width, as
  \<^verbatim>\<open>utf8.DecodeRuneInString\<close> gives them: an ill-formed sequence is \<open>rune_error\<close> of
  width 1.
\<close>

fun rune_at :: "nat list \<Rightarrow> rune \<times> nat" where
  "rune_at [] = (rune_error, 0)"
| "rune_at (b0 # bs) =
     (if b0 < 128 then (b0, 1)
      else if 194 \<le> b0 \<and> b0 \<le> 223 then
        (case bs of
           b1 # _ \<Rightarrow>
             if is_cont b1 then ((b0 - 192) * 64 + (b1 - 128), 2) else (rune_error, 1)
         | _ \<Rightarrow> (rune_error, 1))
      else if 224 \<le> b0 \<and> b0 \<le> 239 then
        (case bs of
           b1 # b2 # _ \<Rightarrow>
             if second_ok b0 b1 \<and> is_cont b2
             then ((b0 - 224) * 4096 + (b1 - 128) * 64 + (b2 - 128), 3) else (rune_error, 1)
         | _ \<Rightarrow> (rune_error, 1))
      else if 240 \<le> b0 \<and> b0 \<le> 244 then
        (case bs of
           b1 # b2 # b3 # _ \<Rightarrow>
             if second_ok b0 b1 \<and> is_cont b2 \<and> is_cont b3
             then ((b0 - 240) * 262144 + (b1 - 128) * 4096 + (b2 - 128) * 64 + (b3 - 128), 4)
             else (rune_error, 1)
         | _ \<Rightarrow> (rune_error, 1))
      else (rune_error, 1))"

function runes_of :: "nat list \<Rightarrow> rune list" where
  "runes_of [] = []"
| "runes_of (b # bs) = fst (rune_at (b # bs)) # runes_of (drop (snd (rune_at (b # bs)) - 1) bs)"
  by pat_completeness auto
termination
  by (relation "measure length") auto

function valid_utf8_of :: "nat list \<Rightarrow> bool" where
  "valid_utf8_of [] = True"
| "valid_utf8_of (b # bs) =
     (rune_at (b # bs) \<noteq> (rune_error, 1) \<and> valid_utf8_of (drop (snd (rune_at (b # bs)) - 1) bs))"
  by pat_completeness auto
termination
  by (relation "measure length") auto

definition runes :: "string \<Rightarrow> rune list" where
  "runes s = runes_of (map code_of s)"

definition valid_utf8 :: "string \<Rightarrow> bool" where
  "valid_utf8 s = valid_utf8_of (map code_of s)"

definition is_ascii :: "string \<Rightarrow> bool" where
  "is_ascii s = list_all (\<lambda>c. code_of c < 128) s"

record unicase =
  u_lower :: "string \<Rightarrow> string"
  u_fold :: "rune \<Rightarrow> rune"

definition ascii_lower :: "char \<Rightarrow> char" where
  "ascii_lower c = (if 65 \<le> code_of c \<and> code_of c \<le> 90 then char_of (code_of c + 32) else c)"

text \<open>\<^verbatim>\<open>strings.ToLower\<close>: byte by byte on ASCII, the Unicode mapping otherwise.\<close>

definition to_lower :: "unicase \<Rightarrow> string \<Rightarrow> string" where
  "to_lower u s = (if is_ascii s then map ascii_lower s else u_lower u s)"

text \<open>
  \<^verbatim>\<open>strings.EqualFold\<close> compares rune by rune up to simple case folding. \<open>rune_fold\<close>
  picks one rune of each folding orbit: the ASCII letters fold with each other, and U+017F
  and U+212A are the two other runes that fold with an ASCII letter.
\<close>

definition rune_fold :: "unicase \<Rightarrow> rune \<Rightarrow> rune" where
  "rune_fold u r =
     (if 65 \<le> r \<and> r \<le> 90 then r + 32
      else if r < 128 then r
      else if r = 383 then 115
      else if r = 8490 then 107
      else u_fold u r)"

definition equal_fold :: "unicase \<Rightarrow> string \<Rightarrow> string \<Rightarrow> bool" where
  "equal_fold u s t \<longleftrightarrow> map (rune_fold u) (runes s) = map (rune_fold u) (runes t)"

text \<open>\<^verbatim>\<open>strings.Split\<close> with a separator of one byte, and \<^verbatim>\<open>strings.Join\<close>.\<close>

fun split_on :: "'a \<Rightarrow> 'a list \<Rightarrow> 'a list list" where
  "split_on c [] = [[]]"
| "split_on c (x # xs) =
     (if x = c then [] # split_on c xs
      else (case split_on c xs of [] \<Rightarrow> [[x]] | y # ys \<Rightarrow> (x # y) # ys))"

fun join_with :: "'a list \<Rightarrow> 'a list list \<Rightarrow> 'a list" where
  "join_with sep [] = []"
| "join_with sep [x] = x"
| "join_with sep (x # y # ys) = x @ sep @ join_with sep (y # ys)"

definition is_digit :: "char \<Rightarrow> bool" where
  "is_digit c \<longleftrightarrow> 48 \<le> code_of c \<and> code_of c \<le> 57"

text \<open>Decimal rendering, as the verb \<^verbatim>\<open>%d\<close> prints an integer.\<close>

function dec_nat :: "nat \<Rightarrow> string" where
  "dec_nat n = (if n < 10 then [char_of (48 + n)] else dec_nat (n div 10) @ [char_of (48 + n mod 10)])"
  by pat_completeness auto
termination
  by (relation "measure id") auto

declare dec_nat.simps [simp del]

definition dec_int :: "int \<Rightarrow> string" where
  "dec_int i = (if i < 0 then CHR ''-'' # dec_nat (nat (- i)) else dec_nat (nat i))"

subsection \<open>Computations with a state and an error\<close>

text \<open>
  A method that changes a state and returns a value or an error is a function from the state
  to the new state and a sum. \<open>bindE m f\<close> runs \<open>m\<close> and returns early with its error, as
  \<^verbatim>\<open>if err != nil { return err }\<close> does, else goes on with \<open>f\<close>.
\<close>

type_synonym ('s, 'e, 'a) action = "'s \<Rightarrow> 's \<times> ('e + 'a)"

definition retE :: "'a \<Rightarrow> ('s, 'e, 'a) action" where
  "retE x s = (s, Inr x)"

definition failE :: "'e \<Rightarrow> ('s, 'e, 'a) action" where
  "failE e s = (s, Inl e)"

definition bindE :: "('s, 'e, 'a) action \<Rightarrow> ('a \<Rightarrow> ('s, 'e, 'b) action) \<Rightarrow> ('s, 'e, 'b) action" where
  "bindE m f s = (case m s of (s', Inl e) \<Rightarrow> (s', Inl e) | (s', Inr x) \<Rightarrow> f x s')"

definition checkE :: "'e option \<Rightarrow> ('s, 'e, unit) action" where
  "checkE r s = (case r of None \<Rightarrow> (s, Inr ()) | Some e \<Rightarrow> (s, Inl e))"

definition readE :: "('s \<Rightarrow> 'e + 'a) \<Rightarrow> ('s, 'e, 'a) action" where
  "readE f s = (s, f s)"

lemma action_simps [simp]:
  "retE x s = (s, Inr x)"
  "failE e s = (s, Inl e)"
  "checkE None s = (s, Inr ())"
  "checkE (Some e) s = (s, Inl e)"
  "readE f s = (s, f s)"
  by (simp_all add: retE_def failE_def checkE_def readE_def)

lemma bindE_simps [simp]:
  "m s = (s', Inl e) \<Longrightarrow> bindE m f s = (s', Inl e)"
  "m s = (s', Inr x) \<Longrightarrow> bindE m f s = f x s'"
  by (simp_all add: bindE_def)

subsection \<open>Big-endian numbers\<close>

text \<open>\<^verbatim>\<open>binary.BigEndian.PutUint64\<close> and \<^verbatim>\<open>binary.BigEndian.Uint64\<close>.\<close>

definition put_uint64 :: "int64 \<Rightarrow> bytes" where
  "put_uint64 w = map (\<lambda>i. ucast (drop_bit (8 * i) w)) [7, 6, 5, 4, 3, 2, 1, 0]"

definition get_uint64 :: "bytes \<Rightarrow> int64" where
  "get_uint64 bs = foldl (\<lambda>acc b. push_bit 8 acc OR ucast b) 0 bs"

subsection \<open>Sorting\<close>

text \<open>
  The contract of \<^verbatim>\<open>sort.Slice(x, less)\<close> for a \<open>less\<close> that compares an integer key:
  the result has the elements of \<open>x\<close> and ascending keys; equal keys may come in any order.
\<close>

locale slice_sort =
  fixes srt :: "('a \<Rightarrow> int) \<Rightarrow> 'a list \<Rightarrow> 'a list"
  assumes srt_mset: "mset (srt f xs) = mset xs"
    and srt_sorted: "sorted (map f (srt f xs))"
begin

lemma srt_set [simp]: "set (srt f xs) = set xs"
  by (metis set_mset_mset srt_mset)

lemma srt_length [simp]: "length (srt f xs) = length xs"
  by (metis size_mset srt_mset)

lemma srt_Nil_iff [simp]: "srt f xs = [] \<longleftrightarrow> xs = []"
  by (metis length_0_conv srt_length)

lemma srt_distinct_map: "distinct (map g (srt f xs)) \<longleftrightarrow> distinct (map g xs)"
  by (metis distinct_count_atmost_1 mset_map srt_mset set_mset_mset)

lemma srt_hd_least: "xs \<noteq> [] \<Longrightarrow> x \<in> set xs \<Longrightarrow> f (hd (srt f xs)) \<le> f x"
proof -
  assume ne: "xs \<noteq> []" and x: "x \<in> set xs"
  then obtain y ys where eq: "srt f xs = y # ys"
    by (metis list.exhaust srt_Nil_iff)
  have "x \<in> set (y # ys)" using x by (metis eq srt_set)
  moreover have "sorted (f y # map f ys)" using srt_sorted [of f xs] by (simp add: eq)
  ultimately show ?thesis by (auto simp: eq)
qed

end

text \<open>Insertion sort, the algorithm \<^verbatim>\<open>sort.Slice\<close> runs on short slices.\<close>

definition insertion_sort :: "('a \<Rightarrow> int) \<Rightarrow> 'a list \<Rightarrow> 'a list" where
  "insertion_sort f xs = sort_key f xs"

interpretation isort: slice_sort insertion_sort
  by unfold_locales (simp_all add: insertion_sort_def)

subsection \<open>Lemmas\<close>

lemma split_on_not_Nil [simp]: "split_on c xs \<noteq> []"
  by (induction xs) (auto split: list.splits)

lemma join_split_on [simp]: "join_with [c] (split_on c xs) = xs"
proof (induction xs)
  case (Cons x xs)
  obtain y ys where eq: "split_on c xs = y # ys"
    by (meson neq_Nil_conv split_on_not_Nil)
  with Cons.IH show ?case by (cases ys) auto
qed simp

lemma split_on_notin: "s \<in> set (split_on c xs) \<Longrightarrow> c \<notin> set s"
  by (induction xs arbitrary: s) (auto split: if_splits list.splits)

lemma put_uint64_length [simp]: "length (put_uint64 w) = 8"
  by (simp add: put_uint64_def)

lemma get_put_uint64 [simp]: "get_uint64 (put_uint64 w) = w"
proof (rule bit_word_eqI)
  fix n assume n: "n < LENGTH(64)"
  then show "bit (get_uint64 (put_uint64 w)) n = bit w n"
    by (simp add: get_uint64_def put_uint64_def bit_simps)
      (cases "n < 8"; cases "n < 16"; cases "n < 24"; cases "n < 32"; cases "n < 40";
       cases "n < 48"; cases "n < 56"; auto simp: bit_simps less_diff_conv2 not_less)
qed

lemma put_get_uint64 [simp]:
  assumes "length bs = 8"
  shows "put_uint64 (get_uint64 bs) = bs"
proof -
  from assms obtain a b c d e f g h where bs: "bs = [a, b, c, d, e, f, g, h]"
    by (auto simp: numeral_eq_Suc length_Suc_conv)
  define w where "w = get_uint64 bs"
  have w: "w = push_bit 8 (push_bit 8 (push_bit 8 (push_bit 8 (push_bit 8 (push_bit 8
      (push_bit 8 (ucast a) OR ucast b) OR ucast c) OR ucast d) OR ucast e) OR ucast f)
      OR ucast g) OR ucast h"
    by (simp add: w_def get_uint64_def bs del: push_bit_numeral push_bit_of_0)
  have "n < 8 \<Longrightarrow> bit w n = bit h n" for n by (auto simp: w bit_simps dest: bit_imp_le_length)
  moreover have "n < 8 \<Longrightarrow> bit w (8 + n) = bit g n" for n by (auto simp: w bit_simps dest: bit_imp_le_length)
  moreover have "n < 8 \<Longrightarrow> bit w (16 + n) = bit f n" for n by (auto simp: w bit_simps dest: bit_imp_le_length)
  moreover have "n < 8 \<Longrightarrow> bit w (24 + n) = bit e n" for n by (auto simp: w bit_simps dest: bit_imp_le_length)
  moreover have "n < 8 \<Longrightarrow> bit w (32 + n) = bit d n" for n by (auto simp: w bit_simps dest: bit_imp_le_length)
  moreover have "n < 8 \<Longrightarrow> bit w (40 + n) = bit c n" for n by (auto simp: w bit_simps dest: bit_imp_le_length)
  moreover have "n < 8 \<Longrightarrow> bit w (48 + n) = bit b n" for n by (auto simp: w bit_simps dest: bit_imp_le_length)
  moreover have "n < 8 \<Longrightarrow> bit w (56 + n) = bit a n" for n by (auto simp: w bit_simps dest: bit_imp_le_length)
  ultimately have "put_uint64 w = [a, b, c, d, e, f, g, h]"
    unfolding put_uint64_def by (auto simp: bit_simps intro!: bit_word_eqI)
  then show ?thesis by (simp add: w_def bs)
qed

text \<open>A counter that is not at its last value moves up by exactly one.\<close>

lemma unat_next: "(w :: 'a :: len word) \<noteq> - 1 \<Longrightarrow> unat (w + 1) = Suc (unat w)"
  by (metis add.commute add_eq_0_iff2 unatSuc)

lemma not_last_word:
  assumes "Suc (unat w) < 2 ^ LENGTH('a)"
  shows "(w :: 'a :: len word) \<noteq> - 1"
proof
  assume "w = - 1"
  then have "(of_nat (Suc (unat w)) :: 'a word) = 0" by simp
  then have "2 ^ LENGTH('a) dvd Suc (unat w)" by (simp only: word_of_nat_eq_0_iff)
  with assms show False by (meson nat_dvd_not_less zero_less_Suc)
qed

lemma word_less_next: "(w :: 'a :: len word) \<noteq> - 1 \<Longrightarrow> v \<le> w \<Longrightarrow> v < w + 1"
  by (simp add: word_less_nat_alt word_le_nat_alt unat_next)

text \<open>
  In the byte order, the strings with a given prefix are an interval that starts at the
  prefix: a cursor that seeks the prefix and stops at the first other key sees all of them.
\<close>

lemma prefix_le: "prefix p b \<Longrightarrow> p \<le> (b :: 'a :: linorder list)"
proof (induction p arbitrary: b)
  case (Cons x p)
  then show ?case by (cases b) auto
qed simp

lemma prefix_between:
  "p \<le> a \<Longrightarrow> a \<le> b \<Longrightarrow> prefix p b \<Longrightarrow> prefix p (a :: 'a :: linorder list)"
proof (induction p arbitrary: a b)
  case (Cons x p)
  then show ?case by (cases a; cases b) auto
qed simp

lemma takeWhile_prefix:
  "sorted_wrt (<) ks \<Longrightarrow> \<forall>k \<in> set ks. p \<le> k \<Longrightarrow>
     takeWhile (prefix p) ks = filter (prefix p) (ks :: 'a :: linorder list list)"
proof (induction ks)
  case (Cons k ks)
  then have "prefix p k' \<Longrightarrow> k' \<in> set ks \<Longrightarrow> prefix p k" for k'
    by (metis less_imp_le list.set_intros(1) prefix_between sorted_wrt.simps(2))
  with Cons show ?case by (auto simp: empty_filter_conv)
qed simp

text \<open>
  No segment between separators is empty exactly when the string neither starts nor ends with
  the separator and never has two in a row.
\<close>

lemma split_on_hd_Nil: "hd (split_on c xs) = [] \<longleftrightarrow> xs = [] \<or> prefix [c] xs"
  by (cases xs) (auto split: list.splits)

lemma split_on_tl_Nil: "[] \<in> set (tl (split_on c xs)) \<longleftrightarrow> suffix [c] xs \<or> sublist [c, c] xs"
proof (induction xs)
  case (Cons x xs)
  obtain y ys where eq: "split_on c xs = y # ys" by (meson neq_Nil_conv split_on_not_Nil)
  with split_on_hd_Nil [of c xs] have "y = [] \<longleftrightarrow> xs = [] \<or> prefix [c] xs" by simp
  with Cons eq show ?case by (cases "x = c") (auto simp: suffix_Cons sublist_Cons_right)
qed simp

lemma split_on_no_empty:
  "k \<noteq> [] \<Longrightarrow> [] \<notin> set (split_on c k) \<longleftrightarrow> \<not> prefix [c] k \<and> \<not> suffix [c] k \<and> \<not> sublist [c, c] k"
proof -
  assume "k \<noteq> []"
  obtain y ys where eq: "split_on c k = y # ys" by (meson neq_Nil_conv split_on_not_Nil)
  with split_on_hd_Nil [of c k] split_on_tl_Nil [of c k] \<open>k \<noteq> []\<close> show ?thesis by auto
qed

text \<open>A string whose runes are all ASCII is its own sequence of runes.\<close>

declare rune_at.simps(2) [simp del]

lemma rune_at_ascii [simp]: "b < 128 \<Longrightarrow> rune_at (b # bs) = (b, 1)"
  by (simp add: rune_at.simps)

lemma rune_at_big: "128 \<le> b \<Longrightarrow> 128 \<le> fst (rune_at (b # bs))"
proof -
  assume b: "128 \<le> b"
  consider "b \<le> 223" | "224 \<le> b" "b \<le> 239" | "240 \<le> b" by linarith
  then show ?thesis
  proof cases
    case 1
    have "194 \<le> b \<Longrightarrow> 128 \<le> (b - 192) * 64" by arith
    with 1 b show ?thesis by (cases bs) (auto simp: rune_at.simps rune_error_def trans_le_add1)
  next
    case 2
    then show ?thesis
      by (cases bs; cases "tl bs") (auto simp: rune_at.simps rune_error_def second_ok_def)
  next
    case 3
    then show ?thesis
      by (cases bs; cases "tl bs"; cases "tl (tl bs)")
        (auto simp: rune_at.simps rune_error_def second_ok_def)
  qed
qed

lemma rune_at_small: "fst (rune_at (b # bs)) < 128 \<Longrightarrow> b < 128 \<and> rune_at (b # bs) = (b, 1)"
  using rune_at_big [of b bs] by (cases "b < 128") simp_all

lemma runes_of_ascii: "\<forall>r \<in> set (runes_of bs). r < 128 \<Longrightarrow> runes_of bs = bs \<and> (\<forall>b \<in> set bs. b < 128)"
proof (induction bs rule: runes_of.induct)
  case (2 b bs)
  have "fst (rune_at (b # bs)) < 128" using "2.prems" by (simp del: rune_at_ascii)
  then have r: "rune_at (b # bs) = (b, 1)" and b: "b < 128" using rune_at_small by blast+
  have "\<forall>r \<in> set (runes_of bs). r < 128" using "2.prems" r by (simp del: rune_at_ascii)
  then have "runes_of bs = bs \<and> (\<forall>b \<in> set bs. b < 128)" using "2.IH" r by (simp del: rune_at_ascii)
  then show ?case using r b by simp
qed simp

lemma runes_of_bytes: "\<forall>b \<in> set bs. b < 128 \<Longrightarrow> runes_of bs = bs"
  by (induction bs rule: runes_of.induct) auto

text \<open>Splitting what was joined, when no part has the separator.\<close>

lemma split_on_append:
  "c \<notin> set x \<Longrightarrow> split_on c (x @ c # y) = x # split_on c y"
  by (induction x) (auto split: list.splits)

lemma split_on_free: "c \<notin> set x \<Longrightarrow> split_on c x = [x]"
  by (induction x) auto

lemma split_join:
  "xs \<noteq> [] \<Longrightarrow> \<forall>x \<in> set xs. c \<notin> set x \<Longrightarrow> split_on c (join_with [c] xs) = xs"
proof (induction xs rule: induct_list012)
  case (3 x y xs)
  then show ?case by (simp add: split_on_append)
qed (auto simp: split_on_free)

end
