(* ===== verification/Record_Spec.thy ===== *)
theory Record_Spec
  imports Go_Prelude
begin

section \<open>Records: validation, errors and the contract of a record store\<close>

text \<open>
  \<^verbatim>\<open>store/record.go\<close> and the \<^verbatim>\<open>RecordTx\<close> interface of
  \<^verbatim>\<open>store/store.go\<close>. A record is an opaque value stored under a namespace and a key
  with a revision that the store assigns; a writer names the revision it has read, and the
  store refuses the write when the record has moved on.

  The theory holds the record type, the errors, the validation of namespaces, keys and
  prefixes, an abstract store (\<open>rstore\<close>: contents and last revision) with one specification
  function per operation, and the locale \<open>record_tx\<close> that states what a transaction of a
  store promises. Its provider is the Bolt store (\<open>Bolt_Record\<close>).
\<close>

subsection \<open>Data\<close>

text \<open>Times are nanoseconds since the Unix epoch, as the stores write them.\<close>

record store_record =
  r_namespace :: string
  r_key :: string
  r_value :: bytes
  r_revision :: int64
  r_created :: int64
  r_updated :: int64

text \<open>A record without its namespace and key (\<^verbatim>\<open>boltRecord\<close>).\<close>

record stored =
  s_value :: bytes
  s_revision :: int64
  s_created :: int64
  s_updated :: int64

datatype reason =
  NamespaceEmpty | NamespaceTooLong | NamespaceStart | NamespaceRune rune
| KeyEmpty | DeletePrefixEmpty | KeyTooLong | KeyNotUtf8 | KeyLeadingSlash | KeyTrailingSlash
| KeyEmptySegment | KeyControl | KeyRelative

datatype err_context =
  GettingRecord string string | CreatingRecord string string | UpdatingRecord string string
| DeletingRecord string string | DeletingRecords string string | ListingRecords string
| ListingRecordKeys string | ReadingRecord string | CreatingRecordsBucket
| CreatingNamespaceBucket string | GeneratingRevision | WritingToBolt | DeletingFromBolt
| OpeningFile | CommittingRecords

text \<open>
  The error values of the package. \<open>Wrapped\<close> is an error made with
  \<^verbatim>\<open>fmt.Errorf("...: %w", ..., err)\<close>: its context and the error it unwraps to.
\<close>

datatype rec_error =
  RecordNotExist string string
| RecordExist string string
| RecordConflict string string int64 int64
| InvalidNamespace string reason
| InvalidKey string reason
| RecordFormat
| StoreFailure string
| Wrapped err_context rec_error

text \<open>What \<^verbatim>\<open>errors.Is\<close> and \<^verbatim>\<open>errors.As\<close> see: the innermost error.\<close>

primrec cause :: "rec_error \<Rightarrow> rec_error" where
  "cause (RecordNotExist n k) = RecordNotExist n k"
| "cause (RecordExist n k) = RecordExist n k"
| "cause (RecordConflict n k e a) = RecordConflict n k e a"
| "cause (InvalidNamespace n r) = InvalidNamespace n r"
| "cause (InvalidKey k r) = InvalidKey k r"
| "cause RecordFormat = RecordFormat"
| "cause (StoreFailure m) = StoreFailure m"
| "cause (Wrapped c e) = cause e"

primrec caused :: "rec_error + 'a \<Rightarrow> rec_error + 'a" where
  "caused (Inl e) = Inl (cause e)"
| "caused (Inr x) = Inr x"

definition AnyRevision :: int64 where
  "AnyRevision = 0"

definition maxRecordNamespaceLen :: nat where
  "maxRecordNamespaceLen = 128"

definition maxRecordKeyLen :: nat where
  "maxRecordKeyLen = 512"

abbreviation sep :: char where
  "sep \<equiv> CHR ''/''"

subsection \<open>Validation\<close>

definition isRecordNameStart :: "rune \<Rightarrow> bool" where
  "isRecordNameStart r \<longleftrightarrow>
     (97 \<le> r \<and> r \<le> 122) \<or> (65 \<le> r \<and> r \<le> 90) \<or> (48 \<le> r \<and> r \<le> 57)"

definition isRecordNameRune :: "rune \<Rightarrow> bool" where
  "isRecordNameRune r \<longleftrightarrow> isRecordNameStart r \<or> r = 45 \<or> r = 95 \<or> r = 46"

definition ValidateRecordNamespace :: "string \<Rightarrow> rec_error option" where
  "ValidateRecordNamespace ns =
     (if ns = [] then Some (InvalidNamespace ns NamespaceEmpty)
      else if length ns > maxRecordNamespaceLen then Some (InvalidNamespace ns NamespaceTooLong)
      else if \<not> isRecordNameStart (code_of (hd ns)) then Some (InvalidNamespace ns NamespaceStart)
      else (case find (\<lambda>r. \<not> isRecordNameRune r) (runes ns) of
              Some r \<Rightarrow> Some (InvalidNamespace ns (NamespaceRune r))
            | None \<Rightarrow> None))"

definition validateRecordKeyOrPrefix :: "string \<Rightarrow> bool \<Rightarrow> rec_error option" where
  "validateRecordKeyOrPrefix key isPrefix =
     (if length key > maxRecordKeyLen then Some (InvalidKey key KeyTooLong)
      else if \<not> valid_utf8 key then Some (InvalidKey key KeyNotUtf8)
      else if prefix [sep] key then Some (InvalidKey key KeyLeadingSlash)
      else if \<not> isPrefix \<and> suffix [sep] key then Some (InvalidKey key KeyTrailingSlash)
      else if sublist [sep, sep] key then Some (InvalidKey key KeyEmptySegment)
      else if list_ex (\<lambda>r. r < 32 \<or> r = 127) (runes key) then Some (InvalidKey key KeyControl)
      else if list_ex (\<lambda>s. s = ''.'' \<or> s = ''..'') (split_on sep key)
      then Some (InvalidKey key KeyRelative)
      else None)"

definition ValidateRecordKey :: "string \<Rightarrow> rec_error option" where
  "ValidateRecordKey key =
     (if key = [] then Some (InvalidKey key KeyEmpty) else validateRecordKeyOrPrefix key False)"

definition ValidateRecordPrefix :: "string \<Rightarrow> rec_error option" where
  "ValidateRecordPrefix p = (if p = [] then None else validateRecordKeyOrPrefix p True)"

definition ValidateRecordDeletePrefix :: "string \<Rightarrow> rec_error option" where
  "ValidateRecordDeletePrefix p =
     (if p = [] then Some (InvalidKey p DeletePrefixEmpty) else validateRecordKeyOrPrefix p True)"

definition validateRecordNamespaceAndKey :: "string \<Rightarrow> string \<Rightarrow> rec_error option" where
  "validateRecordNamespaceAndKey ns key =
     (case ValidateRecordNamespace ns of Some e \<Rightarrow> Some e | None \<Rightarrow> ValidateRecordKey key)"

definition validateRecordNamespaceAndPrefix :: "string \<Rightarrow> string \<Rightarrow> rec_error option" where
  "validateRecordNamespaceAndPrefix ns p =
     (case ValidateRecordNamespace ns of Some e \<Rightarrow> Some e | None \<Rightarrow> ValidateRecordPrefix p)"

definition checkRecordRevision :: "string \<Rightarrow> string \<Rightarrow> int64 \<Rightarrow> int64 \<Rightarrow> rec_error option" where
  "checkRecordRevision ns key expected actual =
     (if expected = AnyRevision \<or> expected = actual then None
      else Some (RecordConflict ns key expected actual))"

definition record_of :: "string \<Rightarrow> string \<Rightarrow> stored \<Rightarrow> store_record" where
  "record_of ns key s =
     \<lparr>r_namespace = ns, r_key = key, r_value = s_value s, r_revision = s_revision s,
      r_created = s_created s, r_updated = s_updated s\<rparr>"

subsection \<open>The abstract store\<close>

record rstore =
  rs_contents :: "string \<times> string \<rightharpoonup> stored"
  rs_revision :: int64

definition rs_empty :: rstore where
  "rs_empty = \<lparr>rs_contents = Map.empty, rs_revision = 0\<rparr>"

definition spec_get :: "string \<Rightarrow> string \<Rightarrow> rstore \<Rightarrow> rec_error + store_record" where
  "spec_get ns key st =
     (case validateRecordNamespaceAndKey ns key of
        Some e \<Rightarrow> Inl e
      | None \<Rightarrow> (case rs_contents st (ns, key) of
                   None \<Rightarrow> Inl (RecordNotExist ns key)
                 | Some s \<Rightarrow> Inr (record_of ns key s)))"

definition spec_write :: "string \<Rightarrow> string \<Rightarrow> stored \<Rightarrow> rstore \<Rightarrow> rstore" where
  "spec_write ns key s st =
     st\<lparr>rs_contents := (rs_contents st)((ns, key) \<mapsto> s), rs_revision := s_revision s\<rparr>"

definition spec_create ::
  "int64 \<Rightarrow> string \<Rightarrow> string \<Rightarrow> bytes \<Rightarrow> rstore \<Rightarrow> rstore \<times> (rec_error + store_record)" where
  "spec_create now ns key v st =
     (case validateRecordNamespaceAndKey ns key of
        Some e \<Rightarrow> (st, Inl e)
      | None \<Rightarrow>
          (case rs_contents st (ns, key) of
             Some _ \<Rightarrow> (st, Inl (RecordExist ns key))
           | None \<Rightarrow>
               let s = \<lparr>s_value = v, s_revision = rs_revision st + 1,
                        s_created = now, s_updated = now\<rparr>
               in (spec_write ns key s st, Inr (record_of ns key s))))"

definition spec_update ::
  "int64 \<Rightarrow> string \<Rightarrow> string \<Rightarrow> bytes \<Rightarrow> int64 \<Rightarrow> rstore \<Rightarrow>
   rstore \<times> (rec_error + store_record)" where
  "spec_update now ns key v expected st =
     (case validateRecordNamespaceAndKey ns key of
        Some e \<Rightarrow> (st, Inl e)
      | None \<Rightarrow>
          (case rs_contents st (ns, key) of
             None \<Rightarrow> (st, Inl (RecordNotExist ns key))
           | Some old \<Rightarrow>
               (case checkRecordRevision ns key expected (s_revision old) of
                  Some e \<Rightarrow> (st, Inl e)
                | None \<Rightarrow>
                    let s = \<lparr>s_value = v, s_revision = rs_revision st + 1,
                             s_created = s_created old, s_updated = now\<rparr>
                    in (spec_write ns key s st, Inr (record_of ns key s)))))"

definition spec_delete ::
  "string \<Rightarrow> string \<Rightarrow> int64 \<Rightarrow> rstore \<Rightarrow> rstore \<times> (rec_error + unit)" where
  "spec_delete ns key expected st =
     (case validateRecordNamespaceAndKey ns key of
        Some e \<Rightarrow> (st, Inl e)
      | None \<Rightarrow>
          (case rs_contents st (ns, key) of
             None \<Rightarrow> (st, Inl (RecordNotExist ns key))
           | Some old \<Rightarrow>
               (case checkRecordRevision ns key expected (s_revision old) of
                  Some e \<Rightarrow> (st, Inl e)
                | None \<Rightarrow>
                    (st\<lparr>rs_contents := (rs_contents st)((ns, key) := None)\<rparr>, Inr ()))))"

definition keys_with_prefix :: "string \<Rightarrow> string \<Rightarrow> rstore \<Rightarrow> string set" where
  "keys_with_prefix ns p st = {k. prefix p k \<and> (ns, k) \<in> dom (rs_contents st)}"

definition drop_prefix :: "string \<Rightarrow> string \<Rightarrow> rstore \<Rightarrow> rstore" where
  "drop_prefix ns p st =
     st\<lparr>rs_contents := (\<lambda>(n, k). if n = ns \<and> prefix p k then None else rs_contents st (n, k))\<rparr>"

definition spec_delete_prefix ::
  "string \<Rightarrow> string \<Rightarrow> rstore \<Rightarrow> rstore \<times> (rec_error + nat)" where
  "spec_delete_prefix ns p st =
     (case ValidateRecordNamespace ns of
        Some e \<Rightarrow> (st, Inl e)
      | None \<Rightarrow>
          (case ValidateRecordDeletePrefix p of
             Some e \<Rightarrow> (st, Inl e)
           | None \<Rightarrow> (drop_prefix ns p st, Inr (card (keys_with_prefix ns p st)))))"

subsection \<open>Transactions as sequences of operations\<close>

text \<open>
  The interface \<^verbatim>\<open>RecordTx\<close>: one function per method, from the state of the
  transaction to the new state and the result. A write takes the time it happens at.
\<close>

record 't tx_ops =
  tx_get :: "string \<Rightarrow> string \<Rightarrow> 't \<Rightarrow> 't \<times> (rec_error + store_record)"
  tx_create :: "int64 \<Rightarrow> string \<Rightarrow> string \<Rightarrow> bytes \<Rightarrow> 't \<Rightarrow> 't \<times> (rec_error + store_record)"
  tx_update ::
    "int64 \<Rightarrow> string \<Rightarrow> string \<Rightarrow> bytes \<Rightarrow> int64 \<Rightarrow> 't \<Rightarrow> 't \<times> (rec_error + store_record)"
  tx_delete :: "string \<Rightarrow> string \<Rightarrow> int64 \<Rightarrow> 't \<Rightarrow> 't \<times> (rec_error + unit)"
  tx_delete_prefix :: "string \<Rightarrow> string \<Rightarrow> 't \<Rightarrow> 't \<times> (rec_error + nat)"

datatype rec_op =
  OpGet string string
| OpCreate int64 string string bytes
| OpUpdate int64 string string bytes int64
| OpDelete string string int64
| OpDeletePrefix string string

datatype rec_out = OutRecord store_record | OutUnit | OutCount nat

fun tx_step :: "'t tx_ops \<Rightarrow> rec_op \<Rightarrow> 't \<Rightarrow> 't \<times> (rec_error + rec_out)" where
  "tx_step T (OpGet ns k) t = map_prod id (map_sum id OutRecord) (tx_get T ns k t)"
| "tx_step T (OpCreate now ns k v) t = map_prod id (map_sum id OutRecord) (tx_create T now ns k v t)"
| "tx_step T (OpUpdate now ns k v r) t =
     map_prod id (map_sum id OutRecord) (tx_update T now ns k v r t)"
| "tx_step T (OpDelete ns k r) t = map_prod id (map_sum id (\<lambda>_. OutUnit)) (tx_delete T ns k r t)"
| "tx_step T (OpDeletePrefix ns p) t =
     map_prod id (map_sum id OutCount) (tx_delete_prefix T ns p t)"

fun tx_run :: "'t tx_ops \<Rightarrow> rec_op list \<Rightarrow> 't \<Rightarrow> 't \<times> (rec_error + rec_out) list" where
  "tx_run T [] t = (t, [])"
| "tx_run T (op # ops) t =
     (case tx_step T op t of (t', out) \<Rightarrow> map_prod id (Cons out) (tx_run T ops t'))"

definition spec_ops :: "rstore tx_ops" where
  "spec_ops =
     \<lparr>tx_get = (\<lambda>ns k st. (st, spec_get ns k st)), tx_create = spec_create,
      tx_update = spec_update, tx_delete = spec_delete, tx_delete_prefix = spec_delete_prefix\<rparr>"

fun op_value :: "rec_op \<Rightarrow> bytes option" where
  "op_value (OpCreate now ns k v) = Some v"
| "op_value (OpUpdate now ns k v r) = Some v"
| "op_value op = None"

definition op_fits :: "(bytes \<Rightarrow> bool) \<Rightarrow> rec_op \<Rightarrow> bool" where
  "op_fits fits op = (case op_value op of None \<Rightarrow> True | Some v \<Rightarrow> fits v)"

text \<open>
  The body of a transaction that makes the given calls and returns the first error, as a
  client of \<^verbatim>\<open>RecordTxn\<close> does.
\<close>

fun tx_seq :: "'t tx_ops \<Rightarrow> rec_op list \<Rightarrow> ('t, rec_error, rec_out list) action" where
  "tx_seq T [] = retE []"
| "tx_seq T (op # ops) =
     bindE (tx_step T op) (\<lambda>out. bindE (tx_seq T ops) (\<lambda>outs. retE (out # outs)))"

text \<open>
  Every stored revision is at least 1 and at most the last revision given out: what makes a
  revision name one version of one record.
\<close>

definition rs_wf :: "rstore \<Rightarrow> bool" where
  "rs_wf st \<longleftrightarrow> (\<forall>s \<in> ran (rs_contents st). 0 < s_revision s \<and> s_revision s \<le> rs_revision st)"

subsection \<open>Lemmas on the abstract store\<close>

lemmas spec_defs = spec_get_def spec_create_def spec_update_def spec_delete_def
  spec_delete_prefix_def spec_write_def drop_prefix_def Let_def

lemma spec_ops_simps [simp]:
  "tx_get spec_ops ns k st = (st, spec_get ns k st)"
  "tx_create spec_ops = spec_create"
  "tx_update spec_ops = spec_update"
  "tx_delete spec_ops = spec_delete"
  "tx_delete_prefix spec_ops = spec_delete_prefix"
  by (simp_all add: spec_ops_def)

lemma record_of_sel [simp]:
  "r_namespace (record_of ns k s) = ns" "r_key (record_of ns k s) = k"
  "r_value (record_of ns k s) = s_value s" "r_revision (record_of ns k s) = s_revision s"
  "r_created (record_of ns k s) = s_created s" "r_updated (record_of ns k s) = s_updated s"
  by (simp_all add: record_of_def)

lemma cause_idem [simp]: "cause (cause e) = cause e"
  by (induction e) auto

lemma validate_cause:
  "ValidateRecordNamespace ns = Some e \<Longrightarrow> cause e = e"
  "ValidateRecordDeletePrefix p = Some e \<Longrightarrow> cause e = e"
  "ValidateRecordPrefix p = Some e \<Longrightarrow> cause e = e"
  "ValidateRecordKey k = Some e \<Longrightarrow> cause e = e"
  "validateRecordNamespaceAndKey ns k = Some e \<Longrightarrow> cause e = e"
  "checkRecordRevision ns k a b = Some e \<Longrightarrow> cause e = e"
  by (auto simp: ValidateRecordNamespace_def ValidateRecordDeletePrefix_def
      ValidateRecordPrefix_def ValidateRecordKey_def validateRecordNamespaceAndKey_def
      validateRecordKeyOrPrefix_def checkRecordRevision_def split: if_splits option.splits)

text \<open>An operation that fails leaves the abstract store as it was.\<close>

lemma spec_step_error: "tx_step spec_ops op st = (st', Inl e) \<Longrightarrow> st' = st"
  by (cases op) (auto simp: spec_defs split: option.splits)

text \<open>The last revision is kept by a step, or moves up by one when the step writes.\<close>

lemma spec_step_revision:
  "tx_step spec_ops op st = (st', out) \<Longrightarrow>
     rs_revision st' = rs_revision st \<or> rs_revision st' = rs_revision st + 1"
  by (cases op) (auto simp: spec_defs split: option.splits)

lemma rs_wf_write:
  assumes "rs_wf st" and "rs_revision st \<noteq> - 1"
    and "s_revision s = rs_revision st + 1"
  shows "rs_wf (spec_write ns k s st)"
proof -
  have "ran ((rs_contents st)((ns, k) \<mapsto> s)) \<subseteq> insert s (ran (rs_contents st))"
    by (auto simp: ran_def)
  moreover have "0 < rs_revision st + 1"
    using word_less_next [OF assms(2), of 0] by simp
  ultimately show ?thesis
    using assms word_less_next [OF assms(2)] by (fastforce simp: rs_wf_def spec_write_def)
qed

lemma rs_wf_shrink:
  "rs_wf st \<Longrightarrow> rs_contents st' \<subseteq>\<^sub>m rs_contents st \<Longrightarrow> rs_revision st' = rs_revision st \<Longrightarrow> rs_wf st'"
  by (force simp: rs_wf_def map_le_def ran_def dom_def)

lemma rs_wf_step:
  "rs_wf st \<Longrightarrow> rs_revision st \<noteq> - 1 \<Longrightarrow> rs_wf (fst (tx_step spec_ops op st))"
proof (cases op)
  case (OpDelete ns k r)
  assume "rs_wf st"
  with OpDelete show ?thesis
    by (auto simp: spec_delete_def map_le_def dom_def split: option.splits elim!: rs_wf_shrink)
next
  case (OpDeletePrefix ns p)
  assume "rs_wf st"
  with OpDeletePrefix show ?thesis
    by (auto simp: spec_delete_prefix_def drop_prefix_def map_le_def dom_def split: option.splits
        elim!: rs_wf_shrink)
qed (auto simp: spec_create_def spec_update_def Let_def split: option.splits intro!: rs_wf_write)

lemma caused_Inr [simp]: "caused out = Inr x \<longleftrightarrow> out = Inr x"
  by (cases out) auto

lemma caused_map_sum [simp]: "caused (map_sum id f r) = map_sum id f (caused r)"
  by (cases r) auto

lemma spec_get_created: "spec_create now ns k v st = (st', Inr rec) \<Longrightarrow> spec_get ns k st' = Inr rec"
  by (auto simp: spec_defs split: option.splits)

lemma spec_get_updated:
  "spec_update now ns k v r st = (st', Inr rec) \<Longrightarrow> spec_get ns k st' = Inr rec"
  by (auto simp: spec_defs split: option.splits)

lemma spec_update_ok:
  assumes "spec_update now ns k v e st = (st', Inr rec)" and "e \<noteq> AnyRevision"
  obtains old s where "validateRecordNamespaceAndKey ns k = None"
    and "rs_contents st (ns, k) = Some old" and "s_revision old = e"
    and "r_revision rec = rs_revision st + 1"
    and "rs_contents st' (ns, k) = Some s" and "s_revision s = r_revision rec"
  using assms by (auto simp: spec_update_def spec_write_def checkRecordRevision_def Let_def
      split: option.splits if_splits)

text \<open>The revisions that the successful writes of a run were given, in order.\<close>

fun write_revs :: "rec_op list \<Rightarrow> (rec_error + rec_out) list \<Rightarrow> int64 list" where
  "write_revs (op # ops) (out # outs) =
     (case (op_value op, out) of
        (Some _, Inr (OutRecord r)) \<Rightarrow> [r_revision r]
      | _ \<Rightarrow> []) @ write_revs ops outs"
| "write_revs _ _ = []"

lemma spec_step_writes:
  "tx_step spec_ops op st = (st', out) \<Longrightarrow>
     rs_revision st' = rs_revision st \<and> write_revs [op] [out] = []
     \<or> rs_revision st' = rs_revision st + 1 \<and> write_revs [op] [out] = [rs_revision st + 1]"
  by (cases op) (auto simp: spec_defs split: option.splits)

lemma write_revs_caused [simp]: "write_revs ops (map caused outs) = write_revs ops outs"
proof (induction ops outs rule: write_revs.induct)
  case (1 op ops out outs)
  then show ?case by (cases out) (auto split: option.splits)
qed auto

lemma spec_run_revisions:
  assumes N: "N \<le> 2 ^ LENGTH(64)"
  shows "tx_run spec_ops ops st = (st', outs) \<Longrightarrow> rs_wf st \<Longrightarrow> unat (rs_revision st) + length ops < N \<Longrightarrow>
     rs_wf st' \<and> rs_revision st \<le> rs_revision st'
     \<and> sorted_wrt (<) (write_revs ops outs)
     \<and> (\<forall>r \<in> set (write_revs ops outs). rs_revision st < r \<and> r \<le> rs_revision st')"
proof (induction ops arbitrary: st outs)
  case (Cons op ops)
  obtain st1 out where step: "tx_step spec_ops op st = (st1, out)" by fastforce
  with Cons.prems(1) obtain outs' where run: "tx_run spec_ops ops st1 = (st', outs')" "outs = out # outs'"
    by (cases "tx_run spec_ops ops st1") auto
  have room: "rs_revision st \<noteq> - 1"
  proof (rule not_last_word)
    have "Suc (unat (rs_revision st)) < N" using Cons.prems(3) by simp
    then show "Suc (unat (rs_revision st)) < 2 ^ LENGTH(64)" using N by (rule order.strict_trans2)
  qed
  have wf: "rs_wf st1" using rs_wf_step [OF Cons.prems(2) room, of op] step by simp
  have next_rev: "unat (rs_revision st + 1) = Suc (unat (rs_revision st))" by (rule unat_next [OF room])
  then have up: "rs_revision st < rs_revision st + 1" by (simp add: word_less_nat_alt)
  have revs: "write_revs (op # ops) outs = write_revs [op] [out] @ write_revs ops outs'"
    using run(2) by simp
  from spec_step_writes [OF step] show ?case
  proof
    assume "rs_revision st1 = rs_revision st \<and> write_revs [op] [out] = []"
    with Cons.IH [OF run(1) wf] Cons.prems(3) run(2) show ?thesis
      unfolding revs by auto
  next
    assume one: "rs_revision st1 = rs_revision st + 1 \<and> write_revs [op] [out] = [rs_revision st + 1]"
    then have "unat (rs_revision st1) + length ops < N" using Cons.prems(3) next_rev by simp
    from Cons.IH [OF run(1) wf this] one up show ?thesis
      unfolding revs by auto
  qed
qed auto

subsection \<open>What a transaction promises\<close>

definition tx_refines ::
  "('t \<Rightarrow> bool) \<Rightarrow> ('t \<Rightarrow> rstore) \<Rightarrow> 't \<times> (rec_error + 'a) \<Rightarrow> rstore \<times> (rec_error + 'a) \<Rightarrow> bool" where
  "tx_refines ok view r s \<longleftrightarrow> ok (fst r) \<and> view (fst r) = fst s \<and> caused (snd r) = snd s"

lemma tx_refines_map:
  "tx_refines ok view r s \<Longrightarrow>
     tx_refines ok view (map_prod id (map_sum id f) r) (map_prod id (map_sum id f) s)"
  by (cases r; cases s) (auto simp: tx_refines_def)

lemma tx_refines_map_pair:
  "tx_refines ok view r (st, out) \<Longrightarrow>
     tx_refines ok view (map_prod id (map_sum id f) r) (st, map_sum id f out)"
  by (cases r) (auto simp: tx_refines_def)

text \<open>
  The contract of \<^verbatim>\<open>RecordTx\<close>: under the invariant of the store, every method does
  to the abstract view of the store what its specification says, and its error has the
  specified cause. \<open>fits\<close> is the set of values the store can hold.
\<close>

locale record_tx =
  fixes T :: "'t tx_ops"
    and ok :: "'t \<Rightarrow> bool"
    and view :: "'t \<Rightarrow> rstore"
    and fits :: "bytes \<Rightarrow> bool"
  assumes get_law: "ok t \<Longrightarrow> tx_refines ok view (tx_get T ns k t) (view t, spec_get ns k (view t))"
    and create_law: "ok t \<Longrightarrow> fits v \<Longrightarrow>
      tx_refines ok view (tx_create T now ns k v t) (spec_create now ns k v (view t))"
    and update_law: "ok t \<Longrightarrow> fits v \<Longrightarrow>
      tx_refines ok view (tx_update T now ns k v r t) (spec_update now ns k v r (view t))"
    and delete_law: "ok t \<Longrightarrow>
      tx_refines ok view (tx_delete T ns k r t) (spec_delete ns k r (view t))"
    and delete_prefix_law: "ok t \<Longrightarrow>
      tx_refines ok view (tx_delete_prefix T ns p t) (spec_delete_prefix ns p (view t))"
begin

lemma step_refines:
  "ok t \<Longrightarrow> op_fits fits op \<Longrightarrow>
     tx_refines ok view (tx_step T op t) (tx_step spec_ops op (view t))"
  by (cases op)
    (auto simp: op_fits_def intro!: tx_refines_map tx_refines_map_pair get_law create_law update_law delete_law
      delete_prefix_law)

lemma step_refinesE:
  assumes "ok t" and "op_fits fits op" and "tx_step T op t = (t', out)"
  obtains "ok t'" and "tx_step spec_ops op (view t) = (view t', caused out)"
  using step_refines [OF assms(1,2)] assms(3)
  by (cases "tx_step spec_ops op (view t)") (auto simp: tx_refines_def)

lemma run_refines:
  "ok t \<Longrightarrow> list_all (op_fits fits) ops \<Longrightarrow> tx_run T ops t = (t', outs) \<Longrightarrow>
     ok t' \<and> tx_run spec_ops ops (view t) = (view t', map caused outs)"
proof (induction ops arbitrary: t t' outs)
  case (Cons op ops)
  obtain t1 out where step: "tx_step T op t = (t1, out)" by fastforce
  with Cons.prems obtain outs' where rest: "tx_run T ops t1 = (t', outs')" "outs = out # outs'"
    by (cases "tx_run T ops t1") auto
  from Cons.prems have "ok t" "op_fits fits op" by auto
  then show ?case
  proof (rule step_refinesE [OF _ _ step])
    assume "ok t1" and spec: "tx_step spec_ops op (view t) = (view t1, caused out)"
    with Cons.IH [OF _ _ rest(1)] Cons.prems(2) have
      "ok t' \<and> tx_run spec_ops ops (view t1) = (view t', map caused outs')" by simp
    with spec rest(2) show ?thesis by simp
  qed
qed simp

lemma seq_refines:
  "ok t \<Longrightarrow> list_all (op_fits fits) ops \<Longrightarrow>
     tx_refines ok view (tx_seq T ops t) (tx_seq spec_ops ops (view t))"
proof (induction ops arbitrary: t)
  case (Cons op ops)
  obtain t1 out where step: "tx_step T op t = (t1, out)" by fastforce
  from Cons.prems have "ok t" "op_fits fits op" by auto
  then show ?case
  proof (rule step_refinesE [OF _ _ step])
    assume t1: "ok t1" and spec: "tx_step spec_ops op (view t) = (view t1, caused out)"
    show ?thesis
    proof (cases out)
      case (Inl e)
      with step spec t1 show ?thesis by (simp add: tx_refines_def)
    next
      case (Inr x)
      from Cons.IH [OF t1] Cons.prems(2) have
        "tx_refines ok view (tx_seq T ops t1) (tx_seq spec_ops ops (view t1))" by simp
      with Inr step spec show ?thesis
        by (cases "tx_seq T ops t1"; cases "tx_seq spec_ops ops (view t1)"; cases "snd (tx_seq T ops t1)")
          (auto simp: tx_refines_def bindE_def)
    qed
  qed
qed (simp add: tx_refines_def)

text \<open>A failing operation changes nothing a reader can see.\<close>

lemma error_keeps:
  assumes "ok t" and "op_fits fits op" and "tx_step T op t = (t', Inl e)"
  shows "ok t' \<and> view t' = view t"
  using step_refinesE [OF assms] spec_step_error by (metis caused.simps(1))

lemma get_spec:
  "ok t \<Longrightarrow> caused (snd (tx_get T ns k t)) = spec_get ns k (view t)"
  using get_law by (auto simp: tx_refines_def)

lemma update_spec:
  assumes "ok t" and "fits v" and "tx_update T now ns k v r t = (t', out)"
  shows "ok t' \<and> spec_update now ns k v r (view t) = (view t', caused out)"
  using update_law [OF assms(1,2), of now ns k r] assms(3)
  by (auto simp: tx_refines_def prod_eq_iff)

lemma create_spec:
  assumes "ok t" and "fits v" and "tx_create T now ns k v t = (t', out)"
  shows "ok t' \<and> spec_create now ns k v (view t) = (view t', caused out)"
  using create_law [OF assms(1,2), of now ns k] assms(3)
  by (auto simp: tx_refines_def prod_eq_iff)

lemma delete_spec:
  assumes "ok t" and "tx_delete T ns k r t = (t', out)"
  shows "ok t' \<and> spec_delete ns k r (view t) = (view t', caused out)"
  using delete_law [OF assms(1), of ns k r] assms(2)
  by (auto simp: tx_refines_def prod_eq_iff)

text \<open>A read gives the record that the last write of its key returned.\<close>

lemma get_after_create:
  assumes "ok t" and "fits v" and c: "tx_create T now ns k v t = (t', Inr rec)"
  shows "snd (tx_get T ns k t') = Inr rec"
proof -
  have "ok t'" and "spec_create now ns k v (view t) = (view t', Inr rec)"
    using create_spec [OF assms] by auto
  moreover from this(2) have "spec_get ns k (view t') = Inr rec"
    by (rule spec_get_created)
  ultimately show ?thesis using get_spec [of t' ns k] by simp
qed

lemma get_after_update:
  assumes "ok t" and "fits v" and c: "tx_update T now ns k v r t = (t', Inr rec)"
  shows "snd (tx_get T ns k t') = Inr rec"
proof -
  have "ok t'" and "spec_update now ns k v r (view t) = (view t', Inr rec)"
    using update_spec [OF assms] by auto
  moreover from this(2) have "spec_get ns k (view t') = Inr rec"
    by (rule spec_get_updated)
  ultimately show ?thesis using get_spec [of t' ns k] by simp
qed

text \<open>
  No lost update: of two writers that read the same revision, the second is refused and told
  the revision that the first one wrote.
\<close>

lemma stale_update_refused:
  assumes t: "ok t" and v: "fits v" and w: "fits w"
    and wf: "rs_wf (view t)" and room: "rs_revision (view t) \<noteq> - 1"
    and e: "e \<noteq> AnyRevision"
    and first: "tx_update T now ns k v e t = (t1, Inr rec)"
    and second: "tx_update T now' ns k w e t1 = (t2, out)"
  shows "\<exists>err. out = Inl err \<and> cause err = RecordConflict ns k e (r_revision rec)
           \<and> e < r_revision rec \<and> view t2 = view t1"
proof -
  have t1: "ok t1" and s1: "spec_update now ns k v e (view t) = (view t1, Inr rec)"
    using update_spec [OF t v first] by auto
  from spec_update_ok [OF s1 e] obtain old s where valid: "validateRecordNamespaceAndKey ns k = None"
    and old: "rs_contents (view t) (ns, k) = Some old" "s_revision old = e"
    and rec: "r_revision rec = rs_revision (view t) + 1"
    and new: "rs_contents (view t1) (ns, k) = Some s" "s_revision s = r_revision rec" .
  have "e \<le> rs_revision (view t)"
    using wf old by (auto simp: rs_wf_def ran_def)
  then have less: "e < r_revision rec"
    using word_less_next [OF room] rec by simp
  have "spec_update now' ns k w e (view t1) = (view t1, Inl (RecordConflict ns k e (r_revision rec)))"
    using valid new less e by (auto simp: spec_update_def checkRecordRevision_def)
  with update_spec [OF t1 w second] have
    "view t2 = view t1" "caused out = Inl (RecordConflict ns k e (r_revision rec))" by auto
  with less show ?thesis by (cases out) auto
qed

end

subsection \<open>What validation accepts\<close>

lemma if_Some_None: "(if a then Some x else y) = None \<longleftrightarrow> \<not> a \<and> y = None"
  by simp

lemma key_none_iff:
  "validateRecordKeyOrPrefix k False = None \<and> k \<noteq> [] \<longleftrightarrow>
     k \<noteq> [] \<and> length k \<le> maxRecordKeyLen \<and> valid_utf8 k
     \<and> (\<forall>r \<in> set (runes k). 32 \<le> r \<and> r \<noteq> 127)
     \<and> (\<forall>s \<in> set (split_on sep k). s \<noteq> [] \<and> s \<noteq> ''.'' \<and> s \<noteq> ''..'')"
proof (cases "k = []")
  case False
  have "(\<forall>s \<in> set (split_on sep k). s \<noteq> [] \<and> s \<noteq> ''.'' \<and> s \<noteq> ''..'') \<longleftrightarrow>
     [] \<notin> set (split_on sep k) \<and> \<not> (\<exists>s \<in> set (split_on sep k). s = ''.'' \<or> s = ''..'')"
    by blast
  moreover have "(\<forall>r \<in> set (runes k). 32 \<le> r \<and> r \<noteq> 127) \<longleftrightarrow> \<not> (\<exists>r \<in> set (runes k). r < 32 \<or> r = 127)"
    by (simp add: not_less)
  ultimately show ?thesis
    unfolding validateRecordKeyOrPrefix_def if_Some_None list_ex_iff split_on_no_empty [OF False]
      not_less by blast
qed simp

text \<open>
  A record key is accepted exactly when it is a non-empty valid UTF-8 path of at most 512
  bytes whose segments between slashes are non-empty and neither \<^verbatim>\<open>.\<close> nor \<^verbatim>\<open>..\<close>, and it
  has no control character.
\<close>

theorem valid_key_iff:
  "ValidateRecordKey k = None \<longleftrightarrow>
     k \<noteq> [] \<and> length k \<le> 512 \<and> valid_utf8 k
     \<and> (\<forall>r \<in> set (runes k). 32 \<le> r \<and> r \<noteq> 127)
     \<and> (\<forall>s \<in> set (split_on CHR ''/'' k). s \<noteq> [] \<and> s \<noteq> ''.'' \<and> s \<noteq> ''..'')"
  using key_none_iff [of k] by (auto simp: ValidateRecordKey_def maxRecordKeyLen_def)

theorem valid_key_witness:
  "ValidateRecordKey ''a/b.c'' = None \<and> ValidateRecordKey ''a/../b'' \<noteq> None"
  unfolding valid_key_iff by (simp add: runes_def valid_utf8_def rune_error_def)

text \<open>
  A record namespace is accepted exactly when it has 1 to 128 bytes, all of them ASCII
  letters, digits, dashes, underscores or dots, and starts with a letter or a digit; so it
  never contains the separator of keys and never is \<^verbatim>\<open>.\<close> or \<^verbatim>\<open>..\<close>.
\<close>

theorem valid_namespace_iff:
  "ValidateRecordNamespace ns = None \<longleftrightarrow>
     ns \<noteq> [] \<and> length ns \<le> 128 \<and> isRecordNameStart (code_of (hd ns))
     \<and> (\<forall>c \<in> set ns. isRecordNameRune (code_of c))"
proof -
  have "(\<forall>r \<in> set (runes ns). isRecordNameRune r) \<longleftrightarrow> (\<forall>c \<in> set ns. isRecordNameRune (code_of c))"
  proof
    assume "\<forall>r \<in> set (runes ns). isRecordNameRune r"
    then show "\<forall>c \<in> set ns. isRecordNameRune (code_of c)"
      using runes_of_ascii [of "map code_of ns"]
      by (fastforce simp: runes_def isRecordNameRune_def isRecordNameStart_def)
  next
    assume "\<forall>c \<in> set ns. isRecordNameRune (code_of c)"
    then show "\<forall>r \<in> set (runes ns). isRecordNameRune r"
      using runes_of_bytes [of "map code_of ns"]
      by (fastforce simp: runes_def isRecordNameRune_def isRecordNameStart_def)
  qed
  moreover have "(case find P xs of Some r \<Rightarrow> Some (f r) | None \<Rightarrow> None) = None \<longleftrightarrow> (\<forall>x \<in> set xs. \<not> P x)"
    for P :: "nat \<Rightarrow> bool" and xs and f :: "nat \<Rightarrow> rec_error"
    by (induction xs) auto
  ultimately show ?thesis
    by (simp add: ValidateRecordNamespace_def maxRecordNamespaceLen_def)
qed

theorem valid_namespace_witness:
  "ValidateRecordNamespace ''builder-drafts'' = None \<and> ValidateRecordNamespace ''.hidden'' \<noteq> None"
  unfolding valid_namespace_iff by (simp add: isRecordNameStart_def isRecordNameRune_def)

end
