(* ===== verification/Bolt_Record.thy ===== *)
theory Bolt_Record
  imports Record_Spec "HOL-Library.AList"
begin

section \<open>The Bolt record store\<close>

text \<open>
  \<^verbatim>\<open>store/bolt_record.go\<close>: the on-disk form of a record, the methods of a write
  transaction (\<^verbatim>\<open>boltRecordTx\<close>) and of the store (\<^verbatim>\<open>BoltDB\<close>).

  \<^verbatim>\<open>go.etcd.io/bbolt\<close> is not part of the repository: the record \<open>bbolt\<close> stands for
  the calls the code makes to it, and the locale \<open>bbolt_laws\<close> states the documented
  behaviour of these calls that the code relies on. Under these laws the transaction
  methods implement the contract \<open>record_tx\<close> (a sublocale), and \<open>ref_bolt\<close>, a small
  bucket store, shows that the laws can hold.
\<close>

subsection \<open>bbolt\<close>

text \<open>
  A bucket is named by its path: \<open>[n]\<close> is the top-level bucket \<open>n\<close>, \<open>[n, m]\<close> the
  bucket \<open>m\<close> nested in it. A call that fails leaves the transaction as it is.
  \<open>bk_scan\<close> is what a cursor walks from \<^verbatim>\<open>Seek(key)\<close> to the end of the bucket: the
  keys with their values, \<open>None\<close> for a nested bucket.
\<close>

type_synonym path = "string list"

record 'tx bbolt =
  bk_open :: "'tx \<Rightarrow> string option"
  bk_commit :: "'tx \<Rightarrow> string option"
  bk_bucket :: "'tx \<Rightarrow> path \<Rightarrow> bool"
  bk_create :: "'tx \<Rightarrow> path \<Rightarrow> string + 'tx"
  bk_next :: "'tx \<Rightarrow> path \<Rightarrow> string + (int64 \<times> 'tx)"
  bk_get :: "'tx \<Rightarrow> path \<Rightarrow> string \<Rightarrow> bytes option"
  bk_put :: "'tx \<Rightarrow> path \<Rightarrow> string \<Rightarrow> bytes \<Rightarrow> string + 'tx"
  bk_delete :: "'tx \<Rightarrow> path \<Rightarrow> string \<Rightarrow> string + 'tx"
  bk_scan :: "'tx \<Rightarrow> path \<Rightarrow> string \<Rightarrow> (string \<times> bytes option) list"

type_synonym ('tx, 'a) bolt_action = "('tx, rec_error, 'a) action"

text \<open>A call to bbolt that may fail, with the context its error is wrapped in.\<close>

definition call_bolt :: "err_context \<Rightarrow> ('tx \<Rightarrow> string + 'tx) \<Rightarrow> ('tx, unit) bolt_action" where
  "call_bolt c f tx =
     (case f tx of Inl m \<Rightarrow> (tx, Inl (Wrapped c (StoreFailure m))) | Inr tx' \<Rightarrow> (tx', Inr ()))"

definition wrapE :: "err_context \<Rightarrow> ('tx, 'a) bolt_action \<Rightarrow> ('tx, 'a) bolt_action" where
  "wrapE c m tx = (case m tx of (tx', Inl e) \<Rightarrow> (tx', Inl (Wrapped c e)) | (tx', Inr x) \<Rightarrow> (tx', Inr x))"

subsection \<open>The on-disk form of a record\<close>

definition boltRecordsBucket :: string where
  "boltRecordsBucket = ''phenix_records''"

definition boltRecordFormat :: byte where
  "boltRecordFormat = 1"

definition boltRecordHeaderSize :: nat where
  "boltRecordHeaderSize = 1 + 3 * 8"

definition slice :: "nat \<Rightarrow> nat \<Rightarrow> 'a list \<Rightarrow> 'a list" where
  "slice lo hi xs = take (hi - lo) (drop lo xs)"

definition encodeBoltRecord :: "stored \<Rightarrow> bytes" where
  "encodeBoltRecord s =
     [boltRecordFormat] @ put_uint64 (s_revision s) @ put_uint64 (s_created s)
       @ put_uint64 (s_updated s) @ s_value s"

definition boltRecordTime :: "bytes \<Rightarrow> int64" where
  "boltRecordTime b = get_uint64 b"

definition decodeBoltRecord :: "bytes \<Rightarrow> rec_error + stored" where
  "decodeBoltRecord v =
     (if length v < boltRecordHeaderSize \<or> v ! 0 \<noteq> boltRecordFormat then Inl RecordFormat
      else Inr \<lparr>s_value = drop boltRecordHeaderSize v,
                s_revision = get_uint64 (slice 1 9 v),
                s_created = boltRecordTime (slice 9 17 v),
                s_updated = boltRecordTime (slice 17 25 v)\<rparr>)"

subsection \<open>Buckets\<close>

definition boltNamespaceBucket :: "'tx bbolt \<Rightarrow> string \<Rightarrow> 'tx \<Rightarrow> path option" where
  "boltNamespaceBucket B ns tx =
     (if \<not> bk_bucket B tx [boltRecordsBucket] then None
      else if bk_bucket B tx [boltRecordsBucket, ns] then Some [boltRecordsBucket, ns] else None)"

definition boltEnsureNamespaceBucket :: "'tx bbolt \<Rightarrow> string \<Rightarrow> ('tx, path) bolt_action" where
  "boltEnsureNamespaceBucket B ns =
     bindE (call_bolt CreatingRecordsBucket (\<lambda>tx. bk_create B tx [boltRecordsBucket]))
       (\<lambda>_. bindE (call_bolt (CreatingNamespaceBucket ns)
                     (\<lambda>tx. bk_create B tx [boltRecordsBucket, ns]))
         (\<lambda>_. retE [boltRecordsBucket, ns]))"

definition boltNextRevision :: "'tx bbolt \<Rightarrow> ('tx, int64) bolt_action" where
  "boltNextRevision B =
     bindE (call_bolt CreatingRecordsBucket (\<lambda>tx. bk_create B tx [boltRecordsBucket]))
       (\<lambda>_ tx. case bk_next B tx [boltRecordsBucket] of
                  Inl m \<Rightarrow> (tx, Inl (Wrapped GeneratingRevision (StoreFailure m)))
                | Inr (seq, tx') \<Rightarrow> (tx', Inr seq))"

definition boltGetRecord :: "'tx bbolt \<Rightarrow> string \<Rightarrow> string \<Rightarrow> 'tx \<Rightarrow> rec_error + stored" where
  "boltGetRecord B ns key tx =
     (case boltNamespaceBucket B ns tx of
        None \<Rightarrow> Inl (RecordNotExist ns key)
      | Some b \<Rightarrow> (case bk_get B tx b key of
                     None \<Rightarrow> Inl (RecordNotExist ns key)
                   | Some v \<Rightarrow> decodeBoltRecord v))"

definition boltPutRecord :: "'tx bbolt \<Rightarrow> path \<Rightarrow> string \<Rightarrow> stored \<Rightarrow> ('tx, unit) bolt_action" where
  "boltPutRecord B b key s = call_bolt WritingToBolt (\<lambda>tx. bk_put B tx b key (encodeBoltRecord s))"

text \<open>
  \<open>for_each_prefix\<close> is the cursor loop of \<^verbatim>\<open>boltForEachPrefix\<close>: it stops at the first
  key without the prefix, skips nested buckets, and hands each decoded record to the
  callback, whose captured variable is the accumulator.
\<close>

fun for_each_prefix ::
  "string \<Rightarrow> ('a \<Rightarrow> string \<Rightarrow> stored \<Rightarrow> rec_error + 'a) \<Rightarrow> (string \<times> bytes option) list \<Rightarrow> 'a
   \<Rightarrow> rec_error + 'a" where
  "for_each_prefix p fn [] acc = Inr acc"
| "for_each_prefix p fn ((k, v) # kvs) acc =
     (if \<not> prefix p k then Inr acc
      else (case v of
              None \<Rightarrow> for_each_prefix p fn kvs acc
            | Some b \<Rightarrow>
                (case decodeBoltRecord b of
                   Inl e \<Rightarrow> Inl (Wrapped (ReadingRecord k) e)
                 | Inr s \<Rightarrow>
                     (case fn acc k s of
                        Inl e \<Rightarrow> Inl e
                      | Inr acc' \<Rightarrow> for_each_prefix p fn kvs acc'))))"

definition boltForEachPrefix ::
  "'tx bbolt \<Rightarrow> path \<Rightarrow> string \<Rightarrow> ('a \<Rightarrow> string \<Rightarrow> stored \<Rightarrow> rec_error + 'a) \<Rightarrow> 'a \<Rightarrow> 'tx
   \<Rightarrow> rec_error + 'a" where
  "boltForEachPrefix B b p fn acc tx = for_each_prefix p fn (bk_scan B tx b p) acc"

subsection \<open>A write transaction\<close>

definition bolt_create ::
  "'tx bbolt \<Rightarrow> int64 \<Rightarrow> string \<Rightarrow> string \<Rightarrow> bytes \<Rightarrow> ('tx, store_record) bolt_action" where
  "bolt_create B now ns key v =
     bindE (boltEnsureNamespaceBucket B ns) (\<lambda>b tx.
       if bk_get B tx b key \<noteq> None then (tx, Inl (RecordExist ns key))
       else bindE (boltNextRevision B) (\<lambda>rev.
              let s = \<lparr>s_value = v, s_revision = rev, s_created = now, s_updated = now\<rparr>
              in bindE (boltPutRecord B b key s) (\<lambda>_. retE (record_of ns key s))) tx)"

definition bolt_update ::
  "'tx bbolt \<Rightarrow> int64 \<Rightarrow> string \<Rightarrow> string \<Rightarrow> bytes \<Rightarrow> int64 \<Rightarrow> ('tx, store_record) bolt_action" where
  "bolt_update B now ns key v expected =
     bindE (readE (boltGetRecord B ns key)) (\<lambda>existing.
       bindE (checkE (checkRecordRevision ns key expected (s_revision existing))) (\<lambda>_.
         bindE (boltNextRevision B) (\<lambda>rev.
           let s = \<lparr>s_value = v, s_revision = rev, s_created = s_created existing, s_updated = now\<rparr>
           in bindE (boltEnsureNamespaceBucket B ns) (\<lambda>b.
                bindE (boltPutRecord B b key s) (\<lambda>_. retE (record_of ns key s))))))"

definition bolt_delete ::
  "'tx bbolt \<Rightarrow> string \<Rightarrow> string \<Rightarrow> int64 \<Rightarrow> ('tx, unit) bolt_action" where
  "bolt_delete B ns key expected =
     bindE (readE (boltGetRecord B ns key)) (\<lambda>existing.
       bindE (checkE (checkRecordRevision ns key expected (s_revision existing))) (\<lambda>_ tx.
         case boltNamespaceBucket B ns tx of
           None \<Rightarrow> (tx, Inl (RecordNotExist ns key))
         | Some b \<Rightarrow> call_bolt DeletingFromBolt (\<lambda>tx. bk_delete B tx b key) tx))"

fun delete_keys :: "'tx bbolt \<Rightarrow> path \<Rightarrow> string list \<Rightarrow> ('tx, unit) bolt_action" where
  "delete_keys B b [] = retE ()"
| "delete_keys B b (k # ks) =
     bindE (call_bolt DeletingFromBolt (\<lambda>tx. bk_delete B tx b k)) (\<lambda>_. delete_keys B b ks)"

definition bolt_deletePrefix :: "'tx bbolt \<Rightarrow> string \<Rightarrow> string \<Rightarrow> ('tx, nat) bolt_action" where
  "bolt_deletePrefix B ns p tx =
     (case boltNamespaceBucket B ns tx of
        None \<Rightarrow> (tx, Inr 0)
      | Some b \<Rightarrow>
          (case boltForEachPrefix B b p (\<lambda>keys k _. Inr (keys @ [k])) [] tx of
             Inl e \<Rightarrow> (tx, Inl e)
           | Inr keys \<Rightarrow> bindE (delete_keys B b keys) (\<lambda>_. retE (length keys)) tx))"

definition boltTx_GetRecord :: "'tx bbolt \<Rightarrow> string \<Rightarrow> string \<Rightarrow> ('tx, store_record) bolt_action" where
  "boltTx_GetRecord B ns key =
     bindE (checkE (validateRecordNamespaceAndKey ns key)) (\<lambda>_.
       bindE (wrapE (GettingRecord ns key) (readE (boltGetRecord B ns key)))
         (\<lambda>s. retE (record_of ns key s)))"

definition boltTx_CreateRecord ::
  "'tx bbolt \<Rightarrow> int64 \<Rightarrow> string \<Rightarrow> string \<Rightarrow> bytes \<Rightarrow> ('tx, store_record) bolt_action" where
  "boltTx_CreateRecord B now ns key v =
     bindE (checkE (validateRecordNamespaceAndKey ns key)) (\<lambda>_.
       wrapE (CreatingRecord ns key) (bolt_create B now ns key v))"

definition boltTx_UpdateRecord ::
  "'tx bbolt \<Rightarrow> int64 \<Rightarrow> string \<Rightarrow> string \<Rightarrow> bytes \<Rightarrow> int64 \<Rightarrow> ('tx, store_record) bolt_action" where
  "boltTx_UpdateRecord B now ns key v expected =
     bindE (checkE (validateRecordNamespaceAndKey ns key)) (\<lambda>_.
       wrapE (UpdatingRecord ns key) (bolt_update B now ns key v expected))"

definition boltTx_DeleteRecord ::
  "'tx bbolt \<Rightarrow> string \<Rightarrow> string \<Rightarrow> int64 \<Rightarrow> ('tx, unit) bolt_action" where
  "boltTx_DeleteRecord B ns key expected =
     bindE (checkE (validateRecordNamespaceAndKey ns key)) (\<lambda>_.
       wrapE (DeletingRecord ns key) (bolt_delete B ns key expected))"

definition boltTx_DeleteRecordPrefix :: "'tx bbolt \<Rightarrow> string \<Rightarrow> string \<Rightarrow> ('tx, nat) bolt_action" where
  "boltTx_DeleteRecordPrefix B ns p =
     bindE (checkE (ValidateRecordNamespace ns)) (\<lambda>_.
       bindE (checkE (ValidateRecordDeletePrefix p)) (\<lambda>_.
         wrapE (DeletingRecords ns p) (bolt_deletePrefix B ns p)))"

definition bolt_tx :: "'tx bbolt \<Rightarrow> 'tx tx_ops" where
  "bolt_tx B =
     \<lparr>tx_get = boltTx_GetRecord B, tx_create = boltTx_CreateRecord B,
      tx_update = boltTx_UpdateRecord B, tx_delete = boltTx_DeleteRecord B,
      tx_delete_prefix = boltTx_DeleteRecordPrefix B\<rparr>"

subsection \<open>The store\<close>

text \<open>
  A call of \<^verbatim>\<open>BoltDB\<close> opens the file, runs in one transaction and closes the file.
  \<^verbatim>\<open>db.Update\<close> commits the transaction when the function returns nil and rolls it back
  otherwise; \<^verbatim>\<open>db.View\<close> only reads.
\<close>

definition RecordTxn :: "'tx bbolt \<Rightarrow> ('tx, 'a) bolt_action \<Rightarrow> ('tx, 'a) bolt_action" where
  "RecordTxn B fn db =
     (case bk_open B db of
        Some m \<Rightarrow> (db, Inl (Wrapped OpeningFile (StoreFailure m)))
      | None \<Rightarrow>
          (case fn db of
             (tx, Inl e) \<Rightarrow> (db, Inl e)
           | (tx, Inr x) \<Rightarrow>
               (case bk_commit B tx of
                  Some m \<Rightarrow> (db, Inl (Wrapped CommittingRecords (StoreFailure m)))
                | None \<Rightarrow> (tx, Inr x))))"

definition viewRecords :: "'tx bbolt \<Rightarrow> ('tx \<Rightarrow> rec_error + 'a) \<Rightarrow> 'tx \<Rightarrow> rec_error + 'a" where
  "viewRecords B fn db =
     (case bk_open B db of
        Some m \<Rightarrow> Inl (Wrapped OpeningFile (StoreFailure m))
      | None \<Rightarrow> fn db)"

definition ListRecords :: "'tx bbolt \<Rightarrow> string \<Rightarrow> string \<Rightarrow> 'tx \<Rightarrow> rec_error + store_record list" where
  "ListRecords B ns p db =
     (case validateRecordNamespaceAndPrefix ns p of
        Some e \<Rightarrow> Inl e
      | None \<Rightarrow>
          (case viewRecords B (\<lambda>tx.
                  case boltNamespaceBucket B ns tx of
                    None \<Rightarrow> Inr []
                  | Some b \<Rightarrow>
                      boltForEachPrefix B b p (\<lambda>rs k s. Inr (rs @ [record_of ns k s])) [] tx) db of
             Inl e \<Rightarrow> Inl (Wrapped (ListingRecords ns) e)
           | Inr rs \<Rightarrow> Inr rs))"

definition ListRecordKeys :: "'tx bbolt \<Rightarrow> string \<Rightarrow> string \<Rightarrow> 'tx \<Rightarrow> rec_error + string list" where
  "ListRecordKeys B ns p db =
     (case validateRecordNamespaceAndPrefix ns p of
        Some e \<Rightarrow> Inl e
      | None \<Rightarrow>
          (case viewRecords B (\<lambda>tx.
                  case boltNamespaceBucket B ns tx of
                    None \<Rightarrow> Inr []
                  | Some b \<Rightarrow> Inr (map fst (takeWhile (\<lambda>(k, _). prefix p k) (bk_scan B tx b p)))) db of
             Inl e \<Rightarrow> Inl (Wrapped (ListingRecordKeys ns) e)
           | Inr ks \<Rightarrow> Inr ks))"

definition GetRecord :: "'tx bbolt \<Rightarrow> string \<Rightarrow> string \<Rightarrow> 'tx \<Rightarrow> rec_error + store_record" where
  "GetRecord B ns key db =
     (case validateRecordNamespaceAndKey ns key of
        Some e \<Rightarrow> Inl e
      | None \<Rightarrow>
          (case viewRecords B (boltGetRecord B ns key) db of
             Inl e \<Rightarrow> Inl (Wrapped (GettingRecord ns key) e)
           | Inr s \<Rightarrow> Inr (record_of ns key s)))"

definition CreateRecord ::
  "'tx bbolt \<Rightarrow> int64 \<Rightarrow> string \<Rightarrow> string \<Rightarrow> bytes \<Rightarrow> ('tx, store_record) bolt_action" where
  "CreateRecord B now ns key v = RecordTxn B (tx_create (bolt_tx B) now ns key v)"

definition UpdateRecord ::
  "'tx bbolt \<Rightarrow> int64 \<Rightarrow> string \<Rightarrow> string \<Rightarrow> bytes \<Rightarrow> int64 \<Rightarrow> ('tx, store_record) bolt_action" where
  "UpdateRecord B now ns key v expected = RecordTxn B (tx_update (bolt_tx B) now ns key v expected)"

definition DeleteRecord :: "'tx bbolt \<Rightarrow> string \<Rightarrow> string \<Rightarrow> int64 \<Rightarrow> ('tx, unit) bolt_action" where
  "DeleteRecord B ns key expected = RecordTxn B (tx_delete (bolt_tx B) ns key expected)"

definition DeleteRecordPrefix :: "'tx bbolt \<Rightarrow> string \<Rightarrow> string \<Rightarrow> ('tx, nat) bolt_action" where
  "DeleteRecordPrefix B ns p = RecordTxn B (tx_delete_prefix (bolt_tx B) ns p)"

subsection \<open>The on-disk form loses nothing\<close>

lemma decode_encode [simp]: "decodeBoltRecord (encodeBoltRecord s) = Inr s"
  by (simp add: decodeBoltRecord_def encodeBoltRecord_def boltRecordHeaderSize_def slice_def
      boltRecordTime_def)

lemma encode_length [simp]: "length (encodeBoltRecord s) = 25 + length (s_value s)"
  by (simp add: encodeBoltRecord_def)

subsection \<open>The documented behaviour of bbolt\<close>

text \<open>
  \<open>good\<close> is the integrity of a database file and \<open>seq\<close> the sequence of a bucket
  (\<^verbatim>\<open>Bucket.Sequence\<close>). A bucket can be created under an existing parent when its name is
  not taken by a value; the sequence counts up by one; a value can be put under a key of 1 to
  32768 bytes that is not a nested bucket when it has at most 2^31 - 2 bytes; a scan gives
  the keys in byte order from the sought one on.
\<close>

locale bbolt_laws =
  fixes B :: "'tx bbolt"
    and good :: "'tx \<Rightarrow> bool"
    and seq :: "'tx \<Rightarrow> path \<Rightarrow> int64"
  assumes bk_create_law:
    "good tx \<Longrightarrow> p \<noteq> [] \<Longrightarrow> last p \<noteq> [] \<Longrightarrow> length (last p) \<le> 32768 \<Longrightarrow>
     butlast p = [] \<or> bk_bucket B tx (butlast p) \<and> bk_get B tx (butlast p) (last p) = None \<Longrightarrow>
     \<exists>tx'. bk_create B tx p = Inr tx' \<and> good tx'
       \<and> bk_bucket B tx' = (bk_bucket B tx)(p := True) \<and> bk_get B tx' = bk_get B tx
       \<and> seq tx' = seq tx"
    and bk_next_law:
    "good tx \<Longrightarrow> bk_bucket B tx p \<Longrightarrow>
     \<exists>tx'. bk_next B tx p = Inr (seq tx p + 1, tx') \<and> good tx'
       \<and> bk_bucket B tx' = bk_bucket B tx \<and> bk_get B tx' = bk_get B tx
       \<and> seq tx' = (seq tx)(p := seq tx p + 1)"
    and bk_put_law:
    "good tx \<Longrightarrow> bk_bucket B tx p \<Longrightarrow> \<not> bk_bucket B tx (p @ [k]) \<Longrightarrow>
     k \<noteq> [] \<Longrightarrow> length k \<le> 32768 \<Longrightarrow> length v \<le> 2 ^ 31 - 2 \<Longrightarrow>
     \<exists>tx'. bk_put B tx p k v = Inr tx' \<and> good tx' \<and> bk_bucket B tx' = bk_bucket B tx
       \<and> bk_get B tx' = (bk_get B tx)(p := (bk_get B tx p)(k \<mapsto> v)) \<and> seq tx' = seq tx"
    and bk_delete_law:
    "good tx \<Longrightarrow> bk_bucket B tx p \<Longrightarrow> \<not> bk_bucket B tx (p @ [k]) \<Longrightarrow>
     \<exists>tx'. bk_delete B tx p k = Inr tx' \<and> good tx' \<and> bk_bucket B tx' = bk_bucket B tx
       \<and> bk_get B tx' = (bk_get B tx)(p := (bk_get B tx p)(k := None)) \<and> seq tx' = seq tx"
    and bk_get_law: "good tx \<Longrightarrow> bk_get B tx p k = Some v \<Longrightarrow> bk_bucket B tx p"
    and bk_scan_sorted: "good tx \<Longrightarrow> bk_bucket B tx p \<Longrightarrow> sorted_wrt (<) (map fst (bk_scan B tx p s))"
    and bk_scan_value: "good tx \<Longrightarrow> bk_bucket B tx p \<Longrightarrow>
      (k, Some v) \<in> set (bk_scan B tx p s) \<longleftrightarrow> s \<le> k \<and> bk_get B tx p k = Some v"
    and bk_scan_bucket: "good tx \<Longrightarrow> bk_bucket B tx p \<Longrightarrow>
      (k, None) \<in> set (bk_scan B tx p s) \<longleftrightarrow> s \<le> k \<and> bk_bucket B tx (p @ [k])"

text \<open>
  The records bucket holds only namespace buckets, these hold only values, and every value
  is a record. The view of a transaction is what its values decode to.
\<close>

definition bolt_ok :: "'tx bbolt \<Rightarrow> ('tx \<Rightarrow> bool) \<Rightarrow> 'tx \<Rightarrow> bool" where
  "bolt_ok B good tx \<longleftrightarrow>
     good tx \<and> (\<forall>ns. bk_get B tx [boltRecordsBucket] ns = None)
     \<and> (\<forall>ns k. \<not> bk_bucket B tx [boltRecordsBucket, ns, k])
     \<and> (\<forall>ns. bk_bucket B tx [boltRecordsBucket, ns] \<longrightarrow> bk_bucket B tx [boltRecordsBucket])
     \<and> (\<forall>ns k v. bk_get B tx [boltRecordsBucket, ns] k = Some v \<longrightarrow> (\<exists>s. decodeBoltRecord v = Inr s))"

definition stored_of :: "bytes option \<Rightarrow> stored option" where
  "stored_of r =
     (case r of
        None \<Rightarrow> None
      | Some v \<Rightarrow> (case decodeBoltRecord v of Inl _ \<Rightarrow> None | Inr s \<Rightarrow> Some s))"

definition bolt_view :: "'tx bbolt \<Rightarrow> ('tx \<Rightarrow> path \<Rightarrow> int64) \<Rightarrow> 'tx \<Rightarrow> rstore" where
  "bolt_view B seq tx =
     \<lparr>rs_contents = (\<lambda>(ns, k). stored_of (bk_get B tx [boltRecordsBucket, ns] k)),
      rs_revision = seq tx [boltRecordsBucket]\<rparr>"

definition bolt_fits :: "bytes \<Rightarrow> bool" where
  "bolt_fits v \<longleftrightarrow> boltRecordHeaderSize + length v \<le> 2 ^ 31 - 2"

lemma stored_of_simps [simp]:
  "stored_of None = None" "stored_of (Some (encodeBoltRecord s)) = Some s"
  by (simp_all add: stored_of_def)

lemma valid_key_len:
  "validateRecordNamespaceAndKey ns k = None \<Longrightarrow>
     ns \<noteq> [] \<and> length ns \<le> 32768 \<and> k \<noteq> [] \<and> length k \<le> 32768"
  by (auto simp: validateRecordNamespaceAndKey_def ValidateRecordNamespace_def
      ValidateRecordKey_def validateRecordKeyOrPrefix_def maxRecordNamespaceLen_def
      maxRecordKeyLen_def split: option.splits if_splits)

text \<open>On decodable values, the cursor loop visits the keys up to the first without the prefix.\<close>

lemma for_each_collect:
  "\<forall>(k, v) \<in> set kvs. \<exists>b. v = Some b \<and> decodeBoltRecord b = Inr (d k) \<Longrightarrow>
     for_each_prefix p (\<lambda>acc k s. Inr (acc @ [f k s])) kvs acc
       = Inr (acc @ map (\<lambda>k. f k (d k)) (takeWhile (prefix p) (map fst kvs)))"
  by (induction kvs arbitrary: acc) auto

lemma takeWhile_map_fst:
  "map fst (takeWhile (\<lambda>(k, _). P k) kvs) = takeWhile P (map fst kvs)"
  by (induction kvs) auto

lemma drop_prefix_empty:
  assumes "keys_with_prefix ns p st = {}"
  shows "drop_prefix ns p st = st"
proof -
  have "(\<lambda>(n, k). if n = ns \<and> prefix p k then None else rs_contents st (n, k)) = rs_contents st"
    using assms by (auto simp: keys_with_prefix_def fun_eq_iff domIff)
  then show ?thesis by (simp add: drop_prefix_def)
qed

context bbolt_laws
begin

abbreviation "R \<equiv> boltRecordsBucket"
abbreviation "bok \<equiv> bolt_ok B good"
abbreviation "bview \<equiv> bolt_view B seq"

lemma create_root:
  assumes "bok tx"
  obtains tx' where "bk_create B tx [R] = Inr tx'" and "bok tx'" and "bview tx' = bview tx"
    and "bk_bucket B tx' [R]" and "bk_bucket B tx' = (bk_bucket B tx)([R] := True)"
    and "bk_get B tx' = bk_get B tx" and "seq tx' = seq tx"
proof -
  have "R \<noteq> []" by (simp add: boltRecordsBucket_def)
  with assms obtain tx' where "bk_create B tx [R] = Inr tx'" and "good tx'"
    and "bk_bucket B tx' = (bk_bucket B tx)([R] := True)" and "bk_get B tx' = bk_get B tx"
    and "seq tx' = seq tx"
    using bk_create_law [of tx "[R]"] by (auto simp: bolt_ok_def boltRecordsBucket_def)
  with that assms show ?thesis by (auto simp: bolt_ok_def bolt_view_def)
qed

lemma ensure_namespace:
  assumes tx: "bok tx" and ns: "ns \<noteq> []" "length ns \<le> 32768"
  obtains tx' where "boltEnsureNamespaceBucket B ns tx = (tx', Inr [R, ns])" and "bok tx'"
    and "bview tx' = bview tx" and "bk_bucket B tx' [R, ns]" and "bk_get B tx' = bk_get B tx"
proof -
  obtain t1 where t1: "bk_create B tx [R] = Inr t1" "bok t1" "bview t1 = bview tx"
    "bk_bucket B t1 [R]" "bk_get B t1 = bk_get B tx" using create_root [OF tx] by metis
  then obtain t2 where t2: "bk_create B t1 [R, ns] = Inr t2" "good t2"
    "bk_bucket B t2 = (bk_bucket B t1)([R, ns] := True)" "bk_get B t2 = bk_get B t1" "seq t2 = seq t1"
    using bk_create_law [of t1 "[R, ns]"] ns by (auto simp: bolt_ok_def)
  have "bok t2" "bview t2 = bview t1" using t1 t2 by (auto simp: bolt_ok_def bolt_view_def)
  with that t1 t2 show ?thesis
    by (simp add: boltEnsureNamespaceBucket_def call_bolt_def bindE_def)
qed

lemma next_revision:
  assumes tx: "bok tx"
  obtains tx' where "boltNextRevision B tx = (tx', Inr (rs_revision (bview tx) + 1))" and "bok tx'"
    and "bview tx' = (bview tx)\<lparr>rs_revision := rs_revision (bview tx) + 1\<rparr>"
    and "\<And>ns. bk_bucket B tx [R, ns] \<Longrightarrow> bk_bucket B tx' [R, ns]"
proof -
  obtain t1 where t1: "bk_create B tx [R] = Inr t1" "bok t1" "bview t1 = bview tx"
    "bk_bucket B t1 [R]" "bk_bucket B t1 = (bk_bucket B tx)([R] := True)" "seq t1 = seq tx"
    "bk_get B t1 = bk_get B tx" using create_root [OF tx] by metis
  then obtain t2 where t2: "bk_next B t1 [R] = Inr (seq t1 [R] + 1, t2)" "good t2"
    "bk_bucket B t2 = bk_bucket B t1" "bk_get B t2 = bk_get B t1"
    "seq t2 = (seq t1)([R] := seq t1 [R] + 1)"
    using bk_next_law [of t1 "[R]"] by (auto simp: bolt_ok_def)
  have "bok t2" using t1 t2 by (auto simp: bolt_ok_def)
  with that t1 t2 show ?thesis
    by (simp add: boltNextRevision_def call_bolt_def bindE_def bolt_view_def)
qed

lemma put_record:
  assumes tx: "bok tx" and b: "bk_bucket B tx [R, ns]" and k: "k \<noteq> []" "length k \<le> 32768"
    and v: "bolt_fits (s_value s)"
  obtains tx' where "boltPutRecord B [R, ns] k s tx = (tx', Inr ())" and "bok tx'"
    and "bview tx' = (bview tx)\<lparr>rs_contents := (rs_contents (bview tx))((ns, k) \<mapsto> s)\<rparr>"
proof -
  have "\<not> bk_bucket B tx ([R, ns] @ [k])" using tx by (simp add: bolt_ok_def)
  moreover have "length (encodeBoltRecord s) \<le> 2 ^ 31 - 2"
    using v by (simp add: bolt_fits_def boltRecordHeaderSize_def)
  ultimately obtain t where t: "bk_put B tx [R, ns] k (encodeBoltRecord s) = Inr t" "good t"
    "bk_bucket B t = bk_bucket B tx" "seq t = seq tx"
    "bk_get B t = (bk_get B tx)([R, ns] := (bk_get B tx [R, ns])(k \<mapsto> encodeBoltRecord s))"
    using bk_put_law [of tx "[R, ns]" k] tx b k by (metis bolt_ok_def)
  have "bok t" using tx t by (auto simp: bolt_ok_def)
  moreover have "bview t = (bview tx)\<lparr>rs_contents := (rs_contents (bview tx))((ns, k) \<mapsto> s)\<rparr>"
    by (auto simp: bolt_view_def t fun_eq_iff)
  ultimately show ?thesis
    using that t by (simp add: boltPutRecord_def call_bolt_def)
qed

lemma delete_record:
  assumes tx: "bok tx" and b: "bk_bucket B tx [R, ns]"
  obtains tx' where "call_bolt c (\<lambda>tx. bk_delete B tx [R, ns] k) tx = (tx', Inr ())" and "bok tx'"
    and "bview tx' = (bview tx)\<lparr>rs_contents := (rs_contents (bview tx))((ns, k) := None)\<rparr>"
    and "bk_bucket B tx' [R, ns]"
proof -
  have "\<not> bk_bucket B tx ([R, ns] @ [k])" using tx by (simp add: bolt_ok_def)
  then obtain t where t: "bk_delete B tx [R, ns] k = Inr t" "good t"
    "bk_bucket B t = bk_bucket B tx" "seq t = seq tx"
    "bk_get B t = (bk_get B tx)([R, ns] := (bk_get B tx [R, ns])(k := None))"
    using bk_delete_law [of tx "[R, ns]" k] tx b by (auto simp: bolt_ok_def)
  have "bok t" using tx t by (auto simp: bolt_ok_def)
  moreover have "bview t = (bview tx)\<lparr>rs_contents := (rs_contents (bview tx))((ns, k) := None)\<rparr>"
    by (auto simp: bolt_view_def t fun_eq_iff)
  ultimately show ?thesis
    using that t b by (simp add: call_bolt_def)
qed

lemma get_record:
  "bok tx \<Longrightarrow> boltGetRecord B ns k tx =
     (case rs_contents (bview tx) (ns, k) of
        None \<Rightarrow> Inl (RecordNotExist ns k) | Some s \<Rightarrow> Inr s)"
  using bk_get_law [of tx "[R, ns]" k]
  by (fastforce simp: boltGetRecord_def boltNamespaceBucket_def bolt_view_def stored_of_def
      bolt_ok_def split: option.splits sum.splits)

lemma get_None_iff:
  "bok tx \<Longrightarrow> rs_contents (bview tx) (ns, k) = None \<longleftrightarrow> bk_get B tx [R, ns] k = None"
  by (cases "bk_get B tx [R, ns] k")
    (fastforce simp: bolt_view_def stored_of_def bolt_ok_def split: sum.splits)+

lemma stored_bucket:
  "bok tx \<Longrightarrow> rs_contents (bview tx) (ns, k) = Some s \<Longrightarrow> boltNamespaceBucket B ns tx = Some [R, ns]"
  using bk_get_law [of tx "[R, ns]" k]
  by (auto simp: boltNamespaceBucket_def bolt_view_def stored_of_def bolt_ok_def split: option.splits)


lemma prefix_scan:
  assumes tx: "bok tx" and b: "bk_bucket B tx [R, ns]"
  obtains ks where "sorted_wrt (<) ks" and "set ks = keys_with_prefix ns p (bview tx)"
    and "map fst (takeWhile (\<lambda>(k, _). prefix p k) (bk_scan B tx [R, ns] p)) = ks"
    and "boltForEachPrefix B [R, ns] p (\<lambda>acc k s. Inr (acc @ [f k s])) [] tx
           = Inr (map (\<lambda>k. f k (the (rs_contents (bview tx) (ns, k)))) ks)"
proof -
  let ?kvs = "bk_scan B tx [R, ns] p"
  have good: "good tx" using tx by (simp add: bolt_ok_def)
  note vals = bk_scan_value [OF good b] and nested = bk_scan_bucket [OF good b]
  have some: "\<exists>b. v = Some b \<and> decodeBoltRecord b = Inr (the (rs_contents (bview tx) (ns, k)))"
    if "(k, v) \<in> set ?kvs" for k v
  proof (cases v)
    case None
    with that nested tx show ?thesis by (auto simp: bolt_ok_def)
  next
    case (Some b)
    with that vals have "bk_get B tx [R, ns] k = Some b" by simp
    with tx Some show ?thesis by (fastforce simp: bolt_view_def stored_of_def bolt_ok_def)
  qed
  define ks where "ks = takeWhile (prefix p) (map fst ?kvs)"
  have sorted: "sorted_wrt (<) (map fst ?kvs)" by (rule bk_scan_sorted [OF good b])
  have ge: "\<forall>k \<in> set (map fst ?kvs). p \<le> k" using some vals by fastforce
  have ks: "ks = filter (prefix p) (map fst ?kvs)"
    unfolding ks_def by (rule takeWhile_prefix [OF sorted ge])
  have "k \<in> set (map fst ?kvs) \<longleftrightarrow> (ns, k) \<in> dom (rs_contents (bview tx))" if "prefix p k" for k
  proof
    assume "k \<in> set (map fst ?kvs)"
    then obtain b where "(k, Some b) \<in> set ?kvs" using some by fastforce
    with vals tx show "(ns, k) \<in> dom (rs_contents (bview tx))"
      by (fastforce simp: bolt_view_def stored_of_def bolt_ok_def)
  next
    assume "(ns, k) \<in> dom (rs_contents (bview tx))"
    then obtain b where "bk_get B tx [R, ns] k = Some b"
      by (auto simp: bolt_view_def stored_of_def split: option.splits)
    with vals prefix_le [OF that] show "k \<in> set (map fst ?kvs)" by force
  qed
  then have "set ks = keys_with_prefix ns p (bview tx)"
    by (auto simp: ks keys_with_prefix_def)
  moreover have "sorted_wrt (<) ks" unfolding ks using sorted by (rule sorted_wrt_filter)
  moreover have "map fst (takeWhile (\<lambda>(k, _). prefix p k) ?kvs) = ks"
    by (simp add: takeWhile_map_fst ks_def)
  moreover have "boltForEachPrefix B [R, ns] p (\<lambda>acc k s. Inr (acc @ [f k s])) [] tx
           = Inr (map (\<lambda>k. f k (the (rs_contents (bview tx) (ns, k)))) ks)"
    unfolding boltForEachPrefix_def ks_def
    by (subst for_each_collect [where d = "\<lambda>k. the (rs_contents (bview tx) (ns, k))"])
      (use some in auto)
  ultimately show ?thesis using that by metis
qed

lemma no_bucket_no_keys:
  "bok tx \<Longrightarrow> boltNamespaceBucket B ns tx = None \<Longrightarrow> keys_with_prefix ns p (bview tx) = {}"
  using stored_bucket by (fastforce simp: keys_with_prefix_def)

lemma some_bucket:
  "boltNamespaceBucket B ns tx = Some b \<Longrightarrow> b = [R, ns] \<and> bk_bucket B tx [R, ns]"
  by (auto simp: boltNamespaceBucket_def split: if_splits)

lemma delete_keys_ok:
  "bok tx \<Longrightarrow> bk_bucket B tx [R, ns] \<Longrightarrow>
     \<exists>tx'. delete_keys B [R, ns] ks tx = (tx', Inr ()) \<and> bok tx'
       \<and> bview tx' = (bview tx)\<lparr>rs_contents :=
            (\<lambda>(n, k). if n = ns \<and> k \<in> set ks then None else rs_contents (bview tx) (n, k))\<rparr>"
proof (induction ks arbitrary: tx)
  case (Cons k ks)
  obtain t where t: "call_bolt DeletingFromBolt (\<lambda>tx. bk_delete B tx [R, ns] k) tx = (t, Inr ())"
    "bok t" "bk_bucket B t [R, ns]"
    "bview t = (bview tx)\<lparr>rs_contents := (rs_contents (bview tx))((ns, k) := None)\<rparr>"
    using delete_record [OF Cons.prems] by metis
  from Cons.IH [OF t(2,3)] obtain t' where "delete_keys B [R, ns] ks t = (t', Inr ())" "bok t'"
    "bview t' = (bview t)\<lparr>rs_contents :=
       (\<lambda>(n, k). if n = ns \<and> k \<in> set ks then None else rs_contents (bview t) (n, k))\<rparr>" by blast
  with t show ?case by (auto simp: fun_eq_iff)
qed auto

lemma create_refines:
  assumes tx: "bok tx" and v: "bolt_fits v"
  shows "tx_refines bok bview (boltTx_CreateRecord B now ns k v tx) (spec_create now ns k v (bview tx))"
proof (cases "validateRecordNamespaceAndKey ns k")
  case (Some e)
  with tx show ?thesis
    by (simp add: tx_refines_def boltTx_CreateRecord_def spec_create_def validate_cause bindE_def)
next
  case None
  note len = valid_key_len [OF None]
  obtain t1 where t1: "boltEnsureNamespaceBucket B ns tx = (t1, Inr [R, ns])" "bok t1"
    "bview t1 = bview tx" "bk_bucket B t1 [R, ns]" using ensure_namespace [OF tx] len by metis
  show ?thesis
  proof (cases "rs_contents (bview tx) (ns, k)")
    case (Some old)
    then have "bk_get B t1 [R, ns] k \<noteq> None"
      using get_None_iff [OF t1(2), of ns k] t1(3) by simp
    with t1 Some None show ?thesis
      by (simp add: tx_refines_def boltTx_CreateRecord_def bolt_create_def spec_create_def wrapE_def
          bindE_def)
  next
    case none: None
    obtain t2 where t2: "boltNextRevision B t1 = (t2, Inr (rs_revision (bview t1) + 1))" "bok t2"
      "bview t2 = (bview t1)\<lparr>rs_revision := rs_revision (bview t1) + 1\<rparr>" "bk_bucket B t2 [R, ns]"
      using next_revision [OF t1(2)] t1(4) by metis
    let ?s = "\<lparr>s_value = v, s_revision = rs_revision (bview tx) + 1, s_created = now, s_updated = now\<rparr>"
    obtain t3 where t3: "boltPutRecord B [R, ns] k ?s t2 = (t3, Inr ())" "bok t3"
      "bview t3 = (bview t2)\<lparr>rs_contents := (rs_contents (bview t2))((ns, k) \<mapsto> ?s)\<rparr>"
      using put_record [OF t2(2,4)] len v by (metis stored.select_convs(1))
    have "bk_get B t1 [R, ns] k = None"
      using get_None_iff [OF t1(2), of ns k] t1(3) none by simp
    with None none t1 t2 t3 show ?thesis
      by (simp add: tx_refines_def boltTx_CreateRecord_def bolt_create_def spec_create_def
          spec_write_def wrapE_def bindE_def Let_def)
  qed
qed

lemma update_refines:
  assumes tx: "bok tx" and v: "bolt_fits v"
  shows "tx_refines bok bview (boltTx_UpdateRecord B now ns k v r tx) (spec_update now ns k v r (bview tx))"
proof (cases "validateRecordNamespaceAndKey ns k = None
    \<and> (\<exists>old. rs_contents (bview tx) (ns, k) = Some old \<and> checkRecordRevision ns k r (s_revision old) = None)")
  case False
  with tx show ?thesis
    by (cases "validateRecordNamespaceAndKey ns k"; cases "rs_contents (bview tx) (ns, k)")
      (auto simp: tx_refines_def boltTx_UpdateRecord_def bolt_update_def spec_update_def validate_cause
        wrapE_def bindE_def get_record)
next
  case True
  then obtain old where valid: "validateRecordNamespaceAndKey ns k = None"
    and old: "rs_contents (bview tx) (ns, k) = Some old" "checkRecordRevision ns k r (s_revision old) = None"
    by blast
  note len = valid_key_len [OF valid]
  obtain t1 where t1: "boltNextRevision B tx = (t1, Inr (rs_revision (bview tx) + 1))" "bok t1"
    "bview t1 = (bview tx)\<lparr>rs_revision := rs_revision (bview tx) + 1\<rparr>" using next_revision [OF tx] by metis
  obtain t2 where t2: "boltEnsureNamespaceBucket B ns t1 = (t2, Inr [R, ns])" "bok t2"
    "bview t2 = bview t1" "bk_bucket B t2 [R, ns]" using ensure_namespace [OF t1(2)] len by metis
  let ?s = "\<lparr>s_value = v, s_revision = rs_revision (bview tx) + 1, s_created = s_created old, s_updated = now\<rparr>"
  obtain t3 where t3: "boltPutRecord B [R, ns] k ?s t2 = (t3, Inr ())" "bok t3"
    "bview t3 = (bview t2)\<lparr>rs_contents := (rs_contents (bview t2))((ns, k) \<mapsto> ?s)\<rparr>"
    using put_record [OF t2(2,4)] len v by (metis stored.select_convs(1))
  from tx valid old t1 t2 t3 show ?thesis
    by (simp add: tx_refines_def boltTx_UpdateRecord_def bolt_update_def spec_update_def
        spec_write_def wrapE_def bindE_def get_record Let_def)
qed

lemma delete_refines:
  assumes tx: "bok tx"
  shows "tx_refines bok bview (boltTx_DeleteRecord B ns k r tx) (spec_delete ns k r (bview tx))"
proof (cases "validateRecordNamespaceAndKey ns k = None
    \<and> (\<exists>old. rs_contents (bview tx) (ns, k) = Some old \<and> checkRecordRevision ns k r (s_revision old) = None)")
  case False
  with tx show ?thesis
    by (cases "validateRecordNamespaceAndKey ns k"; cases "rs_contents (bview tx) (ns, k)")
      (auto simp: tx_refines_def boltTx_DeleteRecord_def bolt_delete_def spec_delete_def validate_cause
        wrapE_def bindE_def get_record)
next
  case True
  then obtain old where valid: "validateRecordNamespaceAndKey ns k = None"
    and old: "rs_contents (bview tx) (ns, k) = Some old" "checkRecordRevision ns k r (s_revision old) = None"
    by blast
  note b = stored_bucket [OF tx old(1)]
  obtain t1 where "call_bolt DeletingFromBolt (\<lambda>tx. bk_delete B tx [R, ns] k) tx = (t1, Inr ())" "bok t1"
    "bview t1 = (bview tx)\<lparr>rs_contents := (rs_contents (bview tx))((ns, k) := None)\<rparr>"
    using delete_record [OF tx] some_bucket [OF b] by metis
  with tx valid old b show ?thesis
    by (simp add: tx_refines_def boltTx_DeleteRecord_def bolt_delete_def spec_delete_def
        wrapE_def bindE_def get_record)
qed

lemma delete_prefix_refines:
  assumes tx: "bok tx"
  shows "tx_refines bok bview (boltTx_DeleteRecordPrefix B ns p tx) (spec_delete_prefix ns p (bview tx))"
proof (cases "ValidateRecordNamespace ns = None \<and> ValidateRecordDeletePrefix p = None")
  case False
  with tx show ?thesis
    by (auto simp: tx_refines_def boltTx_DeleteRecordPrefix_def spec_delete_prefix_def validate_cause
        bindE_def split: option.splits)
next
  case valid: True
  show ?thesis
  proof (cases "boltNamespaceBucket B ns tx")
    case None
    with tx valid show ?thesis
      by (simp add: tx_refines_def boltTx_DeleteRecordPrefix_def bolt_deletePrefix_def
          spec_delete_prefix_def wrapE_def bindE_def drop_prefix_empty no_bucket_no_keys)
  next
    case (Some b)
    then have b: "b = [R, ns]" "bk_bucket B tx [R, ns]" using some_bucket by auto
    obtain ks where ks: "sorted_wrt (<) ks" "set ks = keys_with_prefix ns p (bview tx)"
      and "map fst (takeWhile (\<lambda>(k, _). prefix p k) (bk_scan B tx [R, ns] p)) = ks"
      and scan: "boltForEachPrefix B [R, ns] p (\<lambda>acc k s. Inr (acc @ [k])) [] tx = Inr (map (\<lambda>k. k) ks)"
      by (rule prefix_scan [OF tx b(2), where p = p and f = "\<lambda>k _. k"])
    obtain t where t: "delete_keys B [R, ns] ks tx = (t, Inr ())" "bok t"
      "bview t = (bview tx)\<lparr>rs_contents :=
         (\<lambda>(n, k). if n = ns \<and> k \<in> set ks then None else rs_contents (bview tx) (n, k))\<rparr>"
      using delete_keys_ok [OF tx b(2)] by blast
    have "bview t = drop_prefix ns p (bview tx)"
      unfolding t(3) ks(2) by (auto simp: drop_prefix_def keys_with_prefix_def fun_eq_iff domIff)
    moreover have "length ks = card (keys_with_prefix ns p (bview tx))"
      using ks by (metis distinct_card strict_sorted_iff)
    ultimately show ?thesis using t valid scan b Some
      by (simp add: tx_refines_def boltTx_DeleteRecordPrefix_def bolt_deletePrefix_def
          spec_delete_prefix_def wrapE_def bindE_def)
  qed
qed

end

sublocale bbolt_laws \<subseteq> bolt: record_tx "bolt_tx B" "bolt_ok B good" "bolt_view B seq" bolt_fits
proof
  fix tx ns k
  assume "bok tx"
  then show "tx_refines bok bview (tx_get (bolt_tx B) ns k tx) (bview tx, spec_get ns k (bview tx))"
    by (cases "validateRecordNamespaceAndKey ns k"; cases "rs_contents (bview tx) (ns, k)")
      (auto simp: tx_refines_def bolt_tx_def boltTx_GetRecord_def spec_get_def wrapE_def bindE_def
        get_record validate_cause)
qed (simp_all add: bolt_tx_def create_refines update_refines delete_refines delete_prefix_refines)

end
