(* ===== verification/Bolt_Store.thy ===== *)
theory Bolt_Store
  imports Bolt_Record
begin

section \<open>What the Bolt store guarantees\<close>

text \<open>
  \<open>ref_bolt\<close> is a bucket store that has the documented behaviour of bbolt: an interpretation
  of \<open>bbolt_laws\<close>, so that the laws are consistent and every property of this theory can be
  evaluated. The properties themselves hold for any bbolt with these laws.
\<close>

subsection \<open>A bucket store with the behaviour of bbolt\<close>

type_synonym rbolt = "(path \<times> int64 \<times> (string \<times> bytes) list) list"

definition rb_bucket :: "rbolt \<Rightarrow> path \<Rightarrow> bool" where
  "rb_bucket db p \<longleftrightarrow> map_of db p \<noteq> None"

definition rb_get :: "rbolt \<Rightarrow> path \<Rightarrow> string \<Rightarrow> bytes option" where
  "rb_get db p k = (case map_of db p of None \<Rightarrow> None | Some (n, es) \<Rightarrow> map_of es k)"

definition rb_seq :: "rbolt \<Rightarrow> path \<Rightarrow> int64" where
  "rb_seq db p = (case map_of db p of None \<Rightarrow> 0 | Some (n, es) \<Rightarrow> n)"

definition rb_create :: "rbolt \<Rightarrow> path \<Rightarrow> string + rbolt" where
  "rb_create db p =
     (if p = [] \<or> last p = [] then Inl ''bucket name required''
      else if rb_bucket db p then Inr db
      else if butlast p \<noteq> [] \<and> \<not> rb_bucket db (butlast p) then Inl ''bucket not found''
      else if rb_get db (butlast p) (last p) \<noteq> None then Inl ''incompatible value''
      else Inr ((p, 0, []) # db))"

definition rb_next :: "rbolt \<Rightarrow> path \<Rightarrow> string + (int64 \<times> rbolt)" where
  "rb_next db p =
     (case map_of db p of
        None \<Rightarrow> Inl ''bucket not found''
      | Some (n, es) \<Rightarrow> Inr (n + 1, AList.update p (n + 1, es) db))"

definition rb_put :: "rbolt \<Rightarrow> path \<Rightarrow> string \<Rightarrow> bytes \<Rightarrow> string + rbolt" where
  "rb_put db p k v =
     (if k = [] then Inl ''key required''
      else if length k > 32768 then Inl ''key too large''
      else if length v > 2 ^ 31 - 2 then Inl ''value too large''
      else if rb_bucket db (p @ [k]) then Inl ''incompatible value''
      else (case map_of db p of
              None \<Rightarrow> Inl ''bucket not found''
            | Some (n, es) \<Rightarrow> Inr (AList.update p (n, AList.update k v es) db)))"

definition rb_delete :: "rbolt \<Rightarrow> path \<Rightarrow> string \<Rightarrow> string + rbolt" where
  "rb_delete db p k =
     (if rb_bucket db (p @ [k]) then Inl ''incompatible value''
      else (case map_of db p of
              None \<Rightarrow> Inl ''bucket not found''
            | Some (n, es) \<Rightarrow> Inr (AList.update p (n, AList.delete k es) db)))"

definition rb_scan :: "rbolt \<Rightarrow> path \<Rightarrow> string \<Rightarrow> (string \<times> bytes option) list" where
  "rb_scan db p s =
     (case map_of db p of
        None \<Rightarrow> []
      | Some (n, es) \<Rightarrow>
          sort_key fst
            (filter (\<lambda>(k, _). s \<le> k)
              (map (\<lambda>(k, v). (k, Some v)) es
               @ map (\<lambda>(q, _). (last q, None)) (filter (\<lambda>(q, _). butlast q = p) db))))"

definition ref_bolt :: "rbolt bbolt" where
  "ref_bolt =
     \<lparr>bk_open = (\<lambda>_. None), bk_commit = (\<lambda>_. None), bk_bucket = rb_bucket, bk_create = rb_create,
      bk_next = rb_next, bk_get = rb_get, bk_put = rb_put, bk_delete = rb_delete,
      bk_scan = rb_scan\<rparr>"

definition rb_good :: "rbolt \<Rightarrow> bool" where
  "rb_good db \<longleftrightarrow>
     distinct (map fst db) \<and> [] \<notin> set (map fst db)
     \<and> (\<forall>p n es. map_of db p = Some (n, es) \<longrightarrow> distinct (map fst es))
     \<and> (\<forall>p k. rb_bucket db (p @ [k]) \<longrightarrow> rb_get db p k = None)"

lemma ref_bolt_sel [simp]:
  "bk_open ref_bolt = (\<lambda>_. None)" "bk_commit ref_bolt = (\<lambda>_. None)"
  "bk_bucket ref_bolt = rb_bucket" "bk_create ref_bolt = rb_create" "bk_next ref_bolt = rb_next"
  "bk_get ref_bolt = rb_get" "bk_put ref_bolt = rb_put" "bk_delete ref_bolt = rb_delete"
  "bk_scan ref_bolt = rb_scan"
  by (simp_all add: ref_bolt_def)

lemmas rb_defs = rb_bucket_def rb_get_def rb_seq_def

lemma map_of_update [simp]: "map_of (AList.update k v al) = (map_of al)(k \<mapsto> v)"
  by (rule update_conv')

lemma map_of_delete [simp]: "map_of (AList.delete k al) = (map_of al)(k := None)"
  by (rule delete_conv')

text \<open>Replacing the contents of one bucket keeps the buckets and the other contents.\<close>

lemma rb_good_update:
  assumes good: "rb_good db" and p: "map_of db p = Some (n, es)" and es: "distinct (map fst es')"
    and new: "\<And>k. rb_bucket db (p @ [k]) \<Longrightarrow> map_of es' k = None"
  shows "rb_good (AList.update p (m, es') db)"
proof -
  have "distinct (map fst (AList.update p (m, es') db))"
    using good by (simp add: rb_good_def distinct_update)
  moreover have "set (map fst (AList.update p (m, es') db)) = set (map fst db)"
    using p by (simp add: update_keys insert_absorb image_set [symmetric] del: image_set)
      (metis domI dom_map_of_conv_image_fst)
  ultimately show ?thesis
    using good p es new by (auto simp: rb_good_def rb_defs split: if_splits)
qed

lemma nested_names_distinct:
  assumes "distinct (map fst db)" and "[] \<notin> set (map fst db)"
  shows "distinct (map fst (map (\<lambda>(q, _). (last q, None)) (filter (\<lambda>(q, _). butlast q = p) db)))"
  using assms
proof (induction db)
  case (Cons e db)
  obtain q x where e: "e = (q, x)" by fastforce
  have "last q \<noteq> last q'" if "q' \<in> fst ` set db" "butlast q = p" "butlast q' = p" for q'
    using that Cons.prems e by (metis append_butlast_last_id distinct.simps(2) fst_conv list.simps(9)
        list.set_intros(2) image_set list.set_intros(1))
  with Cons e show ?case by (auto split: if_splits) (metis fst_conv image_eqI)
qed simp

lemma bucket_in_set: "rb_bucket db q \<longleftrightarrow> (\<exists>x. (q, x) \<in> set db)"
  by (force simp: rb_bucket_def map_of_eq_None_iff)

lemma no_root: "rb_good db \<Longrightarrow> map_of db [] = None"
  by (simp add: rb_good_def map_of_eq_None_iff)

lemma distinct_map_sort: "distinct (map f (sort_key g xs)) = distinct (map f xs)"
  by (simp add: distinct_map)

lemma rb_good_new:
  assumes good: "rb_good db" and p: "p \<noteq> []" and new: "\<not> rb_bucket db p"
    and free: "rb_get db (butlast p) (last p) = None"
  shows "rb_good ((p, 0, []) # db)"
proof -
  have "rb_get ((p, 0, []) # db) q k = None" if "rb_bucket ((p, 0, []) # db) (q @ [k])" for q k
  proof (cases "q @ [k] = p")
    case True
    then have "rb_get db q k = None" using free by auto
    then show ?thesis by (simp add: rb_get_def)
  next
    case False
    with that good have "rb_get db q k = None" by (auto simp: rb_good_def rb_bucket_def)
    then show ?thesis by (simp add: rb_get_def)
  qed
  then show ?thesis
    using good p new by (auto simp: rb_good_def rb_bucket_def map_of_eq_None_iff)
qed

lemma rb_scan_sorted:
  assumes good: "rb_good db" and p: "map_of db p = Some (n, es)"
  shows "sorted_wrt (<) (map fst (rb_scan db p s))"
proof -
  let ?A = "map (\<lambda>(k, v). (k, Some v)) es :: (string \<times> bytes option) list"
  let ?B = "map (\<lambda>(q, _). (last q, None)) (filter (\<lambda>(q, _). butlast q = p) db) :: (string \<times> bytes option) list"
  have A: "map fst ?A = map fst es" by (simp add: comp_def case_prod_beta)
  have "set (map fst ?B) \<subseteq> {k. rb_bucket db (p @ [k])}"
    using good by (auto simp: rb_good_def bucket_in_set) (metis append_butlast_last_id fst_conv image_eqI)
  moreover have "set (map fst ?A) \<subseteq> {k. rb_get db p k \<noteq> None}"
    using p by (auto simp: rb_get_def weak_map_of_SomeI)
  moreover have "{k. rb_bucket db (p @ [k])} \<inter> {k. rb_get db p k \<noteq> None} = {}"
    using good by (auto simp: rb_good_def)
  ultimately have "set (map fst ?A) \<inter> set (map fst ?B) = {}" by blast
  moreover have "distinct (map fst ?A)" unfolding A using good p by (auto simp: rb_good_def)
  moreover have "distinct (map fst ?B)"
    using good by (intro nested_names_distinct) (auto simp: rb_good_def)
  ultimately have "distinct (map fst (?A @ ?B))" by (simp only: map_append distinct_append)
  then have "distinct (map fst (filter (\<lambda>(k, _). s \<le> k) (?A @ ?B)))"
    by (rule distinct_map_filter)
  then have "distinct (map fst (rb_scan db p s))"
    by (simp only: rb_scan_def p option.case prod.case distinct_map_sort)
  moreover have "sorted (map fst (rb_scan db p s))" by (simp add: rb_scan_def p)
  ultimately show ?thesis by (metis strict_sorted_iff)
qed

lemma rb_scan_value:
  assumes good: "rb_good db" and p: "map_of db p = Some (n, es)"
  shows "(k, Some v) \<in> set (rb_scan db p s) \<longleftrightarrow> s \<le> k \<and> rb_get db p k = Some v"
proof -
  have "(k, v) \<in> set es \<longleftrightarrow> map_of es k = Some v"
    using good p by (auto simp: rb_good_def)
  then show ?thesis by (auto simp: rb_scan_def rb_get_def p)
qed

lemma rb_scan_bucket:
  assumes good: "rb_good db" and p: "map_of db p = Some (n, es)"
  shows "(k, None) \<in> set (rb_scan db p s) \<longleftrightarrow> s \<le> k \<and> rb_bucket db (p @ [k])"
proof -
  have "q \<noteq> []" if "(q, x) \<in> set db" for q x
    using good that by (force simp: rb_good_def)
  then have "(\<exists>q x. (q, x) \<in> set db \<and> butlast q = p \<and> last q = k) \<longleftrightarrow> (\<exists>x. (p @ [k], x) \<in> set db)"
    by (metis append_butlast_last_id butlast_snoc last_snoc)
  then show ?thesis by (auto simp: rb_scan_def p bucket_in_set) blast+
qed

lemma rb_bucketE:
  assumes "rb_bucket db p"
  obtains n es where "map_of db p = Some (n, es)"
  using assms by (cases "map_of db p") (auto simp: rb_bucket_def)

lemma rb_good_es: "rb_good db \<Longrightarrow> map_of db p = Some (n, es) \<Longrightarrow> distinct (map fst es)"
  unfolding rb_good_def by blast

lemma rb_good_nested:
  "rb_good db \<Longrightarrow> map_of db p = Some (n, es) \<Longrightarrow> rb_bucket db (p @ [k]) \<Longrightarrow> map_of es k = None"
  by (force simp: rb_good_def rb_get_def)

lemma rb_next_law:
  assumes good: "rb_good db" and b: "rb_bucket db p"
  shows "\<exists>db'. rb_next db p = Inr (rb_seq db p + 1, db') \<and> rb_good db' \<and> rb_bucket db' = rb_bucket db
    \<and> rb_get db' = rb_get db \<and> rb_seq db' = (rb_seq db)(p := rb_seq db p + 1)"
proof -
  obtain n es where p: "map_of db p = Some (n, es)" by (rule rb_bucketE [OF b])
  have "rb_good (AList.update p (n + 1, es) db)"
    by (rule rb_good_update [OF good p rb_good_es [OF good p]]) (rule rb_good_nested [OF good p])
  with p show ?thesis by (auto simp: rb_next_def rb_defs fun_eq_iff)
qed

lemma rb_put_law:
  assumes good: "rb_good db" and b: "rb_bucket db p" and k: "\<not> rb_bucket db (p @ [k])"
    "k \<noteq> []" "length k \<le> 32768" "length v \<le> 2 ^ 31 - 2"
  shows "\<exists>db'. rb_put db p k v = Inr db' \<and> rb_good db' \<and> rb_bucket db' = rb_bucket db
    \<and> rb_get db' = (rb_get db)(p := (rb_get db p)(k \<mapsto> v)) \<and> rb_seq db' = rb_seq db"
proof -
  obtain n es where p: "map_of db p = Some (n, es)" by (rule rb_bucketE [OF b])
  have "rb_good (AList.update p (n, AList.update k v es) db)"
    using rb_good_es [OF good p] rb_good_nested [OF good p] k(1)
    by (intro rb_good_update [OF good p]) (auto simp: distinct_update)
  with p k show ?thesis by (auto simp: rb_put_def rb_defs fun_eq_iff)
qed

lemma rb_delete_law:
  assumes good: "rb_good db" and b: "rb_bucket db p" and k: "\<not> rb_bucket db (p @ [k])"
  shows "\<exists>db'. rb_delete db p k = Inr db' \<and> rb_good db' \<and> rb_bucket db' = rb_bucket db
    \<and> rb_get db' = (rb_get db)(p := (rb_get db p)(k := None)) \<and> rb_seq db' = rb_seq db"
proof -
  obtain n es where p: "map_of db p = Some (n, es)" by (rule rb_bucketE [OF b])
  have "rb_good (AList.update p (n, AList.delete k es) db)"
    using rb_good_es [OF good p] rb_good_nested [OF good p]
    by (intro rb_good_update [OF good p]) (auto simp: distinct_delete)
  with p k show ?thesis by (auto simp: rb_delete_def rb_defs fun_eq_iff)
qed

lemma rb_create_law:
  assumes good: "rb_good db" and p: "p \<noteq> []" "last p \<noteq> []"
    and parent: "butlast p = [] \<or> rb_bucket db (butlast p) \<and> rb_get db (butlast p) (last p) = None"
  shows "\<exists>db'. rb_create db p = Inr db' \<and> rb_good db' \<and> rb_bucket db' = (rb_bucket db)(p := True)
    \<and> rb_get db' = rb_get db \<and> rb_seq db' = rb_seq db"
proof (cases "rb_bucket db p")
  case True
  with good p show ?thesis by (auto simp: rb_create_def fun_eq_iff)
next
  case False
  have none: "rb_get db (butlast p) (last p) = None"
    using parent no_root [OF good] by (auto simp: rb_get_def)
  have "rb_good ((p, 0, []) # db)" by (rule rb_good_new [OF good p(1) False none])
  with False good p none parent show ?thesis
    by (auto simp: rb_create_def rb_defs fun_eq_iff split: option.splits)
qed

interpretation rbolt: bbolt_laws ref_bolt rb_good rb_seq
proof (unfold_locales, unfold ref_bolt_sel)
  fix db p k v
  assume "rb_good db" and "rb_get db p k = Some v"
  then show "rb_bucket db p" by (auto simp: rb_defs split: option.splits)
qed (blast intro: rb_create_law rb_next_law rb_put_law rb_delete_law
    | (erule rb_bucketE, simp only: rb_scan_sorted rb_scan_value rb_scan_bucket))+

subsection \<open>Reading\<close>

lemma encode_decode: "decodeBoltRecord v = Inr s \<Longrightarrow> encodeBoltRecord s = v"
proof -
  assume d: "decodeBoltRecord v = Inr s"
  then have len: "25 \<le> length v" and hd: "v ! 0 = boltRecordFormat"
    and s: "s = \<lparr>s_value = drop 25 v, s_revision = get_uint64 (slice 1 9 v),
      s_created = get_uint64 (slice 9 17 v), s_updated = get_uint64 (slice 17 25 v)\<rparr>"
    by (auto simp: decodeBoltRecord_def boltRecordHeaderSize_def boltRecordTime_def split: if_splits)
  have step: "take 8 (drop m v) @ drop (m + 8) v = drop m v" for m
    by (metis add.commute append_take_drop_id drop_drop)
  have "length (slice 1 9 v) = 8" "length (slice 9 17 v) = 8" "length (slice 17 25 v) = 8"
    using len by (auto simp: slice_def)
  then have "encodeBoltRecord s = [v ! 0] @ slice 1 9 v @ slice 9 17 v @ slice 17 25 v @ drop 25 v"
    by (simp add: encodeBoltRecord_def s hd)
  also have "[v ! 0] = take 1 v" using len by (cases v) auto
  also have "take 1 v @ slice 1 9 v @ slice 9 17 v @ slice 17 25 v @ drop 25 v = v"
    using step [of 1] step [of 9] step [of 17] by (simp add: slice_def)
  finally show ?thesis .
qed

context bbolt_laws
begin

lemma list_records:
  assumes tx: "bok db" and op: "bk_open B db = None"
    and valid: "validateRecordNamespaceAndPrefix ns p = None"
  obtains ks where "sorted_wrt (<) ks" and "set ks = keys_with_prefix ns p (bview db)"
    and "ListRecordKeys B ns p db = Inr ks"
    and "ListRecords B ns p db = Inr (map (\<lambda>k. record_of ns k (the (rs_contents (bview db) (ns, k)))) ks)"
proof (cases "boltNamespaceBucket B ns db")
  case None
  with that [of "[]"] op valid no_bucket_no_keys [OF tx None] show ?thesis
    by (simp add: ListRecordKeys_def ListRecords_def viewRecords_def)
next
  case (Some b)
  then have b: "b = [R, ns]" "bk_bucket B db [R, ns]" using some_bucket by auto
  obtain ks where "sorted_wrt (<) ks" "set ks = keys_with_prefix ns p (bview db)"
    and "map fst (takeWhile (\<lambda>(k, _). prefix p k) (bk_scan B db [R, ns] p)) = ks"
    and "boltForEachPrefix B [R, ns] p (\<lambda>acc k s. Inr (acc @ [record_of ns k s])) [] db
      = Inr (map (\<lambda>k. record_of ns k (the (rs_contents (bview db) (ns, k)))) ks)"
    by (rule prefix_scan [OF tx b(2), where p = p and f = "record_of ns"])
  with that [of ks] op valid Some b show ?thesis
    by (simp add: ListRecordKeys_def ListRecords_def viewRecords_def)
qed

lemma run_refines_bolt:
  "bok tx \<Longrightarrow> list_all (op_fits bolt_fits) ops \<Longrightarrow> tx_run (bolt_tx B) ops tx = (tx', outs) \<Longrightarrow>
     bok tx' \<and> tx_run spec_ops ops (bview tx) = (bview tx', map caused outs)"
  by (rule bolt.run_refines)

lemma seq_refines_bolt:
  "bok tx \<Longrightarrow> list_all (op_fits bolt_fits) ops \<Longrightarrow>
     tx_refines bok bview (tx_seq (bolt_tx B) ops tx) (tx_seq spec_ops ops (bview tx))"
  by (rule bolt.seq_refines)

lemma txn_commits: "RecordTxn B fn db = (db', Inr x) \<longleftrightarrow>
    fn db = (db', Inr x) \<and> bk_open B db = None \<and> bk_commit B db' = None"
  by (auto simp: RecordTxn_def split: option.splits sum.splits prod.splits)

lemma txn_fails: "RecordTxn B fn db = (db', Inl e) \<Longrightarrow> db' = db"
  by (auto simp: RecordTxn_def split: option.splits sum.splits prod.splits)

lemma stale_update_store:
  assumes db: "bok db" and fit: "bolt_fits v" "bolt_fits w"
    and wf: "rs_wf (bview db)" "rs_revision (bview db) \<noteq> - 1" and e: "e \<noteq> AnyRevision"
    and first: "UpdateRecord B now ns k v e db = (db1, Inr r)"
    and second: "UpdateRecord B now' ns k w e db1 = (db2, out)"
  shows "db2 = db1 \<and> (\<exists>err. out = Inl err
    \<and> (bk_open B db1 = None \<longrightarrow> cause err = RecordConflict ns k e (r_revision r)))"
proof -
  have u1: "tx_update (bolt_tx B) now ns k v e db = (db1, Inr r)"
    using first by (simp add: UpdateRecord_def txn_commits)
  obtain tx2 out2 where u2: "tx_update (bolt_tx B) now' ns k w e db1 = (tx2, out2)" by fastforce
  from bolt.stale_update_refused [OF db fit wf e u1 u2] obtain err
    where "out2 = Inl err" "cause err = RecordConflict ns k e (r_revision r)" by blast
  with second u2 show ?thesis
    by (auto simp: UpdateRecord_def RecordTxn_def split: option.splits)
qed

end

subsection \<open>Properties\<close>

text \<open>
  C1: a transaction of the Bolt store implements the record contract: any sequence of gets,
  creates, updates, deletes and prefix deletes gives, call by call, the results (up to error
  wrapping) and the contents of the abstract store, and keeps the store well formed.
\<close>

theorem bolt_tx_refines_spec:
  assumes "bbolt_laws B good seq" and "bolt_ok B good tx"
    and "list_all (op_fits bolt_fits) ops"
    and "tx_run (bolt_tx B) ops tx = (tx', outs)"
  shows "bolt_ok B good tx'
    \<and> tx_run spec_ops ops (bolt_view B seq tx) = (bolt_view B seq tx', map caused outs)"
  by (rule bbolt_laws.run_refines_bolt [OF assms])

definition demo_ops :: "rec_op list" where
  "demo_ops = [OpCreate 10 ''n'' ''k'' [1, 2], OpUpdate 11 ''n'' ''k'' [3] 1, OpDeletePrefix ''n'' ''k'']"

definition demo_db :: rbolt where
  "demo_db =
     [([boltRecordsBucket], 1, []),
      ([boltRecordsBucket, ''n''], 0,
       [(''k'', encodeBoltRecord \<lparr>s_value = [7], s_revision = 1, s_created = 5, s_updated = 5\<rparr>)])]"

lemma demo_ok: "bolt_ok ref_bolt rb_good demo_db"
  by (auto simp: bolt_ok_def demo_db_def rb_good_def rb_defs split: if_splits)

lemma demo_fits: "list_all (op_fits bolt_fits) demo_ops"
  by (simp add: demo_ops_def op_fits_def bolt_fits_def boltRecordHeaderSize_def)

lemma demo_valid: "validateRecordNamespaceAndKey ''n'' ''k'' = None"
  by (simp add: validateRecordNamespaceAndKey_def ValidateRecordNamespace_def ValidateRecordKey_def
      validateRecordKeyOrPrefix_def isRecordNameStart_def isRecordNameRune_def runes_def
      valid_utf8_def rune_error_def maxRecordKeyLen_def maxRecordNamespaceLen_def
      suffix_Cons sublist_Cons_right)

theorem bolt_tx_refines_spec_witness:
  "\<exists>tx' outs. tx_run (bolt_tx ref_bolt) demo_ops demo_db = (tx', outs) \<and> length outs = 3
    \<and> tx_run spec_ops demo_ops (bolt_view ref_bolt rb_seq demo_db)
        = (bolt_view ref_bolt rb_seq tx', map caused outs)"
proof -
  obtain tx' outs where run: "tx_run (bolt_tx ref_bolt) demo_ops demo_db = (tx', outs)" by fastforce
  moreover from this have "length outs = 3" by (auto simp: demo_ops_def split: prod.splits)
  ultimately show ?thesis
    using bolt_tx_refines_spec [OF rbolt.bbolt_laws_axioms demo_ok demo_fits run] by blast
qed

text \<open>
  C2: a transaction of the Bolt store is all or nothing: when its body or the commit fails, the
  database is the one before; else every call of the body has been applied, in order.
\<close>

theorem bolt_txn_atomic:
  assumes "bbolt_laws B good seq" and "bolt_ok B good db"
    and "list_all (op_fits bolt_fits) ops"
  shows "case RecordTxn B (tx_seq (bolt_tx B) ops) db of
      (db', Inl e) \<Rightarrow> db' = db
    | (db', Inr outs) \<Rightarrow> bolt_ok B good db'
        \<and> tx_seq spec_ops ops (bolt_view B seq db) = (bolt_view B seq db', Inr outs)"
proof (cases "RecordTxn B (tx_seq (bolt_tx B) ops) db")
  case (Pair db' out)
  show ?thesis
  proof (cases out)
    case (Inl e)
    then have "db' = db"
      using bbolt_laws.txn_fails [OF assms(1), of "tx_seq (bolt_tx B) ops" db db' e] Pair by simp
    with Pair Inl show ?thesis by simp
  next
    case (Inr outs)
    then have "tx_seq (bolt_tx B) ops db = (db', Inr outs)"
      using bbolt_laws.txn_commits [OF assms(1), of "tx_seq (bolt_tx B) ops" db db' outs] Pair by simp
    with bbolt_laws.seq_refines_bolt [OF assms] have
      "tx_refines (bolt_ok B good) (bolt_view B seq) (db', Inr outs)
         (tx_seq spec_ops ops (bolt_view B seq db))" by simp
    then have "bolt_ok B good db'"
      and "tx_seq spec_ops ops (bolt_view B seq db) = (bolt_view B seq db', Inr outs)"
      by (auto simp: tx_refines_def prod_eq_iff)
    with Pair Inr show ?thesis by simp
  qed
qed

theorem bolt_txn_atomic_witness:
  "case RecordTxn ref_bolt (tx_seq (bolt_tx ref_bolt) demo_ops) demo_db of
      (db', Inl e) \<Rightarrow> db' = demo_db
    | (db', Inr outs) \<Rightarrow> bolt_ok ref_bolt rb_good db'
        \<and> tx_seq spec_ops demo_ops (bolt_view ref_bolt rb_seq demo_db)
            = (bolt_view ref_bolt rb_seq db', Inr outs)"
  by (rule bolt_txn_atomic [OF rbolt.bbolt_laws_axioms demo_ok demo_fits])

text \<open>
  C6: no lost update: when two writers name the same revision of a record, the second one is
  refused with a conflict that names the revision of the first, and changes nothing.
\<close>

theorem bolt_no_lost_update:
  assumes "bbolt_laws B good seq" and "bolt_ok B good db" and "bolt_fits v" and "bolt_fits w"
    and "rs_wf (bolt_view B seq db)" and "rs_revision (bolt_view B seq db) \<noteq> - 1"
    and "e \<noteq> AnyRevision"
    and "UpdateRecord B now ns k v e db = (db1, Inr r)"
    and "UpdateRecord B now' ns k w e db1 = (db2, out)"
  shows "db2 = db1 \<and> (\<exists>err. out = Inl err
    \<and> (bk_open B db1 = None \<longrightarrow> cause err = RecordConflict ns k e (r_revision r)))"
  by (rule bbolt_laws.stale_update_store [OF assms])

lemma demo_update:
  "\<exists>db1. UpdateRecord ref_bolt 9 ''n'' ''k'' [8] 1 demo_db
     = (db1, Inr \<lparr>r_namespace = ''n'', r_key = ''k'', r_value = [8], r_revision = 2,
                 r_created = 5, r_updated = 9\<rparr>)"
  by (simp add: UpdateRecord_def RecordTxn_def bolt_tx_def boltTx_UpdateRecord_def demo_valid
      bolt_update_def wrapE_def bindE_def boltGetRecord_def boltNamespaceBucket_def demo_db_def
      rb_defs checkRecordRevision_def boltNextRevision_def call_bolt_def rb_create_def rb_next_def
      boltEnsureNamespaceBucket_def boltPutRecord_def rb_put_def record_of_def Let_def
      boltRecordsBucket_def)

theorem bolt_no_lost_update_witness:
  "\<exists>db1 r. UpdateRecord ref_bolt 9 ''n'' ''k'' [8] 1 demo_db = (db1, Inr r) \<and> r_revision r = 2
    \<and> fst (UpdateRecord ref_bolt 12 ''n'' ''k'' [6] 1 db1) = db1
    \<and> (\<exists>err. snd (UpdateRecord ref_bolt 12 ''n'' ''k'' [6] 1 db1) = Inl err
          \<and> cause err = RecordConflict ''n'' ''k'' 1 2)"
proof -
  obtain db1 r where first: "UpdateRecord ref_bolt 9 ''n'' ''k'' [8] 1 demo_db = (db1, Inr r)"
    and r: "r_revision r = 2" using demo_update by fastforce
  obtain db2 out where second: "UpdateRecord ref_bolt 12 ''n'' ''k'' [6] 1 db1 = (db2, out)" by fastforce
  have fits: "bolt_fits [8]" "bolt_fits [6]" by (simp_all add: bolt_fits_def boltRecordHeaderSize_def)
  have wf: "rs_wf (bolt_view ref_bolt rb_seq demo_db)"
    "rs_revision (bolt_view ref_bolt rb_seq demo_db) \<noteq> - 1"
    by (auto simp: rs_wf_def bolt_view_def demo_db_def rb_defs ran_def split: if_splits)
  have "(1 :: int64) \<noteq> AnyRevision" by (simp add: AnyRevision_def)
  from bolt_no_lost_update [OF rbolt.bbolt_laws_axioms demo_ok fits wf this first second]
  show ?thesis using first second r by auto
qed

text \<open>
  C14: the on-disk form is exact: a byte string decodes to a record exactly when it is the
  encoding of that record.
\<close>

theorem bolt_record_codec: "decodeBoltRecord v = Inr s \<longleftrightarrow> v = encodeBoltRecord s"
  using encode_decode by fastforce

text \<open>
  Listing a prefix gives the records of the namespace whose key has that prefix, each once,
  in the byte order of the keys, and listing only the keys gives the same keys.
\<close>

theorem bolt_list_records:
  assumes "bbolt_laws B good seq" and "bolt_ok B good db" and "bk_open B db = None"
    and "validateRecordNamespaceAndPrefix ns p = None"
  shows "\<exists>rs. ListRecords B ns p db = Inr rs \<and> ListRecordKeys B ns p db = Inr (map r_key rs)
    \<and> sorted_wrt (<) (map r_key rs)
    \<and> set rs = {record_of ns k s | k s. prefix p k \<and> rs_contents (bolt_view B seq db) (ns, k) = Some s}"
proof -
  let ?rec = "\<lambda>k. record_of ns k (the (rs_contents (bolt_view B seq db) (ns, k)))"
  obtain ks where ks: "sorted_wrt (<) ks" "set ks = keys_with_prefix ns p (bolt_view B seq db)"
    and "ListRecordKeys B ns p db = Inr ks" and "ListRecords B ns p db = Inr (map ?rec ks)"
    by (rule bbolt_laws.list_records [OF assms])
  moreover have "map r_key (map ?rec ks) = ks" by (induction ks) auto
  moreover have "set (map ?rec ks)
      = {record_of ns k s | k s. prefix p k \<and> rs_contents (bolt_view B seq db) (ns, k) = Some s}"
    using ks(2) by (force simp: keys_with_prefix_def)
  ultimately show ?thesis by metis
qed

theorem bolt_list_records_witness:
  "\<exists>rs. ListRecords ref_bolt ''n'' [] demo_db = Inr rs
    \<and> ListRecordKeys ref_bolt ''n'' [] demo_db = Inr (map r_key rs)"
proof -
  have "validateRecordNamespaceAndPrefix ''n'' [] = None"
    by (simp add: validateRecordNamespaceAndPrefix_def ValidateRecordNamespace_def
        ValidateRecordPrefix_def isRecordNameStart_def isRecordNameRune_def runes_def
        maxRecordNamespaceLen_def)
  from bolt_list_records [OF rbolt.bbolt_laws_axioms demo_ok _ this] show ?thesis by auto
qed

text \<open>
  C13: revisions only go up and are never used twice: over any sequence of calls, each write
  gets a revision above all earlier ones and above every revision in the store.
\<close>

theorem bolt_revisions_increase:
  assumes laws: "bbolt_laws B good seq" and ok: "bolt_ok B good tx"
    and fits: "list_all (op_fits bolt_fits) ops"
    and run: "tx_run (bolt_tx B) ops tx = (tx', outs)"
    and wf: "rs_wf (bolt_view B seq tx)"
    and room: "unat (rs_revision (bolt_view B seq tx)) + length ops < 2 ^ 64"
  shows "rs_wf (bolt_view B seq tx') \<and> sorted_wrt (<) (write_revs ops outs)
    \<and> (\<forall>r \<in> set (write_revs ops outs). rs_revision (bolt_view B seq tx) < r
          \<and> r \<le> rs_revision (bolt_view B seq tx'))"
proof -
  have "tx_run spec_ops ops (bolt_view B seq tx) = (bolt_view B seq tx', map caused outs)"
    using bbolt_laws.run_refines_bolt [OF laws ok fits run] by blast
  moreover have "(2 :: nat) ^ 64 \<le> 2 ^ LENGTH(64)" by simp
  ultimately show ?thesis
    using spec_run_revisions [OF _ _ wf room] by fastforce
qed

theorem bolt_revisions_increase_witness:
  "\<exists>tx' outs. tx_run (bolt_tx ref_bolt) demo_ops demo_db = (tx', outs)
    \<and> sorted_wrt (<) (write_revs demo_ops outs)"
proof -
  obtain tx' outs where run: "tx_run (bolt_tx ref_bolt) demo_ops demo_db = (tx', outs)" by fastforce
  have wf: "rs_wf (bolt_view ref_bolt rb_seq demo_db)"
    by (auto simp: rs_wf_def bolt_view_def demo_db_def rb_defs ran_def split: if_splits)
  have "unat (rs_revision (bolt_view ref_bolt rb_seq demo_db)) + length demo_ops < 2 ^ 64"
    by (simp add: bolt_view_def demo_db_def rb_defs demo_ops_def)
  from bolt_revisions_increase [OF rbolt.bbolt_laws_axioms demo_ok demo_fits run wf this]
  show ?thesis using run by blast
qed

end
