(* ===== verification/Record_Store.thy ===== *)
theory Record_Store
  imports Bolt_Store
begin

section \<open>Record stores as their clients see them\<close>

text \<open>
  The interface \<^verbatim>\<open>RecordStore\<close> of \<^verbatim>\<open>store/store.go\<close>, which the Builder service is given. A client
  runs a function in a transaction and gets back its error, so a transaction is described by what
  can go wrong around the function (\<open>rd_begin\<close>, \<open>rd_commit\<close>) and by the calls it can make
  (\<open>rd_tx\<close>); \<open>record_txn\<close> runs it. The locale \<open>record_store\<close> adds to \<open>record_tx\<close> what the calls
  outside a transaction promise; the Bolt store is an instance.

  A client that looks at an error only with \<^verbatim>\<open>errors.Is\<close> and \<^verbatim>\<open>errors.As\<close> sees its cause
  (\<open>callE\<close>). Such a client does to every store what it does to the abstract store: \<open>simulated\<close>
  says so, and is kept by everything a client is composed of. So the properties of a client are
  proved once, over the abstract store.
\<close>

record 's rec_store =
  rd_tx :: "'s tx_ops"
  rd_begin :: "'s \<Rightarrow> rec_error option"
  rd_commit :: "'s \<Rightarrow> rec_error option"
  rd_get :: "string \<Rightarrow> string \<Rightarrow> 's \<Rightarrow> rec_error + store_record"
  rd_list :: "string \<Rightarrow> string \<Rightarrow> 's \<Rightarrow> rec_error + store_record list"
  rd_keys :: "string \<Rightarrow> string \<Rightarrow> 's \<Rightarrow> rec_error + string list"

text \<open>
  \<open>f\<close> makes an error of the store an error of the client; the function gets back what it has
  written only when the transaction commits.
\<close>

definition record_txn :: "'s rec_store \<Rightarrow> (rec_error \<Rightarrow> 'e) \<Rightarrow> ('s, 'e, 'a) action \<Rightarrow> ('s, 'e, 'a) action" where
  "record_txn S f fn s =
     (case rd_begin S s of
        Some e \<Rightarrow> (s, Inl (f e))
      | None \<Rightarrow>
          (case fn s of
             (t, Inl e) \<Rightarrow> (s, Inl e)
           | (t, Inr x) \<Rightarrow> (case rd_commit S t of Some e \<Rightarrow> (s, Inl (f e)) | None \<Rightarrow> (t, Inr x))))"

definition bolt_store :: "'tx bbolt \<Rightarrow> 'tx rec_store" where
  "bolt_store B =
     \<lparr>rd_tx = bolt_tx B,
      rd_begin = (\<lambda>db. map_option (\<lambda>m. Wrapped OpeningFile (StoreFailure m)) (bk_open B db)),
      rd_commit = (\<lambda>tx. map_option (\<lambda>m. Wrapped CommittingRecords (StoreFailure m)) (bk_commit B tx)),
      rd_get = GetRecord B, rd_list = ListRecords B, rd_keys = ListRecordKeys B\<rparr>"

lemma bolt_store_sel: "rd_tx (bolt_store B) = bolt_tx B"
  by (simp add: bolt_store_def)

lemma bolt_record_txn: "record_txn (bolt_store B) (\<lambda>e. e) fn = RecordTxn B fn"
  by (simp add: record_txn_def RecordTxn_def bolt_store_def fun_eq_iff split: option.splits sum.splits prod.splits)

text \<open>The calls outside a transaction are transactions of one call.\<close>

abbreviation rd_update ::
  "'s rec_store \<Rightarrow> int64 \<Rightarrow> string \<Rightarrow> string \<Rightarrow> bytes \<Rightarrow> int64 \<Rightarrow> ('s, rec_error, store_record) action" where
  "rd_update S now ns k v r \<equiv> record_txn S (\<lambda>e. e) (tx_update (rd_tx S) now ns k v r)"

abbreviation rd_create ::
  "'s rec_store \<Rightarrow> int64 \<Rightarrow> string \<Rightarrow> string \<Rightarrow> bytes \<Rightarrow> ('s, rec_error, store_record) action" where
  "rd_create S now ns k v \<equiv> record_txn S (\<lambda>e. e) (tx_create (rd_tx S) now ns k v)"

abbreviation rd_delete :: "'s rec_store \<Rightarrow> string \<Rightarrow> string \<Rightarrow> int64 \<Rightarrow> ('s, rec_error, unit) action" where
  "rd_delete S ns k r \<equiv> record_txn S (\<lambda>e. e) (tx_delete (rd_tx S) ns k r)"

lemma bolt_store_calls:
  "rd_create (bolt_store B) = CreateRecord B" "rd_update (bolt_store B) = UpdateRecord B"
  "rd_delete (bolt_store B) = DeleteRecord B"
  by (simp_all add: bolt_record_txn CreateRecord_def UpdateRecord_def DeleteRecord_def bolt_store_sel fun_eq_iff)

subsection \<open>The abstract store as a store\<close>

definition spec_list :: "string \<Rightarrow> string \<Rightarrow> rstore \<Rightarrow> store_record list" where
  "spec_list ns p st =
     map (\<lambda>k. record_of ns k (the (rs_contents st (ns, k)))) (sorted_list_of_set (keys_with_prefix ns p st))"

definition spec_store :: "rstore rec_store" where
  "spec_store =
     \<lparr>rd_tx = spec_ops, rd_begin = (\<lambda>_. None), rd_commit = (\<lambda>_. None), rd_get = spec_get,
      rd_list = (\<lambda>ns p st. case validateRecordNamespaceAndPrefix ns p of Some e \<Rightarrow> Inl e | None \<Rightarrow> Inr (spec_list ns p st)),
      rd_keys = (\<lambda>ns p st. case validateRecordNamespaceAndPrefix ns p of
         Some e \<Rightarrow> Inl e | None \<Rightarrow> Inr (map r_key (spec_list ns p st)))\<rparr>"

lemma spec_store_sel [simp]:
  "rd_tx spec_store = spec_ops" "rd_get spec_store = spec_get" "rd_begin spec_store st = None" "rd_commit spec_store st = None"
  by (simp_all add: spec_store_def)

lemma spec_txn: "record_txn spec_store f fn st = (case fn st of (t, Inl e) \<Rightarrow> (st, Inl e) | (t, Inr x) \<Rightarrow> (t, Inr x))"
  by (simp add: record_txn_def spec_store_def)

subsection \<open>The contract\<close>

text \<open>A failure of the store itself: of its file, not of what is asked of it.\<close>

definition store_failure :: "rec_error \<Rightarrow> bool" where
  "store_failure e \<longleftrightarrow> (\<exists>m. cause e = StoreFailure m)"

locale record_store = record_tx "rd_tx S" ok view fits
  for S :: "'s rec_store" and ok :: "'s \<Rightarrow> bool" and view :: "'s \<Rightarrow> rstore" and fits :: "bytes \<Rightarrow> bool" +
  assumes begin_law: "rd_begin S s = Some e \<Longrightarrow> store_failure e"
    and commit_law: "rd_commit S s = Some e \<Longrightarrow> store_failure e"
    and read_law: "ok s \<Longrightarrow> caused (rd_get S ns k s) = spec_get ns k (view s) \<or> (\<exists>e. rd_get S ns k s = Inl e \<and> store_failure e)"
    and list_law: "ok s \<Longrightarrow> caused (rd_list S ns p s) = rd_list spec_store ns p (view s)
      \<or> (\<exists>e. rd_list S ns p s = Inl e \<and> store_failure e)"
    and keys_law: "ok s \<Longrightarrow> caused (rd_keys S ns p s) = rd_keys spec_store ns p (view s)
      \<or> (\<exists>e. rd_keys S ns p s = Inl e \<and> store_failure e)"

sublocale bbolt_laws \<subseteq> store: record_store "bolt_store B" "bolt_ok B good" "bolt_view B seq" bolt_fits
proof -
  have fail: "store_failure (Wrapped c (StoreFailure m))" "store_failure (Wrapped c (Wrapped d (StoreFailure m)))" for c d m
    by (simp_all add: store_failure_def)
  have listed: "rd_list spec_store ns p (bview db) = Inr (map (\<lambda>k. record_of ns k (the (rs_contents (bview db) (ns, k)))) ks)
      \<and> rd_keys spec_store ns p (bview db) = Inr ks"
    if "sorted_wrt (<) ks" "set ks = keys_with_prefix ns p (bview db)" "validateRecordNamespaceAndPrefix ns p = None" for ns p db ks
  proof -
    have "sorted_list_of_set (keys_with_prefix ns p (bview db)) = ks"
      using that by (metis sorted_list_of_set.idem_if_sorted_distinct strict_sorted_iff)
    moreover have "map (r_key \<circ> (\<lambda>k. record_of ns k (the (rs_contents (bview db) (ns, k))))) ks = ks" by (induction ks) auto
    ultimately show ?thesis using that(3) by (simp add: spec_store_def spec_list_def)
  qed
  show "record_store (bolt_store B) (bolt_ok B good) (bolt_view B seq) bolt_fits"
  proof (intro record_store.intro record_store_axioms.intro)
    show "record_tx (rd_tx (bolt_store B)) (bolt_ok B good) (bolt_view B seq) bolt_fits"
      unfolding bolt_store_sel by (rule bolt.record_tx_axioms)
  next
    fix s ns k assume ok: "bok s"
    show "caused (rd_get (bolt_store B) ns k s) = spec_get ns k (bview s)
      \<or> (\<exists>e. rd_get (bolt_store B) ns k s = Inl e \<and> store_failure e)"
      using fail ok by (cases "rs_contents (bview s) (ns, k)")
        (auto simp: bolt_store_def GetRecord_def viewRecords_def spec_get_def get_record validate_cause split: option.splits sum.splits)
  next
    fix s ns p assume ok: "bok s"
    show "caused (rd_list (bolt_store B) ns p s) = rd_list spec_store ns p (bview s)
      \<or> (\<exists>e. rd_list (bolt_store B) ns p s = Inl e \<and> store_failure e)"
    proof (cases "validateRecordNamespaceAndPrefix ns p = None \<and> bk_open B s = None")
      case True
      then obtain ks where "sorted_wrt (<) ks" "set ks = keys_with_prefix ns p (bview s)"
        "ListRecordKeys B ns p s = Inr ks"
        "ListRecords B ns p s = Inr (map (\<lambda>k. record_of ns k (the (rs_contents (bview s) (ns, k)))) ks)"
        using list_records[OF ok] by blast
      then show ?thesis using listed[of ks ns p s] True by (simp add: bolt_store_def)
    next
      case False
      then show ?thesis using fail validate_cause
        by (auto simp: bolt_store_def ListRecords_def viewRecords_def spec_store_def validateRecordNamespaceAndPrefix_def
            split: option.splits)
    qed
    show "caused (rd_keys (bolt_store B) ns p s) = rd_keys spec_store ns p (bview s)
      \<or> (\<exists>e. rd_keys (bolt_store B) ns p s = Inl e \<and> store_failure e)"
    proof (cases "validateRecordNamespaceAndPrefix ns p = None \<and> bk_open B s = None")
      case True
      then obtain ks where "sorted_wrt (<) ks" "set ks = keys_with_prefix ns p (bview s)"
        "ListRecordKeys B ns p s = Inr ks"
        "ListRecords B ns p s = Inr (map (\<lambda>k. record_of ns k (the (rs_contents (bview s) (ns, k)))) ks)"
        using list_records[OF ok] by blast
      then show ?thesis using listed[of ks ns p s] True by (simp add: bolt_store_def)
    next
      case False
      then show ?thesis using fail validate_cause
        by (auto simp: bolt_store_def ListRecordKeys_def viewRecords_def spec_store_def validateRecordNamespaceAndPrefix_def
            split: option.splits)
    qed
  qed (use fail in \<open>auto simp: bolt_store_def\<close>)
qed

subsection \<open>Clients\<close>

text \<open>
  \<open>callE m k\<close>: a call of the store whose error the client looks at; \<open>readingE f g\<close>: a read whose
  error becomes one of the client.
\<close>

definition callE :: "('s, rec_error, 'a) action \<Rightarrow> (rec_error + 'a \<Rightarrow> ('s, 'e, 'b) action) \<Rightarrow> ('s, 'e, 'b) action" where
  "callE m k s = (case m s of (s', r) \<Rightarrow> k (caused r) s')"

definition readingE :: "(rec_error \<Rightarrow> 'e) \<Rightarrow> ('s \<Rightarrow> rec_error + 'a) \<Rightarrow> ('s, 'e, 'a) action" where
  "readingE f g s = (s, case caused (g s) of Inl e \<Rightarrow> Inl (f e) | Inr x \<Rightarrow> Inr x)"

definition simulated :: "('t \<Rightarrow> bool) \<Rightarrow> ('t \<Rightarrow> rstore) \<Rightarrow> ('t, 'e, 'a) action \<Rightarrow> (rstore, 'e, 'a) action \<Rightarrow> bool" where
  "simulated ok view m m' \<longleftrightarrow> (\<forall>t. ok t \<longrightarrow> (case m t of (t', r) \<Rightarrow> ok t' \<and> m' (view t) = (view t', r)))"

text \<open>As \<open>simulated\<close>, but the store may fail; then nothing changes and the error is one of \<open>failed\<close>.\<close>

definition store_simulated ::
  "('t \<Rightarrow> bool) \<Rightarrow> ('t \<Rightarrow> rstore) \<Rightarrow> ('e \<Rightarrow> bool) \<Rightarrow> ('t, 'e, 'a) action \<Rightarrow> (rstore, 'e, 'a) action \<Rightarrow> bool" where
  "store_simulated ok view failed m m' \<longleftrightarrow>
     (\<forall>t. ok t \<longrightarrow> (case m t of (t', r) \<Rightarrow>
        ok t' \<and> (m' (view t) = (view t', r) \<or> view t' = view t \<and> (\<exists>e. r = Inl e \<and> failed e))))"

definition only_reads :: "('t, 'e, 'a) action \<Rightarrow> bool" where
  "only_reads m \<longleftrightarrow> (\<forall>t. fst (m t) = t)"

named_theorems sim_intros \<open>simulation of what clients are composed of\<close>

lemma sim_basic [sim_intros]:
  "simulated ok view (retE x) (retE x)" "simulated ok view (failE e) (failE e)" "simulated ok view (checkE c) (checkE c)"
  by (simp_all add: simulated_def checkE_def split: option.splits)

lemma sim_bind [sim_intros]:
  "simulated ok view m m' \<Longrightarrow> (\<And>x. simulated ok view (f x) (f' x)) \<Longrightarrow> simulated ok view (bindE m f) (bindE m' f')"
  unfolding simulated_def
proof (intro allI impI)
  fix t assume m: "\<forall>t. ok t \<longrightarrow> (case m t of (t', r) \<Rightarrow> ok t' \<and> m' (view t) = (view t', r))"
    and f: "\<And>x. \<forall>t. ok t \<longrightarrow> (case f x t of (t', r) \<Rightarrow> ok t' \<and> f' x (view t) = (view t', r))" and t: "ok t"
  obtain t1 r where r: "m t = (t1, r)" by fastforce
  then have "ok t1" "m' (view t) = (view t1, r)" using m t by auto
  then show "case bindE m f t of (t', r) \<Rightarrow> ok t' \<and> bindE m' f' (view t) = (view t', r)"
    using r f by (cases r) auto
qed

lemma sim_if [sim_intros]:
  "(c \<Longrightarrow> simulated ok view m m') \<Longrightarrow> (\<not> c \<Longrightarrow> simulated ok view n n') \<Longrightarrow>
   simulated ok view (if c then m else n) (if c then m' else n')"
  by simp

lemma sim_call:
  assumes "\<And>t. ok t \<Longrightarrow> tx_refines ok view (m t) (m' (view t))" and "\<And>r. simulated ok view (k r) (k' r)"
    and "\<And>st. caused (snd (m' st)) = snd (m' st)"
  shows "simulated ok view (callE m k) (callE m' k')"
  unfolding simulated_def
proof (intro allI impI)
  fix t assume t: "ok t"
  obtain t1 r where m: "m t = (t1, r)" by fastforce
  have "ok t1" and m': "m' (view t) = (view t1, caused r)"
    using assms(1)[OF t] m by (auto simp: tx_refines_def prod_eq_iff)
  moreover have "caused (caused r) = caused r" using assms(3)[of "view t"] m' by simp
  ultimately show "case callE m k t of (t', r) \<Rightarrow> ok t' \<and> callE m' k' (view t) = (view t', r)"
    using assms(2)[of "caused r"] m by (auto simp: callE_def simulated_def split: prod.splits)
qed

lemma spec_caused:
  "caused (spec_get ns k st) = spec_get ns k st" "caused (snd (spec_create now ns k v st)) = snd (spec_create now ns k v st)"
  "caused (snd (spec_update now ns k v r st)) = snd (spec_update now ns k v r st)"
  "caused (snd (spec_delete ns k r st)) = snd (spec_delete ns k r st)"
  "caused (snd (spec_delete_prefix ns p st)) = snd (spec_delete_prefix ns p st)"
  by (auto simp: spec_defs validate_cause split: option.splits)

context record_tx
begin

lemma sim_tx [sim_intros]:
  "(\<And>r. simulated ok view (k r) (k' r)) \<Longrightarrow> simulated ok view (callE (tx_get T ns key) k) (callE (tx_get spec_ops ns key) k')"
  "fits v \<Longrightarrow> (\<And>r. simulated ok view (k2 r) (k2' r)) \<Longrightarrow>
   simulated ok view (callE (tx_create T now ns key v) k2) (callE (tx_create spec_ops now ns key v) k2')"
  "fits v \<Longrightarrow> (\<And>r. simulated ok view (k3 r) (k3' r)) \<Longrightarrow>
   simulated ok view (callE (tx_update T now ns key v e) k3) (callE (tx_update spec_ops now ns key v e) k3')"
  "(\<And>r. simulated ok view (k4 r) (k4' r)) \<Longrightarrow>
   simulated ok view (callE (tx_delete T ns key e) k4) (callE (tx_delete spec_ops ns key e) k4')"
  "(\<And>r. simulated ok view (k5 r) (k5' r)) \<Longrightarrow>
   simulated ok view (callE (tx_delete_prefix T ns p) k5) (callE (tx_delete_prefix spec_ops ns p) k5')"
  by (intro sim_call; simp add: get_law create_law update_law delete_law delete_prefix_law spec_caused)+

end

lemma store_sim_of_sim: "simulated ok view m m' \<Longrightarrow> store_simulated ok view failed m m'"
  by (fastforce simp: simulated_def store_simulated_def)

lemma reads_basic [simp]:
  "only_reads (retE x)" "only_reads (failE e)" "only_reads (checkE c)" "only_reads (readE f)" "only_reads (readingE h g)"
  by (simp_all add: only_reads_def checkE_def readingE_def split: option.splits)

lemma reads_bind [simp]: "only_reads m \<Longrightarrow> (\<And>x. only_reads (f x)) \<Longrightarrow> only_reads (bindE m f)"
  unfolding only_reads_def bindE_def by (auto split: prod.splits sum.splits) (metis fst_conv)+

lemma store_sim_bind:
  assumes "store_simulated ok view failed m m'" and "only_reads m" and "\<And>x. store_simulated ok view failed (f x) (f' x)"
  shows "store_simulated ok view failed (bindE m f) (bindE m' f')"
  unfolding store_simulated_def
proof (intro allI impI)
  fix t assume t: "ok t"
  obtain r where m: "m t = (t, r)" using assms(2) by (metis only_reads_def prod.collapse)
  have sim: "m' (view t) = (view t, r) \<or> (\<exists>e. r = Inl e \<and> failed e)"
    using assms(1) t m by (auto simp: store_simulated_def split: prod.splits)
  show "case bindE m f t of (t', r) \<Rightarrow>
      ok t' \<and> (bindE m' f' (view t) = (view t', r) \<or> view t' = view t \<and> (\<exists>e. r = Inl e \<and> failed e))"
  proof (cases r)
    case (Inl e)
    then show ?thesis using m sim t by auto
  next
    case (Inr x)
    then show ?thesis using m sim t assms(3)[of x] by (auto simp: store_simulated_def)
  qed
qed

context record_store
begin

lemma store_sim_txn:
  assumes "simulated ok view fn fn'" and "\<And>e. store_failure e \<Longrightarrow> failed (f e)"
  shows "store_simulated ok view failed (record_txn S f fn) (record_txn spec_store f fn')"
  unfolding store_simulated_def
proof (intro allI impI)
  fix t assume t: "ok t"
  obtain t1 r where fn: "fn t = (t1, r)" by fastforce
  have "ok t1" "fn' (view t) = (view t1, r)" using assms(1) t fn by (auto simp: simulated_def split: prod.splits)
  then show "case record_txn S f fn t of (t', r) \<Rightarrow>
      ok t' \<and> (record_txn spec_store f fn' (view t) = (view t', r) \<or> view t' = view t \<and> (\<exists>e. r = Inl e \<and> failed e))"
    using t fn assms(2) begin_law commit_law
    by (cases r) (auto simp: record_txn_def spec_txn split: option.splits)
qed

lemma store_sim_reading:
  assumes "\<And>s. ok s \<Longrightarrow> caused (g s) = g' (view s) \<or> (\<exists>e. g s = Inl e \<and> store_failure e)"
    and "\<And>e. store_failure e \<Longrightarrow> failed (f (cause e))" and "\<And>st. caused (g' st) = g' st"
  shows "store_simulated ok view failed (readingE f g) (readingE f g')"
  unfolding store_simulated_def
proof (intro allI impI)
  fix t assume "ok t"
  then show "case readingE f g t of (t', r) \<Rightarrow>
      ok t' \<and> (readingE f g' (view t) = (view t', r) \<or> view t' = view t \<and> (\<exists>e. r = Inl e \<and> failed e))"
    using assms(1)[of t] assms(2,3) by (auto simp: readingE_def)
qed

lemma spec_lists_caused:
  "caused (rd_list spec_store ns p st) = rd_list spec_store ns p st"
  "caused (rd_keys spec_store ns p st) = rd_keys spec_store ns p st"
  by (auto simp: spec_store_def validateRecordNamespaceAndPrefix_def validate_cause split: option.splits)

lemma store_sim_reads:
  assumes "\<And>e. store_failure e \<Longrightarrow> failed (f (cause e))"
  shows "store_simulated ok view failed (readingE f (rd_get S ns k)) (readingE f (rd_get spec_store ns k))"
    and "store_simulated ok view failed (readingE f (rd_list S ns p)) (readingE f (rd_list spec_store ns p))"
    and "store_simulated ok view failed (readingE f (rd_keys S ns p)) (readingE f (rd_keys spec_store ns p))"
proof -
  show "store_simulated ok view failed (readingE f (rd_get S ns k)) (readingE f (rd_get spec_store ns k))"
    by (rule store_sim_reading) (use read_law assms in \<open>auto simp: spec_caused\<close>)
  show "store_simulated ok view failed (readingE f (rd_list S ns p)) (readingE f (rd_list spec_store ns p))"
    by (rule store_sim_reading) (use list_law assms in \<open>auto simp: spec_lists_caused\<close>)
  show "store_simulated ok view failed (readingE f (rd_keys S ns p)) (readingE f (rd_keys spec_store ns p))"
    by (rule store_sim_reading) (use keys_law assms in \<open>auto simp: spec_lists_caused\<close>)
qed

text \<open>A transaction of one call, whose error the client looks at.\<close>

lemma store_sim_one:
  assumes "\<And>t. ok t \<Longrightarrow> tx_refines ok view (fn t) (fn' (view t))" and "\<And>st. caused (snd (fn' st)) = snd (fn' st)"
    and k: "\<And>r. k r = (\<lambda>s. (s, g r))" "\<And>r. k' r = (\<lambda>s. (s, g r))"
    and "\<And>e. store_failure e \<Longrightarrow> \<exists>e'. g (Inl (cause e)) = Inl e' \<and> failed e'"
  shows "store_simulated ok view failed (callE (record_txn S (\<lambda>e. e) fn) k) (callE (record_txn spec_store (\<lambda>e. e) fn') k')"
  unfolding store_simulated_def
proof (intro allI impI)
  fix t assume t: "ok t"
  obtain t1 r where fn: "fn t = (t1, r)" by fastforce
  have t1: "ok t1" and fn': "fn' (view t) = (view t1, caused r)"
    using assms(1)[OF t] fn by (auto simp: tx_refines_def prod_eq_iff)
  show "case callE (record_txn S (\<lambda>e. e) fn) k t of (t', r) \<Rightarrow>
      ok t' \<and> (callE (record_txn spec_store (\<lambda>e. e) fn') k' (view t) = (view t', r)
        \<or> view t' = view t \<and> (\<exists>e. r = Inl e \<and> failed e))"
    using t t1 fn fn' assms(5) begin_law commit_law
    by (cases r) (auto simp: record_txn_def spec_txn callE_def k split: option.splits)
qed

end

subsection \<open>Clients that fail\<close>

text \<open>
  A client that fails leaves the store as it was, when it only reads before the one transaction it
  ends with: the transaction rolls back.
\<close>

definition atomicE :: "('s, 'e, 'a) action \<Rightarrow> bool" where
  "atomicE m \<longleftrightarrow> (\<forall>s s' e. m s = (s', Inl e) \<longrightarrow> s' = s)"

lemma atomic_reads: "only_reads m \<Longrightarrow> atomicE m"
  by (auto simp: only_reads_def atomicE_def) (metis fst_conv)

lemma atomic_bind: "only_reads m \<Longrightarrow> (\<And>x. atomicE (f x)) \<Longrightarrow> atomicE (bindE m f)"
  unfolding only_reads_def atomicE_def bindE_def by (auto split: prod.splits sum.splits) (metis fst_conv)+

lemma atomic_txn: "atomicE (record_txn S f fn)"
  by (auto simp: atomicE_def record_txn_def split: option.splits prod.splits sum.splits)

lemma atomic_call: "atomicE m \<Longrightarrow> (\<And>e. only_reads (k (Inl e))) \<Longrightarrow> (\<And>x s. \<exists>y. k (Inr x) s = (s, Inr y)) \<Longrightarrow> atomicE (callE m k)"
  unfolding atomicE_def callE_def only_reads_def
proof (intro allI impI)
  fix s s' e assume m: "\<forall>s s' e. m s = (s', Inl e) \<longrightarrow> s' = s" and k: "\<And>e. \<forall>t. fst (k (Inl e) t) = t" "\<And>x s. \<exists>y. k (Inr x) s = (s, Inr y)"
    and run: "(case m s of (s', r) \<Rightarrow> k (caused r) s') = (s', Inl e)"
  obtain t r where r: "m s = (t, r)" by fastforce
  show "s' = s"
  proof (cases r)
    case (Inl e')
    then show ?thesis using m r run k(1)[of "cause e'"] by (metis caused.simps(1) case_prod_conv fst_conv)
  next
    case (Inr x)
    then show ?thesis using k(2)[of x t] r run by auto
  qed
qed

end
