(* ===== verification/Go_Runtime.thy ===== *)
theory Go_Runtime
  imports Go_Prelude
begin

section \<open>Pointers, maps and run-time panics\<close>

text \<open>
  A Go pointer that is not shared is an option: \<^const>\<open>None\<close> is nil. Reading through nil,
  writing to a nil map and indexing out of range are run-time panics, values of
  \<open>go_panic\<close>; a function that may panic has its result in \<open>go_panic + 'a\<close>. A Go map is an
  option of a HOL map, since code tells a nil map from an empty one. The functions here are the
  primitive steps (\<open>deref\<close>, \<open>map_get\<close>, \<open>map_put\<close>) and the loops over slices that stop at
  the first panic or error.
\<close>

datatype go_panic = NilDeref | NilMapWrite | IndexRange

type_synonym 'a go = "go_panic + 'a"
type_synonym ('k, 'v) gomap = "('k \<Rightarrow> 'v option) option"

text \<open>Values of Go's type \<^verbatim>\<open>any\<close>, which the modelled code stores and returns unread.\<close>

typedecl any

definition deref :: "'a option \<Rightarrow> 'a go" where
  "deref p = (case p of None \<Rightarrow> Inl NilDeref | Some x \<Rightarrow> Inr x)"

primrec bindR :: "'e + 'a \<Rightarrow> ('a \<Rightarrow> 'e + 'b) \<Rightarrow> 'e + 'b" where
  "bindR (Inl e) f = Inl e"
| "bindR (Inr x) f = f x"

definition map_get :: "('k, 'v) gomap \<Rightarrow> 'k \<Rightarrow> 'v option" where
  "map_get m k = (case m of None \<Rightarrow> None | Some f \<Rightarrow> f k)"

definition map_put :: "('k, 'v) gomap \<Rightarrow> 'k \<Rightarrow> 'v \<Rightarrow> ('k, 'v) gomap go" where
  "map_put m k v = (case m of None \<Rightarrow> Inl NilMapWrite | Some f \<Rightarrow> Inr (Some (f(k \<mapsto> v))))"

text \<open>\<^verbatim>\<open>if m == nil { m = make(...) }\<close>.\<close>

definition map_made :: "('k, 'v) gomap \<Rightarrow> ('k, 'v) gomap" where
  "map_made m = (case m of None \<Rightarrow> Some Map.empty | Some f \<Rightarrow> Some f)"

text \<open>The list of the results, or the first failure.\<close>

primrec mapR :: "('a \<Rightarrow> 'e + 'b) \<Rightarrow> 'a list \<Rightarrow> 'e + 'b list" where
  "mapR f [] = Inr []"
| "mapR f (x # xs) = bindR (f x) (\<lambda>y. bindR (mapR f xs) (\<lambda>ys. Inr (y # ys)))"

text \<open>The elements the test holds of.\<close>

primrec filterR :: "('a \<Rightarrow> 'e + bool) \<Rightarrow> 'a list \<Rightarrow> 'e + 'a list" where
  "filterR p [] = Inr []"
| "filterR p (x # xs) =
     bindR (p x) (\<lambda>b. bindR (filterR p xs) (\<lambda>ys. Inr (if b then x # ys else ys)))"

text \<open>The index of the first element the test holds of; later elements are not looked at.\<close>

primrec findR :: "('a \<Rightarrow> 'e + bool) \<Rightarrow> 'a list \<Rightarrow> 'e + nat option" where
  "findR p [] = Inr None"
| "findR p (x # xs) =
     bindR (p x) (\<lambda>b. if b then Inr (Some 0) else bindR (findR p xs) (\<lambda>i. Inr (map_option Suc i)))"

text \<open>Whether the test holds of some element; later elements are not looked at.\<close>

primrec existsR :: "('a \<Rightarrow> 'e + bool) \<Rightarrow> 'a list \<Rightarrow> 'e + bool" where
  "existsR p [] = Inr False"
| "existsR p (x # xs) = bindR (p x) (\<lambda>b. if b then Inr True else existsR p xs)"

text \<open>\<^verbatim>\<open>append(xs[:i], xs[i+1:]...)\<close>.\<close>

definition remove_nth :: "nat \<Rightarrow> 'a list \<Rightarrow> 'a list" where
  "remove_nth i xs = take i xs @ drop (Suc i) xs"

subsection \<open>Rules\<close>

lemma deref_simps [simp]: "deref (Some x) = Inr x" "deref None = Inl NilDeref"
  by (simp_all add: deref_def)

lemma deref_Inr [simp]: "deref p = Inr x \<longleftrightarrow> p = Some x"
  by (simp add: deref_def split: option.splits)

lemma bindR_Inr_iff: "bindR m f = Inr y \<longleftrightarrow> (\<exists>x. m = Inr x \<and> f x = Inr y)"
  by (cases m) auto

lemma bindR_Inr_right [simp]: "bindR m Inr = m"
  by (cases m) auto

lemma map_get_simps [simp]: "map_get None k = None" "map_get (Some f) k = f k"
  by (simp_all add: map_get_def)

lemma map_get_fun [simp]: "map_get None = Map.empty" "map_get (Some f) = f"
  by (simp_all add: fun_eq_iff)

lemma map_made_simps [simp]:
  "map_made None = Some Map.empty" "map_made (Some f) = Some f" "map_made (map_made m) = map_made m"
  "map_get (map_made m) = map_get m"
  by (auto simp: map_made_def map_get_def split: option.splits)

lemma map_put_made: "map_put (map_made m) k v = Inr (Some ((map_get m)(k \<mapsto> v)))"
  by (auto simp: map_made_def map_put_def map_get_def split: option.splits)

lemma mapR_total: "(\<And>x. x \<in> set xs \<Longrightarrow> f x = Inr (g x)) \<Longrightarrow> mapR f xs = Inr (map g xs)"
  by (induction xs) auto

lemma mapR_deref [simp]: "mapR deref (map Some xs) = Inr xs"
  by (induction xs) auto

lemma filterR_total: "(\<And>x. x \<in> set xs \<Longrightarrow> p x = Inr (q x)) \<Longrightarrow> filterR p xs = Inr (filter q xs)"
  by (induction xs) auto

lemma existsR_total: "(\<And>x. x \<in> set xs \<Longrightarrow> p x = Inr (q x)) \<Longrightarrow> existsR p xs = Inr (list_ex q xs)"
  by (induction xs) auto

lemma findR_None: "findR p xs = Inr None \<longleftrightarrow> (\<forall>x \<in> set xs. p x = Inr False)"
  by (induction xs) (auto simp: bindR_Inr_iff split: if_splits)

lemma findR_Some:
  "findR p xs = Inr (Some i) \<longleftrightarrow>
     i < length xs \<and> p (xs ! i) = Inr True \<and> (\<forall>j < i. p (xs ! j) = Inr False)"
proof (induction xs arbitrary: i)
  case (Cons x xs)
  then show ?case
    by (cases i; cases "p x") (auto simp: bindR_Inr_iff nth_Cons split: nat.splits if_splits)
qed simp

lemma findR_total: "(\<And>x. x \<in> set xs \<Longrightarrow> \<exists>b. p x = Inr b) \<Longrightarrow> \<exists>i. findR p xs = Inr i"
proof (induction xs)
  case (Cons x xs)
  then obtain b i where "p x = Inr b" "findR p xs = Inr i" by fastforce
  then show ?case by (cases b) auto
qed simp

lemma remove_nth_split: "i < length xs \<Longrightarrow> xs = take i xs @ xs ! i # drop (Suc i) xs"
  by (rule id_take_nth_drop)

lemma set_remove_nth_subset: "set (remove_nth i xs) \<subseteq> set xs"
  by (auto simp: remove_nth_def dest: in_set_takeD in_set_dropD)

lemma remove_nth_distinct:
  assumes "distinct (map f xs)" and "i < length xs"
  shows "f (xs ! i) \<notin> f ` set (remove_nth i xs)"
proof -
  have "distinct (map f (take i xs @ xs ! i # drop (Suc i) xs))"
    using assms remove_nth_split by metis
  then show ?thesis by (auto simp: remove_nth_def)
qed

end
