(* ===== verification/Builder_Draft.thy ===== *)
theory Builder_Draft
  imports Record_Store Go_Runtime
begin

section \<open>Drafts of the Builder: data, validation and history\<close>

text \<open>
  The data of \<^verbatim>\<open>api/builder\<close> (\<^verbatim>\<open>types.go\<close>, \<^verbatim>\<open>limits.go\<close>, \<^verbatim>\<open>errors.go\<close>), the checks of \<^verbatim>\<open>validate.go\<close> and
  the functions of \<^verbatim>\<open>service.go\<close> that only compute: a draft is a history of snapshots with a cursor,
  where the snapshots after the cursor are what can be redone. A time is a number; sizes and the
  cursor are integers, since every size a draft holds is at most 50 MiB. An error that wraps an error
  of the store is \<open>BStore\<close> of its cause, and the texts of messages are left out where they only
  repeat the values.
\<close>

type_synonym time = int

record SnapshotManifest =
  sm_ID :: string
  sm_Digest :: string
  sm_Size :: int
  sm_CompressedSize :: int
  sm_CreatedAt :: time
  sm_CreatedBy :: string
  sm_Summary :: string
  sm_OpID :: string

record PublicationState =
  ps_Mode :: string
  ps_TopologyTarget :: string
  ps_TopologyAction :: string
  ps_ExperimentTarget :: string
  ps_ScenarioTarget :: string
  ps_SnapshotID :: string
  ps_Digest :: string
  ps_Revision :: int64
  ps_DocumentID :: string
  ps_PublishedAt :: time
  ps_PublishedBy :: string

record ForkedPublication =
  fk_DocumentID :: string
  fk_TopologyTarget :: string
  fk_ExperimentTarget :: string

record Provenance =
  pv_CreatedBy :: string
  pv_CreatedAt :: string
  pv_UpdatedBy :: string
  pv_UpdatedAt :: string

record DraftMetadata =
  dm_ID :: string
  dm_CreatedBy :: string
  dm_Title :: string
  dm_SourceToken :: string
  dm_SourceFile :: string
  dm_Created :: time
  dm_Updated :: time
  dm_LastModifiedBy :: string
  dm_History :: "SnapshotManifest list"
  dm_Cursor :: int
  dm_Publication :: "PublicationState option"
  dm_Forked :: "ForkedPublication option"
  dm_DocumentCreatedBy :: string
  dm_DocumentCreatedAt :: string
  dm_Revision :: int64
  dm_Stamp :: "Provenance option"

datatype bld_err =
  Cancelled string
| NotFound string string
| Conflict string string int64 int64 string
| TooLarge string int int
| Corrupt string string string
| Invalid string string
| DraftLimit int
| BStore rec_error
| BldFailure string

subsection \<open>Constants\<close>

definition kindDraft :: string where "kindDraft = ''draft''"
definition kindSnapshot :: string where "kindSnapshot = ''snapshot''"
definition kindPublished :: string where "kindPublished = ''published document''"
definition NamespaceDrafts :: string where "NamespaceDrafts = ''builder.drafts''"
definition NamespaceContent :: string where "NamespaceContent = ''builder.content''"
definition NamespacePublished :: string where "NamespacePublished = ''builder.published''"
definition MaxDocumentBytes :: int where "MaxDocumentBytes = 5 * 2 ^ 20"
definition MaxDraftHistoryBytes :: int where "MaxDraftHistoryBytes = 50 * 2 ^ 20"
definition MaxSnapshots :: nat where "MaxSnapshots = 50"
definition MaxCompressedBytes :: int where "MaxCompressedBytes = MaxDocumentBytes + 2 ^ 20"
definition MaxDrafts :: nat where "MaxDrafts = 2000"
definition MaxOwnerLength :: nat where "MaxOwnerLength = 256"
definition MaxTitleLength :: nat where "MaxTitleLength = 512"
definition MaxSourceTokenLength :: nat where "MaxSourceTokenLength = 512"
definition MaxSourceFileLength :: nat where "MaxSourceFileLength = 255"
definition MaxSummaryLength :: nat where "MaxSummaryLength = 1024"
definition MaxTargetLength :: nat where "MaxTargetLength = 256"
definition MaxMetadataBytes :: int where "MaxMetadataBytes = 512 * 2 ^ 10"
definition PublishModeTopology :: string where "PublishModeTopology = ''topology''"
definition PublishModeTopologyExperiment :: string where "PublishModeTopologyExperiment = ''topology-experiment''"

definition PublishMode_Valid :: "string \<Rightarrow> bool" where
  "PublishMode_Valid m \<longleftrightarrow> m = PublishModeTopology \<or> m = PublishModeTopologyExperiment"

definition TopologyAction_Valid :: "string \<Rightarrow> bool" where
  "TopologyAction_Valid a \<longleftrightarrow> a = ''create'' \<or> a = ''update''"

subsection \<open>Errors of the store\<close>

text \<open>Both see only the cause of an error. An error that is not one of the store passes \<^verbatim>\<open>txnError\<close> as it is.\<close>

definition storeError :: "string \<Rightarrow> string \<Rightarrow> int64 \<Rightarrow> rec_error \<Rightarrow> bld_err" where
  "storeError kind i expected err =
     (case cause err of
        RecordNotExist _ _ \<Rightarrow> NotFound kind i
      | RecordExist _ _ \<Rightarrow> Conflict kind i expected 0 ''already exists''
      | RecordConflict _ _ e a \<Rightarrow> Conflict kind i e a []
      | InvalidNamespace _ _ \<Rightarrow> Invalid kind ''invalid record namespace''
      | InvalidKey _ _ \<Rightarrow> Invalid kind ''invalid record key''
      | c \<Rightarrow> BStore c)"

definition txnError :: "string \<Rightarrow> string \<Rightarrow> int64 \<Rightarrow> bld_err \<Rightarrow> bld_err" where
  "txnError kind i expected err = (case err of BStore e \<Rightarrow> storeError kind i expected e | _ \<Rightarrow> err)"

subsection \<open>Checks\<close>

definition id_start :: "char \<Rightarrow> bool" where
  "id_start c \<longleftrightarrow> isRecordNameStart (code_of c)"

definition id_char :: "char \<Rightarrow> bool" where
  "id_char c \<longleftrightarrow> id_start c \<or> c = CHR ''.'' \<or> c = CHR ''_'' \<or> c = CHR ''-''"

text \<open>The pattern \<^verbatim>\<open>^[A-Za-z0-9][A-Za-z0-9._-]{0,127}$\<close>.\<close>

definition ValidID :: "string \<Rightarrow> bool" where
  "ValidID i \<longleftrightarrow> (case i of [] \<Rightarrow> False | c # cs \<Rightarrow> id_start c \<and> list_all id_char cs \<and> length cs \<le> 127)"

definition validateID :: "string \<Rightarrow> string \<Rightarrow> bld_err option" where
  "validateID field i = (if ValidID i then None else Some (Invalid field ''must be an identifier''))"

definition validateOptionalID :: "string \<Rightarrow> string \<Rightarrow> bld_err option" where
  "validateOptionalID field i = (if i = [] then None else validateID field i)"

definition validateText :: "string \<Rightarrow> string \<Rightarrow> nat \<Rightarrow> bool \<Rightarrow> bld_err option" where
  "validateText field value maxLength required =
     (if value = [] \<and> required then Some (Invalid field ''must not be empty'')
      else if value = [] then None
      else if length value > maxLength then Some (Invalid field ''is too long'')
      else if \<not> valid_utf8 value then Some (Invalid field ''must be valid UTF-8'')
      else if list_ex (\<lambda>r. r < 32 \<or> r = 127) (runes value) then Some (Invalid field ''must not contain control characters'')
      else None)"

definition ValidateSourceFile :: "string \<Rightarrow> bld_err option" where
  "ValidateSourceFile name =
     (case validateText ''sourceFile'' name MaxSourceFileLength False of
        Some e \<Rightarrow> Some e
      | None \<Rightarrow>
          if list_ex (\<lambda>c. c = CHR ''/'' \<or> c = CHR 0x5C) name then Some (Invalid ''sourceFile'' ''must be a file name'')
          else if name = ''.'' \<or> name = ''..'' then Some (Invalid ''sourceFile'' ''must not be . or ..'')
          else None)"

definition hex_char :: "char \<Rightarrow> bool" where
  "hex_char c \<longleftrightarrow> is_digit c \<or> (97 \<le> code_of c \<and> code_of c \<le> 102) \<or> (65 \<le> code_of c \<and> code_of c \<le> 70)"

text \<open>\<^verbatim>\<open>hex.DecodeString\<close> takes digits of either case; text beyond ASCII fails it whatever its lower case.\<close>

definition IsDigest :: "string \<Rightarrow> bool" where
  "IsDigest v \<longleftrightarrow>
     (let e = drop 7 v
      in prefix ''sha256:'' v \<and> length e = 64 \<and> e = map ascii_lower e \<and> list_all hex_char e)"

text \<open>A time in the form \<^verbatim>\<open>2006-01-02T15:04:05Z\<close> that \<^verbatim>\<open>time.Parse\<close> takes and formats back.\<close>

definition num2 :: "string \<Rightarrow> nat \<Rightarrow> nat" where
  "num2 s i = (code_of (s ! i) - 48) * 10 + (code_of (s ! (i + 1)) - 48)"

definition days_in :: "nat \<Rightarrow> nat \<Rightarrow> nat" where
  "days_in year m =
     (if m = 2 then (if year mod 4 = 0 \<and> (year mod 100 \<noteq> 0 \<or> year mod 400 = 0) then 29 else 28)
      else if m \<in> {4, 6, 9, 11} then 30 else 31)"

definition IsTime :: "string \<Rightarrow> bool" where
  "IsTime s \<longleftrightarrow>
     length s = 20
     \<and> list_all (\<lambda>i. is_digit (s ! i)) [0, 1, 2, 3, 5, 6, 8, 9, 11, 12, 14, 15, 17, 18]
     \<and> s ! 4 = CHR ''-'' \<and> s ! 7 = CHR ''-'' \<and> s ! 10 = CHR ''T'' \<and> s ! 13 = CHR '':'' \<and> s ! 16 = CHR '':'' \<and> s ! 19 = CHR ''Z''
     \<and> 1 \<le> num2 s 5 \<and> num2 s 5 \<le> 12 \<and> 1 \<le> num2 s 8
     \<and> num2 s 8 \<le> days_in (num2 s 0 * 100 + num2 s 2) (num2 s 5)
     \<and> num2 s 11 < 24 \<and> num2 s 14 < 60 \<and> num2 s 17 < 60"

definition validateManifestShape :: "string \<Rightarrow> string \<Rightarrow> SnapshotManifest \<Rightarrow> bld_err option" where
  "validateManifestShape kind i m =
     (if sm_CompressedSize m \<le> 0 \<or> sm_CompressedSize m > MaxCompressedBytes then Some (Corrupt kind i ''compressed size'')
      else if sm_Size m < 0 \<or> sm_Size m > MaxDocumentBytes then Some (Corrupt kind i ''size'')
      else if sm_Digest m = [] then Some (Corrupt kind i ''manifest has no document digest'')
      else if \<not> IsDigest (sm_Digest m) then Some (Corrupt kind i ''manifest document digest'')
      else None)"

subsection \<open>Drafts\<close>

definition Current :: "DraftMetadata \<Rightarrow> SnapshotManifest option" where
  "Current d =
     (if dm_Cursor d < 0 \<or> dm_Cursor d \<ge> int (length (dm_History d)) then None
      else Some (dm_History d ! nat (dm_Cursor d)))"

definition Snapshot :: "string \<Rightarrow> DraftMetadata \<Rightarrow> SnapshotManifest option" where
  "Snapshot i d = find (\<lambda>m. sm_ID m = i) (dm_History d)"

definition HistoryBytes :: "DraftMetadata \<Rightarrow> int" where
  "HistoryBytes d = sum_list (map sm_Size (dm_History d))"

definition Dirty :: "DraftMetadata \<Rightarrow> bool" where
  "Dirty d =
     (case (Current d, dm_Publication d) of
        (Some c, Some p) \<Rightarrow> ps_SnapshotID p \<noteq> sm_ID c \<or> ps_Digest p \<noteq> sm_Digest c
      | _ \<Rightarrow> True)"

definition CanUndo :: "DraftMetadata \<Rightarrow> bool" where
  "CanUndo d \<longleftrightarrow> dm_Cursor d > 0"

definition CanRedo :: "DraftMetadata \<Rightarrow> bool" where
  "CanRedo d \<longleftrightarrow> dm_Cursor d < int (length (dm_History d)) - 1"

definition PublishedUnchanged :: "DraftMetadata \<Rightarrow> bool" where
  "PublishedUnchanged d \<longleftrightarrow> \<not> Dirty d \<and> \<not> CanRedo d"

definition RevisionETag :: "int64 \<Rightarrow> string" where
  "RevisionETag revision = [CHR 0x22] @ dec_int (sint revision) @ [CHR 0x22]"

definition validatePublicationState :: "string \<Rightarrow> DraftMetadata \<Rightarrow> bld_err option" where
  "validatePublicationState key d =
     (case dm_Publication d of
        None \<Rightarrow> None
      | Some p \<Rightarrow>
          if \<not> PublishMode_Valid (ps_Mode p) then Some (Corrupt kindDraft key ''publication has unknown mode'')
          else if \<not> TopologyAction_Valid (ps_TopologyAction p) then Some (Corrupt kindDraft key ''publication has unknown topology action'')
          else if validateText ''topologyTarget'' (ps_TopologyTarget p) MaxTargetLength True \<noteq> None
          then Some (Corrupt kindDraft key ''publication has no usable topology target'')
          else if validateText ''experimentTarget'' (ps_ExperimentTarget p) MaxTargetLength False \<noteq> None
          then Some (Corrupt kindDraft key ''publication has an unusable experiment target'')
          else if validateText ''scenarioTarget'' (ps_ScenarioTarget p) MaxTargetLength False \<noteq> None
          then Some (Corrupt kindDraft key ''publication has an unusable scenario target'')
          else if validateText ''publishedBy'' (ps_PublishedBy p) MaxOwnerLength True \<noteq> None
          then Some (Corrupt kindDraft key ''publication has no usable actor'')
          else if ps_Mode p = PublishModeTopology \<and> (ps_ExperimentTarget p \<noteq> [] \<or> ps_ScenarioTarget p \<noteq> [])
          then Some (Corrupt kindDraft key ''a topology publication cannot name experiment or scenario targets'')
          else if ps_Mode p = PublishModeTopologyExperiment \<and> ps_ExperimentTarget p = []
          then Some (Corrupt kindDraft key ''an experiment publication has no experiment target'')
          else if validateID ''snapshotID'' (ps_SnapshotID p) \<noteq> None
          then Some (Corrupt kindDraft key ''publication names an invalid snapshot'')
          else if \<not> IsDigest (ps_Digest p) then Some (Corrupt kindDraft key ''publication digest is not a sha256 digest'')
          else if ps_DocumentID p \<noteq> [] \<and> validateID ''documentID'' (ps_DocumentID p) \<noteq> None
          then Some (Corrupt kindDraft key ''publication names an invalid published document'')
          else
            (case Snapshot (ps_SnapshotID p) d of
               Some m \<Rightarrow> if sm_Digest m \<noteq> ps_Digest p then Some (Corrupt kindDraft key ''publication digest does not match snapshot'') else None
             | None \<Rightarrow> None))"

text \<open>The loop over the history: identifiers that are valid and not seen before, and well-formed manifests.\<close>

fun check_history :: "string \<Rightarrow> string list \<Rightarrow> SnapshotManifest list \<Rightarrow> bld_err option" where
  "check_history key seen [] = None"
| "check_history key seen (m # ms) =
     (if validateID ''snapshotID'' (sm_ID m) \<noteq> None then Some (Corrupt kindDraft key ''snapshot has an invalid identifier'')
      else if sm_ID m \<in> set seen then Some (Corrupt kindDraft key ''snapshot appears more than once'')
      else (case validateManifestShape kindDraft key m of
              Some e \<Rightarrow> Some e
            | None \<Rightarrow> check_history key (sm_ID m # seen) ms))"

definition validateDraftMetadata :: "string \<Rightarrow> DraftMetadata \<Rightarrow> bld_err option" where
  "validateDraftMetadata key d =
     (if dm_ID d \<noteq> key then Some (Corrupt kindDraft key ''metadata claims to be another draft'')
      else if validateID ''draftID'' (dm_ID d) \<noteq> None then Some (Corrupt kindDraft key ''draft ID is not a valid identifier'')
      else if validateText ''createdBy'' (dm_CreatedBy d) MaxOwnerLength True \<noteq> None then Some (Corrupt kindDraft key ''metadata has no creator'')
      else if validateText ''title'' (dm_Title d) MaxTitleLength False \<noteq> None then Some (Corrupt kindDraft key ''title is not a usable draft title'')
      else if dm_History d = [] then Some (Corrupt kindDraft key ''history is empty'')
      else if length (dm_History d) > MaxSnapshots then Some (Corrupt kindDraft key ''history holds too many snapshots'')
      else if dm_Cursor d < 0 \<or> dm_Cursor d \<ge> int (length (dm_History d)) then Some (Corrupt kindDraft key ''cursor is outside its history'')
      else if ValidateSourceFile (dm_SourceFile d) \<noteq> None then Some (Corrupt kindDraft key ''source file is not a usable file name'')
      else if validateText ''documentCreatedBy'' (dm_DocumentCreatedBy d) MaxOwnerLength False \<noteq> None
      then Some (Corrupt kindDraft key ''document creator is not a usable user'')
      else if dm_DocumentCreatedAt d \<noteq> [] \<and> \<not> IsTime (dm_DocumentCreatedAt d)
      then Some (Corrupt kindDraft key ''document creation time is not a time a document may hold'')
      else
        (case check_history key [] (dm_History d) of
           Some e \<Rightarrow> Some e
         | None \<Rightarrow>
             if HistoryBytes d > MaxDraftHistoryBytes then Some (Corrupt kindDraft key ''history holds too many bytes'')
             else validatePublicationState key d))"

subsection \<open>History\<close>

definition stampDraft :: "string \<Rightarrow> time \<Rightarrow> DraftMetadata \<Rightarrow> DraftMetadata" where
  "stampDraft actor now d = d\<lparr>dm_Updated := now, dm_LastModifiedBy := actor\<rparr>"

definition removeSnapshot :: "nat \<Rightarrow> DraftMetadata \<Rightarrow> SnapshotManifest \<times> DraftMetadata" where
  "removeSnapshot i d =
     (dm_History d ! i,
      d\<lparr>dm_History := remove_nth i (dm_History d),
        dm_Cursor := (if int i < dm_Cursor d then dm_Cursor d - 1 else dm_Cursor d)\<rparr>)"

text \<open>
  The loop of \<^verbatim>\<open>pruneHistory\<close>: the oldest snapshots go until the history fits, but never the one at
  the cursor. Each round moves the cursor down, so it ends.
\<close>

function prune_loop :: "int \<Rightarrow> DraftMetadata \<Rightarrow> SnapshotManifest list \<Rightarrow> DraftMetadata \<times> SnapshotManifest list" where
  "prune_loop sz d dropped =
     (if (length (dm_History d) > MaxSnapshots \<or> sz > MaxDraftHistoryBytes) \<and> dm_Cursor d > 0
      then (case removeSnapshot 0 d of (oldest, d') \<Rightarrow> prune_loop (sz - sm_Size oldest) d' (dropped @ [oldest]))
      else (d, dropped))"
  by pat_completeness auto

termination
  by (relation "measure (\<lambda>(sz, d, dropped). nat (dm_Cursor d))") (auto simp: removeSnapshot_def)

declare prune_loop.simps [simp del]

definition pruneHistory :: "DraftMetadata \<Rightarrow> DraftMetadata \<times> SnapshotManifest list" where
  "pruneHistory d = prune_loop (HistoryBytes d) d []"

definition checkRevision :: "string \<Rightarrow> int64 \<Rightarrow> int64 \<Rightarrow> bld_err option" where
  "checkRevision draftID expected actual =
     (if expected = AnyRevision \<or> expected = actual then None else Some (Conflict kindDraft draftID expected actual []))"

subsection \<open>What the checks accept\<close>

lemma validateID_None [simp]: "validateID f i = None \<longleftrightarrow> ValidID i"
  by (simp add: validateID_def)

lemma ValidID_chars: "ValidID i \<Longrightarrow> i \<noteq> [] \<and> length i \<le> 128 \<and> (\<forall>c \<in> set i. id_char c)"
  by (auto simp: ValidID_def id_char_def list_all_iff split: list.splits)

lemma ValidID_no_slash: "ValidID i \<Longrightarrow> CHR ''/'' \<notin> set i"
  using ValidID_chars[of i] by (auto simp: id_char_def id_start_def isRecordNameStart_def)

lemma check_history_None:
  "check_history key seen ms = None \<longleftrightarrow>
     (\<forall>m \<in> set ms. ValidID (sm_ID m) \<and> sm_ID m \<notin> set seen \<and> validateManifestShape kindDraft key m = None)
     \<and> distinct (map sm_ID ms)"
proof (induction ms arbitrary: seen)
  case (Cons m ms)
  have "sm_ID m \<notin> sm_ID ` set ms \<longleftrightarrow> (\<forall>n \<in> set ms. sm_ID n \<noteq> sm_ID m)" unfolding image_iff by metis
  then show ?case using Cons by (auto split: option.splits)
qed simp

lemma manifest_shape_iff:
  "validateManifestShape kind i m = None \<longleftrightarrow>
     0 < sm_CompressedSize m \<and> sm_CompressedSize m \<le> MaxCompressedBytes \<and> 0 \<le> sm_Size m \<and> sm_Size m \<le> MaxDocumentBytes
     \<and> IsDigest (sm_Digest m)"
  by (auto simp: validateManifestShape_def not_less not_le IsDigest_def Let_def)

text \<open>The part of a draft that \<^verbatim>\<open>AppendSnapshot\<close>, \<^verbatim>\<open>MoveCursor\<close> and \<^verbatim>\<open>DeleteSnapshot\<close> change.\<close>

definition history_ok :: "SnapshotManifest list \<Rightarrow> bool" where
  "history_ok ms \<longleftrightarrow>
     distinct (map sm_ID ms) \<and> (\<forall>m \<in> set ms. ValidID (sm_ID m) \<and> validateManifestShape kindDraft [] m = None)
     \<and> length ms \<le> MaxSnapshots \<and> sum_list (map sm_Size ms) \<le> MaxDraftHistoryBytes"

lemma validateDraftMetadata_None:
  "validateDraftMetadata key d = None \<longleftrightarrow>
     dm_ID d = key \<and> ValidID key \<and> validateText ''createdBy'' (dm_CreatedBy d) MaxOwnerLength True = None
     \<and> validateText ''title'' (dm_Title d) MaxTitleLength False = None \<and> dm_History d \<noteq> [] \<and> history_ok (dm_History d)
     \<and> 0 \<le> dm_Cursor d \<and> dm_Cursor d < int (length (dm_History d)) \<and> ValidateSourceFile (dm_SourceFile d) = None
     \<and> validateText ''documentCreatedBy'' (dm_DocumentCreatedBy d) MaxOwnerLength False = None
     \<and> (dm_DocumentCreatedAt d = [] \<or> IsTime (dm_DocumentCreatedAt d)) \<and> validatePublicationState key d = None"
proof -
  have "check_history key [] (dm_History d) = None \<longleftrightarrow>
      distinct (map sm_ID (dm_History d)) \<and> (\<forall>m \<in> set (dm_History d). ValidID (sm_ID m) \<and> validateManifestShape kindDraft [] m = None)"
    by (auto simp: check_history_None manifest_shape_iff)
  then show ?thesis
    by (auto simp: validateDraftMetadata_def history_ok_def HistoryBytes_def not_le not_less split: option.splits if_splits)
qed

lemma Current_Some: "0 \<le> dm_Cursor d \<Longrightarrow> dm_Cursor d < int (length (dm_History d)) \<Longrightarrow> Current d = Some (dm_History d ! nat (dm_Cursor d))"
  by (simp add: Current_def)

lemma Snapshot_Some: "Snapshot i d = Some m \<Longrightarrow> m \<in> set (dm_History d) \<and> sm_ID m = i"
  by (auto simp: Snapshot_def find_Some_iff)

lemma Snapshot_distinct:
  assumes "distinct (map sm_ID (dm_History d))" and "m \<in> set (dm_History d)"
  shows "Snapshot (sm_ID m) d = Some m"
proof -
  obtain n where n: "Snapshot (sm_ID m) d = Some n"
    using assms(2) by (cases "Snapshot (sm_ID m) d") (auto simp: Snapshot_def find_None_iff)
  then have "n = m" using Snapshot_Some[OF n] assms by (auto simp: distinct_map inj_on_def)
  then show ?thesis using n by simp
qed

subsection \<open>Pruning\<close>

definition history_fits :: "SnapshotManifest list \<Rightarrow> bool" where
  "history_fits ms \<longleftrightarrow> length ms \<le> MaxSnapshots \<and> sum_list (map sm_Size ms) \<le> MaxDraftHistoryBytes"

lemma prune_loop_law:
  assumes "sz = HistoryBytes d" and "0 \<le> dm_Cursor d" and "dm_Cursor d < int (length (dm_History d))"
    and "prune_loop sz d dropped = (d', dropped')"
  shows "\<exists>ds. dropped' = dropped @ ds \<and> dm_History d = ds @ dm_History d' \<and> dm_Cursor d' = dm_Cursor d - int (length ds)
    \<and> 0 \<le> dm_Cursor d' \<and> d' = d\<lparr>dm_History := dm_History d', dm_Cursor := dm_Cursor d'\<rparr>
    \<and> (dm_Cursor d' = 0 \<or> history_fits (dm_History d'))
    \<and> (ds \<noteq> [] \<longrightarrow> \<not> history_fits (last ds # dm_History d'))"
  using assms
proof (induction sz d dropped rule: prune_loop.induct)
  case (1 sz d dropped)
  show ?case
  proof (cases "(length (dm_History d) > MaxSnapshots \<or> sz > MaxDraftHistoryBytes) \<and> dm_Cursor d > 0")
    case False
    then have "d' = d" "dropped' = dropped" using 1(5) by (auto simp: prune_loop.simps[of sz d dropped])
    then show ?thesis using 1(2-4) False by (auto simp: history_fits_def HistoryBytes_def)
  next
    case True
    obtain m ms where ms: "dm_History d = m # ms" using 1(4) True by (cases "dm_History d") auto
    let ?e = "d\<lparr>dm_History := ms, dm_Cursor := dm_Cursor d - 1\<rparr>"
    have rm: "removeSnapshot 0 d = (m, ?e)" using True by (simp add: removeSnapshot_def ms remove_nth_def)
    have run: "prune_loop (sz - sm_Size m) ?e (dropped @ [m]) = (d', dropped')"
      using 1(5) True rm by (simp add: prune_loop.simps[of sz d dropped])
    have "sz - sm_Size m = HistoryBytes ?e" using 1(2) by (simp add: HistoryBytes_def ms)
    from "1.IH"[OF True rm[symmetric] this _ _ run] obtain ds where
      ds: "dropped' = (dropped @ [m]) @ ds" "ms = ds @ dm_History d'" "dm_Cursor d' = dm_Cursor d - 1 - int (length ds)"
        "0 \<le> dm_Cursor d'" "d' = ?e\<lparr>dm_History := dm_History d', dm_Cursor := dm_Cursor d'\<rparr>"
        "dm_Cursor d' = 0 \<or> history_fits (dm_History d')" "ds \<noteq> [] \<longrightarrow> \<not> history_fits (last ds # dm_History d')"
      using True 1(4) ms by auto
    moreover have "\<not> history_fits (m # dm_History d')" if "ds = []"
      using True 1(2) that ds(2) by (auto simp: history_fits_def HistoryBytes_def ms)
    ultimately show ?thesis using ms by (intro exI[of _ "m # ds"]) auto
  qed
qed

end
