(* ===== verification/Builder_Service.thy ===== *)
theory Builder_Service
  imports Builder_Draft
begin

section \<open>The Builder service: drafts in a record store\<close>

text \<open>
  \<^verbatim>\<open>api/builder/service.go\<close> and \<^verbatim>\<open>content.go\<close>: every call on drafts, over any record store. The metadata
  of a draft is one record, the compressed document of each snapshot another; a call that changes
  both does so in one transaction, which names the revision of the draft it has read.

  Parameters, in \<open>bld_env\<close>: whether the context is cancelled, the clock and the identifiers of the
  call, the JSON of metadata, the codec of Builder documents (\<^verbatim>\<open>types/builder\<close>), gzip and SHA-256.
  What is relied on of them is the locale \<open>builder_env\<close>.
\<close>

subsection \<open>Parameters and requests\<close>

record 'x Document =
  d_Name :: string
  d_CreatedBy :: string
  d_CreatedAt :: string
  d_UpdatedBy :: string
  d_UpdatedAt :: string
  d_Rest :: 'x

definition Document_Provenance :: "'x Document \<Rightarrow> Provenance" where
  "Document_Provenance d =
     \<lparr>pv_CreatedBy = d_CreatedBy d, pv_CreatedAt = d_CreatedAt d, pv_UpdatedBy = d_UpdatedBy d, pv_UpdatedAt = d_UpdatedAt d\<rparr>"

definition SetProvenance :: "Provenance \<Rightarrow> 'x Document \<Rightarrow> 'x Document" where
  "SetProvenance p d =
     d\<lparr>d_CreatedBy := pv_CreatedBy p, d_CreatedAt := pv_CreatedAt p, d_UpdatedBy := pv_UpdatedBy p, d_UpdatedAt := pv_UpdatedAt p\<rparr>"

record 'x bld_env =
  be_ctx :: "string option"
  be_now :: time
  be_format :: "time \<Rightarrow> string"
  be_written :: int64
  be_ids :: "nat \<Rightarrow> string + string"
  be_parse :: "bytes \<Rightarrow> string + 'x Document"
  be_encode :: "'x Document \<Rightarrow> string + bytes"
  be_sha256 :: "bytes \<Rightarrow> bytes"
  be_gzip :: "bytes \<Rightarrow> string + bytes"
  be_inflate :: "nat \<Rightarrow> bytes \<Rightarrow> string + bytes"
  be_meta_enc :: "DraftMetadata \<Rightarrow> string + bytes"
  be_meta_dec :: "bytes \<Rightarrow> string + DraftMetadata"
  be_text_field :: "bytes \<Rightarrow> string \<Rightarrow> string option"
  be_time_field :: "bytes \<Rightarrow> string \<Rightarrow> time option"

record CreateDraftRequest =
  cr_Actor :: string
  cr_Title :: string
  cr_SourceToken :: string
  cr_SourceFile :: string
  cr_Forked :: "ForkedPublication option"
  cr_Origin :: "string option"
  cr_Document :: bytes
  cr_Summary :: string

record AppendSnapshotRequest =
  ar_DraftID :: string
  ar_Actor :: string
  ar_ExpectedRevision :: int64
  ar_Document :: bytes
  ar_Summary :: string
  ar_OpID :: string

record MoveCursorRequest =
  mr_DraftID :: string
  mr_Actor :: string
  mr_ExpectedRevision :: int64
  mr_Index :: int
  mr_SnapshotID :: string

record DeleteSnapshotRequest =
  dr_DraftID :: string
  dr_Actor :: string
  dr_ExpectedRevision :: int64
  dr_SnapshotID :: string

record MarkPublishedRequest =
  pr_DraftID :: string
  pr_Actor :: string
  pr_ExpectedRevision :: int64
  pr_SnapshotID :: string
  pr_Mode :: string
  pr_TopologyTarget :: string
  pr_TopologyAction :: string
  pr_ExperimentTarget :: string
  pr_ScenarioTarget :: string
  pr_DocumentID :: string

type_synonym ('s, 'a) bld_action = "('s, bld_err, 'a) action"

definition ctx_err :: "'x bld_env \<Rightarrow> bld_err option" where
  "ctx_err E = map_option Cancelled (be_ctx E)"

definition new_id :: "'x bld_env \<Rightarrow> nat \<Rightarrow> string \<Rightarrow> bld_err + string" where
  "new_id E i field =
     (case be_ids E i of
        Inl m \<Rightarrow> Inl (BldFailure m)
      | Inr x \<Rightarrow> (case validateID field x of Some e \<Rightarrow> Inl e | None \<Rightarrow> Inr x))"

subsection \<open>Content\<close>

record payload =
  pl_digest :: string
  pl_size :: int
  pl_compressed :: bytes

definition hex_digit :: "nat \<Rightarrow> char" where
  "hex_digit n = (if n < 10 then char_of (48 + n) else char_of (87 + n))"

definition hex_of :: "bytes \<Rightarrow> string" where
  "hex_of bs = concat (map (\<lambda>b. [hex_digit (unat b div 16), hex_digit (unat b mod 16)]) bs)"

definition digestOf :: "'x bld_env \<Rightarrow> bytes \<Rightarrow> string" where
  "digestOf E data = ''sha256:'' @ hex_of (be_sha256 E data)"

definition draftContentPrefix :: "string \<Rightarrow> string" where
  "draftContentPrefix draftID = ''drafts'' @ ''/'' @ draftID @ ''/''"

definition snapshotKey :: "string \<Rightarrow> string \<Rightarrow> string" where
  "snapshotKey draftID snapshotID = draftContentPrefix draftID @ snapshotID"

definition buildPayload :: "'x bld_env \<Rightarrow> bytes \<Rightarrow> bld_err + payload" where
  "buildPayload E data =
     (if int (length data) > MaxDocumentBytes then Inl (TooLarge ''document'' (int (length data)) MaxDocumentBytes)
      else
        (case be_gzip E data of
           Inl m \<Rightarrow> Inl (BldFailure m)
         | Inr c \<Rightarrow>
             if int (length c) > MaxCompressedBytes then Inl (TooLarge ''compressed document'' (int (length c)) MaxCompressedBytes)
             else Inr \<lparr>pl_digest = digestOf E data, pl_size = int (length data), pl_compressed = c\<rparr>))"

definition putContent :: "'t tx_ops \<Rightarrow> int64 \<Rightarrow> string \<Rightarrow> payload \<Rightarrow> ('t, unit) bld_action" where
  "putContent T now key load =
     callE (tx_create T now NamespaceContent key (pl_compressed load)) (\<lambda>r.
       case r of
         Inr _ \<Rightarrow> retE ()
       | Inl (RecordExist _ _) \<Rightarrow>
           callE (tx_update T now NamespaceContent key (pl_compressed load) AnyRevision)
             (\<lambda>r. case r of Inr _ \<Rightarrow> retE () | Inl e \<Rightarrow> failE (BStore e))
       | Inl e \<Rightarrow> failE (BStore e))"

definition dropContent :: "'t tx_ops \<Rightarrow> string \<Rightarrow> ('t, unit) bld_action" where
  "dropContent T key =
     callE (tx_delete T NamespaceContent key AnyRevision) (\<lambda>r.
       case r of
         Inr _ \<Rightarrow> retE ()
       | Inl (RecordNotExist _ _) \<Rightarrow> retE ()
       | Inl e \<Rightarrow> failE (BStore e))"

fun dropSnapshots :: "'t tx_ops \<Rightarrow> string \<Rightarrow> SnapshotManifest list \<Rightarrow> ('t, unit) bld_action" where
  "dropSnapshots T draftID [] = retE ()"
| "dropSnapshots T draftID (m # ms) =
     bindE (dropContent T (snapshotKey draftID (sm_ID m))) (\<lambda>_. dropSnapshots T draftID ms)"

definition decompress :: "'x bld_env \<Rightarrow> string \<Rightarrow> string \<Rightarrow> bytes \<Rightarrow> int \<Rightarrow> bld_err + bytes" where
  "decompress E kind i compressed sz =
     (if sz > MaxDocumentBytes then Inl (Corrupt kind i ''declared size exceeds the document limit'')
      else
        (case be_inflate E (nat (sz + 1)) compressed of
           Inl m \<Rightarrow> Inl (Corrupt kind i m)
         | Inr data \<Rightarrow>
             if int (length data) \<noteq> sz then Inl (Corrupt kind i ''decompressed payload has another size'') else Inr data))"

definition verify_payload :: "'x bld_env \<Rightarrow> string \<Rightarrow> string \<Rightarrow> SnapshotManifest \<Rightarrow> bytes \<Rightarrow> bld_err + bytes" where
  "verify_payload E kind i m v =
     (if int (length v) \<noteq> sm_CompressedSize m then Inl (Corrupt kind i ''compressed payload has another size'')
      else
        (case decompress E kind i v (sm_Size m) of
           Inl e \<Rightarrow> Inl e
         | Inr data \<Rightarrow> if digestOf E data \<noteq> sm_Digest m then Inl (Corrupt kind i ''document has another digest'') else Inr data))"

definition readPayload ::
  "'x bld_env \<Rightarrow> 's rec_store \<Rightarrow> string \<Rightarrow> string \<Rightarrow> string \<Rightarrow> SnapshotManifest \<Rightarrow> ('s, bytes) bld_action" where
  "readPayload E S kind i key m =
     bindE (checkE (validateManifestShape kind i m)) (\<lambda>_.
     bindE (readingE (\<lambda>e. case e of RecordNotExist _ _ \<Rightarrow> Corrupt kind i ''content is missing'' | _ \<Rightarrow> BStore e)
              (rd_get S NamespaceContent key)) (\<lambda>r.
       readE (\<lambda>_. verify_payload E kind i m (r_value r))))"

subsection \<open>Documents\<close>

definition parseDocument :: "'x bld_env \<Rightarrow> bytes \<Rightarrow> bld_err + 'x Document" where
  "parseDocument E data =
     (if data = [] then Inl (Invalid ''document'' ''must not be empty'')
      else if int (length data) > MaxDocumentBytes then Inl (TooLarge ''document'' (int (length data)) MaxDocumentBytes)
      else (case be_parse E data of Inl m \<Rightarrow> Inl (Invalid ''document'' m) | Inr d \<Rightarrow> Inr d))"

definition encodeDocument :: "'x bld_env \<Rightarrow> 'x Document \<Rightarrow> bld_err + bytes" where
  "encodeDocument E d =
     (case be_encode E d of
        Inl m \<Rightarrow> Inl (Invalid ''document'' m)
      | Inr c \<Rightarrow> if int (length c) > MaxDocumentBytes then Inl (TooLarge ''document'' (int (length c)) MaxDocumentBytes) else Inr c)"

definition documentTitle :: "'x Document \<Rightarrow> string \<Rightarrow> bld_err + string" where
  "documentTitle d fallback =
     (let title = (if d_Name d \<noteq> [] then d_Name d else fallback)
      in case validateText ''title'' title MaxTitleLength False of Some e \<Rightarrow> Inl e | None \<Rightarrow> Inr title)"

definition parseStored :: "'x bld_env \<Rightarrow> string \<Rightarrow> string \<Rightarrow> bytes \<Rightarrow> bld_err + 'x Document" where
  "parseStored E kind i data = (case be_parse E data of Inl m \<Rightarrow> Inl (Corrupt kind i m) | Inr d \<Rightarrow> Inr d)"

subsection \<open>Metadata\<close>

definition encodeDraft :: "'x bld_env \<Rightarrow> DraftMetadata \<Rightarrow> bld_err + bytes" where
  "encodeDraft E d =
     (case be_meta_enc E d of
        Inl m \<Rightarrow> Inl (BldFailure m)
      | Inr v \<Rightarrow> if int (length v) > MaxMetadataBytes then Inl (TooLarge ''draft metadata'' (int (length v)) MaxMetadataBytes) else Inr v)"

definition decodeDraft :: "'x bld_env \<Rightarrow> store_record \<Rightarrow> bld_err + DraftMetadata" where
  "decodeDraft E r =
     (case be_meta_dec E (r_value r) of
        Inl m \<Rightarrow> Inl (Corrupt kindDraft (r_key r) m)
      | Inr d \<Rightarrow>
          (case validateDraftMetadata (r_key r) d of
             Some e \<Rightarrow> Inl e
           | None \<Rightarrow> Inr (d\<lparr>dm_Revision := r_revision r\<rparr>)))"

subsection \<open>Reading\<close>

definition GetDraft :: "'x bld_env \<Rightarrow> 's rec_store \<Rightarrow> string \<Rightarrow> ('s, DraftMetadata) bld_action" where
  "GetDraft E S draftID =
     bindE (checkE (ctx_err E)) (\<lambda>_.
     bindE (checkE (validateID ''draftID'' draftID)) (\<lambda>_.
     bindE (readingE (storeError kindDraft draftID AnyRevision) (rd_get S NamespaceDrafts draftID)) (\<lambda>r.
       readE (\<lambda>_. decodeDraft E r))))"

definition snapshot :: "'x bld_env \<Rightarrow> 's rec_store \<Rightarrow> string \<Rightarrow> SnapshotManifest \<Rightarrow> ('s, SnapshotManifest \<times> bytes \<times> 'x Document) bld_action" where
  "snapshot E S draftID m =
     bindE (readPayload E S kindSnapshot (sm_ID m) (snapshotKey draftID (sm_ID m)) m) (\<lambda>data.
     bindE (readE (\<lambda>_. parseStored E kindSnapshot (sm_ID m) data)) (\<lambda>d. retE (m, data, d)))"

definition GetCurrentDocument :: "'x bld_env \<Rightarrow> 's rec_store \<Rightarrow> string \<Rightarrow> ('s, SnapshotManifest \<times> bytes \<times> 'x Document) bld_action" where
  "GetCurrentDocument E S draftID =
     bindE (GetDraft E S draftID) (\<lambda>d.
       case Current d of
         None \<Rightarrow> failE (Corrupt kindDraft draftID ''history is empty'')
       | Some m \<Rightarrow> snapshot E S draftID m)"

definition GetSnapshot :: "'x bld_env \<Rightarrow> 's rec_store \<Rightarrow> string \<Rightarrow> string \<Rightarrow> ('s, SnapshotManifest \<times> bytes \<times> 'x Document) bld_action" where
  "GetSnapshot E S draftID snapshotID =
     bindE (GetDraft E S draftID) (\<lambda>d.
       case Snapshot snapshotID d of
         None \<Rightarrow> failE (NotFound kindSnapshot snapshotID)
       | Some m \<Rightarrow> snapshot E S draftID m)"

record DamagedDraft =
  dd_ID :: string
  dd_CreatedBy :: string
  dd_Title :: string
  dd_Updated :: time
  dd_Revision :: int64

text \<open>\<open>0\<close> stands for the zero time. A field that is missing, of another type or not usable is left empty.\<close>

definition readDamagedDraft :: "'x bld_env \<Rightarrow> store_record \<Rightarrow> DamagedDraft" where
  "readDamagedDraft E r =
     (let usable = (\<lambda>f n req. case be_text_field E (r_value r) f of
                      None \<Rightarrow> [] | Some t \<Rightarrow> if validateText f t n req = None then t else [])
      in \<lparr>dd_ID = r_key r, dd_CreatedBy = usable ''createdBy'' MaxOwnerLength True, dd_Title = usable ''title'' MaxTitleLength False,
          dd_Updated = (case be_time_field E (r_value r) ''updated'' of None \<Rightarrow> 0 | Some t \<Rightarrow> t), dd_Revision = r_revision r\<rparr>)"

fun sort_drafts :: "'x bld_env \<Rightarrow> store_record list \<Rightarrow> DraftMetadata list \<times> DamagedDraft list" where
  "sort_drafts E [] = ([], [])"
| "sort_drafts E (r # rs) =
     (case sort_drafts E rs of
        (ds, bad) \<Rightarrow> (case decodeDraft E r of Inl _ \<Rightarrow> (ds, readDamagedDraft E r # bad) | Inr d \<Rightarrow> (d # ds, bad)))"

definition ListDraftsWithDamaged :: "'x bld_env \<Rightarrow> 's rec_store \<Rightarrow> ('s, DraftMetadata list \<times> DamagedDraft list) bld_action" where
  "ListDraftsWithDamaged E S =
     bindE (checkE (ctx_err E)) (\<lambda>_.
     bindE (readingE BStore (rd_list S NamespaceDrafts [])) (\<lambda>rs. retE (sort_drafts E rs)))"

text \<open>Only the fields a deletion needs are filled in.\<close>

definition GetDamagedDraft :: "'x bld_env \<Rightarrow> 's rec_store \<Rightarrow> string \<Rightarrow> ('s, DraftMetadata) bld_action" where
  "GetDamagedDraft E S draftID =
     bindE (checkE (ctx_err E)) (\<lambda>_.
     bindE (checkE (validateID ''draftID'' draftID)) (\<lambda>_.
     bindE (readingE (storeError kindDraft draftID AnyRevision) (rd_get S NamespaceDrafts draftID)) (\<lambda>r.
       retE \<lparr>dm_ID = draftID, dm_CreatedBy = dd_CreatedBy (readDamagedDraft E r), dm_Title = [], dm_SourceToken = [], dm_SourceFile = [],
             dm_Created = 0, dm_Updated = 0, dm_LastModifiedBy = [], dm_History = [], dm_Cursor = 0, dm_Publication = None,
             dm_Forked = None, dm_DocumentCreatedBy = [], dm_DocumentCreatedAt = [], dm_Revision = r_revision r, dm_Stamp = None\<rparr>)))"

subsection \<open>Creating\<close>

definition firstDocument :: "'x bld_env \<Rightarrow> 'x Document \<Rightarrow> CreateDraftRequest \<Rightarrow> bld_err + 'x Document \<times> bytes" where
  "firstDocument E d req =
     (let now = be_format E (be_now E);
          p = Document_Provenance d;
          q = p\<lparr>pv_CreatedBy := (if pv_CreatedBy p = [] then cr_Actor req else pv_CreatedBy p),
                pv_CreatedAt := (if pv_CreatedAt p = [] then now else pv_CreatedAt p),
                pv_UpdatedBy := cr_Actor req, pv_UpdatedAt := now\<rparr>;
          stamped = map_sum id (Pair (SetProvenance q d)) (encodeDocument E (SetProvenance q d))
      in (case (cr_Origin req, encodeDocument E d) of
            (Some digest, Inr c) \<Rightarrow> if digestOf E c = digest then Inr (d, c) else stamped
          | _ \<Rightarrow> stamped))"

definition manifest :: "'x bld_env \<Rightarrow> nat \<Rightarrow> payload \<Rightarrow> string \<Rightarrow> string \<Rightarrow> bld_err + SnapshotManifest" where
  "manifest E i load actor summary =
     map_sum id (\<lambda>snapshotID.
       \<lparr>sm_ID = snapshotID, sm_Digest = pl_digest load, sm_Size = pl_size load,
        sm_CompressedSize = int (length (pl_compressed load)), sm_CreatedAt = be_now E, sm_CreatedBy = actor,
        sm_Summary = summary, sm_OpID = []\<rparr>) (new_id E i ''snapshotID'')"

definition validateCreateRequest :: "CreateDraftRequest \<Rightarrow> bld_err option" where
  "validateCreateRequest req =
     (case validateText ''actor'' (cr_Actor req) MaxOwnerLength True of Some e \<Rightarrow> Some e | None \<Rightarrow>
     (case validateText ''title'' (cr_Title req) MaxTitleLength False of Some e \<Rightarrow> Some e | None \<Rightarrow>
     (case validateText ''sourceToken'' (cr_SourceToken req) MaxSourceTokenLength False of Some e \<Rightarrow> Some e | None \<Rightarrow>
     (case validateText ''summary'' (cr_Summary req) MaxSummaryLength False of Some e \<Rightarrow> Some e | None \<Rightarrow>
        if (case cr_Origin req of None \<Rightarrow> False | Some digest \<Rightarrow> \<not> IsDigest digest)
        then Some (Invalid ''origin'' ''digest is not a sha256 digest'')
        else ValidateSourceFile (cr_SourceFile req)))))"

definition checkDraftLimit :: "'s rec_store \<Rightarrow> ('s, unit) bld_action" where
  "checkDraftLimit S =
     bindE (readingE BStore (rd_keys S NamespaceDrafts [])) (\<lambda>keys.
       if length keys \<ge> MaxDrafts then failE (DraftLimit (int MaxDrafts)) else retE ())"

text \<open>A transaction whose error is given as that of the object it writes.\<close>

definition draft_txn :: "'s rec_store \<Rightarrow> string \<Rightarrow> int64 \<Rightarrow> ('s, 'a) bld_action \<Rightarrow> ('s, 'a) bld_action" where
  "draft_txn S draftID expected fn s =
     (case record_txn S (\<lambda>e. BStore (cause e)) fn s of
        (s', Inl e) \<Rightarrow> (s', Inl (txnError kindDraft draftID expected e))
      | (s', Inr x) \<Rightarrow> (s', Inr x))"

definition CreateDraft :: "'x bld_env \<Rightarrow> 's rec_store \<Rightarrow> CreateDraftRequest \<Rightarrow> ('s, DraftMetadata) bld_action" where
  "CreateDraft E S req =
     bindE (checkE (ctx_err E)) (\<lambda>_.
     bindE (checkE (validateCreateRequest req)) (\<lambda>_.
     bindE (checkDraftLimit S) (\<lambda>_.
     bindE (readE (\<lambda>_. new_id E 0 ''draftID'')) (\<lambda>draftID.
     bindE (readE (\<lambda>_. parseDocument E (cr_Document req))) (\<lambda>doc.
     bindE (readE (\<lambda>_. firstDocument E doc req)) (\<lambda>(doc', canonical).
     bindE (readE (\<lambda>_. documentTitle doc' (cr_Title req))) (\<lambda>title.
     bindE (readE (\<lambda>_. buildPayload E canonical)) (\<lambda>load.
     bindE (readE (\<lambda>_. manifest E 1 load (cr_Actor req) (cr_Summary req))) (\<lambda>m.
       let stamp = Document_Provenance doc';
           meta = \<lparr>dm_ID = draftID, dm_CreatedBy = cr_Actor req, dm_Title = title, dm_SourceToken = cr_SourceToken req,
                   dm_SourceFile = cr_SourceFile req, dm_Created = be_now E, dm_Updated = be_now E,
                   dm_LastModifiedBy = cr_Actor req, dm_History = [m], dm_Cursor = 0, dm_Publication = None,
                   dm_Forked = cr_Forked req, dm_DocumentCreatedBy = pv_CreatedBy stamp,
                   dm_DocumentCreatedAt = pv_CreatedAt stamp, dm_Revision = AnyRevision, dm_Stamp = Some stamp\<rparr>
       in bindE (readE (\<lambda>_. encodeDraft E meta)) (\<lambda>value.
            draft_txn S draftID AnyRevision
              (bindE (putContent (rd_tx S) (be_written E) (snapshotKey draftID (sm_ID m)) load) (\<lambda>_.
                 callE (tx_create (rd_tx S) (be_written E) NamespaceDrafts draftID value) (\<lambda>r.
                   case r of
                     Inl e \<Rightarrow> failE (storeError kindDraft draftID AnyRevision e)
                   | Inr rec \<Rightarrow> retE (meta\<lparr>dm_Revision := r_revision rec\<rparr>))))))))))))))"

subsection \<open>Changing\<close>

definition writeDraft :: "'x bld_env \<Rightarrow> 's rec_store \<Rightarrow> DraftMetadata \<Rightarrow> int64 \<Rightarrow> ('s, DraftMetadata) bld_action" where
  "writeDraft E S updated expected =
     bindE (readE (\<lambda>_. encodeDraft E updated)) (\<lambda>value.
       callE (rd_update S (be_written E) NamespaceDrafts (dm_ID updated) value expected) (\<lambda>r.
         case r of
           Inl e \<Rightarrow> failE (storeError kindDraft (dm_ID updated) expected e)
         | Inr rec \<Rightarrow> retE (updated\<lparr>dm_Revision := r_revision rec\<rparr>)))"

definition writeDraftTxn ::
  "'x bld_env \<Rightarrow> 's rec_store \<Rightarrow> DraftMetadata \<Rightarrow> bytes \<Rightarrow> int64 \<Rightarrow> ('s, unit) bld_action \<Rightarrow> ('s, DraftMetadata) bld_action" where
  "writeDraftTxn E S updated value expected also =
     draft_txn S (dm_ID updated) expected
       (bindE also (\<lambda>_.
          callE (tx_update (rd_tx S) (be_written E) NamespaceDrafts (dm_ID updated) value expected) (\<lambda>r.
            case r of
              Inl e \<Rightarrow> failE (storeError kindDraft (dm_ID updated) expected e)
            | Inr rec \<Rightarrow> retE (updated\<lparr>dm_Revision := r_revision rec\<rparr>))))"

definition stampedSnapshot ::
  "'x bld_env \<Rightarrow> 'x Document \<Rightarrow> Provenance \<Rightarrow> string \<Rightarrow> bld_err + payload \<times> SnapshotManifest" where
  "stampedSnapshot E doc stamp summary =
     (case encodeDocument E (SetProvenance stamp doc) of
        Inl e \<Rightarrow> Inl e
      | Inr canonical \<Rightarrow>
          (case buildPayload E canonical of
             Inl e \<Rightarrow> Inl e
           | Inr load \<Rightarrow> map_sum id (Pair load) (manifest E 0 load (pv_UpdatedBy stamp) summary)))"

definition validateAppendRequest :: "AppendSnapshotRequest \<Rightarrow> bld_err option" where
  "validateAppendRequest req =
     (case validateText ''actor'' (ar_Actor req) MaxOwnerLength True of Some e \<Rightarrow> Some e | None \<Rightarrow>
     (case validateOptionalID ''opId'' (ar_OpID req) of Some e \<Rightarrow> Some e | None \<Rightarrow>
        validateText ''summary'' (ar_Summary req) MaxSummaryLength False))"

text \<open>The draft with the new snapshot after the cursor, pruned, and the snapshots that go.\<close>

definition appended :: "string \<Rightarrow> time \<Rightarrow> string \<Rightarrow> Provenance \<Rightarrow> SnapshotManifest \<Rightarrow> DraftMetadata \<Rightarrow> DraftMetadata \<times> SnapshotManifest list" where
  "appended actor now title stamp m d =
     (let n = nat (dm_Cursor d + 1);
          h = take n (dm_History d) @ [m];
          d1 = (stampDraft actor now (d\<lparr>dm_History := h, dm_Cursor := int (length h) - 1\<rparr>))\<lparr>dm_Title := title, dm_Stamp := Some stamp\<rparr>
      in (case pruneHistory d1 of (d2, pruned) \<Rightarrow> (d2, drop n (dm_History d) @ pruned)))"

definition AppendSnapshot :: "'x bld_env \<Rightarrow> 's rec_store \<Rightarrow> AppendSnapshotRequest \<Rightarrow> ('s, DraftMetadata) bld_action" where
  "AppendSnapshot E S req =
     bindE (checkE (ctx_err E)) (\<lambda>_.
     bindE (checkE (validateAppendRequest req)) (\<lambda>_.
     bindE (readE (\<lambda>_. parseDocument E (ar_Document req))) (\<lambda>doc.
     bindE (GetDraft E S (ar_DraftID req)) (\<lambda>meta.
     bindE (checkE (checkRevision (ar_DraftID req) (ar_ExpectedRevision req) (dm_Revision meta))) (\<lambda>_.
     bindE (readE (\<lambda>_. documentTitle doc (dm_Title meta))) (\<lambda>title.
       let stamp = \<lparr>pv_CreatedBy = dm_DocumentCreatedBy meta, pv_CreatedAt = dm_DocumentCreatedAt meta,
                    pv_UpdatedBy = ar_Actor req, pv_UpdatedAt = be_format E (be_now E)\<rparr>
       in bindE (readE (\<lambda>_. stampedSnapshot E doc stamp (ar_Summary req))) (\<lambda>(load, m0).
            let m = m0\<lparr>sm_OpID := ar_OpID req\<rparr>;
                (updated, dropped) = appended (ar_Actor req) (be_now E) title stamp m meta
            in if HistoryBytes updated > MaxDraftHistoryBytes
               then failE (TooLarge ''draft history'' (HistoryBytes updated) MaxDraftHistoryBytes)
               else
                 bindE (readE (\<lambda>_. encodeDraft E updated)) (\<lambda>value.
                   writeDraftTxn E S updated value (dm_Revision meta)
                     (bindE (putContent (rd_tx S) (be_written E) (snapshotKey (ar_DraftID req) (sm_ID m)) load) (\<lambda>_.
                        dropSnapshots (rd_tx S) (ar_DraftID req) dropped))))))))))"

definition resolveCursor :: "DraftMetadata \<Rightarrow> MoveCursorRequest \<Rightarrow> bld_err + int" where
  "resolveCursor d req =
     (if mr_SnapshotID req \<noteq> [] then
        (case findR (\<lambda>m. Inr (sm_ID m = mr_SnapshotID req) :: bld_err + bool) (dm_History d) of
           Inr (Some i) \<Rightarrow> Inr (int i)
         | _ \<Rightarrow> Inl (NotFound kindSnapshot (mr_SnapshotID req)))
      else if mr_Index req < 0 \<or> mr_Index req \<ge> int (length (dm_History d)) then Inl (Invalid ''index'' ''must be in the history'')
      else Inr (mr_Index req))"

definition MoveCursor :: "'x bld_env \<Rightarrow> 's rec_store \<Rightarrow> MoveCursorRequest \<Rightarrow> ('s, DraftMetadata) bld_action" where
  "MoveCursor E S req =
     bindE (checkE (ctx_err E)) (\<lambda>_.
     bindE (checkE (validateText ''actor'' (mr_Actor req) MaxOwnerLength True)) (\<lambda>_.
     bindE (GetDraft E S (mr_DraftID req)) (\<lambda>meta.
     bindE (checkE (checkRevision (mr_DraftID req) (mr_ExpectedRevision req) (dm_Revision meta))) (\<lambda>_.
     bindE (readE (\<lambda>_. resolveCursor meta req)) (\<lambda>index.
       writeDraft E S (stampDraft (mr_Actor req) (be_now E) (meta\<lparr>dm_Cursor := index\<rparr>)) (dm_Revision meta))))))"

definition DeleteSnapshot :: "'x bld_env \<Rightarrow> 's rec_store \<Rightarrow> DeleteSnapshotRequest \<Rightarrow> ('s, DraftMetadata) bld_action" where
  "DeleteSnapshot E S req =
     bindE (checkE (ctx_err E)) (\<lambda>_.
     bindE (checkE (validateText ''actor'' (dr_Actor req) MaxOwnerLength True)) (\<lambda>_.
     bindE (GetDraft E S (dr_DraftID req)) (\<lambda>meta.
     bindE (checkE (checkRevision (dr_DraftID req) (dr_ExpectedRevision req) (dm_Revision meta))) (\<lambda>_.
       case findR (\<lambda>m. Inr (sm_ID m = dr_SnapshotID req) :: bld_err + bool) (dm_History meta) of
         Inr (Some i) \<Rightarrow>
           if int i = dm_Cursor meta
           then failE (Conflict kindDraft (dr_DraftID req) (dr_ExpectedRevision req) (dm_Revision meta) ''snapshot is the current snapshot'')
           else
             (case removeSnapshot i meta of
                (removed, d) \<Rightarrow>
                  let updated = stampDraft (dr_Actor req) (be_now E) d
                  in bindE (readE (\<lambda>_. encodeDraft E updated)) (\<lambda>value.
                       writeDraftTxn E S updated value (dm_Revision meta) (dropSnapshots (rd_tx S) (dr_DraftID req) [removed])))
       | _ \<Rightarrow> failE (NotFound kindSnapshot (dr_SnapshotID req))))))"

subsection \<open>Publishing and deleting\<close>

definition isPublishRetry :: "DraftMetadata \<Rightarrow> MarkPublishedRequest \<Rightarrow> bool" where
  "isPublishRetry d req =
     (case (dm_Publication d, Current d) of
        (Some p, Some c) \<Rightarrow>
          sm_ID c = pr_SnapshotID req
          \<and> ps_Mode p = pr_Mode req \<and> ps_TopologyTarget p = pr_TopologyTarget req \<and> ps_TopologyAction p = pr_TopologyAction req
          \<and> ps_ExperimentTarget p = pr_ExperimentTarget req \<and> ps_ScenarioTarget p = pr_ScenarioTarget req
          \<and> ps_SnapshotID p = pr_SnapshotID req \<and> ps_Digest p = sm_Digest c \<and> ps_DocumentID p = pr_DocumentID req
          \<and> (pr_ExpectedRevision req = AnyRevision \<or> pr_ExpectedRevision req = dm_Revision d
             \<or> pr_ExpectedRevision req = ps_Revision p)
      | _ \<Rightarrow> False)"

definition validatePublishTargets :: "MarkPublishedRequest \<Rightarrow> bld_err option" where
  "validatePublishTargets req =
     (if \<not> PublishMode_Valid (pr_Mode req) then Some (Invalid ''mode'' ''unknown publish mode'')
      else if \<not> TopologyAction_Valid (pr_TopologyAction req) then Some (Invalid ''topologyAction'' ''unknown topology action'')
      else if pr_Mode req = PublishModeTopologyExperiment \<and> pr_ExperimentTarget req = []
      then Some (Invalid ''experimentTarget'' ''must not be empty when you publish a topology and an experiment'')
      else if pr_Mode req = PublishModeTopology \<and> pr_ExperimentTarget req \<noteq> []
      then Some (Invalid ''experimentTarget'' ''must be empty when you publish only a topology'')
      else if pr_Mode req = PublishModeTopology \<and> pr_ScenarioTarget req \<noteq> []
      then Some (Invalid ''scenarioTarget'' ''must be empty when you publish only a topology'')
      else None)"

definition validatePublishRequest :: "MarkPublishedRequest \<Rightarrow> bld_err option" where
  "validatePublishRequest req =
     (case validateText ''actor'' (pr_Actor req) MaxOwnerLength True of Some e \<Rightarrow> Some e | None \<Rightarrow>
     (case validateID ''snapshotID'' (pr_SnapshotID req) of Some e \<Rightarrow> Some e | None \<Rightarrow>
     (case validateOptionalID ''documentID'' (pr_DocumentID req) of Some e \<Rightarrow> Some e | None \<Rightarrow>
     (case validateText ''topologyTarget'' (pr_TopologyTarget req) MaxTargetLength True of Some e \<Rightarrow> Some e | None \<Rightarrow>
     (case validateText ''experimentTarget'' (pr_ExperimentTarget req) MaxTargetLength False of Some e \<Rightarrow> Some e | None \<Rightarrow>
     (case validateText ''scenarioTarget'' (pr_ScenarioTarget req) MaxTargetLength False of Some e \<Rightarrow> Some e | None \<Rightarrow>
        validatePublishTargets req))))))"

definition MarkPublished :: "'x bld_env \<Rightarrow> 's rec_store \<Rightarrow> MarkPublishedRequest \<Rightarrow> ('s, DraftMetadata) bld_action" where
  "MarkPublished E S req =
     bindE (checkE (ctx_err E)) (\<lambda>_.
     bindE (checkE (validatePublishRequest req)) (\<lambda>_.
     bindE (GetDraft E S (pr_DraftID req)) (\<lambda>meta.
       if isPublishRetry meta req then retE meta
       else
         bindE (checkE (checkRevision (pr_DraftID req) (pr_ExpectedRevision req) (dm_Revision meta))) (\<lambda>_.
           case Current meta of
             None \<Rightarrow> failE (Corrupt kindDraft (pr_DraftID req) ''history is empty'')
           | Some c \<Rightarrow>
               if sm_ID c \<noteq> pr_SnapshotID req
               then failE (Conflict kindDraft (pr_DraftID req) (pr_ExpectedRevision req) (dm_Revision meta) ''snapshot is not the current snapshot'')
               else
                 writeDraft E S
                   ((stampDraft (pr_Actor req) (be_now E) meta)\<lparr>dm_Publication := Some
                      \<lparr>ps_Mode = pr_Mode req, ps_TopologyTarget = pr_TopologyTarget req, ps_TopologyAction = pr_TopologyAction req,
                       ps_ExperimentTarget = pr_ExperimentTarget req, ps_ScenarioTarget = pr_ScenarioTarget req,
                       ps_SnapshotID = sm_ID c, ps_Digest = sm_Digest c, ps_Revision = dm_Revision meta,
                       ps_DocumentID = pr_DocumentID req, ps_PublishedAt = be_now E, ps_PublishedBy = pr_Actor req\<rparr>\<rparr>)
                   (dm_Revision meta)))))"

definition deleteDraftTx :: "'t tx_ops \<Rightarrow> string \<Rightarrow> int64 \<Rightarrow> ('t, unit) bld_action" where
  "deleteDraftTx T draftID expected =
     callE (tx_delete T NamespaceDrafts draftID expected) (\<lambda>r.
       case r of
         Inl e \<Rightarrow> failE (storeError kindDraft draftID expected e)
       | Inr _ \<Rightarrow>
           callE (tx_delete_prefix T NamespaceContent (draftContentPrefix draftID)) (\<lambda>r.
             case r of Inl e \<Rightarrow> failE (BStore e) | Inr _ \<Rightarrow> retE ()))"

definition DeleteDraft :: "'x bld_env \<Rightarrow> 's rec_store \<Rightarrow> string \<Rightarrow> string \<Rightarrow> int64 \<Rightarrow> ('s, unit) bld_action" where
  "DeleteDraft E S draftID actor expected =
     bindE (checkE (ctx_err E)) (\<lambda>_.
     bindE (checkE (validateText ''actor'' actor MaxOwnerLength True)) (\<lambda>_.
     bindE (checkE (validateID ''draftID'' draftID)) (\<lambda>_.
       draft_txn S draftID expected (deleteDraftTx (rd_tx S) draftID expected))))"

end
