(* ===== verification/Builder_Laws.thy ===== *)
theory Builder_Laws
  imports Builder_Service
begin

section \<open>The draft calls on the abstract store\<close>

text \<open>
  What every call of the Builder service on drafts does to the abstract record store: which draft
  and which content it leaves, for every draft. \<open>draft_at\<close> is the draft stored under an identifier, if its
  record is readable; \<open>drafts_whole\<close> says that the content of every snapshot of every readable draft
  is there and is the document the history says it is. \<open>builder_env\<close> states what is relied on of
  the JSON of metadata, the document codec, gzip, SHA-256 and the clock.
\<close>

subsection \<open>Calls that succeed\<close>

lemma bindE_Inr: "bindE m f s = (t, Inr y) \<longleftrightarrow> (\<exists>s' x. m s = (s', Inr x) \<and> f x s' = (t, Inr y))"
  by (auto simp: bindE_def split: prod.splits sum.splits)

lemma steps_Inr:
  "checkE c s = (t, Inr u) \<longleftrightarrow> c = None \<and> t = s"
  "readingE f g s = (t, Inr x) \<longleftrightarrow> t = s \<and> g s = Inr x"
  "readE h s = (t, Inr x) \<longleftrightarrow> t = s \<and> h s = Inr x"
  by (auto simp: checkE_def readingE_def split: option.splits sum.splits)

lemmas run_Inr = bindE_Inr steps_Inr

lemma first_None: "(case x of None \<Rightarrow> y | Some e \<Rightarrow> Some e) = None \<longleftrightarrow> x = None \<and> y = None"
  by (cases x) auto

lemma ctx_err_None [simp]: "ctx_err E = None \<longleftrightarrow> be_ctx E = None"
  by (simp add: ctx_err_def)

subsection \<open>Keys\<close>

lemma ascii_utf8: "\<forall>c \<in> set s. code_of c < 128 \<Longrightarrow> valid_utf8 s \<and> runes s = map code_of s"
proof -
  assume a: "\<forall>c \<in> set s. code_of c < 128"
  then have "valid_utf8_of (map code_of s)"
    by (induction s) (auto simp: rune_error_def)
  then show ?thesis using a runes_of_bytes[of "map code_of s"] by (auto simp: valid_utf8_def runes_def)
qed

lemma id_char_code: "id_char c \<Longrightarrow> 32 \<le> code_of c \<and> code_of c < 127 \<and> c \<noteq> CHR ''/''"
  by (auto simp: id_char_def id_start_def isRecordNameStart_def)

lemma ValidID_ascii: "ValidID i \<Longrightarrow> c \<in> set i \<Longrightarrow> 32 \<le> code_of c \<and> code_of c < 127"
  using ValidID_chars[of i] id_char_code by blast

lemma ValidID_segment: "ValidID i \<Longrightarrow> i \<noteq> [] \<and> i \<noteq> ''.'' \<and> i \<noteq> ''..''"
  by (auto simp: ValidID_def id_start_def isRecordNameStart_def)

lemma ns_ok: "ValidateRecordNamespace NamespaceDrafts = None" "ValidateRecordNamespace NamespaceContent = None"
  "ValidateRecordNamespace NamespacePublished = None"
  by (simp_all add: NamespaceDrafts_def NamespaceContent_def NamespacePublished_def ValidateRecordNamespace_def isRecordNameStart_def
      isRecordNameRune_def runes_def maxRecordNamespaceLen_def)

lemma segments_key_ok:
  assumes "segs \<noteq> []" and "\<forall>s \<in> set segs. s \<noteq> [] \<and> s \<noteq> ''.'' \<and> s \<noteq> ''..'' \<and> (\<forall>c \<in> set s. 32 \<le> code_of c \<and> code_of c < 127 \<and> c \<noteq> CHR ''/'')"
    and "length (join_with ''/'' segs) \<le> 512"
  shows "ValidateRecordKey (join_with ''/'' segs) = None"
proof -
  let ?k = "join_with ''/'' segs"
  have split: "split_on CHR ''/'' ?k = segs"
    using assms(1,2) by (intro split_join) auto
  have ne: "?k \<noteq> []"
  proof
    assume "?k = []"
    then have "segs = [[]]" using split by simp
    then show False using assms(2) by simp
  qed
  have "c = CHR ''/'' \<or> (\<exists>s \<in> set segs. c \<in> set s)" if "c \<in> set ?k" for c
    using that by (induction segs rule: induct_list012) auto
  then have chars: "32 \<le> code_of c \<and> code_of c < 127" if "c \<in> set ?k" for c using that assms(2) by fastforce
  then have "\<forall>c \<in> set ?k. code_of c < 128" by force
  from ascii_utf8[OF this] have "valid_utf8 ?k" "runes ?k = map code_of ?k" by auto
  then have "validateRecordKeyOrPrefix ?k False = None \<and> ?k \<noteq> []"
    unfolding key_none_iff split using ne assms(2,3) chars by (fastforce simp: maxRecordKeyLen_def)
  then show ?thesis using ne by (simp add: ValidateRecordKey_def)
qed

lemma draft_key_ok: "ValidID i \<Longrightarrow> validateRecordNamespaceAndKey NamespaceDrafts i = None"
  using segments_key_ok[of "[i]"] ValidID_segment[of i] ValidID_chars[of i] id_char_code
  by (auto simp: validateRecordNamespaceAndKey_def ns_ok)

lemma snapshotKey_join: "snapshotKey a b = join_with ''/'' [''drafts'', a, b]"
  by (simp add: snapshotKey_def draftContentPrefix_def)

lemma snapshot_key_ok: "ValidID a \<Longrightarrow> ValidID b \<Longrightarrow> validateRecordNamespaceAndKey NamespaceContent (snapshotKey a b) = None"
  using segments_key_ok[of "[''drafts'', a, b]"] ValidID_segment[of a] ValidID_chars[of a] ValidID_segment[of b] ValidID_chars[of b] id_char_code
  unfolding snapshotKey_join by (auto simp: validateRecordNamespaceAndKey_def ns_ok)

lemma append_slash_eq: "CHR ''/'' \<notin> set a \<Longrightarrow> CHR ''/'' \<notin> set a' \<Longrightarrow> a @ CHR ''/'' # b = a' @ CHR ''/'' # b' \<longleftrightarrow> a = a' \<and> b = b'"
proof (induction a arbitrary: a')
  case Nil
  then show ?case by (cases a') auto
next
  case (Cons x a)
  then show ?case by (cases a') auto
qed

lemma snapshotKey_eq [simp]: "ValidID a \<Longrightarrow> ValidID a' \<Longrightarrow> snapshotKey a b = snapshotKey a' b' \<longleftrightarrow> a = a' \<and> b = b'"
  using append_slash_eq[of a a' b b'] ValidID_no_slash by (simp add: snapshotKey_def draftContentPrefix_def)

text \<open>The content of a draft is what has its prefix; no other draft has any of it.\<close>

lemma snapshotKey_prefix: "ValidID a \<Longrightarrow> ValidID a' \<Longrightarrow> prefix (draftContentPrefix a) (snapshotKey a' b) \<longleftrightarrow> a = a'"
proof -
  assume a: "ValidID a" "ValidID a'"
  have "prefix (draftContentPrefix a) (snapshotKey a' b) \<longleftrightarrow> (\<exists>z. a' @ CHR ''/'' # b = a @ CHR ''/'' # z)"
    by (auto simp: prefix_def snapshotKey_def draftContentPrefix_def)
  then show ?thesis using append_slash_eq[of a' a b] a[THEN ValidID_no_slash] by auto
qed

lemma no_double_end:
  assumes "\<not> sublist [c, c] k" and "\<not> suffix [c] k"
  shows "\<not> sublist [c, c] (k @ [c])"
proof
  assume "sublist [c, c] (k @ [c])"
  then obtain u v where k: "k @ [c] = u @ [c, c] @ v" by (auto simp: sublist_def)
  show False
  proof (cases v rule: rev_cases)
    case Nil
    then have "k = u @ [c]" using k by simp
    then show False using assms(2) by (auto simp: suffix_def)
  next
    case (snoc w x)
    then have "k = u @ [c, c] @ w" using k by simp
    then show False using assms(1) by (auto simp: sublist_def)
  qed
qed

lemma content_prefix_ok: "ValidID a \<Longrightarrow> ValidateRecordDeletePrefix (draftContentPrefix a) = None"
proof -
  assume a: "ValidID a"
  let ?p = "draftContentPrefix a"
  have split: "split_on CHR ''/'' ?p = [''drafts'', a, []]"
    using split_join[of "[''drafts'', a, []]" "CHR ''/''"] ValidID_no_slash[OF a] by (simp add: draftContentPrefix_def)
  have codes: "32 \<le> code_of c \<and> code_of c < 127" if "c \<in> set ?p" for c
    using that ValidID_ascii[OF a] by (auto simp: draftContentPrefix_def)
  then have ascii: "valid_utf8 ?p" "runes ?p = map code_of ?p" using ascii_utf8[of ?p] by force+
  have "split_on CHR ''/'' (''drafts/'' @ a) = [''drafts'', a]"
    using split_join[of "[''drafts'', a]" "CHR ''/''"] ValidID_no_slash[OF a] by simp
  then have k: "\<not> sublist ''//'' (''drafts/'' @ a) \<and> \<not> suffix ''/'' (''drafts/'' @ a)"
    using split_on_no_empty[of "''drafts/'' @ a" "CHR ''/''"] ValidID_segment[OF a] by auto
  have "\<not> sublist ''//'' ((''drafts/'' @ a) @ ''/'')"
    by (rule no_double_end) (use k in simp_all)
  then have "\<not> sublist ''//'' ?p" by (simp add: draftContentPrefix_def)
  moreover have "\<not> list_ex (\<lambda>r. r < 32 \<or> r = 127) (runes ?p)" using codes by (force simp: ascii(2) list_ex_iff)
  moreover have "\<not> list_ex (\<lambda>s. s = ''.'' \<or> s = ''..'') (split_on CHR ''/'' ?p)"
    unfolding split using ValidID_segment[OF a] by simp
  moreover have "length ?p \<le> maxRecordKeyLen" "?p \<noteq> []" "\<not> prefix ''/'' ?p"
    using ValidID_chars[OF a] by (simp_all add: draftContentPrefix_def maxRecordKeyLen_def)
  ultimately show ?thesis using ascii(1) by (simp add: ValidateRecordDeletePrefix_def validateRecordKeyOrPrefix_def)
qed

subsection \<open>What is relied on\<close>

definition text_ok :: "nat \<Rightarrow> string \<Rightarrow> bool" where
  "text_ok n t \<longleftrightarrow> length t \<le> n \<and> valid_utf8 t \<and> \<not> list_ex (\<lambda>r. r < 32 \<or> r = 127) (runes t)"

lemma empty_utf8 [simp]: "valid_utf8 []" "runes [] = []"
  by (simp_all add: valid_utf8_def runes_def)

lemma validateText_None: "validateText f t n req = None \<longleftrightarrow> text_ok n t \<and> (req \<longrightarrow> t \<noteq> [])"
  by (auto simp: validateText_def text_ok_def not_less)

definition prov_ok :: "Provenance \<Rightarrow> bool" where
  "prov_ok p \<longleftrightarrow> text_ok MaxOwnerLength (pv_CreatedBy p) \<and> text_ok MaxOwnerLength (pv_UpdatedBy p)
     \<and> (pv_CreatedAt p = [] \<or> IsTime (pv_CreatedAt p)) \<and> (pv_UpdatedAt p = [] \<or> IsTime (pv_UpdatedAt p))"

definition manifest_strings :: "SnapshotManifest \<Rightarrow> string list" where
  "manifest_strings m = [sm_ID m, sm_Digest m, sm_CreatedBy m, sm_Summary m, sm_OpID m]"

definition publication_strings :: "PublicationState \<Rightarrow> string list" where
  "publication_strings p =
     [ps_Mode p, ps_TopologyTarget p, ps_TopologyAction p, ps_ExperimentTarget p, ps_ScenarioTarget p, ps_SnapshotID p,
      ps_Digest p, ps_DocumentID p, ps_PublishedBy p]"

definition forked_strings :: "ForkedPublication \<Rightarrow> string list" where
  "forked_strings f = [fk_DocumentID f, fk_TopologyTarget f, fk_ExperimentTarget f]"

text \<open>JSON holds valid UTF-8 only, so a draft survives it when all its texts are.\<close>

definition draft_utf8 :: "DraftMetadata \<Rightarrow> bool" where
  "draft_utf8 d \<longleftrightarrow>
     list_all valid_utf8
       ([dm_ID d, dm_CreatedBy d, dm_Title d, dm_SourceToken d, dm_SourceFile d, dm_LastModifiedBy d, dm_DocumentCreatedBy d,
         dm_DocumentCreatedAt d]
        @ concat (map manifest_strings (dm_History d))
        @ (case dm_Publication d of None \<Rightarrow> [] | Some p \<Rightarrow> publication_strings p)
        @ (case dm_Forked d of None \<Rightarrow> [] | Some f \<Rightarrow> forked_strings f))"

locale builder_env =
  fixes E :: "'x bld_env" and valid_doc :: "'x Document \<Rightarrow> bool"
  assumes meta_codec: "be_meta_enc E d = Inr v \<Longrightarrow> draft_utf8 d \<Longrightarrow> be_meta_dec E v = Inr (d\<lparr>dm_Revision := 0, dm_Stamp := None\<rparr>)"
    and meta_read: "be_meta_dec E v = Inr d \<Longrightarrow> draft_utf8 d \<and> dm_Stamp d = None"
    and gzip_law: "be_gzip E data = Inr c \<Longrightarrow> c \<noteq> [] \<and> (\<forall>n. be_inflate E n c = Inr (take n data))"
    and sha_law: "length (be_sha256 E data) = 32"
    and parse_valid: "be_parse E b = Inr doc \<Longrightarrow> valid_doc doc \<and> prov_ok (Document_Provenance doc)"
    and stamp_valid: "valid_doc doc \<Longrightarrow> prov_ok p \<Longrightarrow> valid_doc (SetProvenance p doc)"
    and encode_parse: "valid_doc doc \<Longrightarrow> be_encode E doc = Inr c \<Longrightarrow> \<exists>doc'. be_parse E c = Inr doc'"
    and now_law: "IsTime (be_format E (be_now E))"

subsection \<open>Texts\<close>

lemma IsTime_ascii: "IsTime s \<Longrightarrow> valid_utf8 s"
proof -
  assume t: "IsTime s"
  have "code_of (s ! i) < 128" if "i < 20" for i
  proof -
    have "i \<in> {0, 1, 2, 3, 4, 5, 6, 7, 8, 9, 10, 11, 12, 13, 14, 15, 16, 17, 18, 19}"
      using that by (simp only: insert_iff empty_iff) presburger
    then show ?thesis using t by (auto simp: IsTime_def is_digit_def)
  qed
  then have "\<forall>c \<in> set s. code_of c < 128" using t by (auto simp: in_set_conv_nth IsTime_def)
  then show ?thesis using ascii_utf8 by blast
qed

lemma IsDigest_ascii: "IsDigest s \<Longrightarrow> valid_utf8 s"
proof -
  assume d: "IsDigest s"
  then have "s = ''sha256:'' @ drop 7 s" by (auto simp: IsDigest_def Let_def prefix_def)
  then have "c \<in> set ''sha256:'' \<or> c \<in> set (drop 7 s)" if "c \<in> set s" for c using that by (metis Un_iff set_append)
  moreover have "code_of c < 128" if "c \<in> set (drop 7 s)" for c
    using d that by (fastforce simp: IsDigest_def Let_def list_all_iff hex_char_def is_digit_def)
  ultimately have "\<forall>c \<in> set s. code_of c < 128" by fastforce
  then show ?thesis using ascii_utf8 by blast
qed

lemma ValidID_utf8: "ValidID i \<Longrightarrow> valid_utf8 i"
  using ValidID_ascii[of i] ascii_utf8[of i] by fastforce

lemma hex_digit_char: "n < 16 \<Longrightarrow> hex_char (hex_digit n) \<and> ascii_lower (hex_digit n) = hex_digit n"
  by (auto simp: hex_digit_def hex_char_def is_digit_def ascii_lower_def)

lemma hex_of_law: "length (hex_of bs) = 2 * length bs \<and> list_all hex_char (hex_of bs) \<and> map ascii_lower (hex_of bs) = hex_of bs"
proof (induction bs)
  case (Cons b bs)
  have "unat b < 256" using unsigned_less[of b] by simp
  then have "unat b div 16 < 16" "unat b mod 16 < 16" by simp_all
  then show ?case using Cons hex_digit_char by (simp add: hex_of_def)
qed (simp add: hex_of_def)

context builder_env
begin

lemma digest_ok: "IsDigest (digestOf E data)"
  using hex_of_law[of "be_sha256 E data"] sha_law[of data] by (simp add: digestOf_def IsDigest_def Let_def)

lemma payload_ok:
  assumes "buildPayload E data = Inr load" and "sm_Digest m = pl_digest load" "sm_Size m = pl_size load"
    "sm_CompressedSize m = int (length (pl_compressed load))"
  shows "verify_payload E kind i m (pl_compressed load) = Inr data" and "validateManifestShape kind i m = None"
    and "pl_size load = int (length data)" "pl_digest load = digestOf E data"
proof -
  obtain c where c: "be_gzip E data = Inr c" "load = \<lparr>pl_digest = digestOf E data, pl_size = int (length data), pl_compressed = c\<rparr>"
    "int (length data) \<le> MaxDocumentBytes" "int (length c) \<le> MaxCompressedBytes"
    using assms(1) by (auto simp: buildPayload_def split: if_splits sum.splits)
  have "be_inflate E (nat (int (length data) + 1)) c = Inr data" using gzip_law[OF c(1)] by (simp add: nat_add_distrib)
  then show "verify_payload E kind i m (pl_compressed load) = Inr data"
    using c assms(2-4) by (simp add: verify_payload_def decompress_def)
  show "validateManifestShape kind i m = None"
    using c assms(2-4) gzip_law[OF c(1)] digest_ok by (simp add: manifest_shape_iff)
  show "pl_size load = int (length data)" "pl_digest load = digestOf E data" using c by simp_all
qed

end

subsection \<open>Stored drafts\<close>

definition draft_at :: "'x bld_env \<Rightarrow> rstore \<Rightarrow> string \<Rightarrow> DraftMetadata option" where
  "draft_at E st i =
     (case rs_contents st (NamespaceDrafts, i) of
        None \<Rightarrow> None
      | Some s \<Rightarrow> (case decodeDraft E (record_of NamespaceDrafts i s) of Inl _ \<Rightarrow> None | Inr d \<Rightarrow> Some d))"

definition content_at :: "rstore \<Rightarrow> string \<Rightarrow> string \<Rightarrow> bytes option" where
  "content_at st i j = map_option s_value (rs_contents st (NamespaceContent, snapshotKey i j))"

definition read_document :: "'x bld_env \<Rightarrow> SnapshotManifest \<Rightarrow> bytes \<Rightarrow> (bytes \<times> 'x Document) option" where
  "read_document E m v =
     (case verify_payload E kindSnapshot (sm_ID m) m v of
        Inl _ \<Rightarrow> None
      | Inr data \<Rightarrow> (case be_parse E data of Inl _ \<Rightarrow> None | Inr doc \<Rightarrow> Some (data, doc)))"

definition document_at :: "'x bld_env \<Rightarrow> rstore \<Rightarrow> string \<Rightarrow> SnapshotManifest \<Rightarrow> (bytes \<times> 'x Document) option" where
  "document_at E st i m = Option.bind (content_at st i (sm_ID m)) (read_document E m)"

definition drafts_whole :: "'x bld_env \<Rightarrow> rstore \<Rightarrow> bool" where
  "drafts_whole E st \<longleftrightarrow> (\<forall>i d m. draft_at E st i = Some d \<longrightarrow> m \<in> set (dm_History d) \<longrightarrow> document_at E st i m \<noteq> None)"

definition valid_draft :: "DraftMetadata \<Rightarrow> bool" where
  "valid_draft d \<longleftrightarrow> validateDraftMetadata (dm_ID d) d = None \<and> draft_utf8 d"

lemma ns_differ [simp]:
  "NamespaceDrafts \<noteq> NamespaceContent" "NamespaceContent \<noteq> NamespaceDrafts" "NamespaceDrafts \<noteq> NamespacePublished"
  "NamespacePublished \<noteq> NamespaceDrafts" "NamespacePublished \<noteq> NamespaceContent" "NamespaceContent \<noteq> NamespacePublished"
  by (simp_all add: NamespaceDrafts_def NamespaceContent_def NamespacePublished_def)

lemma publication_history:
  assumes "dm_History d' = dm_History d" and "dm_Publication d' = dm_Publication d"
  shows "validatePublicationState k d' = validatePublicationState k d"
  unfolding validatePublicationState_def Snapshot_def assms by (rule refl)

lemma valid_draft_other:
  assumes "valid_draft d" and "dm_ID d' = dm_ID d" "dm_CreatedBy d' = dm_CreatedBy d" "dm_SourceFile d' = dm_SourceFile d"
    "dm_SourceToken d' = dm_SourceToken d" "dm_DocumentCreatedBy d' = dm_DocumentCreatedBy d"
    "dm_DocumentCreatedAt d' = dm_DocumentCreatedAt d" "dm_Forked d' = dm_Forked d"
    "dm_Publication d' = dm_Publication d" "dm_History d' = dm_History d"
    and "text_ok MaxTitleLength (dm_Title d')" "valid_utf8 (dm_LastModifiedBy d')"
    "0 \<le> dm_Cursor d'" "dm_Cursor d' < int (length (dm_History d))"
  shows "valid_draft d'"
  using assms publication_history[of d' d]
  by (auto simp: valid_draft_def validateDraftMetadata_None draft_utf8_def validateText_None text_ok_def)

lemma decode_valid: "decodeDraft E (record_of ns i s) = Inr d \<Longrightarrow> dm_ID d = i \<and> dm_Revision d = s_revision s"
  by (auto simp: decodeDraft_def validateDraftMetadata_None split: sum.splits option.splits)

lemma validate_revision [simp]: "validateDraftMetadata k (d\<lparr>dm_Revision := r\<rparr>) = validateDraftMetadata k d"
  "validateDraftMetadata k (d\<lparr>dm_Stamp := x\<rparr>) = validateDraftMetadata k d"
  "draft_utf8 (d\<lparr>dm_Revision := r\<rparr>) = draft_utf8 d" "draft_utf8 (d\<lparr>dm_Stamp := x\<rparr>) = draft_utf8 d"
  using publication_history[of "d\<lparr>dm_Revision := r\<rparr>" d] publication_history[of "d\<lparr>dm_Stamp := x\<rparr>" d]
  by (simp_all add: validateDraftMetadata_def draft_utf8_def HistoryBytes_def cong: option.case_cong)

lemma draft_id: "draft_at E st i = Some d \<Longrightarrow> dm_ID d = i \<and> ValidID i"
  by (auto simp: draft_at_def decodeDraft_def validateDraftMetadata_None split: sum.splits option.splits)

lemma draft_record: "draft_at E st i = Some d \<Longrightarrow> \<exists>s. rs_contents st (NamespaceDrafts, i) = Some s \<and> s_revision s = dm_Revision d"
  using decode_valid[of E NamespaceDrafts i] by (fastforce simp: draft_at_def split: sum.splits option.splits)

lemma GetDraft_Inr: "GetDraft E spec_store i st = (st', Inr d) \<longleftrightarrow> st' = st \<and> be_ctx E = None \<and> draft_at E st i = Some d"
proof (cases "ValidID i")
  case True
  then show ?thesis using draft_key_ok[OF True]
    by (cases "rs_contents st (NamespaceDrafts, i)") (auto simp: GetDraft_def run_Inr draft_at_def spec_get_def split: sum.splits)
next
  case False
  then show ?thesis using draft_id[of E st i d] by (auto simp: GetDraft_def run_Inr)
qed

lemma GetDraft_reads [simp]: "only_reads (GetDraft E S i)"
  by (simp add: GetDraft_def)

context builder_env
begin

lemma draft_valid: "draft_at E st i = Some d \<Longrightarrow> valid_draft d \<and> dm_Stamp d = None"
  using meta_read draft_id[of E st i d] by (auto simp: draft_at_def decodeDraft_def valid_draft_def split: sum.splits option.splits)

lemma draft_written:
  assumes "valid_draft u" and "encodeDraft E u = Inr v" and "rs_contents st (NamespaceDrafts, dm_ID u) = Some s" and "s_value s = v"
  shows "draft_at E st (dm_ID u) = Some (u\<lparr>dm_Revision := s_revision s, dm_Stamp := None\<rparr>)"
proof -
  have "be_meta_dec E v = Inr (u\<lparr>dm_Revision := 0, dm_Stamp := None\<rparr>)"
    using assms(1,2) meta_codec by (auto simp: encodeDraft_def valid_draft_def split: sum.splits if_splits)
  then show ?thesis using assms(1,3,4) by (simp add: draft_at_def decodeDraft_def valid_draft_def)
qed

end

subsection \<open>What a transaction on a draft leaves\<close>

text \<open>Nothing but the record of the draft and its content has changed.\<close>

definition only_draft :: "string \<Rightarrow> rstore \<Rightarrow> rstore \<Rightarrow> bool" where
  "only_draft i st st' \<longleftrightarrow>
     (\<forall>n k. rs_contents st' (n, k) \<noteq> rs_contents st (n, k) \<longrightarrow>
        n = NamespaceDrafts \<and> k = i \<or> n = NamespaceContent \<and> prefix (draftContentPrefix i) k)"

lemma only_draft_refl [simp]: "only_draft i st st"
  by (simp add: only_draft_def)

lemma only_draft_trans: "only_draft i st t \<Longrightarrow> only_draft i t u \<Longrightarrow> only_draft i st u"
  by (simp add: only_draft_def) metis

lemma only_draft_at: "only_draft i st st' \<Longrightarrow> j \<noteq> i \<Longrightarrow> draft_at E st' j = draft_at E st j"
  unfolding only_draft_def draft_at_def by (metis ns_differ(1))

lemma only_draft_content: "only_draft i st st' \<Longrightarrow> ValidID i \<Longrightarrow> ValidID j \<Longrightarrow> j \<noteq> i \<Longrightarrow> content_at st' j k = content_at st j k"
  unfolding only_draft_def content_at_def using snapshotKey_prefix[of i j k] by (metis ns_differ(2))

lemma prefix_snapshotKey [simp]: "prefix (draftContentPrefix i) (snapshotKey i k)"
  by (simp add: snapshotKey_def)

lemma putContent_law:
  assumes "validateRecordNamespaceAndKey NamespaceContent key = None"
  shows "\<exists>s. putContent spec_ops now key load st = (spec_write NamespaceContent key s st, Inr ()) \<and> s_value s = pl_compressed load
    \<and> s_revision s = rs_revision st + 1"
  using assms by (cases "rs_contents st (NamespaceContent, key)")
    (auto simp: putContent_def callE_def spec_create_def spec_update_def checkRecordRevision_def Let_def)

lemma dropContent_law:
  assumes "validateRecordNamespaceAndKey NamespaceContent key = None"
  shows "dropContent spec_ops key st = (st\<lparr>rs_contents := (rs_contents st)((NamespaceContent, key) := None)\<rparr>, Inr ())"
  using assms by (cases "rs_contents st (NamespaceContent, key)")
    (auto simp: dropContent_def callE_def spec_delete_def checkRecordRevision_def fun_upd_idem)

lemma dropSnapshots_law:
  assumes "ValidID i" and "\<forall>m \<in> set ms. ValidID (sm_ID m)"
  shows "\<exists>st'. dropSnapshots spec_ops i ms st = (st', Inr ()) \<and> rs_revision st' = rs_revision st \<and> only_draft i st st'
    \<and> (\<forall>k. rs_contents st' (NamespaceDrafts, k) = rs_contents st (NamespaceDrafts, k))
    \<and> (\<forall>k. content_at st' i k = (if k \<in> sm_ID ` set ms then None else content_at st i k))"
  using assms(2)
proof (induction ms arbitrary: st)
  case (Cons m ms)
  let ?st = "st\<lparr>rs_contents := (rs_contents st)((NamespaceContent, snapshotKey i (sm_ID m)) := None)\<rparr>"
  have one: "dropContent spec_ops (snapshotKey i (sm_ID m)) st = (?st, Inr ())"
    using assms(1) Cons.prems by (intro dropContent_law snapshot_key_ok) auto
  have only: "only_draft i st ?st" by (auto simp: only_draft_def)
  have content: "content_at ?st i k = (if k = sm_ID m then None else content_at st i k)" for k
    using assms(1) by (simp add: content_at_def)
  from Cons obtain st' where "dropSnapshots spec_ops i ms ?st = (st', Inr ())" "rs_revision st' = rs_revision ?st" "only_draft i ?st st'"
    "\<forall>k. rs_contents st' (NamespaceDrafts, k) = rs_contents ?st (NamespaceDrafts, k)"
    "\<forall>k. content_at st' i k = (if k \<in> sm_ID ` set ms then None else content_at ?st i k)" by fastforce
  then show ?case using one content only_draft_trans[OF only] by simp
qed simp

lemma spec_update_Inr:
  assumes "spec_update now ns k v e t = (t', Inr r)"
  shows "\<exists>old s. rs_contents t (ns, k) = Some old \<and> (e = AnyRevision \<or> e = s_revision old) \<and> s_value s = v
    \<and> s_revision s = rs_revision t + 1 \<and> t' = spec_write ns k s t \<and> r = record_of ns k s"
proof -
  obtain old where "rs_contents t (ns, k) = Some old" "checkRecordRevision ns k e (s_revision old) = None"
    using assms by (auto simp: spec_update_def split: option.splits)
  then show ?thesis using assms
    by (intro exI[of _ old] exI[of _ "\<lparr>s_value = v, s_revision = rs_revision t + 1, s_created = s_created old, s_updated = now\<rparr>"])
      (auto simp: spec_update_def checkRecordRevision_def Let_def split: option.splits if_splits)
qed

lemma draft_txn_Inr: "draft_txn spec_store i e fn st = (st', Inr x) \<longleftrightarrow> fn st = (st', Inr x)"
  by (auto simp: draft_txn_def spec_txn split: prod.splits sum.splits)

context builder_env
begin

text \<open>The draft is written at the revision its writer has read.\<close>

lemma draft_updated:
  assumes "valid_draft u" and "encodeDraft E u = Inr v" and "spec_update now NamespaceDrafts (dm_ID u) v e t = (t', Inr r)"
  shows "draft_at E t' (dm_ID u) = Some (u\<lparr>dm_Revision := r_revision r, dm_Stamp := None\<rparr>)" and "only_draft (dm_ID u) t t'"
    and "content_at t' i k = content_at t i k" and "r_revision r = rs_revision t + 1"
proof -
  obtain s where s: "s_value s = v" "s_revision s = rs_revision t + 1" "t' = spec_write NamespaceDrafts (dm_ID u) s t"
    "r = record_of NamespaceDrafts (dm_ID u) s"
    using spec_update_Inr[OF assms(3)] by blast
  then show "draft_at E t' (dm_ID u) = Some (u\<lparr>dm_Revision := r_revision r, dm_Stamp := None\<rparr>)"
    using draft_written[OF assms(1,2), of t' s] by (simp add: spec_write_def)
  show "only_draft (dm_ID u) t t'" using s by (auto simp: only_draft_def spec_write_def)
  show "content_at t' i k = content_at t i k" "r_revision r = rs_revision t + 1" using s by (auto simp: content_at_def spec_write_def)
qed

lemma writeDraft_law:
  assumes "writeDraft E spec_store u e st = (st', Inr d)" and "valid_draft u"
  shows "draft_at E st' (dm_ID u) = Some (d\<lparr>dm_Stamp := None\<rparr>)" and "only_draft (dm_ID u) st st'"
    and "content_at st' i k = content_at st i k" and "d = u\<lparr>dm_Revision := rs_revision st + 1\<rparr>"
proof -
  obtain v r where v: "encodeDraft E u = Inr v" and up: "spec_update (be_written E) NamespaceDrafts (dm_ID u) v e st = (st', Inr r)"
    and d: "d = u\<lparr>dm_Revision := r_revision r\<rparr>"
    using assms(1) by (auto simp: writeDraft_def run_Inr callE_def spec_txn split: prod.splits sum.splits)
  note law = draft_updated[OF assms(2) v up]
  show "draft_at E st' (dm_ID u) = Some (d\<lparr>dm_Stamp := None\<rparr>)" "only_draft (dm_ID u) st st'"
    "content_at st' i k = content_at st i k" "d = u\<lparr>dm_Revision := rs_revision st + 1\<rparr>"
    using law d by simp_all
qed

lemma writeDraftTxn_law:
  assumes "writeDraftTxn E spec_store u v e also_do st = (st', Inr d)" and "valid_draft u" and "encodeDraft E u = Inr v"
    and "also_do st = (t, Inr ())"
  shows "draft_at E st' (dm_ID u) = Some (d\<lparr>dm_Stamp := None\<rparr>)" and "only_draft (dm_ID u) t st'"
    and "content_at st' i k = content_at t i k" and "d = u\<lparr>dm_Revision := rs_revision t + 1\<rparr>"
proof -
  obtain r where up: "spec_update (be_written E) NamespaceDrafts (dm_ID u) v e t = (st', Inr r)"
    and d: "d = u\<lparr>dm_Revision := r_revision r\<rparr>"
    using assms(1,4) by (auto simp: writeDraftTxn_def draft_txn_Inr run_Inr callE_def split: prod.splits sum.splits)
  note law = draft_updated[OF assms(2,3) up]
  show "draft_at E st' (dm_ID u) = Some (d\<lparr>dm_Stamp := None\<rparr>)" "only_draft (dm_ID u) t st'"
    "content_at st' i k = content_at t i k" "d = u\<lparr>dm_Revision := rs_revision t + 1\<rparr>"
    using law d by simp_all
qed

end

subsection \<open>Drafts stay valid\<close>

definition publication_ok :: "PublicationState \<Rightarrow> bool" where
  "publication_ok p \<longleftrightarrow>
     PublishMode_Valid (ps_Mode p) \<and> TopologyAction_Valid (ps_TopologyAction p)
     \<and> text_ok MaxTargetLength (ps_TopologyTarget p) \<and> ps_TopologyTarget p \<noteq> []
     \<and> text_ok MaxTargetLength (ps_ExperimentTarget p) \<and> text_ok MaxTargetLength (ps_ScenarioTarget p)
     \<and> text_ok MaxOwnerLength (ps_PublishedBy p) \<and> ps_PublishedBy p \<noteq> []
     \<and> (ps_Mode p = PublishModeTopology \<longrightarrow> ps_ExperimentTarget p = [] \<and> ps_ScenarioTarget p = [])
     \<and> (ps_Mode p = PublishModeTopologyExperiment \<longrightarrow> ps_ExperimentTarget p \<noteq> [])
     \<and> ValidID (ps_SnapshotID p) \<and> IsDigest (ps_Digest p) \<and> (ps_DocumentID p = [] \<or> ValidID (ps_DocumentID p))"

lemma publication_None:
  "validatePublicationState k d = None \<longleftrightarrow>
     (\<forall>p. dm_Publication d = Some p \<longrightarrow>
        publication_ok p \<and> (\<forall>m. Snapshot (ps_SnapshotID p) d = Some m \<longrightarrow> sm_Digest m = ps_Digest p))"
  by (cases "dm_Publication d") (auto simp: validatePublicationState_def publication_ok_def validateText_None split: option.splits)

definition manifest_ok :: "SnapshotManifest \<Rightarrow> bool" where
  "manifest_ok m \<longleftrightarrow>
     ValidID (sm_ID m) \<and> validateManifestShape kindDraft [] m = None \<and> list_all valid_utf8 (manifest_strings m)"

text \<open>A history whose snapshots are those of a valid draft, or new ones that no publication names.\<close>

lemma valid_draft_history:
  assumes d: "valid_draft d" and d': "d' = d\<lparr>dm_History := h, dm_Cursor := c\<rparr>" and "h \<noteq> []" and dist: "distinct (map sm_ID h)"
    and fits: "history_fits h" and c: "0 \<le> c" "c < int (length h)"
    and h: "\<And>m. m \<in> set h \<Longrightarrow> m \<in> set (dm_History d)
      \<or> manifest_ok m \<and> (\<forall>p. dm_Publication d = Some p \<longrightarrow> ps_SnapshotID p \<noteq> sm_ID m)"
  shows "valid_draft d'"
proof -
  have old: "history_ok (dm_History d)" and pub: "validatePublicationState (dm_ID d) d = None"
    using d by (simp_all add: valid_draft_def validateDraftMetadata_None)
  have utf8: "list_all valid_utf8 (concat (map manifest_strings (dm_History d)))"
    using d by (simp add: valid_draft_def draft_utf8_def)
  have "history_ok h" using old dist fits h by (fastforce simp: history_ok_def manifest_ok_def history_fits_def)
  moreover have "list_all valid_utf8 (concat (map manifest_strings h))"
    using utf8 h by (fastforce simp: list_all_iff manifest_ok_def)
  moreover have "validatePublicationState (dm_ID d) d' = None"
    unfolding publication_None
  proof (intro allI impI conjI)
    fix p assume p: "dm_Publication d' = Some p"
    then show "publication_ok p" using pub d' by (simp add: publication_None)
    fix m assume m: "Snapshot (ps_SnapshotID p) d' = Some m"
    then have "m \<in> set (dm_History d)" "sm_ID m = ps_SnapshotID p" using h[of m] p d' Snapshot_Some[OF m] by auto
    then have "Snapshot (ps_SnapshotID p) d = Some m"
      using Snapshot_distinct[of d m] old by (simp add: history_ok_def)
    then show "sm_Digest m = ps_Digest p" using pub p d' by (simp add: publication_None)
  qed
  ultimately show ?thesis using d d' c assms(3)
    by (simp add: valid_draft_def validateDraftMetadata_None draft_utf8_def)
qed

lemma valid_stamp: "valid_draft d \<Longrightarrow> text_ok n actor \<Longrightarrow> valid_draft (stampDraft actor now d)"
  by (rule valid_draft_other[of d])
    (auto simp: stampDraft_def valid_draft_def validateDraftMetadata_None validateText_None text_ok_def)

lemma stampDraft_sel [simp]:
  "dm_ID (stampDraft a t d) = dm_ID d" "dm_History (stampDraft a t d) = dm_History d" "dm_Cursor (stampDraft a t d) = dm_Cursor d"
  "dm_Publication (stampDraft a t d) = dm_Publication d" "dm_Title (stampDraft a t d) = dm_Title d"
  "dm_LastModifiedBy (stampDraft a t d) = a"
  by (simp_all add: stampDraft_def)

lemma valid_draft_parts:
  "valid_draft d \<Longrightarrow> ValidID (dm_ID d)" "valid_draft d \<Longrightarrow> 0 \<le> dm_Cursor d" "valid_draft d \<Longrightarrow> dm_Cursor d < int (length (dm_History d))"
  "valid_draft d \<Longrightarrow> history_ok (dm_History d)" "valid_draft d \<Longrightarrow> text_ok MaxTitleLength (dm_Title d)"
  by (simp_all add: valid_draft_def validateDraftMetadata_None validateText_None)

lemma valid_cursor: "valid_draft d \<Longrightarrow> 0 \<le> c \<Longrightarrow> c < int (length (dm_History d)) \<Longrightarrow> valid_draft (d\<lparr>dm_Cursor := c\<rparr>)"
  using valid_draft_parts[of d]
  by - (rule valid_draft_other[of d], auto simp: valid_draft_def draft_utf8_def)

subsection \<open>MoveCursor\<close>

lemma checkRevision_None: "checkRevision i e a = None \<longleftrightarrow> e = AnyRevision \<or> e = a"
  by (simp add: checkRevision_def)

lemma resolveCursor_Inr:
  assumes "resolveCursor d req = Inr c"
  shows "0 \<le> c" "c < int (length (dm_History d))" "mr_SnapshotID req \<noteq> [] \<Longrightarrow> sm_ID (dm_History d ! nat c) = mr_SnapshotID req"
    "mr_SnapshotID req = [] \<Longrightarrow> c = mr_Index req"
  using assms by (auto simp: resolveCursor_def findR_Some split: if_splits sum.splits option.splits)

context builder_env
begin

lemma MoveCursor_law:
  assumes "MoveCursor E spec_store req st = (st', Inr d')"
  shows "\<exists>d c. draft_at E st (mr_DraftID req) = Some d \<and> resolveCursor d req = Inr c
    \<and> (mr_ExpectedRevision req = AnyRevision \<or> mr_ExpectedRevision req = dm_Revision d)
    \<and> d' = (stampDraft (mr_Actor req) (be_now E) (d\<lparr>dm_Cursor := c\<rparr>))\<lparr>dm_Revision := rs_revision st + 1\<rparr>
    \<and> draft_at E st' (mr_DraftID req) = Some d' \<and> only_draft (mr_DraftID req) st st'
    \<and> (\<forall>i k. content_at st' i k = content_at st i k)"
proof -
  obtain d c where d: "draft_at E st (mr_DraftID req) = Some d" and c: "resolveCursor d req = Inr c"
    and rv: "mr_ExpectedRevision req = AnyRevision \<or> mr_ExpectedRevision req = dm_Revision d"
    and actor: "text_ok MaxOwnerLength (mr_Actor req)"
    and wr: "writeDraft E spec_store (stampDraft (mr_Actor req) (be_now E) (d\<lparr>dm_Cursor := c\<rparr>)) (dm_Revision d) st = (st', Inr d')"
    using assms by (auto simp: MoveCursor_def run_Inr GetDraft_Inr checkRevision_None validateText_None)
  have "valid_draft (stampDraft (mr_Actor req) (be_now E) (d\<lparr>dm_Cursor := c\<rparr>))"
    using draft_valid[OF d] resolveCursor_Inr[OF c] actor by (intro valid_stamp[OF valid_cursor]) auto
  note law = writeDraft_law[OF wr this]
  have id: "dm_ID d = mr_DraftID req" "dm_Stamp d = None" using draft_id[OF d] draft_valid[OF d] by simp_all
  have "d'\<lparr>dm_Stamp := None\<rparr> = d'" using law(4) id by (simp add: stampDraft_def)
  then have "draft_at E st' (mr_DraftID req) = Some d'" using law(1) id by simp
  then show ?thesis using d c rv law(2-4) id by auto
qed

end

subsection \<open>DeleteSnapshot\<close>

lemma remove_cursor:
  assumes "i < length h" and "0 \<le> c" "c < int (length h)" and "int i \<noteq> c"
  shows "(let c' = (if int i < c then c - 1 else c)
          in 0 \<le> c' \<and> c' < int (length (remove_nth i h)) \<and> remove_nth i h ! nat c' = h ! nat c)"
proof (cases "int i < c")
  case True
  then have "nat (c - 1) = i + (nat (c - 1) - i)" "Suc i + (nat (c - 1) - i) = nat c" by linarith+
  then have "drop (Suc i) h ! (nat (c - 1) - i) = h ! nat c" using assms(1) by (metis nth_drop less_eq_Suc_le)
  then show ?thesis using True assms by (auto simp: remove_nth_def nth_append min_def)
next
  case False
  then have "nat c < i" using assms(2,4) by linarith
  then show ?thesis using False assms by (auto simp: remove_nth_def nth_append min_def)
qed

lemma distinct_remove_nth: "distinct (map f xs) \<Longrightarrow> distinct (map f (remove_nth i xs))"
  using set_take_disj_set_drop_if_distinct[of "map f xs" i "Suc i"]
  by (simp add: remove_nth_def take_map[symmetric] drop_map[symmetric] del: set_take_disj_set_drop_if_distinct)

lemma sum_list_remove_nth: "i < length xs \<Longrightarrow> sum_list (map f xs) = f (xs ! i) + sum_list (map f (remove_nth i xs) :: int list)"
proof -
  assume "i < length xs"
  then have "sum_list (map f xs) = sum_list (map f (take i xs @ xs ! i # drop (Suc i) xs))" by (metis id_take_nth_drop)
  then show ?thesis by (simp add: remove_nth_def)
qed

lemma history_remove: "history_ok h \<Longrightarrow> i < length h \<Longrightarrow> distinct (map sm_ID (remove_nth i h)) \<and> history_fits (remove_nth i h)"
proof -
  assume h: "history_ok h" "i < length h"
  have "0 \<le> sm_Size (h ! i)" using h by (auto simp: history_ok_def manifest_shape_iff)
  then show ?thesis using h distinct_remove_nth[of sm_ID h i] sum_list_remove_nth[OF h(2), of sm_Size]
    by (auto simp: history_ok_def history_fits_def remove_nth_def)
qed

context builder_env
begin

lemma DeleteSnapshot_law:
  assumes "DeleteSnapshot E spec_store req st = (st', Inr d')"
  shows "\<exists>d i. draft_at E st (dr_DraftID req) = Some d \<and> i < length (dm_History d) \<and> sm_ID (dm_History d ! i) = dr_SnapshotID req
    \<and> int i \<noteq> dm_Cursor d \<and> (dr_ExpectedRevision req = AnyRevision \<or> dr_ExpectedRevision req = dm_Revision d)
    \<and> d' = (stampDraft (dr_Actor req) (be_now E) (snd (removeSnapshot i d)))\<lparr>dm_Revision := rs_revision st + 1\<rparr>
    \<and> draft_at E st' (dr_DraftID req) = Some d' \<and> only_draft (dr_DraftID req) st st'
    \<and> (\<forall>k. content_at st' (dr_DraftID req) k = (if k = dr_SnapshotID req then None else content_at st (dr_DraftID req) k))"
proof -
  let ?i = "dr_DraftID req"
  obtain d where d: "draft_at E st ?i = Some d"
    and rv: "dr_ExpectedRevision req = AnyRevision \<or> dr_ExpectedRevision req = dm_Revision d"
    and actor: "text_ok MaxOwnerLength (dr_Actor req)"
    and run: "(case findR (\<lambda>m. Inr (sm_ID m = dr_SnapshotID req) :: bld_err + bool) (dm_History d) of
         Inr (Some i) \<Rightarrow>
           if int i = dm_Cursor d
           then failE (Conflict kindDraft ?i (dr_ExpectedRevision req) (dm_Revision d) ''snapshot is the current snapshot'')
           else
             (case removeSnapshot i d of
                (removed, r) \<Rightarrow>
                  let updated = stampDraft (dr_Actor req) (be_now E) r
                  in bindE (readE (\<lambda>_. encodeDraft E updated)) (\<lambda>value.
                       writeDraftTxn E spec_store updated value (dm_Revision d) (dropSnapshots spec_ops ?i [removed])))
       | _ \<Rightarrow> failE (NotFound kindSnapshot (dr_SnapshotID req))) st = (st', Inr d')"
    using assms unfolding DeleteSnapshot_def run_Inr GetDraft_Inr checkRevision_None validateText_None spec_store_sel by blast
  obtain i where fi: "findR (\<lambda>m. Inr (sm_ID m = dr_SnapshotID req) :: bld_err + bool) (dm_History d) = Inr (Some i)"
    and cur: "int i \<noteq> dm_Cursor d"
    using run by (auto split: sum.splits option.splits if_splits)
  have i: "i < length (dm_History d)" "sm_ID (dm_History d ! i) = dr_SnapshotID req" using fi by (simp_all add: findR_Some)
  have wr: "bindE (readE (\<lambda>_. encodeDraft E (stampDraft (dr_Actor req) (be_now E) (snd (removeSnapshot i d))))) (\<lambda>value.
        writeDraftTxn E spec_store (stampDraft (dr_Actor req) (be_now E) (snd (removeSnapshot i d))) value (dm_Revision d)
          (dropSnapshots spec_ops ?i [dm_History d ! i])) st = (st', Inr d')"
  proof -
    obtain r where rm: "removeSnapshot i d = (dm_History d ! i, r)" by (simp add: removeSnapshot_def)
    show ?thesis using run fi cur by (simp add: rm Let_def del: dropSnapshots.simps)
  qed
  note v = draft_valid[OF d]
  have hist: "history_ok (dm_History d)" and id: "dm_ID d = ?i" "ValidID ?i" "dm_Stamp d = None"
    using v valid_draft_parts[of d] draft_id[OF d] by simp_all
  let ?r = "snd (removeSnapshot i d)" and ?u = "stampDraft (dr_Actor req) (be_now E) (snd (removeSnapshot i d))"
  let ?c = "if int i < dm_Cursor d then dm_Cursor d - 1 else dm_Cursor d"
  have c: "0 \<le> ?c \<and> ?c < int (length (remove_nth i (dm_History d)))"
    using remove_cursor[OF i(1), of "dm_Cursor d"] v valid_draft_parts[of d] cur by (simp add: Let_def)
  have ru: "?r = d\<lparr>dm_History := remove_nth i (dm_History d), dm_Cursor := ?c\<rparr>" by (simp add: removeSnapshot_def)
  have "valid_draft ?r"
  proof (rule valid_draft_history[OF conjunct1[OF v] ru])
    show "distinct (map sm_ID (remove_nth i (dm_History d)))" "history_fits (remove_nth i (dm_History d))"
      using history_remove[OF hist i(1)] by blast+
    show "0 \<le> ?c" "?c < int (length (remove_nth i (dm_History d)))" using c by blast+
    show "remove_nth i (dm_History d) \<noteq> []" using c by auto
    show "m \<in> set (dm_History d) \<or> manifest_ok m \<and> (\<forall>p. dm_Publication d = Some p \<longrightarrow> ps_SnapshotID p \<noteq> sm_ID m)"
      if "m \<in> set (remove_nth i (dm_History d))" for m
      using that subsetD[OF set_remove_nth_subset[of i "dm_History d"]] by simp
  qed
  then have valid: "valid_draft ?u" using actor by (rule valid_stamp)
  have ids: "dm_ID ?u = ?i" using id by (simp add: removeSnapshot_def)
  have snap: "ValidID (sm_ID (dm_History d ! i))" using hist i(1) by (auto simp: history_ok_def)
  obtain t where t: "dropSnapshots spec_ops ?i [dm_History d ! i] st = (t, Inr ())" "rs_revision t = rs_revision st" "only_draft ?i st t"
    "\<forall>k. content_at t ?i k = (if k \<in> sm_ID ` set [dm_History d ! i] then None else content_at st ?i k)"
    using dropSnapshots_law[OF id(2), of "[dm_History d ! i]" st] snap by auto
  obtain val where "encodeDraft E ?u = Inr val"
    "writeDraftTxn E spec_store ?u val (dm_Revision d) (dropSnapshots spec_ops ?i [dm_History d ! i]) st = (st', Inr d')"
    using wr by (auto simp: run_Inr)
  note law = writeDraftTxn_law[OF this(2) valid this(1) t(1)]
  have "d' = ?u\<lparr>dm_Revision := rs_revision st + 1\<rparr>" using law(4) t(2) by simp
  moreover have "d'\<lparr>dm_Stamp := None\<rparr> = d'" using law(4) id by (simp add: stampDraft_def removeSnapshot_def)
  moreover have "only_draft ?i st st'" using only_draft_trans[OF t(3)] law(2) ids by simp
  moreover have "content_at st' ?i k = (if k = dr_SnapshotID req then None else content_at st ?i k)" for k
    using law(3)[of ?i k] t(4) i(2) by simp
  ultimately show ?thesis using d i cur rv law(1) ids by auto
qed

end

subsection \<open>AppendSnapshot\<close>

text \<open>The new identifier names no snapshot of the draft, now or when it was published.\<close>

definition fresh_for :: "DraftMetadata \<Rightarrow> string \<Rightarrow> bool" where
  "fresh_for d i \<longleftrightarrow> i \<notin> sm_ID ` set (dm_History d) \<and> (case dm_Publication d of None \<Rightarrow> True | Some p \<Rightarrow> ps_SnapshotID p \<noteq> i)"

definition append_fresh :: "'x bld_env \<Rightarrow> rstore \<Rightarrow> AppendSnapshotRequest \<Rightarrow> bool" where
  "append_fresh E st req =
     (case (draft_at E st (ar_DraftID req), be_ids E 0) of (Some d, Inr x) \<Rightarrow> fresh_for d x | _ \<Rightarrow> True)"

lemma new_id_Inr: "new_id E i field = Inr x \<longleftrightarrow> be_ids E i = Inr x \<and> ValidID x"
  by (auto simp: new_id_def validateID_def split: sum.splits if_splits)

lemma manifest_Inr:
  "manifest E i load actor summary = Inr m \<longleftrightarrow>
     (\<exists>x. be_ids E i = Inr x \<and> ValidID x \<and>
        m = \<lparr>sm_ID = x, sm_Digest = pl_digest load, sm_Size = pl_size load, sm_CompressedSize = int (length (pl_compressed load)),
             sm_CreatedAt = be_now E, sm_CreatedBy = actor, sm_Summary = summary, sm_OpID = []\<rparr>)"
  by (cases "be_ids E i") (auto simp: manifest_def new_id_def validateID_def)

lemma appended_law:
  assumes "appended actor now title stamp m d = (u, dropped)" and "valid_draft d" and m: "manifest_ok m"
  defines "n \<equiv> nat (dm_Cursor d + 1)"
  shows "\<exists>p \<le> n. dm_History u = drop p (take n (dm_History d)) @ [m]
    \<and> dropped = drop n (dm_History d) @ take p (take n (dm_History d)) \<and> history_fits (dm_History u)
    \<and> (0 < p \<longrightarrow> \<not> history_fits (dm_History d ! (p - 1) # dm_History u))
    \<and> u = (stampDraft actor now (d\<lparr>dm_History := dm_History u, dm_Cursor := int (length (dm_History u)) - 1\<rparr>))
             \<lparr>dm_Title := title, dm_Stamp := Some stamp\<rparr>"
proof -
  let ?h = "take n (dm_History d) @ [m]"
  let ?d1 = "(stampDraft actor now (d\<lparr>dm_History := ?h, dm_Cursor := int (length ?h) - 1\<rparr>))\<lparr>dm_Title := title, dm_Stamp := Some stamp\<rparr>"
  have n: "n \<le> length (dm_History d)" using valid_draft_parts[OF assms(2)] by (simp add: n_def)
  obtain pruned where pr: "pruneHistory ?d1 = (u, pruned)" "dropped = drop n (dm_History d) @ pruned"
    using assms(1) by (auto simp: appended_def n_def Let_def split: prod.splits)
  have c1: "dm_Cursor ?d1 = int n" and h1: "dm_History ?d1 = ?h" using n by (simp_all add: min_def)
  have "0 \<le> dm_Cursor ?d1" "dm_Cursor ?d1 < int (length (dm_History ?d1))" unfolding c1 h1 using n by simp_all
  from prune_loop_law[OF refl this pr(1)[unfolded pruneHistory_def], unfolded c1 h1] obtain ds where
    ds: "pruned = ds" "?h = ds @ dm_History u" "dm_Cursor u = int n - int (length ds)" "0 \<le> dm_Cursor u"
      "u = ?d1\<lparr>dm_History := dm_History u, dm_Cursor := dm_Cursor u\<rparr>" "dm_Cursor u = 0 \<or> history_fits (dm_History u)"
      "ds \<noteq> [] \<longrightarrow> \<not> history_fits (last ds # dm_History u)"
    unfolding append_Nil by blast
  let ?p = "length ds"
  have p: "?p \<le> n" using ds(3,4) by linarith
  have "ds = take ?p ?h" "dm_History u = drop ?p ?h" using ds(2) by (metis append_eq_conv_conj)+
  then have parts: "ds = take ?p (take n (dm_History d))" "dm_History u = drop ?p (take n (dm_History d)) @ [m]"
    using p n by (auto simp: min_def)
  have len: "int (length (dm_History u)) - 1 = dm_Cursor u" using parts(2) ds(3) p n by (simp add: min_def of_nat_diff)
  have fits: "history_fits (dm_History u)"
  proof (cases "dm_Cursor u = 0")
    case True
    then have "dm_History u = [m]" using parts(2) len by simp
    then show ?thesis using m by (simp add: history_fits_def manifest_ok_def manifest_shape_iff MaxSnapshots_def MaxDocumentBytes_def MaxDraftHistoryBytes_def)
  qed (use ds(6) in simp)
  have "u = (stampDraft actor now (d\<lparr>dm_History := dm_History u, dm_Cursor := int (length (dm_History u)) - 1\<rparr>))
             \<lparr>dm_Title := title, dm_Stamp := Some stamp\<rparr>"
    unfolding len by (rule trans[OF ds(5)]) (cases d, simp add: stampDraft_def)
  moreover have "\<not> history_fits (dm_History d ! (?p - 1) # dm_History u)" if pos: "0 < ?p"
  proof -
    have "last ds = dm_History d ! (?p - 1)"
    proof -
      have "last ds = ds ! (?p - 1)" using pos by (intro last_conv_nth) auto
      also have "\<dots> = take ?p (take n (dm_History d)) ! (?p - 1)" using parts(1) by simp
      also have "\<dots> = dm_History d ! (?p - 1)" using pos p by simp
      finally show ?thesis .
    qed
    then show ?thesis using ds(7) pos by auto
  qed
  ultimately show ?thesis using p parts fits pr(2) ds(1) by (intro exI[of _ ?p]) simp
qed

lemma Current_revision [simp]: "Current (d\<lparr>dm_Revision := r\<rparr>) = Current d" "Current (d\<lparr>dm_Stamp := x\<rparr>) = Current d"
  by (simp_all add: Current_def)

lemma manifest_in_draft: "valid_draft d \<Longrightarrow> m \<in> set (dm_History d) \<Longrightarrow> manifest_ok m"
  by (auto simp: valid_draft_def validateDraftMetadata_None history_ok_def manifest_ok_def draft_utf8_def list_all_iff)

lemma Current_in: "Current d = Some c \<Longrightarrow> c \<in> set (dm_History d)"
  by (auto simp: Current_def split: if_splits)

text \<open>Two snapshots always fit, so the snapshot before the new one is still there.\<close>

lemma appended_previous:
  assumes "appended actor now title stamp m d = (u, dropped)" and d: "valid_draft d" and m: "manifest_ok m" and c: "Current d = Some c"
  shows "c \<in> set (dm_History u)"
proof -
  let ?n = "nat (dm_Cursor d + 1)"
  obtain p where p: "p \<le> ?n" "dm_History u = drop p (take ?n (dm_History d)) @ [m]"
      "0 < p \<longrightarrow> \<not> history_fits (dm_History d ! (p - 1) # dm_History u)"
    using appended_law[OF assms(1-3)] by blast
  have n: "0 < ?n" "?n \<le> length (dm_History d)" and c_at: "c = dm_History d ! (?n - 1)"
    using c valid_draft_parts[OF d] by (auto simp: Current_def nat_add_distrib split: if_splits)
  have "manifest_ok c" using manifest_in_draft[OF d Current_in[OF c]] .
  then have two: "history_fits [c, m]" using m
    by (simp add: history_fits_def manifest_ok_def manifest_shape_iff MaxSnapshots_def MaxDocumentBytes_def MaxDraftHistoryBytes_def)
  have "p < ?n"
  proof (rule ccontr)
    assume "\<not> p < ?n"
    then have "p = ?n" "dm_History u = [m]" using p(1,2) by simp_all
    then show False using p(3) n(1) c_at two by simp
  qed
  then have "c \<in> set (drop p (take ?n (dm_History d)))"
    using n c_at by (auto simp: in_set_conv_nth intro!: exI[of _ "?n - 1 - p"])
  then show ?thesis using p(2) by simp
qed

lemma appended_revision:
  assumes "appended actor now title stamp m d = (u, dropped)" and "valid_draft d" and "manifest_ok m"
  shows "dm_Revision u = dm_Revision d"
proof -
  obtain h c where "u = (stampDraft actor now (d\<lparr>dm_History := h, dm_Cursor := c\<rparr>))\<lparr>dm_Title := title, dm_Stamp := Some stamp\<rparr>"
    using appended_law[OF assms] by blast
  then show ?thesis by (simp add: stampDraft_def)
qed

lemma appended_valid:
  assumes "appended actor now title stamp m d = (u, dropped)" and "valid_draft d" and m: "manifest_ok m"
    and fresh: "fresh_for d (sm_ID m)" and "text_ok MaxTitleLength title" "text_ok k actor"
  shows "valid_draft u" and "Current u = Some m" and "set (dm_History u) \<subseteq> insert m (set (dm_History d))"
    and "sm_ID ` set dropped \<inter> sm_ID ` set (dm_History u) = {}" and "set dropped \<subseteq> set (dm_History d)" and "dm_ID u = dm_ID d"
proof -
  let ?n = "nat (dm_Cursor d + 1)"
  obtain p where p: "p \<le> ?n" "dm_History u = drop p (take ?n (dm_History d)) @ [m]"
      "dropped = drop ?n (dm_History d) @ take p (take ?n (dm_History d))" "history_fits (dm_History u)"
      "u = (stampDraft actor now (d\<lparr>dm_History := dm_History u, dm_Cursor := int (length (dm_History u)) - 1\<rparr>))
             \<lparr>dm_Title := title, dm_Stamp := Some stamp\<rparr>"
    using appended_law[OF assms(1-3)] by blast
  let ?r = "d\<lparr>dm_History := dm_History u, dm_Cursor := int (length (dm_History u)) - 1\<rparr>"
  have old: "set (drop p (take ?n (dm_History d))) \<subseteq> set (dm_History d)" by (meson in_set_dropD in_set_takeD subsetI)
  show sub: "set (dm_History u) \<subseteq> insert m (set (dm_History d))" using p(2) old by auto
  have dist: "distinct (map sm_ID (dm_History d))" using valid_draft_parts(4)[OF assms(2)] by (simp add: history_ok_def)
  have "distinct (map sm_ID (drop p (take ?n (dm_History d))))" using dist by (simp add: drop_map[symmetric] take_map[symmetric])
  then have dist': "distinct (map sm_ID (dm_History u))" using p(2) old fresh by (auto simp: fresh_for_def)
  have "valid_draft ?r"
  proof (rule valid_draft_history[OF assms(2) refl])
    show "x \<in> set (dm_History d) \<or> manifest_ok x \<and> (\<forall>q. dm_Publication d = Some q \<longrightarrow> ps_SnapshotID q \<noteq> sm_ID x)"
      if "x \<in> set (dm_History u)" for x
      using that sub m fresh by (auto simp: fresh_for_def)
    show "0 \<le> int (length (dm_History u)) - 1" "int (length (dm_History u)) - 1 < int (length (dm_History u))" "dm_History u \<noteq> []"
      using p(2) by simp_all
  qed (use dist' p(4) in simp_all)
  then have "valid_draft (stampDraft actor now ?r)" using assms(6) by (rule valid_stamp)
  then have "valid_draft ((stampDraft actor now ?r)\<lparr>dm_Title := title, dm_Stamp := Some stamp\<rparr>)"
    by (rule valid_draft_other) (use assms(5,6) p(2) in \<open>auto simp: text_ok_def\<close>)
  then show "valid_draft u" using p(5) by simp
  have "dm_Cursor u = int (length (dm_History u)) - 1" by (subst p(5)) simp
  then show "Current u = Some m" using p(2) by (simp add: Current_def nth_append)
  show "dm_ID u = dm_ID d" by (subst p(5)) simp
  show sd: "set dropped \<subseteq> set (dm_History d)" using p(3) by (auto dest: in_set_dropD in_set_takeD)
  let ?ids = "map sm_ID (dm_History d)"
  have "set (map sm_ID dropped) = set (drop ?n ?ids) \<union> set (take p ?ids)"
    using p(1,3) by (simp add: drop_map take_map min_def)
  moreover have "set (map sm_ID (drop p (take ?n (dm_History d)))) = set (drop p (take ?n ?ids))"
    by (simp add: drop_map take_map)
  moreover have "set (take p ?ids) \<inter> set (drop p (take ?n ?ids)) = {}" "set (drop ?n ?ids) \<inter> set (drop p (take ?n ?ids)) = {}"
  proof -
    have "set (take p ?ids) \<inter> set (drop p ?ids) = {}" "set (take ?n ?ids) \<inter> set (drop ?n ?ids) = {}"
      using set_take_disj_set_drop_if_distinct[OF dist] by auto
    moreover have "set (drop p (take ?n ?ids)) \<subseteq> set (drop p ?ids)" "set (drop p (take ?n ?ids)) \<subseteq> set (take ?n ?ids)"
      by (simp add: drop_take set_take_subset, rule set_drop_subset)
    ultimately show "set (take p ?ids) \<inter> set (drop p (take ?n ?ids)) = {}" "set (drop ?n ?ids) \<inter> set (drop p (take ?n ?ids)) = {}" by blast+
  qed
  moreover have "sm_ID m \<notin> set (map sm_ID dropped)" using sd fresh by (auto simp: fresh_for_def)
  ultimately show "sm_ID ` set dropped \<inter> sm_ID ` set (dm_History u) = {}" using p(2) by (simp add: image_Un) blast
qed

lemma map_sum_Inr: "map_sum id (Pair x) r = Inr (y, z) \<Longrightarrow> x = y \<and> r = Inr z"
  by (cases r) auto

lemma documentTitle_ok: "documentTitle doc t = Inr title \<Longrightarrow> text_ok MaxTitleLength title"
  by (auto simp: documentTitle_def Let_def validateText_None text_ok_def split: option.splits if_splits)

lemma valid_optional: "validateOptionalID f i = None \<longleftrightarrow> i = [] \<or> ValidID i"
  by (simp add: validateOptionalID_def)

lemma append_request_ok:
  "validateAppendRequest req = None \<longleftrightarrow>
     text_ok MaxOwnerLength (ar_Actor req) \<and> ar_Actor req \<noteq> [] \<and> (ar_OpID req = [] \<or> ValidID (ar_OpID req))
     \<and> text_ok MaxSummaryLength (ar_Summary req)"
  by (auto simp: validateAppendRequest_def first_None validateText_None valid_optional)

text \<open>The provenance of an appended document: its draft says who began it, the request who saves it.\<close>

definition append_stamp :: "'x bld_env \<Rightarrow> string \<Rightarrow> DraftMetadata \<Rightarrow> Provenance" where
  "append_stamp E actor d =
     \<lparr>pv_CreatedBy = dm_DocumentCreatedBy d, pv_CreatedAt = dm_DocumentCreatedAt d, pv_UpdatedBy = actor,
      pv_UpdatedAt = be_format E (be_now E)\<rparr>"

lemma AppendSnapshot_steps:
  assumes "AppendSnapshot E spec_store req st = (st', Inr d')"
  shows "\<exists>d doc title canonical load m u dropped val.
    draft_at E st (ar_DraftID req) = Some d \<and> (ar_ExpectedRevision req = AnyRevision \<or> ar_ExpectedRevision req = dm_Revision d)
    \<and> validateAppendRequest req = None \<and> be_parse E (ar_Document req) = Inr doc \<and> documentTitle doc (dm_Title d) = Inr title
    \<and> be_encode E (SetProvenance (append_stamp E (ar_Actor req) d) doc) = Inr canonical
    \<and> buildPayload E canonical = Inr load
    \<and> (\<exists>m0. manifest E 0 load (ar_Actor req) (ar_Summary req) = Inr m0 \<and> m = m0\<lparr>sm_OpID := ar_OpID req\<rparr>)
    \<and> appended (ar_Actor req) (be_now E) title (append_stamp E (ar_Actor req) d) m d = (u, dropped)
    \<and> encodeDraft E u = Inr val
    \<and> writeDraftTxn E spec_store u val (dm_Revision d)
         (bindE (putContent spec_ops (be_written E) (snapshotKey (ar_DraftID req) (sm_ID m)) load) (\<lambda>_.
            dropSnapshots spec_ops (ar_DraftID req) dropped)) st = (st', Inr d')"
proof -
  from assms obtain doc d title p where
      pre: "validateAppendRequest req = None" "parseDocument E (ar_Document req) = Inr doc" "draft_at E st (ar_DraftID req) = Some d"
        "ar_ExpectedRevision req = AnyRevision \<or> ar_ExpectedRevision req = dm_Revision d" "documentTitle doc (dm_Title d) = Inr title"
      and p: "stampedSnapshot E doc (append_stamp E (ar_Actor req) d) (ar_Summary req) = Inr p"
      and run: "(case p of (load, m0) \<Rightarrow>
          case appended (ar_Actor req) (be_now E) title (append_stamp E (ar_Actor req) d) (m0\<lparr>sm_OpID := ar_OpID req\<rparr>) d of
            (updated, dropped) \<Rightarrow>
             if HistoryBytes updated > MaxDraftHistoryBytes
             then failE (TooLarge ''draft history'' (HistoryBytes updated) MaxDraftHistoryBytes)
             else
               bindE (readE (\<lambda>_. encodeDraft E updated)) (\<lambda>value.
                 writeDraftTxn E spec_store updated value (dm_Revision d)
                   (bindE (putContent spec_ops (be_written E) (snapshotKey (ar_DraftID req) (sm_ID (m0\<lparr>sm_OpID := ar_OpID req\<rparr>))) load) (\<lambda>_.
                      dropSnapshots spec_ops (ar_DraftID req) dropped)))) st = (st', Inr d')"
    unfolding AppendSnapshot_def run_Inr GetDraft_Inr checkRevision_None Let_def append_stamp_def[symmetric] spec_store_sel by blast
  obtain load m0 where p2: "p = (load, m0)" by fastforce
  have snap: "stampedSnapshot E doc (append_stamp E (ar_Actor req) d) (ar_Summary req) = Inr (load, m0)" using p p2 by simp
  obtain u dropped where ap: "appended (ar_Actor req) (be_now E) title (append_stamp E (ar_Actor req) d) (m0\<lparr>sm_OpID := ar_OpID req\<rparr>) d = (u, dropped)"
    by fastforce
  obtain canonical where "be_encode E (SetProvenance (append_stamp E (ar_Actor req) d) doc) = Inr canonical" "buildPayload E canonical = Inr load"
      "manifest E 0 load (ar_Actor req) (ar_Summary req) = Inr m0"
  proof -
    obtain canonical where c: "encodeDocument E (SetProvenance (append_stamp E (ar_Actor req) d) doc) = Inr canonical"
        "buildPayload E canonical = Inr load" "map_sum id (Pair load) (manifest E 0 load (ar_Actor req) (ar_Summary req)) = Inr (load, m0)"
      using snap by (fastforce simp: stampedSnapshot_def append_stamp_def split: sum.splits dest: map_sum_Inr)
    then have "be_encode E (SetProvenance (append_stamp E (ar_Actor req) d) doc) = Inr canonical"
      "manifest E 0 load (ar_Actor req) (ar_Summary req) = Inr m0"
      using map_sum_Inr[OF c(3)] by (auto simp: encodeDocument_def split: sum.splits if_splits)
    then show thesis using that c by blast
  qed
  moreover have "be_parse E (ar_Document req) = Inr doc" using pre(2) by (auto simp: parseDocument_def split: if_splits sum.splits)
  moreover obtain val where "encodeDraft E u = Inr val"
    "writeDraftTxn E spec_store u val (dm_Revision d)
         (bindE (putContent spec_ops (be_written E) (snapshotKey (ar_DraftID req) (sm_ID m0)) load) (\<lambda>_.
            dropSnapshots spec_ops (ar_DraftID req) dropped)) st = (st', Inr d')"
    using run ap p2 by (auto simp: run_Inr split: if_splits)
  ultimately show ?thesis using pre ap by (intro exI[of _ d] exI[of _ doc] exI[of _ title] exI[of _ canonical] exI[of _ load]
      exI[of _ "m0\<lparr>sm_OpID := ar_OpID req\<rparr>"] exI[of _ u] exI[of _ dropped] exI[of _ val]) auto
qed

context builder_env
begin

lemma append_manifest_ok:
  assumes "buildPayload E data = Inr load" and "manifest E i load actor summary = Inr m0"
    and "text_ok n actor" "text_ok k summary" "opid = [] \<or> ValidID opid"
  shows "manifest_ok (m0\<lparr>sm_OpID := opid\<rparr>)" and "be_ids E i = Inr (sm_ID m0)" and "ValidID (sm_ID m0)"
    and "verify_payload E kind j (m0\<lparr>sm_OpID := opid\<rparr>) (pl_compressed load) = Inr data"
proof -
  have m0: "be_ids E i = Inr (sm_ID m0)" "ValidID (sm_ID m0)" "sm_Digest m0 = pl_digest load" "sm_Size m0 = pl_size load"
      "sm_CompressedSize m0 = int (length (pl_compressed load))" "sm_CreatedBy m0 = actor" "sm_Summary m0 = summary"
    using assms(2) by (auto simp: manifest_Inr)
  have "IsDigest (sm_Digest m0)" using payload_ok(4)[OF assms(1), of m0] m0 digest_ok by simp
  then show "manifest_ok (m0\<lparr>sm_OpID := opid\<rparr>)"
    using payload_ok(2)[OF assms(1), of "m0\<lparr>sm_OpID := opid\<rparr>" kindDraft "[]"] m0 assms(3-5) ValidID_utf8 IsDigest_ascii
    by (auto simp: manifest_ok_def manifest_strings_def text_ok_def)
  show "be_ids E i = Inr (sm_ID m0)" "ValidID (sm_ID m0)" using m0 by simp_all
  show "verify_payload E kind j (m0\<lparr>sm_OpID := opid\<rparr>) (pl_compressed load) = Inr data"
    using payload_ok(1)[OF assms(1), of "m0\<lparr>sm_OpID := opid\<rparr>"] m0 by simp
qed

lemma stamp_ok: "valid_draft d \<Longrightarrow> text_ok MaxOwnerLength actor \<Longrightarrow> prov_ok (append_stamp E actor d)"
  using now_law by (simp add: prov_ok_def append_stamp_def valid_draft_def validateDraftMetadata_None validateText_None)

lemma AppendSnapshot_law:
  assumes run: "AppendSnapshot E spec_store req st = (st', Inr d')"
    and fresh: "append_fresh E st req"
  shows "\<exists>d doc m data dropped. draft_at E st (ar_DraftID req) = Some d
    \<and> (ar_ExpectedRevision req = AnyRevision \<or> ar_ExpectedRevision req = dm_Revision d)
    \<and> be_parse E (ar_Document req) = Inr doc \<and> be_encode E (SetProvenance (append_stamp E (ar_Actor req) d) doc) = Inr data
    \<and> draft_at E st' (ar_DraftID req) = Some (d'\<lparr>dm_Stamp := None\<rparr>) \<and> Current d' = Some m \<and> sm_OpID m = ar_OpID req
    \<and> only_draft (ar_DraftID req) st st' \<and> dm_Revision d' = rs_revision st + 2
    \<and> (\<exists>title. appended (ar_Actor req) (be_now E) title (append_stamp E (ar_Actor req) d) m d
           = (d'\<lparr>dm_Revision := dm_Revision d\<rparr>, dropped))
    \<and> (\<exists>doc'. document_at E st' (ar_DraftID req) m = Some (data, doc') \<and> be_parse E data = Inr doc')
    \<and> (\<forall>k. k \<noteq> sm_ID m \<longrightarrow> content_at st' (ar_DraftID req) k
          = (if k \<in> sm_ID ` set dropped then None else content_at st (ar_DraftID req) k))
    \<and> set (dm_History d') \<subseteq> insert m (set (dm_History d)) \<and> sm_ID ` set dropped \<inter> sm_ID ` set (dm_History d') = {}
    \<and> sm_ID m \<notin> sm_ID ` set (dm_History d) \<and> be_ids E 0 = Inr (sm_ID m)"
proof -
  let ?i = "ar_DraftID req"
  obtain d doc title canonical load m u dropped val m0 where
    d: "draft_at E st ?i = Some d" and rv: "ar_ExpectedRevision req = AnyRevision \<or> ar_ExpectedRevision req = dm_Revision d"
    and rq: "validateAppendRequest req = None" and doc: "be_parse E (ar_Document req) = Inr doc" and title: "documentTitle doc (dm_Title d) = Inr title"
    and canonical: "be_encode E (SetProvenance (append_stamp E (ar_Actor req) d) doc) = Inr canonical"
    and load: "buildPayload E canonical = Inr load" and m0: "manifest E 0 load (ar_Actor req) (ar_Summary req) = Inr m0"
    and m: "m = m0\<lparr>sm_OpID := ar_OpID req\<rparr>"
    and ap: "appended (ar_Actor req) (be_now E) title (append_stamp E (ar_Actor req) d) m d = (u, dropped)"
    and val: "encodeDraft E u = Inr val"
    and wr: "writeDraftTxn E spec_store u val (dm_Revision d)
         (bindE (putContent spec_ops (be_written E) (snapshotKey ?i (sm_ID m)) load) (\<lambda>_. dropSnapshots spec_ops ?i dropped)) st = (st', Inr d')"
    using AppendSnapshot_steps[OF run] by blast
  note req = rq[unfolded append_request_ok]
  note mk = append_manifest_ok[OF load m0, of MaxOwnerLength MaxSummaryLength "ar_OpID req", folded m]
  have mok: "manifest_ok m" and mid: "be_ids E 0 = Inr (sm_ID m)" "ValidID (sm_ID m)" using mk req m by auto
  have vd: "valid_draft d" "dm_Stamp d = None" and id: "dm_ID d = ?i" "ValidID ?i" using draft_valid[OF d] draft_id[OF d] by simp_all
  have fr: "fresh_for d (sm_ID m)" using fresh d mid(1) by (simp add: append_fresh_def)
  note av = appended_valid[OF ap vd(1) mok fr documentTitle_ok[OF title], of MaxOwnerLength]
  have u: "valid_draft u" "Current u = Some m" "set (dm_History u) \<subseteq> insert m (set (dm_History d))"
      "sm_ID ` set dropped \<inter> sm_ID ` set (dm_History u) = {}" "set dropped \<subseteq> set (dm_History d)" "dm_ID u = ?i"
    using av req id by auto
  have ids: "\<forall>x \<in> set dropped. ValidID (sm_ID x)" using u(5) valid_draft_parts(4)[OF vd(1)] by (auto simp: history_ok_def)
  have km: "sm_ID m \<notin> sm_ID ` set (dm_History d)" using fr by (simp add: fresh_for_def)
  obtain s where put: "putContent spec_ops (be_written E) (snapshotKey ?i (sm_ID m)) load st
        = (spec_write NamespaceContent (snapshotKey ?i (sm_ID m)) s st, Inr ())"
      and s: "s_value s = pl_compressed load" "s_revision s = rs_revision st + 1"
    using putContent_law[OF snapshot_key_ok[OF id(2) mid(2)]] by blast
  let ?t = "spec_write NamespaceContent (snapshotKey ?i (sm_ID m)) s st"
  obtain t where t: "dropSnapshots spec_ops ?i dropped ?t = (t, Inr ())" "rs_revision t = rs_revision ?t" "only_draft ?i ?t t"
      "\<forall>k. content_at t ?i k = (if k \<in> sm_ID ` set dropped then None else content_at ?t ?i k)"
    using dropSnapshots_law[OF id(2) ids, of ?t] by blast
  have body: "bindE (putContent spec_ops (be_written E) (snapshotKey ?i (sm_ID m)) load) (\<lambda>_. dropSnapshots spec_ops ?i dropped) st = (t, Inr ())"
    using put t(1) by simp
  note law = writeDraftTxn_law[OF wr u(1) val body]
  have only: "only_draft ?i st st'"
  proof (rule only_draft_trans[OF only_draft_trans[OF _ t(3)]])
    show "only_draft ?i st ?t" by (auto simp: only_draft_def spec_write_def)
    show "only_draft ?i t st'" using law(2) u(6) by simp
  qed
  have content: "content_at st' ?i k = (if k \<in> sm_ID ` set dropped then None else if k = sm_ID m then Some (pl_compressed load) else content_at st ?i k)" for k
    using law(3)[of ?i k] t(4) id(2) s by (simp add: content_at_def spec_write_def)
  have md: "sm_ID m \<notin> sm_ID ` set dropped" using u(5) km by auto
  obtain doc' where doc': "be_parse E canonical = Inr doc'"
    using encode_parse[OF stamp_valid canonical] parse_valid[OF doc] stamp_ok[OF vd(1)] req by blast
  have "verify_payload E kindSnapshot (sm_ID m) m (pl_compressed load) = Inr canonical" using mk(4) req by blast
  then have "document_at E st' ?i m = Some (canonical, doc')"
    using content md doc' by (simp add: document_at_def read_document_def)
  then have document: "\<exists>doc'. document_at E st' ?i m = Some (canonical, doc') \<and> be_parse E canonical = Inr doc'" using doc' by blast
  have "dm_Revision u = dm_Revision d" by (rule appended_revision[OF ap vd(1) mok])
  then have "u = d'\<lparr>dm_Revision := dm_Revision d\<rparr>" using law(4) by (cases u) simp
  then have ap': "\<exists>title. appended (ar_Actor req) (be_now E) title (append_stamp E (ar_Actor req) d) m d
      = (d'\<lparr>dm_Revision := dm_Revision d\<rparr>, dropped)" using ap by blast
  have u': "Current d' = Some m" "dm_History d' = dm_History u" "dm_Revision d' = rs_revision st + 2"
    using law(4) u(2) t(2) s Current_revision by (simp_all add: spec_write_def)
  have at: "draft_at E st' ?i = Some (d'\<lparr>dm_Stamp := None\<rparr>)" using law(1) u(6) by simp
  have op: "sm_OpID m = ar_OpID req" by (simp add: m)
  have rest: "\<forall>k. k \<noteq> sm_ID m \<longrightarrow> content_at st' ?i k = (if k \<in> sm_ID ` set dropped then None else content_at st ?i k)"
    using content by simp
  show ?thesis
    by (rule exI[of _ d], rule exI[of _ doc], rule exI[of _ m], rule exI[of _ canonical], rule exI[of _ dropped], intro conjI)
      (fact d rv doc canonical at u'(1) op only u'(3) ap' document rest u(3)[folded u'(2)] u(4)[folded u'(2)] km mid(1))+
qed

end

subsection \<open>MarkPublished\<close>

definition publication_of :: "'x bld_env \<Rightarrow> MarkPublishedRequest \<Rightarrow> SnapshotManifest \<Rightarrow> int64 \<Rightarrow> PublicationState" where
  "publication_of E req c r =
     \<lparr>ps_Mode = pr_Mode req, ps_TopologyTarget = pr_TopologyTarget req, ps_TopologyAction = pr_TopologyAction req,
      ps_ExperimentTarget = pr_ExperimentTarget req, ps_ScenarioTarget = pr_ScenarioTarget req,
      ps_SnapshotID = sm_ID c, ps_Digest = sm_Digest c, ps_Revision = r,
      ps_DocumentID = pr_DocumentID req, ps_PublishedAt = be_now E, ps_PublishedBy = pr_Actor req\<rparr>"

lemma publish_targets_None:
  "validatePublishTargets req = None \<longleftrightarrow>
     PublishMode_Valid (pr_Mode req) \<and> TopologyAction_Valid (pr_TopologyAction req)
     \<and> (pr_Mode req = PublishModeTopologyExperiment \<longrightarrow> pr_ExperimentTarget req \<noteq> [])
     \<and> (pr_Mode req = PublishModeTopology \<longrightarrow> pr_ExperimentTarget req = [] \<and> pr_ScenarioTarget req = [])"
  by (auto simp: validatePublishTargets_def)

lemma publication_of_ok:
  assumes "validatePublishRequest req = None" and "manifest_ok c"
  shows "publication_ok (publication_of E req c r)" and "list_all valid_utf8 (publication_strings (publication_of E req c r))"
    and "text_ok MaxOwnerLength (pr_Actor req)"
proof -
  have req: "text_ok MaxOwnerLength (pr_Actor req)" "pr_Actor req \<noteq> []" "ValidID (pr_SnapshotID req)"
      "pr_DocumentID req = [] \<or> ValidID (pr_DocumentID req)" "text_ok MaxTargetLength (pr_TopologyTarget req)" "pr_TopologyTarget req \<noteq> []"
      "text_ok MaxTargetLength (pr_ExperimentTarget req)" "text_ok MaxTargetLength (pr_ScenarioTarget req)" "validatePublishTargets req = None"
    using assms(1) by (simp_all add: validatePublishRequest_def first_None validateText_None valid_optional)
  note t = req(9)[unfolded publish_targets_None]
  show "publication_ok (publication_of E req c r)"
    using req t assms(2) by (simp add: publication_ok_def publication_of_def manifest_ok_def manifest_shape_iff)
  have "valid_utf8 (pr_Mode req)" "valid_utf8 (pr_TopologyAction req)"
    using t ascii_utf8 by (auto simp: PublishMode_Valid_def TopologyAction_Valid_def PublishModeTopology_def PublishModeTopologyExperiment_def)
  then show "list_all valid_utf8 (publication_strings (publication_of E req c r))"
    using req assms(2) ValidID_utf8
    by (auto simp: publication_strings_def publication_of_def text_ok_def manifest_ok_def manifest_strings_def)
  show "text_ok MaxOwnerLength (pr_Actor req)" using req by simp
qed

lemma valid_publication:
  assumes d: "valid_draft d" and c: "Current d = Some c" and req: "validatePublishRequest req = None"
  shows "valid_draft (d\<lparr>dm_Publication := Some (publication_of E req c r)\<rparr>)"
proof -
  let ?d = "d\<lparr>dm_Publication := Some (publication_of E req c r)\<rparr>"
  have in_d: "c \<in> set (dm_History d)" using Current_in[OF c] .
  note ok = publication_of_ok(1)[OF req manifest_in_draft[OF d in_d], of E r] publication_of_ok(2)[OF req manifest_in_draft[OF d in_d], of E r]
  have "Snapshot (sm_ID c) d = Some c"
    using Snapshot_distinct[of d c] in_d valid_draft_parts(4)[OF d] by (simp add: history_ok_def)
  then have "validatePublicationState (dm_ID d) ?d = None"
    using ok(1) by (simp add: publication_None publication_of_def Snapshot_def)
  then show ?thesis using d ok(2) by (simp add: valid_draft_def validateDraftMetadata_None draft_utf8_def)
qed

context builder_env
begin

lemma MarkPublished_law:
  assumes "MarkPublished E spec_store req st = (st', Inr d')"
  shows "\<exists>d c. draft_at E st (pr_DraftID req) = Some d \<and> Current d = Some c \<and> sm_ID c = pr_SnapshotID req \<and>
    (isPublishRetry d req \<and> st' = st \<and> d' = d
     \<or> \<not> isPublishRetry d req \<and> (pr_ExpectedRevision req = AnyRevision \<or> pr_ExpectedRevision req = dm_Revision d)
     \<and> d' = (stampDraft (pr_Actor req) (be_now E) d)\<lparr>dm_Publication := Some (publication_of E req c (dm_Revision d)), dm_Revision := rs_revision st + 1\<rparr>
     \<and> draft_at E st' (pr_DraftID req) = Some d' \<and> only_draft (pr_DraftID req) st st'
     \<and> (\<forall>i k. content_at st' i k = content_at st i k))"
proof -
  let ?i = "pr_DraftID req"
  obtain d where rq: "validatePublishRequest req = None" and d: "draft_at E st ?i = Some d"
    and run: "(if isPublishRetry d req then retE d
       else
         bindE (checkE (checkRevision ?i (pr_ExpectedRevision req) (dm_Revision d))) (\<lambda>_.
           case Current d of
             None \<Rightarrow> failE (Corrupt kindDraft ?i ''history is empty'')
           | Some c \<Rightarrow>
               if sm_ID c \<noteq> pr_SnapshotID req
               then failE (Conflict kindDraft ?i (pr_ExpectedRevision req) (dm_Revision d) ''snapshot is not the current snapshot'')
               else
                 writeDraft E spec_store ((stampDraft (pr_Actor req) (be_now E) d)\<lparr>dm_Publication := Some (publication_of E req c (dm_Revision d))\<rparr>)
                   (dm_Revision d))) st = (st', Inr d')"
    using assms unfolding MarkPublished_def run_Inr GetDraft_Inr publication_of_def[symmetric] by blast
  have vd: "valid_draft d" "dm_Stamp d = None" and id: "dm_ID d = ?i" using draft_valid[OF d] draft_id[OF d] by simp_all
  show ?thesis
  proof (cases "isPublishRetry d req")
    case True
    then obtain c where "Current d = Some c" "sm_ID c = pr_SnapshotID req" by (auto simp: isPublishRetry_def split: option.splits)
    then show ?thesis using d run True by auto
  next
    case False
    let ?u = "\<lambda>c. (stampDraft (pr_Actor req) (be_now E) d)\<lparr>dm_Publication := Some (publication_of E req c (dm_Revision d))\<rparr>"
    obtain c where c: "Current d = Some c" "sm_ID c = pr_SnapshotID req"
      and rv: "pr_ExpectedRevision req = AnyRevision \<or> pr_ExpectedRevision req = dm_Revision d"
      and wr: "writeDraft E spec_store (?u c) (dm_Revision d) st = (st', Inr d')"
      using run False by (auto simp: run_Inr checkRevision_None split: option.splits if_splits)
    have "?u c = stampDraft (pr_Actor req) (be_now E) (d\<lparr>dm_Publication := Some (publication_of E req c (dm_Revision d))\<rparr>)"
      by (cases d) (simp add: stampDraft_def)
    then have "valid_draft (?u c)"
      using valid_stamp[OF valid_publication[OF vd(1) c(1) rq] publication_of_ok(3)[OF rq]] manifest_in_draft[OF vd(1) Current_in[OF c(1)]] by simp
    note law = writeDraft_law[OF wr this]
    have "d'\<lparr>dm_Stamp := None\<rparr> = d'" using law(4) vd(2) by (cases d) (simp add: stampDraft_def)
    then have at: "draft_at E st' ?i = Some d'" and only: "only_draft ?i st st'" using law(1,2) id by simp_all
    have d': "d' = (stampDraft (pr_Actor req) (be_now E) d)\<lparr>dm_Publication := Some (publication_of E req c (dm_Revision d)), dm_Revision := rs_revision st + 1\<rparr>"
      using law(4) by simp
    have frame: "\<forall>i k. content_at st' i k = content_at st i k" using law(3) by blast
    show ?thesis using d c False rv at only d' frame by blast
  qed
qed

end

subsection \<open>DeleteDraft\<close>

lemma spec_delete_Inr:
  "spec_delete ns k e st = (st', Inr u) \<longleftrightarrow>
     validateRecordNamespaceAndKey ns k = None
     \<and> (\<exists>old. rs_contents st (ns, k) = Some old \<and> (e = AnyRevision \<or> e = s_revision old))
     \<and> st' = st\<lparr>rs_contents := (rs_contents st)((ns, k) := None)\<rparr>"
  by (auto simp: spec_delete_def checkRecordRevision_def split: option.splits if_splits)

lemma DeleteDraft_law:
  "DeleteDraft E spec_store i actor e st = (st', Inr u) \<longleftrightarrow>
     be_ctx E = None \<and> validateText ''actor'' actor MaxOwnerLength True = None \<and> ValidID i
     \<and> (\<exists>s. rs_contents st (NamespaceDrafts, i) = Some s \<and> (e = AnyRevision \<or> e = s_revision s))
     \<and> st' = drop_prefix NamespaceContent (draftContentPrefix i) (st\<lparr>rs_contents := (rs_contents st)((NamespaceDrafts, i) := None)\<rparr>)"
proof -
  have "deleteDraftTx spec_ops i e st = (st', Inr u) \<longleftrightarrow>
     (\<exists>s. rs_contents st (NamespaceDrafts, i) = Some s \<and> (e = AnyRevision \<or> e = s_revision s))
     \<and> st' = drop_prefix NamespaceContent (draftContentPrefix i) (st\<lparr>rs_contents := (rs_contents st)((NamespaceDrafts, i) := None)\<rparr>)"
    if i: "ValidID i"
  proof (cases "spec_delete NamespaceDrafts i e st")
    case (Pair t r)
    have r: "r = Inr () \<longleftrightarrow> (\<exists>s. rs_contents st (NamespaceDrafts, i) = Some s \<and> (e = AnyRevision \<or> e = s_revision s))"
      and t: "r = Inr () \<Longrightarrow> t = st\<lparr>rs_contents := (rs_contents st)((NamespaceDrafts, i) := None)\<rparr>"
      using Pair spec_delete_Inr[of NamespaceDrafts i e st t "()"] draft_key_ok[OF i]
      by (auto simp: spec_delete_def checkRecordRevision_def split: option.splits if_splits)
    show ?thesis
    proof (cases r)
      case (Inr v)
      then show ?thesis using Pair r t content_prefix_ok[OF i]
        by (auto simp: deleteDraftTx_def callE_def spec_delete_prefix_def ns_ok)
    next
      case (Inl err)
      then show ?thesis using Pair r by (auto simp: deleteDraftTx_def callE_def)
    qed
  qed
  then show ?thesis by (auto simp: DeleteDraft_def run_Inr draft_txn_Inr)
qed

subsection \<open>CreateDraft\<close>

lemma create_request_ok:
  "validateCreateRequest req = None \<Longrightarrow>
     text_ok MaxOwnerLength (cr_Actor req) \<and> cr_Actor req \<noteq> [] \<and> text_ok MaxTitleLength (cr_Title req)
     \<and> text_ok MaxSourceTokenLength (cr_SourceToken req) \<and> text_ok MaxSummaryLength (cr_Summary req)
     \<and> ValidateSourceFile (cr_SourceFile req) = None"
  by (auto simp: validateCreateRequest_def first_None validateText_None split: if_splits)

lemma source_file_utf8: "ValidateSourceFile f = None \<Longrightarrow> valid_utf8 f"
  by (auto simp: ValidateSourceFile_def first_None validateText_None text_ok_def)

definition forked_utf8 :: "CreateDraftRequest \<Rightarrow> bool" where
  "forked_utf8 req \<longleftrightarrow> (case cr_Forked req of None \<Rightarrow> True | Some f \<Rightarrow> list_all valid_utf8 (forked_strings f))"

lemma CreateDraft_steps:
  assumes "CreateDraft E spec_store req st = (st', Inr d')"
  shows "\<exists>i doc doc' canonical title load m val meta.
    validateCreateRequest req = None \<and> be_ids E 0 = Inr i \<and> ValidID i \<and> be_parse E (cr_Document req) = Inr doc
    \<and> firstDocument E doc req = Inr (doc', canonical) \<and> documentTitle doc' (cr_Title req) = Inr title
    \<and> buildPayload E canonical = Inr load \<and> manifest E 1 load (cr_Actor req) (cr_Summary req) = Inr m
    \<and> meta = \<lparr>dm_ID = i, dm_CreatedBy = cr_Actor req, dm_Title = title, dm_SourceToken = cr_SourceToken req,
              dm_SourceFile = cr_SourceFile req, dm_Created = be_now E, dm_Updated = be_now E,
              dm_LastModifiedBy = cr_Actor req, dm_History = [m], dm_Cursor = 0, dm_Publication = None,
              dm_Forked = cr_Forked req, dm_DocumentCreatedBy = pv_CreatedBy (Document_Provenance doc'),
              dm_DocumentCreatedAt = pv_CreatedAt (Document_Provenance doc'), dm_Revision = AnyRevision,
              dm_Stamp = Some (Document_Provenance doc')\<rparr>
    \<and> encodeDraft E meta = Inr val \<and> length (sorted_list_of_set (keys_with_prefix NamespaceDrafts [] st)) < MaxDrafts
    \<and> bindE (putContent spec_ops (be_written E) (snapshotKey i (sm_ID m)) load) (\<lambda>_.
         callE (spec_create (be_written E) NamespaceDrafts i val) (\<lambda>r.
           case r of
             Inl e \<Rightarrow> failE (storeError kindDraft i AnyRevision e)
           | Inr rec \<Rightarrow> retE (meta\<lparr>dm_Revision := r_revision rec\<rparr>))) st = (st', Inr d')"
proof -
  obtain i doc p title load m where
    pre: "validateCreateRequest req = None" "new_id E 0 ''draftID'' = Inr i" "parseDocument E (cr_Document req) = Inr doc"
      "firstDocument E doc req = Inr p" and lim: "checkDraftLimit spec_store st = (st, Inr ())"
    and rest: "documentTitle (fst p) (cr_Title req) = Inr title" "buildPayload E (snd p) = Inr load"
      "manifest E 1 load (cr_Actor req) (cr_Summary req) = Inr m"
    and run: "bindE (readE (\<lambda>_. encodeDraft E \<lparr>dm_ID = i, dm_CreatedBy = cr_Actor req, dm_Title = title, dm_SourceToken = cr_SourceToken req,
              dm_SourceFile = cr_SourceFile req, dm_Created = be_now E, dm_Updated = be_now E,
              dm_LastModifiedBy = cr_Actor req, dm_History = [m], dm_Cursor = 0, dm_Publication = None,
              dm_Forked = cr_Forked req, dm_DocumentCreatedBy = pv_CreatedBy (Document_Provenance (fst p)),
              dm_DocumentCreatedAt = pv_CreatedAt (Document_Provenance (fst p)), dm_Revision = AnyRevision,
              dm_Stamp = Some (Document_Provenance (fst p))\<rparr>)) (\<lambda>value.
          draft_txn spec_store i AnyRevision
            (bindE (putContent spec_ops (be_written E) (snapshotKey i (sm_ID m)) load) (\<lambda>_.
               callE (spec_create (be_written E) NamespaceDrafts i value) (\<lambda>r.
                 case r of
                   Inl e \<Rightarrow> failE (storeError kindDraft i AnyRevision e)
                 | Inr rec \<Rightarrow> retE (\<lparr>dm_ID = i, dm_CreatedBy = cr_Actor req, dm_Title = title, dm_SourceToken = cr_SourceToken req,
              dm_SourceFile = cr_SourceFile req, dm_Created = be_now E, dm_Updated = be_now E,
              dm_LastModifiedBy = cr_Actor req, dm_History = [m], dm_Cursor = 0, dm_Publication = None,
              dm_Forked = cr_Forked req, dm_DocumentCreatedBy = pv_CreatedBy (Document_Provenance (fst p)),
              dm_DocumentCreatedAt = pv_CreatedAt (Document_Provenance (fst p)), dm_Revision = AnyRevision,
              dm_Stamp = Some (Document_Provenance (fst p))\<rparr>\<lparr>dm_Revision := r_revision rec\<rparr>))))) st = (st', Inr d')"
  proof -
    have reads: "only_reads (checkDraftLimit spec_store)" by (simp add: checkDraftLimit_def)
    have "checkDraftLimit spec_store s = (t, Inr u) \<longleftrightarrow> t = s \<and> checkDraftLimit spec_store s = (s, Inr ())" for s t u
      using reads[unfolded only_reads_def, rule_format, of s] by auto
    then show thesis using assms that
      unfolding CreateDraft_def run_Inr Let_def spec_store_sel spec_ops_simps case_prod_beta by blast
  qed
  have "length (sorted_list_of_set (keys_with_prefix NamespaceDrafts [] st)) < MaxDrafts"
    using lim ns_ok by (auto simp: checkDraftLimit_def run_Inr spec_store_def spec_list_def validateRecordNamespaceAndPrefix_def
        ValidateRecordPrefix_def split: if_splits)
  moreover have "be_parse E (cr_Document req) = Inr doc" using pre(3) by (auto simp: parseDocument_def split: if_splits sum.splits)
  moreover have "be_ids E 0 = Inr i" "ValidID i" using pre(2) by (simp_all add: new_id_Inr)
  moreover obtain doc' canonical where "p = (doc', canonical)" by fastforce
  ultimately show ?thesis using pre rest run by (auto simp: bindE_Inr draft_txn_Inr)
qed

context builder_env
begin

lemma first_document_ok:
  assumes "firstDocument E doc req = Inr (doc', canonical)" and "be_parse E b = Inr doc" and "text_ok MaxOwnerLength (cr_Actor req)"
  shows "prov_ok (Document_Provenance doc')" and "\<exists>d. be_parse E canonical = Inr d" and "be_encode E doc' = Inr canonical"
proof -
  let ?p = "Document_Provenance doc"
  let ?q = "?p\<lparr>pv_CreatedBy := (if pv_CreatedBy ?p = [] then cr_Actor req else pv_CreatedBy ?p),
                pv_CreatedAt := (if pv_CreatedAt ?p = [] then be_format E (be_now E) else pv_CreatedAt ?p),
                pv_UpdatedBy := cr_Actor req, pv_UpdatedAt := be_format E (be_now E)\<rparr>"
  note parsed = parse_valid[OF assms(2)]
  have q: "prov_ok ?q" using parsed assms(3) now_law by (auto simp: prov_ok_def)
  have prov: "Document_Provenance (SetProvenance x y) = x" for x :: Provenance and y :: "'x Document"
    by (simp add: Document_Provenance_def SetProvenance_def)
  have "doc' = doc \<or> doc' = SetProvenance ?q doc" and enc: "be_encode E doc' = Inr canonical"
    using assms(1) by (auto simp: firstDocument_def Let_def encodeDocument_def split: option.splits sum.splits if_splits elim: map_sum_Inr)
  then have "prov_ok (Document_Provenance doc') \<and> valid_doc doc'" using parsed q stamp_valid prov by auto
  then show "prov_ok (Document_Provenance doc')" "\<exists>d. be_parse E canonical = Inr d" using encode_parse enc by blast+
  show "be_encode E doc' = Inr canonical" by (rule enc)
qed

lemma CreateDraft_law:
  assumes run: "CreateDraft E spec_store req st = (st', Inr d')" and fk: "forked_utf8 req"
  shows "\<exists>m data. be_ids E 0 = Inr (dm_ID d') \<and> ValidID (dm_ID d') \<and> rs_contents st (NamespaceDrafts, dm_ID d') = None
    \<and> dm_History d' = [m] \<and> Current d' = Some m \<and> dm_CreatedBy d' = cr_Actor req \<and> dm_Publication d' = None
    \<and> dm_Revision d' = rs_revision st + 2
    \<and> draft_at E st' (dm_ID d') = Some (d'\<lparr>dm_Stamp := None\<rparr>) \<and> only_draft (dm_ID d') st st'
    \<and> (\<exists>doc. document_at E st' (dm_ID d') m = Some (data, doc) \<and> be_parse E data = Inr doc)
    \<and> length (sorted_list_of_set (keys_with_prefix NamespaceDrafts [] st)) < MaxDrafts \<and> be_ids E 1 = Inr (sm_ID m)"
proof -
  obtain i doc doc' canonical title load m val meta where
    rq: "validateCreateRequest req = None" and i: "be_ids E 0 = Inr i" "ValidID i" and doc: "be_parse E (cr_Document req) = Inr doc"
    and first: "firstDocument E doc req = Inr (doc', canonical)" and title: "documentTitle doc' (cr_Title req) = Inr title"
    and load: "buildPayload E canonical = Inr load" and m: "manifest E 1 load (cr_Actor req) (cr_Summary req) = Inr m"
    and meta: "meta = \<lparr>dm_ID = i, dm_CreatedBy = cr_Actor req, dm_Title = title, dm_SourceToken = cr_SourceToken req,
              dm_SourceFile = cr_SourceFile req, dm_Created = be_now E, dm_Updated = be_now E,
              dm_LastModifiedBy = cr_Actor req, dm_History = [m], dm_Cursor = 0, dm_Publication = None,
              dm_Forked = cr_Forked req, dm_DocumentCreatedBy = pv_CreatedBy (Document_Provenance doc'),
              dm_DocumentCreatedAt = pv_CreatedAt (Document_Provenance doc'), dm_Revision = AnyRevision,
              dm_Stamp = Some (Document_Provenance doc')\<rparr>"
    and val: "encodeDraft E meta = Inr val" and lim: "length (sorted_list_of_set (keys_with_prefix NamespaceDrafts [] st)) < MaxDrafts"
    and txn: "bindE (putContent spec_ops (be_written E) (snapshotKey i (sm_ID m)) load) (\<lambda>_.
         callE (spec_create (be_written E) NamespaceDrafts i val) (\<lambda>r.
           case r of
             Inl e \<Rightarrow> failE (storeError kindDraft i AnyRevision e)
           | Inr rec \<Rightarrow> retE (meta\<lparr>dm_Revision := r_revision rec\<rparr>))) st = (st', Inr d')"
    using CreateDraft_steps[OF run] by blast
  note req = create_request_ok[OF rq]
  have actor: "text_ok MaxOwnerLength (cr_Actor req)" and summary: "text_ok MaxSummaryLength (cr_Summary req)" using req by simp_all
  have "sm_OpID m = []" using m by (auto simp: manifest_Inr)
  then have m_upd: "m\<lparr>sm_OpID := []\<rparr> = m" by simp
  note mk = append_manifest_ok[OF load m actor summary, of "[]", unfolded m_upd]
  have mok: "manifest_ok m" and vm: "ValidID (sm_ID m)" using mk(1,3) by simp_all
  have ver: "verify_payload E kindSnapshot (sm_ID m) m (pl_compressed load) = Inr canonical" using mk(4) by simp
  note fd = first_document_ok[OF first doc actor]
  have small: "history_fits [m]" using mok
    by (simp add: history_fits_def manifest_ok_def manifest_shape_iff MaxSnapshots_def MaxDocumentBytes_def MaxDraftHistoryBytes_def)
  have valid: "valid_draft meta"
  proof -
    have p: "prov_ok (Document_Provenance doc')" by (rule fd(1))
    have "valid_utf8 (pv_CreatedAt (Document_Provenance doc'))" using p IsTime_ascii by (auto simp: prov_ok_def)
    then show ?thesis using p req i mok small documentTitle_ok[OF title] fk ValidID_utf8[OF i(2)] source_file_utf8[of "cr_SourceFile req"]
      unfolding meta valid_draft_def validateDraftMetadata_None draft_utf8_def validateText_None prov_ok_def publication_None
      by (auto simp: text_ok_def history_ok_def history_fits_def manifest_ok_def forked_utf8_def list_all_iff split: option.splits)
  qed
  have id: "dm_ID meta = i" by (simp add: meta)
  obtain s where put: "putContent spec_ops (be_written E) (snapshotKey i (sm_ID m)) load st
        = (spec_write NamespaceContent (snapshotKey i (sm_ID m)) s st, Inr ())"
      and s: "s_value s = pl_compressed load" "s_revision s = rs_revision st + 1"
    using putContent_law[OF snapshot_key_ok[OF i(2) vm]] by blast
  let ?t = "spec_write NamespaceContent (snapshotKey i (sm_ID m)) s st"
  let ?s = "\<lparr>s_value = val, s_revision = rs_revision st + 2, s_created = be_written E, s_updated = be_written E\<rparr>"
  have create: "rs_contents st (NamespaceDrafts, i) = None \<and> st' = spec_write NamespaceDrafts i ?s ?t \<and> d' = meta\<lparr>dm_Revision := rs_revision st + 2\<rparr>"
    using txn put s by (auto simp: callE_def spec_create_def spec_write_def Let_def add.commute split: option.splits prod.splits sum.splits)
  have at: "draft_at E st' i = Some (d'\<lparr>dm_Stamp := None\<rparr>)"
    using draft_written[OF valid val, of st' ?s] create id by (simp add: spec_write_def)
  have only: "only_draft i st st'" using create by (auto simp: only_draft_def spec_write_def)
  have "content_at st' i (sm_ID m) = Some (pl_compressed load)" using create s by (simp add: content_at_def spec_write_def)
  then have document: "\<exists>doc. document_at E st' i m = Some (canonical, doc) \<and> be_parse E canonical = Inr doc"
    using ver fd(2) by (auto simp: document_at_def read_document_def)
  have "dm_ID d' = i" "dm_History d' = [m]" "Current d' = Some m" "dm_CreatedBy d' = cr_Actor req" "dm_Publication d' = None"
      "dm_Revision d' = rs_revision st + 2"
    using create meta by (simp_all add: Current_def)
  then show ?thesis using i create at only document lim mk(2) by auto
qed

end

end
