(* ===== verification/Builder_Calls.thy ===== *)
theory Builder_Calls
  imports Builder_Laws
begin

section \<open>Calls of the Builder service on drafts\<close>

text \<open>
  The calls that write drafts as values (\<open>draft_call\<close>), what holds of all of them on any record store
  (a call that fails changes nothing; what a call does to a store is what it does to the abstract
  store, unless the store itself fails), and what they keep: the content of every snapshot of every
  draft is there and is the document its history says it is.
\<close>

datatype draft_call =
  CallCreate CreateDraftRequest
| CallAppend AppendSnapshotRequest
| CallMove MoveCursorRequest
| CallDeleteSnapshot DeleteSnapshotRequest
| CallPublish MarkPublishedRequest
| CallDelete string string int64

fun run_call :: "'x bld_env \<Rightarrow> 's rec_store \<Rightarrow> draft_call \<Rightarrow> ('s, DraftMetadata option) bld_action" where
  "run_call E S (CallCreate req) = bindE (CreateDraft E S req) (\<lambda>d. retE (Some d))"
| "run_call E S (CallAppend req) = bindE (AppendSnapshot E S req) (\<lambda>d. retE (Some d))"
| "run_call E S (CallMove req) = bindE (MoveCursor E S req) (\<lambda>d. retE (Some d))"
| "run_call E S (CallDeleteSnapshot req) = bindE (DeleteSnapshot E S req) (\<lambda>d. retE (Some d))"
| "run_call E S (CallPublish req) = bindE (MarkPublished E S req) (\<lambda>d. retE (Some d))"
| "run_call E S (CallDelete i actor e) = bindE (DeleteDraft E S i actor e) (\<lambda>_. retE None)"

subsection \<open>A call that fails changes nothing\<close>

lemma atomic_ret: "atomicE m \<Longrightarrow> atomicE (bindE m (\<lambda>x. retE (f x)))"
  unfolding atomicE_def bindE_def by (auto split: prod.splits sum.splits)

lemma atomic_draft_txn: "atomicE (draft_txn S i e fn)"
  by (auto simp: atomicE_def draft_txn_def record_txn_def split: option.splits prod.splits sum.splits)

lemma atomic_writeDraft: "atomicE (writeDraft E S u e)"
  unfolding writeDraft_def by (intro atomic_bind atomic_call atomic_txn) (auto simp: only_reads_def)

lemma atomic_writes: "atomicE (writeDraftTxn E S u v e a)"
  by (simp add: writeDraftTxn_def atomic_draft_txn)

lemma reads_limit [simp]: "only_reads (checkDraftLimit S)"
  by (simp add: checkDraftLimit_def)

named_theorems atomic_intros \<open>clients that read and end with one transaction\<close>

lemmas [atomic_intros] = atomic_bind atomic_draft_txn atomic_writeDraft atomic_writes

lemma atomic_basic [atomic_intros]: "atomicE (retE x)" "atomicE (failE e)" "atomicE (readE f)" "atomicE (checkE c)"
  by (simp_all add: atomic_reads)

lemma call_atomic: "atomicE (run_call E S c)"
proof (cases c)
  case (CallCreate req)
  then show ?thesis by (simp, intro atomic_ret, unfold CreateDraft_def Let_def)
    (intro atomic_intros; clarsimp; intro atomic_intros; simp)
next
  case (CallAppend req)
  then show ?thesis by (simp, intro atomic_ret, unfold AppendSnapshot_def Let_def)
    (intro atomic_intros; (clarsimp split: prod.splits)?; intro conjI impI allI atomic_intros; simp)
next
  case (CallMove req)
  then show ?thesis by (simp, intro atomic_ret, unfold MoveCursor_def) (intro atomic_intros; simp)
next
  case (CallDeleteSnapshot req)
  then show ?thesis by (simp, intro atomic_ret, unfold DeleteSnapshot_def Let_def)
    (intro atomic_intros; (clarsimp split: prod.splits sum.splits option.splits)?; intro conjI impI allI atomic_intros; simp)
next
  case (CallPublish req)
  then show ?thesis by (simp, intro atomic_ret, unfold MarkPublished_def)
    (intro atomic_intros; (clarsimp split: option.splits)?; intro conjI impI allI atomic_intros; (clarsimp split: option.splits)?; intro conjI impI allI atomic_intros)
next
  case (CallDelete i actor e)
  then show ?thesis by (simp, intro atomic_ret, unfold DeleteDraft_def) (intro atomic_intros; simp)
qed

subsection \<open>Every store does what the abstract store does\<close>

definition builder_failure :: "bld_err \<Rightarrow> bool" where
  "builder_failure e \<longleftrightarrow> (\<exists>m. e = BStore (StoreFailure m))"

lemma store_failure_error: "store_failure e \<Longrightarrow> builder_failure (storeError k i x e) \<and> builder_failure (BStore (cause e))"
  by (auto simp: store_failure_def builder_failure_def storeError_def)

lemma storeError_cause [simp]: "storeError k i x (cause e) = storeError k i x e"
  by (simp add: storeError_def)

lemma store_sim_read:
  "(\<And>x. r = Inr x \<Longrightarrow> store_simulated ok view failed (f x) (f' x)) \<Longrightarrow>
   store_simulated ok view failed (bindE (readE (\<lambda>_. r)) f) (bindE (readE (\<lambda>_. r)) f')"
  by (cases r) (auto simp: store_simulated_def)

lemma store_sim_check:
  "(c = None \<Longrightarrow> store_simulated ok view failed (f ()) (f' ())) \<Longrightarrow>
   store_simulated ok view failed (bindE (checkE c) f) (bindE (checkE c) f')"
  by (cases c) (auto simp: store_simulated_def)

lemma store_sim_basic: "store_simulated ok view failed (retE x) (retE x)" "store_simulated ok view failed (failE e) (failE e)"
    "store_simulated ok view failed (readE (\<lambda>_. r)) (readE (\<lambda>_. r))" "store_simulated ok view failed (checkE c) (checkE c)"
  by (auto simp: store_simulated_def checkE_def split: option.splits)

lemma store_sim_cases:
  "(c \<Longrightarrow> store_simulated ok view failed m m') \<Longrightarrow> (\<not> c \<Longrightarrow> store_simulated ok view failed n n') \<Longrightarrow>
   store_simulated ok view failed (if c then m else n) (if c then m' else n')"
  "store_simulated ok view failed m m' \<Longrightarrow> (\<And>y. store_simulated ok view failed (f y) (f' y)) \<Longrightarrow>
   store_simulated ok view failed (case x of None \<Rightarrow> m | Some y \<Rightarrow> f y) (case x of None \<Rightarrow> m' | Some y \<Rightarrow> f' y)"
  "(\<And>e. store_simulated ok view failed (g e) (g' e)) \<Longrightarrow> (\<And>y. store_simulated ok view failed (f y) (f' y)) \<Longrightarrow>
   store_simulated ok view failed (case z of Inl e \<Rightarrow> g e | Inr y \<Rightarrow> f y) (case z of Inl e \<Rightarrow> g' e | Inr y \<Rightarrow> f' y)"
  by (simp_all split: option.split sum.split)

lemma store_sim_ret:
  assumes "store_simulated ok view failed m m'"
  shows "store_simulated ok view failed (bindE m (\<lambda>x. retE (g x))) (bindE m' (\<lambda>x. retE (g x)))"
  using assms unfolding store_simulated_def bindE_def by (fastforce split: prod.splits sum.splits)

text \<open>What the service writes is small enough for the store.\<close>

lemma encodeDraft_small: "encodeDraft E d = Inr v \<Longrightarrow> int (length v) \<le> MaxCompressedBytes"
  by (auto simp: encodeDraft_def MaxMetadataBytes_def MaxCompressedBytes_def MaxDocumentBytes_def split: sum.splits if_splits)

lemma buildPayload_small: "buildPayload E b = Inr load \<Longrightarrow> int (length (pl_compressed load)) \<le> MaxCompressedBytes"
  by (auto simp: buildPayload_def split: sum.splits if_splits)

lemma stamped_small: "stampedSnapshot E doc stamp smry = Inr p \<Longrightarrow> int (length (pl_compressed (fst p))) \<le> MaxCompressedBytes"
proof -
  assume p: "stampedSnapshot E doc stamp smry = Inr p"
  then obtain canonical load where c: "buildPayload E canonical = Inr load"
      "map_sum id (Pair load) (manifest E 0 load (pv_UpdatedBy stamp) smry) = Inr (fst p, snd p)"
    by (auto simp: stampedSnapshot_def split: sum.splits)
  then show ?thesis using buildPayload_small map_sum_Inr[OF c(2)] by auto
qed

context record_store
begin

lemma sim_putContent:
  "fits (pl_compressed load) \<Longrightarrow> simulated ok view (putContent (rd_tx S) now key load) (putContent spec_ops now key load)"
  unfolding putContent_def by (rule sim_tx; auto simp del: spec_ops_simps intro!: sim_intros sim_tx split: sum.splits rec_error.splits)

lemma sim_dropSnapshots: "simulated ok view (dropSnapshots (rd_tx S) i ms) (dropSnapshots spec_ops i ms)"
proof (induction ms)
  case Nil
  show ?case unfolding dropSnapshots.simps by (rule sim_basic)
next
  case (Cons m ms)
  have "simulated ok view (dropContent (rd_tx S) k) (dropContent spec_ops k)" for k
    unfolding dropContent_def by (rule sim_tx) (auto intro: sim_basic split: sum.splits rec_error.splits)
  then show ?case unfolding dropSnapshots.simps using Cons.IH by (rule sim_bind)
qed

lemma sim_deleteDraft: "simulated ok view (deleteDraftTx (rd_tx S) i e) (deleteDraftTx spec_ops i e)"
  unfolding deleteDraftTx_def by (rule sim_tx; auto simp del: spec_ops_simps intro!: sim_intros sim_tx split: sum.splits)

lemma sim_draft_txn:
  assumes "simulated ok view fn fn'"
  shows "store_simulated ok view builder_failure (draft_txn S i e fn) (draft_txn spec_store i e fn')"
proof -
  have "store_simulated ok view builder_failure (record_txn S (\<lambda>e. BStore (cause e)) fn) (record_txn spec_store (\<lambda>e. BStore (cause e)) fn')"
    by (rule store_sim_txn[OF assms]) (simp add: store_failure_error)
  moreover have "builder_failure x \<Longrightarrow> builder_failure (txnError kindDraft i e x)" for x
    by (auto simp: builder_failure_def txnError_def storeError_def)
  ultimately show ?thesis unfolding store_simulated_def draft_txn_def
    by (fastforce split: prod.splits sum.splits)
qed

lemma sim_GetDraft: "store_simulated ok view builder_failure (GetDraft E S i) (GetDraft E spec_store i)"
  unfolding GetDraft_def
  by (intro store_sim_check store_sim_bind store_sim_reads store_sim_basic reads_basic) (simp add: store_failure_error)

lemma sim_writeDraft:
  assumes "\<And>v. int (length v) \<le> MaxCompressedBytes \<Longrightarrow> fits v"
  shows "store_simulated ok view builder_failure (writeDraft E S u e) (writeDraft E spec_store u e)"
  unfolding writeDraft_def
proof (intro store_sim_read)
  fix v assume v: "encodeDraft E u = Inr v"
  let ?g = "\<lambda>r. case r of Inl x \<Rightarrow> Inl (storeError kindDraft (dm_ID u) e x) | Inr rec \<Rightarrow> Inr (u\<lparr>dm_Revision := r_revision rec\<rparr>)"
  show "store_simulated ok view builder_failure
     (callE (rd_update S (be_written E) NamespaceDrafts (dm_ID u) v e)
       (\<lambda>r. case r of Inl x \<Rightarrow> failE (storeError kindDraft (dm_ID u) e x) | Inr rec \<Rightarrow> retE (u\<lparr>dm_Revision := r_revision rec\<rparr>)))
     (callE (rd_update spec_store (be_written E) NamespaceDrafts (dm_ID u) v e)
       (\<lambda>r. case r of Inl x \<Rightarrow> failE (storeError kindDraft (dm_ID u) e x) | Inr rec \<Rightarrow> retE (u\<lparr>dm_Revision := r_revision rec\<rparr>)))"
    by (rule store_sim_one[where g = ?g])
      (use update_law assms[OF encodeDraft_small[OF v]] in \<open>auto simp: spec_caused store_failure_error split: sum.splits\<close>)
qed

lemma sim_writeDraftTxn:
  assumes "fits v" and "simulated ok view a a'"
  shows "store_simulated ok view builder_failure (writeDraftTxn E S u v e a) (writeDraftTxn E spec_store u v e a')"
  unfolding writeDraftTxn_def spec_store_sel
  by (intro sim_draft_txn sim_bind assms(2) sim_tx(3) assms(1)) (auto intro: sim_basic split: sum.splits)

lemma sim_create_body:
  assumes "fits (pl_compressed load)" and "fits v"
  shows "simulated ok view
     (bindE (putContent (rd_tx S) now key load) (\<lambda>_.
        callE (tx_create (rd_tx S) now NamespaceDrafts i v) (\<lambda>r.
          case r of Inl e \<Rightarrow> failE (storeError kindDraft i AnyRevision e) | Inr rec \<Rightarrow> retE (d\<lparr>dm_Revision := r_revision rec\<rparr>))))
     (bindE (putContent spec_ops now key load) (\<lambda>_.
        callE (tx_create spec_ops now NamespaceDrafts i v) (\<lambda>r.
          case r of Inl e \<Rightarrow> failE (storeError kindDraft i AnyRevision e) | Inr rec \<Rightarrow> retE (d\<lparr>dm_Revision := r_revision rec\<rparr>))))"
  by (intro sim_bind sim_putContent sim_tx(2) assms) (auto intro: sim_basic split: sum.splits)

lemma sim_limit: "store_simulated ok view builder_failure (checkDraftLimit S) (checkDraftLimit spec_store)"
  unfolding checkDraftLimit_def
  by (intro store_sim_bind store_sim_reads reads_basic) (auto intro: store_sim_basic simp: store_failure_error)

lemmas sim_calls = store_sim_check store_sim_read store_sim_bind[OF sim_GetDraft GetDraft_reads] store_sim_bind[OF sim_limit reads_limit]
  store_sim_basic store_sim_cases sim_draft_txn

lemma call_simulated:
  assumes fits: "\<And>v. int (length v) \<le> MaxCompressedBytes \<Longrightarrow> fits v"
  shows "store_simulated ok view builder_failure (run_call E S c) (run_call E spec_store c)"
proof (cases c)
  case (CallCreate req)
  have "store_simulated ok view builder_failure (CreateDraft E S req) (CreateDraft E spec_store req)"
    unfolding CreateDraft_def Let_def spec_store_sel case_prod_beta
    by (intro sim_calls sim_create_body fits) (auto intro: buildPayload_small encodeDraft_small)
  then show ?thesis unfolding CallCreate run_call.simps by (rule store_sim_ret)
next
  case (CallAppend req)
  have "store_simulated ok view builder_failure (AppendSnapshot E S req) (AppendSnapshot E spec_store req)"
    unfolding AppendSnapshot_def Let_def spec_store_sel case_prod_beta
    by (intro sim_calls sim_writeDraftTxn sim_bind sim_putContent sim_dropSnapshots fits) (auto intro: stamped_small encodeDraft_small)
  then show ?thesis unfolding CallAppend run_call.simps by (rule store_sim_ret)
next
  case (CallMove req)
  have "store_simulated ok view builder_failure (MoveCursor E S req) (MoveCursor E spec_store req)"
    unfolding MoveCursor_def by (intro sim_calls sim_writeDraft fits)
  then show ?thesis unfolding CallMove run_call.simps by (rule store_sim_ret)
next
  case (CallDeleteSnapshot req)
  have "store_simulated ok view builder_failure (DeleteSnapshot E S req) (DeleteSnapshot E spec_store req)"
    unfolding DeleteSnapshot_def Let_def spec_store_sel case_prod_beta
    by (intro sim_calls sim_writeDraftTxn sim_dropSnapshots fits) (rule encodeDraft_small)
  then show ?thesis unfolding CallDeleteSnapshot run_call.simps by (rule store_sim_ret)
next
  case (CallPublish req)
  have "store_simulated ok view builder_failure (MarkPublished E S req) (MarkPublished E spec_store req)"
    unfolding MarkPublished_def
    by (intro sim_calls sim_writeDraft fits)
  then show ?thesis unfolding CallPublish run_call.simps by (rule store_sim_ret)
next
  case (CallDelete i actor e)
  have "store_simulated ok view builder_failure (DeleteDraft E S i actor e) (DeleteDraft E spec_store i actor e)"
    unfolding DeleteDraft_def spec_store_sel by (intro sim_calls sim_deleteDraft)
  then show ?thesis unfolding CallDelete run_call.simps by (rule store_sim_ret)
qed

end

subsection \<open>Drafts stay whole\<close>

text \<open>What a call needs of its identifiers and texts: a new snapshot gets an identifier that is new to its draft.\<close>

definition call_fresh :: "'x bld_env \<Rightarrow> rstore \<Rightarrow> draft_call \<Rightarrow> bool" where
  "call_fresh E st c =
     (case c of
        CallCreate req \<Rightarrow> forked_utf8 req
      | CallAppend req \<Rightarrow> append_fresh E st req
      | _ \<Rightarrow> True)"

lemma whole_keep:
  assumes "drafts_whole E st" and "only_draft i st st'" and "ValidID i"
    and "\<And>d m. draft_at E st' i = Some d \<Longrightarrow> m \<in> set (dm_History d) \<Longrightarrow> document_at E st' i m \<noteq> None"
  shows "drafts_whole E st'"
  unfolding drafts_whole_def
proof (intro allI impI)
  fix j d m assume d: "draft_at E st' j = Some d" and m: "m \<in> set (dm_History d)"
  show "document_at E st' j m \<noteq> None"
  proof (cases "j = i")
    case True
    then show ?thesis using assms(4) d m by blast
  next
    case False
    then have "draft_at E st j = Some d" using only_draft_at[OF assms(2)] d by metis
    moreover have "document_at E st' j m = document_at E st j m"
      using only_draft_content[OF assms(2,3) _ False] draft_id[OF d] by (simp add: document_at_def)
    ultimately show ?thesis using assms(1) m by (metis drafts_whole_def)
  qed
qed

lemma document_same: "content_at st' i (sm_ID m) = content_at st i (sm_ID m) \<Longrightarrow> document_at E st' i m = document_at E st i m"
  by (simp add: document_at_def)

lemma removed_history:
  assumes "history_ok (dm_History d)" and "i < length (dm_History d)" and "m \<in> set (dm_History (snd (removeSnapshot i d)))"
  shows "m \<in> set (dm_History d) \<and> sm_ID m \<noteq> sm_ID (dm_History d ! i)"
proof -
  have m: "m \<in> set (remove_nth i (dm_History d))" using assms(3) by (simp add: removeSnapshot_def)
  moreover have "sm_ID (dm_History d ! i) \<notin> sm_ID ` set (remove_nth i (dm_History d))"
    using remove_nth_distinct[of sm_ID "dm_History d" i] assms(1,2) by (simp add: history_ok_def)
  ultimately show ?thesis using subsetD[OF set_remove_nth_subset m] by (metis imageI)
qed

lemma delete_only: "only_draft i st (drop_prefix NamespaceContent (draftContentPrefix i) (st\<lparr>rs_contents := (rs_contents st)((NamespaceDrafts, i) := None)\<rparr>))"
  by (auto simp: only_draft_def drop_prefix_def)

context builder_env
begin

lemma call_keeps_whole:
  assumes whole: "drafts_whole E st" and run: "run_call E spec_store c st = (st', r)" and fresh: "call_fresh E st c"
  shows "drafts_whole E st'"
proof (cases r)
  case (Inl e)
  then have "st' = st" using call_atomic[of E spec_store c] run by (auto simp: atomicE_def)
  then show ?thesis using whole by simp
next
  case (Inr x)
  note ok = run[unfolded Inr]
  show ?thesis
  proof (cases c)
    case (CallCreate req)
    then obtain d where "CreateDraft E spec_store req st = (st', Inr d)" using ok by (auto simp: bindE_Inr)
    from CreateDraft_law[OF this] obtain m doc where m: "ValidID (dm_ID d)" "dm_History d = [m]" "only_draft (dm_ID d) st st'"
        "draft_at E st' (dm_ID d) = Some (d\<lparr>dm_Stamp := None\<rparr>)" "document_at E st' (dm_ID d) m = Some doc"
      using fresh CallCreate by (auto simp: call_fresh_def)
    then show ?thesis by (intro whole_keep[OF whole m(3,1)]) auto
  next
    case (CallAppend req)
    then obtain d' where run': "AppendSnapshot E spec_store req st = (st', Inr d')" using ok by (auto simp: bindE_Inr)
    have fr: "append_fresh E st req" using fresh CallAppend by (simp add: call_fresh_def)
    from AppendSnapshot_law[OF run' fr] obtain d m doc and dropped :: "SnapshotManifest list" where
      law: "draft_at E st (ar_DraftID req) = Some d" "draft_at E st' (ar_DraftID req) = Some (d'\<lparr>dm_Stamp := None\<rparr>)"
        "only_draft (ar_DraftID req) st st'" "document_at E st' (ar_DraftID req) m = Some doc"
        "\<forall>k. k \<noteq> sm_ID m \<longrightarrow> content_at st' (ar_DraftID req) k
          = (if k \<in> sm_ID ` set dropped then None else content_at st (ar_DraftID req) k)"
        "set (dm_History d') \<subseteq> insert m (set (dm_History d))" "sm_ID ` set dropped \<inter> sm_ID ` set (dm_History d') = {}"
        "sm_ID m \<notin> sm_ID ` set (dm_History d)"
      by - (elim exE conjE, rule that, assumption+)
    have "document_at E st' (ar_DraftID req) n \<noteq> None" if "n \<in> set (dm_History d')" for n
    proof (cases "n = m")
      case False
      then have n: "n \<in> set (dm_History d)" using that law(6) by auto
      moreover have "sm_ID n \<noteq> sm_ID m" using law(8) n by (metis imageI)
      moreover have "sm_ID n \<notin> sm_ID ` set dropped" using that law(7) by blast
      ultimately have "document_at E st' (ar_DraftID req) n = document_at E st (ar_DraftID req) n"
        using law(5) by (intro document_same) simp
      then show ?thesis using whole law(1) n by (simp add: drafts_whole_def)
    qed (simp add: law(4))
    then show ?thesis using law(2) draft_id[OF law(1)] by (intro whole_keep[OF whole law(3)]) auto
  next
    case (CallMove req)
    then obtain d' where "MoveCursor E spec_store req st = (st', Inr d')" using ok by (auto simp: bindE_Inr)
    from MoveCursor_law[OF this] obtain d where law: "draft_at E st (mr_DraftID req) = Some d" "draft_at E st' (mr_DraftID req) = Some d'"
        "only_draft (mr_DraftID req) st st'" "\<forall>i k. content_at st' i k = content_at st i k" "dm_History d' = dm_History d"
      by auto
    then show ?thesis using whole draft_id[OF law(1)] by (intro whole_keep[OF whole law(3)]) (auto simp: drafts_whole_def document_at_def)
  next
    case (CallDeleteSnapshot req)
    then obtain d' where "DeleteSnapshot E spec_store req st = (st', Inr d')" using ok by (auto simp: bindE_Inr)
    from DeleteSnapshot_law[OF this] obtain d i where law: "draft_at E st (dr_DraftID req) = Some d" "draft_at E st' (dr_DraftID req) = Some d'"
        "only_draft (dr_DraftID req) st st'" "i < length (dm_History d)" "sm_ID (dm_History d ! i) = dr_SnapshotID req"
        "\<forall>k. content_at st' (dr_DraftID req) k = (if k = dr_SnapshotID req then None else content_at st (dr_DraftID req) k)"
        "dm_History d' = dm_History (snd (removeSnapshot i d))"
      by auto
    have hist: "history_ok (dm_History d)" using draft_valid[OF law(1)] valid_draft_parts(4) by blast
    have "document_at E st' (dr_DraftID req) m \<noteq> None" if "m \<in> set (dm_History d')" for m
    proof -
      have m: "m \<in> set (dm_History d)" "sm_ID m \<noteq> dr_SnapshotID req"
        using removed_history[OF hist law(4)] that law(5,7) by auto
      then have "document_at E st' (dr_DraftID req) m = document_at E st (dr_DraftID req) m" using law(6) by (intro document_same) simp
      then show ?thesis using whole law(1) m(1) by (simp add: drafts_whole_def)
    qed
    then show ?thesis using law(2) draft_id[OF law(1)] by (intro whole_keep[OF whole law(3)]) auto
  next
    case (CallPublish req)
    then obtain d' where "MarkPublished E spec_store req st = (st', Inr d')" using ok by (auto simp: bindE_Inr)
    from MarkPublished_law[OF this] obtain d where d: "draft_at E st (pr_DraftID req) = Some d" and law: "st' = st \<or>
        draft_at E st' (pr_DraftID req) = Some d' \<and> dm_History d' = dm_History d \<and> only_draft (pr_DraftID req) st st'
        \<and> (\<forall>i k. content_at st' i k = content_at st i k)"
      by auto
    show ?thesis
    proof (cases "st' = st")
      case False
      then have only: "only_draft (pr_DraftID req) st st'" and at: "draft_at E st' (pr_DraftID req) = Some d'" "dm_History d' = dm_History d"
        and content: "\<forall>i k. content_at st' i k = content_at st i k" using law by blast+
      then show ?thesis using draft_id[OF d] whole d
        by (intro whole_keep[OF whole only]) (auto simp: drafts_whole_def document_at_def)
    qed (simp add: whole)
  next
    case (CallDelete i actor e)
    then obtain u where "DeleteDraft E spec_store i actor e st = (st', Inr u)" using ok by (auto simp: bindE_Inr)
    then have law: "ValidID i" "st' = drop_prefix NamespaceContent (draftContentPrefix i) (st\<lparr>rs_contents := (rs_contents st)((NamespaceDrafts, i) := None)\<rparr>)"
      unfolding DeleteDraft_law by blast+
    have "draft_at E st' i = None" using law(2) by (simp add: draft_at_def drop_prefix_def)
    then show ?thesis using law delete_only by (intro whole_keep[OF whole _ law(1)]) auto
  qed
qed

end

subsection \<open>Reading snapshots\<close>

lemma readPayload_law:
  assumes "ValidID i" and "ValidID (sm_ID m)" and "validateManifestShape k j m = None"
  shows "readPayload E spec_store k j (snapshotKey i (sm_ID m)) m st =
    (st, case content_at st i (sm_ID m) of None \<Rightarrow> Inl (Corrupt k j ''content is missing'') | Some v \<Rightarrow> verify_payload E k j m v)"
  using snapshot_key_ok[OF assms(1,2)] assms(3)
  by (cases "rs_contents st (NamespaceContent, snapshotKey i (sm_ID m))")
    (auto simp: readPayload_def readingE_def spec_get_def content_at_def bindE_def)

lemma document_at_Some:
  "document_at E st i m = Some (data, doc) \<longleftrightarrow>
     (\<exists>v. content_at st i (sm_ID m) = Some v \<and> verify_payload E kindSnapshot (sm_ID m) m v = Inr data \<and> be_parse E data = Inr doc)"
  by (cases "content_at st i (sm_ID m)") (auto simp: document_at_def read_document_def split: sum.splits)

lemma snapshot_law:
  assumes "ValidID i" and "manifest_ok m" and "document_at E st i m = Some (data, doc)"
  shows "snapshot E spec_store i m st = (st, Inr (m, data, doc))"
proof -
  have ids: "ValidID (sm_ID m)" "validateManifestShape kindSnapshot (sm_ID m) m = None"
    using assms(2) by (auto simp: manifest_ok_def manifest_shape_iff)
  obtain v where "content_at st i (sm_ID m) = Some v" "verify_payload E kindSnapshot (sm_ID m) m v = Inr data" "be_parse E data = Inr doc"
    using assms(3) by (auto simp: document_at_Some)
  then show ?thesis using readPayload_law[OF assms(1) ids, of E st]
    by (simp add: snapshot_def parseStored_def bindE_def)
qed

context builder_env
begin

lemma read_snapshot:
  assumes "be_ctx E = None" and d: "draft_at E st i = Some d" and m: "m \<in> set (dm_History d)" and doc: "document_at E st i m = Some (data, doc)"
  shows "GetSnapshot E spec_store i (sm_ID m) st = (st, Inr (m, data, doc))"
    and "Current d = Some m \<Longrightarrow> GetCurrentDocument E spec_store i st = (st, Inr (m, data, doc))"
proof -
  have get: "GetDraft E spec_store i st = (st, Inr d)" using GetDraft_Inr assms by blast
  have v: "valid_draft d" using draft_valid[OF d] by simp
  have "Snapshot (sm_ID m) d = Some m" using Snapshot_distinct[OF _ m] valid_draft_parts(4)[OF v] by (simp add: history_ok_def)
  moreover have snap: "snapshot E spec_store i m st = (st, Inr (m, data, doc))"
    using snapshot_law draft_id[OF d] manifest_in_draft[OF v m] doc by blast
  ultimately show "GetSnapshot E spec_store i (sm_ID m) st = (st, Inr (m, data, doc))"
    using get by (simp add: GetSnapshot_def)
  show "GetCurrentDocument E spec_store i st = (st, Inr (m, data, doc))" if "Current d = Some m"
    using get snap that by (simp add: GetCurrentDocument_def)
qed

end

context record_store
begin

lemma sim_snapshot: "store_simulated ok view builder_failure (snapshot E S i m) (snapshot E spec_store i m)"
  unfolding snapshot_def readPayload_def
proof (intro store_sim_bind store_sim_check store_sim_reads store_sim_basic reads_basic reads_bind)
  fix e assume "store_failure e"
  then show "builder_failure (case cause e of RecordNotExist _ _ \<Rightarrow> Corrupt kindSnapshot (sm_ID m) ''content is missing'' | _ \<Rightarrow> BStore (cause e))"
    by (auto simp: store_failure_def builder_failure_def)
qed

lemma sim_GetSnapshot: "store_simulated ok view builder_failure (GetSnapshot E S i k) (GetSnapshot E spec_store i k)"
  unfolding GetSnapshot_def by (intro sim_calls sim_snapshot)

end

subsection \<open>Histories of calls\<close>

text \<open>Environments differ from call to call in clock, identifiers and context, not in how data is read.\<close>

definition same_codec :: "'x bld_env \<Rightarrow> 'x bld_env \<Rightarrow> bool" where
  "same_codec E F \<longleftrightarrow> be_parse E = be_parse F \<and> be_sha256 E = be_sha256 F \<and> be_inflate E = be_inflate F \<and> be_meta_dec E = be_meta_dec F"

lemma same_codec_reads:
  assumes "same_codec E F"
  shows "draft_at E = draft_at F" and "document_at E = document_at F" and "drafts_whole E = drafts_whole F"
proof -
  have decode: "decodeDraft E = decodeDraft F" using assms by (simp add: same_codec_def decodeDraft_def fun_eq_iff)
  show at: "draft_at E = draft_at F" unfolding draft_at_def decode by (rule refl)
  have eq: "be_parse E = be_parse F" "be_sha256 E = be_sha256 F" "be_inflate E = be_inflate F"
    using assms by (simp_all add: same_codec_def)
  have read: "read_document E = read_document F"
    unfolding read_document_def verify_payload_def decompress_def digestOf_def eq by (rule refl)
  show doc: "document_at E = document_at F" unfolding document_at_def read by (rule refl)
  show "drafts_whole E = drafts_whole F" unfolding drafts_whole_def at doc by (rule refl)
qed

text \<open>The stores that calls of the service lead to from one that is whole, as one without drafts is.\<close>

inductive draft_history ::
  "'s rec_store \<Rightarrow> ('s \<Rightarrow> bool) \<Rightarrow> ('s \<Rightarrow> rstore) \<Rightarrow> 'x bld_env \<Rightarrow> ('x Document \<Rightarrow> bool) \<Rightarrow> 's \<Rightarrow> bool"
  for S ok view E valid_doc where
  whole_start: "ok s \<Longrightarrow> drafts_whole E (view s) \<Longrightarrow> draft_history S ok view E valid_doc s"
| draft_step: "draft_history S ok view E valid_doc s \<Longrightarrow> builder_env F valid_doc \<Longrightarrow> same_codec E F \<Longrightarrow> call_fresh F (view s) c \<Longrightarrow>
    run_call F S c s = (s', r) \<Longrightarrow> draft_history S ok view E valid_doc s'"

lemma no_drafts_whole: "(\<And>k. rs_contents st (NamespaceDrafts, k) = None) \<Longrightarrow> drafts_whole E st"
  by (simp add: drafts_whole_def draft_at_def)

context record_store
begin

lemma call_keeps:
  assumes fits: "\<And>v. int (length v) \<le> MaxCompressedBytes \<Longrightarrow> fits v" and env: "builder_env F valid_doc" and ok: "ok s"
    and whole: "drafts_whole F (view s)" and fresh: "call_fresh F (view s) c" and run: "run_call F S c s = (s', r)"
  shows "ok s' \<and> drafts_whole F (view s')"
proof -
  have "ok s'" and alt: "run_call F spec_store c (view s) = (view s', r) \<or> view s' = view s"
    using call_simulated[OF fits, of F c] ok run by (auto simp: store_simulated_def split: prod.splits)
  then show ?thesis using builder_env.call_keeps_whole[OF env whole _ fresh] whole by metis
qed

lemma history_whole:
  assumes fits: "\<And>v. int (length v) \<le> MaxCompressedBytes \<Longrightarrow> fits v"
    and "draft_history S ok view E valid_doc s"
  shows "ok s \<and> drafts_whole E (view s)"
  using assms(2)
proof (induction rule: draft_history.induct)
  case (draft_step s F c s' r)
  then show ?case using call_keeps[OF fits, of F valid_doc s c s' r] same_codec_reads(3) by metis
qed simp

lemma snapshot_readable:
  assumes env: "builder_env E valid_doc" and "ok s" and whole: "drafts_whole E (view s)" and ctx: "be_ctx E = None"
    and d: "draft_at E (view s) i = Some d" and m: "m \<in> set (dm_History d)"
  shows "\<exists>r. GetSnapshot E S i (sm_ID m) s = (s, r) \<and> ((\<exists>data doc. r = Inr (m, data, doc)) \<or> (\<exists>e. r = Inl e \<and> builder_failure e))"
proof -
  obtain data doc where "document_at E (view s) i m = Some (data, doc)" using whole d m by (fastforce simp: drafts_whole_def)
  then have spec: "GetSnapshot E spec_store i (sm_ID m) (view s) = (view s, Inr (m, data, doc))"
    using builder_env.read_snapshot(1)[OF env ctx d m] by blast
  obtain r where r: "GetSnapshot E S i (sm_ID m) s = (s, r)"
  proof -
    have "only_reads (snapshot E S i x)" for x by (simp add: snapshot_def readPayload_def)
    then have "only_reads (GetSnapshot E S i (sm_ID m))" unfolding GetSnapshot_def
      by (intro reads_bind GetDraft_reads) (simp split: option.split)
    then show thesis using that by (metis only_reads_def prod.collapse)
  qed
  have "GetSnapshot E spec_store i (sm_ID m) (view s) = (view s, r) \<or> (\<exists>e. r = Inl e \<and> builder_failure e)"
    using sim_GetSnapshot[of E i "sm_ID m"] assms(2) r by (auto simp: store_simulated_def split: prod.splits)
  then show ?thesis using spec r by auto
qed

end

subsection \<open>Revisions name drafts\<close>

text \<open>A record with a revision that was given out before a run was there before it, as it is now.\<close>

lemma spec_step_old:
  assumes "tx_step spec_ops op st = (st', out)" and "rs_revision st \<noteq> - 1"
    and "rs_contents st' (ns, k) = Some s" and "s_revision s \<le> rs_revision st"
  shows "rs_contents st (ns, k) = Some s"
  using assms(1,3,4) word_less_next[OF assms(2), of "rs_revision st"]
  by (cases op) (auto simp: spec_defs split: option.splits if_splits)

lemma spec_run_old:
  assumes "tx_run spec_ops ops st = (st', outs)" and "unat (rs_revision st) + length ops < 2 ^ 64"
    and "rs_contents st' (ns, k) = Some s" and "s_revision s \<le> rs_revision st"
  shows "rs_contents st (ns, k) = Some s"
  using assms(1,2,4)
proof (induction ops arbitrary: st outs)
  case Nil
  then show ?case using assms(3) by simp
next
  case (Cons op ops)
  obtain st1 out where step: "tx_step spec_ops op st = (st1, out)" by fastforce
  then obtain outs' where run: "tx_run spec_ops ops st1 = (st', outs')"
    using Cons.prems(1) by (cases "tx_run spec_ops ops st1") auto
  have room: "rs_revision st \<noteq> - 1" by (rule not_last_word) (use Cons.prems(2) in simp)
  have "unat (rs_revision st1) \<le> unat (rs_revision st) + 1" "rs_revision st \<le> rs_revision st1"
    using spec_step_revision[OF step] unat_next[OF room] by (auto simp: word_le_nat_alt)
  then have "rs_contents st1 (ns, k) = Some s"
    using Cons.IH[OF run] Cons.prems(2,3) by (auto intro: order.trans)
  then show ?case using spec_step_old[OF step room] Cons.prems(3) by blast
qed

text \<open>The draft a call changes, and the revision its caller has read.\<close>

fun call_expects :: "draft_call \<Rightarrow> (string \<times> int64) option" where
  "call_expects (CallCreate req) = None"
| "call_expects (CallAppend req) = Some (ar_DraftID req, ar_ExpectedRevision req)"
| "call_expects (CallMove req) = Some (mr_DraftID req, mr_ExpectedRevision req)"
| "call_expects (CallDeleteSnapshot req) = Some (dr_DraftID req, dr_ExpectedRevision req)"
| "call_expects (CallPublish req) = Some (pr_DraftID req, pr_ExpectedRevision req)"
| "call_expects (CallDelete i actor e) = Some (i, e)"

lemma draft_found: "draft_at E st i = Some d \<Longrightarrow> r = AnyRevision \<or> r = dm_Revision d \<Longrightarrow>
    \<exists>s. rs_contents st (NamespaceDrafts, i) = Some s \<and> (r = AnyRevision \<or> r = s_revision s)"
  using draft_record by metis

context builder_env
begin

lemma call_at_revision:
  assumes run: "run_call E spec_store c st = (st', Inr x)" and c: "call_expects c = Some (i, e)"
  shows "st' = st \<or> (\<exists>s. rs_contents st (NamespaceDrafts, i) = Some s \<and> (e = AnyRevision \<or> e = s_revision s))"
proof (cases c)
  case (CallAppend req)
  then obtain d' where "AppendSnapshot E spec_store req st = (st', Inr d')" using run by (auto simp: bindE_Inr)
  then obtain d where "draft_at E st (ar_DraftID req) = Some d" "ar_ExpectedRevision req = AnyRevision \<or> ar_ExpectedRevision req = dm_Revision d"
    using AppendSnapshot_steps[of E req st st' d'] by blast
  from draft_found[OF this] show ?thesis using c CallAppend by simp
next
  case (CallMove req)
  then obtain d' where "MoveCursor E spec_store req st = (st', Inr d')" using run by (auto simp: bindE_Inr)
  then obtain d where "draft_at E st (mr_DraftID req) = Some d" "mr_ExpectedRevision req = AnyRevision \<or> mr_ExpectedRevision req = dm_Revision d"
    using MoveCursor_law by blast
  from draft_found[OF this] show ?thesis using c CallMove by simp
next
  case (CallDeleteSnapshot req)
  then obtain d' where "DeleteSnapshot E spec_store req st = (st', Inr d')" using run by (auto simp: bindE_Inr)
  then obtain d where "draft_at E st (dr_DraftID req) = Some d" "dr_ExpectedRevision req = AnyRevision \<or> dr_ExpectedRevision req = dm_Revision d"
    using DeleteSnapshot_law by blast
  from draft_found[OF this] show ?thesis using c CallDeleteSnapshot by simp
next
  case (CallPublish req)
  then obtain d' where "MarkPublished E spec_store req st = (st', Inr d')" using run by (auto simp: bindE_Inr)
  then obtain d where d: "draft_at E st (pr_DraftID req) = Some d"
    and "st' = st \<or> pr_ExpectedRevision req = AnyRevision \<or> pr_ExpectedRevision req = dm_Revision d"
    using MarkPublished_law by blast
  then show ?thesis using draft_found[OF d] c CallPublish by auto
next
  case (CallDelete j actor f)
  then obtain u where "DeleteDraft E spec_store j actor f st = (st', Inr u)" using run by (auto simp: bindE_Inr)
  then have "\<exists>s. rs_contents st (NamespaceDrafts, j) = Some s \<and> (f = AnyRevision \<or> f = s_revision s)" unfolding DeleteDraft_law by blast
  then show ?thesis using c CallDelete by auto
qed (use c in simp)

end

lemma bolt_fits_small: "int (length v) \<le> MaxCompressedBytes \<Longrightarrow> bolt_fits v"
  by (simp add: bolt_fits_def boltRecordHeaderSize_def MaxCompressedBytes_def MaxDocumentBytes_def)

end
