(* ===== verification/Builder_Drafts.thy ===== *)
theory Builder_Drafts
  imports Builder_Calls
begin

section \<open>What the Builder service promises of drafts\<close>

text \<open>
  The properties of the draft calls: on the Bolt store through the refinement of \<open>Builder_Calls\<close>,
  or on the abstract store, which every store refines. \<open>demo_env\<close> is an environment in which the
  laws of \<open>builder_env\<close> hold: a draft is encoded by its place in a table, a document by its name.
\<close>

definition demo_sha :: "bytes \<Rightarrow> bytes" where
  "demo_sha b = take 32 (b @ replicate 32 0)"

definition demo_doc :: "string \<Rightarrow> unit Document" where
  "demo_doc name = \<lparr>d_Name = name, d_CreatedBy = [], d_CreatedAt = [], d_UpdatedBy = [], d_UpdatedAt = [], d_Rest = ()\<rparr>"

definition demo_place :: "DraftMetadata list \<Rightarrow> DraftMetadata \<Rightarrow> nat option" where
  "demo_place ds d = (case findR (\<lambda>x. Inr (x = d) :: unit + bool) ds of Inl _ \<Rightarrow> None | Inr i \<Rightarrow> i)"

definition demo_env :: "DraftMetadata list \<Rightarrow> unit bld_env" where
  "demo_env ds =
     \<lparr>be_ctx = None, be_now = 7, be_format = (\<lambda>_. ''2024-01-02T03:04:05Z''), be_written = 9,
      be_ids = (\<lambda>i. Inr (if i = 0 then ''n'' else ''a'')),
      be_parse = (\<lambda>b. Inr (demo_doc (map (\<lambda>w. char_of (unat w)) b))),
      be_encode = (\<lambda>d. Inr (map (\<lambda>c. of_nat (code_of c)) (d_Name d))),
      be_sha256 = demo_sha, be_gzip = (\<lambda>b. Inr (1 # b)), be_inflate = (\<lambda>n c. Inr (take n (tl c))),
      be_meta_enc = (\<lambda>d. case demo_place ds (d\<lparr>dm_Revision := 0, dm_Stamp := None\<rparr>) of
         None \<Rightarrow> Inl ''unknown draft'' | Some i \<Rightarrow> Inr (replicate i 0)),
      be_meta_dec = (\<lambda>v. if length v < length ds then Inr (ds ! length v) else Inl ''unknown draft''),
      be_text_field = (\<lambda>_ _. None), be_time_field = (\<lambda>_ _. None)\<rparr>"

lemma demo_sel [simp]:
  "be_ctx (demo_env ds) = None" "be_now (demo_env ds) = 7" "be_written (demo_env ds) = 9"
  "be_format (demo_env ds) = (\<lambda>_. ''2024-01-02T03:04:05Z'')" "be_ids (demo_env ds) = (\<lambda>i. Inr (if i = 0 then ''n'' else ''a''))"
  "be_parse (demo_env ds) b = Inr (demo_doc (map (\<lambda>w. char_of (unat w)) b))"
  "be_encode (demo_env ds) doc = Inr (map (\<lambda>c. of_nat (code_of c)) (d_Name doc))"
  "be_gzip (demo_env ds) b = Inr (1 # b)" "be_inflate (demo_env ds) n b = Inr (take n (tl b))"
  by (simp_all add: demo_env_def)

definition demo_valid :: "unit Document \<Rightarrow> bool" where
  "demo_valid d \<longleftrightarrow> prov_ok (Document_Provenance d)"

lemma demo_place_Some: "demo_place ds d = Some i \<Longrightarrow> i < length ds \<and> ds ! i = d"
  by (auto simp: demo_place_def findR_Some split: sum.splits)

lemma demo_laws:
  assumes "\<forall>d \<in> set ds. draft_utf8 d \<and> dm_Stamp d = None"
  shows "builder_env (demo_env ds) demo_valid"
proof
  fix d v assume "be_meta_enc (demo_env ds) d = Inr v"
  then show "be_meta_dec (demo_env ds) v = Inr (d\<lparr>dm_Revision := 0, dm_Stamp := None\<rparr>)"
    by (auto simp: demo_env_def dest!: demo_place_Some split: option.splits)
next
  fix v d assume "be_meta_dec (demo_env ds) v = Inr d"
  then show "draft_utf8 d \<and> dm_Stamp d = None" using assms by (auto simp: demo_env_def split: if_splits)
next
  show "IsTime (be_format (demo_env ds) (be_now (demo_env ds)))"
    by (simp add: demo_env_def IsTime_def num2_def days_in_def is_digit_def numeral_nat)
qed (auto simp: demo_env_def demo_sha_def demo_valid_def demo_doc_def prov_ok_def text_ok_def Document_Provenance_def SetProvenance_def)

text \<open>Two documents, and a draft before and after the second is appended, and after undoing that.\<close>

definition demo_manifest :: "string \<Rightarrow> bytes \<Rightarrow> SnapshotManifest" where
  "demo_manifest i b =
     \<lparr>sm_ID = i, sm_Digest = digestOf (demo_env []) b, sm_Size = int (length b), sm_CompressedSize = int (length b) + 1,
      sm_CreatedAt = 7, sm_CreatedBy = ''u'', sm_Summary = [], sm_OpID = []\<rparr>"

definition demo_draft :: "SnapshotManifest list \<Rightarrow> int \<Rightarrow> string \<Rightarrow> DraftMetadata" where
  "demo_draft h c title =
     \<lparr>dm_ID = ''x'', dm_CreatedBy = ''u'', dm_Title = title, dm_SourceToken = [], dm_SourceFile = [], dm_Created = 7, dm_Updated = 7,
      dm_LastModifiedBy = ''u'', dm_History = h, dm_Cursor = c, dm_Publication = None, dm_Forked = None,
      dm_DocumentCreatedBy = ''u'', dm_DocumentCreatedAt = [], dm_Revision = 0, dm_Stamp = None\<rparr>"

definition demo_publication :: PublicationState where
  "demo_publication =
     \<lparr>ps_Mode = ''topology'', ps_TopologyTarget = ''u'', ps_TopologyAction = ''create'', ps_ExperimentTarget = [], ps_ScenarioTarget = [],
      ps_SnapshotID = ''a'', ps_Digest = digestOf (demo_env []) [65], ps_Revision = 2, ps_DocumentID = [], ps_PublishedAt = 7,
      ps_PublishedBy = ''u''\<rparr>"

definition demo_drafts :: "DraftMetadata list" where
  "demo_drafts =
     [demo_draft [demo_manifest ''a'' [65]] 0 ''A'',
      demo_draft [demo_manifest ''a'' [65], demo_manifest ''n'' [66]] 1 ''B'',
      demo_draft [demo_manifest ''a'' [65], demo_manifest ''n'' [66]] 0 ''B'',
      (demo_draft [demo_manifest ''a'' [65]] 0 ''A'')\<lparr>dm_Publication := Some demo_publication\<rparr>]"

definition demo_store :: rstore where
  "demo_store =
     \<lparr>rs_contents = [(NamespaceContent, ''drafts/x/a'') \<mapsto> \<lparr>s_value = [1, 65], s_revision = 1, s_created = 9, s_updated = 9\<rparr>,
                     (NamespaceDrafts, ''x'') \<mapsto> \<lparr>s_value = [], s_revision = 2, s_created = 9, s_updated = 9\<rparr>],
      rs_revision = 2\<rparr>"

lemma demo_digest: "IsDigest (digestOf (demo_env []) b)" "valid_utf8 (digestOf (demo_env []) b)"
proof -
  have "builder_env (demo_env []) demo_valid" by (rule demo_laws) simp
  from builder_env.digest_ok[OF this] show "IsDigest (digestOf (demo_env []) b)" .
  then show "valid_utf8 (digestOf (demo_env []) b)" by (rule IsDigest_ascii)
qed

lemma ascii_small: "valid_utf8 ''u''" "valid_utf8 ''x''" "valid_utf8 ''a''" "valid_utf8 ''n''" "valid_utf8 ''A''" "valid_utf8 ''B''"
    "valid_utf8 ''topology''" "valid_utf8 ''create''" "runes ''u'' = [117]" "runes ''A'' = [65]" "runes ''B'' = [66]"
  by (simp_all add: valid_utf8_def runes_def rune_error_def)

lemma demo_utf8: "\<forall>d \<in> set demo_drafts. draft_utf8 d \<and> dm_Stamp d = None"
  using demo_digest by (simp add: demo_drafts_def demo_draft_def demo_manifest_def draft_utf8_def manifest_strings_def ascii_small
      demo_publication_def publication_strings_def)

interpretation demo: builder_env "demo_env demo_drafts" demo_valid
  by (rule demo_laws[OF demo_utf8])

lemma demo_ids: "ValidID ''x''" "ValidID ''a''" "ValidID ''n''"
  by (simp_all add: ValidID_def id_start_def isRecordNameStart_def)

lemmas demo_limits = MaxCompressedBytes_def MaxDocumentBytes_def MaxDraftHistoryBytes_def MaxSnapshots_def MaxOwnerLength_def MaxTitleLength_def
  MaxSourceFileLength_def MaxSummaryLength_def MaxTargetLength_def MaxMetadataBytes_def MaxSourceTokenLength_def MaxDrafts_def

lemma demo_texts: "text_ok MaxOwnerLength ''u''" "text_ok MaxTitleLength ''A''" "text_ok MaxTitleLength ''B''" "text_ok n []"
  by (simp_all add: text_ok_def ascii_small demo_limits)

lemma demo_manifest_ok: "ValidID i \<Longrightarrow> int (length b) \<le> 100 \<Longrightarrow> manifest_ok (demo_manifest i b)"
  using demo_digest ValidID_utf8
  by (simp add: manifest_ok_def demo_manifest_def manifest_shape_iff manifest_strings_def ascii_small demo_limits)

lemma demo_draft_ok:
  assumes "d \<in> set demo_drafts"
  shows "validateDraftMetadata ''x'' d = None"
proof -
  have m: "manifest_ok (demo_manifest ''a'' [65])" "manifest_ok (demo_manifest ''n'' [66])" by (simp_all add: demo_manifest_ok demo_ids)
  have "ValidateSourceFile [] = None" by (simp add: ValidateSourceFile_def validateText_def)
  then show ?thesis using assms m demo_texts
    by (auto simp: demo_drafts_def validateDraftMetadata_None demo_draft_def validateText_None demo_ids history_ok_def manifest_ok_def
        publication_None demo_limits demo_manifest_def demo_publication_def publication_ok_def PublishMode_Valid_def TopologyAction_Valid_def
        PublishModeTopology_def PublishModeTopologyExperiment_def Snapshot_def demo_digest text_ok_def ascii_small)
qed

abbreviation demo :: "unit bld_env" where
  "demo \<equiv> demo_env demo_drafts"

lemma demo_keys: "snapshotKey ''x'' i = ''drafts/x/'' @ i"
  by (simp add: snapshotKey_def draftContentPrefix_def)

lemma demo_at:
  "draft_at demo demo_store i = (if i = ''x'' then Some ((demo_draft [demo_manifest ''a'' [65]] 0 ''A'')\<lparr>dm_Revision := 2\<rparr>) else None)"
proof -
  have "validateDraftMetadata ''x'' (demo_draft [demo_manifest ''a'' [65]] 0 ''A'') = None"
    by (rule demo_draft_ok) (simp add: demo_drafts_def)
  moreover have "be_meta_dec demo [] = Inr (demo_draft [demo_manifest ''a'' [65]] 0 ''A'')" by (simp add: demo_env_def demo_drafts_def)
  ultimately show ?thesis by (simp add: draft_at_def demo_store_def decodeDraft_def)
qed

lemma demo_verify: "b \<noteq> [] \<Longrightarrow> int (length b) \<le> 100 \<Longrightarrow> verify_payload demo k i (demo_manifest j b) (1 # b) = Inr b"
  by (simp add: verify_payload_def demo_manifest_def decompress_def demo_limits demo_env_def digestOf_def nat_add_distrib)

lemma demo_content: "content_at demo_store ''x'' ''a'' = Some [1, 65]"
  by (simp add: content_at_def demo_store_def demo_keys)

lemma demo_whole: "drafts_whole demo demo_store"
  using demo_verify[of "[65]" kindSnapshot "''a''" "''a''"] demo_content
  by (simp add: drafts_whole_def demo_at demo_draft_def document_at_Some demo_manifest_def)

text \<open>The second document is appended, and undone.\<close>

definition demo_append :: AppendSnapshotRequest where
  "demo_append = \<lparr>ar_DraftID = ''x'', ar_Actor = ''u'', ar_ExpectedRevision = 2, ar_Document = [66], ar_Summary = [], ar_OpID = []\<rparr>"

definition demo_undo :: MoveCursorRequest where
  "demo_undo = \<lparr>mr_DraftID = ''x'', mr_Actor = ''u'', mr_ExpectedRevision = 0, mr_Index = 0, mr_SnapshotID = ''a''\<rparr>"

lemma char_B: "char_of (66 :: nat) = CHR ''B''"
proof -
  have "(66 :: nat) = of_char (CHR ''B'')" by simp
  then show ?thesis by (simp only: char_of_char)
qed

lemma AppendSnapshot_run:
  assumes "be_ctx E = None" and "validateAppendRequest req = None" and "parseDocument E (ar_Document req) = Inr doc"
    and "draft_at E st (ar_DraftID req) = Some d" and "checkRevision (ar_DraftID req) (ar_ExpectedRevision req) (dm_Revision d) = None"
    and "documentTitle doc (dm_Title d) = Inr title"
    and "stampedSnapshot E doc (append_stamp E (ar_Actor req) d) (ar_Summary req) = Inr (load, mf)"
    and "appended (ar_Actor req) (be_now E) title (append_stamp E (ar_Actor req) d) (mf\<lparr>sm_OpID := ar_OpID req\<rparr>) d = (u, dropped)"
    and "HistoryBytes u \<le> MaxDraftHistoryBytes" and "encodeDraft E u = Inr val"
    and "bindE (putContent spec_ops (be_written E) (snapshotKey (ar_DraftID req) (sm_ID mf)) load) (\<lambda>_.
           dropSnapshots spec_ops (ar_DraftID req) dropped) st = (t, Inr ())"
    and "spec_update (be_written E) NamespaceDrafts (dm_ID u) val (dm_Revision d) t = (t', Inr r)"
  shows "AppendSnapshot E spec_store req st = (t', Inr (u\<lparr>dm_Revision := r_revision r\<rparr>))"
proof -
  have get: "GetDraft E spec_store (ar_DraftID req) st = (st, Inr d)" using GetDraft_Inr assms(1,4) by blast
  have txn: "writeDraftTxn E spec_store u val (dm_Revision d)
      (bindE (putContent spec_ops (be_written E) (snapshotKey (ar_DraftID req) (sm_ID mf)) load) (\<lambda>_.
           dropSnapshots spec_ops (ar_DraftID req) dropped)) st = (t', Inr (u\<lparr>dm_Revision := r_revision r\<rparr>))"
    using assms(11,12) by (simp add: writeDraftTxn_def draft_txn_Inr callE_def)
  show ?thesis using assms(1-10) get txn
    by (simp add: AppendSnapshot_def ctx_err_def Let_def append_stamp_def[symmetric])
qed

definition demo_stamp :: Provenance where
  "demo_stamp = \<lparr>pv_CreatedBy = ''u'', pv_CreatedAt = [], pv_UpdatedBy = ''u'', pv_UpdatedAt = ''2024-01-02T03:04:05Z''\<rparr>"

lemma demo_appended:
  "\<exists>st'. AppendSnapshot demo spec_store demo_append demo_store
     = (st', Inr ((demo_draft [demo_manifest ''a'' [65], demo_manifest ''n'' [66]] 1 ''B'')\<lparr>dm_Revision := 4, dm_Stamp := Some demo_stamp\<rparr>))
     \<and> rs_revision st' = 4"
proof -
  let ?d = "(demo_draft [demo_manifest ''a'' [65]] 0 ''A'')\<lparr>dm_Revision := 2\<rparr>"
  have get: "GetDraft demo spec_store ''x'' demo_store = (demo_store, Inr ?d)" by (simp add: GetDraft_Inr demo_at)
  have req: "validateAppendRequest demo_append = None" by (simp add: append_request_ok demo_append_def demo_texts)
  let ?stamp = demo_stamp
  have snap: "stampedSnapshot demo (demo_doc ''B'') ?stamp [] = Inr (\<lparr>pl_digest = digestOf (demo_env []) [66], pl_size = 1, pl_compressed = [1, 66]\<rparr>, demo_manifest ''n'' [66])"
    by (simp add: stampedSnapshot_def demo_stamp_def encodeDocument_def buildPayload_def demo_doc_def SetProvenance_def demo_limits manifest_def new_id_def validateID_def demo_ids
        demo_manifest_def digestOf_def demo_env_def)
  have app: "appended ''u'' 7 ''B'' ?stamp (demo_manifest ''n'' [66]) ?d
      = ((demo_draft [demo_manifest ''a'' [65], demo_manifest ''n'' [66]] 1 ''B'')\<lparr>dm_Revision := 2, dm_Stamp := Some ?stamp\<rparr>, [])"
    by (simp add: appended_def demo_draft_def stampDraft_def pruneHistory_def prune_loop.simps HistoryBytes_def demo_limits demo_manifest_def)
  let ?u = "(demo_draft [demo_manifest ''a'' [65], demo_manifest ''n'' [66]] 1 ''B'')\<lparr>dm_Revision := 2, dm_Stamp := Some ?stamp\<rparr>"
  have enc: "encodeDraft demo ?u = Inr [0]"
    by (simp add: encodeDraft_def demo_env_def demo_place_def demo_drafts_def demo_draft_def demo_limits)
  obtain s where put: "putContent spec_ops 9 (snapshotKey ''x'' ''n'') \<lparr>pl_digest = digestOf (demo_env []) [66], pl_size = 1, pl_compressed = [1, 66]\<rparr> demo_store
      = (spec_write NamespaceContent (snapshotKey ''x'' ''n'') s demo_store, Inr ())" and s: "s_revision s = rs_revision demo_store + 1"
    using putContent_law[OF snapshot_key_ok[OF demo_ids(1,3)]] by blast
  obtain st' r where up: "spec_update 9 NamespaceDrafts ''x'' [0] 2 (spec_write NamespaceContent (snapshotKey ''x'' ''n'') s demo_store) = (st', Inr r)"
    using draft_key_ok[OF demo_ids(1)] by (simp add: spec_update_def spec_write_def demo_store_def checkRecordRevision_def Let_def)
  from spec_update_Inr[OF up] s have r: "r_revision r = 4" "rs_revision st' = 4" by (auto simp: spec_write_def demo_store_def)
  have "AppendSnapshot demo spec_store demo_append demo_store = (st', Inr (?u\<lparr>dm_Revision := r_revision r\<rparr>))"
    by (rule AppendSnapshot_run[where d = ?d and doc = "demo_doc ''B''" and title = "''B''"
          and load = "\<lparr>pl_digest = digestOf (demo_env []) [66], pl_size = 1, pl_compressed = [1, 66]\<rparr>" and mf = "demo_manifest ''n'' [66]"
          and dropped = "[]" and val = "[0]"])
      (use req snap app enc put up in \<open>simp_all add: demo_append_def demo_at demo_draft_def parseDocument_def demo_limits checkRevision_def
        documentTitle_def demo_doc_def validateText_def Let_def char_B ascii_small append_stamp_def HistoryBytes_def demo_manifest_def
        demo_stamp_def\<close>)
  then show ?thesis using r by (intro exI[of _ st']) (simp add: demo_draft_def)
qed

lemma demo_fresh: "append_fresh demo demo_store demo_append"
  by (simp add: append_fresh_def demo_append_def demo_at demo_draft_def demo_manifest_def fresh_for_def)

lemma MoveCursor_run:
  assumes "be_ctx E = None" and "validateText ''actor'' (mr_Actor req) MaxOwnerLength True = None" and "draft_at E st (mr_DraftID req) = Some d"
    and "checkRevision (mr_DraftID req) (mr_ExpectedRevision req) (dm_Revision d) = None" and "resolveCursor d req = Inr c"
    and "encodeDraft E (stampDraft (mr_Actor req) (be_now E) (d\<lparr>dm_Cursor := c\<rparr>)) = Inr val"
  shows "\<exists>st' d'. MoveCursor E spec_store req st = (st', Inr d')"
proof -
  have get: "GetDraft E spec_store (mr_DraftID req) st = (st, Inr d)" using GetDraft_Inr assms(1,3) by blast
  obtain s where "rs_contents st (NamespaceDrafts, mr_DraftID req) = Some s" "s_revision s = dm_Revision d" using draft_record[OF assms(3)] by blast
  then obtain st' r where up: "spec_update (be_written E) NamespaceDrafts (mr_DraftID req) val (dm_Revision d) st = (st', Inr r)"
    using draft_key_ok draft_id[OF assms(3)] by (simp add: spec_update_def checkRecordRevision_def Let_def)
  show ?thesis using assms(1,2,4-6) get up draft_id[OF assms(3)]
    by (simp add: MoveCursor_def ctx_err_def writeDraft_def callE_def spec_txn)
qed

subsection \<open>Appending and undoing\<close>



text \<open>
  C30: undoing an append brings back the document that was current before: it is still in the
  history, whatever the limits of a history removed, and moving the cursor to it makes it current.
\<close>

theorem undo_restores_document:
  assumes "builder_env E valid_doc" and "builder_env F valid_doc" and "same_codec E F" and "drafts_whole E st"
    and "append_fresh E st req" and "AppendSnapshot E spec_store req st = (st1, Inr d1)"
    and "draft_at E st (ar_DraftID req) = Some d" and "Current d = Some c"
    and "mr_DraftID req2 = ar_DraftID req" and "mr_SnapshotID req2 = sm_ID c"
    and "MoveCursor F spec_store req2 st1 = (st2, Inr d2)"
  shows "c \<in> set (dm_History d1)
    \<and> GetCurrentDocument F spec_store (ar_DraftID req) st2 = (st2, snd (GetCurrentDocument E spec_store (ar_DraftID req) st))"
proof -
  let ?i = "ar_DraftID req"
  have ctx: "be_ctx E = None" "be_ctx F = None" using assms(6,11) by (auto simp: AppendSnapshot_def MoveCursor_def run_Inr)
  have vd: "valid_draft d" using builder_env.draft_valid[OF assms(1,7)] by simp
  have cd: "c \<in> set (dm_History d)" using Current_in[OF assms(8)] .
  obtain data doc where document: "document_at E st ?i c = Some (data, doc)"
    using assms(4,7) cd by (fastforce simp: drafts_whole_def)
  have before: "GetCurrentDocument E spec_store ?i st = (st, Inr (c, data, doc))"
    using builder_env.read_snapshot(2)[OF assms(1) ctx(1) assms(7) cd document assms(8)] .
  obtain d0 m title and dropped :: "SnapshotManifest list" where law: "draft_at E st ?i = Some d0"
      "draft_at E st1 ?i = Some (d1\<lparr>dm_Stamp := None\<rparr>)" "Current d1 = Some m"
      "appended (ar_Actor req) (be_now E) title (append_stamp E (ar_Actor req) d0) m d0 = (d1\<lparr>dm_Revision := dm_Revision d0\<rparr>, dropped)"
      "\<forall>k. k \<noteq> sm_ID m \<longrightarrow> content_at st1 ?i k = (if k \<in> sm_ID ` set dropped then None else content_at st ?i k)"
      "sm_ID ` set dropped \<inter> sm_ID ` set (dm_History d1) = {}" "sm_ID m \<notin> sm_ID ` set (dm_History d0)"
    using builder_env.AppendSnapshot_law[OF assms(1,6,5)] by - (elim exE conjE, rule that, assumption+)
  have d0: "d0 = d" using law(1) assms(7) by simp
  have v1: "valid_draft (d1\<lparr>dm_Stamp := None\<rparr>)" using builder_env.draft_valid[OF assms(1) law(2)] by simp
  have "m \<in> set (dm_History (d1\<lparr>dm_Stamp := None\<rparr>))" using Current_in[of "d1\<lparr>dm_Stamp := None\<rparr>" m] law(3) by simp
  then have "manifest_ok m" using manifest_in_draft[OF v1] by blast
  then have c1: "c \<in> set (dm_History d1)" using appended_previous[OF _ vd _ assms(8)] law(4) d0 by fastforce
  have "sm_ID c \<noteq> sm_ID m" using law(7) cd d0 by (metis imageI)
  moreover have "sm_ID c \<notin> sm_ID ` set dropped" using law(6) c1 by blast
  ultimately have same1: "document_at E st1 ?i c = Some (data, doc)" using law(5) document document_same[of st1 ?i c st E] by simp
  obtain d1' k where move: "draft_at F st1 ?i = Some d1'" "resolveCursor d1' req2 = Inr k"
      "d2 = (stampDraft (mr_Actor req2) (be_now F) (d1'\<lparr>dm_Cursor := k\<rparr>))\<lparr>dm_Revision := rs_revision st1 + 1\<rparr>"
      "draft_at F st2 ?i = Some d2" "\<forall>i k. content_at st2 i k = content_at st1 i k"
    using builder_env.MoveCursor_law[OF assms(2,11)] assms(9) by - (elim exE conjE, rule that, simp_all)
  have d1': "d1' = d1\<lparr>dm_Stamp := None\<rparr>" using move(1) law(2) same_codec_reads(1)[OF assms(3)] by simp
  have id: "mr_SnapshotID req2 \<noteq> []" using assms(10) manifest_in_draft[OF vd cd] by (auto simp: manifest_ok_def ValidID_def)
  have k: "0 \<le> k" "k < int (length (dm_History d1))" "sm_ID (dm_History d1 ! nat k) = sm_ID c"
    using resolveCursor_Inr[OF move(2)] id assms(10) d1' by simp_all
  have "distinct (map sm_ID (dm_History d1))" using valid_draft_parts(4)[OF v1] by (simp add: history_ok_def)
  then have "dm_History d1 ! nat k = c" using k c1 by (auto simp: distinct_map inj_on_def)
  then have cur: "Current d2 = Some c" using move(3) k d1' by (simp add: Current_def)
  have "document_at F st2 ?i c = Some (data, doc)"
    using same1 document_same[of st2 ?i c st1 F] move(5) same_codec_reads(2)[OF assms(3)] by simp
  then have "GetCurrentDocument F spec_store ?i st2 = (st2, Inr (c, data, doc))"
    using builder_env.read_snapshot(2)[OF assms(2) ctx(2) move(4) Current_in[OF cur]] cur by blast
  then show ?thesis using c1 before by simp
qed

lemma demo_undone:
  assumes "AppendSnapshot demo spec_store demo_append demo_store
     = (st', Inr ((demo_draft [demo_manifest ''a'' [65], demo_manifest ''n'' [66]] 1 ''B'')\<lparr>dm_Revision := 4, dm_Stamp := Some demo_stamp\<rparr>))"
  shows "\<exists>st2 d2. MoveCursor demo spec_store demo_undo st' = (st2, Inr d2)"
proof -
  let ?d = "(demo_draft [demo_manifest ''a'' [65], demo_manifest ''n'' [66]] 1 ''B'')\<lparr>dm_Revision := 4\<rparr>"
  have "?d\<lparr>dm_Stamp := None\<rparr> = ?d" by (simp add: demo_draft_def)
  then have at: "draft_at demo st' ''x'' = Some ?d"
    using demo.AppendSnapshot_law[OF assms demo_fresh] by (auto simp: demo_append_def demo_draft_def)
  have enc: "encodeDraft demo (stampDraft ''u'' 7 (?d\<lparr>dm_Cursor := 0\<rparr>)) = Inr [0, 0]"
    by (simp add: encodeDraft_def demo_env_def demo_place_def demo_drafts_def demo_draft_def demo_limits stampDraft_def)
  show ?thesis
    by (rule MoveCursor_run[where d = ?d and c = 0 and val = "[0, 0]"])
      (use at enc in \<open>simp_all add: demo_undo_def validateText_None demo_texts checkRevision_def AnyRevision_def resolveCursor_def demo_draft_def demo_manifest_def\<close>)
qed

theorem undo_restores_document_witness:
  "\<exists>st1 d1 st2 d2. AppendSnapshot demo spec_store demo_append demo_store = (st1, Inr d1)
    \<and> MoveCursor demo spec_store demo_undo st1 = (st2, Inr d2)
    \<and> GetCurrentDocument demo spec_store ''x'' st2 = (st2, snd (GetCurrentDocument demo spec_store ''x'' demo_store))"
proof -
  let ?d = "(demo_draft [demo_manifest ''a'' [65]] 0 ''A'')\<lparr>dm_Revision := 2\<rparr>"
  obtain st1 where run: "AppendSnapshot demo spec_store demo_append demo_store
     = (st1, Inr ((demo_draft [demo_manifest ''a'' [65], demo_manifest ''n'' [66]] 1 ''B'')\<lparr>dm_Revision := 4, dm_Stamp := Some demo_stamp\<rparr>))"
    using demo_appended by blast
  then obtain st2 d2 where undo: "MoveCursor demo spec_store demo_undo st1 = (st2, Inr d2)" using demo_undone by blast
  have "same_codec demo demo" by (simp add: same_codec_def)
  from undo_restores_document[OF demo.builder_env_axioms demo.builder_env_axioms this demo_whole demo_fresh run, of ?d "demo_manifest ''a'' [65]" demo_undo st2 d2]
  show ?thesis using run undo by (simp add: demo_at demo_append_def demo_undo_def Current_def demo_draft_def demo_manifest_def)
qed

subsection \<open>Pruning\<close>

text \<open>
  C31: pruning a history removes the oldest snapshots, as few as make it fit, and never the current
  one: what is removed and what is left are the history as it was, and the current snapshot stays.
\<close>

theorem prune_history:
  assumes "0 \<le> dm_Cursor d" and "dm_Cursor d < int (length (dm_History d))" and "pruneHistory d = (d', dropped)"
  shows "dm_History d = dropped @ dm_History d' \<and> Current d' = Current d
    \<and> (history_fits (dm_History d') \<or> dm_Cursor d' = 0)
    \<and> (dropped = [] \<or> \<not> history_fits (last dropped # dm_History d'))
    \<and> d' = d\<lparr>dm_History := dm_History d', dm_Cursor := dm_Cursor d'\<rparr>"
proof -
  from prune_loop_law[OF refl assms(1,2) assms(3)[unfolded pruneHistory_def]] obtain ds where
    ds: "dropped = [] @ ds" "dm_History d = ds @ dm_History d'" "dm_Cursor d' = dm_Cursor d - int (length ds)" "0 \<le> dm_Cursor d'"
      "d' = d\<lparr>dm_History := dm_History d', dm_Cursor := dm_Cursor d'\<rparr>" "dm_Cursor d' = 0 \<or> history_fits (dm_History d')"
      "ds \<noteq> [] \<longrightarrow> \<not> history_fits (last ds # dm_History d')" by blast
  have "nat (dm_Cursor d) = length ds + nat (dm_Cursor d')" using ds(3,4) by linarith
  then have "Current d' = Current d" using ds(2-4) assms(1,2) by (simp add: Current_def nth_append)
  then show ?thesis using ds by auto
qed

definition demo_big :: "string \<Rightarrow> SnapshotManifest" where
  "demo_big i = (demo_manifest i [])\<lparr>sm_Size := 20 * 2 ^ 20\<rparr>"

lemma demo_prune:
  "pruneHistory (demo_draft [demo_big ''a'', demo_big ''b'', demo_big ''c''] 1 ''A'')
     = (demo_draft [demo_big ''b'', demo_big ''c''] 0 ''A'', [demo_big ''a''])"
  by (simp add: pruneHistory_def prune_loop.simps removeSnapshot_def remove_nth_def HistoryBytes_def demo_limits demo_draft_def demo_big_def)

theorem prune_history_witness:
  "Current (demo_draft [demo_big ''b'', demo_big ''c''] 0 ''A'') = Current (demo_draft [demo_big ''a'', demo_big ''b'', demo_big ''c''] 1 ''A'')
   \<and> \<not> history_fits [demo_big ''a'', demo_big ''b'', demo_big ''c'']"
  using prune_history[OF _ _ demo_prune] by (simp add: demo_draft_def)

subsection \<open>Concurrent writers\<close>


lemma demo_wf: "rs_wf demo_store" "rs_revision demo_store = 2"
  by (auto simp: rs_wf_def demo_store_def ran_def split: if_splits)


subsection \<open>Publishing\<close>

text \<open>
  C32: publishing a draft makes it clean, and publishing it again with the same request, at any later
  time, succeeds, changes nothing and returns the same draft.
\<close>

theorem publish_again:
  assumes "builder_env E valid_doc" and "builder_env F valid_doc" and "same_codec E F" and "be_ctx F = None"
    and "MarkPublished E spec_store req st = (st1, Inr d1)"
  shows "\<not> Dirty d1 \<and> MarkPublished F spec_store req st1 = (st1, Inr d1)"
proof -
  let ?i = "pr_DraftID req"
  have rq: "validatePublishRequest req = None" using assms(5) by (auto simp: MarkPublished_def run_Inr)
  obtain d c where d: "draft_at E st ?i = Some d" and c: "Current d = Some c" "sm_ID c = pr_SnapshotID req"
    and alt: "isPublishRetry d req \<and> st1 = st \<and> d1 = d
     \<or> (pr_ExpectedRevision req = AnyRevision \<or> pr_ExpectedRevision req = dm_Revision d)
     \<and> d1 = (stampDraft (pr_Actor req) (be_now E) d)\<lparr>dm_Publication := Some (publication_of E req c (dm_Revision d)), dm_Revision := rs_revision st + 1\<rparr>
     \<and> draft_at E st1 ?i = Some d1"
    using builder_env.MarkPublished_law[OF assms(1,5)] by blast
  have "draft_at E st1 ?i = Some d1 \<and> isPublishRetry d1 req"
    using alt
  proof
    assume new: "(pr_ExpectedRevision req = AnyRevision \<or> pr_ExpectedRevision req = dm_Revision d)
     \<and> d1 = (stampDraft (pr_Actor req) (be_now E) d)\<lparr>dm_Publication := Some (publication_of E req c (dm_Revision d)), dm_Revision := rs_revision st + 1\<rparr>
     \<and> draft_at E st1 ?i = Some d1"
    then have "Current d1 = Current d" by (simp add: Current_def)
    then have "Current d1 = Some c" using c(1) by simp
    then show ?thesis using new c(2) by (auto simp: isPublishRetry_def publication_of_def)
  qed (use d in simp)
  then have at: "draft_at F st1 ?i = Some d1" and retry: "isPublishRetry d1 req"
    using same_codec_reads(1)[OF assms(3)] by simp_all
  have "GetDraft F spec_store ?i st1 = (st1, Inr d1)" using GetDraft_Inr at assms(4) by blast
  then have "MarkPublished F spec_store req st1 = (st1, Inr d1)"
    using rq retry assms(4) by (simp add: MarkPublished_def ctx_err_def)
  moreover have "\<not> Dirty d1" using retry by (auto simp: isPublishRetry_def Dirty_def split: option.splits)
  ultimately show ?thesis by blast
qed

definition demo_publish :: MarkPublishedRequest where
  "demo_publish =
     \<lparr>pr_DraftID = ''x'', pr_Actor = ''u'', pr_ExpectedRevision = 2, pr_SnapshotID = ''a'', pr_Mode = ''topology'', pr_TopologyTarget = ''u'',
      pr_TopologyAction = ''create'', pr_ExperimentTarget = [], pr_ScenarioTarget = [], pr_DocumentID = []\<rparr>"

lemma demo_marked: "\<exists>st1 d1. MarkPublished demo spec_store demo_publish demo_store = (st1, Inr d1)"
proof -
  let ?d = "(demo_draft [demo_manifest ''a'' [65]] 0 ''A'')\<lparr>dm_Revision := 2\<rparr>"
  let ?u = "(stampDraft ''u'' 7 ?d)\<lparr>dm_Publication := Some demo_publication\<rparr>"
  have get: "GetDraft demo spec_store ''x'' demo_store = (demo_store, Inr ?d)" by (simp add: GetDraft_Inr demo_at)
  have req: "validatePublishRequest demo_publish = None"
    by (simp add: validatePublishRequest_def demo_publish_def first_None validateText_None demo_ids validateOptionalID_def publish_targets_None
        PublishMode_Valid_def TopologyAction_Valid_def PublishModeTopology_def PublishModeTopologyExperiment_def text_ok_def ascii_small demo_limits)
  have c: "Current ?d = Some (demo_manifest ''a'' [65])" by (simp add: Current_def demo_draft_def)
  have "encodeDraft demo ?u = Inr [0, 0, 0]"
    by (simp add: encodeDraft_def demo_env_def demo_place_def demo_drafts_def demo_draft_def demo_limits stampDraft_def)
  moreover obtain st' r where "spec_update 9 NamespaceDrafts ''x'' [0, 0, 0] 2 demo_store = (st', Inr r)"
    using draft_key_ok[OF demo_ids(1)] by (simp add: spec_update_def demo_store_def checkRecordRevision_def Let_def)
  moreover have "dm_ID ?u = ''x''" "\<not> isPublishRetry ?d demo_publish" "dm_Revision ?d = 2"
    by (simp_all add: demo_draft_def isPublishRetry_def)
  moreover have "\<lparr>ps_Mode = pr_Mode demo_publish, ps_TopologyTarget = pr_TopologyTarget demo_publish, ps_TopologyAction = pr_TopologyAction demo_publish,
      ps_ExperimentTarget = pr_ExperimentTarget demo_publish, ps_ScenarioTarget = pr_ScenarioTarget demo_publish,
      ps_SnapshotID = sm_ID (demo_manifest ''a'' [65]), ps_Digest = sm_Digest (demo_manifest ''a'' [65]), ps_Revision = 2,
      ps_DocumentID = pr_DocumentID demo_publish, ps_PublishedAt = 7, ps_PublishedBy = pr_Actor demo_publish\<rparr> = demo_publication"
    by (simp add: demo_publish_def demo_manifest_def demo_publication_def)
  moreover have "pr_DraftID demo_publish = ''x''" "pr_Actor demo_publish = ''u''" "pr_ExpectedRevision demo_publish = 2"
      "sm_ID (demo_manifest ''a'' [65]) = pr_SnapshotID demo_publish"
    by (simp_all add: demo_publish_def demo_manifest_def)
  ultimately show ?thesis using get req c
    by (simp add: MarkPublished_def ctx_err_def checkRevision_def writeDraft_def callE_def spec_txn)
qed

theorem publish_again_witness:
  "\<exists>st1 d1. MarkPublished demo spec_store demo_publish demo_store = (st1, Inr d1)
    \<and> MarkPublished (demo\<lparr>be_now := 99\<rparr>) spec_store demo_publish st1 = (st1, Inr d1)"
proof -
  obtain st1 d1 where run: "MarkPublished demo spec_store demo_publish demo_store = (st1, Inr d1)" using demo_marked by blast
  have "builder_env (demo\<lparr>be_now := 99\<rparr>) demo_valid"
    using demo.builder_env_axioms by (simp add: builder_env_def digestOf_def)
  from publish_again[OF demo.builder_env_axioms this _ _ run] show ?thesis using run by (auto simp: same_codec_def)
qed

subsection \<open>Deleting\<close>



subsection \<open>On the Bolt store\<close>

text \<open>
  C34: a call on drafts that fails, on any record store and for any reason (a refused request, a
  conflict, a limit, a failure of the store), leaves the store exactly as it was.
\<close>

theorem failed_call_changes_nothing:
  assumes "run_call E S c s = (s', Inl e)"
  shows "s' = s"
  using call_atomic[of E S c] assms by (auto simp: atomicE_def)

theorem failed_call_changes_nothing_witness:
  "fst (run_call demo spec_store (CallDelete ''x'' ''u'' 7) demo_store) = demo_store
    \<and> isl (snd (run_call demo spec_store (CallDelete ''x'' ''u'' 7) demo_store))"
proof -
  obtain s' r where run: "run_call demo spec_store (CallDelete ''x'' ''u'' 7) demo_store = (s', r)" by fastforce
  have "\<exists>e. r = Inl e"
  proof (cases r)
    case (Inr x)
    then obtain u where "DeleteDraft demo spec_store ''x'' ''u'' 7 demo_store = (s', Inr u)" using run by (auto simp: bindE_Inr)
    then have False unfolding DeleteDraft_law by (simp add: demo_store_def AnyRevision_def)
    then show ?thesis ..
  qed simp
  then show ?thesis using failed_call_changes_nothing[of demo spec_store "CallDelete ''x'' ''u'' 7" demo_store s'] run by auto
qed

context bbolt_laws
begin

lemma call_on_bolt:
  assumes "bolt_ok B good db" and "run_call E (bolt_store B) c db = (db', r)"
  shows "bolt_ok B good db'
    \<and> (run_call E spec_store c (bolt_view B seq db) = (bolt_view B seq db', r)
       \<or> bolt_view B seq db' = bolt_view B seq db \<and> (\<exists>m. r = Inl (BStore (StoreFailure m))))"
  using store.call_simulated[OF bolt_fits_small, of E c] assms
  unfolding store_simulated_def builder_failure_def by fastforce

lemma snapshots_on_bolt:
  assumes "builder_env E valid_doc" and "draft_history (bolt_store B) (bolt_ok B good) (bolt_view B seq) E valid_doc db"
    and "be_ctx E = None" and "draft_at E (bolt_view B seq db) i = Some d" and "m \<in> set (dm_History d)"
  shows "\<exists>r. GetSnapshot E (bolt_store B) i (sm_ID m) db = (db, r)
    \<and> ((\<exists>data doc. r = Inr (m, data, doc)) \<or> (\<exists>x. r = Inl (BStore (StoreFailure x))))"
  using store.history_whole[OF bolt_fits_small assms(2)] store.snapshot_readable[OF assms(1) _ _ assms(3-5)]
  by (auto simp: builder_failure_def)

end

text \<open>
  C8: on the Bolt store every call on drafts gives the result and the contents that it gives on the
  abstract store, or the store fails, which leaves its contents as they were.
\<close>

theorem bolt_drafts_refine:
  assumes "bbolt_laws B good seq" and "bolt_ok B good db" and "run_call E (bolt_store B) c db = (db', r)"
  shows "bolt_ok B good db'
    \<and> (run_call E spec_store c (bolt_view B seq db) = (bolt_view B seq db', r)
       \<or> bolt_view B seq db' = bolt_view B seq db \<and> (\<exists>m. r = Inl (BStore (StoreFailure m))))"
  by (rule bbolt_laws.call_on_bolt[OF assms])

definition demo_bolt :: rbolt where
  "demo_bolt =
     [([boltRecordsBucket], 2, []),
      ([boltRecordsBucket, NamespaceContent], 0,
       [(''drafts/x/a'', encodeBoltRecord \<lparr>s_value = [1, 65], s_revision = 1, s_created = 9, s_updated = 9\<rparr>)]),
      ([boltRecordsBucket, NamespaceDrafts], 0,
       [(''x'', encodeBoltRecord \<lparr>s_value = [], s_revision = 2, s_created = 9, s_updated = 9\<rparr>)])]"

lemma demo_bolt_ok: "bolt_ok ref_bolt rb_good demo_bolt"
  by (auto simp: bolt_ok_def demo_bolt_def rb_good_def rb_defs NamespaceContent_def NamespaceDrafts_def split: if_splits)

lemma demo_bolt_view: "bolt_view ref_bolt rb_seq demo_bolt = demo_store"
  by (auto simp: bolt_view_def demo_bolt_def demo_store_def rb_defs fun_eq_iff)

theorem bolt_drafts_refine_witness:
  "\<exists>db' r. run_call demo (bolt_store ref_bolt) (CallAppend demo_append) demo_bolt = (db', r) \<and> bolt_ok ref_bolt rb_good db'
    \<and> (run_call demo spec_store (CallAppend demo_append) demo_store = (bolt_view ref_bolt rb_seq db', r) \<or> isl r)"
proof -
  obtain db' r where run: "run_call demo (bolt_store ref_bolt) (CallAppend demo_append) demo_bolt = (db', r)" by fastforce
  from bolt_drafts_refine[OF rbolt.bbolt_laws_axioms demo_bolt_ok run] show ?thesis using run demo_bolt_view by auto
qed



end
