(* ===== verification/Config_Store.thy ===== *)
theory Config_Store
  imports Bolt_Store Go_Runtime
begin

section \<open>The store of configs\<close>

text \<open>
  \<^verbatim>\<open>store/bolt.go\<close> and the config names of \<^verbatim>\<open>store/types.go\<close>. A config is stored in the top-level
  bucket of its kind under its name, as JSON. The package \<^verbatim>\<open>encoding/json\<close> is the parameter
  \<open>'v json\<close>: writing a config as \<^verbatim>\<open>storedConfig\<close> (which copies every field) and decoding into a config.
  The values of spec and status have the type \<open>'v\<close>, which nothing here looks into. \<open>now\<close> is the
  formatted time of a call. Errors keep what \<^verbatim>\<open>errors.Is\<close> can see of them and the message of the
  library; texts added on the way are dropped.

  The locale \<open>config_store\<close> is what a store promises: it is a map from kind and name to configs.
  The Bolt store keeps it for any bbolt with the laws \<open>bbolt_laws\<close> and any JSON package with the laws
  \<open>json_laws\<close>, and keeps the records of the same file apart (\<open>config_frame\<close>).
\<close>

subsection \<open>Configs\<close>

record ConfigMetadata =
  cm_Name :: string
  cm_Created :: string
  cm_Updated :: string
  cm_Annotations :: "(string, string) gomap"

record 'v Config =
  c_Version :: string
  c_Kind :: string
  c_Metadata :: ConfigMetadata
  c_Spec :: "(string, 'v) gomap"
  c_Status :: "(string, 'v) gomap"

datatype config_err =
  ConfigExist
| ConfigNotExist string string
| ConfigName string
| ConfigKind string
| JsonFailure string
| BoltFailure string

abbreviation c_Name :: "'v Config \<Rightarrow> string" where
  "c_Name c \<equiv> cm_Name (c_Metadata c)"

definition empty_metadata :: ConfigMetadata where
  "empty_metadata = \<lparr>cm_Name = [], cm_Created = [], cm_Updated = [], cm_Annotations = None\<rparr>"

definition empty_config :: "'v Config" where
  "empty_config =
     \<lparr>c_Version = [], c_Kind = [], c_Metadata = empty_metadata, c_Spec = None, c_Status = None\<rparr>"

definition APIGroup :: string where
  "APIGroup = ''phenix.sandia.gov''"

definition StoredVersion :: "(string \<times> string) list" where
  "StoredVersion =
     [(''Topology'', ''v1''), (''Scenario'', ''v2''), (''Experiment'', ''v1''), (''Image'', ''v1''), (''User'', ''v1''),
      (''Role'', ''v1''), (''Node'', ''v1''), (''Ruleset'', ''v1''), (''Setting'', ''v2'')]"

text \<open>\<open>ks\<close> are the kinds in the order the range takes; \<open>[]\<close> is no kind.\<close>

definition canonicalKind :: "unicase \<Rightarrow> string list \<Rightarrow> string \<Rightarrow> string" where
  "canonicalKind u ks kind = (case find (\<lambda>k. equal_fold u k kind) ks of None \<Rightarrow> [] | Some k \<Rightarrow> k)"

definition NewConfig :: "unicase \<Rightarrow> string list \<Rightarrow> string \<Rightarrow> config_err + 'v Config" where
  "NewConfig u ks name =
     (let n = split_on CHR ''/'' name
      in if length n \<noteq> 2 then Inl (ConfigName name)
         else
           let kind = canonicalKind u ks (n ! 0)
           in if kind = [] then Inl (ConfigKind (n ! 0))
              else Inr (empty_config\<lparr>
                     c_Version := APIGroup @ ''/'' @ (case map_of StoredVersion kind of None \<Rightarrow> [] | Some v \<Rightarrow> v),
                     c_Kind := kind, c_Metadata := empty_metadata\<lparr>cm_Name := n ! 1\<rparr>\<rparr>))"

definition Config_APIGroup :: "'v Config \<Rightarrow> string" where
  "Config_APIGroup c =
     (let s = split_on CHR ''/'' (c_Version c) in if length s < 2 then [] else s ! 0)"

definition Config_APIVersion :: "'v Config \<Rightarrow> string" where
  "Config_APIVersion c =
     (let s = split_on CHR ''/'' (c_Version c)
      in if length s = 0 then [] else if length s = 1 then s ! 0 else s ! 1)"

definition HasAnnotation :: "string \<Rightarrow> 'v Config \<Rightarrow> bool" where
  "HasAnnotation name c \<longleftrightarrow> map_get (cm_Annotations (c_Metadata c)) name \<noteq> None"

definition FullName :: "'v Config \<Rightarrow> string" where
  "FullName c = c_Kind c @ ''/'' @ c_Name c"

definition ConfigFullName :: "unicase \<Rightarrow> string list \<Rightarrow> string list \<Rightarrow> string" where
  "ConfigFullName u ks name =
     (case name of
        [full] \<Rightarrow>
          (let n = split_on CHR ''/'' full
           in if length n \<noteq> 2 then []
              else let kind = canonicalKind u ks (n ! 0) in if kind = [] then [] else kind @ ''/'' @ n ! 1)
      | [k, n] \<Rightarrow> (let kind = canonicalKind u ks k in if kind = [] then [] else kind @ ''/'' @ n)
      | _ \<Rightarrow> [])"

text \<open>What the decoders of user input make of a decoded config: users cannot set the times.\<close>

definition reset_times :: "'v Config \<Rightarrow> 'v Config" where
  "reset_times c = c\<lparr>c_Metadata := (c_Metadata c)\<lparr>cm_Created := [], cm_Updated := []\<rparr>\<rparr>"

subsection \<open>The Bolt store\<close>

record 'v json =
  js_marshal :: "'v Config \<Rightarrow> string + bytes"
  js_unmarshal :: "bytes \<Rightarrow> 'v Config \<Rightarrow> string + 'v Config"

type_synonym ('s, 'a) config_action = "('s, config_err, 'a) action"

definition StoredJSON :: "'v json \<Rightarrow> 'v Config \<Rightarrow> config_err + bytes" where
  "StoredJSON J c = (case js_marshal J c of Inl m \<Rightarrow> Inl (JsonFailure m) | Inr v \<Rightarrow> Inr v)"

text \<open>\<^verbatim>\<open>open\<close> at the start of a call and \<^verbatim>\<open>Close\<close> at its end; \<^verbatim>\<open>db.Update\<close> for one transaction.\<close>

definition with_open :: "'tx bbolt \<Rightarrow> ('tx, 'a) config_action \<Rightarrow> ('tx, 'a) config_action" where
  "with_open B m db = (case bk_open B db of Some e \<Rightarrow> (db, Inl (BoltFailure e)) | None \<Rightarrow> m db)"

definition db_Update :: "'tx bbolt \<Rightarrow> ('tx \<Rightarrow> config_err + 'tx) \<Rightarrow> ('tx, unit) config_action" where
  "db_Update B fn db =
     (case fn db of
        Inl e \<Rightarrow> (db, Inl e)
      | Inr tx \<Rightarrow> (case bk_commit B tx of Some m \<Rightarrow> (db, Inl (BoltFailure m)) | None \<Rightarrow> (tx, Inr ())))"

definition bolt_call :: "string + 'tx \<Rightarrow> config_err + 'tx" where
  "bolt_call r = (case r of Inl m \<Rightarrow> Inl (BoltFailure m) | Inr tx \<Rightarrow> Inr tx)"

definition ensureBucket :: "'tx bbolt \<Rightarrow> string \<Rightarrow> ('tx, unit) config_action" where
  "ensureBucket B name = db_Update B (\<lambda>tx. bolt_call (bk_create B tx [name]))"

definition bolt_get :: "'tx bbolt \<Rightarrow> string \<Rightarrow> string \<Rightarrow> ('tx, bytes) config_action" where
  "bolt_get B bucket k =
     bindE (ensureBucket B bucket) (\<lambda>_ db.
       (db, case bk_get B db [bucket] k of None \<Rightarrow> Inl (ConfigNotExist k bucket) | Some v \<Rightarrow> Inr v))"

definition bolt_put :: "'tx bbolt \<Rightarrow> string \<Rightarrow> string \<Rightarrow> bytes \<Rightarrow> ('tx, unit) config_action" where
  "bolt_put B bucket k v =
     bindE (ensureBucket B bucket) (\<lambda>_. db_Update B (\<lambda>tx. bolt_call (bk_put B tx [bucket] k v)))"

definition IsInitialized :: "'tx bbolt \<Rightarrow> string \<Rightarrow> 'tx \<Rightarrow> 'tx \<times> bool go" where
  "IsInitialized B component db =
     (case with_open B (bolt_get B ''phenix'' component) db of
        (db', Inl e) \<Rightarrow> (db', Inr False)
      | (db', Inr []) \<Rightarrow> (db', Inl IndexRange)
      | (db', Inr (b # bs)) \<Rightarrow> (db', Inr (b = 1)))"

definition InitializeComponent :: "'tx bbolt \<Rightarrow> string \<Rightarrow> ('tx, unit) config_action" where
  "InitializeComponent B component = with_open B (bolt_put B ''phenix'' component [1])"

text \<open>The configs in a bucket; a nested bucket has no value, which is no JSON.\<close>

fun decode_configs :: "'v json \<Rightarrow> (string \<times> bytes option) list \<Rightarrow> config_err + 'v Config list" where
  "decode_configs J [] = Inr []"
| "decode_configs J ((k, v) # kvs) =
     (case js_unmarshal J (case v of None \<Rightarrow> [] | Some b \<Rightarrow> b) empty_config of
        Inl m \<Rightarrow> Inl (JsonFailure m)
      | Inr c \<Rightarrow> map_sum id (Cons c) (decode_configs J kvs))"

fun list_kinds :: "'tx bbolt \<Rightarrow> 'v json \<Rightarrow> string list \<Rightarrow> ('tx, 'v Config list) config_action" where
  "list_kinds B J [] = retE []"
| "list_kinds B J (kind # kinds) =
     bindE (ensureBucket B kind) (\<lambda>_.
     bindE (\<lambda>db. (db, decode_configs J (bk_scan B db [kind] []))) (\<lambda>cs.
     bindE (list_kinds B J kinds) (\<lambda>rest. retE (cs @ rest))))"

definition BoltDB_List :: "'tx bbolt \<Rightarrow> 'v json \<Rightarrow> string list \<Rightarrow> ('tx, 'v Config list) config_action" where
  "BoltDB_List B J kinds = with_open B (list_kinds B J kinds)"

definition BoltDB_Get :: "'tx bbolt \<Rightarrow> 'v json \<Rightarrow> 'v Config \<Rightarrow> ('tx, 'v Config) config_action" where
  "BoltDB_Get B J c =
     with_open B (bindE (bolt_get B (c_Kind c) (c_Name c)) (\<lambda>v db.
       (db, case js_unmarshal J v c of Inl m \<Rightarrow> Inl (JsonFailure m) | Inr c' \<Rightarrow> Inr c')))"

text \<open>Encode a config and write it: the common end of \<^verbatim>\<open>Create\<close> and \<^verbatim>\<open>Update\<close>.\<close>

definition write_config :: "'tx bbolt \<Rightarrow> 'v json \<Rightarrow> 'v Config \<Rightarrow> ('tx, 'v Config) config_action" where
  "write_config B J c db =
     (case StoredJSON J c of
        Inl e \<Rightarrow> (db, Inl e)
      | Inr v \<Rightarrow> bindE (bolt_put B (c_Kind c) (c_Name c) v) (\<lambda>_. retE c) db)"

definition created_at :: "string \<Rightarrow> 'v Config \<Rightarrow> 'v Config" where
  "created_at now c =
     (let m = c_Metadata c
      in c\<lparr>c_Metadata := m\<lparr>cm_Created := (if cm_Created m = [] then now else cm_Created m), cm_Updated := now\<rparr>\<rparr>)"

definition updated_at :: "string \<Rightarrow> 'v Config \<Rightarrow> 'v Config" where
  "updated_at now c = c\<lparr>c_Metadata := (c_Metadata c)\<lparr>cm_Updated := now\<rparr>\<rparr>"

text \<open>The result is the config as the caller's pointer shows it after the call.\<close>

definition BoltDB_Create :: "'tx bbolt \<Rightarrow> 'v json \<Rightarrow> string \<Rightarrow> 'v Config \<Rightarrow> ('tx, 'v Config) config_action" where
  "BoltDB_Create B J now c =
     with_open B (\<lambda>db.
       case bolt_get B (c_Kind c) (c_Name c) db of
         (db', Inr v) \<Rightarrow> (db', Inl ConfigExist)
       | (db', Inl e) \<Rightarrow> write_config B J (created_at now c) db')"

definition BoltDB_Update :: "'tx bbolt \<Rightarrow> 'v json \<Rightarrow> string \<Rightarrow> 'v Config \<Rightarrow> ('tx, 'v Config) config_action" where
  "BoltDB_Update B J now c =
     with_open B (bindE (bolt_get B (c_Kind c) (c_Name c)) (\<lambda>_. write_config B J (updated_at now c)))"

definition BoltDB_Delete :: "'tx bbolt \<Rightarrow> 'v Config \<Rightarrow> ('tx, unit) config_action" where
  "BoltDB_Delete B c =
     with_open B (db_Update B (\<lambda>tx.
       if \<not> bk_bucket B tx [c_Kind c] \<or> bk_get B tx [c_Kind c] (c_Name c) = None
       then Inl (ConfigNotExist (c_Name c) (c_Kind c))
       else bolt_call (bk_delete B tx [c_Kind c] (c_Name c))))"

text \<open>The interface \<^verbatim>\<open>Store\<close> as far as configs go, and the Bolt store as one.\<close>

record ('s, 'v) cstore =
  cs_list :: "string list \<Rightarrow> ('s, 'v Config list) config_action"
  cs_get :: "'v Config \<Rightarrow> ('s, 'v Config) config_action"
  cs_create :: "string \<Rightarrow> 'v Config \<Rightarrow> ('s, 'v Config) config_action"
  cs_update :: "string \<Rightarrow> 'v Config \<Rightarrow> ('s, 'v Config) config_action"
  cs_delete :: "'v Config \<Rightarrow> ('s, unit) config_action"

definition BoltDB :: "'tx bbolt \<Rightarrow> 'v json \<Rightarrow> ('tx, 'v) cstore" where
  "BoltDB B J =
     \<lparr>cs_list = BoltDB_List B J, cs_get = BoltDB_Get B J, cs_create = BoltDB_Create B J,
      cs_update = BoltDB_Update B J, cs_delete = BoltDB_Delete B\<rparr>"

subsection \<open>What a store of configs promises\<close>

definition config_kinds :: "string list" where
  "config_kinds = map fst StoredVersion"

definition fresh_config :: "'v Config \<Rightarrow> bool" where
  "fresh_config c \<longleftrightarrow> cm_Annotations (c_Metadata c) = None \<and> c_Spec c = None \<and> c_Status c = None"

abbreviation config_key :: "'v Config \<Rightarrow> string \<times> string" where
  "config_key c \<equiv> (c_Kind c, c_Name c)"

text \<open>Errors that come from the file or the JSON package, not from what is stored.\<close>

fun env_failure :: "config_err \<Rightarrow> bool" where
  "env_failure (JsonFailure m) = True"
| "env_failure (BoltFailure m) = True"
| "env_failure _ = False"

text \<open>
  The outcome of a call that reads or replaces the config \<open>c\<close>: it needs the config to exist, else it
  reports that it does not; a failure changes nothing.
\<close>

definition existing_outcome ::
  "('k \<rightharpoonup> 'v) \<Rightarrow> ('k \<rightharpoonup> 'v) \<Rightarrow> 'k \<Rightarrow> ('a \<Rightarrow> bool) \<Rightarrow> config_err + 'a \<Rightarrow> bool" where
  "existing_outcome m m' k post r \<longleftrightarrow>
     (case r of
        Inr x \<Rightarrow> m k \<noteq> None \<and> post x
      | Inl e \<Rightarrow> m' = m \<and> (case e of ConfigNotExist n b \<Rightarrow> m k = None | _ \<Rightarrow> env_failure e))"

locale config_store =
  fixes S :: "('s, 'v) cstore"
    and ok :: "'s \<Rightarrow> bool"
    and view :: "'s \<Rightarrow> string \<times> string \<rightharpoonup> 'v Config"
    and norm :: "'v Config \<Rightarrow> 'v Config"
  assumes get_law:
    "ok s \<Longrightarrow> c_Kind c \<in> set config_kinds \<Longrightarrow> fresh_config c \<Longrightarrow> cs_get S c s = (s', r) \<Longrightarrow>
     ok s' \<and> view s' = view s
     \<and> existing_outcome (view s) (view s') (config_key c) (\<lambda>c'. view s (config_key c) = Some c') r"
    and create_law:
    "ok s \<Longrightarrow> c_Kind c \<in> set config_kinds \<Longrightarrow> cs_create S now c s = (s', r) \<Longrightarrow>
     ok s'
     \<and> (case r of
          Inr c' \<Rightarrow> view s (config_key c) = None \<and> c' = created_at now c
            \<and> view s' = (view s)(config_key c \<mapsto> norm c')
        | Inl e \<Rightarrow> view s' = view s \<and> (if e = ConfigExist then view s (config_key c) \<noteq> None else env_failure e))"
    and update_law:
    "ok s \<Longrightarrow> c_Kind c \<in> set config_kinds \<Longrightarrow> cs_update S now c s = (s', r) \<Longrightarrow>
     ok s'
     \<and> existing_outcome (view s) (view s') (config_key c)
         (\<lambda>c'. c' = updated_at now c \<and> view s' = (view s)(config_key c \<mapsto> norm c')) r"
    and delete_law:
    "ok s \<Longrightarrow> c_Kind c \<in> set config_kinds \<Longrightarrow> cs_delete S c s = (s', d) \<Longrightarrow>
     ok s' \<and> existing_outcome (view s) (view s') (config_key c) (\<lambda>_. view s' = (view s)(config_key c := None)) d"
    and list_law:
    "ok s \<Longrightarrow> set kinds \<subseteq> set config_kinds \<Longrightarrow> cs_list S kinds s = (s', l) \<Longrightarrow>
     ok s' \<and> view s' = view s
     \<and> (case l of Inr cs \<Rightarrow> set cs = {c. \<exists>k \<in> set kinds. \<exists>n. view s (k, n) = Some c} | Inl e \<Rightarrow> env_failure e)"
    and norm_key: "config_key (norm c) = config_key c"
    and norm_times: "cm_Created (c_Metadata (norm c)) = cm_Created (c_Metadata c)"
      "cm_Updated (c_Metadata (norm c)) = cm_Updated (c_Metadata c)"
    and norm_version: "c_Version (norm c) = c_Version c"
    and norm_fields: "c_Spec c' = c_Spec (norm c) \<Longrightarrow> c_Spec (norm c') = c_Spec (norm c)"
      "c_Status c' = c_Status (norm c) \<Longrightarrow> c_Status (norm c') = c_Status (norm c)"
      "cm_Annotations (c_Metadata c') = cm_Annotations (c_Metadata (norm c)) \<Longrightarrow>
       cm_Annotations (c_Metadata (norm c')) = cm_Annotations (c_Metadata (norm c))"
    and view_norm: "ok s \<Longrightarrow> view s k = Some c \<Longrightarrow> config_key c = k \<and> (\<exists>c0. c = norm c0)"
begin

lemma view_key: "ok s \<Longrightarrow> view s k = Some c \<Longrightarrow> config_key c = k"
  using view_norm by blast

end

subsection \<open>The Bolt store keeps the promise\<close>

text \<open>
  What \<^verbatim>\<open>encoding/json\<close> documents: decoding what was encoded into a config without maps gives the
  encoded config up to the normal form \<open>norm\<close> of its values (an empty map is left out, numbers are
  decoded as float64); version, kind, name and times are not affected, and a field in normal form stays as it is.
\<close>

locale json_laws =
  fixes J :: "'v json"
    and norm :: "'v Config \<Rightarrow> 'v Config"
  assumes unmarshal_marshal: "js_marshal J c = Inr b \<Longrightarrow> fresh_config t \<Longrightarrow> js_unmarshal J b t = Inr (norm c)"
    and json_norm_key: "config_key (norm c) = config_key c"
    and json_norm_times: "cm_Created (c_Metadata (norm c)) = cm_Created (c_Metadata c)"
      "cm_Updated (c_Metadata (norm c)) = cm_Updated (c_Metadata c)"
    and json_norm_version: "c_Version (norm c) = c_Version c"
    and json_norm_fields: "c_Spec c' = c_Spec (norm c) \<Longrightarrow> c_Spec (norm c') = c_Spec (norm c)"
      "c_Status c' = c_Status (norm c) \<Longrightarrow> c_Status (norm c') = c_Status (norm c)"
      "cm_Annotations (c_Metadata c') = cm_Annotations (c_Metadata (norm c)) \<Longrightarrow>
       cm_Annotations (c_Metadata (norm c')) = cm_Annotations (c_Metadata (norm c))"

definition config_ok :: "'tx bbolt \<Rightarrow> 'v json \<Rightarrow> ('tx \<Rightarrow> bool) \<Rightarrow> 'tx \<Rightarrow> bool" where
  "config_ok B J good tx \<longleftrightarrow>
     good tx \<and> (\<forall>k \<in> set config_kinds. \<forall>n. \<not> bk_bucket B tx [k, n])
     \<and> (\<forall>k \<in> set config_kinds. \<forall>n v. bk_get B tx [k] n = Some v \<longrightarrow>
          (\<exists>c. js_marshal J c = Inr v \<and> c_Kind c = k \<and> c_Name c = n))"

definition config_view :: "'tx bbolt \<Rightarrow> 'v json \<Rightarrow> 'tx \<Rightarrow> string \<times> string \<rightharpoonup> 'v Config" where
  "config_view B J tx =
     (\<lambda>(k, n). if k \<in> set config_kinds
        then (case bk_get B tx [k] n of
                None \<Rightarrow> None
              | Some v \<Rightarrow> (case js_unmarshal J v empty_config of Inl _ \<Rightarrow> None | Inr c \<Rightarrow> Some c))
        else None)"

lemma fresh_empty [simp]: "fresh_config empty_config"
  by (simp add: fresh_config_def empty_config_def empty_metadata_def)

lemma config_kind_bucket: "k \<in> set config_kinds \<Longrightarrow> k \<noteq> [] \<and> length k \<le> 32768 \<and> k \<noteq> boltRecordsBucket"
  by (auto simp: config_kinds_def StoredVersion_def boltRecordsBucket_def)

locale bolt_configs = bbolt_laws B good seq + json_laws J norm
  for B :: "'tx bbolt" and good :: "'tx \<Rightarrow> bool" and seq :: "'tx \<Rightarrow> path \<Rightarrow> int64"
    and J :: "'v json" and norm :: "'v Config \<Rightarrow> 'v Config" +
  assumes put_checks: "good tx \<Longrightarrow> bk_put B tx p k v = Inr tx' \<Longrightarrow>
      k \<noteq> [] \<and> length k \<le> 32768 \<and> length v \<le> 2 ^ 31 - 2"
begin

abbreviation "cok \<equiv> config_ok B J good"
abbreviation "cview \<equiv> config_view B J"

text \<open>What a config call does to the rest of the file: nothing outside the buckets of the kinds.\<close>

definition elsewhere :: "'tx \<Rightarrow> 'tx \<Rightarrow> bool" where
  "elsewhere tx tx' \<longleftrightarrow> seq tx' = seq tx
     \<and> (\<forall>k p. k \<notin> set config_kinds \<longrightarrow> bk_get B tx' (k # p) = bk_get B tx (k # p)
          \<and> bk_bucket B tx' (k # p) = bk_bucket B tx (k # p))"

lemma elsewhere_refl [simp]: "elsewhere tx tx"
  by (simp add: elsewhere_def)

lemma elsewhere_trans: "elsewhere a b \<Longrightarrow> elsewhere b c \<Longrightarrow> elsewhere a c"
  by (simp add: elsewhere_def)

lemma elsewhere_records:
  assumes "elsewhere tx tx'" and "good tx'" and "bolt_ok B good tx"
  shows "bolt_ok B good tx' \<and> bolt_view B seq tx' = bolt_view B seq tx"
proof -
  have r: "boltRecordsBucket \<notin> set config_kinds" using config_kind_bucket by blast
  have "bk_get B tx' (boltRecordsBucket # p) = bk_get B tx (boltRecordsBucket # p)"
    "bk_bucket B tx' (boltRecordsBucket # p) = bk_bucket B tx (boltRecordsBucket # p)" for p
    using assms(1) r by (simp_all add: elsewhere_def)
  then show ?thesis using assms by (simp add: bolt_ok_def bolt_view_def elsewhere_def)
qed

lemma ensure:
  assumes "cok tx" and "k \<in> set config_kinds" and "ensureBucket B k tx = (tx', r)"
  shows "cok tx' \<and> bk_get B tx' = bk_get B tx \<and> elsewhere tx tx' \<and> cview tx' = cview tx
    \<and> (case r of Inr _ \<Rightarrow> bk_bucket B tx' [k] | Inl e \<Rightarrow> env_failure e)"
proof -
  note k = config_kind_bucket[OF assms(2)]
  obtain tx1 where c: "bk_create B tx [k] = Inr tx1" and g: "good tx1"
    and b: "bk_bucket B tx1 = (bk_bucket B tx)([k] := True)" and v: "bk_get B tx1 = bk_get B tx" and q: "seq tx1 = seq tx"
    using bk_create_law[of tx "[k]"] assms(1) k by (auto simp: config_ok_def)
  have "tx' = tx \<and> (\<exists>m. r = Inl (BoltFailure m)) \<or> tx' = tx1 \<and> r = Inr ()"
    using assms(3) by (auto simp: ensureBucket_def db_Update_def bolt_call_def c split: option.splits)
  moreover have "cok tx1" using assms(1) g by (simp add: config_ok_def b v)
  moreover have "elsewhere tx tx1" using assms(2) by (auto simp: elsewhere_def b v q)
  ultimately show ?thesis using assms(1) by (auto simp: config_view_def v b)
qed

lemma view_get:
  assumes "cok tx" and "k \<in> set config_kinds"
  shows "cview tx (k, n) = None \<longleftrightarrow> bk_get B tx [k] n = None"
    and "bk_get B tx [k] n = Some v \<Longrightarrow> fresh_config t \<Longrightarrow>
      \<exists>c. js_unmarshal J v t = Inr c \<and> cview tx (k, n) = Some c \<and> config_key c = (k, n) \<and> (\<exists>c0. c = norm c0)"
proof -
  show *: "bk_get B tx [k] n = Some v \<Longrightarrow> fresh_config t \<Longrightarrow>
      \<exists>c. js_unmarshal J v t = Inr c \<and> cview tx (k, n) = Some c \<and> config_key c = (k, n) \<and> (\<exists>c0. c = norm c0)" for v t
  proof -
    assume v: "bk_get B tx [k] n = Some v" and t: "fresh_config t"
    obtain c where c: "js_marshal J c = Inr v" "c_Kind c = k" "c_Name c = n"
      using assms v unfolding config_ok_def by blast
    then show ?thesis
      using assms(2) v unmarshal_marshal[OF c(1) t] unmarshal_marshal[OF c(1) fresh_empty] json_norm_key[of c]
      by (auto simp: config_view_def)
  qed
  show "cview tx (k, n) = None \<longleftrightarrow> bk_get B tx [k] n = None"
    using *[OF _ fresh_empty] assms(2) by (cases "bk_get B tx [k] n") (auto simp: config_view_def)
qed

lemma getting:
  assumes "cok tx" and "k \<in> set config_kinds" and "bolt_get B k n tx = (tx', r)"
  shows "cok tx' \<and> elsewhere tx tx' \<and> cview tx' = cview tx \<and> bk_get B tx' = bk_get B tx
    \<and> (case r of
         Inr v \<Rightarrow> bk_get B tx [k] n = Some v
       | Inl e \<Rightarrow> (if e = ConfigNotExist n k then cview tx (k, n) = None else env_failure e))"
  using assms(3) ensure[OF assms(1,2)] view_get(1)[OF assms(1,2)]
  by (auto simp: bolt_get_def bindE_def split: prod.splits sum.splits option.splits)

lemma put_value:
  assumes "cok tx" and "c_Kind c \<in> set config_kinds" and "bk_bucket B tx [c_Kind c]"
    and "js_marshal J c = Inr v" and "bk_put B tx [c_Kind c] (c_Name c) v = Inr tx'"
  shows "cok tx' \<and> elsewhere tx tx' \<and> cview tx' = (cview tx)(config_key c \<mapsto> norm c)"
proof -
  let ?k = "c_Kind c" and ?n = "c_Name c"
  have g: "good tx" and n: "\<not> bk_bucket B tx ([?k] @ [?n])" using assms(1,2) by (auto simp: config_ok_def)
  have g': "good tx'" and b: "bk_bucket B tx' = bk_bucket B tx"
    and v: "bk_get B tx' = (bk_get B tx)([?k] := (bk_get B tx [?k])(?n \<mapsto> v))" and q: "seq tx' = seq tx"
    using bk_put_law[OF g assms(3) n, of v] put_checks[OF g assms(5)] assms(5) by auto
  have "cok tx'" using assms(1,4) g' by (auto simp: config_ok_def b v)
  moreover have "elsewhere tx tx'" using assms(2) by (auto simp: elsewhere_def b v q)
  moreover have "cview tx' = (cview tx)(config_key c \<mapsto> norm c)"
    using assms(2) unmarshal_marshal[OF assms(4) fresh_empty] by (auto simp: config_view_def v fun_eq_iff)
  ultimately show ?thesis by blast
qed

text \<open>Writing a config: on success the view changes at its key, on a failure nothing changes.\<close>

lemma writing:
  assumes "cok tx" and "c_Kind c \<in> set config_kinds" and run: "write_config B J c tx = (tx', r)"
  shows "cok tx' \<and> elsewhere tx tx'
    \<and> (case r of
         Inr c' \<Rightarrow> c' = c \<and> cview tx' = (cview tx)(config_key c \<mapsto> norm c)
       | Inl e \<Rightarrow> cview tx' = cview tx \<and> env_failure e)"
proof (cases "js_marshal J c")
  case (Inl m)
  then show ?thesis using run assms(1) by (auto simp: write_config_def StoredJSON_def)
next
  case (Inr v)
  obtain tx1 r1 where e: "ensureBucket B (c_Kind c) tx = (tx1, r1)" by fastforce
  note e1 = ensure[OF assms(1,2) e]
  show ?thesis
  proof (cases r1)
    case (Inl m)
    then show ?thesis using run e1 Inr e by (auto simp: write_config_def StoredJSON_def bolt_put_def bindE_def)
  next
    case (Inr u)
    then have b: "bk_bucket B tx1 [c_Kind c]" "cok tx1" using e1 by auto
    show ?thesis
      using run e1 Inr e \<open>js_marshal J c = Inr v\<close> put_value[OF b(2) assms(2) b(1) \<open>js_marshal J c = Inr v\<close>]
      by (auto simp: write_config_def StoredJSON_def bolt_put_def bindE_def db_Update_def bolt_call_def
          split: sum.splits option.splits intro: elsewhere_trans)
  qed
qed

lemma bolt_get_law:
  assumes "cok s" and "c_Kind c \<in> set config_kinds" and "fresh_config c" and "BoltDB_Get B J c s = (s', r)"
  shows "cok s' \<and> elsewhere s s' \<and> cview s' = cview s
    \<and> existing_outcome (cview s) (cview s') (config_key c) (\<lambda>c'. cview s (config_key c) = Some c') r"
proof (cases "bk_open B s")
  case None
  obtain s1 r1 where g: "bolt_get B (c_Kind c) (c_Name c) s = (s1, r1)" by fastforce
  note g1 = getting[OF assms(1,2) g] and vg = view_get(2)[OF assms(1,2) _ assms(3)]
  have run: "s' = s1 \<and> r = (case r1 of Inl e \<Rightarrow> Inl e
      | Inr v \<Rightarrow> (case js_unmarshal J v c of Inl m \<Rightarrow> Inl (JsonFailure m) | Inr c' \<Rightarrow> Inr c'))"
    using assms(4) None g by (auto simp: BoltDB_Get_def with_open_def bindE_def split: sum.splits)
  show ?thesis
  proof (cases r1)
    case (Inl e)
    then show ?thesis using run g1 by (auto simp: existing_outcome_def split: if_splits config_err.splits)
  next
    case (Inr v)
    then have "bk_get B s [c_Kind c] (c_Name c) = Some v" using g1 by simp
    from vg[OF this] show ?thesis using run g1 Inr by (auto simp: existing_outcome_def)
  qed
next
  case (Some m)
  then show ?thesis using assms by (auto simp: BoltDB_Get_def with_open_def existing_outcome_def)
qed

text \<open>
  A lookup that fails for another reason than absence fails because the bucket cannot be made
  sure of; then neither can the write that \<^verbatim>\<open>Create\<close> goes on with.
\<close>

lemma get_fails_again:
  assumes "bolt_get B (c_Kind c) n s = (s1, Inl e)" and "env_failure e"
  shows "\<exists>e'. env_failure e' \<and> snd (write_config B J c s1) = Inl e'"
proof -
  have "\<exists>m. e = BoltFailure m \<and> s1 = s \<and> ensureBucket B (c_Kind c) s = (s, Inl e)"
    using assms
    by (auto simp: bolt_get_def bindE_def ensureBucket_def db_Update_def bolt_call_def
        split: prod.splits sum.splits option.splits)
  then show ?thesis by (auto simp: write_config_def StoredJSON_def bolt_put_def bindE_def split: sum.splits)
qed

lemma bolt_create_law:
  assumes "cok s" and "c_Kind c \<in> set config_kinds" and "BoltDB_Create B J now c s = (s', r)"
  shows "cok s' \<and> elsewhere s s'
     \<and> (case r of
          Inr c' \<Rightarrow> cview s (config_key c) = None \<and> c' = created_at now c
            \<and> cview s' = (cview s)(config_key c \<mapsto> norm c')
        | Inl e \<Rightarrow> cview s' = cview s \<and> (if e = ConfigExist then cview s (config_key c) \<noteq> None else env_failure e))"
proof (cases "bk_open B s")
  case None
  obtain s1 r1 where g: "bolt_get B (c_Kind c) (c_Name c) s = (s1, r1)" by fastforce
  note g1 = getting[OF assms(1,2) g]
  have key: "c_Kind (created_at now c) \<in> set config_kinds" "config_key (created_at now c) = config_key c"
    using assms(2) by (simp_all add: created_at_def Let_def)
  show ?thesis
  proof (cases r1)
    case (Inl e)
    then have w: "write_config B J (created_at now c) s1 = (s', r)"
      using assms(3) None g by (simp add: BoltDB_Create_def with_open_def)
    note w1 = writing[OF _ key(1) w]
    show ?thesis
    proof (cases "env_failure e")
      case True
      then have "\<exists>e'. env_failure e' \<and> r = Inl e'"
        using get_fails_again[of "created_at now c" "c_Name c" s s1 e] g Inl key(2) w by auto
      then show ?thesis using w1 g1 True by (auto simp: intro: elsewhere_trans)
    next
      case False
      then have "cview s (config_key c) = None" using g1 Inl by (auto split: if_splits)
      then show ?thesis using w1 g1 key(2) by (auto split: sum.splits intro: elsewhere_trans)
    qed
  next
    case (Inr v)
    then have "s' = s1 \<and> r = Inl ConfigExist" using assms(3) None g by (simp add: BoltDB_Create_def with_open_def)
    then show ?thesis using g1 Inr view_get(1)[OF assms(1,2)] by simp
  qed
next
  case (Some m)
  then show ?thesis using assms by (auto simp: BoltDB_Create_def with_open_def)
qed

lemma bolt_update_law:
  assumes "cok s" and "c_Kind c \<in> set config_kinds" and "BoltDB_Update B J now c s = (s', r)"
  shows "cok s' \<and> elsewhere s s'
     \<and> existing_outcome (cview s) (cview s') (config_key c)
         (\<lambda>c'. c' = updated_at now c \<and> cview s' = (cview s)(config_key c \<mapsto> norm c')) r"
proof (cases "bk_open B s")
  case None
  obtain s1 r1 where g: "bolt_get B (c_Kind c) (c_Name c) s = (s1, r1)" by fastforce
  note g1 = getting[OF assms(1,2) g]
  have key: "c_Kind (updated_at now c) \<in> set config_kinds" "config_key (updated_at now c) = config_key c"
    using assms(2) by (simp_all add: updated_at_def)
  show ?thesis
  proof (cases r1)
    case (Inl e)
    then show ?thesis using assms(3) g1 None g
      by (auto simp: BoltDB_Update_def with_open_def existing_outcome_def split: if_splits config_err.splits)
  next
    case (Inr v)
    then have w: "write_config B J (updated_at now c) s1 = (s', r)"
      using assms(3) None g by (simp add: BoltDB_Update_def with_open_def)
    have "cview s (config_key c) \<noteq> None" using g1 Inr view_get(1)[OF assms(1,2)] by simp
    then show ?thesis using writing[OF _ key(1) w] g1 key(2)
      by (auto simp: existing_outcome_def split: sum.splits config_err.splits intro: elsewhere_trans)
  qed
next
  case (Some m)
  then show ?thesis using assms by (auto simp: BoltDB_Update_def with_open_def existing_outcome_def)
qed

lemma bolt_delete_law:
  assumes "cok s" and "c_Kind c \<in> set config_kinds" and "BoltDB_Delete B c s = (s', r)"
  shows "cok s' \<and> elsewhere s s'
     \<and> existing_outcome (cview s) (cview s') (config_key c) (\<lambda>_. cview s' = (cview s)(config_key c := None)) r"
proof -
  let ?k = "c_Kind c" and ?n = "c_Name c"
  have g: "good s" and nb: "\<not> bk_bucket B s ([?k] @ [?n])" using assms(1,2) by (auto simp: config_ok_def)
  show ?thesis
  proof (cases "bk_open B s = None \<and> bk_bucket B s [?k] \<and> bk_get B s [?k] ?n \<noteq> None")
    case True
    then have some: "cview s (config_key c) \<noteq> None" using view_get(1)[OF assms(1,2)] by simp
    obtain s1 where d: "bk_delete B s [?k] ?n = Inr s1" and g': "good s1" and b: "bk_bucket B s1 = bk_bucket B s"
      and v: "bk_get B s1 = (bk_get B s)([?k] := (bk_get B s [?k])(?n := None))" and q: "seq s1 = seq s"
      using bk_delete_law[OF g _ nb] True by auto
    have "cok s1" using assms(1) g' by (auto simp: config_ok_def b v)
    moreover have "elsewhere s s1" using assms(2) by (auto simp: elsewhere_def b v q)
    moreover have "cview s1 = (cview s)(config_key c := None)"
      using assms(2) by (auto simp: config_view_def v fun_eq_iff)
    ultimately show ?thesis using assms(1,3) True d some
      by (auto simp: BoltDB_Delete_def with_open_def db_Update_def bolt_call_def existing_outcome_def split: option.splits)
  next
    case False
    have "bk_get B s [?k] ?n = None" if "\<not> bk_bucket B s [?k]" using bk_get_law[OF g] that by (cases "bk_get B s [?k] ?n") auto
    then show ?thesis using False assms(1,3) view_get(1)[OF assms(1,2)]
      by (auto simp: BoltDB_Delete_def with_open_def db_Update_def existing_outcome_def split: if_splits option.splits)
  qed
qed

lemma decode_all:
  "(\<And>n v. (n, v) \<in> set kvs \<Longrightarrow> \<exists>b c. v = Some b \<and> js_unmarshal J b empty_config = Inr c \<and> m n = Some c) \<Longrightarrow>
   decode_configs J kvs = Inr (map (\<lambda>(n, _). the (m n)) kvs)"
proof (induction kvs)
  case (Cons kv kvs)
  obtain n v where kv: "kv = (n, v)" by fastforce
  have "\<exists>b c. v = Some b \<and> js_unmarshal J b empty_config = Inr c \<and> m n = Some c" by (rule Cons.prems) (simp add: kv)
  then obtain b c where "v = Some b" "js_unmarshal J b empty_config = Inr c" "m n = Some c" by blast
  moreover have "decode_configs J kvs = Inr (map (\<lambda>(n, _). the (m n)) kvs)"
    by (rule Cons.IH, rule Cons.prems) simp
  ultimately show ?case by (simp add: kv)
qed simp

lemma scan_kind:
  assumes "cok tx" and "k \<in> set config_kinds" and "bk_bucket B tx [k]"
  shows "\<exists>cs. decode_configs J (bk_scan B tx [k] []) = Inr cs \<and> set cs = {c. \<exists>n. cview tx (k, n) = Some c}"
proof -
  let ?kvs = "bk_scan B tx [k] []"
  have g: "good tx" and nb: "\<not> bk_bucket B tx [k, n]" for n using assms(1,2) by (auto simp: config_ok_def)
  have some: "(n, Some v) \<in> set ?kvs \<longleftrightarrow> bk_get B tx [k] n = Some v" for n v
    using bk_scan_value[OF g assms(3)] by simp
  have none: "(n, None) \<notin> set ?kvs" for n using bk_scan_bucket[OF g assms(3)] nb by simp
  have dec: "\<exists>b c. v = Some b \<and> js_unmarshal J b empty_config = Inr c \<and> cview tx (k, n) = Some c"
    if "(n, v) \<in> set ?kvs" for n v
  proof (cases v)
    case (Some b)
    then have "bk_get B tx [k] n = Some b" using that some by blast
    from view_get(2)[OF assms(1,2) this fresh_empty] show ?thesis using Some by blast
  qed (use that none in blast)
  have "(\<exists>v. (n, v) \<in> set ?kvs) \<longleftrightarrow> cview tx (k, n) \<noteq> None" for n
    using view_get(1)[OF assms(1,2), of n] some none dec by (metis not_None_eq)
  then have dom: "fst ` set ?kvs = {n. cview tx (k, n) \<noteq> None}"
    by (simp add: Domain_fst[symmetric] Domain_iff set_eq_iff)
  have "set (map (\<lambda>(n, _). the (cview tx (k, n))) ?kvs) = (\<lambda>n. the (cview tx (k, n))) ` fst ` set ?kvs"
    by (simp add: split_beta image_image)
  also have "\<dots> = {c. \<exists>n. cview tx (k, n) = Some c}" unfolding dom by force
  finally have "set (map (\<lambda>(n, _). the (cview tx (k, n))) ?kvs) = {c. \<exists>n. cview tx (k, n) = Some c}" .
  then show ?thesis using decode_all[of ?kvs "\<lambda>n. cview tx (k, n)", OF dec] by blast
qed

lemma listing:
  assumes "set kinds \<subseteq> set config_kinds" and "cok s" and "list_kinds B J kinds s = (s', r)"
  shows "cok s' \<and> elsewhere s s' \<and> cview s' = cview s
     \<and> (case r of Inr cs \<Rightarrow> set cs = {c. \<exists>k \<in> set kinds. \<exists>n. cview s (k, n) = Some c} | Inl e \<Rightarrow> env_failure e)"
  using assms
proof (induction kinds arbitrary: s s' r)
  case (Cons k kinds)
  obtain s1 r1 where e: "ensureBucket B k s = (s1, r1)" by fastforce
  have k: "k \<in> set config_kinds" using Cons.prems(1) by simp
  note e1 = ensure[OF Cons.prems(2) k e]
  show ?case
  proof (cases r1)
    case (Inl m)
    then show ?thesis using Cons.prems e e1 by auto
  next
    case (Inr u)
    obtain cs where cs: "decode_configs J (bk_scan B s1 [k] []) = Inr cs" "set cs = {c. \<exists>n. cview s (k, n) = Some c}"
      using scan_kind[OF _ k, of s1] e1 Inr by auto
    obtain s2 r2 where l: "list_kinds B J kinds s1 = (s2, r2)" by fastforce
    then have "s' = s2 \<and> r = map_sum id ((@) cs) r2"
      using Cons.prems(3) e Inr cs(1) by (cases r2) (auto simp: bindE_def)
    moreover have "cok s2 \<and> elsewhere s1 s2 \<and> cview s2 = cview s
       \<and> (case r2 of Inr cs \<Rightarrow> set cs = {c. \<exists>k \<in> set kinds. \<exists>n. cview s (k, n) = Some c} | Inl e \<Rightarrow> env_failure e)"
      using Cons.IH[OF _ _ l] Cons.prems(1) e1 by (auto split: sum.splits)
    ultimately show ?thesis using e1 cs(2) by (cases r2) (auto intro: elsewhere_trans)
  qed
qed simp

lemma bolt_list_law:
  assumes "cok s" and "set kinds \<subseteq> set config_kinds" and "BoltDB_List B J kinds s = (s', r)"
  shows "cok s' \<and> elsewhere s s' \<and> cview s' = cview s
     \<and> (case r of Inr cs \<Rightarrow> set cs = {c. \<exists>k \<in> set kinds. \<exists>n. cview s (k, n) = Some c} | Inl e \<Rightarrow> env_failure e)"
  using assms listing[OF assms(2,1)]
  by (cases "bk_open B s") (auto simp: BoltDB_List_def with_open_def)

end

sublocale bolt_configs \<subseteq> store: config_store "BoltDB B J" "config_ok B J good" "config_view B J" norm
proof (unfold_locales, unfold BoltDB_def cstore.simps, goal_cases)
  case (1 s c s' r)
  then show ?case using bolt_get_law by blast
next
  case (2 s c now s' r)
  then show ?case using bolt_create_law[OF 2(1,2,3)] by blast
next
  case (3 s c now s' r)
  then show ?case using bolt_update_law[OF 3(1,2,3)] by blast
next
  case (4 s c s' r)
  then show ?case using bolt_delete_law[OF 4(1,2,3)] by blast
next
  case (5 s kinds s' r)
  then show ?case using bolt_list_law[OF 5(1,2,3)] by blast
next
  case (13 s k c)
  then show ?case using view_get(2)[OF 13(1) _ _ fresh_empty]
    by (cases k) (force simp: config_view_def split: if_splits option.splits)
qed (rule json_norm_key json_norm_times json_norm_version json_norm_fields; assumption)+

context bolt_configs
begin

lemma is_config_store: "config_store (BoltDB B J) (config_ok B J good) (config_view B J) norm"
  by unfold_locales

text \<open>No call on configs changes the records of the same file.\<close>

lemma calls_keep_records:
  assumes "cok s" and "bolt_ok B good s" and "c_Kind c \<in> set config_kinds"
    and "fresh_config t" and "c_Kind t \<in> set config_kinds"
    and "s' \<in> {fst (BoltDB_Create B J now c s), fst (BoltDB_Update B J now c s), fst (BoltDB_Delete B c s),
              fst (BoltDB_Get B J t s)}"
  shows "bolt_ok B good s' \<and> bolt_view B seq s' = bolt_view B seq s"
proof -
  have "cok s' \<and> elsewhere s s'"
    using assms(6) bolt_get_law[OF assms(1,5,4), of s' "snd (BoltDB_Get B J t s)"]
      bolt_create_law[OF assms(1,3), of now s' "snd (BoltDB_Create B J now c s)"]
      bolt_update_law[OF assms(1,3), of now s' "snd (BoltDB_Update B J now c s)"]
      bolt_delete_law[OF assms(1,3), of s' "snd (BoltDB_Delete B c s)"]
    by (auto simp: prod_eq_iff)
  then show ?thesis using elsewhere_records[OF _ _ assms(2)] by (simp add: config_ok_def)
qed

end

subsection \<open>A codec with the laws\<close>

text \<open>
  Configs whose values are strings, written as a list of strings: the fields, then each map as its
  entries in key order. Together with \<^const>\<open>ref_bolt\<close> it shows that the laws can hold.
\<close>

definition pack_string :: "string \<Rightarrow> bytes" where
  "pack_string s = concat (map (\<lambda>c. [1, of_nat (code_of c)]) s) @ [0]"

definition pack :: "string list \<Rightarrow> bytes" where
  "pack ss = concat (map pack_string ss)"

fun unpack :: "string \<Rightarrow> bytes \<Rightarrow> string list option" where
  "unpack acc [] = (if acc = [] then Some [] else None)"
| "unpack acc [b] = (if b = 0 then Some [rev acc] else None)"
| "unpack acc (b # c # bs) =
     (if b = 0 then map_option (Cons (rev acc)) (unpack [] (c # bs)) else unpack (char_of (unat c) # acc) bs)"

lemma unpack_string: "unpack acc (pack_string s @ bs) = map_option (Cons (rev acc @ s)) (unpack [] bs)"
proof (induction s arbitrary: acc)
  case Nil
  then show ?case by (cases bs) (simp_all add: pack_string_def)
next
  case (Cons c s)
  have "unat (of_nat (code_of c) :: byte) = code_of c" by (simp add: unat_of_nat)
  then show ?case using Cons by (simp add: pack_string_def)
qed

lemma unpack_pack [simp]: "unpack [] (pack ss) = Some ss"
  by (induction ss) (simp_all add: pack_def unpack_string)

definition entries_of :: "(string, string) gomap \<Rightarrow> string list" where
  "entries_of m = concat (map (\<lambda>k. [''+'', k, the (map_get m k)]) (sorted_list_of_set (dom (map_get m)))) @ [''.'']"

definition add_entry :: "string \<Rightarrow> string \<Rightarrow> (string, string) gomap \<times> 'a \<Rightarrow> (string, string) gomap \<times> 'a" where
  "add_entry k v p = (Some ((map_get (fst p))(k \<mapsto> v)), snd p)"

fun read_entries :: "string list \<Rightarrow> ((string, string) gomap \<times> string list) option" where
  "read_entries (x # k # v # ss) =
     (if x = ''.'' then Some (None, k # v # ss) else map_option (add_entry k v) (read_entries ss))"
| "read_entries (x # ss) = (if x = ''.'' then Some (None, ss) else None)"
| "read_entries [] = None"

definition omit_empty :: "(string, 'v) gomap \<Rightarrow> (string, 'v) gomap" where
  "omit_empty m = (if map_get m = Map.empty then None else m)"

lemma read_end: "read_entries (''.'' # ss) = Some (None, ss)"
  by (cases ss; cases "tl ss") auto

lemma read_entries_list:
  "distinct ks \<Longrightarrow> ks \<noteq> [] \<Longrightarrow>
   read_entries (concat (map (\<lambda>k. [''+'', k, the (m k)]) ks) @ ''.'' # rest)
     = Some (Some (\<lambda>k. if k \<in> set ks then Some (the (m k)) else None), rest)"
proof (induction ks)
  case (Cons k ks)
  show ?case
  proof (cases ks)
    case Nil
    then show ?thesis by (auto simp: read_end add_entry_def)
  next
    case (Cons l ls)
    then have "ks \<noteq> []" by simp
    then show ?thesis using Cons.IH Cons.prems by (auto simp: add_entry_def fun_eq_iff)
  qed
qed simp

lemma read_entries_of:
  assumes "finite (dom (map_get m))"
  shows "read_entries (entries_of m @ rest) = Some (omit_empty m, rest)"
proof (cases "dom (map_get m) = {}")
  case True
  then show ?thesis by (simp add: entries_of_def omit_empty_def read_end)
next
  case False
  then obtain f where m: "m = Some f" by (cases m) auto
  have "(if k \<in> dom f then Some (the (f k)) else None) = f k" for k by (cases "f k") auto
  then show ?thesis
    using assms False read_entries_list[of "sorted_list_of_set (dom f)" f rest]
    by (simp add: m entries_of_def omit_empty_def)
qed

definition text_marshal :: "string Config \<Rightarrow> string + bytes" where
  "text_marshal c =
     (let m = c_Metadata c
      in if finite (dom (map_get (cm_Annotations m))) \<and> finite (dom (map_get (c_Spec c))) \<and> finite (dom (map_get (c_Status c)))
         then Inr (pack ([c_Version c, c_Kind c, cm_Name m, cm_Created m, cm_Updated m]
                         @ entries_of (cm_Annotations m) @ entries_of (c_Spec c) @ entries_of (c_Status c)))
         else Inl ''unsupported value'')"

definition text_unmarshal :: "bytes \<Rightarrow> string Config \<Rightarrow> string + string Config" where
  "text_unmarshal b t =
     (case unpack [] b of
        Some (ver # kind # name # cr # up # r0) \<Rightarrow>
          (case read_entries r0 of None \<Rightarrow> Inl ''invalid'' | Some (an, r1) \<Rightarrow>
          (case read_entries r1 of None \<Rightarrow> Inl ''invalid'' | Some (sp, r2) \<Rightarrow>
          (case read_entries r2 of None \<Rightarrow> Inl ''invalid'' | Some (stat, r3) \<Rightarrow>
             Inr \<lparr>c_Version = ver, c_Kind = kind,
                  c_Metadata = \<lparr>cm_Name = name, cm_Created = cr, cm_Updated = up, cm_Annotations = an\<rparr>,
                  c_Spec = sp, c_Status = stat\<rparr>)))
      | _ \<Rightarrow> Inl ''invalid'')"

definition text_json :: "string json" where
  "text_json = \<lparr>js_marshal = text_marshal, js_unmarshal = text_unmarshal\<rparr>"

definition text_norm :: "string Config \<Rightarrow> string Config" where
  "text_norm c =
     c\<lparr>c_Metadata := (c_Metadata c)\<lparr>cm_Annotations := omit_empty (cm_Annotations (c_Metadata c))\<rparr>,
       c_Spec := omit_empty (c_Spec c), c_Status := omit_empty (c_Status c)\<rparr>"

interpretation tcs: bolt_configs ref_bolt rb_good rb_seq text_json text_norm
proof unfold_locales
  show "js_unmarshal text_json b t = Inr (text_norm c)" if "js_marshal text_json c = Inr b" for c b t
    using that read_entries_of[of "c_Status c" "[]"]
    by (auto simp: text_json_def text_marshal_def text_unmarshal_def text_norm_def Let_def read_entries_of split: if_splits)
  show "k \<noteq> [] \<and> length k \<le> 32768 \<and> length v \<le> 2 ^ 31 - 2" if "bk_put ref_bolt tx p k v = Inr tx'" for tx p k v tx'
    using that by (auto simp: rb_put_def split: if_splits)
qed (simp_all add: text_norm_def omit_empty_def)

subsection \<open>A store in memory\<close>

text \<open>A store that is a list of configs with their keys, for examples that are evaluated.\<close>

type_synonym 'v al_store = "((string \<times> string) \<times> 'v Config) list"

definition al_cstore :: "('v al_store, 'v) cstore" where
  "al_cstore =
     \<lparr>cs_list = (\<lambda>kinds al. (al, Inr (concat (map (\<lambda>k. map snd (filter (\<lambda>((k', n), c). k' = k) al)) kinds)))),
      cs_get = (\<lambda>c al. (al, case map_of al (config_key c) of None \<Rightarrow> Inl (ConfigNotExist (c_Name c) (c_Kind c)) | Some c' \<Rightarrow> Inr c')),
      cs_create = (\<lambda>now c al. if map_of al (config_key c) = None
         then (AList.update (config_key c) (created_at now c) al, Inr (created_at now c)) else (al, Inl ConfigExist)),
      cs_update = (\<lambda>now c al. if map_of al (config_key c) = None then (al, Inl (ConfigNotExist (c_Name c) (c_Kind c)))
         else (AList.update (config_key c) (updated_at now c) al, Inr (updated_at now c))),
      cs_delete = (\<lambda>c al. if map_of al (config_key c) = None then (al, Inl (ConfigNotExist (c_Name c) (c_Kind c)))
         else (AList.delete (config_key c) al, Inr ()))\<rparr>"

definition al_ok :: "'v al_store \<Rightarrow> bool" where
  "al_ok al \<longleftrightarrow> distinct (map fst al) \<and> (\<forall>k c. map_of al k = Some c \<longrightarrow> config_key c = k)"

lemma stamped_key [simp]: "config_key (created_at now c) = config_key c" "config_key (updated_at now c) = config_key c"
  by (simp_all add: created_at_def updated_at_def Let_def)

lemma al_ok_update: "al_ok al \<Longrightarrow> config_key c = k \<Longrightarrow> al_ok (AList.update k c al)"
  by (auto simp: al_ok_def distinct_update split: if_splits)

lemma al_ok_delete: "al_ok al \<Longrightarrow> al_ok (AList.delete k al)"
  by (auto simp: al_ok_def distinct_delete split: if_splits)

lemma al_list:
  assumes "al_ok al"
  shows "set (concat (map (\<lambda>k. map snd (filter (\<lambda>((k', n), c). k' = k) al)) kinds))
    = {c. \<exists>k \<in> set kinds. \<exists>n. map_of al (k, n) = Some c}"
proof -
  have "map_of al kn = Some c \<longleftrightarrow> (kn, c) \<in> set al" for kn c
    using assms by (simp add: al_ok_def)
  then show ?thesis by (force simp: image_iff)
qed

interpretation al: config_store al_cstore al_ok map_of "\<lambda>c. c"
proof (unfold_locales, unfold al_cstore_def cstore.simps, goal_cases)
  case (2 s c now s' r)
  then show ?case using al_ok_update[OF 2(1), of "created_at now c" "config_key c"] by (auto split: if_splits)
next
  case (3 s c now s' r)
  then show ?case using al_ok_update[OF 3(1), of "updated_at now c" "config_key c"]
    by (auto simp: existing_outcome_def split: if_splits)
next
  case (4 s c s' r)
  then show ?case using al_ok_delete[OF 4(1), of "config_key c"] by (auto simp: existing_outcome_def split: if_splits)
next
  case (5 s kinds s' r)
  then show ?case using al_list[OF 5(1), of kinds] by auto
qed (auto simp: al_ok_def existing_outcome_def split: option.splits)

subsection \<open>Properties\<close>




text \<open>A file with one record and no configs.\<close>

lemma demo_configs_ok: "config_ok ref_bolt text_json rb_good demo_db"
proof -
  have "rb_good demo_db" using demo_ok by (simp add: bolt_ok_def)
  then show ?thesis
    by (auto simp: config_ok_def demo_db_def rb_defs config_kinds_def StoredVersion_def boltRecordsBucket_def split: if_splits)
qed


end
