(* ===== verification/Builder_Published.thy ===== *)
theory Builder_Published
  imports Builder_Calls Config_Store
begin

section \<open>Published documents\<close>

text \<open>
  \<^verbatim>\<open>api/builder/published.go\<close>: the immutable, content-addressed copies of the documents that configs
  were published from, with the checks on their metadata and on the references to them
  (\<^verbatim>\<open>validate.go\<close>, \<^verbatim>\<open>content.go\<close>). A document is a record of metadata and one of compressed content, which
  are written and removed in one transaction. Cleaning up is in \<open>Builder_Cleanup\<close>.

  Parameters, in \<open>pub_env\<close>, beside those of drafts: the JSON of metadata and of references, the fields
  that a damaged record still shows, the schema a document names, and the kinds of configs. A call
  that carries on after a failure returns what it has done and the list of its failures: the list is
  empty where the code returns a nil \<^verbatim>\<open>CleanupError\<close>. Log messages are left out.
\<close>

subsection \<open>Data\<close>

record PublishedDocument =
  pd_ID :: string
  pd_Digest :: string
  pd_Size :: int
  pd_CompressedSize :: int
  pd_Target :: string
  pd_Kind :: string
  pd_DraftID :: string
  pd_SnapshotID :: string
  pd_CreatedAt :: time
  pd_CreatedBy :: string
  pd_Schema :: string
  pd_Revision :: int64
  pd_published :: time

record DocumentReference =
  rf_Digest :: string
  rf_ID :: string
  rf_Path :: string

record PutPublishedDocumentRequest =
  pp_Target :: string
  pp_Kind :: string
  pp_Actor :: string
  pp_Document :: bytes
  pp_DraftID :: string
  pp_SnapshotID :: string

record DamagedDocument =
  dg_ID :: string
  dg_Kind :: string
  dg_Target :: string
  dg_Revision :: int64

text \<open>Times are nanoseconds since the Unix epoch; the zero time of Go is the first of January of year 1.\<close>

definition nanos :: time where "nanos = 10 ^ 9"
definition zero_time :: time where "zero_time = - 62135596800 * nanos"
definition OrphanGracePeriod :: time where "OrphanGracePeriod = 3600 * nanos"
definition MaxKindLength :: nat where "MaxKindLength = 64"
definition MaxDocumentPathLength :: nat where "MaxDocumentPathLength = 1024"
definition DocumentAnnotation :: string where "DocumentAnnotation = ''builder-doc''"
definition SchemaURI :: string where "SchemaURI = ''https://phenix.sandia.gov/schemas/builder/v1''"

definition record_time :: "store_record \<Rightarrow> time" where
  "record_time r = sint (r_updated r)"

record 'x pub_env =
  pe_bld :: "'x bld_env"
  pe_enc :: "PublishedDocument \<Rightarrow> string + bytes"
  pe_dec :: "bytes \<Rightarrow> string + PublishedDocument"
  pe_schema :: "'x Document \<Rightarrow> string"
  pe_fields :: "bytes \<Rightarrow> (string \<times> string) option"
  pe_ref_enc :: "DocumentReference \<Rightarrow> string + string"
  pe_ref_dec :: "string \<Rightarrow> string + (string \<times> string option) list option"
  pe_case :: unicase
  pe_kinds :: "string list"

subsection \<open>Identifiers and keys\<close>

definition bytes_of :: "string \<Rightarrow> bytes" where
  "bytes_of s = map (\<lambda>c. word_of_nat (code_of c)) s"

definition PublishedDocumentID :: "'x bld_env \<Rightarrow> string \<Rightarrow> string \<Rightarrow> string" where
  "PublishedDocumentID E target digest = hex_of (be_sha256 E (bytes_of (target @ [CHR 0x1F] @ digest)))"

definition publishedKey :: "string \<Rightarrow> string" where
  "publishedKey documentID = ''published'' @ ''/'' @ documentID"

text \<open>The draft of a content key, empty for one of a published document; \<^const>\<open>None\<close> for no content key.\<close>

definition contentDraftOf :: "string \<Rightarrow> string option" where
  "contentDraftOf key =
     (case split_on CHR ''/'' key of
        [a, b, c] \<Rightarrow> if a = ''drafts'' \<and> b \<noteq> [] \<and> c \<noteq> [] then Some b else None
      | [a, b] \<Rightarrow> if a = ''published'' \<and> b \<noteq> [] then Some [] else None
      | _ \<Rightarrow> None)"

subsection \<open>References\<close>

definition Reference :: "PublishedDocument \<Rightarrow> DocumentReference" where
  "Reference p = \<lparr>rf_Digest = pd_Digest p, rf_ID = pd_ID p, rf_Path = []\<rparr>"

definition StoredID :: "'x bld_env \<Rightarrow> DocumentReference \<Rightarrow> string \<Rightarrow> string" where
  "StoredID E r topology =
     (if rf_ID r \<noteq> [] then rf_ID r
      else if rf_Digest r \<noteq> [] then PublishedDocumentID E topology (rf_Digest r)
      else [])"

definition Names :: "'x bld_env \<Rightarrow> DocumentReference \<Rightarrow> PublishedDocument option \<Rightarrow> bool" where
  "Names E r doc =
     (case doc of
        None \<Rightarrow> False
      | Some d \<Rightarrow> StoredID E r (pd_Target d) = pd_ID d \<and> (rf_Digest r = [] \<or> rf_Digest r = pd_Digest d))"

definition Publishes :: "'x bld_env \<Rightarrow> DocumentReference \<Rightarrow> string \<Rightarrow> string \<Rightarrow> bool" where
  "Publishes E r topology digest \<longleftrightarrow>
     StoredID E r topology = PublishedDocumentID E topology digest \<and> (rf_Digest r = [] \<or> rf_Digest r = digest)"

text \<open>\<^verbatim>\<open>path.Clean\<close> of a path that starts with a slash, and \<^verbatim>\<open>path.Ext\<close>.\<close>

fun clean_segments :: "string list \<Rightarrow> string list \<Rightarrow> string list" where
  "clean_segments done [] = done"
| "clean_segments done (x # xs) =
     (if x = [] \<or> x = ''.'' then clean_segments done xs
      else if x = ''..'' then clean_segments (butlast done) xs
      else clean_segments (done @ [x]) xs)"

definition clean_rooted :: "string \<Rightarrow> string" where
  "clean_rooted p = ''/'' @ join_with ''/'' (clean_segments [] (split_on CHR ''/'' p))"

definition path_ext :: "string \<Rightarrow> string" where
  "path_ext p =
     (let name = last (split_on CHR ''/'' p)
      in if CHR ''.'' \<in> set name then CHR ''.'' # rev (takeWhile (\<lambda>c. c \<noteq> CHR ''.'') (rev name)) else [])"

definition ValidateDocumentPath :: "string \<Rightarrow> bld_err option" where
  "ValidateDocumentPath value =
     (let field = DocumentAnnotation @ ''.path''
      in case validateText field value MaxDocumentPathLength True of
           Some e \<Rightarrow> Some e
         | None \<Rightarrow>
             if \<not> prefix ''/'' value then Some (Invalid field ''must be an absolute path'')
             else if clean_rooted value \<noteq> value then Some (Invalid field ''must be a clean path'')
             else if path_ext value \<notin> {''.json'', ''.yaml'', ''.yml''} then Some (Invalid field ''must end in .json, .yaml or .yml'')
             else None)"

definition validateReference :: "DocumentReference \<Rightarrow> bld_err option" where
  "validateReference r =
     (if r = \<lparr>rf_Digest = [], rf_ID = [], rf_Path = []\<rparr> then Some (Invalid DocumentAnnotation ''must name a digest, an id or a path'')
      else if rf_Digest r \<noteq> [] \<and> \<not> IsDigest (rf_Digest r) then Some (Invalid DocumentAnnotation ''digest is not a sha256 digest'')
      else if rf_ID r \<noteq> [] \<and> validateID ''id'' (rf_ID r) \<noteq> None then Some (Invalid DocumentAnnotation ''id is not a valid document identifier'')
      else if rf_Path r \<noteq> [] then ValidateDocumentPath (rf_Path r)
      else None)"

definition EncodeReference :: "'x pub_env \<Rightarrow> DocumentReference \<Rightarrow> bld_err + string" where
  "EncodeReference P r = (case pe_ref_enc P r of Inl m \<Rightarrow> Inl (BldFailure m) | Inr s \<Rightarrow> Inr s)"

text \<open>The loop over the sub-keys, in the order of their names. A sub-key with the value null is \<^const>\<open>None\<close>.\<close>

fun read_subkeys :: "(string \<times> string option) list \<Rightarrow> DocumentReference \<Rightarrow> bld_err + DocumentReference" where
  "read_subkeys [] r = Inr r"
| "read_subkeys ((k, v) # kvs) r =
     (if k \<notin> {''digest'', ''id'', ''path''} then Inl (Invalid DocumentAnnotation ''has an unknown sub-key'')
      else
        (case v of
           None \<Rightarrow> Inl (Invalid DocumentAnnotation (k @ '' must be text that is not empty''))
         | Some t \<Rightarrow>
             if t = [] then Inl (Invalid DocumentAnnotation (k @ '' must be text that is not empty''))
             else read_subkeys kvs
                    (if k = ''digest'' then r\<lparr>rf_Digest := t\<rparr> else if k = ''id'' then r\<lparr>rf_ID := t\<rparr> else r\<lparr>rf_Path := t\<rparr>)))"

definition DecodeReference :: "'x pub_env \<Rightarrow> string \<Rightarrow> bld_err + DocumentReference" where
  "DecodeReference P value =
     (case pe_ref_dec P value of
        Inl m \<Rightarrow> Inl (Invalid DocumentAnnotation m)
      | Inr None \<Rightarrow> Inl (Invalid DocumentAnnotation ''must be a map of digest, id and path'')
      | Inr (Some subs) \<Rightarrow>
          (case read_subkeys (sort_key fst subs) \<lparr>rf_Digest = [], rf_ID = [], rf_Path = []\<rparr> of
             Inl e \<Rightarrow> Inl e
           | Inr r \<Rightarrow> (case validateReference r of Some e \<Rightarrow> Inl e | None \<Rightarrow> Inr r)))"

subsection \<open>Metadata\<close>

definition manifest_of :: "PublishedDocument \<Rightarrow> SnapshotManifest" where
  "manifest_of p =
     \<lparr>sm_ID = pd_ID p, sm_Digest = pd_Digest p, sm_Size = pd_Size p, sm_CompressedSize = pd_CompressedSize p,
      sm_CreatedAt = pd_CreatedAt p, sm_CreatedBy = pd_CreatedBy p, sm_Summary = [], sm_OpID = []\<rparr>"

definition validatePublishedMetadata :: "'x bld_env \<Rightarrow> string \<Rightarrow> PublishedDocument \<Rightarrow> bld_err option" where
  "validatePublishedMetadata E key d =
     (if pd_ID d \<noteq> key then Some (Corrupt kindPublished key ''metadata claims to be another document'')
      else if validateID ''documentID'' (pd_ID d) \<noteq> None then Some (Corrupt kindPublished key ''document ID is not a valid identifier'')
      else if pd_Target d = [] then Some (Corrupt kindPublished key ''metadata has no target'')
      else if pd_Kind d = [] then Some (Corrupt kindPublished key ''metadata has no kind'')
      else if pd_ID d \<noteq> PublishedDocumentID E (pd_Target d) (pd_Digest d)
      then Some (Corrupt kindPublished key ''document ID does not match its target and digest'')
      else if validateOptionalID ''draftID'' (pd_DraftID d) \<noteq> None then Some (Corrupt kindPublished key ''metadata names an invalid draft'')
      else if validateOptionalID ''snapshotID'' (pd_SnapshotID d) \<noteq> None then Some (Corrupt kindPublished key ''metadata names an invalid snapshot'')
      else if pd_Schema d \<noteq> [] \<and> pd_Schema d \<noteq> SchemaURI then Some (Corrupt kindPublished key ''metadata has another schema'')
      else validateManifestShape kindPublished key (manifest_of d))"

definition stored_as :: "store_record \<Rightarrow> PublishedDocument \<Rightarrow> PublishedDocument" where
  "stored_as r p = p\<lparr>pd_Revision := r_revision r, pd_published := record_time r\<rparr>"

definition decodePublished :: "'x pub_env \<Rightarrow> store_record \<Rightarrow> bld_err + PublishedDocument" where
  "decodePublished P r =
     (case pe_dec P (r_value r) of
        Inl m \<Rightarrow> Inl (Corrupt kindPublished (r_key r) m)
      | Inr d \<Rightarrow>
          (case validatePublishedMetadata (pe_bld P) (r_key r) d of
             Some e \<Rightarrow> Inl e
           | None \<Rightarrow> Inr (d\<lparr>pd_Revision := r_revision r, pd_published := record_time r\<rparr>)))"

definition encodePublished :: "'x pub_env \<Rightarrow> PublishedDocument \<Rightarrow> bld_err + bytes" where
  "encodePublished P d =
     (case pe_enc P d of
        Inl m \<Rightarrow> Inl (BldFailure m)
      | Inr v \<Rightarrow>
          if int (length v) > MaxMetadataBytes then Inl (TooLarge ''published document metadata'' (int (length v)) MaxMetadataBytes)
          else Inr v)"

text \<open>When a document was stored or published again.\<close>

definition lastPublished :: "PublishedDocument \<Rightarrow> time" where
  "lastPublished p = (if pd_published p > pd_CreatedAt p then pd_published p else pd_CreatedAt p)"

subsection \<open>Storing\<close>

definition validatePutRequest :: "PutPublishedDocumentRequest \<Rightarrow> bld_err option" where
  "validatePutRequest req =
     (case validateText ''target'' (pp_Target req) MaxTargetLength True of Some e \<Rightarrow> Some e | None \<Rightarrow>
     (case validateText ''kind'' (pp_Kind req) MaxKindLength True of Some e \<Rightarrow> Some e | None \<Rightarrow>
     (case validateText ''actor'' (pp_Actor req) MaxOwnerLength True of Some e \<Rightarrow> Some e | None \<Rightarrow>
     (case validateOptionalID ''draftID'' (pp_DraftID req) of Some e \<Rightarrow> Some e | None \<Rightarrow>
        validateOptionalID ''snapshotID'' (pp_SnapshotID req)))))"

definition canonicalDocument :: "'x bld_env \<Rightarrow> bytes \<Rightarrow> bld_err + bytes \<times> 'x Document" where
  "canonicalDocument E data =
     (case parseDocument E data of
        Inl e \<Rightarrow> Inl e
      | Inr d \<Rightarrow> (case encodeDocument E d of Inl e \<Rightarrow> Inl e | Inr c \<Rightarrow> Inr (c, d)))"

definition ParseDocument :: "'x bld_env \<Rightarrow> bytes \<Rightarrow> bld_err + 'x Document" where
  "ParseDocument E data = map_sum id snd (canonicalDocument E data)"

text \<open>Runs \<open>m\<close> and goes on with its result, whichever it is.\<close>

definition tryE :: "('s, 'e, 'a) action \<Rightarrow> ('e + 'a \<Rightarrow> ('s, 'f, 'b) action) \<Rightarrow> ('s, 'f, 'b) action" where
  "tryE m k s = (case m s of (s', r) \<Rightarrow> k r s')"

text \<open>\<^const>\<open>readPayload\<close> inside a transaction.\<close>

definition readPayload_tx ::
  "'x bld_env \<Rightarrow> 't tx_ops \<Rightarrow> string \<Rightarrow> string \<Rightarrow> string \<Rightarrow> SnapshotManifest \<Rightarrow> ('t, bytes) bld_action" where
  "readPayload_tx E T kind i key m =
     bindE (checkE (validateManifestShape kind i m)) (\<lambda>_.
       callE (tx_get T NamespaceContent key) (\<lambda>r.
         case r of
           Inl (RecordNotExist _ _) \<Rightarrow> failE (Corrupt kind i ''content is missing'')
         | Inl e \<Rightarrow> failE (BStore e)
         | Inr rec \<Rightarrow> readE (\<lambda>_. verify_payload E kind i m (r_value rec))))"

definition putPublished ::
  "'x pub_env \<Rightarrow> 't tx_ops \<Rightarrow> PublishedDocument \<Rightarrow> bytes \<Rightarrow> payload \<Rightarrow> ('t, PublishedDocument) bld_action" where
  "putPublished P T doc value load =
     (let now = be_written (pe_bld P);
          i = pd_ID doc
      in callE (tx_get T NamespacePublished i) (\<lambda>r.
           case r of
             Inl (RecordNotExist _ _) \<Rightarrow>
               bindE (putContent T now (publishedKey i) load) (\<lambda>_.
                 callE (tx_create T now NamespacePublished i value) (\<lambda>r.
                   case r of
                     Inl e \<Rightarrow> failE (storeError kindPublished i AnyRevision e)
                   | Inr rec \<Rightarrow> retE (stored_as rec doc)))
           | Inl e \<Rightarrow> failE (storeError kindPublished i AnyRevision e)
           | Inr rec \<Rightarrow>
               bindE (readE (\<lambda>_. decodePublished P rec)) (\<lambda>existing.
                 tryE (readPayload_tx (pe_bld P) T kindPublished (pd_ID existing) (publishedKey (pd_ID existing)) (manifest_of existing))
                   (\<lambda>r. case r of
                      Inr _ \<Rightarrow>
                        callE (tx_update T now NamespacePublished i (r_value rec) (r_revision rec)) (\<lambda>r.
                          case r of
                            Inl e \<Rightarrow> failE (storeError kindPublished i 0 e)
                          | Inr rec' \<Rightarrow> retE (stored_as rec' existing))
                    | Inl (Corrupt _ _ _) \<Rightarrow>
                        bindE (putContent T now (publishedKey i) load) (\<lambda>_.
                          callE (tx_update T now NamespacePublished i value (r_revision rec)) (\<lambda>r.
                            case r of
                              Inl e \<Rightarrow> failE (storeError kindPublished i (r_revision rec) e)
                            | Inr rec' \<Rightarrow> retE (stored_as rec' doc)))
                    | Inl e \<Rightarrow> failE e))))"

definition pub_txn :: "'s rec_store \<Rightarrow> string \<Rightarrow> int64 \<Rightarrow> ('s, 'a) bld_action \<Rightarrow> ('s, 'a) bld_action" where
  "pub_txn S i expected fn s =
     (case record_txn S (\<lambda>e. BStore (cause e)) fn s of
        (s', Inl e) \<Rightarrow> (s', Inl (txnError kindPublished i expected e))
      | (s', Inr x) \<Rightarrow> (s', Inr x))"

definition new_document :: "'x pub_env \<Rightarrow> PutPublishedDocumentRequest \<Rightarrow> payload \<Rightarrow> 'x Document \<Rightarrow> PublishedDocument" where
  "new_document P req load parsed =
     \<lparr>pd_ID = PublishedDocumentID (pe_bld P) (pp_Target req) (pl_digest load), pd_Digest = pl_digest load, pd_Size = pl_size load,
      pd_CompressedSize = int (length (pl_compressed load)), pd_Target = pp_Target req, pd_Kind = pp_Kind req,
      pd_DraftID = pp_DraftID req, pd_SnapshotID = pp_SnapshotID req, pd_CreatedAt = be_now (pe_bld P),
      pd_CreatedBy = pp_Actor req, pd_Schema = pe_schema P parsed, pd_Revision = AnyRevision, pd_published = zero_time\<rparr>"

definition PutPublishedDocument ::
  "'x pub_env \<Rightarrow> 's rec_store \<Rightarrow> PutPublishedDocumentRequest \<Rightarrow> ('s, PublishedDocument) bld_action" where
  "PutPublishedDocument P S req =
     bindE (checkE (ctx_err (pe_bld P))) (\<lambda>_.
     bindE (checkE (validatePutRequest req)) (\<lambda>_.
     bindE (readE (\<lambda>_. canonicalDocument (pe_bld P) (pp_Document req))) (\<lambda>(canonical, parsed).
     bindE (readE (\<lambda>_. buildPayload (pe_bld P) canonical)) (\<lambda>load.
       let doc = new_document P req load parsed
       in bindE (readE (\<lambda>_. encodePublished P doc)) (\<lambda>value.
            pub_txn S (pd_ID doc) AnyRevision (putPublished P (rd_tx S) doc value load))))))"

subsection \<open>Reading\<close>

definition GetPublishedDocument :: "'x pub_env \<Rightarrow> 's rec_store \<Rightarrow> string \<Rightarrow> ('s, PublishedDocument) bld_action" where
  "GetPublishedDocument P S documentID =
     bindE (checkE (ctx_err (pe_bld P))) (\<lambda>_.
     bindE (checkE (validateID ''documentID'' documentID)) (\<lambda>_.
     bindE (readingE (storeError kindPublished documentID AnyRevision) (rd_get S NamespacePublished documentID)) (\<lambda>r.
       readE (\<lambda>_. decodePublished P r))))"

definition GetPublishedDocumentData :: "'x pub_env \<Rightarrow> 's rec_store \<Rightarrow> string \<Rightarrow> ('s, PublishedDocument \<times> bytes) bld_action" where
  "GetPublishedDocumentData P S documentID =
     bindE (GetPublishedDocument P S documentID) (\<lambda>doc.
     bindE (readPayload (pe_bld P) S kindPublished (pd_ID doc) (publishedKey (pd_ID doc)) (manifest_of doc)) (\<lambda>data.
     bindE (readE (\<lambda>_. parseStored (pe_bld P) kindPublished (pd_ID doc) data)) (\<lambda>_.
       retE (doc, data))))"

fun sort_published :: "'x pub_env \<Rightarrow> store_record list \<Rightarrow> PublishedDocument list \<times> (string \<times> bld_err) list" where
  "sort_published P [] = ([], [])"
| "sort_published P (r # rs) =
     (case sort_published P rs of
        (docs, bad) \<Rightarrow> (case decodePublished P r of Inl e \<Rightarrow> (docs, (r_key r, e) # bad) | Inr d \<Rightarrow> (d # docs, bad)))"

definition listReadablePublished ::
  "'x pub_env \<Rightarrow> 's rec_store \<Rightarrow> ('s, PublishedDocument list \<times> (string \<times> bld_err) list) bld_action" where
  "listReadablePublished P S =
     bindE (checkE (ctx_err (pe_bld P))) (\<lambda>_.
     bindE (readingE BStore (rd_list S NamespacePublished [])) (\<lambda>rs. retE (sort_published P rs)))"

definition ListPublishedDocuments :: "'x pub_env \<Rightarrow> 's rec_store \<Rightarrow> ('s, PublishedDocument list) bld_action" where
  "ListPublishedDocuments P S = bindE (listReadablePublished P S) (\<lambda>(docs, bad). retE docs)"

definition checkDamaged :: "'x pub_env \<Rightarrow> store_record \<Rightarrow> bld_err option" where
  "checkDamaged P r =
     (case decodePublished P r of
        Inr _ \<Rightarrow> Some (Invalid ''documentID'' ''the published document is not damaged'')
      | Inl _ \<Rightarrow> None)"

definition GetDamagedDocument :: "'x pub_env \<Rightarrow> 's rec_store \<Rightarrow> string \<Rightarrow> ('s, DamagedDocument) bld_action" where
  "GetDamagedDocument P S documentID =
     bindE (checkE (ctx_err (pe_bld P))) (\<lambda>_.
     bindE (checkE (validateID ''documentID'' documentID)) (\<lambda>_.
     bindE (readingE (storeError kindPublished documentID AnyRevision) (rd_get S NamespacePublished documentID)) (\<lambda>r.
     bindE (checkE (checkDamaged P r)) (\<lambda>_.
       retE
         (case pe_fields P (r_value r) of
            Some (kind, target) \<Rightarrow>
              if validateText ''target'' target MaxTargetLength True = None \<and> validateText ''kind'' kind MaxKindLength True = None
              then \<lparr>dg_ID = documentID, dg_Kind = kind, dg_Target = target, dg_Revision = r_revision r\<rparr>
              else \<lparr>dg_ID = documentID, dg_Kind = [], dg_Target = [], dg_Revision = r_revision r\<rparr>
          | None \<Rightarrow> \<lparr>dg_ID = documentID, dg_Kind = [], dg_Target = [], dg_Revision = r_revision r\<rparr>)))))"

subsection \<open>Removing\<close>

definition DeleteDamagedDocument :: "'x pub_env \<Rightarrow> 's rec_store \<Rightarrow> string \<Rightarrow> int64 \<Rightarrow> ('s, unit) bld_action" where
  "DeleteDamagedDocument P S documentID revision =
     bindE (checkE (ctx_err (pe_bld P))) (\<lambda>_.
     bindE (checkE (validateID ''documentID'' documentID)) (\<lambda>_.
       pub_txn S documentID revision
         (callE (tx_get (rd_tx S) NamespacePublished documentID) (\<lambda>r.
            case r of
              Inl e \<Rightarrow> failE (storeError kindPublished documentID revision e)
            | Inr rec \<Rightarrow>
                if r_revision rec \<noteq> revision then failE (Conflict kindPublished documentID revision (r_revision rec) [])
                else
                  bindE (checkE (checkDamaged P rec)) (\<lambda>_.
                    callE (tx_delete (rd_tx S) NamespacePublished documentID revision) (\<lambda>r.
                      case r of
                        Inl e \<Rightarrow> failE (storeError kindPublished documentID revision e)
                      | Inr _ \<Rightarrow> dropContent (rd_tx S) (publishedKey documentID)))))))"

definition deletePublished :: "'s rec_store \<Rightarrow> string \<Rightarrow> int64 \<Rightarrow> ('s, unit) bld_action" where
  "deletePublished S documentID revision =
     pub_txn S documentID revision
       (callE (tx_delete (rd_tx S) NamespacePublished documentID revision) (\<lambda>r.
          case r of
            Inl e \<Rightarrow> failE (storeError kindPublished documentID revision e)
          | Inr _ \<Rightarrow> dropContent (rd_tx S) (publishedKey documentID)))"

text \<open>What became of one object of a list: it was kept, it was removed, or removing it failed.\<close>

datatype outcome = Kept | Gone | Failed bld_err

definition deleteListed :: "'s rec_store \<Rightarrow> PublishedDocument \<Rightarrow> ('s, outcome) bld_action" where
  "deleteListed S doc =
     tryE (deletePublished S (pd_ID doc) (pd_Revision doc)) (\<lambda>r.
       case r of
         Inr _ \<Rightarrow> retE Gone
       | Inl (Conflict _ _ _ _ _) \<Rightarrow> retE Kept
       | Inl (NotFound _ _) \<Rightarrow> retE Kept
       | Inl e \<Rightarrow> retE (Failed e))"

end
