(* ===== verification/Builder_Cleanup.thy ===== *)
theory Builder_Cleanup
  imports Builder_Published
begin

section \<open>Cleaning up\<close>

text \<open>
  \<^verbatim>\<open>api/builder/cleanup.go\<close> and the removals of \<^verbatim>\<open>published.go\<close>: removing published documents that no
  topology names any more, content that no metadata names, and drafts that are nothing but their
  publication. A cleanup lists first and removes one object after another, each in a transaction of its
  own, so other requests run in between: \<open>others k\<close> is what they do to the store at the \<open>k\<close>-th place
  where they can. Everything holds for any \<open>others\<close>; a cleanup that runs alone has \<^term>\<open>\<lambda>_ s. s\<close>.
\<close>

subsection \<open>Operations\<close>

definition others_run :: "(nat \<Rightarrow> 's \<Rightarrow> 's) \<Rightarrow> nat \<Rightarrow> ('s, unit) bld_action" where
  "others_run others k s = (others k s, Inr ())"

text \<open>The loops: every object is handled, whatever became of those before it.\<close>

fun each :: "(nat \<Rightarrow> 'a \<Rightarrow> ('s, outcome) bld_action) \<Rightarrow> nat \<Rightarrow> 'a list \<Rightarrow> ('s, outcome list) bld_action" where
  "each f n [] = retE []"
| "each f n (x # xs) = bindE (f n x) (\<lambda>out. bindE (each f (Suc n) xs) (\<lambda>outs. retE (out # outs)))"

fun tally :: "outcome list \<Rightarrow> nat \<times> bld_err list" where
  "tally [] = (0, [])"
| "tally (out # outs) =
     (case tally outs of
        (n, errs) \<Rightarrow> (case out of Kept \<Rightarrow> (n, errs) | Gone \<Rightarrow> (Suc n, errs) | Failed e \<Rightarrow> (n, e # errs)))"

definition deleteDocuments ::
  "'s rec_store \<Rightarrow> (nat \<Rightarrow> 's \<Rightarrow> 's) \<Rightarrow> (PublishedDocument \<Rightarrow> bool) \<Rightarrow> PublishedDocument list \<Rightarrow> ('s, nat \<times> bld_err list) bld_action" where
  "deleteDocuments S others remove docs =
     bindE (each (\<lambda>n doc. if remove doc then bindE (others_run others n) (\<lambda>_. deleteListed S doc) else retE Kept) 0 docs)
       (\<lambda>outs. retE (tally outs))"

definition deleteDocumentsWhere ::
  "'x pub_env \<Rightarrow> 's rec_store \<Rightarrow> (nat \<Rightarrow> 's \<Rightarrow> 's) \<Rightarrow> (PublishedDocument \<Rightarrow> bool) \<Rightarrow> ('s, nat \<times> bld_err list) bld_action" where
  "deleteDocumentsWhere P S others remove =
     bindE (ListPublishedDocuments P S) (\<lambda>docs. deleteDocuments S others remove docs)"

definition superseded :: "'x pub_env \<Rightarrow> string \<Rightarrow> string \<Rightarrow> PublishedDocument \<Rightarrow> bool" where
  "superseded P target keepID doc \<longleftrightarrow>
     pd_Target doc = target \<and> pd_ID doc \<noteq> keepID \<and> be_now (pe_bld P) - lastPublished doc \<ge> OrphanGracePeriod"

definition DeleteSupersededDocuments ::
  "'x pub_env \<Rightarrow> 's rec_store \<Rightarrow> (nat \<Rightarrow> 's \<Rightarrow> 's) \<Rightarrow> string \<Rightarrow> string \<Rightarrow> ('s, nat \<times> bld_err list) bld_action" where
  "DeleteSupersededDocuments P S others target keepID =
     bindE (checkE (validateText ''target'' target MaxTargetLength True)) (\<lambda>_.
     bindE (checkE (validateOptionalID ''keepID'' keepID)) (\<lambda>_.
       deleteDocumentsWhere P S others (superseded P target keepID)))"

definition DeleteTargetDocuments ::
  "'x pub_env \<Rightarrow> 's rec_store \<Rightarrow> (nat \<Rightarrow> 's \<Rightarrow> 's) \<Rightarrow> string \<Rightarrow> ('s, nat \<times> bld_err list) bld_action" where
  "DeleteTargetDocuments P S others target =
     bindE (checkE (validateText ''target'' target MaxTargetLength True)) (\<lambda>_.
       deleteDocumentsWhere P S others (\<lambda>doc. pd_Target doc = target))"

record DeletedConfig =
  dc_Kind :: string
  dc_Name :: string
  dc_DocumentID :: string
  dc_Updated :: time

definition truncate_second :: "time \<Rightarrow> time" where
  "truncate_second t = (t div nanos) * nanos"

definition config_of :: "'x pub_env \<Rightarrow> string \<Rightarrow> string \<Rightarrow> string" where
  "config_of P kind name = ConfigFullName (pe_case P) (pe_kinds P) [kind, name]"

text \<open>When the document the config named was stored, or the zero time.\<close>

definition named_time :: "'x pub_env \<Rightarrow> DeletedConfig \<Rightarrow> string \<Rightarrow> PublishedDocument list \<Rightarrow> time" where
  "named_time P deleted config docs =
     fold (\<lambda>doc named.
        if dc_Updated deleted = zero_time \<or> pd_ID doc \<noteq> dc_DocumentID deleted \<or> config_of P (pd_Kind doc) (pd_Target doc) \<noteq> config
        then named
        else if lastPublished doc < truncate_second (dc_Updated deleted) + nanos then lastPublished doc
        else named) docs zero_time"

definition of_deleted_config :: "'x pub_env \<Rightarrow> DeletedConfig \<Rightarrow> string \<Rightarrow> time \<Rightarrow> PublishedDocument \<Rightarrow> bool" where
  "of_deleted_config P deleted config named doc \<longleftrightarrow>
     config_of P (pd_Kind doc) (pd_Target doc) = config
     \<and> (lastPublished doc < truncate_second (dc_Updated deleted)
        \<or> named \<noteq> zero_time \<and> lastPublished doc \<le> named
        \<or> be_now (pe_bld P) - lastPublished doc \<ge> OrphanGracePeriod)"

definition DeleteConfigDocuments ::
  "'x pub_env \<Rightarrow> 's rec_store \<Rightarrow> (nat \<Rightarrow> 's \<Rightarrow> 's) \<Rightarrow> DeletedConfig \<Rightarrow> ('s, nat \<times> bld_err list) bld_action" where
  "DeleteConfigDocuments P S others deleted =
     bindE (checkE (validateText ''name'' (dc_Name deleted) MaxTargetLength True)) (\<lambda>_.
     bindE (checkE (validateOptionalID ''documentID'' (dc_DocumentID deleted))) (\<lambda>_.
       let config = config_of P (dc_Kind deleted) (dc_Name deleted)
       in if config = [] then failE (Invalid ''kind'' ''must be a config kind'')
          else
            bindE (ListPublishedDocuments P S) (\<lambda>docs.
              deleteDocuments S others (of_deleted_config P deleted config (named_time P deleted config docs)) docs)))"

text \<open>A live document is the name of a topology and the identifier of the document it names.\<close>

type_synonym LiveDocument = "string \<times> string"

definition orphan :: "'x pub_env \<Rightarrow> LiveDocument list \<Rightarrow> PublishedDocument \<Rightarrow> bool" where
  "orphan P referenced doc \<longleftrightarrow>
     (pd_Target doc, pd_ID doc) \<notin> set referenced \<and> be_now (pe_bld P) - lastPublished doc \<ge> OrphanGracePeriod"

definition CleanupOrphanedDocuments ::
  "'x pub_env \<Rightarrow> 's rec_store \<Rightarrow> (nat \<Rightarrow> 's \<Rightarrow> 's) \<Rightarrow> LiveDocument list \<Rightarrow> bool \<Rightarrow> ('s, nat \<times> bld_err list) bld_action" where
  "CleanupOrphanedDocuments P S others referenced dryRun =
     bindE (listReadablePublished P S) (\<lambda>(docs, unreadable).
       if dryRun then retE (length (filter (orphan P referenced) docs), map snd unreadable)
       else bindE (deleteDocuments S others (orphan P referenced) docs) (\<lambda>(removed, errs).
              retE (removed, map snd unreadable @ errs)))"

definition listDrafts :: "'x bld_env \<Rightarrow> 's rec_store \<Rightarrow> ('s, DraftMetadata list \<times> string list) bld_action" where
  "listDrafts E S = bindE (ListDraftsWithDamaged E S) (\<lambda>(drafts, damaged). retE (drafts, map dd_ID damaged))"

definition live_keys :: "DraftMetadata list \<Rightarrow> PublishedDocument list \<Rightarrow> (string \<times> bld_err) list \<Rightarrow> string list" where
  "live_keys drafts docs damaged =
     concat (map (\<lambda>d. map (\<lambda>m. snapshotKey (dm_ID d) (sm_ID m)) (dm_History d)) drafts)
     @ map (\<lambda>p. publishedKey (pd_ID p)) docs @ map (\<lambda>(i, e). publishedKey i) damaged"

text \<open>One content key. Its record is removed only at the revision at which it was seen to be old.\<close>

definition cleanup_key ::
  "'x pub_env \<Rightarrow> 's rec_store \<Rightarrow> (nat \<Rightarrow> 's \<Rightarrow> 's) \<Rightarrow> bool \<Rightarrow> string list \<Rightarrow> string list \<Rightarrow> nat \<Rightarrow> string \<Rightarrow> ('s, outcome) bld_action" where
  "cleanup_key P S others dryRun live unreadable n key =
     (case contentDraftOf key of
        None \<Rightarrow> retE (Failed (Corrupt ''content'' key ''key is not shaped like a content key''))
      | Some draftID \<Rightarrow>
          if key \<in> set live \<or> draftID \<noteq> [] \<and> draftID \<in> set unreadable then retE Kept
          else
            bindE (others_run others (2 * n + 2)) (\<lambda>_.
            tryE (readingE BStore (rd_get S NamespaceContent key)) (\<lambda>r.
              case r of
                Inl (BStore (RecordNotExist _ _)) \<Rightarrow> retE Kept
              | Inl e \<Rightarrow> retE (Failed e)
              | Inr rec \<Rightarrow>
                  if be_now (pe_bld P) - record_time rec < OrphanGracePeriod then retE Kept
                  else if dryRun then retE Gone
                  else
                    bindE (others_run others (2 * n + 3)) (\<lambda>_.
                    callE (rd_delete S NamespaceContent key (r_revision rec)) (\<lambda>r.
                      case r of
                        Inr _ \<Rightarrow> retE Gone
                      | Inl (RecordNotExist _ _) \<Rightarrow> retE Kept
                      | Inl (RecordConflict _ _ _ _) \<Rightarrow> retE Kept
                      | Inl e \<Rightarrow> retE (Failed (BStore e)))))))"

definition CleanupOrphanedContent ::
  "'x pub_env \<Rightarrow> 's rec_store \<Rightarrow> (nat \<Rightarrow> 's \<Rightarrow> 's) \<Rightarrow> bool \<Rightarrow> ('s, nat \<times> bld_err list) bld_action" where
  "CleanupOrphanedContent P S others dryRun =
     bindE (listDrafts (pe_bld P) S) (\<lambda>(drafts, unreadable).
     bindE (others_run others 0) (\<lambda>_.
     bindE (listReadablePublished P S) (\<lambda>(docs, damaged).
     bindE (others_run others 1) (\<lambda>_.
     bindE (readingE BStore (rd_keys S NamespaceContent [])) (\<lambda>keys.
     bindE (each (cleanup_key P S others dryRun (live_keys drafts docs damaged) unreadable) 0 keys) (\<lambda>outs.
       retE (tally outs)))))))"

definition published_live :: "LiveDocument list \<Rightarrow> DraftMetadata \<Rightarrow> bool" where
  "published_live referenced d \<longleftrightarrow>
     PublishedUnchanged d
     \<and> (case dm_Publication d of None \<Rightarrow> False | Some p \<Rightarrow> (ps_TopologyTarget p, ps_DocumentID p) \<in> set referenced)"

definition delete_published ::
  "'x bld_env \<Rightarrow> 's rec_store \<Rightarrow> (nat \<Rightarrow> 's \<Rightarrow> 's) \<Rightarrow> string \<Rightarrow> LiveDocument list \<Rightarrow> bool \<Rightarrow> nat \<Rightarrow> DraftMetadata \<Rightarrow> ('s, outcome) bld_action" where
  "delete_published E S others actor referenced dryRun n d =
     (if \<not> published_live referenced d then retE Kept
      else if dryRun then retE Gone
      else
        bindE (others_run others n) (\<lambda>_.
        tryE (DeleteDraft E S (dm_ID d) actor (dm_Revision d)) (\<lambda>r.
          case r of
            Inr _ \<Rightarrow> retE Gone
          | Inl (Conflict _ _ _ _ _) \<Rightarrow> retE Kept
          | Inl (NotFound _ _) \<Rightarrow> retE Kept
          | Inl e \<Rightarrow> retE (Failed e))))"

definition DeletePublishedDrafts ::
  "'x bld_env \<Rightarrow> 's rec_store \<Rightarrow> (nat \<Rightarrow> 's \<Rightarrow> 's) \<Rightarrow> string \<Rightarrow> LiveDocument list \<Rightarrow> bool \<Rightarrow> ('s, string list \<times> bld_err list) bld_action" where
  "DeletePublishedDrafts E S others actor referenced dryRun =
     bindE (checkE (validateText ''actor'' actor MaxOwnerLength True)) (\<lambda>_.
     bindE (ListDraftsWithDamaged E S) (\<lambda>(drafts, damaged).
     bindE (each (delete_published E S others actor referenced dryRun) 0 drafts) (\<lambda>outs.
       retE (map (\<lambda>(d, out). dm_ID d) (filter (\<lambda>(d, out). out = Gone) (zip drafts outs)), snd (tally outs)))))"

end
