(* ===== verification/Builder_Documents.thy ===== *)
theory Builder_Documents
  imports Builder_Cleanup
begin

section \<open>Published documents on the abstract store\<close>

text \<open>
  What the calls on published documents do to the abstract record store: \<open>published_at\<close> is the
  document stored under an identifier, if its record is readable, and \<open>published_data\<close> its content, if
  it is the document the metadata says it is. The locale \<open>pub_env\<close> adds to \<open>builder_env\<close> what is relied
  on of the JSON of published metadata.
\<close>

definition published_strings :: "PublishedDocument \<Rightarrow> string list" where
  "published_strings d =
     [pd_ID d, pd_Digest d, pd_Target d, pd_Kind d, pd_DraftID d, pd_SnapshotID d, pd_CreatedBy d, pd_Schema d]"

locale pub_env = builder_env "pe_bld P" valid_doc
  for P :: "'x pub_env" and valid_doc :: "'x Document \<Rightarrow> bool" +
  assumes pub_codec: "pe_enc P d = Inr v \<Longrightarrow> list_all valid_utf8 (published_strings d) \<Longrightarrow>
      pe_dec P v = Inr (d\<lparr>pd_Revision := 0, pd_published := zero_time\<rparr>)"
    and schema_law: "be_parse (pe_bld P) b = Inr doc \<Longrightarrow> pe_schema P doc = SchemaURI"

subsection \<open>Keys\<close>

lemma published_id_ok: "ValidID i \<Longrightarrow> validateRecordNamespaceAndKey NamespacePublished i = None"
  using segments_key_ok[of "[i]"] ValidID_segment[of i] ValidID_chars[of i] id_char_code
  by (auto simp: validateRecordNamespaceAndKey_def ns_ok)

lemma publishedKey_join: "publishedKey i = join_with ''/'' [''published'', i]"
  by (simp add: publishedKey_def)

lemma published_key_ok: "ValidID i \<Longrightarrow> validateRecordNamespaceAndKey NamespaceContent (publishedKey i) = None"
  using segments_key_ok[of "[''published'', i]"] ValidID_segment[of i] ValidID_chars[of i] id_char_code
  unfolding publishedKey_join by (auto simp: validateRecordNamespaceAndKey_def ns_ok)

lemma publishedKey_eq [simp]: "publishedKey i = publishedKey j \<longleftrightarrow> i = j"
  by (simp add: publishedKey_def)

lemma key_kinds_differ [simp]: "publishedKey i \<noteq> snapshotKey j k" "snapshotKey j k \<noteq> publishedKey i"
  by (simp_all add: publishedKey_def snapshotKey_def draftContentPrefix_def)

lemma not_draft_prefix [simp]: "\<not> prefix (draftContentPrefix j) (publishedKey i)"
  by (simp add: publishedKey_def draftContentPrefix_def)

lemma hex_of_id: "bs \<noteq> [] \<Longrightarrow> length bs \<le> 64 \<Longrightarrow> ValidID (hex_of bs)"
proof -
  assume bs: "bs \<noteq> []" "length bs \<le> 64"
  have start: "id_start (hex_digit n)" if "n < 16" for n
    using that by (auto simp: hex_digit_def id_start_def isRecordNameStart_def)
  have "list_all id_start (hex_of bs)"
  proof (induction bs)
    case (Cons b bs)
    have "unat b < 256" using unsigned_less[of b] by simp
    then have "unat b div 16 < 16" "unat b mod 16 < 16" by simp_all
    then show ?case using Cons start by (simp add: hex_of_def)
  qed (simp add: hex_of_def)
  moreover have "length (hex_of bs) \<le> 128" "hex_of bs \<noteq> []" using bs hex_of_law[of bs] by auto
  ultimately show ?thesis by (cases "hex_of bs") (auto simp: ValidID_def id_char_def list_all_iff)
qed

context builder_env
begin

lemma document_id: "ValidID (PublishedDocumentID E target digest)"
  unfolding PublishedDocumentID_def using sha_law by (intro hex_of_id) (metis length_0_conv zero_neq_numeral, simp)

end

subsection \<open>Stored documents\<close>

definition published_at :: "'x pub_env \<Rightarrow> rstore \<Rightarrow> string \<Rightarrow> PublishedDocument option" where
  "published_at P st i =
     (case rs_contents st (NamespacePublished, i) of
        None \<Rightarrow> None
      | Some s \<Rightarrow> (case decodePublished P (record_of NamespacePublished i s) of Inl _ \<Rightarrow> None | Inr d \<Rightarrow> Some d))"

definition pub_content :: "rstore \<Rightarrow> string \<Rightarrow> bytes option" where
  "pub_content st i = map_option s_value (rs_contents st (NamespaceContent, publishedKey i))"

definition verified :: "'x pub_env \<Rightarrow> rstore \<Rightarrow> PublishedDocument \<Rightarrow> bld_err + bytes" where
  "verified P st d =
     (case pub_content st (pd_ID d) of
        None \<Rightarrow> Inl (Corrupt kindPublished (pd_ID d) ''content is missing'')
      | Some v \<Rightarrow> verify_payload (pe_bld P) kindPublished (pd_ID d) (manifest_of d) v)"

definition published_data :: "'x pub_env \<Rightarrow> rstore \<Rightarrow> PublishedDocument \<Rightarrow> bytes option" where
  "published_data P st d =
     (case verified P st d of
        Inl _ \<Rightarrow> None
      | Inr data \<Rightarrow> (case be_parse (pe_bld P) data of Inl _ \<Rightarrow> None | Inr _ \<Rightarrow> Some data))"

definition published_whole :: "'x pub_env \<Rightarrow> rstore \<Rightarrow> bool" where
  "published_whole P st \<longleftrightarrow> (\<forall>i d. published_at P st i = Some d \<longrightarrow> published_data P st d \<noteq> None)"

definition only_published :: "string \<Rightarrow> rstore \<Rightarrow> rstore \<Rightarrow> bool" where
  "only_published i st st' \<longleftrightarrow>
     (\<forall>n k. rs_contents st' (n, k) \<noteq> rs_contents st (n, k) \<longrightarrow>
        n = NamespacePublished \<and> k = i \<or> n = NamespaceContent \<and> k = publishedKey i)"

lemma published_Some:
  "published_at P st i = Some d \<Longrightarrow>
     pd_ID d = i \<and> ValidID i \<and> PublishedDocumentID (pe_bld P) (pd_Target d) (pd_Digest d) = i
     \<and> validateManifestShape kindPublished i (manifest_of d) = None
     \<and> (\<exists>s. rs_contents st (NamespacePublished, i) = Some s \<and> s_revision s = pd_Revision d \<and> pd_published d = sint (s_updated s))"
  by (auto simp: published_at_def decodePublished_def validatePublishedMetadata_def record_time_def manifest_of_def record_of_def
      split: option.splits sum.splits if_splits)

lemma only_published_at: "only_published i st st' \<Longrightarrow> j \<noteq> i \<Longrightarrow> published_at P st' j = published_at P st j"
  unfolding only_published_def published_at_def by (metis ns_differ(5))

lemma only_published_content: "only_published i st st' \<Longrightarrow> j \<noteq> i \<Longrightarrow> pub_content st' j = pub_content st j"
  unfolding only_published_def pub_content_def by (metis publishedKey_eq ns_differ(6))

lemma only_published_data: "only_published i st st' \<Longrightarrow> pd_ID d \<noteq> i \<Longrightarrow> published_data P st' d = published_data P st d"
  using only_published_content[of i st st' "pd_ID d"] by (simp add: published_data_def verified_def)

lemma only_published_drafts:
  assumes "only_published i st st'"
  shows "draft_at E st' j = draft_at E st j" and "content_at st' j k = content_at st j k" and "drafts_whole E st' = drafts_whole E st"
proof -
  have "rs_contents st' (NamespaceDrafts, j) = rs_contents st (NamespaceDrafts, j)" for j
    using assms unfolding only_published_def by (metis ns_differ(1,3))
  then show at: "draft_at E st' j = draft_at E st j" for j by (simp add: draft_at_def)
  have "rs_contents st' (NamespaceContent, snapshotKey j k) = rs_contents st (NamespaceContent, snapshotKey j k)" for j k
    using assms unfolding only_published_def by (metis ns_differ(6) key_kinds_differ(2))
  then show content: "content_at st' j k = content_at st j k" for j k by (simp add: content_at_def)
  have "document_at E st' j m = document_at E st j m" for j m using content by (rule document_same)
  then show "drafts_whole E st' = drafts_whole E st" unfolding drafts_whole_def at by simp
qed

lemma only_draft_published:
  assumes "only_draft i st st'"
  shows "published_at P st' j = published_at P st j" and "pub_content st' j = pub_content st j"
    and "published_whole P st' = published_whole P st"
proof -
  have "rs_contents st' (NamespacePublished, j) = rs_contents st (NamespacePublished, j)" for j
    using assms unfolding only_draft_def by (metis ns_differ(3,5))
  then show at: "published_at P st' j = published_at P st j" for j by (simp add: published_at_def)
  have "rs_contents st' (NamespaceContent, publishedKey j) = rs_contents st (NamespaceContent, publishedKey j)" for j
    using assms unfolding only_draft_def by (metis ns_differ(2) not_draft_prefix)
  then show content: "pub_content st' j = pub_content st j" for j by (simp add: pub_content_def)
  have "published_data P st' d = published_data P st d" for d by (simp add: published_data_def verified_def content)
  then show "published_whole P st' = published_whole P st" unfolding published_whole_def at by simp
qed

lemma published_keep:
  assumes "published_whole P st" and "only_published i st st'"
    and "\<And>d. published_at P st' i = Some d \<Longrightarrow> published_data P st' d \<noteq> None"
  shows "published_whole P st'"
  unfolding published_whole_def
proof (intro allI impI)
  fix j d assume d: "published_at P st' j = Some d"
  show "published_data P st' d \<noteq> None"
  proof (cases "j = i")
    case False
    then have "published_at P st j = Some d" "pd_ID d \<noteq> i" using only_published_at[OF assms(2) False, of P] d published_Some[OF d] by simp_all
    then show ?thesis using only_published_data[OF assms(2)] assms(1) by (metis published_whole_def)
  qed (use assms(3) d in blast)
qed

subsection \<open>Storing\<close>

lemma verify_corrupt: "verify_payload E kind i m v = Inl e \<Longrightarrow> \<exists>w. e = Corrupt kind i w"
  by (auto simp: verify_payload_def decompress_def split: if_splits sum.splits)

lemma readPayload_tx_law:
  assumes "published_at P st i = Some d"
  shows "readPayload_tx (pe_bld P) spec_ops kindPublished (pd_ID d) (publishedKey (pd_ID d)) (manifest_of d) st = (st, verified P st d)"
  using published_Some[OF assms] published_key_ok[of i]
  by (cases "rs_contents st (NamespaceContent, publishedKey i)")
    (auto simp: readPayload_tx_def callE_def spec_get_def verified_def pub_content_def bindE_def)

lemma putContent_record:
  assumes "validateRecordNamespaceAndKey NamespaceContent key = None"
  shows "\<exists>s. putContent spec_ops now key load st = (spec_write NamespaceContent key s st, Inr ()) \<and> s_value s = pl_compressed load
    \<and> s_revision s = rs_revision st + 1 \<and> s_updated s = now"
  using assms by (cases "rs_contents st (NamespaceContent, key)")
    (auto simp: putContent_def callE_def spec_create_def spec_update_def checkRecordRevision_def Let_def)

lemma stored_updates:
  "s\<lparr>s_revision := r, s_updated := u\<rparr> = \<lparr>s_value = s_value s, s_revision = r, s_created = s_created s, s_updated = u\<rparr>"
  "s\<lparr>s_value := v, s_revision := r, s_updated := u\<rparr> = \<lparr>s_value = v, s_revision = r, s_created = s_created s, s_updated = u\<rparr>"
  by (cases s; simp)+

text \<open>A document that is there and whole is only touched; one that is not is written, content and all.\<close>

definition touched :: "int64 \<Rightarrow> rstore \<Rightarrow> PublishedDocument \<Rightarrow> rstore \<Rightarrow> PublishedDocument \<Rightarrow> bool" where
  "touched now st existing st' r \<longleftrightarrow>
     (\<exists>s. rs_contents st (NamespacePublished, pd_ID existing) = Some s
        \<and> st' = spec_write NamespacePublished (pd_ID existing) (s\<lparr>s_revision := rs_revision st + 1, s_updated := now\<rparr>) st
        \<and> r = existing\<lparr>pd_Revision := rs_revision st + 1, pd_published := sint now\<rparr>)"

definition written_anew :: "int64 \<Rightarrow> PublishedDocument \<Rightarrow> bytes \<Rightarrow> payload \<Rightarrow> rstore \<Rightarrow> rstore \<Rightarrow> PublishedDocument \<Rightarrow> bool" where
  "written_anew now doc value load st st' r \<longleftrightarrow>
     (\<exists>c s. s_value c = pl_compressed load \<and> s_updated c = now \<and> s_revision c = rs_revision st + 1
        \<and> s_value s = value \<and> s_updated s = now \<and> s_revision s = rs_revision st + 2
        \<and> st' = spec_write NamespacePublished (pd_ID doc) s (spec_write NamespaceContent (publishedKey (pd_ID doc)) c st)
        \<and> r = doc\<lparr>pd_Revision := rs_revision st + 2, pd_published := sint now\<rparr>)"

lemma putPublished_law:
  assumes run: "putPublished P spec_ops doc value load st = (st', Inr r)" and i: "ValidID (pd_ID doc)"
  shows "(\<exists>existing data. published_at P st (pd_ID doc) = Some existing \<and> verified P st existing = Inr data
            \<and> touched (be_written (pe_bld P)) st existing st' r)
    \<or> (rs_contents st (NamespacePublished, pd_ID doc) = None
        \<or> (\<exists>existing e. published_at P st (pd_ID doc) = Some existing \<and> verified P st existing = Inl e))
      \<and> written_anew (be_written (pe_bld P)) doc value load st st' r"
proof -
  let ?i = "pd_ID doc" and ?now = "be_written (pe_bld P)"
  note keys = published_id_ok[OF i] published_key_ok[OF i]
  obtain c where put: "putContent spec_ops ?now (publishedKey ?i) load st = (spec_write NamespaceContent (publishedKey ?i) c st, Inr ())"
    and c: "s_value c = pl_compressed load" "s_revision c = rs_revision st + 1" "s_updated c = ?now"
    using putContent_record[OF keys(2)] by blast
  show ?thesis
  proof (cases "rs_contents st (NamespacePublished, ?i)")
    case None
    then have "written_anew ?now doc value load st st' r"
      using run put c keys unfolding written_anew_def
      by (intro exI[of _ c] exI[of _ "\<lparr>s_value = value, s_revision = rs_revision st + 2, s_created = ?now, s_updated = ?now\<rparr>"])
        (auto simp: putPublished_def callE_def spec_get_def spec_create_def Let_def spec_write_def stored_as_def record_time_def
            record_of_def add.commute bindE_def)
    then show ?thesis using None by blast
  next
    case (Some s)
    let ?rec = "record_of NamespacePublished ?i s"
    have get: "spec_get NamespacePublished ?i st = Inr ?rec" using keys Some by (simp add: spec_get_def)
    obtain d where d: "decodePublished P ?rec = Inr d"
      using run get by (cases "decodePublished P ?rec") (auto simp: putPublished_def callE_def Let_def bindE_def)
    then have at: "published_at P st ?i = Some d" using Some by (simp add: published_at_def)
    note id = published_Some[OF at]
    have body: "tryE (readPayload_tx (pe_bld P) spec_ops kindPublished (pd_ID d) (publishedKey (pd_ID d)) (manifest_of d)) k st
        = k (verified P st d) st" for k :: "bld_err + bytes \<Rightarrow> (rstore, PublishedDocument) bld_action"
      using readPayload_tx_law[OF at] by (simp add: tryE_def)
    show ?thesis
    proof (cases "verified P st d")
      case (Inr data)
      have "touched ?now st d st' r"
        using run get d body Inr keys Some id unfolding touched_def
        by (intro exI[of _ s])
          (auto simp: putPublished_def callE_def Let_def bindE_def spec_update_def checkRecordRevision_def record_of_def stored_as_def
              record_time_def stored_updates)
      then show ?thesis using at Inr by blast
    next
      case (Inl e)
      obtain w where "e = Corrupt kindPublished (pd_ID d) w"
        using Inl verify_corrupt by (fastforce simp: verified_def split: option.splits)
      then have "written_anew ?now doc value load st st' r"
        using run get d body Inl keys Some id put c unfolding written_anew_def
        by (intro exI[of _ c] exI[of _ "s\<lparr>s_value := value, s_revision := rs_revision st + 2, s_updated := ?now\<rparr>"])
          (auto simp: putPublished_def callE_def Let_def bindE_def spec_update_def checkRecordRevision_def record_of_def stored_as_def
              record_time_def spec_write_def stored_updates add.commute split: if_splits)
      then show ?thesis using at Inl by blast
    qed
  qed
qed

lemma manifest_of_revision [simp]:
  "manifest_of (d\<lparr>pd_Revision := r\<rparr>) = manifest_of d" "manifest_of (d\<lparr>pd_published := t\<rparr>) = manifest_of d"
  by (simp_all add: manifest_of_def)

lemma validate_published_revision [simp]:
  "validatePublishedMetadata E k (d\<lparr>pd_Revision := r\<rparr>) = validatePublishedMetadata E k d"
  "validatePublishedMetadata E k (d\<lparr>pd_published := t\<rparr>) = validatePublishedMetadata E k d"
  by (simp_all add: validatePublishedMetadata_def)

lemma put_request_ok:
  "validatePutRequest req = None \<Longrightarrow>
     text_ok MaxTargetLength (pp_Target req) \<and> pp_Target req \<noteq> [] \<and> text_ok MaxKindLength (pp_Kind req) \<and> pp_Kind req \<noteq> []
     \<and> text_ok MaxOwnerLength (pp_Actor req) \<and> (pp_DraftID req = [] \<or> ValidID (pp_DraftID req))
     \<and> (pp_SnapshotID req = [] \<or> ValidID (pp_SnapshotID req))"
  by (auto simp: validatePutRequest_def first_None validateText_None valid_optional)

lemma canonicalDocument_Inr:
  "canonicalDocument E data = Inr (c, d) \<Longrightarrow> be_parse E data = Inr d \<and> be_encode E d = Inr c"
  by (auto simp: canonicalDocument_def parseDocument_def encodeDocument_def split: sum.splits if_splits)

lemma pub_txn_Inr: "pub_txn spec_store i e fn st = (st', Inr x) \<longleftrightarrow> fn st = (st', Inr x)"
  by (auto simp: pub_txn_def spec_txn split: prod.splits sum.splits)

lemma Put_steps:
  assumes "PutPublishedDocument P spec_store req st = (st', Inr r)"
  shows "\<exists>canonical parsed load value. be_ctx (pe_bld P) = None \<and> validatePutRequest req = None
    \<and> canonicalDocument (pe_bld P) (pp_Document req) = Inr (canonical, parsed) \<and> buildPayload (pe_bld P) canonical = Inr load
    \<and> encodePublished P (new_document P req load parsed) = Inr value
    \<and> putPublished P spec_ops (new_document P req load parsed) value load st = (st', Inr r)"
  using assms unfolding PutPublishedDocument_def run_Inr Let_def spec_store_sel pub_txn_Inr case_prod_beta
  by (metis ctx_err_None prod.collapse)

context pub_env
begin

abbreviation E where "E \<equiv> pe_bld P"

lemma new_document_ok:
  assumes "validatePutRequest req = None" and "canonicalDocument E (pp_Document req) = Inr (canonical, parsed)"
    and "buildPayload E canonical = Inr load"
  defines "d \<equiv> new_document P req load parsed"
  shows "validatePublishedMetadata E (pd_ID d) d = None" and "list_all valid_utf8 (published_strings d)"
    and "verify_payload E kindPublished (pd_ID d) (manifest_of d) (pl_compressed load) = Inr canonical"
    and "\<exists>doc. be_parse E canonical = Inr doc" and "ValidID (pd_ID d)" and "pd_Digest d = digestOf E canonical"
    and "pd_ID d = PublishedDocumentID E (pp_Target req) (digestOf E canonical)"
proof -
  note req = put_request_ok[OF assms(1)] and doc = canonicalDocument_Inr[OF assms(2)]
  have m: "sm_Digest (manifest_of d) = pl_digest load" "sm_Size (manifest_of d) = pl_size load"
      "sm_CompressedSize (manifest_of d) = int (length (pl_compressed load))"
    by (simp_all add: manifest_of_def d_def new_document_def)
  note pl = payload_ok[OF assms(3) m]
  show id: "ValidID (pd_ID d)" using document_id by (simp add: d_def new_document_def)
  show dg: "pd_Digest d = digestOf E canonical" using pl(4) by (simp add: d_def new_document_def)
  show "pd_ID d = PublishedDocumentID E (pp_Target req) (digestOf E canonical)" using pl(4) by (simp add: d_def new_document_def)
  have schema: "pd_Schema d = SchemaURI" using schema_law doc by (auto simp: d_def new_document_def)
  show "validatePublishedMetadata E (pd_ID d) d = None"
    using pl(2)[of kindPublished "pd_ID d"] req id schema
    by (auto simp: validatePublishedMetadata_def valid_optional d_def new_document_def)
  have "valid_utf8 SchemaURI" by (simp add: SchemaURI_def ascii_utf8)
  moreover have "valid_utf8 (pd_Digest d)" using dg digest_ok IsDigest_ascii by metis
  moreover have "valid_utf8 (pd_ID d)" using id ValidID_utf8 by blast
  ultimately show "list_all valid_utf8 (published_strings d)"
    using req schema ValidID_utf8 by (auto simp: published_strings_def d_def new_document_def text_ok_def)
  show "verify_payload E kindPublished (pd_ID d) (manifest_of d) (pl_compressed load) = Inr canonical" by (rule pl(1))
  show "\<exists>doc. be_parse E canonical = Inr doc" using encode_parse parse_valid doc by blast
qed

lemma written_anew_law:
  assumes "written_anew now d value load st st' r" and "encodePublished P d = Inr value"
    and "validatePublishedMetadata E (pd_ID d) d = None" and "list_all valid_utf8 (published_strings d)"
  shows "published_at P st' (pd_ID d) = Some r" and "pub_content st' (pd_ID d) = Some (pl_compressed load)"
    and "only_published (pd_ID d) st st'" and "rs_revision st' = rs_revision st + 2"
proof -
  obtain c s where w: "s_value c = pl_compressed load" "s_value s = value" "s_updated s = now" "s_revision s = rs_revision st + 2"
      "st' = spec_write NamespacePublished (pd_ID d) s (spec_write NamespaceContent (publishedKey (pd_ID d)) c st)"
      "r = d\<lparr>pd_Revision := rs_revision st + 2, pd_published := sint now\<rparr>"
    using assms(1) by (auto simp: written_anew_def)
  have "pe_enc P d = Inr value" using assms(2) by (auto simp: encodePublished_def split: sum.splits if_splits)
  then have dec: "pe_dec P value = Inr (d\<lparr>pd_Revision := 0, pd_published := zero_time\<rparr>)" using pub_codec assms(4) by blast
  have "validatePublishedMetadata E (pd_ID d) (d\<lparr>pd_Revision := 0, pd_published := zero_time\<rparr>) = None"
    using assms(3) by simp
  then show "published_at P st' (pd_ID d) = Some r"
    using w dec by (simp add: published_at_def decodePublished_def spec_write_def record_of_def record_time_def)
  show "pub_content st' (pd_ID d) = Some (pl_compressed load)" using w by (simp add: pub_content_def spec_write_def)
  show "only_published (pd_ID d) st st'" using w by (auto simp: only_published_def spec_write_def)
  show "rs_revision st' = rs_revision st + 2" using w by (simp add: spec_write_def)
qed

end

lemma touched_law:
  assumes "touched now st old st' r" and "published_at P st (pd_ID old) = Some old"
  shows "published_at P st' (pd_ID old) = Some r" and "pub_content st' i = pub_content st i"
    and "only_published (pd_ID old) st st'" and "rs_revision st' = rs_revision st + 1"
proof -
  obtain s where t: "rs_contents st (NamespacePublished, pd_ID old) = Some s"
      "st' = spec_write NamespacePublished (pd_ID old) (s\<lparr>s_revision := rs_revision st + 1, s_updated := now\<rparr>) st"
      "r = old\<lparr>pd_Revision := rs_revision st + 1, pd_published := sint now\<rparr>"
    using assms(1) by (auto simp: touched_def)
  obtain d where d: "pe_dec P (s_value s) = Inr d" "validatePublishedMetadata (pe_bld P) (pd_ID old) d = None"
      "old = d\<lparr>pd_Revision := s_revision s, pd_published := sint (s_updated s)\<rparr>"
    using assms(2) t(1) by (auto simp: published_at_def decodePublished_def record_of_def record_time_def split: sum.splits option.splits)
  then show "published_at P st' (pd_ID old) = Some r"
    using t by (simp add: published_at_def decodePublished_def record_of_def record_time_def spec_write_def)
  show "pub_content st' i = pub_content st i" using t by (simp add: pub_content_def spec_write_def)
  show "only_published (pd_ID old) st st'" using t by (auto simp: only_published_def spec_write_def)
  show "rs_revision st' = rs_revision st + 1" using t by (simp add: spec_write_def)
qed

lemma verified_digest: "verified P st d = Inr data \<Longrightarrow> digestOf (pe_bld P) data = pd_Digest d"
  by (auto simp: verified_def verify_payload_def manifest_of_def split: option.splits sum.splits if_splits)

text \<open>The two ways a publication ends.\<close>

context pub_env
begin

lemma Put_law:
  assumes run: "PutPublishedDocument P spec_store req st = (st', Inr r)"
  shows "\<exists>canonical parsed data. canonicalDocument E (pp_Document req) = Inr (canonical, parsed) \<and> validatePutRequest req = None
    \<and> be_ctx E = None \<and> pd_ID r = PublishedDocumentID E (pp_Target req) (digestOf E canonical) \<and> ValidID (pd_ID r)
    \<and> only_published (pd_ID r) st st' \<and> published_at P st' (pd_ID r) = Some r \<and> verified P st' r = Inr data
    \<and> pd_published r = sint (be_written E)
    \<and> ((\<exists>old. published_at P st (pd_ID r) = Some old \<and> verified P st old = Inr data \<and> touched (be_written E) st old st' r)
       \<or> data = canonical \<and> (\<exists>doc. be_parse E data = Inr doc)
         \<and> (\<exists>doc load value. written_anew (be_written E) doc value load st st' r)
         \<and> (\<forall>old. published_at P st (pd_ID r) = Some old \<longrightarrow> (\<exists>e. verified P st old = Inl e)))"
proof -
  obtain canonical parsed load val where pre: "be_ctx E = None" "validatePutRequest req = None"
      "canonicalDocument E (pp_Document req) = Inr (canonical, parsed)" "buildPayload E canonical = Inr load"
    and enc: "encodePublished P (new_document P req load parsed) = Inr val"
    and put: "putPublished P spec_ops (new_document P req load parsed) val load st = (st', Inr r)"
    using Put_steps[OF run] by blast
  let ?d = "new_document P req load parsed"
  note ok = new_document_ok[OF pre(2-4)]
  consider (old) old data where "published_at P st (pd_ID ?d) = Some old" "verified P st old = Inr data" "touched (be_written E) st old st' r"
    | (new) "rs_contents st (NamespacePublished, pd_ID ?d) = None
        \<or> (\<exists>existing e. published_at P st (pd_ID ?d) = Some existing \<and> verified P st existing = Inl e)"
      "written_anew (be_written E) ?d val load st st' r"
    using putPublished_law[OF put ok(5)] by blast
  then show ?thesis
  proof cases
    case old
    have id: "pd_ID old = pd_ID ?d" using published_Some[OF old(1)] by simp
    note law = touched_law[OF old(3), of P, unfolded id, OF old(1)]
    have r: "pd_ID r = pd_ID ?d" "manifest_of r = manifest_of old" "pd_published r = sint (be_written E)"
      using old(3) id by (auto simp: touched_def)
    have "verified P st' r = Inr data" using old(2) law(2)[of "pd_ID ?d"] r id by (simp add: verified_def cong: option.case_cong)
    then show ?thesis using pre ok(5,7) law r old by (intro exI[of _ canonical] exI[of _ parsed] exI[of _ data]) auto
  next
    case new
    note law = written_anew_law[OF new(2) enc ok(1,2)]
    have r: "pd_ID r = pd_ID ?d" "manifest_of r = manifest_of ?d" "pd_published r = sint (be_written E)"
      using new(2) by (auto simp: written_anew_def)
    have "verified P st' r = Inr canonical" using ok(3) law(2) r by (simp add: verified_def)
    moreover have "\<forall>old. published_at P st (pd_ID r) = Some old \<longrightarrow> (\<exists>e. verified P st old = Inl e)"
      using new(1) r(1) by (auto simp: published_at_def)
    ultimately show ?thesis using pre ok(4,5,7) law r new by (intro exI[of _ canonical] exI[of _ parsed] exI[of _ canonical]) auto
  qed
qed

lemma Put_whole:
  assumes "published_whole P st" and "PutPublishedDocument P spec_store req st = (st', Inr r)"
  shows "published_whole P st'" and "published_data P st' r \<noteq> None"
proof -
  obtain data where law: "only_published (pd_ID r) st st'" "published_at P st' (pd_ID r) = Some r" "verified P st' r = Inr data"
    and alt: "(\<exists>old. published_at P st (pd_ID r) = Some old \<and> verified P st old = Inr data) \<or> (\<exists>doc. be_parse E data = Inr doc)"
    using Put_law[OF assms(2)] by blast
  have "\<exists>doc. be_parse E data = Inr doc"
    using alt
  proof (elim disjE exE conjE)
    fix old assume "published_at P st (pd_ID r) = Some old" "verified P st old = Inr data"
    then show ?thesis using assms(1) unfolding published_whole_def published_data_def by (fastforce split: sum.splits)
  qed blast
  then show "published_data P st' r \<noteq> None" using law(3) by (auto simp: published_data_def)
  then show "published_whole P st'" using published_keep[OF assms(1) law(1)] law(2) by simp
qed

end

subsection \<open>Reading\<close>

lemma readPayload_published:
  assumes "ValidID i" and "validateManifestShape kindPublished i m = None"
  shows "readPayload E spec_store kindPublished i (publishedKey i) m st =
    (st, case pub_content st i of None \<Rightarrow> Inl (Corrupt kindPublished i ''content is missing'') | Some v \<Rightarrow> verify_payload E kindPublished i m v)"
  using published_key_ok[OF assms(1)] assms(2)
  by (cases "rs_contents st (NamespaceContent, publishedKey i)")
    (auto simp: readPayload_def readingE_def spec_get_def pub_content_def bindE_def)

lemma GetPublished_Inr:
  "GetPublishedDocument P spec_store i st = (st', Inr d) \<longleftrightarrow> st' = st \<and> be_ctx (pe_bld P) = None \<and> published_at P st i = Some d"
proof (cases "ValidID i")
  case True
  then show ?thesis using published_id_ok[OF True]
    by (cases "rs_contents st (NamespacePublished, i)")
      (auto simp: GetPublishedDocument_def run_Inr spec_get_def published_at_def split: sum.splits)
next
  case False
  then show ?thesis using published_Some[of P st i] by (auto simp: GetPublishedDocument_def run_Inr)
qed

lemma read_published:
  assumes "be_ctx (pe_bld P) = None" and d: "published_at P st i = Some d" and "published_data P st d = Some data"
  shows "GetPublishedDocumentData P spec_store i st = (st, Inr (d, data))"
proof -
  have get: "GetPublishedDocument P spec_store i st = (st, Inr d)" using GetPublished_Inr assms by blast
  note id = published_Some[OF d]
  then have "readPayload (pe_bld P) spec_store kindPublished (pd_ID d) (publishedKey (pd_ID d)) (manifest_of d) st = (st, verified P st d)"
    using readPayload_published[of i "manifest_of d" "pe_bld P" st] by (simp add: verified_def split: option.split)
  moreover obtain doc where "verified P st d = Inr data" "be_parse (pe_bld P) data = Inr doc"
    using assms(3) by (auto simp: published_data_def split: sum.splits)
  ultimately show ?thesis using get by (simp add: GetPublishedDocumentData_def parseStored_def)
qed

end
