(* ===== verification/Builder_Requests.thy ===== *)
theory Builder_Requests
  imports Builder_Documents
begin

section \<open>What requests do while a cleanup runs\<close>

text \<open>
  A cleanup of content lists drafts, documents and content keys, and then removes one record after
  another, while other requests write. \<open>requests\<close> is what these may do to the store (calls on drafts,
  publications, removals of documents) and is the rely condition of the cleanup; \<open>wrote\<close> says what
  they leave behind: every record is one that was there, or is young and has a new revision. So a
  record that the cleanup saw to be old, and that still has its revision, is still the one it saw.
\<close>

subsection \<open>What a client writes\<close>

definition wrote :: "(int64 \<Rightarrow> bool) \<Rightarrow> nat \<Rightarrow> rstore \<Rightarrow> rstore \<Rightarrow> bool" where
  "wrote Y n st st' \<longleftrightarrow>
     (finite (dom (rs_contents st)) \<longrightarrow> finite (dom (rs_contents st')))
     \<and> (\<exists>j \<le> n. rs_revision st' = rs_revision st + of_nat j
        \<and> (\<forall>k s. rs_contents st' k = Some s \<longrightarrow>
             rs_contents st k = Some s
             \<or> Y (s_updated s) \<and> (\<exists>i. 0 < i \<and> i \<le> j \<and> s_revision s = rs_revision st + of_nat i)))"

definition writes :: "(int64 \<Rightarrow> bool) \<Rightarrow> nat \<Rightarrow> (rstore, 'e, 'a) action \<Rightarrow> bool" where
  "writes Y n m \<longleftrightarrow> (\<forall>st. wrote Y n st (fst (m st)))"

lemma wrote_refl [simp]: "wrote Y n st st"
  by (auto simp: wrote_def intro: exI[of _ 0])

lemma wrote_trans:
  assumes "wrote Y n st t" and "wrote Y m t u"
  shows "wrote Y (n + m) st u"
proof -
  obtain i where i: "i \<le> n" "rs_revision t = rs_revision st + of_nat i"
    "\<And>k s. rs_contents t k = Some s \<Longrightarrow> rs_contents st k = Some s
      \<or> Y (s_updated s) \<and> (\<exists>a. 0 < a \<and> a \<le> i \<and> s_revision s = rs_revision st + of_nat a)"
    using assms(1) by (auto simp: wrote_def)
  obtain j where j: "j \<le> m" "rs_revision u = rs_revision t + of_nat j"
    "\<And>k s. rs_contents u k = Some s \<Longrightarrow> rs_contents t k = Some s
      \<or> Y (s_updated s) \<and> (\<exists>a. 0 < a \<and> a \<le> j \<and> s_revision s = rs_revision t + of_nat a)"
    using assms(2) by (auto simp: wrote_def)
  have "finite (dom (rs_contents st)) \<longrightarrow> finite (dom (rs_contents u))" using assms by (simp add: wrote_def)
  moreover have "\<exists>j \<le> n + m. rs_revision u = rs_revision st + of_nat j
      \<and> (\<forall>k s. rs_contents u k = Some s \<longrightarrow> rs_contents st k = Some s
           \<or> Y (s_updated s) \<and> (\<exists>a. 0 < a \<and> a \<le> j \<and> s_revision s = rs_revision st + of_nat a))"
  proof (intro exI[of _ "i + j"] conjI allI impI)
    show "i + j \<le> n + m" "rs_revision u = rs_revision st + of_nat (i + j)" using i(1,2) j(1,2) by simp_all
    fix k s assume "rs_contents u k = Some s"
    from j(3)[OF this] show "rs_contents st k = Some s
      \<or> Y (s_updated s) \<and> (\<exists>a. 0 < a \<and> a \<le> i + j \<and> s_revision s = rs_revision st + of_nat a)"
    proof (elim disjE conjE exE)
      assume "rs_contents t k = Some s"
      from i(3)[OF this] show ?thesis by (meson le_add1 le_trans)
    next
      fix a assume "Y (s_updated s)" "0 < a" "a \<le> j" "s_revision s = rs_revision t + of_nat a"
      then show ?thesis using i(2) by (intro disjI2 conjI exI[of _ "i + a"]) simp_all
    qed
  qed
  ultimately show ?thesis unfolding wrote_def by blast
qed

lemma wrote_mono: "wrote Y n st t \<Longrightarrow> n \<le> m \<Longrightarrow> wrote Y m st t"
  using wrote_trans[of Y n st t "m - n" t] by simp

lemma wrote_removed:
  assumes le: "rs_contents st' \<subseteq>\<^sub>m rs_contents st" and "rs_revision st' = rs_revision st"
  shows "wrote Y n st st'"
proof -
  have "finite (dom (rs_contents st)) \<longrightarrow> finite (dom (rs_contents st'))"
    using map_le_implies_dom_le[OF le] finite_subset by blast
  moreover have "rs_contents st' k = Some s \<Longrightarrow> rs_contents st k = Some s" for k s
    using le by (metis domI map_le_def)
  ultimately show ?thesis using assms(2) unfolding wrote_def by (intro conjI exI[of _ 0]) auto
qed

lemma wrote_one: "Y (s_updated s) \<Longrightarrow> s_revision s = rs_revision st + 1 \<Longrightarrow> wrote Y 1 st (spec_write ns k s st)"
  by (auto simp: wrote_def spec_write_def intro!: exI[of _ 1])

text \<open>Without wrap-around, a record that still has its revision is still the same.\<close>

lemma wrote_revision:
  assumes "wrote Y n st st'" and "unat (rs_revision st) + n < 2 ^ 64"
  shows "unat (rs_revision st') \<le> unat (rs_revision st) + n"
    and "rs_wf st \<Longrightarrow> rs_wf st'"
    and "rs_contents st' k = Some s \<Longrightarrow> s_revision s \<le> rs_revision st \<Longrightarrow> rs_contents st k = Some s"
proof -
  obtain j where j: "j \<le> n" "rs_revision st' = rs_revision st + of_nat j"
    "\<And>k s. rs_contents st' k = Some s \<Longrightarrow> rs_contents st k = Some s
      \<or> Y (s_updated s) \<and> (\<exists>a. 0 < a \<and> a \<le> j \<and> s_revision s = rs_revision st + of_nat a)"
    using assms(1) by (auto simp: wrote_def)
  have add: "unat (rs_revision st + of_nat a) = unat (rs_revision st) + a" if "a \<le> n" for a
  proof -
    have "a < 2 ^ 64" using assms(2) that by linarith
    then have "unat (of_nat a :: int64) = a" by (simp add: unat_of_nat take_bit_nat_eq_self)
    then show ?thesis using assms(2) that unat_add_lem[of "rs_revision st" "of_nat a"] by simp
  qed
  show "unat (rs_revision st') \<le> unat (rs_revision st) + n" using add j(1,2) by simp
  show "rs_contents st k = Some s" if "rs_contents st' k = Some s" "s_revision s \<le> rs_revision st"
    using j(3)[OF that(1)] that(2) add j(1) by (auto simp: word_le_nat_alt)
  show "rs_wf st'" if wf: "rs_wf st"
    unfolding rs_wf_def
  proof
    fix s assume "s \<in> ran (rs_contents st')"
    then obtain k where "rs_contents st' k = Some s" by (auto simp: ran_def)
    from j(3)[OF this] show "0 < s_revision s \<and> s_revision s \<le> rs_revision st'"
    proof (elim disjE conjE exE)
      assume "rs_contents st k = Some s"
      then have "0 < s_revision s \<and> s_revision s \<le> rs_revision st" using wf by (cases k) (auto simp: rs_wf_def ran_def)
      then show ?thesis using add[OF j(1)] j(2) by (auto simp: word_le_nat_alt)
    next
      fix a assume "0 < a" "a \<le> j" "s_revision s = rs_revision st + of_nat a"
      then show ?thesis using add[of a] add[OF j(1)] j(1,2) by (auto simp: word_le_nat_alt word_less_nat_alt)
    qed
  qed
qed

named_theorems writes_intros \<open>what clients of the abstract store write\<close>

lemma writes_basic [writes_intros]:
  "writes Y n (retE x)" "writes Y n (failE e)" "writes Y n (checkE c)" "writes Y n (readE f)"
  by (simp_all add: writes_def checkE_def split: option.split)

lemma writes_read: "only_reads m \<Longrightarrow> (\<And>x. writes Y n (f x)) \<Longrightarrow> writes Y n (bindE m f)"
  unfolding writes_def only_reads_def
proof
  fix st assume m: "\<forall>t. fst (m t) = t" and f: "\<And>x. \<forall>st. wrote Y n st (fst (f x st))"
  obtain r where "m st = (st, r)" using m by (metis prod.collapse)
  then show "wrote Y n st (fst (bindE m f st))" using f by (cases r) (simp_all add: bindE_def)
qed

lemma writes_bind:
  assumes "writes Y a m" and "\<And>x. writes Y b (f x)" and "a + b \<le> n"
  shows "writes Y n (bindE m f)"
  unfolding writes_def
proof
  fix st
  obtain t r where m: "m st = (t, r)" by fastforce
  have one: "wrote Y a st t" using assms(1) m by (metis fst_conv writes_def)
  show "wrote Y n st (fst (bindE m f st))"
  proof (cases r)
    case (Inl e)
    then show ?thesis using m one assms(3) wrote_mono by (fastforce simp: bindE_def)
  next
    case (Inr x)
    have "wrote Y b t (fst (f x t))" using assms(2) by (simp add: writes_def)
    then show ?thesis using m Inr wrote_mono[OF wrote_trans[OF one] assms(3)] by (simp add: bindE_def)
  qed
qed

lemma writes_call:
  assumes "writes Y a m" and "\<And>r. writes Y b (k r)" and "a + b \<le> n"
  shows "writes Y n (callE m k)"
  unfolding writes_def
proof
  fix st
  obtain t r where m: "m st = (t, r)" by fastforce
  have "wrote Y a st t" using assms(1) m by (metis fst_conv writes_def)
  moreover have "wrote Y b t (fst (k (caused r) t))" using assms(2) by (simp add: writes_def)
  ultimately show "wrote Y n st (fst (callE m k st))" using m wrote_mono[OF wrote_trans assms(3)] by (simp add: callE_def)
qed

lemma writes_try:
  assumes "only_reads m" and "\<And>r. writes Y n (k r)"
  shows "writes Y n (tryE m k)"
  unfolding writes_def
proof
  fix st
  obtain r where "m st = (st, r)" using assms(1) by (metis only_reads_def prod.collapse)
  then show "wrote Y n st (fst (tryE m k st))" using assms(2) by (simp add: tryE_def writes_def)
qed

lemma writes_ops:
  "writes Y n (tx_get spec_ops ns k)" "writes Y n (spec_delete ns k r)" "writes Y n (spec_delete_prefix ns p)"
  "Y now \<Longrightarrow> writes Y 1 (spec_create now ns k v)" "Y now \<Longrightarrow> writes Y 1 (spec_update now ns k v r)"
proof -
  show "writes Y n (tx_get spec_ops ns k)" by (simp add: writes_def)
  show "writes Y n (spec_delete ns k r)" unfolding writes_def spec_delete_def
    by (auto intro!: wrote_removed simp: map_le_def split: option.splits)
  show "writes Y n (spec_delete_prefix ns p)" unfolding writes_def spec_delete_prefix_def
    by (auto intro!: wrote_removed simp: map_le_def drop_prefix_def split: option.splits if_splits)
  show "writes Y 1 (spec_create now ns k v)" if "Y now" unfolding writes_def spec_create_def Let_def
    using that wrote_one by (fastforce split: option.splits)
  show "writes Y 1 (spec_update now ns k v r)" if "Y now" unfolding writes_def spec_update_def Let_def
    using that wrote_one by (fastforce split: option.splits)
qed

lemma writes_txn [writes_intros]: "writes Y n fn \<Longrightarrow> writes Y n (record_txn spec_store f fn)"
  unfolding writes_def record_txn_def by (auto split: prod.splits sum.splits) (metis fst_conv)+

lemma writes_draft_txn [writes_intros]: "writes Y n fn \<Longrightarrow> writes Y n (draft_txn spec_store i e fn)"
  using writes_txn[of Y n fn "\<lambda>e. BStore (cause e)"] unfolding writes_def draft_txn_def by (auto split: prod.splits sum.splits) (metis fst_conv)+

lemma writes_pub_txn [writes_intros]: "writes Y n fn \<Longrightarrow> writes Y n (pub_txn spec_store i e fn)"
  using writes_txn[of Y n fn "\<lambda>e. BStore (cause e)"] unfolding writes_def pub_txn_def by (auto split: prod.splits sum.splits) (metis fst_conv)+

lemma writes_cases [writes_intros]:
  "writes Y n m \<Longrightarrow> writes Y n m' \<Longrightarrow> writes Y n (if c then m else m')"
  "writes Y n m \<Longrightarrow> (\<And>y. writes Y n (f y)) \<Longrightarrow> writes Y n (case x of None \<Rightarrow> m | Some y \<Rightarrow> f y)"
  "(\<And>e. writes Y n (g e)) \<Longrightarrow> (\<And>y. writes Y n (f y)) \<Longrightarrow> writes Y n (case z of Inl e \<Rightarrow> g e | Inr y \<Rightarrow> f y)"
  by (simp_all split: option.split sum.split)

lemma writes_put: "Y now \<Longrightarrow> writes Y 1 (putContent spec_ops now key load)"
  unfolding writes_def
proof
  fix st assume y: "Y now"
  let ?v = "pl_compressed load"
  have create: "wrote Y 1 st (fst (spec_create now NamespaceContent key ?v st))"
    and update: "wrote Y 1 st (fst (spec_update now NamespaceContent key ?v AnyRevision st))"
    using writes_ops(4,5)[where Y = Y and now = now] y unfolding writes_def by blast+
  obtain t r where c: "spec_create now NamespaceContent key ?v st = (t, r)" by fastforce
  obtain u r' where d: "spec_update now NamespaceContent key ?v AnyRevision st = (u, r')" by fastforce
  show "wrote Y 1 st (fst (putContent spec_ops now key load st))"
  proof (cases r)
    case (Inr x)
    then show ?thesis using create c by (simp add: putContent_def callE_def)
  next
    case (Inl e)
    then have "t = st" using c by (auto simp: spec_create_def Let_def split: option.splits)
    then show ?thesis using update c d Inl
      by (cases "caused r'"; cases "caused r") (auto simp: putContent_def callE_def split: rec_error.split)
  qed
qed

lemma writes_mono: "writes Y n m \<Longrightarrow> n \<le> k \<Longrightarrow> writes Y k m"
  by (auto simp: writes_def intro: wrote_mono)

lemma writes_ret [writes_intros]: "writes Y n m \<Longrightarrow> writes Y n (bindE m (\<lambda>x. retE (g x)))"
  by (rule writes_bind[where b = 0]) (auto intro: writes_basic)

lemma writes_drop: "writes Y n (dropContent spec_ops key)"
  unfolding dropContent_def spec_ops_simps
  by (rule writes_call[where a = 0 and b = 0, OF writes_ops(2)])
    (auto intro: writes_basic split: sum.split rec_error.split)

lemma writes_drops: "writes Y n (dropSnapshots spec_ops i ms)"
proof (induction ms arbitrary: n)
  case (Cons m ms)
  then show ?case unfolding dropSnapshots.simps by (intro writes_bind[where a = 0 and b = 0, OF writes_drop]) simp_all
qed (simp add: writes_basic)

lemma writes_create: "Y now \<Longrightarrow> (\<And>r. writes Y 0 (k r)) \<Longrightarrow> writes Y 1 (callE (spec_create now ns i v) k)"
  by (rule writes_call[where a = 1 and b = 0, OF writes_ops(4)]) simp_all

lemma writes_update: "Y now \<Longrightarrow> (\<And>r. writes Y 0 (k r)) \<Longrightarrow> writes Y 1 (callE (spec_update now ns i v e) k)"
  by (rule writes_call[where a = 1 and b = 0, OF writes_ops(5)]) simp_all

lemma writes_writeDraft: "Y (be_written E) \<Longrightarrow> writes Y 1 (writeDraft E spec_store u e)"
  unfolding writeDraft_def spec_store_sel spec_ops_simps
  by (intro writes_read reads_basic writes_call[where a = 1 and b = 0] writes_txn writes_ops)
    (auto intro: writes_basic split: sum.split)

lemma writes_writeDraftTxn: "Y (be_written E) \<Longrightarrow> writes Y 1 also_do \<Longrightarrow> writes Y 2 (writeDraftTxn E spec_store u v e also_do)"
  unfolding writeDraftTxn_def spec_store_sel spec_ops_simps
  by (intro writes_draft_txn writes_bind[where a = 1 and b = 1] writes_update) (auto intro: writes_basic split: sum.split)

lemma writes_deleteDraft: "writes Y n (deleteDraftTx spec_ops i e)"
  unfolding deleteDraftTx_def spec_ops_simps
  by (rule writes_call[where a = 0 and b = n, OF writes_ops(2)])
    (auto intro!: writes_basic writes_call[where a = 0 and b = n, OF writes_ops(3)] split: sum.split)

lemma call_writes:
  assumes Y: "Y (be_written E)"
  shows "writes Y 2 (run_call E spec_store c)"
proof -
  note put = writes_put[of Y "be_written E", OF Y] and draft = writes_writeDraft[of Y E, OF Y]
  show ?thesis
  proof (cases c)
  case (CallCreate req)
  have "writes Y 2 (CreateDraft E spec_store req)"
    unfolding CreateDraft_def Let_def spec_store_sel spec_ops_simps case_prod_beta
    by (intro writes_read reads_basic reads_limit writes_draft_txn writes_bind[where a = 1 and b = 1, OF put] writes_create Y)
      (auto intro: writes_basic split: sum.split)
  then show ?thesis unfolding CallCreate run_call.simps by (rule writes_ret)
next
  case (CallAppend req)
  have "writes Y 2 (AppendSnapshot E spec_store req)"
    unfolding AppendSnapshot_def Let_def spec_store_sel spec_ops_simps case_prod_beta
    by (intro writes_read reads_basic GetDraft_reads writes_cases writes_basic writes_writeDraftTxn
        writes_bind[where a = 1 and b = 0, OF put] writes_drops Y) simp
  then show ?thesis unfolding CallAppend run_call.simps by (rule writes_ret)
next
  case (CallMove req)
  have "writes Y 2 (MoveCursor E spec_store req)"
    unfolding MoveCursor_def
    by (intro writes_read reads_basic GetDraft_reads writes_cases writes_mono[OF draft]) simp
  then show ?thesis unfolding CallMove run_call.simps by (rule writes_ret)
next
  case (CallDeleteSnapshot req)
  have "writes Y 2 (DeleteSnapshot E spec_store req)"
    unfolding DeleteSnapshot_def Let_def spec_store_sel spec_ops_simps case_prod_beta
    by (intro writes_read reads_basic GetDraft_reads writes_cases writes_basic writes_writeDraftTxn writes_drops Y)
  then show ?thesis unfolding CallDeleteSnapshot run_call.simps by (rule writes_ret)
next
  case (CallPublish req)
  have "writes Y 2 (MarkPublished E spec_store req)"
    unfolding MarkPublished_def
    by (intro writes_read reads_basic GetDraft_reads writes_cases writes_basic writes_mono[OF draft]) simp_all
  then show ?thesis unfolding CallPublish run_call.simps by (rule writes_ret)
next
  case (CallDelete i actor e)
  have "writes Y 2 (DeleteDraft E spec_store i actor e)"
    unfolding DeleteDraft_def spec_store_sel by (intro writes_read reads_basic writes_draft_txn writes_deleteDraft)
  then show ?thesis unfolding CallDelete run_call.simps by (rule writes_ret)
qed
qed

lemma put_writes:
  assumes Y: "Y (be_written (pe_bld P))"
  shows "writes Y 2 (PutPublishedDocument P spec_store req)"
proof -
  note put = writes_put[of Y "be_written (pe_bld P)", OF Y]
  have read: "only_reads (readPayload_tx E spec_ops k i key m)" for E :: "'a bld_env" and k i key m
    by (auto simp: only_reads_def readPayload_tx_def bindE_def checkE_def callE_def split: option.split sum.split rec_error.split prod.split)
  have "writes Y 2 (putPublished P spec_ops doc v load)" for doc v load
    unfolding putPublished_def Let_def spec_ops_simps
    by (rule writes_call[where a = 0 and b = 2, OF writes_ops(1)[unfolded spec_ops_simps]])
      (auto intro!: writes_basic writes_bind[where a = 1 and b = 1, OF put] writes_create writes_update Y writes_read[OF reads_basic(4)]
        writes_try[OF read] writes_mono[OF writes_update, where k = 2] split: sum.split rec_error.split bld_err.split)
  then show ?thesis unfolding PutPublishedDocument_def Let_def spec_store_sel spec_ops_simps case_prod_beta
    by (intro writes_read reads_basic writes_pub_txn)
qed

lemma drop_writes: "writes Y n (deletePublished spec_store i e)"
  unfolding deletePublished_def spec_store_sel spec_ops_simps
  by (intro writes_pub_txn writes_call[where a = 0 and b = n, OF writes_ops(2)])
    (auto intro: writes_basic writes_drop split: sum.split)

subsection \<open>New snapshots are young\<close>

text \<open>What a transaction puts first, and what remains of it, is stamped with the time of the transaction.\<close>

lemma bindE_assoc: "bindE (bindE m f) g = bindE m (\<lambda>x. bindE (f x) g)"
  by (auto simp: bindE_def fun_eq_iff split: prod.split sum.split)

lemma put_first:
  assumes "bindE (putContent spec_ops now key load) f st = (st', r)"
    and "validateRecordNamespaceAndKey NamespaceContent key = None" and "writes (\<lambda>w. w = now) n (f ())"
    and "rs_contents st' (NamespaceContent, key) = Some s"
  shows "s_updated s = now"
proof -
  obtain c where c: "putContent spec_ops now key load st = (spec_write NamespaceContent key c st, Inr ())" "s_updated c = now"
    using putContent_record[OF assms(2)] by blast
  then have "st' = fst (f () (spec_write NamespaceContent key c st))" using assms(1) by (simp add: bindE_def)
  then have "wrote (\<lambda>w. w = now) n (spec_write NamespaceContent key c st) st'" using assms(3) by (simp add: writes_def)
  then have "rs_contents (spec_write NamespaceContent key c st) (NamespaceContent, key) = Some s \<or> s_updated s = now"
    using assms(4) unfolding wrote_def by blast
  then show ?thesis using c(2) by (auto simp: spec_write_def)
qed

lemma content_some: "document_at E st i m \<noteq> None \<Longrightarrow> \<exists>s. rs_contents st (NamespaceContent, snapshotKey i (sm_ID m)) = Some s"
  by (cases "rs_contents st (NamespaceContent, snapshotKey i (sm_ID m))") (auto simp: document_at_def content_at_def)

lemma append_stamped:
  assumes "AppendSnapshot E spec_store req st = (st', Inr d')" and "be_ids E 0 = Inr k"
    and "rs_contents st' (NamespaceContent, snapshotKey (ar_DraftID req) k) = Some s"
  shows "s_updated s = be_written E"
proof -
  let ?i = "ar_DraftID req"
  obtain d m load u dropped val m0 where d: "draft_at E st ?i = Some d" and m0: "manifest E 0 load (ar_Actor req) (ar_Summary req) = Inr m0"
    and m: "m = m0\<lparr>sm_OpID := ar_OpID req\<rparr>"
    and run: "writeDraftTxn E spec_store u val (dm_Revision d)
         (bindE (putContent spec_ops (be_written E) (snapshotKey ?i (sm_ID m)) load) (\<lambda>_. dropSnapshots spec_ops ?i dropped)) st = (st', Inr d')"
    using AppendSnapshot_steps[OF assms(1)] by blast
  have k: "sm_ID m = k" "ValidID k" using m0 m assms(2) by (auto simp: manifest_Inr)
  let ?update = "callE (spec_update (be_written E) NamespaceDrafts (dm_ID u) val (dm_Revision d)) (\<lambda>r.
      case r of Inl e \<Rightarrow> failE (storeError kindDraft (dm_ID u) (dm_Revision d) e) | Inr rec \<Rightarrow> retE (u\<lparr>dm_Revision := r_revision rec\<rparr>))"
  have "bindE (putContent spec_ops (be_written E) (snapshotKey ?i k) load) (\<lambda>_. bindE (dropSnapshots spec_ops ?i dropped) (\<lambda>_. ?update)) st
      = (st', Inr d')"
    using run k(1) by (simp add: writeDraftTxn_def draft_txn_Inr bindE_assoc)
  moreover have "writes (\<lambda>w. w = be_written E) 1 ?update"
    by (intro writes_update) (auto intro: writes_basic split: sum.split)
  then have "writes (\<lambda>w. w = be_written E) 1 (bindE (dropSnapshots spec_ops ?i dropped) (\<lambda>_. ?update))"
    by (rule writes_bind[where a = 0 and b = 1, OF writes_drops]) simp
  ultimately show ?thesis
    using put_first snapshot_key_ok[OF _ k(2)] draft_id[OF d] assms(3) by blast
qed

lemma create_stamped:
  assumes "CreateDraft E spec_store req st = (st', Inr d')" and "be_ids E 0 = Inr i" and "be_ids E 1 = Inr k"
    and "rs_contents st' (NamespaceContent, snapshotKey i k) = Some s"
  shows "s_updated s = be_written E"
proof -
  obtain j m load meta val where j: "be_ids E 0 = Inr j" "ValidID j" and m: "manifest E 1 load (cr_Actor req) (cr_Summary req) = Inr m"
    and run: "bindE (putContent spec_ops (be_written E) (snapshotKey j (sm_ID m)) load) (\<lambda>_.
         callE (spec_create (be_written E) NamespaceDrafts j val) (\<lambda>r.
           case r of
             Inl e \<Rightarrow> failE (storeError kindDraft j AnyRevision e)
           | Inr rec \<Rightarrow> retE (meta\<lparr>dm_Revision := r_revision rec\<rparr>))) st = (st', Inr d')"
    using CreateDraft_steps[OF assms(1)] by blast
  have k: "sm_ID m = k" "ValidID k" "j = i" using m j assms(2,3) by (auto simp: manifest_Inr)
  have "writes (\<lambda>w. w = be_written E) 1 (callE (spec_create (be_written E) NamespaceDrafts j val) (\<lambda>r.
           case r of
             Inl e \<Rightarrow> failE (storeError kindDraft j AnyRevision e)
           | Inr rec \<Rightarrow> retE (meta\<lparr>dm_Revision := r_revision rec\<rparr>)))"
    by (intro writes_create) (auto intro: writes_basic split: sum.split)
  from put_first[OF run _ this] show ?thesis using snapshot_key_ok[OF j(2), of k] k assms(4) by simp
qed

text \<open>A snapshot that a draft has after a call is one it had before, or its content is of this call.\<close>

definition kept_or_stamped :: "'x bld_env \<Rightarrow> rstore \<Rightarrow> rstore \<Rightarrow> string \<Rightarrow> SnapshotManifest \<Rightarrow> bool" where
  "kept_or_stamped E st st' i m \<longleftrightarrow>
     (\<exists>d n. draft_at E st i = Some d \<and> n \<in> set (dm_History d) \<and> sm_ID n = sm_ID m)
     \<or> (\<exists>s. rs_contents st' (NamespaceContent, snapshotKey i (sm_ID m)) = Some s \<and> s_updated s = be_written E)"

lemma kept_others:
  assumes "only_draft j st st'" and "draft_at E st' i = Some d" and "m \<in> set (dm_History d)"
    and "\<And>d m. draft_at E st' j = Some d \<Longrightarrow> m \<in> set (dm_History d) \<Longrightarrow> kept_or_stamped E st st' j m"
  shows "kept_or_stamped E st st' i m"
proof (cases "i = j")
  case False
  then have "draft_at E st i = Some d" using only_draft_at[OF assms(1)] assms(2) by metis
  then show ?thesis using assms(3) by (auto simp: kept_or_stamped_def)
qed (use assms in blast)

lemma kept_same: "draft_at E st i = Some d \<Longrightarrow> m \<in> set (dm_History d) \<Longrightarrow> kept_or_stamped E st st' i m"
  by (auto simp: kept_or_stamped_def)

context builder_env
begin

lemma call_kept_or_stamped:
  assumes run: "run_call E spec_store c st = (st', r)" and fresh: "call_fresh E st c"
    and at: "draft_at E st' i = Some e" and m: "m \<in> set (dm_History e)"
  shows "kept_or_stamped E st st' i m"
proof (cases r)
  case (Inl err)
  then have "st' = st" using call_atomic[of E spec_store c] run by (auto simp: atomicE_def)
  then show ?thesis using at m kept_same by blast
next
  case (Inr x)
  note ok = run[unfolded Inr]
  show ?thesis
  proof (cases c)
    case (CallCreate req)
    then obtain d' where run': "CreateDraft E spec_store req st = (st', Inr d')" using ok by (auto simp: bindE_Inr)
    have fk: "forked_utf8 req" using fresh CallCreate by (simp add: call_fresh_def)
    obtain n doc where law: "be_ids E 0 = Inr (dm_ID d')" "dm_History d' = [n]" "only_draft (dm_ID d') st st'"
        "draft_at E st' (dm_ID d') = Some (d'\<lparr>dm_Stamp := None\<rparr>)" "document_at E st' (dm_ID d') n = Some doc" "be_ids E 1 = Inr (sm_ID n)"
      using CreateDraft_law[OF run' fk] by blast
    show ?thesis
    proof (rule kept_others[OF law(3) at m])
      fix d k assume "draft_at E st' (dm_ID d') = Some d" "k \<in> set (dm_History d)"
      then have "k = n" using law(2,4) by auto
      then show "kept_or_stamped E st st' (dm_ID d') k"
        using content_some[of E st' "dm_ID d'" n] law(5) create_stamped[OF run' law(1,6)] by (auto simp: kept_or_stamped_def)
    qed
  next
    case (CallAppend req)
    let ?i = "ar_DraftID req"
    obtain d' where run': "AppendSnapshot E spec_store req st = (st', Inr d')" using ok CallAppend by (auto simp: bindE_Inr)
    have fr: "append_fresh E st req" using fresh CallAppend by (simp add: call_fresh_def)
    from AppendSnapshot_law[OF run' fr] obtain d n data doc where
      law: "draft_at E st ?i = Some d" "draft_at E st' ?i = Some (d'\<lparr>dm_Stamp := None\<rparr>)"
        "only_draft ?i st st'" "document_at E st' ?i n = Some (data, doc)"
        "set (dm_History d') \<subseteq> insert n (set (dm_History d))" "be_ids E 0 = Inr (sm_ID n)"
      by - (elim exE conjE, rule that, assumption+)
    show ?thesis
    proof (rule kept_others[OF law(3) at m])
      fix u k assume "draft_at E st' ?i = Some u" "k \<in> set (dm_History u)"
      then have "k = n \<or> k \<in> set (dm_History d)" using law(2,5) by auto
      then show "kept_or_stamped E st st' ?i k"
        using content_some[of E st' ?i n] law(1,4) append_stamped[OF run' law(6)] by (auto simp: kept_or_stamped_def)
    qed
  next
    case (CallMove req)
    then obtain d' where "MoveCursor E spec_store req st = (st', Inr d')" using ok by (auto simp: bindE_Inr)
    from MoveCursor_law[OF this] obtain d where law: "draft_at E st (mr_DraftID req) = Some d" "draft_at E st' (mr_DraftID req) = Some d'"
        "only_draft (mr_DraftID req) st st'" "dm_History d' = dm_History d"
      by auto
    show ?thesis by (rule kept_others[OF law(3) at m]) (use law in \<open>auto intro: kept_same\<close>)
  next
    case (CallDeleteSnapshot req)
    then obtain d' where "DeleteSnapshot E spec_store req st = (st', Inr d')" using ok by (auto simp: bindE_Inr)
    from DeleteSnapshot_law[OF this] obtain d j where law: "draft_at E st (dr_DraftID req) = Some d" "draft_at E st' (dr_DraftID req) = Some d'"
        "only_draft (dr_DraftID req) st st'" "dm_History d' = dm_History (snd (removeSnapshot j d))"
      by auto
    have "set (dm_History d') \<subseteq> set (dm_History d)" using law(4) set_remove_nth_subset by (fastforce simp: removeSnapshot_def)
    then show ?thesis by (intro kept_others[OF law(3) at m]) (use law in \<open>auto intro: kept_same\<close>)
  next
    case (CallPublish req)
    then obtain d' where "MarkPublished E spec_store req st = (st', Inr d')" using ok by (auto simp: bindE_Inr)
    from MarkPublished_law[OF this] obtain d where d: "draft_at E st (pr_DraftID req) = Some d" and law: "st' = st \<or>
        draft_at E st' (pr_DraftID req) = Some d' \<and> dm_History d' = dm_History d \<and> only_draft (pr_DraftID req) st st'"
      by auto
    show ?thesis
    proof (cases "st' = st")
      case False
      then show ?thesis using law d by (intro kept_others[OF _ at m, of "pr_DraftID req"]) (auto intro: kept_same)
    qed (use at m kept_same in blast)
  next
    case (CallDelete j actor f)
    then obtain u where "DeleteDraft E spec_store j actor f st = (st', Inr u)" using ok by (auto simp: bindE_Inr)
    then have law: "st' = drop_prefix NamespaceContent (draftContentPrefix j) (st\<lparr>rs_contents := (rs_contents st)((NamespaceDrafts, j) := None)\<rparr>)"
      unfolding DeleteDraft_law by blast
    have "draft_at E st' j = None" using law by (simp add: draft_at_def drop_prefix_def)
    then show ?thesis using law delete_only by (intro kept_others[OF _ at m, of j]) auto
  qed
qed

lemma call_published:
  assumes run: "run_call E spec_store c st = (st', r)" and fresh: "call_fresh E st c"
  shows "\<exists>i. only_draft i st st'"
proof (cases r)
  case (Inl err)
  then have "st' = st" using call_atomic[of E spec_store c] run by (auto simp: atomicE_def)
  then show ?thesis by auto
next
  case (Inr x)
  note ok = run[unfolded Inr]
  show ?thesis
  proof (cases c)
    case (CallCreate req)
    then obtain d' where "CreateDraft E spec_store req st = (st', Inr d')" using ok by (auto simp: bindE_Inr)
    moreover have "forked_utf8 req" using fresh CallCreate by (simp add: call_fresh_def)
    ultimately show ?thesis using CreateDraft_law by blast
  next
    case (CallAppend req)
    then obtain d' where run': "AppendSnapshot E spec_store req st = (st', Inr d')" using ok by (auto simp: bindE_Inr)
    have fr: "append_fresh E st req" using fresh CallAppend by (simp add: call_fresh_def)
    from AppendSnapshot_law[OF run' fr] have "only_draft (ar_DraftID req) st st'" by (elim exE conjE)
    then show ?thesis by blast
  next
    case (CallMove req)
    then obtain d' where "MoveCursor E spec_store req st = (st', Inr d')" using ok by (auto simp: bindE_Inr)
    then show ?thesis using MoveCursor_law by blast
  next
    case (CallDeleteSnapshot req)
    then obtain d' where "DeleteSnapshot E spec_store req st = (st', Inr d')" using ok by (auto simp: bindE_Inr)
    then show ?thesis using DeleteSnapshot_law by blast
  next
    case (CallPublish req)
    then obtain d' where "MarkPublished E spec_store req st = (st', Inr d')" using ok by (auto simp: bindE_Inr)
    then show ?thesis using MarkPublished_law by (metis only_draft_refl)
  next
    case (CallDelete j actor f)
    then obtain u where "DeleteDraft E spec_store j actor f st = (st', Inr u)" using ok by (auto simp: bindE_Inr)
    then show ?thesis unfolding DeleteDraft_law using delete_only by blast
  qed
qed

end

subsection \<open>Requests that run beside a cleanup\<close>

definition same_pub :: "'x pub_env \<Rightarrow> 'x pub_env \<Rightarrow> bool" where
  "same_pub P Q \<longleftrightarrow> same_codec (pe_bld P) (pe_bld Q) \<and> pe_dec P = pe_dec Q"

lemma same_pub_reads:
  assumes "same_pub P Q"
  shows "published_at P = published_at Q" and "verified P = verified Q" and "published_whole P = published_whole Q"
proof -
  have eq: "be_parse (pe_bld P) = be_parse (pe_bld Q)" "be_sha256 (pe_bld P) = be_sha256 (pe_bld Q)"
      "be_inflate (pe_bld P) = be_inflate (pe_bld Q)" "pe_dec P = pe_dec Q"
    using assms by (simp_all add: same_pub_def same_codec_def)
  show at: "published_at P = published_at Q"
    unfolding published_at_def decodePublished_def validatePublishedMetadata_def PublishedDocumentID_def eq by (rule refl)
  show v: "verified P = verified Q"
    unfolding verified_def verify_payload_def decompress_def digestOf_def eq by (rule refl)
  show "published_whole P = published_whole Q" unfolding published_whole_def published_data_def at v eq by (rule refl)
qed

inductive requests :: "'x pub_env \<Rightarrow> ('x Document \<Rightarrow> bool) \<Rightarrow> (int64 \<Rightarrow> bool) \<Rightarrow> rstore \<Rightarrow> nat \<Rightarrow> rstore \<Rightarrow> bool"
  for P valid_doc Y st where
  no_request: "requests P valid_doc Y st 0 st"
| draft_request: "requests P valid_doc Y st n t \<Longrightarrow> builder_env F valid_doc \<Longrightarrow> same_codec (pe_bld P) F \<Longrightarrow> Y (be_written F) \<Longrightarrow>
    call_fresh F t c \<Longrightarrow> run_call F spec_store c t = (u, r) \<Longrightarrow> requests P valid_doc Y st (n + 2) u"
| publish_request: "requests P valid_doc Y st n t \<Longrightarrow> pub_env Q valid_doc \<Longrightarrow> same_pub P Q \<Longrightarrow> Y (be_written (pe_bld Q)) \<Longrightarrow>
    PutPublishedDocument Q spec_store req t = (u, r') \<Longrightarrow> requests P valid_doc Y st (n + 2) u"
| drop_request: "requests P valid_doc Y st n t \<Longrightarrow> deletePublished spec_store i e t = (u, r'') \<Longrightarrow> requests P valid_doc Y st n u"

text \<open>What must not be removed: the content of snapshots and documents that the listing missed is young.\<close>

definition young_at :: "(int64 \<Rightarrow> bool) \<Rightarrow> rstore \<Rightarrow> string \<Rightarrow> bool" where
  "young_at Y st key \<longleftrightarrow> (\<exists>s. rs_contents st (NamespaceContent, key) = Some s \<and> Y (s_updated s))"

definition drafts_safe :: "(int64 \<Rightarrow> bool) \<Rightarrow> 'x bld_env \<Rightarrow> string list \<Rightarrow> rstore \<Rightarrow> bool" where
  "drafts_safe Y E live st \<longleftrightarrow>
     (\<forall>i d m. draft_at E st i = Some d \<longrightarrow> m \<in> set (dm_History d) \<longrightarrow>
        snapshotKey i (sm_ID m) \<in> set live \<or> young_at Y st (snapshotKey i (sm_ID m)))"

definition documents_safe :: "(int64 \<Rightarrow> bool) \<Rightarrow> 'x pub_env \<Rightarrow> string list \<Rightarrow> rstore \<Rightarrow> bool" where
  "documents_safe Y P live st \<longleftrightarrow>
     (\<forall>i d. published_at P st i = Some d \<longrightarrow> publishedKey i \<in> set live \<or> young_at Y st (publishedKey i))"

lemma young_kept: "wrote Y n st st' \<Longrightarrow> young_at Y st key \<Longrightarrow> rs_contents st' (NamespaceContent, key) \<noteq> None \<Longrightarrow> young_at Y st' key"
  unfolding wrote_def young_at_def by (metis not_None_eq option.inject)

definition drop_document :: "string \<Rightarrow> rstore \<Rightarrow> rstore" where
  "drop_document i st =
     st\<lparr>rs_contents := (rs_contents st)((NamespacePublished, i) := None, (NamespaceContent, publishedKey i) := None)\<rparr>"

lemma validate_exists: "validateRecordNamespaceAndKey ns k = Some e \<Longrightarrow> cause e \<noteq> RecordNotExist a b"
  by (auto simp: validateRecordNamespaceAndKey_def ValidateRecordNamespace_def ValidateRecordKey_def validateRecordKeyOrPrefix_def
      split: if_splits option.splits)

lemma deletePublished_cases: "deletePublished spec_store i e st = (st', r) \<Longrightarrow> st' = st \<or> st' = drop_document i st"
proof -
  assume run: "deletePublished spec_store i e st = (st', r)"
  let ?fn = "callE (spec_delete NamespacePublished i e) (\<lambda>r. case r of Inl x \<Rightarrow> failE (storeError kindPublished i e x)
      | Inr _ \<Rightarrow> dropContent spec_ops (publishedKey i))"
  obtain t x where fn: "?fn st = (t, x)" by fastforce
  have "st' = (case x of Inl _ \<Rightarrow> st | Inr _ \<Rightarrow> t)"
    using run fn by (auto simp: deletePublished_def pub_txn_def spec_txn split: sum.splits)
  moreover have "t = drop_document i st" if "x = Inr y" for y
    using fn that
    by (auto simp: callE_def spec_delete_def dropContent_def drop_document_def checkRecordRevision_def fun_upd_idem
        dest: validate_exists
        split: prod.splits sum.splits option.splits rec_error.splits if_splits)
  ultimately show ?thesis by (cases x) auto
qed

lemma drop_only_published: "only_published i st (drop_document i st)"
  by (auto simp: only_published_def drop_document_def)

lemma drop_published_at: "published_at P (drop_document i st) i = None"
  by (simp add: published_at_def drop_document_def)

lemma drop_whole: "published_whole P st \<Longrightarrow> published_whole P (drop_document i st)"
  by (rule published_keep[OF _ drop_only_published]) (simp_all add: drop_published_at)

lemma only_published_safe:
  assumes "only_published i st st'"
  shows "drafts_safe Y E live st' \<longleftrightarrow> drafts_safe Y E live st"
proof -
  have "young_at Y st' (snapshotKey j k) = young_at Y st (snapshotKey j k)" for j k
    using assms unfolding only_published_def young_at_def by (metis ns_differ(6) key_kinds_differ(2))
  then show ?thesis unfolding drafts_safe_def only_published_drafts(1)[OF assms] by simp
qed

lemma only_draft_safe:
  assumes "only_draft i st st'"
  shows "documents_safe Y P live st' \<longleftrightarrow> documents_safe Y P live st"
proof -
  have "young_at Y st' (publishedKey j) = young_at Y st (publishedKey j)" for j
    using assms unfolding only_draft_def young_at_def by (metis ns_differ(2) not_draft_prefix)
  then show ?thesis unfolding documents_safe_def only_draft_published(1)[OF assms] by simp
qed

lemma documents_safe_keep:
  assumes "documents_safe Y P live st" and "only_published i st st'"
    and "\<And>d. published_at P st' i = Some d \<Longrightarrow> publishedKey i \<in> set live \<or> young_at Y st' (publishedKey i)"
  shows "documents_safe Y P live st'"
  unfolding documents_safe_def
proof (intro allI impI)
  fix j d assume d: "published_at P st' j = Some d"
  show "publishedKey j \<in> set live \<or> young_at Y st' (publishedKey j)"
  proof (cases "j = i")
    case False
    then have "published_at P st j = Some d" using only_published_at[OF assms(2)] d by metis
    moreover have "young_at Y st' (publishedKey j) = young_at Y st (publishedKey j)"
      using assms(2) False unfolding only_published_def young_at_def by (metis ns_differ(6) publishedKey_eq)
    ultimately show ?thesis using assms(1) by (auto simp: documents_safe_def)
  qed (use assms(3) d in blast)
qed

definition kept :: "(int64 \<Rightarrow> bool) \<Rightarrow> 'x pub_env \<Rightarrow> nat \<Rightarrow> rstore \<Rightarrow> rstore \<Rightarrow> bool" where
  "kept Y P n st st' \<longleftrightarrow>
     wrote Y n st st' \<and> drafts_whole (pe_bld P) st' \<and> published_whole P st'
     \<and> (\<forall>live. drafts_safe Y (pe_bld P) live st \<longrightarrow> drafts_safe Y (pe_bld P) live st')
     \<and> (\<forall>live. documents_safe Y P live st \<longrightarrow> documents_safe Y P live st')"

lemma draft_request_keeps:
  assumes env: "builder_env F valid_doc" and codec: "same_codec (pe_bld P) F" and Y: "Y (be_written F)" and fresh: "call_fresh F st c"
    and run: "run_call F spec_store c st = (st', r)" and whole: "drafts_whole (pe_bld P) st" "published_whole P st"
  shows "kept Y P 2 st st'"
proof -
  note reads = same_codec_reads[OF codec]
  have wr: "wrote Y 2 st st'" using call_writes[of Y F c, OF Y] run by (metis fst_conv writes_def)
  have w: "drafts_whole (pe_bld P) st'"
    using builder_env.call_keeps_whole[OF env _ run fresh] whole(1) reads(3) by simp
  obtain j where only: "only_draft j st st'" using builder_env.call_published[OF env run fresh] by blast
  have "drafts_safe Y (pe_bld P) live st'" if live: "drafts_safe Y (pe_bld P) live st" for live
    unfolding drafts_safe_def
  proof (intro allI impI)
    fix i d m assume d: "draft_at (pe_bld P) st' i = Some d" and m: "m \<in> set (dm_History d)"
    let ?k = "snapshotKey i (sm_ID m)"
    have "kept_or_stamped F st st' i m"
      using builder_env.call_kept_or_stamped[OF env run fresh] d m reads(1) by simp
    then show "?k \<in> set live \<or> young_at Y st' ?k" unfolding kept_or_stamped_def
    proof (elim disjE exE conjE)
      fix d0 n assume "draft_at F st i = Some d0" "n \<in> set (dm_History d0)" "sm_ID n = sm_ID m"
      then have "?k \<in> set live \<or> young_at Y st ?k" using live reads(1) by (metis drafts_safe_def)
      moreover have "document_at (pe_bld P) st' i m \<noteq> None" using w d m unfolding drafts_whole_def by blast
      ultimately show ?thesis using young_kept[OF wr] content_some by fastforce
    next
      fix s assume "rs_contents st' (NamespaceContent, ?k) = Some s" "s_updated s = be_written F"
      then show ?thesis using Y by (auto simp: young_at_def)
    qed
  qed
  then show ?thesis using wr w whole(2) by (simp add: kept_def only_draft_published(3)[OF only] only_draft_safe[OF only])
qed

lemma publish_request_keeps:
  assumes env: "pub_env Q valid_doc" and codec: "same_pub P Q" and Y: "Y (be_written (pe_bld Q))"
    and run: "PutPublishedDocument Q spec_store req st = (st', r)" and whole: "drafts_whole (pe_bld P) st" "published_whole P st"
  shows "kept Y P 2 st st'"
proof (cases r)
  case (Inl e)
  have "atomicE (PutPublishedDocument Q spec_store req)"
  proof -
    have "atomicE (pub_txn spec_store i e fn)" for i e and fn :: "(rstore, 'b) bld_action"
      by (auto simp: atomicE_def pub_txn_def record_txn_def split: option.splits prod.splits sum.splits)
    then show ?thesis unfolding PutPublishedDocument_def Let_def case_prod_beta by (intro atomic_intros reads_basic)
  qed
  then have "st' = st" using run Inl by (auto simp: atomicE_def)
  then show ?thesis using whole by (simp add: kept_def)
next
  case (Inr d)
  note reads = same_pub_reads[OF codec]
  have wr: "wrote Y 2 st st'" using put_writes[of Y Q req, OF Y] run by (metis fst_conv writes_def)
  obtain data where law: "only_published (pd_ID d) st st'" "published_at Q st' (pd_ID d) = Some d" "verified Q st' d = Inr data"
    and alt: "(\<exists>old. published_at Q st (pd_ID d) = Some old) \<or> (\<exists>doc load val. written_anew (be_written (pe_bld Q)) doc val load st st' d)"
    using pub_env.Put_law[OF env run[unfolded Inr]] by blast
  have "documents_safe Y P live st'" if live: "documents_safe Y P live st" for live
  proof (rule documents_safe_keep[OF live law(1)])
    let ?k = "publishedKey (pd_ID d)"
    show "?k \<in> set live \<or> young_at Y st' ?k"
      using alt
    proof (elim disjE exE)
      fix old assume "published_at Q st (pd_ID d) = Some old"
      then have "?k \<in> set live \<or> young_at Y st ?k" using live reads(1) by (metis documents_safe_def)
      moreover have "rs_contents st' (NamespaceContent, ?k) \<noteq> None"
        using law(3) by (auto simp: verified_def pub_content_def split: option.splits)
      ultimately show ?thesis using young_kept[OF wr] by blast
    next
      fix doc load val assume "written_anew (be_written (pe_bld Q)) doc val load st st' d"
      then show ?thesis using Y by (auto simp: written_anew_def young_at_def spec_write_def)
    qed
  qed
  moreover have "published_whole P st'" using pub_env.Put_whole(1)[OF env _ run[unfolded Inr]] whole(2) reads(3) by simp
  ultimately show ?thesis
    using wr whole(1) by (simp add: kept_def only_published_drafts(3)[OF law(1)] only_published_safe[OF law(1)])
qed

lemma drop_request_keeps:
  assumes "deletePublished spec_store i e st = (st', r)" and whole: "drafts_whole (pe_bld P) st" "published_whole P st"
  shows "kept Y P 0 st st'"
  using deletePublished_cases[OF assms(1)]
proof
  assume st': "st' = drop_document i st"
  note only = drop_only_published[of i st, folded st']
  have "wrote Y 0 st st'" using st' by (intro wrote_removed) (auto simp: map_le_def drop_document_def)
  moreover have "documents_safe Y P live st'" if "documents_safe Y P live st" for live
    using documents_safe_keep[OF that only] drop_published_at[of P i st] st' by simp
  ultimately show ?thesis
    using whole drop_whole[OF whole(2), of i, folded st']
    by (simp add: kept_def only_published_drafts(3)[OF only] only_published_safe[OF only])
qed (use whole in \<open>simp add: kept_def\<close>)

lemma kept_trans: "kept Y P n st t \<Longrightarrow> kept Y P m t u \<Longrightarrow> kept Y P (n + m) st u"
  unfolding kept_def by (blast intro: wrote_trans)

lemma requests_keep:
  assumes "requests P valid_doc Y st n st'" and "drafts_whole (pe_bld P) st" "published_whole P st"
  shows "kept Y P n st st'"
  using assms(1)
proof (induction rule: requests.induct)
  case no_request
  then show ?case using assms(2,3) by (simp add: kept_def)
next
  case (draft_request n t F c u r)
  then show ?case using kept_trans[OF _ draft_request_keeps] unfolding kept_def by blast
next
  case (publish_request n t Q req u r')
  then show ?case using kept_trans[OF _ publish_request_keeps] unfolding kept_def by blast
next
  case (drop_request n t i e u r'')
  have "kept Y P 0 t u"
    by (rule drop_request_keeps[OF drop_request(2)]) (use drop_request.IH in \<open>simp_all add: kept_def\<close>)
  then show ?case using kept_trans[OF drop_request.IH] by force
qed

end
