(* ===== verification/Builder_Orphans.thy ===== *)
theory Builder_Orphans
  imports Builder_Requests
begin

section \<open>What the cleanups promise\<close>

text \<open>
  The cleanup of content, alone and beside other requests, and the cleanups of documents and drafts.
  Beside requests that write, whatever a cleanup removes, the content of every draft and document is
  there afterwards. Alone, a cleanup removes exactly the orphans, and a dry run counts what the run
  removes.
\<close>

subsection \<open>Listings\<close>

lemma listed_keys:
  assumes "finite (dom (rs_contents st))"
  shows "set (sorted_list_of_set (keys_with_prefix ns [] st)) = {k. rs_contents st (ns, k) \<noteq> None}"
proof -
  have "keys_with_prefix ns [] st \<subseteq> snd ` dom (rs_contents st)" by (force simp: keys_with_prefix_def)
  then have "finite (keys_with_prefix ns [] st)" using assms finite_surj by blast
  then show ?thesis by (auto simp: keys_with_prefix_def)
qed

definition records_of :: "string \<Rightarrow> rstore \<Rightarrow> string list \<Rightarrow> store_record list" where
  "records_of ns st ks = map (\<lambda>k. record_of ns k (the (rs_contents st (ns, k)))) ks"

lemma spec_listing:
  assumes "ValidateRecordNamespace ns = None"
  shows "rd_list spec_store ns [] st = Inr (records_of ns st (sorted_list_of_set (keys_with_prefix ns [] st)))"
    and "rd_keys spec_store ns [] st = Inr (sorted_list_of_set (keys_with_prefix ns [] st))"
proof -
  have "validateRecordNamespaceAndPrefix ns [] = None"
    using assms by (simp add: validateRecordNamespaceAndPrefix_def ValidateRecordPrefix_def)
  then show "rd_list spec_store ns [] st = Inr (records_of ns st (sorted_list_of_set (keys_with_prefix ns [] st)))"
    "rd_keys spec_store ns [] st = Inr (sorted_list_of_set (keys_with_prefix ns [] st))"
    by (simp_all add: spec_store_def spec_list_def records_of_def comp_def)
qed

lemma sort_drafts_law:
  assumes "\<forall>k \<in> set ks. rs_contents st (NamespaceDrafts, k) \<noteq> None"
  shows "fst (sort_drafts E (records_of NamespaceDrafts st ks)) = List.map_filter (draft_at E st) ks
    \<and> map dd_ID (snd (sort_drafts E (records_of NamespaceDrafts st ks))) = filter (\<lambda>k. draft_at E st k = None) ks"
  using assms
proof (induction ks)
  case (Cons k ks)
  obtain s where s: "rs_contents st (NamespaceDrafts, k) = Some s" using Cons.prems by auto
  have at: "draft_at E st k = (case decodeDraft E (record_of NamespaceDrafts k s) of Inl _ \<Rightarrow> None | Inr d \<Rightarrow> Some d)"
    using s by (simp add: draft_at_def)
  then show ?case using Cons s
    by (auto simp: records_of_def readDamagedDraft_def Let_def List.map_filter_def split: prod.split sum.split)
qed (simp_all add: records_of_def List.map_filter_def)

lemma sort_published_law:
  assumes "\<forall>k \<in> set ks. rs_contents st (NamespacePublished, k) \<noteq> None"
  shows "fst (sort_published P (records_of NamespacePublished st ks)) = List.map_filter (published_at P st) ks
    \<and> map fst (snd (sort_published P (records_of NamespacePublished st ks))) = filter (\<lambda>k. published_at P st k = None) ks"
  using assms
proof (induction ks)
  case (Cons k ks)
  obtain s where s: "rs_contents st (NamespacePublished, k) = Some s" using Cons.prems by auto
  have at: "published_at P st k = (case decodePublished P (record_of NamespacePublished k s) of Inl _ \<Rightarrow> None | Inr d \<Rightarrow> Some d)"
    using s by (simp add: published_at_def)
  then show ?case using Cons s
    by (auto simp: records_of_def List.map_filter_def split: prod.split sum.split)
qed (simp_all add: records_of_def List.map_filter_def)

definition draft_keys :: "rstore \<Rightarrow> string list" where
  "draft_keys st = sorted_list_of_set (keys_with_prefix NamespaceDrafts [] st)"

definition document_keys :: "rstore \<Rightarrow> string list" where
  "document_keys st = sorted_list_of_set (keys_with_prefix NamespacePublished [] st)"

lemma keys_present:
  "k \<in> set (draft_keys st) \<Longrightarrow> rs_contents st (NamespaceDrafts, k) \<noteq> None"
  "k \<in> set (document_keys st) \<Longrightarrow> rs_contents st (NamespacePublished, k) \<noteq> None"
  by (cases "finite (keys_with_prefix NamespaceDrafts [] st)"; cases "finite (keys_with_prefix NamespacePublished [] st)";
      auto simp: draft_keys_def document_keys_def keys_with_prefix_def)+

lemma list_drafts_law:
  assumes "ListDraftsWithDamaged E spec_store st = (st', Inr (ds, bad))"
  shows "st' = st \<and> ds = List.map_filter (draft_at E st) (draft_keys st)
    \<and> map dd_ID bad = filter (\<lambda>k. draft_at E st k = None) (draft_keys st)"
proof -
  have "st' = st" "(ds, bad) = sort_drafts E (records_of NamespaceDrafts st (draft_keys st))"
    using assms by (auto simp: ListDraftsWithDamaged_def run_Inr spec_listing ns_ok draft_keys_def)
  then show ?thesis using sort_drafts_law[of "draft_keys st" st E] keys_present by (metis fst_conv snd_conv)
qed

lemma list_published_law:
  assumes "listReadablePublished P spec_store st = (st', Inr (docs, bad))"
  shows "st' = st \<and> docs = List.map_filter (published_at P st) (document_keys st)
    \<and> map fst bad = filter (\<lambda>k. published_at P st k = None) (document_keys st)"
proof -
  have "st' = st" "(docs, bad) = sort_published P (records_of NamespacePublished st (document_keys st))"
    using assms by (auto simp: listReadablePublished_def run_Inr spec_listing ns_ok document_keys_def)
  then show ?thesis using sort_published_law[of "document_keys st" st P] keys_present by (metis fst_conv snd_conv)
qed

lemma map_filter_set: "set (List.map_filter f xs) = {y. \<exists>x \<in> set xs. f x = Some y}"
  by (force simp: List.map_filter_def)

text \<open>What a listing of drafts and then of documents makes live.\<close>

lemma live_drafts:
  assumes "finite (dom (rs_contents st))" and "draft_at E st i = Some d" and "m \<in> set (dm_History d)"
  shows "snapshotKey i (sm_ID m) \<in> set (live_keys (List.map_filter (draft_at E st) (draft_keys st)) docs bad)"
proof -
  have "i \<in> set (draft_keys st)" using assms(1,2) listed_keys[OF assms(1), of NamespaceDrafts] draft_record[OF assms(2)]
    by (auto simp: draft_keys_def)
  then have "d \<in> set (List.map_filter (draft_at E st) (draft_keys st))" using assms(2) by (auto simp: map_filter_set)
  then show ?thesis using assms(3) draft_id[OF assms(2)] by (force simp: live_keys_def)
qed

lemma live_documents:
  assumes "finite (dom (rs_contents st))" and "rs_contents st (NamespacePublished, i) \<noteq> None"
    and "map fst bad = filter (\<lambda>k. published_at P st k = None) (document_keys st)"
  shows "publishedKey i \<in> set (live_keys drafts (List.map_filter (published_at P st) (document_keys st)) bad)"
proof -
  have i: "i \<in> set (document_keys st)" using assms(1,2) listed_keys[OF assms(1), of NamespacePublished] by (auto simp: document_keys_def)
  show ?thesis
  proof (cases "published_at P st i")
    case None
    then have "i \<in> fst ` set bad" using i assms(3) by (metis (mono_tags, lifting) image_set mem_Collect_eq set_filter)
    then show ?thesis by (force simp: live_keys_def)
  next
    case (Some d)
    then have "d \<in> set (List.map_filter (published_at P st) (document_keys st))" "pd_ID d = i"
      using i published_Some[OF Some] by (auto simp: map_filter_set)
    then show ?thesis by (force simp: live_keys_def)
  qed
qed

subsection \<open>The cleanup of content beside other requests\<close>

definition young :: "'x pub_env \<Rightarrow> int64 \<Rightarrow> bool" where
  "young P w \<longleftrightarrow> be_now (pe_bld P) - sint w < OrphanGracePeriod"

text \<open>
  What holds at the \<open>k\<close>-th place where other requests run: \<open>b\<close> bounds what they write there, and \<open>R\<close> is
  the revision of the store at the start.
\<close>

definition cleanup_inv :: "'x pub_env \<Rightarrow> (nat \<Rightarrow> nat) \<Rightarrow> nat \<Rightarrow> nat \<Rightarrow> rstore \<Rightarrow> bool" where
  "cleanup_inv P b R k st \<longleftrightarrow>
     finite (dom (rs_contents st)) \<and> rs_wf st \<and> drafts_whole (pe_bld P) st \<and> published_whole P st
     \<and> unat (rs_revision st) \<le> R + sum b {..<k}"

lemma cleanup_inv_later: "cleanup_inv P b R k st \<Longrightarrow> k \<le> l \<Longrightarrow> cleanup_inv P b R l st"
proof -
  assume inv: "cleanup_inv P b R k st" and "k \<le> l"
  then have "sum b {..<k} \<le> sum b {..<l}" by (intro sum_mono2) auto
  then show ?thesis using inv by (simp add: cleanup_inv_def)
qed

lemma others_keep:
  assumes inv: "cleanup_inv P b R k st" and req: "requests P valid_doc (young P) st (b k) t"
    and room: "R + sum b {..<Suc k} < 2 ^ 64"
  shows "cleanup_inv P b R (Suc k) t" and "kept (young P) P (b k) st t"
    and "rs_contents t x = Some s \<Longrightarrow> rs_contents st x = Some s0 \<Longrightarrow> s_revision s = s_revision s0 \<Longrightarrow> s = s0"
proof -
  show kept: "kept (young P) P (b k) st t" using requests_keep[OF req] inv by (simp add: cleanup_inv_def)
  have w: "wrote (young P) (b k) st t" using kept by (simp add: kept_def)
  have r: "unat (rs_revision st) + b k < 2 ^ 64" using inv room by (simp add: cleanup_inv_def)
  note rev = wrote_revision[OF w r]
  have "finite (dom (rs_contents t))" using w inv by (simp add: wrote_def cleanup_inv_def)
  then show "cleanup_inv P b R (Suc k) t" using inv kept rev(1,2) by (simp add: cleanup_inv_def kept_def)
  assume s: "rs_contents t x = Some s" "rs_contents st x = Some s0" "s_revision s = s_revision s0"
  then have "s_revision s \<le> rs_revision st" using inv by (cases x) (auto simp: cleanup_inv_def rs_wf_def ran_def)
  then show "s = s0" using rev(3)[OF s(1)] s(2) by simp
qed

text \<open>Removing a record of content that is neither live nor young.\<close>

definition drop_content :: "string \<Rightarrow> rstore \<Rightarrow> rstore" where
  "drop_content key st = st\<lparr>rs_contents := (rs_contents st)((NamespaceContent, key) := None)\<rparr>"

definition all_safe :: "'x pub_env \<Rightarrow> string list \<Rightarrow> rstore \<Rightarrow> bool" where
  "all_safe P live st \<longleftrightarrow> drafts_safe (young P) (pe_bld P) live st \<and> documents_safe (young P) P live st"

lemma drop_content_reads:
  "draft_at E (drop_content key st) i = draft_at E st i" "published_at P (drop_content key st) i = published_at P st i"
  by (simp_all add: draft_at_def published_at_def drop_content_def)

lemma drop_content_keeps:
  assumes inv: "cleanup_inv P b R k st" and safe: "all_safe P live st"
    and key: "key \<notin> set live" "\<not> young_at (young P) st key"
  shows "cleanup_inv P b R k (drop_content key st) \<and> all_safe P live (drop_content key st)"
proof -
  have other: "snapshotKey i (sm_ID m) \<noteq> key" if "draft_at (pe_bld P) st i = Some d" "m \<in> set (dm_History d)" for i d m
    using safe key that unfolding all_safe_def drafts_safe_def by metis
  have other': "publishedKey i \<noteq> key" if "published_at P st i = Some d" for i d
    using safe key that unfolding all_safe_def documents_safe_def by metis
  have content: "rs_contents (drop_content key st) (n, x) = (if n = NamespaceContent \<and> x = key then None else rs_contents st (n, x))" for n x
    by (simp add: drop_content_def)
  have "document_at (pe_bld P) (drop_content key st) i m = document_at (pe_bld P) st i m"
    if "draft_at (pe_bld P) st i = Some d" "m \<in> set (dm_History d)" for i d m
    using other[OF that] by (intro document_same) (simp add: content_at_def content)
  then have dw: "drafts_whole (pe_bld P) (drop_content key st)"
    using inv unfolding cleanup_inv_def drafts_whole_def drop_content_reads by metis
  have "published_data P (drop_content key st) d = published_data P st d" if "published_at P st i = Some d" for i d
  proof -
    have "publishedKey (pd_ID d) \<noteq> key" using other'[OF that] published_Some[OF that] by simp
    then show ?thesis by (simp add: published_data_def verified_def pub_content_def content)
  qed
  then have pw: "published_whole P (drop_content key st)"
    using inv unfolding cleanup_inv_def published_whole_def drop_content_reads by metis
  have young: "young_at Y (drop_content key st) x \<longleftrightarrow> x \<noteq> key \<and> young_at Y st x" for Y x by (auto simp: young_at_def content)
  have "all_safe P live (drop_content key st)"
    using safe other other' unfolding all_safe_def drafts_safe_def documents_safe_def drop_content_reads young by metis
  moreover have "rs_wf (drop_content key st)"
    by (rule rs_wf_shrink[of st]) (use inv in \<open>auto simp: cleanup_inv_def map_le_def drop_content_def\<close>)
  ultimately show ?thesis using inv dw pw by (simp add: cleanup_inv_def drop_content_def)
qed

lemma rd_delete_spec: "record_txn spec_store (\<lambda>e. e) (spec_delete ns k e) = spec_delete ns k e"
  by (intro ext) (auto simp: spec_txn spec_delete_def split: option.splits)

text \<open>What handling one key does to the store.\<close>

lemma cleanup_key_cases:
  assumes "cleanup_key P spec_store others dry live unreadable n key st = (st', r)"
  defines "t \<equiv> others (2 * n + 2) st"
  defines "u \<equiv> others (2 * n + 3) t"
  shows "st' = st \<or> st' = t \<or> st' = u
    \<or> (\<exists>s0 s. key \<notin> set live \<and> \<not> dry \<and> rs_contents t (NamespaceContent, key) = Some s0 \<and> \<not> young P (s_updated s0)
         \<and> rs_contents u (NamespaceContent, key) = Some s \<and> (s_revision s0 = AnyRevision \<or> s_revision s = s_revision s0)
         \<and> st' = drop_content key u)"
proof (cases "contentDraftOf key")
  case None
  then show ?thesis using assms(1) by (simp add: cleanup_key_def)
next
  case (Some draftID)
  show ?thesis
  proof (cases "key \<in> set live \<or> draftID \<noteq> [] \<and> draftID \<in> set unreadable")
    case True
    then show ?thesis using assms(1) Some by (auto simp: cleanup_key_def)
  next
    case live: False
    show ?thesis
    proof (cases "spec_get NamespaceContent key t")
      case (Inl e)
      then have "st' = t" using assms(1) Some live
        by (auto simp: cleanup_key_def bindE_def others_run_def tryE_def readingE_def t_def split: rec_error.splits)
      then show ?thesis by blast
    next
      case (Inr rec)
      then obtain s0 where s0: "rs_contents t (NamespaceContent, key) = Some s0" "rec = record_of NamespaceContent key s0"
        by (auto simp: spec_get_def split: option.splits)
      have run: "cleanup_key P spec_store others dry live unreadable n key st =
          (if young P (s_updated s0) then retE Kept
           else if dry then retE Gone
           else bindE (others_run others (2 * n + 3)) (\<lambda>_.
                  callE (spec_delete NamespaceContent key (s_revision s0)) (\<lambda>r.
                      case r of
                        Inr _ \<Rightarrow> retE Gone
                      | Inl (RecordNotExist _ _) \<Rightarrow> retE Kept
                      | Inl (RecordConflict _ _ _ _) \<Rightarrow> retE Kept
                      | Inl e \<Rightarrow> retE (Failed (BStore e))))) t"
        using Some live Inr s0
        by (auto simp: cleanup_key_def bindE_def others_run_def tryE_def readingE_def t_def young_def record_time_def record_of_def
            callE_def rd_delete_spec)
      show ?thesis
      proof (cases "young P (s_updated s0) \<or> dry")
        case True
        then show ?thesis using assms(1) run by (auto split: if_splits)
      next
        case False
        obtain v x where del: "spec_delete NamespaceContent key (s_revision s0) u = (v, x)" by fastforce
        have "st' = v" using assms(1) run False del
          by (auto simp: bindE_def others_run_def callE_def u_def split: sum.splits rec_error.splits)
        moreover have "v = u \<or> (\<exists>s. rs_contents u (NamespaceContent, key) = Some s
            \<and> (s_revision s0 = AnyRevision \<or> s_revision s = s_revision s0) \<and> v = drop_content key u)"
          using del by (auto simp: spec_delete_def checkRecordRevision_def drop_content_def split: option.splits if_splits)
        ultimately show ?thesis using False live s0 by blast
      qed
    qed
  qed
qed

lemma cleanup_key_keeps:
  assumes inv: "cleanup_inv P b R (2 * n + 2) st" and safe: "all_safe P live st"
    and req: "\<And>k s. requests P valid_doc (young P) s (b k) (others k s)" and room: "\<And>k. R + sum b {..<k} < 2 ^ 64"
    and run: "cleanup_key P spec_store others dry live unreadable n key st = (st', r)"
  shows "cleanup_inv P b R (2 * Suc n + 2) st' \<and> all_safe P live st'"
proof -
  let ?t = "others (2 * n + 2) st" let ?u = "others (2 * n + 3) ?t"
  have idx: "Suc (2 * n + 2) = 2 * n + 3" "Suc (2 * n + 3) = 2 * Suc n + 2" by simp_all
  note t = others_keep[OF inv req room, unfolded idx]
  note u = others_keep[OF t(1) req room, unfolded idx]
  have st: "all_safe P live ?t" using t(2) safe by (simp add: kept_def all_safe_def)
  have su: "all_safe P live ?u" using u(2) st by (simp add: kept_def all_safe_def)
  have it: "cleanup_inv P b R (2 * Suc n + 2) ?t" by (rule cleanup_inv_later[OF t(1)]) simp
  have iv: "cleanup_inv P b R (2 * Suc n + 2) st" by (rule cleanup_inv_later[OF inv]) simp
  consider "st' = st" | "st' = ?t" | "st' = ?u"
    | (drop) s0 s where "key \<notin> set live" "rs_contents ?t (NamespaceContent, key) = Some s0" "\<not> young P (s_updated s0)"
        "rs_contents ?u (NamespaceContent, key) = Some s" "s_revision s0 = AnyRevision \<or> s_revision s = s_revision s0"
        "st' = drop_content key ?u"
    using cleanup_key_cases[OF run] by blast
  then show ?thesis
  proof cases
    case drop
    have "0 < s_revision s0" using t(1) drop(2) by (auto simp: cleanup_inv_def rs_wf_def ran_def)
    then have "s = s0" using u(3)[OF drop(4,2)] drop(5) by (auto simp: AnyRevision_def)
    then have "\<not> young_at (young P) ?u key" using drop(3,4) by (simp add: young_at_def)
    then show ?thesis using drop_content_keeps[OF u(1) su drop(1)] drop(6) by simp
  qed (use iv safe it st u(1) su in simp_all)
qed

lemma cleanup_keys_keep:
  assumes "cleanup_inv P b R (2 * n + 2) st" and "all_safe P live st"
    and "\<And>k s. requests P valid_doc (young P) s (b k) (others k s)" and "\<And>k. R + sum b {..<k} < 2 ^ 64"
    and "each (cleanup_key P spec_store others dry live unreadable) n keys st = (st', r)"
  shows "\<exists>l. cleanup_inv P b R l st'"
  using assms(1,2,5)
proof (induction keys arbitrary: n st r)
  case (Cons key keys)
  obtain t x where one: "cleanup_key P spec_store others dry live unreadable n key st = (t, x)" by fastforce
  note k = cleanup_key_keeps[OF Cons.prems(1,2) assms(3,4) one]
  show ?case
  proof (cases x)
    case (Inl e)
    then show ?thesis using Cons.prems(3) one k by auto
  next
    case (Inr out)
    obtain u y where two: "each (cleanup_key P spec_store others dry live unreadable) (Suc n) keys t = (u, y)" by fastforce
    then have "u = st'" using Cons.prems(3) one Inr by (cases y) auto
    then show ?thesis using Cons.IH[OF _ _ two[unfolded \<open>u = st'\<close>]] k by blast
  qed
qed auto

lemma listings_run:
  assumes "be_ctx (pe_bld P) = None"
  shows "\<exists>ds bad. ListDraftsWithDamaged (pe_bld P) spec_store st = (st, Inr (ds, bad))"
    and "\<exists>docs bad. listReadablePublished P spec_store st = (st, Inr (docs, bad))"
  using assms
  by (auto simp: ListDraftsWithDamaged_def listReadablePublished_def bindE_def checkE_def ctx_err_def readingE_def spec_listing ns_ok)

text \<open>
  The cleanup of content never takes the content of a draft or of a document.
\<close>

lemma cleanup_keeps_content:
  assumes fin: "finite (dom (rs_contents st))" and wf: "rs_wf st" and drafts: "drafts_whole (pe_bld P) st" and docs: "published_whole P st"
    and others: "\<And>k s. requests P valid_doc (young P) s (b k) (others k s)"
    and room: "\<And>k. unat (rs_revision st) + sum b {..<k} < 2 ^ 64"
    and run: "CleanupOrphanedContent P spec_store others dryRun st = (st', r)"
  shows "drafts_whole (pe_bld P) st' \<and> published_whole P st'"
proof -
  let ?R = "unat (rs_revision st)" let ?t = "others 0 st" let ?u = "others 1 ?t"
  have i0: "cleanup_inv P b ?R 0 st" using fin wf drafts docs by (simp add: cleanup_inv_def)
  note t = others_keep[OF i0 others room] 
  note u = others_keep[OF t(1) others room, unfolded One_nat_def[symmetric]]
  have i2: "cleanup_inv P b ?R (2 * 0 + 2) ?u" using u(1) by (simp add: numeral_2_eq_2)
  show ?thesis
  proof (cases "be_ctx (pe_bld P)")
    case (Some e)
    then show ?thesis using run drafts docs
      by (auto simp: CleanupOrphanedContent_def listDrafts_def ListDraftsWithDamaged_def bindE_def checkE_def ctx_err_def)
  next
    case None
    note listed = listings_run[OF None]
    obtain ds unread where l1: "ListDraftsWithDamaged (pe_bld P) spec_store st = (st, Inr (ds, unread))" using listed(1) by blast
    obtain docs bad where l2: "listReadablePublished P spec_store ?t = (?t, Inr (docs, bad))" using listed(2) by blast
    note ds = list_drafts_law[OF l1] and dc = list_published_law[OF l2]
    let ?live = "live_keys ds docs bad"
    obtain v outs where loop: "each (cleanup_key P spec_store others dryRun ?live (map dd_ID unread)) 0 
        (sorted_list_of_set (keys_with_prefix NamespaceContent [] ?u)) ?u = (v, outs)" by fastforce
    have st': "st' = v" using run l1 l2 loop
      by (cases outs) (auto simp: CleanupOrphanedContent_def listDrafts_def bindE_def others_run_def readingE_def spec_listing ns_ok)
    have "drafts_safe (young P) (pe_bld P) ?live st" using live_drafts[OF fin] ds unfolding drafts_safe_def by metis
    then have "drafts_safe (young P) (pe_bld P) ?live ?u" using t(2) u(2) by (simp add: kept_def)
    moreover have "finite (dom (rs_contents ?t))" using t(1) by (simp add: cleanup_inv_def)
    then have "documents_safe (young P) P ?live ?t"
      using live_documents dc published_Some unfolding documents_safe_def by (metis option.distinct(1))
    then have "documents_safe (young P) P ?live ?u" using u(2) by (simp add: kept_def)
    ultimately have "all_safe P ?live ?u" by (simp add: all_safe_def)
    from cleanup_keys_keep[OF i2 this others room loop] show ?thesis by (auto simp: st' cleanup_inv_def)
  qed
qed

subsection \<open>The cleanup of content alone\<close>

text \<open>Which content is an orphan, said of the store and not of listings.\<close>

definition names_content :: "'x pub_env \<Rightarrow> rstore \<Rightarrow> string \<Rightarrow> bool" where
  "names_content P st key \<longleftrightarrow>
     (\<exists>i d. draft_at (pe_bld P) st i = Some d \<and> (\<exists>m \<in> set (dm_History d). key = snapshotKey i (sm_ID m)))
     \<or> (\<exists>i. rs_contents st (NamespacePublished, i) \<noteq> None \<and> key = publishedKey i)"

definition of_unreadable_draft :: "'x pub_env \<Rightarrow> rstore \<Rightarrow> string \<Rightarrow> bool" where
  "of_unreadable_draft P st key \<longleftrightarrow>
     (\<exists>i. contentDraftOf key = Some i \<and> i \<noteq> [] \<and> rs_contents st (NamespaceDrafts, i) \<noteq> None \<and> draft_at (pe_bld P) st i = None)"

definition orphan_content :: "'x pub_env \<Rightarrow> rstore \<Rightarrow> string set" where
  "orphan_content P st =
     {key. contentDraftOf key \<noteq> None \<and> \<not> names_content P st key \<and> \<not> of_unreadable_draft P st key
        \<and> (\<exists>rec. spec_get NamespaceContent key st = Inr rec \<and> OrphanGracePeriod \<le> be_now (pe_bld P) - record_time rec)}"

definition drop_contents :: "string set \<Rightarrow> rstore \<Rightarrow> rstore" where
  "drop_contents K st = st\<lparr>rs_contents := (\<lambda>(n, k). if n = NamespaceContent \<and> k \<in> K then None else rs_contents st (n, k))\<rparr>"

definition fate :: "'x pub_env \<Rightarrow> string list \<Rightarrow> string list \<Rightarrow> rstore \<Rightarrow> string \<Rightarrow> outcome" where
  "fate P live unreadable st key =
     (case contentDraftOf key of
        None \<Rightarrow> Failed (Corrupt ''content'' key ''key is not shaped like a content key'')
      | Some i \<Rightarrow>
          if key \<in> set live \<or> i \<noteq> [] \<and> i \<in> set unreadable then Kept
          else
            (case caused (spec_get NamespaceContent key st) of
               Inl (RecordNotExist _ _) \<Rightarrow> Kept
             | Inl e \<Rightarrow> Failed (BStore e)
             | Inr rec \<Rightarrow> if be_now (pe_bld P) - record_time rec < OrphanGracePeriod then Kept else Gone))"

lemma fate_Gone:
  "fate P live unreadable st key = Gone \<longleftrightarrow>
     (\<exists>i. contentDraftOf key = Some i \<and> key \<notin> set live \<and> \<not> (i \<noteq> [] \<and> i \<in> set unreadable))
     \<and> (\<exists>rec. spec_get NamespaceContent key st = Inr rec \<and> OrphanGracePeriod \<le> be_now (pe_bld P) - record_time rec)"
  by (cases "spec_get NamespaceContent key st"; cases "caused (spec_get NamespaceContent key st)")
    (auto simp: fate_def split: option.split rec_error.split)

lemma fate_dropped: "k \<noteq> key \<Longrightarrow> fate P live unreadable (drop_content key st) k = fate P live unreadable st k"
proof -
  assume "k \<noteq> key"
  then have eq: "spec_get NamespaceContent k (drop_content key st) = spec_get NamespaceContent k st"
    by (simp add: spec_get_def drop_content_def cong: option.case_cong)
  show ?thesis unfolding fate_def eq by (rule refl)
qed

lemma cleanup_key_alone:
  "cleanup_key P spec_store (\<lambda>_ s. s) dry live unreadable n key st =
     (if \<not> dry \<and> fate P live unreadable st key = Gone then drop_content key st else st, Inr (fate P live unreadable st key))"
proof (cases "spec_get NamespaceContent key st")
  case (Inl e)
  then show ?thesis
    by (auto simp: cleanup_key_def fate_def bindE_def others_run_def tryE_def readingE_def split: option.split rec_error.split)
next
  case (Inr rec)
  then obtain s where s: "rs_contents st (NamespaceContent, key) = Some s" "rec = record_of NamespaceContent key s"
      "validateRecordNamespaceAndKey NamespaceContent key = None"
    by (auto simp: spec_get_def split: option.splits)
  then have "spec_delete NamespaceContent key (r_revision rec) st = (drop_content key st, Inr ())"
    by (simp add: spec_delete_def checkRecordRevision_def record_of_def drop_content_def)
  then show ?thesis using Inr
    by (auto simp: cleanup_key_def fate_def bindE_def others_run_def tryE_def readingE_def callE_def rd_delete_spec split: option.split)
qed

lemma drop_contents_insert: "drop_contents K (drop_content key st) = drop_contents (insert key K) st"
  unfolding drop_content_def drop_contents_def by (rule rstore.equality) (auto intro!: ext)

lemma cleanup_keys_alone:
  "distinct keys \<Longrightarrow> each (cleanup_key P spec_store (\<lambda>_ s. s) dry live unreadable) n keys st =
     (if dry then st else drop_contents {k \<in> set keys. fate P live unreadable st k = Gone} st, Inr (map (fate P live unreadable st) keys))"
proof (induction keys arbitrary: n st)
  case Nil
  then show ?case by (simp add: drop_contents_def)
next
  case (Cons key keys)
  let ?f = "fate P live unreadable st"
  define t where "t = (if \<not> dry \<and> ?f key = Gone then drop_content key st else st)"
  have same: "fate P live unreadable t k = ?f k" if "k \<in> set keys" for k
    using that Cons.prems fate_dropped[of k key] by (auto simp: t_def)
  then have tail: "map (fate P live unreadable t) keys = map ?f keys"
      "{k \<in> set keys. fate P live unreadable t k = Gone} = {k \<in> set keys. ?f k = Gone}" by auto
  have st: "(if dry then t else drop_contents {k \<in> set keys. ?f k = Gone} t)
      = (if dry then st else drop_contents {k \<in> set (key # keys). ?f k = Gone} st)"
  proof (cases "?f key = Gone")
    case True
    then have "{k \<in> set (key # keys). ?f k = Gone} = insert key {k \<in> set keys. ?f k = Gone}" by auto
    then show ?thesis using True by (cases dry) (simp_all only: t_def drop_contents_insert simp_thms if_True if_False)
  next
    case False
    then have "{k \<in> set (key # keys). ?f k = Gone} = {k \<in> set keys. ?f k = Gone}" by auto
    then show ?thesis using False by (simp only: t_def simp_thms if_False)
  qed
  have one: "cleanup_key P spec_store (\<lambda>_ s. s) dry live unreadable n key st = (t, Inr (?f key))"
    unfolding t_def by (rule cleanup_key_alone)
  have "distinct keys" using Cons.prems by simp
  from Cons.IH[OF this, of "Suc n" t, unfolded tail st] one show ?case
    by (simp only: each.simps bindE_def prod.case sum.case retE_def list.map)
qed

lemma tally_gone: "fst (tally outs) = length (filter (\<lambda>out. out = Gone) outs)"
  by (induction outs) (auto split: prod.split outcome.split)

text \<open>What the listings hold, when nothing runs in between.\<close>

lemma live_set:
  assumes "finite (dom (rs_contents st))" and "map fst bad = filter (\<lambda>k. published_at P st k = None) (document_keys st)"
  shows "key \<in> set (live_keys (List.map_filter (draft_at (pe_bld P) st) (draft_keys st))
      (List.map_filter (published_at P st) (document_keys st)) bad) \<longleftrightarrow> names_content P st key" (is "key \<in> set ?live \<longleftrightarrow> _")
proof
  assume "names_content P st key"
  then show "key \<in> set ?live" using live_drafts[OF assms(1)] live_documents[OF assms(1) _ assms(2)] by (auto simp: names_content_def)
next
  assume "key \<in> set ?live"
  then consider d m where "d \<in> set (List.map_filter (draft_at (pe_bld P) st) (draft_keys st))" "m \<in> set (dm_History d)" "key = snapshotKey (dm_ID d) (sm_ID m)"
    | p where "p \<in> set (List.map_filter (published_at P st) (document_keys st))" "key = publishedKey (pd_ID p)"
    | i e where "(i, e) \<in> set bad" "key = publishedKey i"
    by (auto simp: live_keys_def)
  then show "names_content P st key"
  proof cases
    case 1
    then obtain i where "draft_at (pe_bld P) st i = Some d" by (auto simp: map_filter_set)
    then show ?thesis using 1 draft_id by (fastforce simp: names_content_def)
  next
    case 2
    then obtain i where "published_at P st i = Some p" by (auto simp: map_filter_set)
    then show ?thesis using 2 published_Some by (fastforce simp: names_content_def)
  next
    case 3
    then have "i \<in> set (map fst bad)" by force
    then show ?thesis using 3 keys_present(2) unfolding assms(2) by (auto simp: names_content_def)
  qed
qed

lemma CleanupOrphanedContent_alone:
  assumes "finite (dom (rs_contents st))" and "be_ctx (pe_bld P) = None"
  shows "\<exists>failures. \<forall>dryRun. CleanupOrphanedContent P spec_store (\<lambda>_ s. s) dryRun st =
    (if dryRun then st else drop_contents (orphan_content P st) st, Inr (card (orphan_content P st), failures))"
proof -
  note listed = listings_run[OF assms(2)]
  obtain ds unread where l1: "ListDraftsWithDamaged (pe_bld P) spec_store st = (st, Inr (ds, unread))" using listed(1) by blast
  obtain docs bad where l2: "listReadablePublished P spec_store st = (st, Inr (docs, bad))" using listed(2) by blast
  note ds = list_drafts_law[OF l1] and dc = list_published_law[OF l2]
  let ?keys = "sorted_list_of_set (keys_with_prefix NamespaceContent [] st)"
  let ?f = "fate P (live_keys ds docs bad) (map dd_ID unread) st"
  have "i \<in> set (map dd_ID unread) \<longleftrightarrow> rs_contents st (NamespaceDrafts, i) \<noteq> None \<and> draft_at (pe_bld P) st i = None" for i
    using ds listed_keys[OF assms(1), of NamespaceDrafts] by (auto simp: draft_keys_def)
  then have gone: "?f key = Gone \<longleftrightarrow> key \<in> orphan_content P st" for key
    using live_set[of st bad P key] assms(1) dc ds unfolding fate_Gone orphan_content_def of_unreadable_draft_def by auto
  have "key \<in> set ?keys" if "key \<in> orphan_content P st" for key
    using that listed_keys[OF assms(1), of NamespaceContent] by (auto simp: orphan_content_def spec_get_def split: option.splits)
  then have orphans: "{k \<in> set ?keys. ?f k = Gone} = orphan_content P st" using gone by auto
  have "fst (tally (map ?f ?keys)) = length (filter (\<lambda>k. ?f k = Gone) ?keys)" by (simp add: tally_gone filter_map comp_def)
  also have "\<dots> = card (orphan_content P st)" unfolding orphans[symmetric]
    by (subst distinct_card[symmetric]) auto
  finally have n: "fst (tally (map ?f ?keys)) = card (orphan_content P st)" .
  have "CleanupOrphanedContent P spec_store (\<lambda>_ s. s) dryRun st =
    (if dryRun then st else drop_contents (orphan_content P st) st, Inr (card (orphan_content P st), snd (tally (map ?f ?keys))))" for dryRun
    using l1 l2 n[symmetric] cleanup_keys_alone[of ?keys P dryRun "live_keys ds docs bad" "map dd_ID unread" 0 st] orphans
    by (simp add: CleanupOrphanedContent_def listDrafts_def bindE_def others_run_def readingE_def spec_listing ns_ok)
  then show ?thesis by blast
qed

subsection \<open>The cleanups of documents alone\<close>

definition drop_documents :: "string set \<Rightarrow> rstore \<Rightarrow> rstore" where
  "drop_documents K st =
     st\<lparr>rs_contents := (\<lambda>(n, k).
       if n = NamespacePublished \<and> k \<in> K \<or> n = NamespaceContent \<and> (\<exists>i \<in> K. k = publishedKey i) then None else rs_contents st (n, k))\<rparr>"

definition documents_where :: "'x pub_env \<Rightarrow> rstore \<Rightarrow> (PublishedDocument \<Rightarrow> bool) \<Rightarrow> string set" where
  "documents_where P st remove = {i. \<exists>d. published_at P st i = Some d \<and> remove d}"

lemma drop_documents_insert: "drop_documents K (drop_document i st) = drop_documents (insert i K) st"
  unfolding drop_document_def drop_documents_def by (rule rstore.equality) (auto intro!: ext)

lemma deleteListed_alone:
  assumes "published_at P st (pd_ID d) = Some d"
  shows "deleteListed spec_store d st = (drop_document (pd_ID d) st, Inr Gone)"
proof -
  obtain s where s: "rs_contents st (NamespacePublished, pd_ID d) = Some s" "s_revision s = pd_Revision d" and i: "ValidID (pd_ID d)"
    using published_Some[OF assms] by blast
  note keys = published_id_ok[OF i] published_key_ok[OF i]
  have "deletePublished spec_store (pd_ID d) (pd_Revision d) st = (drop_document (pd_ID d) st, Inr ())"
    using keys s
    by (cases "rs_contents st (NamespaceContent, publishedKey (pd_ID d))")
      (auto simp: deletePublished_def pub_txn_def spec_txn callE_def spec_delete_def dropContent_def drop_document_def checkRecordRevision_def
        fun_upd_idem)
  then show ?thesis by (simp add: deleteListed_def tryE_def)
qed

lemma delete_loop_alone:
  assumes "distinct (map pd_ID docs)" and "\<forall>d \<in> set docs. published_at P st (pd_ID d) = Some d"
  shows "each (\<lambda>n doc. if remove doc then bindE (others_run (\<lambda>_ s. s) n) (\<lambda>_. deleteListed spec_store doc) else retE Kept) n docs st
    = (drop_documents (pd_ID ` set (filter remove docs)) st, Inr (map (\<lambda>d. if remove d then Gone else Kept) docs))"
  using assms
proof (induction docs arbitrary: n st)
  case Nil
  then show ?case by (simp add: drop_documents_def)
next
  case (Cons d docs)
  have tail: "distinct (map pd_ID docs)" "\<forall>e \<in> set docs. published_at P st (pd_ID e) = Some e" using Cons.prems by simp_all
  show ?case
  proof (cases "remove d")
    case False
    then show ?thesis using Cons.IH[OF tail] by (simp add: bindE_def)
  next
    case True
    have "published_at P (drop_document (pd_ID d) st) (pd_ID e) = Some e" if "e \<in> set docs" for e
    proof -
      have "pd_ID e \<noteq> pd_ID d" using Cons.prems(1) that by (metis distinct.simps(2) image_eqI list.set_map list.simps(9))
      then show ?thesis using only_published_at[OF drop_only_published] tail(2) that by metis
    qed
    then show ?thesis using Cons.IH[OF tail(1)] deleteListed_alone[of P st d] Cons.prems(2) True
      by (simp add: bindE_def others_run_def drop_documents_insert)
  qed
qed

lemma tally_documents: "tally (map (\<lambda>d. if remove d then Gone else Kept) docs) = (length (filter remove docs), [])"
  by (induction docs) auto

lemma listed_documents:
  fixes P :: "'x pub_env"
  assumes "finite (dom (rs_contents st))"
  defines "docs \<equiv> List.map_filter (published_at P st) (document_keys st)"
  shows "distinct (map pd_ID docs)" and "\<forall>d \<in> set docs. published_at P st (pd_ID d) = Some d"
    and "pd_ID ` set (filter remove docs) = documents_where P st remove"
    and "length (filter remove docs) = card (documents_where P st remove)"
proof -
  have ids: "map pd_ID (List.map_filter (published_at P st) ks) = filter (\<lambda>k. published_at P st k \<noteq> None) ks" for ks
    by (induction ks) (auto simp: List.map_filter_def dest: published_Some)
  then show dist: "distinct (map pd_ID docs)" by (simp add: docs_def document_keys_def)
  show "\<forall>d \<in> set docs. published_at P st (pd_ID d) = Some d" using published_Some by (fastforce simp: docs_def map_filter_set)
  have "i \<in> set (document_keys st)" if "published_at P st i = Some d" for i d
    using that listed_keys[OF assms(1), of NamespacePublished] published_Some[OF that] by (auto simp: document_keys_def)
  then show set: "pd_ID ` set (filter remove docs) = documents_where P st remove"
    using published_Some by (fastforce simp: docs_def map_filter_set documents_where_def)
  have "distinct (map pd_ID (filter remove docs))" using dist by (rule distinct_map_filter)
  then show "length (filter remove docs) = card (documents_where P st remove)"
    using distinct_card[of "map pd_ID (filter remove docs)"] set by simp
qed

lemma deleteDocuments_alone:
  assumes "finite (dom (rs_contents st))"
  shows "deleteDocuments spec_store (\<lambda>_ s. s) remove (List.map_filter (published_at P st) (document_keys st)) st
    = (drop_documents (documents_where P st remove) st, Inr (card (documents_where P st remove), []))"
proof -
  let ?docs = "List.map_filter (published_at P st) (document_keys st)"
  have "each (\<lambda>n doc. if remove doc then bindE (others_run (\<lambda>_ s. s) n) (\<lambda>_. deleteListed spec_store doc) else retE Kept) 0 ?docs st
      = (drop_documents (documents_where P st remove) st, Inr (map (\<lambda>d. if remove d then Gone else Kept) ?docs))"
    unfolding listed_documents(3)[OF assms, symmetric]
    by (rule delete_loop_alone[where P = P]) (rule listed_documents(1,2)[OF assms])+
  then show ?thesis
    by (simp only: deleteDocuments_def bindE_def prod.case sum.case tally_documents listed_documents(4)[OF assms] retE_def)
qed

lemma deleteDocumentsWhere_alone:
  assumes "finite (dom (rs_contents st))" and "be_ctx (pe_bld P) = None"
  shows "deleteDocumentsWhere P spec_store (\<lambda>_ s. s) remove st
    = (drop_documents (documents_where P st remove) st, Inr (card (documents_where P st remove), []))"
proof -
  obtain docs bad where l: "listReadablePublished P spec_store st = (st, Inr (docs, bad))" using listings_run(2)[OF assms(2)] by blast
  then show ?thesis using list_published_law[OF l] deleteDocuments_alone[OF assms(1)]
    by (simp add: deleteDocumentsWhere_def ListPublishedDocuments_def bindE_def)
qed

lemma CleanupOrphanedDocuments_alone:
  assumes "finite (dom (rs_contents st))" and "be_ctx (pe_bld P) = None"
  shows "\<exists>failures. \<forall>dryRun. CleanupOrphanedDocuments P spec_store (\<lambda>_ s. s) referenced dryRun st =
    (if dryRun then st else drop_documents (documents_where P st (orphan P referenced)) st,
     Inr (card (documents_where P st (orphan P referenced)), failures))"
proof -
  obtain docs bad where l: "listReadablePublished P spec_store st = (st, Inr (docs, bad))" using listings_run(2)[OF assms(2)] by blast
  note docs = list_published_law[OF l]
  have "CleanupOrphanedDocuments P spec_store (\<lambda>_ s. s) referenced dryRun st =
    (if dryRun then st else drop_documents (documents_where P st (orphan P referenced)) st,
     Inr (card (documents_where P st (orphan P referenced)), map snd bad))" for dryRun
  proof (cases dryRun)
    case True
    then show ?thesis using l docs listed_documents(4)[OF assms(1), where P = P and remove = "orphan P referenced"]
      by (simp add: CleanupOrphanedDocuments_def bindE_def)
  next
    case False
    then show ?thesis using l docs deleteDocuments_alone[OF assms(1), where P = P and remove = "orphan P referenced"]
      by (simp add: CleanupOrphanedDocuments_def bindE_def)
  qed
  then show ?thesis by blast
qed

text \<open>A document that was published again since a cleanup listed it is not removed.\<close>

lemma republished_kept:
  assumes wf: "rs_wf st" and listed: "published_at P st (pd_ID d) = Some d"
    and w: "wrote Y n st st'" and room: "unat (rs_revision st) + n < 2 ^ 64"
    and new: "rs_contents st' (NamespacePublished, pd_ID d) \<noteq> rs_contents st (NamespacePublished, pd_ID d)"
  shows "deleteListed spec_store d st' = (st', Inr Kept)"
proof -
  obtain s where s: "rs_contents st (NamespacePublished, pd_ID d) = Some s" "s_revision s = pd_Revision d" and i: "ValidID (pd_ID d)"
    using published_Some[OF listed] by blast
  have rev: "0 < pd_Revision d" "pd_Revision d \<le> rs_revision st" using wf s unfolding rs_wf_def by (metis ranI)+
  have "pd_Revision d \<noteq> s_revision s'" if "rs_contents st' (NamespacePublished, pd_ID d) = Some s'" for s'
    using wrote_revision(3)[OF w room that] rev(2) new that by auto
  then show ?thesis using published_id_ok[OF i] rev(1)
    by (cases "rs_contents st' (NamespacePublished, pd_ID d)")
      (auto simp: deleteListed_def tryE_def deletePublished_def pub_txn_def spec_txn callE_def spec_delete_def checkRecordRevision_def
        AnyRevision_def storeError_def txnError_def)
qed

end
