(* ===== verification/Builder_Content.thy ===== *)
theory Builder_Content
  imports Builder_Drafts Builder_Orphans
begin

section \<open>What the Builder service promises of published documents and of cleaning up\<close>

text \<open>
  The properties of published documents and of the cleanups, on the abstract store. \<open>demo_pub\<close> is an
  environment at a given time in which the laws of \<open>pub_env\<close> hold, and \<open>demo_old\<close> a store with a draft and
  with content of a draft that is gone.
\<close>

subsection \<open>A concrete environment\<close>

definition demo_at_time :: "time \<Rightarrow> int64 \<Rightarrow> unit bld_env" where
  "demo_at_time t w = demo\<lparr>be_now := t, be_written := w\<rparr>"

definition demo_published :: PublishedDocument where
  "demo_published =
     \<lparr>pd_ID = PublishedDocumentID demo ''t'' (digestOf demo [65]), pd_Digest = digestOf demo [65], pd_Size = 1, pd_CompressedSize = 2,
      pd_Target = ''t'', pd_Kind = ''topology'', pd_DraftID = [], pd_SnapshotID = [], pd_CreatedAt = 7, pd_CreatedBy = ''u'',
      pd_Schema = SchemaURI, pd_Revision = 0, pd_published = zero_time\<rparr>"

definition demo_pub :: "time \<Rightarrow> int64 \<Rightarrow> unit pub_env" where
  "demo_pub t w =
     \<lparr>pe_bld = demo_at_time t w,
      pe_enc = (\<lambda>d. if d\<lparr>pd_Revision := 0, pd_published := zero_time\<rparr> = demo_published then Inr [1] else Inl ''unknown document''),
      pe_dec = (\<lambda>v. if v = [1] then Inr demo_published else Inl ''unknown document''),
      pe_schema = (\<lambda>_. SchemaURI), pe_fields = (\<lambda>_. None), pe_ref_enc = (\<lambda>_. Inl []), pe_ref_dec = (\<lambda>_. Inl []),
      pe_case = \<lparr>u_lower = (\<lambda>s. s), u_fold = (\<lambda>r. r)\<rparr>, pe_kinds = []\<rparr>"

lemma demo_time_laws: "builder_env (demo_at_time t w) demo_valid"
proof -
  have "builder_env (E\<lparr>be_now := t, be_written := w\<rparr>) V" if "builder_env E V" "be_format E t = be_format E (be_now E)"
    for E :: "unit bld_env" and V using that by (simp add: builder_env_def)
  from this[OF demo.builder_env_axioms] show ?thesis by (simp add: demo_at_time_def)
qed

lemma demo_pub_sel [simp]:
  "pe_bld (demo_pub t w) = demo_at_time t w" "pe_dec (demo_pub t w) v = (if v = [1] then Inr demo_published else Inl ''unknown document'')"
  "pe_enc (demo_pub t w) d = (if d\<lparr>pd_Revision := 0, pd_published := zero_time\<rparr> = demo_published then Inr [1] else Inl ''unknown document'')"
  "pe_schema (demo_pub t w) doc = SchemaURI"
  by (simp_all add: demo_pub_def)

lemma demo_time_sel [simp]:
  "be_ctx (demo_at_time t w) = None" "be_now (demo_at_time t w) = t" "be_written (demo_at_time t w) = w"
  "be_parse (demo_at_time t w) = be_parse demo" "be_encode (demo_at_time t w) = be_encode demo"
  "be_sha256 (demo_at_time t w) = be_sha256 demo" "be_gzip (demo_at_time t w) = be_gzip demo"
  "be_inflate (demo_at_time t w) = be_inflate demo" "be_meta_dec (demo_at_time t w) = be_meta_dec demo"
  by (simp_all add: demo_at_time_def demo_env_def)

interpretation published: pub_env "demo_pub t w" demo_valid
proof (rule pub_env.intro)
  show "builder_env (pe_bld (demo_pub t w)) demo_valid" by (simp add: demo_time_laws)
  show "pub_env_axioms (demo_pub t w)" by (rule pub_env_axioms.intro) (auto split: if_splits)
qed

lemma demo_same: "same_codec demo (demo_at_time t w)" "same_codec (demo_at_time t w) (demo_at_time u x)" "same_pub (demo_pub t w) (demo_pub u x)"
  by (simp_all add: same_codec_def same_pub_def fun_eq_iff)

definition demo_put :: PutPublishedDocumentRequest where
  "demo_put = \<lparr>pp_Target = ''t'', pp_Kind = ''topology'', pp_Actor = ''u'', pp_Document = [65], pp_DraftID = [], pp_SnapshotID = []\<rparr>"

lemma demo_digest_time: "digestOf (demo_at_time t w) = digestOf demo" "PublishedDocumentID (demo_at_time t w) = PublishedDocumentID demo"
  by (simp_all add: digestOf_def PublishedDocumentID_def fun_eq_iff)

lemma char_A: "char_of (65 :: nat) = CHR ''A''"
proof -
  have "(65 :: nat) = of_char (CHR ''A'')" by simp
  then show ?thesis by (simp only: char_of_char)
qed

abbreviation demo_load :: payload where
  "demo_load \<equiv> \<lparr>pl_digest = digestOf demo [65], pl_size = 1, pl_compressed = [1, 65]\<rparr>"

lemma demo_id: "ValidID (pd_ID demo_published)"
  using published.document_id[of 7 9] by (simp add: demo_published_def demo_digest_time)

lemma demo_put_steps:
  "PutPublishedDocument (demo_pub 7 w) spec_store demo_put st
     = pub_txn spec_store (pd_ID demo_published) AnyRevision (putPublished (demo_pub 7 w) spec_ops demo_published [1] demo_load) st"
proof -
  let ?P = "demo_pub 7 w" and ?E = "demo_at_time 7 w"
  have small: "valid_utf8 ''t''" "runes ''t'' = [116]" "runes ''topology'' = [116, 111, 112, 111, 108, 111, 103, 121]"
    by (simp_all add: valid_utf8_def runes_def rune_error_def)
  have "validateText ''target'' ''t'' MaxTargetLength True = None" "validateText ''kind'' ''topology'' MaxKindLength True = None"
      "validateText ''actor'' ''u'' MaxOwnerLength True = None"
    by (simp_all add: validateText_None text_ok_def small ascii_small demo_limits MaxKindLength_def)
  then have req: "validatePutRequest demo_put = None" by (simp add: validatePutRequest_def demo_put_def validateOptionalID_def)
  have doc: "canonicalDocument ?E [65] = Inr ([65], demo_doc ''A'')"
    by (simp add: canonicalDocument_def parseDocument_def encodeDocument_def demo_limits char_A demo_doc_def)
  have load: "buildPayload ?E [65] = Inr demo_load" by (simp add: buildPayload_def demo_limits demo_digest_time)
  have d: "new_document ?P demo_put demo_load (demo_doc ''A'') = demo_published"
    by (simp add: new_document_def demo_put_def demo_published_def demo_digest_time AnyRevision_def)
  have enc: "encodePublished ?P demo_published = Inr [1]" by (simp add: encodePublished_def demo_published_def demo_limits)
  have "pp_Document demo_put = [65]" by (simp add: demo_put_def)
  then show ?thesis using req doc load enc d by (simp add: PutPublishedDocument_def ctx_err_def bindE_def checkE_def readE_def Let_def)
qed

lemma demo_put_run:
  "\<exists>st'. PutPublishedDocument (demo_pub 7 w) spec_store demo_put demo_store
     = (st', Inr (demo_published\<lparr>pd_Revision := 4, pd_published := sint w\<rparr>))"
proof -
  obtain c where "putContent spec_ops w (publishedKey (pd_ID demo_published)) demo_load demo_store
      = (spec_write NamespaceContent (publishedKey (pd_ID demo_published)) c demo_store, Inr ())" and "s_revision c = 3"
    using putContent_record[OF published_key_ok[OF demo_id], of w _ demo_store] by (auto simp: demo_store_def)
  then show ?thesis
    using published_id_ok[OF demo_id] unfolding demo_put_steps
    by (simp add: putPublished_def callE_def spec_get_def spec_create_def Let_def bindE_def spec_write_def stored_as_def record_time_def
        record_of_def demo_store_def pub_txn_def spec_txn)
qed

lemma demo_put_again:
  assumes "published_at (demo_pub 7 w) st (pd_ID demo_published) = Some d" and "verified (demo_pub 7 w) st d = Inr data"
  shows "\<exists>st' r. PutPublishedDocument (demo_pub 7 w) spec_store demo_put st = (st', Inr r)"
proof -
  obtain s where s: "rs_contents st (NamespacePublished, pd_ID demo_published) = Some s"
      "decodePublished (demo_pub 7 w) (record_of NamespacePublished (pd_ID demo_published) s) = Inr d"
    using assms(1) by (auto simp: published_at_def split: option.splits sum.splits)
  have "tryE (readPayload_tx (pe_bld (demo_pub 7 w)) spec_ops kindPublished (pd_ID d) (publishedKey (pd_ID d)) (manifest_of d)) k st
      = k (Inr data) st" for k :: "bld_err + bytes \<Rightarrow> (rstore, PublishedDocument) bld_action"
    using readPayload_tx_law[OF assms(1)] assms(2) by (simp add: tryE_def)
  then show ?thesis
    using s published_id_ok[OF demo_id] unfolding demo_put_steps
    by (simp add: putPublished_def callE_def spec_get_def Let_def bindE_def pub_txn_def spec_txn spec_update_def checkRecordRevision_def
        record_of_def)
qed

subsection \<open>Publishing\<close>

text \<open>
  C7: a published document is read back: after it is stored, the identifier returned is the one of its
  target and content and reads the metadata returned and a document of the digest it names: the
  canonical form of the document that was sent, or the intact document that was stored under the same
  identifier before. Nothing else changes.
\<close>

theorem publish_read_back:
  assumes "pub_env P valid_doc" and "published_whole P st" and "PutPublishedDocument P spec_store req st = (st', Inr r)"
  shows "\<exists>doc canonical data. be_parse (pe_bld P) (pp_Document req) = Inr doc \<and> be_encode (pe_bld P) doc = Inr canonical
    \<and> pd_ID r = PublishedDocumentID (pe_bld P) (pp_Target req) (digestOf (pe_bld P) canonical)
    \<and> GetPublishedDocumentData P spec_store (pd_ID r) st' = (st', Inr (r, data)) \<and> digestOf (pe_bld P) data = pd_Digest r
    \<and> (data = canonical \<or> (\<exists>old. GetPublishedDocumentData P spec_store (pd_ID r) st = (st, Inr (old, data))))
    \<and> pd_published r = sint (be_written (pe_bld P))
    \<and> (\<forall>n k. rs_contents st' (n, k) \<noteq> rs_contents st (n, k) \<longrightarrow> (n, k) \<in> {(NamespacePublished, pd_ID r), (NamespaceContent, publishedKey (pd_ID r))})"
proof -
  obtain canonical parsed data where law: "canonicalDocument (pe_bld P) (pp_Document req) = Inr (canonical, parsed)" "be_ctx (pe_bld P) = None"
      "pd_ID r = PublishedDocumentID (pe_bld P) (pp_Target req) (digestOf (pe_bld P) canonical)" "only_published (pd_ID r) st st'"
      "published_at P st' (pd_ID r) = Some r" "verified P st' r = Inr data" "pd_published r = sint (be_written (pe_bld P))"
    and alt: "(\<exists>old. published_at P st (pd_ID r) = Some old \<and> verified P st old = Inr data) \<or> data = canonical"
    using pub_env.Put_law[OF assms(1,3)] by blast
  obtain data' where "published_data P st' r = Some data'" using pub_env.Put_whole(2)[OF assms] by blast
  then have data: "published_data P st' r = Some data" using law(6) by (auto simp: published_data_def split: sum.splits)
  have "\<exists>old. GetPublishedDocumentData P spec_store (pd_ID r) st = (st, Inr (old, data))"
    if old: "published_at P st (pd_ID r) = Some old" "verified P st old = Inr data" for old
  proof -
    have "published_data P st old = Some data"
      using assms(2) old by (fastforce simp: published_whole_def published_data_def split: sum.splits)
    then show ?thesis using read_published[OF law(2) old(1)] by blast
  qed
  then have "data = canonical \<or> (\<exists>old. GetPublishedDocumentData P spec_store (pd_ID r) st = (st, Inr (old, data)))" using alt by blast
  then show ?thesis
    using canonicalDocument_Inr[OF law(1)] law(3,7) read_published[OF law(2,5) data] verified_digest[OF law(6)] law(4)
    by (intro exI[of _ parsed] exI[of _ canonical] exI[of _ data]) (auto simp: only_published_def)
qed

lemma demo_no_published: "published_whole (demo_pub t w) demo_store"
  by (simp add: published_whole_def published_at_def demo_store_def)

theorem publish_read_back_witness:
  "\<exists>st'. PutPublishedDocument (demo_pub 7 9) spec_store demo_put demo_store = (st', Inr (demo_published\<lparr>pd_Revision := 4, pd_published := 9\<rparr>))
    \<and> (\<exists>data. GetPublishedDocumentData (demo_pub 7 9) spec_store (pd_ID demo_published) st'
        = (st', Inr (demo_published\<lparr>pd_Revision := 4, pd_published := 9\<rparr>, data)))"
proof -
  obtain st' where run: "PutPublishedDocument (demo_pub 7 9) spec_store demo_put demo_store = (st', Inr (demo_published\<lparr>pd_Revision := 4, pd_published := 9\<rparr>))"
    using demo_put_run[of 9] by auto
  from publish_read_back[OF published.pub_env_axioms demo_no_published run] show ?thesis using run by auto
qed

lemma same_identifier:
  assumes "pub_env P valid_doc" and "pub_env Q valid_doc" and "same_pub P Q" and "be_encode (pe_bld P) = be_encode (pe_bld Q)"
    and "PutPublishedDocument P spec_store req st = (st1, Inr r1)" and "PutPublishedDocument Q spec_store req2 st2 = (st3, Inr r2)"
    and "pp_Target req2 = pp_Target req" and "pp_Document req2 = pp_Document req"
  shows "pd_ID r2 = pd_ID r1"
proof -
  obtain c1 p1 where one: "canonicalDocument (pe_bld P) (pp_Document req) = Inr (c1, p1)"
      "pd_ID r1 = PublishedDocumentID (pe_bld P) (pp_Target req) (digestOf (pe_bld P) c1)"
    using pub_env.Put_law[OF assms(1,5)] by blast
  obtain c2 p2 where two: "canonicalDocument (pe_bld Q) (pp_Document req2) = Inr (c2, p2)"
      "pd_ID r2 = PublishedDocumentID (pe_bld Q) (pp_Target req2) (digestOf (pe_bld Q) c2)"
    using pub_env.Put_law[OF assms(2,6)] by blast
  have codec: "be_parse (pe_bld P) = be_parse (pe_bld Q)" "be_sha256 (pe_bld P) = be_sha256 (pe_bld Q)"
    using assms(3) by (simp_all add: same_pub_def same_codec_def)
  have "c1 = c2" using canonicalDocument_Inr[OF one(1)] canonicalDocument_Inr[OF two(1)] codec assms(4,8) by simp
  then show ?thesis using one(2) two(2) codec assms(7) by (simp add: PublishedDocumentID_def digestOf_def)
qed

text \<open>
  Publishing the same document to the same target again, at any later time and by anyone, only
  touches it: the metadata keep everything but their revision and the time, which starts the grace
  period again, and no content is written.
\<close>

theorem publish_touches:
  assumes "pub_env P valid_doc" and "pub_env Q valid_doc" and "same_pub P Q" and "be_encode (pe_bld P) = be_encode (pe_bld Q)"
    and "PutPublishedDocument P spec_store req st = (st1, Inr r1)" and "PutPublishedDocument Q spec_store req2 st1 = (st2, Inr r2)"
    and "pp_Target req2 = pp_Target req" and "pp_Document req2 = pp_Document req"
  shows "r2 = r1\<lparr>pd_Revision := rs_revision st1 + 1, pd_published := sint (be_written (pe_bld Q))\<rparr>
    \<and> (\<forall>x. x \<noteq> (NamespacePublished, pd_ID r1) \<longrightarrow> rs_contents st2 x = rs_contents st1 x)
    \<and> published_at Q st2 (pd_ID r1) = Some r2"
proof -
  obtain data where one: "published_at P st1 (pd_ID r1) = Some r1" "verified P st1 r1 = Inr data"
    using pub_env.Put_law[OF assms(1,5)] by blast
  have two: "published_at Q st2 (pd_ID r2) = Some r2"
    and alt: "(\<exists>old. published_at Q st1 (pd_ID r2) = Some old \<and> touched (be_written (pe_bld Q)) st1 old st2 r2)
      \<or> (\<forall>old. published_at Q st1 (pd_ID r2) = Some old \<longrightarrow> (\<exists>e. verified Q st1 old = Inl e))"
    using pub_env.Put_law[OF assms(2,6)] by blast+
  note id = same_identifier[OF assms]
  have at: "published_at Q st1 (pd_ID r1) = Some r1" "verified Q st1 r1 = Inr data" using one same_pub_reads[OF assms(3)] by simp_all
  then have "touched (be_written (pe_bld Q)) st1 r1 st2 r2" using alt id by auto
  then show ?thesis using two id by (auto simp: touched_def spec_write_def)
qed

theorem publish_touches_witness:
  "\<exists>st1 r1 st2 r2. PutPublishedDocument (demo_pub 7 9) spec_store demo_put demo_store = (st1, Inr r1)
    \<and> PutPublishedDocument (demo_pub 7 10) spec_store demo_put st1 = (st2, Inr r2)
    \<and> pd_published r1 = 9 \<and> pd_published r2 = 10 \<and> pd_Digest r2 = pd_Digest r1"
proof -
  obtain st1 r1 where run: "PutPublishedDocument (demo_pub 7 9) spec_store demo_put demo_store = (st1, Inr r1)"
    and r1: "r1 = demo_published\<lparr>pd_Revision := 4, pd_published := 9\<rparr>" using demo_put_run[of 9] by auto
  obtain data where "published_at (demo_pub 7 9) st1 (pd_ID r1) = Some r1" "verified (demo_pub 7 9) st1 r1 = Inr data"
    using published.Put_law[OF run] by blast
  then have "published_at (demo_pub 7 10) st1 (pd_ID demo_published) = Some r1" "verified (demo_pub 7 10) st1 r1 = Inr data"
    using same_pub_reads[OF demo_same(3)[of 7 9 7 10]] r1 by simp_all
  then obtain st2 r2 where again: "PutPublishedDocument (demo_pub 7 10) spec_store demo_put st1 = (st2, Inr r2)"
    using demo_put_again by blast
  have "r2 = r1\<lparr>pd_Revision := rs_revision st1 + 1, pd_published := sint (be_written (pe_bld (demo_pub 7 10)))\<rparr>"
    using publish_touches[OF published.pub_env_axioms published.pub_env_axioms demo_same(3) _ run again] by simp
  then show ?thesis using run again r1 by (intro exI[of _ st1] exI[of _ r1] exI[of _ st2] exI[of _ r2]) simp
qed

subsection \<open>Cleaning up\<close>

text \<open>A store with content of a draft that is gone, an hour old for a cleanup at \<open>demo_late\<close>.\<close>

definition demo_old :: rstore where
  "demo_old =
     \<lparr>rs_contents = (rs_contents demo_store)((NamespaceContent, ''drafts/y/a'') \<mapsto> \<lparr>s_value = [1, 65], s_revision = 3, s_created = 9, s_updated = 9\<rparr>),
      rs_revision = 3\<rparr>"

definition demo_late :: time where "demo_late = OrphanGracePeriod + 9"

lemma demo_old_reads:
  "draft_at (demo_at_time t w) demo_old i = (if i = ''x'' then Some ((demo_draft [demo_manifest ''a'' [65]] 0 ''A'')\<lparr>dm_Revision := 2\<rparr>) else None)"
  "rs_contents demo_old (NamespacePublished, i) = None" "finite (dom (rs_contents demo_old))" "rs_wf demo_old"
  "drafts_whole (demo_at_time t w) demo_old" "published_whole (demo_pub t w) demo_old"
proof -
  have at: "draft_at demo demo_old i = draft_at demo demo_store i" for i by (simp add: draft_at_def demo_old_def)
  then show d: "draft_at (demo_at_time t w) demo_old i
      = (if i = ''x'' then Some ((demo_draft [demo_manifest ''a'' [65]] 0 ''A'')\<lparr>dm_Revision := 2\<rparr>) else None)" for i
    using demo_at same_codec_reads(1)[OF demo_same(1)] by metis
  show none: "rs_contents demo_old (NamespacePublished, i) = None" for i by (simp add: demo_old_def demo_store_def)
  show "finite (dom (rs_contents demo_old))" by (simp add: demo_old_def demo_store_def)
  show "rs_wf demo_old" by (auto simp: rs_wf_def demo_old_def demo_store_def ran_def split: if_splits)
  have "document_at demo demo_old ''x'' m = document_at demo demo_store ''x'' m" if "sm_ID m = ''a''" for m
    using that by (intro document_same) (simp add: content_at_def demo_old_def demo_keys)
  moreover have "document_at demo demo_store i m \<noteq> None" if "draft_at demo demo_store i = Some d" "m \<in> set (dm_History d)" for i d m
    using demo_whole that unfolding drafts_whole_def by blast
  ultimately have "drafts_whole demo demo_old"
    unfolding drafts_whole_def at by (auto simp: demo_at demo_draft_def demo_manifest_def)
  then show "drafts_whole (demo_at_time t w) demo_old" using same_codec_reads(3)[OF demo_same(1)] by metis
  show "published_whole (demo_pub t w) demo_old" by (simp add: published_whole_def published_at_def none)
qed

text \<open>
  C3: the cleanup of content never takes the content of a draft or of a published document: whatever
  calls on drafts, publications and removals of documents run between its steps, afterwards every
  snapshot in the history of every draft and every published document can still be read. The calls may
  have clocks and identifiers of their own. What they write is dated within the grace period before
  the time of the cleanup, and they write less than the revision counter holds.
\<close>

theorem content_cleanup_safe:
  assumes "finite (dom (rs_contents st))" and "rs_wf st" and "drafts_whole (pe_bld P) st" and "published_whole P st"
    and "\<And>k s. requests P valid_doc (young P) s (b k) (others k s)"
    and "\<And>k. unat (rs_revision st) + sum b {..<k} < 2 ^ 64"
    and "CleanupOrphanedContent P spec_store others dryRun st = (st', r)"
  shows "drafts_whole (pe_bld P) st' \<and> published_whole P st'"
  using cleanup_keeps_content[OF assms] .

theorem content_cleanup_safe_witness:
  "\<exists>st' r. CleanupOrphanedContent (demo_pub demo_late 10) spec_store
        (\<lambda>k s. if k = 1 then fst (PutPublishedDocument (demo_pub 7 10) spec_store demo_put s) else s) False demo_old = (st', r)
    \<and> drafts_whole (demo_at_time demo_late 10) st' \<and> published_whole (demo_pub demo_late 10) st'"
proof -
  let ?P = "demo_pub demo_late 10"
  let ?others = "\<lambda>k s. if k = 1 then fst (PutPublishedDocument (demo_pub 7 10) spec_store demo_put s) else s"
  let ?b = "\<lambda>k :: nat. if k = 1 then 2 else 0 :: nat"
  have Y: "young ?P (be_written (pe_bld (demo_pub 7 10)))" by (simp add: young_def demo_late_def)
  have none: "requests ?P demo_valid (young ?P) s 0 s" for s by (rule no_request)
  have one: "requests ?P demo_valid (young ?P) s (0 + 2) (fst (PutPublishedDocument (demo_pub 7 10) spec_store demo_put s))" for s
    by (rule publish_request[OF none published.pub_env_axioms demo_same(3) Y prod.collapse[symmetric]])
  have req: "requests ?P demo_valid (young ?P) s (?b k) (?others k s)" for k s
    using none one by (cases "k = 1") (simp_all add: numeral_2_eq_2)
  have "sum ?b {..<k} \<le> 2" for k
    using sum.delta[of "{..<k}" 1 "\<lambda>_. 2 :: nat"] by (simp add: eq_commute)
  then have room: "unat (rs_revision demo_old) + sum ?b {..<k} < 2 ^ 64" for k
    using order_le_less_trans[of "unat (rs_revision demo_old) + sum ?b {..<k}" "3 + 2" "2 ^ 64"] by (simp add: demo_old_def)
  obtain st' r where run: "CleanupOrphanedContent ?P spec_store ?others False demo_old = (st', r)" by fastforce
  have "drafts_whole (pe_bld ?P) demo_old" using demo_old_reads(5) by simp
  from content_cleanup_safe[where b = ?b, OF demo_old_reads(3,4) this demo_old_reads(6) req room run] run show ?thesis by auto
qed

text \<open>
  C38: alone, the cleanup of content removes exactly the orphans: the content whose key no snapshot of a
  readable draft and no record of a document names, that is not of an unreadable draft, and that was
  written at least the grace period ago. It counts them, and a dry run counts the same, reports the
  same failures and changes nothing.
\<close>

theorem content_cleanup_exact:
  assumes "finite (dom (rs_contents st))" and "be_ctx (pe_bld P) = None"
  shows "\<exists>failures. \<forall>dryRun. CleanupOrphanedContent P spec_store (\<lambda>_ s. s) dryRun st =
    (if dryRun then st else drop_contents (orphan_content P st) st, Inr (card (orphan_content P st), failures))"
  by (rule CleanupOrphanedContent_alone[OF assms])

lemma demo_orphan: "orphan_content (demo_pub demo_late 10) demo_old = {''drafts/y/a''}"
proof -
  have y: "ValidID ''y''" by (simp add: ValidID_def id_start_def isRecordNameStart_def)
  have key: "snapshotKey ''y'' ''a'' = ''drafts/y/a''" by (simp add: snapshotKey_def draftContentPrefix_def)
  have names: "names_content (demo_pub demo_late 10) demo_old k \<longleftrightarrow> k = ''drafts/x/a''" for k
    by (auto simp: names_content_def demo_old_reads demo_draft_def demo_manifest_def demo_keys)
  have get: "spec_get NamespaceContent ''drafts/y/a'' demo_old = Inr (record_of NamespaceContent ''drafts/y/a'' \<lparr>s_value = [1, 65], s_revision = 3, s_created = 9, s_updated = 9\<rparr>)"
    using snapshot_key_ok[OF y demo_ids(2)] by (simp add: key spec_get_def demo_old_def)
  have stored: "k = ''drafts/x/a'' \<or> k = ''drafts/y/a''" if "spec_get NamespaceContent k demo_old = Inr rec" for k rec
    using that by (auto simp: spec_get_def demo_old_def demo_store_def split: option.splits if_splits)
  have gone: "rs_contents demo_old (NamespaceDrafts, ''y'') = None" by (simp add: demo_old_def demo_store_def)
  have "contentDraftOf ''drafts/y/a'' = Some ''y''" by (simp add: contentDraftOf_def split_on.simps)
  then have "''drafts/y/a'' \<in> orphan_content (demo_pub demo_late 10) demo_old"
    using get gone names by (simp add: orphan_content_def of_unreadable_draft_def record_time_def record_of_def demo_late_def)
  then show ?thesis using stored names by (auto simp: orphan_content_def)
qed

theorem content_cleanup_exact_witness:
  "\<exists>failures. CleanupOrphanedContent (demo_pub demo_late 10) spec_store (\<lambda>_ s. s) True demo_old = (demo_old, Inr (1, failures))
    \<and> (\<exists>st'. CleanupOrphanedContent (demo_pub demo_late 10) spec_store (\<lambda>_ s. s) False demo_old = (st', Inr (1, failures))
         \<and> rs_contents st' (NamespaceContent, ''drafts/y/a'') = None \<and> rs_contents st' (NamespaceContent, ''drafts/x/a'') \<noteq> None)"
proof -
  obtain failures where run: "CleanupOrphanedContent (demo_pub demo_late 10) spec_store (\<lambda>_ s. s) dryRun demo_old =
      (if dryRun then demo_old else drop_contents {''drafts/y/a''} demo_old, Inr (1, failures))" for dryRun
    using content_cleanup_exact[OF demo_old_reads(3), of "demo_pub demo_late 10"] unfolding demo_orphan by auto
  show ?thesis using run[of True] run[of False] by (intro exI[of _ failures]) (simp add: drop_contents_def demo_old_def demo_store_def)
qed

text \<open>
  C39: alone, the cleanup of documents removes exactly the readable documents that no topology names
  (the topology of that name, not another) and that were published at least the grace period ago, each
  with its content, and nothing else. A dry run counts the same and changes nothing. Removing the
  documents of a topology that a newer publication supersedes removes exactly the others of that
  topology, with the same grace.
\<close>

theorem document_cleanup_exact:
  assumes "finite (dom (rs_contents st))" and "be_ctx (pe_bld P) = None"
  shows "(\<exists>failures. \<forall>dryRun. CleanupOrphanedDocuments P spec_store (\<lambda>_ s. s) referenced dryRun st =
      (let K = {i. \<exists>d. published_at P st i = Some d \<and> (pd_Target d, i) \<notin> set referenced
                   \<and> OrphanGracePeriod \<le> be_now (pe_bld P) - lastPublished d}
       in (if dryRun then st else drop_documents K st, Inr (card K, failures))))
    \<and> (validateText ''target'' target MaxTargetLength True = None \<longrightarrow> validateOptionalID ''keepID'' keepID = None \<longrightarrow>
       DeleteSupersededDocuments P spec_store (\<lambda>_ s. s) target keepID st =
       (let K = {i. \<exists>d. published_at P st i = Some d \<and> pd_Target d = target \<and> i \<noteq> keepID
                   \<and> OrphanGracePeriod \<le> be_now (pe_bld P) - lastPublished d}
        in (drop_documents K st, Inr (card K, []))))"
proof -
  have orphans: "documents_where P st (orphan P referenced) = {i. \<exists>d. published_at P st i = Some d \<and> (pd_Target d, i) \<notin> set referenced
      \<and> OrphanGracePeriod \<le> be_now (pe_bld P) - lastPublished d}"
    using published_Some by (fastforce simp: documents_where_def orphan_def)
  have others: "documents_where P st (superseded P target keepID) = {i. \<exists>d. published_at P st i = Some d \<and> pd_Target d = target
      \<and> i \<noteq> keepID \<and> OrphanGracePeriod \<le> be_now (pe_bld P) - lastPublished d}"
    using published_Some by (fastforce simp: documents_where_def superseded_def)
  show ?thesis unfolding Let_def orphans[symmetric] others[symmetric]
    by (intro conjI impI CleanupOrphanedDocuments_alone[OF assms])
      (simp add: DeleteSupersededDocuments_def deleteDocumentsWhere_alone[OF assms])
qed

lemma demo_stored:
  "\<exists>st r. PutPublishedDocument (demo_pub 7 9) spec_store demo_put demo_store = (st, Inr r)
    \<and> r = demo_published\<lparr>pd_Revision := 4, pd_published := 9\<rparr>
    \<and> (\<forall>t w i. published_at (demo_pub t w) st i = (if i = pd_ID demo_published then Some r else None))
    \<and> (\<exists>data. \<forall>t w. verified (demo_pub t w) st r = Inr data) \<and> finite (dom (rs_contents st)) \<and> rs_wf st
    \<and> (\<forall>t w. drafts_whole (demo_at_time t w) st) \<and> (\<forall>t w. published_whole (demo_pub t w) st) \<and> unat (rs_revision st) \<le> 4"
proof -
  obtain st r where run: "PutPublishedDocument (demo_pub 7 9) spec_store demo_put demo_store = (st, Inr r)"
    and r: "r = demo_published\<lparr>pd_Revision := 4, pd_published := 9\<rparr>" using demo_put_run[of 9] by auto
  obtain data where law: "only_published (pd_ID r) demo_store st" "published_at (demo_pub 7 9) st (pd_ID r) = Some r" "verified (demo_pub 7 9) st r = Inr data"
    using published.Put_law[OF run] by blast
  note same = same_pub_reads[OF demo_same(3)]
  have "published_at (demo_pub 7 9) demo_store i = None" for i by (simp add: published_at_def demo_store_def)
  then have "published_at (demo_pub 7 9) st i = (if i = pd_ID demo_published then Some r else None)" for i
    using only_published_at[OF law(1), of i "demo_pub 7 9"] law(2) r by simp
  moreover have "published_whole (demo_pub 7 9) st" by (rule published.Put_whole(1)[OF demo_no_published run])
  moreover have "drafts_whole (demo_at_time t w) st" for t w
    using only_published_drafts(3)[OF law(1)] same_codec_reads(3)[OF demo_same(1)] demo_whole by metis
  moreover have w: "wrote (\<lambda>_. True) 2 demo_store st"
    using put_writes[of "\<lambda>_. True" "demo_pub 7 9" demo_put] run unfolding writes_def by (metis fst_conv)
  then have "finite (dom (rs_contents st))" by (simp add: wrote_def demo_store_def)
  moreover have "rs_wf demo_store" by (auto simp: rs_wf_def demo_store_def ran_def split: if_splits)
  then have "rs_wf st" "unat (rs_revision st) \<le> 4" using wrote_revision(1,2)[OF w] by (simp_all add: demo_store_def)
  ultimately show ?thesis using run r law(3) same by metis
qed

theorem document_cleanup_exact_witness:
  "\<exists>st1 r1. PutPublishedDocument (demo_pub 7 9) spec_store demo_put demo_store = (st1, Inr r1)
    \<and> (\<exists>st2 f. CleanupOrphanedDocuments (demo_pub demo_late 9) spec_store (\<lambda>_ s. s) [] False st1 = (st2, Inr (1, f))
         \<and> rs_contents st2 (NamespacePublished, pd_ID r1) = None)
    \<and> (\<exists>f. CleanupOrphanedDocuments (demo_pub demo_late 9) spec_store (\<lambda>_ s. s) [(''t'', pd_ID r1)] False st1 = (st1, Inr (0, f)))"
proof -
  obtain st r where run: "PutPublishedDocument (demo_pub 7 9) spec_store demo_put demo_store = (st, Inr r)"
      "r = demo_published\<lparr>pd_Revision := 4, pd_published := 9\<rparr>"
    and at: "\<And>t w i. published_at (demo_pub t w) st i = (if i = pd_ID demo_published then Some r else None)"
    and fin: "finite (dom (rs_contents st))"
    using demo_stored by blast
  have late: "demo_late - lastPublished r = OrphanGracePeriod" "pd_Target r = ''t''" "pd_ID r = pd_ID demo_published"
    using run(2) by (simp_all add: demo_late_def lastPublished_def demo_published_def)
  let ?P = "demo_pub demo_late 9"
  have one: "{i. \<exists>d. published_at ?P st i = Some d \<and> (pd_Target d, i) \<notin> set []
      \<and> OrphanGracePeriod \<le> be_now (pe_bld ?P) - lastPublished d} = {pd_ID demo_published}"
    using late by (auto simp: at)
  have none: "{i. \<exists>d. published_at ?P st i = Some d \<and> (pd_Target d, i) \<notin> set [(''t'', pd_ID r)]
      \<and> OrphanGracePeriod \<le> be_now (pe_bld ?P) - lastPublished d} = {}"
    using late by (auto simp: at)
  obtain f where f: "CleanupOrphanedDocuments ?P spec_store (\<lambda>_ s. s) [] False st = (drop_documents {pd_ID demo_published} st, Inr (1, f))"
    using document_cleanup_exact[OF fin, of ?P "[]", THEN conjunct1, unfolded one Let_def] by auto
  obtain g where g: "CleanupOrphanedDocuments ?P spec_store (\<lambda>_ s. s) [(''t'', pd_ID r)] False st = (drop_documents {} st, Inr (0, g))"
    using document_cleanup_exact[OF fin, of ?P "[(''t'', pd_ID r)]", THEN conjunct1, unfolded none Let_def] by auto
  have "drop_documents {} st = st" by (simp add: drop_documents_def)
  moreover have "rs_contents (drop_documents {pd_ID demo_published} st) (NamespacePublished, pd_ID r) = None"
    using late by (simp add: drop_documents_def)
  ultimately show ?thesis using run(1) f g by metis
qed

text \<open>
  C40: a publication wins over a cleanup: a document that a cleanup has listed, and that is published
  again before the cleanup comes to it, is neither removed nor changed by it, whatever other calls run
  in between.
\<close>

theorem publication_beats_cleanup:
  assumes "rs_wf st" and "drafts_whole (pe_bld P) st" and "published_whole P st" and "published_at P st i = Some d"
    and "requests P valid_doc (\<lambda>_. True) st n st1" and "pub_env Q valid_doc" and "same_pub P Q"
    and "PutPublishedDocument Q spec_store req st1 = (st2, Inr r)" and "pd_ID r = i"
    and "unat (rs_revision st) + n + 2 < 2 ^ 64"
  shows "deleteListed spec_store d st2 = (st2, Inr Kept) \<and> published_at P st2 i = Some r"
proof -
  have w1: "wrote (\<lambda>_. True) n st st1" using requests_keep[OF assms(5,2,3)] by (simp add: kept_def)
  have w2: "wrote (\<lambda>_. True) 2 st1 st2" using put_writes[of "\<lambda>_. True" Q req] assms(8) unfolding writes_def by (metis fst_conv)
  have law: "published_at Q st2 i = Some r" "pd_Revision r = rs_revision st1 + 1 \<or> pd_Revision r = rs_revision st1 + 2"
    using pub_env.Put_law[OF assms(6,8)] assms(9) by (auto simp: touched_def written_anew_def)
  obtain j where j: "j \<le> n" "rs_revision st1 = rs_revision st + of_nat j" using w1 by (auto simp: wrote_def)
  have later: "rs_revision st < rs_revision st1 + a" if "a = 1 \<or> a = 2" for a
  proof -
    have "unat (rs_revision st + of_nat (j + unat a)) = unat (rs_revision st) + (j + unat a)"
      using assms(10) j(1) that by (auto simp: unat_word_ariths unat_of_nat)
    then show ?thesis using that j(2) by (auto simp: word_less_nat_alt add.assoc)
  qed
  obtain s where s: "rs_contents st (NamespacePublished, i) = Some s" "s_revision s = pd_Revision d" "pd_ID d = i"
    using published_Some[OF assms(4)] by blast
  obtain s2 where s2: "rs_contents st2 (NamespacePublished, i) = Some s2" "s_revision s2 = pd_Revision r"
    using published_Some[OF law(1)] by blast
  have "s_revision s \<le> rs_revision st" using assms(1) s(1) unfolding rs_wf_def by (metis ranI)
  then have "s_revision s2 \<noteq> s_revision s" using law(2) s2(2) later[of 1] later[of 2] by auto
  then have new: "rs_contents st2 (NamespacePublished, pd_ID d) \<noteq> rs_contents st (NamespacePublished, pd_ID d)"
    using s s2(1) by auto
  have w: "wrote (\<lambda>_. True) (n + 2) st st2" by (rule wrote_trans[OF w1 w2])
  have "deleteListed spec_store d st2 = (st2, Inr Kept)"
    by (rule republished_kept[OF assms(1) _ w _ new]) (use assms(4,10) s(3) in simp_all)
  then show ?thesis using law(1) same_pub_reads(1)[OF assms(7)] by simp
qed

theorem publication_beats_cleanup_witness:
  "\<exists>st1 r1 st2 r2. PutPublishedDocument (demo_pub 7 9) spec_store demo_put demo_store = (st1, Inr r1)
    \<and> PutPublishedDocument (demo_pub 7 10) spec_store demo_put st1 = (st2, Inr r2) \<and> deleteListed spec_store r1 st2 = (st2, Inr Kept)"
proof -
  obtain st r data where run: "PutPublishedDocument (demo_pub 7 9) spec_store demo_put demo_store = (st, Inr r)"
      "r = demo_published\<lparr>pd_Revision := 4, pd_published := 9\<rparr>"
    and at: "\<And>t w i. published_at (demo_pub t w) st i = (if i = pd_ID demo_published then Some r else None)"
    and wh: "\<And>t w. verified (demo_pub t w) st r = Inr data" "\<And>t w. drafts_whole (demo_at_time t w) st" "\<And>t w. published_whole (demo_pub t w) st"
      "rs_wf st" "unat (rs_revision st) \<le> 4"
    using demo_stored by metis
  have one: "published_at (demo_pub 7 10) st (pd_ID demo_published) = Some r" using at by simp
  obtain st2 r2 where again: "PutPublishedDocument (demo_pub 7 10) spec_store demo_put st = (st2, Inr r2)"
    using demo_put_again[OF one wh(1)] by blast
  have id: "pd_ID r2 = pd_ID r"
    by (rule same_identifier[OF published.pub_env_axioms published.pub_env_axioms demo_same(3) _ run(1) again]) simp_all
  have "published_at (demo_pub 7 10) st (pd_ID r) = Some r" using one run(2) by simp
  from publication_beats_cleanup[OF wh(4) _ wh(3) this no_request published.pub_env_axioms demo_same(3) again id] wh(2,5)
  show ?thesis using run(1) again by auto
qed

end
