(* ===== verification/Topo_Network.thy ===== *)
theory Topo_Network
  imports Go_Runtime
begin

section \<open>The network of a topology node\<close>

text \<open>
  The structs of \<^verbatim>\<open>types/version/v1/network.go\<close> as records, and the operations of that file
  that do more than read or write one field (a getter is a record selector, a setter a record
  update): looking an interface up, the default bridge, the interface string given to minimega,
  and the rules of a ruleset. A pointer in a slice is an option, so that a nil element shows.
  A Go \<^verbatim>\<open>int\<close> is an \<^typ>\<open>int\<close>: the one subtraction of the file starts above 1.
\<close>

subsection \<open>Data\<close>

record AddrPort =
  ap_Address :: string
  ap_Port :: int

record Rule =
  ru_ID :: int
  ru_Description :: string
  ru_Action :: string
  ru_Protocol :: string
  ru_Source :: "AddrPort option"
  ru_Destination :: "AddrPort option"
  ru_Stateful :: bool

record Ruleset =
  rset_Name :: string
  rset_Description :: string
  rset_Default :: string
  rset_Rules :: "Rule option list"

record NAT =
  nat_In :: "string list"
  nat_Out :: string

record Area =
  area_AreaID :: "int option"
  area_AreaNetworks :: "string list"

record OSPF =
  ospf_RouterID :: string
  ospf_Areas :: "Area list"
  ospf_DeadInterval :: "int option"
  ospf_HelloInterval :: "int option"
  ospf_RetransmissionInterval :: "int option"

record Route =
  rt_Destination :: string
  rt_Next :: string
  rt_Cost :: "int option"

record Interface =
  if_Name :: string
  if_Type :: string
  if_Proto :: string
  if_UDPPort :: int
  if_BaudRate :: int
  if_Device :: string
  if_VLAN :: string
  if_Bridge :: string
  if_Autostart :: bool
  if_MAC :: string
  if_Driver :: string
  if_MTU :: int
  if_Address :: string
  if_Mask :: int
  if_Gateway :: string
  if_DNS :: "string list"
  if_QinQ :: bool
  if_RulesetIn :: string
  if_RulesetOut :: string
  if_BridgeSetInTopo :: "bool option"

record Network =
  net_Interfaces :: "Interface option list"
  net_Routes :: "Route list"
  net_OSPF :: "OSPF option"
  net_Rulesets :: "Ruleset option list"
  net_NAT :: "NAT list"

text \<open>The zero values: \<^verbatim>\<open>new(Network)\<close> and the fields a composite literal leaves out.\<close>

definition empty_network :: Network where
  "empty_network =
     \<lparr>net_Interfaces = [], net_Routes = [], net_OSPF = None, net_Rulesets = [], net_NAT = []\<rparr>"

definition empty_interface :: Interface where
  "empty_interface =
     \<lparr>if_Name = [], if_Type = [], if_Proto = [], if_UDPPort = 0, if_BaudRate = 0, if_Device = [],
      if_VLAN = [], if_Bridge = [], if_Autostart = False, if_MAC = [], if_Driver = [], if_MTU = 0,
      if_Address = [], if_Mask = 0, if_Gateway = [], if_DNS = [], if_QinQ = False,
      if_RulesetIn = [], if_RulesetOut = [], if_BridgeSetInTopo = None\<rparr>"

definition empty_rule :: Rule where
  "empty_rule =
     \<lparr>ru_ID = 0, ru_Description = [], ru_Action = [], ru_Protocol = [], ru_Source = None,
      ru_Destination = None, ru_Stateful = False\<rparr>"

subsection \<open>Interfaces\<close>

definition first_interface ::
  "(Interface \<Rightarrow> bool) \<Rightarrow> (Interface \<Rightarrow> 'a) \<Rightarrow> 'a \<Rightarrow> Network \<Rightarrow> 'a go" where
  "first_interface p f d n =
     bindR (findR (\<lambda>i. bindR (deref i) (\<lambda>i. Inr (p i))) (net_Interfaces n)) (\<lambda>idx.
       case idx of
         None \<Rightarrow> Inr d
       | Some k \<Rightarrow> bindR (deref (net_Interfaces n ! k)) (\<lambda>i. Inr (f i)))"

definition InterfaceAddress :: "unicase \<Rightarrow> Network \<Rightarrow> string \<Rightarrow> string go" where
  "InterfaceAddress u n name = first_interface (\<lambda>i. equal_fold u (if_Name i) name) if_Address [] n"

definition InterfaceVLAN :: "Network \<Rightarrow> string \<Rightarrow> string go" where
  "InterfaceVLAN n vlan = first_interface (\<lambda>i. if_VLAN i = vlan) if_Name [] n"

definition InterfaceMask :: "unicase \<Rightarrow> Network \<Rightarrow> string \<Rightarrow> int go" where
  "InterfaceMask u n name = first_interface (\<lambda>i. equal_fold u (if_Name i) name) if_Mask 0 n"

text \<open>One round of the loop of \<^verbatim>\<open>Network.SetDefaults\<close>.\<close>

definition bridge_default :: "string \<Rightarrow> Interface \<Rightarrow> Interface" where
  "bridge_default bridge i =
     (if if_Bridge i = bridge then i
      else
        let setInTopo =
              (case if_BridgeSetInTopo i of
                 None \<Rightarrow> if_Bridge i \<noteq> [] \<and> if_Bridge i \<noteq> ''phenix''
               | Some b \<Rightarrow> b);
            i' = i\<lparr>if_BridgeSetInTopo := Some setInTopo\<rparr>
        in if setInTopo then i' else i'\<lparr>if_Bridge := bridge\<rparr>)"

definition Network_SetDefaults :: "string \<Rightarrow> Network \<Rightarrow> Network go" where
  "Network_SetDefaults bridge n =
     bindR (mapR (\<lambda>i. bindR (deref i) (\<lambda>i. Inr (Some (bridge_default bridge i)))) (net_Interfaces n))
       (\<lambda>is. Inr (n\<lparr>net_Interfaces := is\<rparr>))"

definition interface_config :: "Interface \<Rightarrow> string" where
  "interface_config i =
     join_with '',''
       ([if_Bridge i, if_VLAN i]
        @ (if if_MAC i \<noteq> [] then [if_MAC i] else [])
        @ (if if_Driver i \<noteq> [] then [if_Driver i] else [])
        @ (if if_QinQ i then [''qinq''] else []))"

definition InterfaceConfig :: "Network \<Rightarrow> string go" where
  "InterfaceConfig n =
     bindR (mapR (\<lambda>i. bindR (deref i) (\<lambda>i. Inr (interface_config i))) (net_Interfaces n))
       (\<lambda>cs. Inr (join_with '' '' cs))"

subsection \<open>Rulesets\<close>

definition AddRuleset :: "Ruleset option \<Rightarrow> Network \<Rightarrow> Network" where
  "AddRuleset r n = n\<lparr>net_Rulesets := net_Rulesets n @ [r]\<rparr>"

definition SetRulesets :: "Ruleset option list \<Rightarrow> Network \<Rightarrow> Network" where
  "SetRulesets rs n = n\<lparr>net_Rulesets := rs\<rparr>"

definition ruleIDDecrement :: int where
  "ruleIDDecrement = 10"

fun min_rule_id :: "int \<Rightarrow> Rule option list \<Rightarrow> int go" where
  "min_rule_id m [] = Inr m"
| "min_rule_id m (r # rs) =
     bindR (deref r) (\<lambda>r. min_rule_id (if m = 0 \<or> ru_ID r < m then ru_ID r else m) rs)"

text \<open>
  The result is the ruleset and the new rule, which is its first rule; no rule is added, and nil
  returned, when the least id leaves no room.
\<close>

definition UnshiftRule :: "Ruleset \<Rightarrow> (Ruleset \<times> Rule option) go" where
  "UnshiftRule rs =
     bindR (min_rule_id 0 (rset_Rules rs)) (\<lambda>m.
       if m \<le> 1 then Inr (rs, None)
       else
         let newid = m - ruleIDDecrement;
             r = empty_rule\<lparr>ru_ID := (if newid < 1 then 1 else newid)\<rparr>
         in Inr (rs\<lparr>rset_Rules := Some r # rset_Rules rs\<rparr>, Some r))"

definition RemoveRule :: "int \<Rightarrow> Ruleset \<Rightarrow> Ruleset go" where
  "RemoveRule rid rs =
     bindR (findR (\<lambda>r. bindR (deref r) (\<lambda>r. Inr (ru_ID r = rid))) (rset_Rules rs)) (\<lambda>idx.
       case idx of
         None \<Rightarrow> Inr rs
       | Some k \<Rightarrow> Inr (rs\<lparr>rset_Rules := remove_nth k (rset_Rules rs)\<rparr>))"

subsection \<open>Rulesets: ids\<close>

text \<open>The ids of the rules of a ruleset that has no nil rule.\<close>

definition rule_ids :: "Ruleset \<Rightarrow> int list" where
  "rule_ids rs = map (\<lambda>r. ru_ID (the r)) (rset_Rules rs)"

definition rules_ok :: "Ruleset \<Rightarrow> bool" where
  "rules_ok rs \<longleftrightarrow> None \<notin> set (rset_Rules rs) \<and> (\<forall>i \<in> set (rule_ids rs). 0 < i)"

lemma min_rule_id_pos:
  assumes "None \<notin> set rs" and "\<forall>r \<in> set rs. 0 < ru_ID (the r)" and "0 < m"
  shows "min_rule_id m rs = Inr (Min (insert m ((\<lambda>r. ru_ID (the r)) ` set rs)))"
  using assms
proof (induction rs arbitrary: m)
  case (Cons r rs)
  then obtain x where [simp]: "r = Some x" by (cases r) auto
  have "0 < (if ru_ID x < m then ru_ID x else m)" using Cons.prems by simp
  then have "min_rule_id (if m = 0 \<or> ru_ID x < m then ru_ID x else m) rs
      = Inr (Min (insert (min m (ru_ID x)) ((\<lambda>r. ru_ID (the r)) ` set rs)))"
    using Cons by (auto simp: min_def)
  then show ?case by (cases "rs = []") (simp_all add: min.assoc)
qed simp

lemma min_rule_id_ok:
  assumes "rules_ok rs" and "rset_Rules rs \<noteq> []"
  shows "min_rule_id 0 (rset_Rules rs) = Inr (Min (set (rule_ids rs)))"
proof -
  obtain x xs where [simp]: "rset_Rules rs = Some x # xs"
    using assms by (cases "rset_Rules rs"; cases "hd (rset_Rules rs)") (auto simp: rules_ok_def)
  have "min_rule_id (ru_ID x) xs = Inr (Min (insert (ru_ID x) ((\<lambda>r. ru_ID (the r)) ` set xs)))"
    using assms by (intro min_rule_id_pos) (auto simp: rules_ok_def rule_ids_def)
  then show ?thesis by (simp add: rule_ids_def)
qed

text \<open>
  A rule put in front of a ruleset whose ids are positive gets an id that is positive and
  below every id in use, at most ten below the least; a ruleset is refused exactly when it is
  empty or uses id 1.
\<close>

theorem unshift_rule_id:
  assumes "rules_ok rs"
  shows "(if rset_Rules rs = [] \<or> 1 \<in> set (rule_ids rs) then UnshiftRule rs = Inr (rs, None)
     else \<exists>r. UnshiftRule rs = Inr (rs\<lparr>rset_Rules := Some r # rset_Rules rs\<rparr>, Some r)
        \<and> 1 \<le> ru_ID r \<and> Min (set (rule_ids rs)) - 10 \<le> ru_ID r
        \<and> (\<forall>i \<in> set (rule_ids rs). ru_ID r < i))"
proof (cases "rset_Rules rs = []")
  case True
  then show ?thesis by (simp add: UnshiftRule_def)
next
  case False
  let ?m = "Min (set (rule_ids rs))"
  have fin: "finite (set (rule_ids rs))" "set (rule_ids rs) \<noteq> {}"
    using False by (auto simp: rule_ids_def)
  have m: "?m \<in> set (rule_ids rs)" "\<And>i. i \<in> set (rule_ids rs) \<Longrightarrow> ?m \<le> i"
    using fin Min_in Min_le by blast+
  have pos: "1 \<le> ?m" using assms m(1) by (force simp: rules_ok_def)
  show ?thesis
  proof (cases "1 \<in> set (rule_ids rs)")
    case True
    then have "?m = 1" using m(2)[OF True] pos by (intro order_antisym)
    then show ?thesis using False True by (simp add: UnshiftRule_def min_rule_id_ok[OF assms])
  next
    case no1: False
    then have "1 < ?m" using m(1) pos by (metis order_le_less)
    let ?r = "empty_rule\<lparr>ru_ID := (if ?m - 10 < 1 then 1 else ?m - 10)\<rparr>"
    have "UnshiftRule rs = Inr (rs\<lparr>rset_Rules := Some ?r # rset_Rules rs\<rparr>, Some ?r)"
      using False \<open>1 < ?m\<close>
      by (simp add: UnshiftRule_def min_rule_id_ok[OF assms] ruleIDDecrement_def Let_def)
    moreover have "ru_ID ?r < ?m" using \<open>1 < ?m\<close> by simp
    then have "\<forall>i \<in> set (rule_ids rs). ru_ID ?r < i" using m(2) by (meson less_le_trans)
    ultimately show ?thesis using False no1 by (auto intro: exI[of _ ?r])
  qed
qed

theorem unshift_rule_id_witness:
  "\<exists>r. UnshiftRule \<lparr>rset_Name = ''in'', rset_Description = [], rset_Default = ''drop'',
       rset_Rules = [Some (empty_rule\<lparr>ru_ID := 7\<rparr>), Some (empty_rule\<lparr>ru_ID := 20\<rparr>)]\<rparr>
     = Inr (\<lparr>rset_Name = ''in'', rset_Description = [], rset_Default = ''drop'',
       rset_Rules = [Some r, Some (empty_rule\<lparr>ru_ID := 7\<rparr>), Some (empty_rule\<lparr>ru_ID := 20\<rparr>)]\<rparr>, Some r)
     \<and> 1 \<le> ru_ID r \<and> ru_ID r < 7"
  using unshift_rule_id[of "\<lparr>rset_Name = ''in'', rset_Description = [], rset_Default = ''drop'',
       rset_Rules = [Some (empty_rule\<lparr>ru_ID := 7\<rparr>), Some (empty_rule\<lparr>ru_ID := 20\<rparr>)]\<rparr>"]
  by (auto simp: rules_ok_def rule_ids_def)

subsection \<open>Rulesets: removal\<close>

lemma findR_deref:
  assumes "None \<notin> set xs"
  shows "findR (\<lambda>r. bindR (deref r) (\<lambda>r. Inr (p r))) xs = Inr None
      \<longleftrightarrow> (\<forall>x \<in> set xs. \<not> p (the x))"
    and "findR (\<lambda>r. bindR (deref r) (\<lambda>r. Inr (p r))) xs = Inr (Some i)
      \<longleftrightarrow> i < length xs \<and> p (the (xs ! i)) \<and> (\<forall>j < i. \<not> p (the (xs ! j)))"
proof -
  have e: "bindR (deref x) (\<lambda>r. Inr (p r)) = Inr (p (the x))" if "x \<in> set xs" for x
    using assms that by (cases x) auto
  show "findR (\<lambda>r. bindR (deref r) (\<lambda>r. Inr (p r))) xs = Inr None
      \<longleftrightarrow> (\<forall>x \<in> set xs. \<not> p (the x))"
    by (auto simp: findR_None e)
  show "findR (\<lambda>r. bindR (deref r) (\<lambda>r. Inr (p r))) xs = Inr (Some i)
      \<longleftrightarrow> i < length xs \<and> p (the (xs ! i)) \<and> (\<forall>j < i. \<not> p (the (xs ! j)))"
    using e by (auto simp: findR_Some)
qed

lemma findR_deref_total:
  "None \<notin> set xs \<Longrightarrow> \<exists>i. findR (\<lambda>r. bindR (deref r) (\<lambda>r. Inr (p r))) xs = Inr i"
  by (rule findR_total) (metis bindR.simps(2) deref_Inr not_None_eq)

text \<open>
  Removing a rule by id takes exactly the rules with that id out, when ids are distinct.
\<close>

lemma remove_rule:
  assumes "rules_ok rs" and "distinct (rule_ids rs)"
  shows "\<exists>rs'. RemoveRule rid rs = Inr rs' \<and> rule_ids rs' = remove1 rid (rule_ids rs)
     \<and> rid \<notin> set (rule_ids rs') \<and> rules_ok rs'"
proof -
  have nn: "None \<notin> set (rset_Rules rs)" using assms by (simp add: rules_ok_def)
  obtain res where o: "findR (\<lambda>r. bindR (deref r) (\<lambda>r. Inr (ru_ID r = rid))) (rset_Rules rs) = Inr res"
    using findR_deref_total[OF nn, of "\<lambda>r. ru_ID r = rid"] by blast
  show ?thesis
  proof (cases res)
    case None
    then have "rid \<notin> set (rule_ids rs)"
      using o findR_deref(1)[OF nn] by (auto simp: rule_ids_def)
    then show ?thesis using o None assms(1) by (simp add: RemoveRule_def remove1_idem)
  next
    case (Some k)
    let ?xs = "rset_Rules rs"
    have k: "k < length ?xs" "ru_ID (the (?xs ! k)) = rid" "\<forall>j < k. ru_ID (the (?xs ! j)) \<noteq> rid"
      using o Some findR_deref(2)[OF nn] by auto
    have notin: "rid \<notin> set (map (\<lambda>r. ru_ID (the r)) (take k ?xs))"
      using k(1,3) by (fastforce simp: in_set_conv_nth)
    have "rule_ids rs = map (\<lambda>r. ru_ID (the r)) (take k ?xs @ ?xs ! k # drop (Suc k) ?xs)"
      using remove_nth_split[OF k(1)] by (simp add: rule_ids_def)
    then have ids: "remove1 rid (rule_ids rs) = map (\<lambda>r. ru_ID (the r)) (remove_nth k ?xs)"
      using notin k(2) by (simp add: remove_nth_def remove1_append)
    have "RemoveRule rid rs = Inr (rs\<lparr>rset_Rules := remove_nth k ?xs\<rparr>)"
      using o Some by (simp add: RemoveRule_def)
    moreover have "rules_ok (rs\<lparr>rset_Rules := remove_nth k ?xs\<rparr>)"
      using assms(1) set_remove_nth_subset[of k ?xs] by (auto simp: rules_ok_def rule_ids_def)
    moreover have "rule_ids (rs\<lparr>rset_Rules := remove_nth k ?xs\<rparr>) = remove1 rid (rule_ids rs)"
      using ids by (simp add: rule_ids_def)
    moreover have "rid \<notin> set (remove1 rid (rule_ids rs))" using assms(2) by simp
    ultimately show ?thesis by simp
  qed
qed

subsection \<open>The default bridge\<close>

lemma bridge_default_keeps [simp]:
  "if_Name (bridge_default b i) = if_Name i" "if_VLAN (bridge_default b i) = if_VLAN i"
  "if_Gateway (bridge_default b i) = if_Gateway i" "if_Proto (bridge_default b i) = if_Proto i"
  by (simp_all add: bridge_default_def Let_def)

lemma bridge_default_idem [simp]: "bridge_default b (bridge_default b i) = bridge_default b i"
  by (auto simp: bridge_default_def Let_def split: option.splits)

text \<open>
  Moving a node between default bridges forgets nothing: whatever default bridges were
  applied before, applying \<open>b\<close> puts an interface on the bridge that applying \<open>b\<close> to the
  topology as written would, which is the interface's own bridge when the topology names one
  other than \<^verbatim>\<open>phenix\<close>, and \<open>b\<close> otherwise.
\<close>

theorem bridge_default_history:
  assumes "if_BridgeSetInTopo i = None"
  shows "if_Bridge (bridge_default b (foldl (\<lambda>i b. bridge_default b i) i bs)) =
     (if if_Bridge i \<noteq> [] \<and> if_Bridge i \<noteq> ''phenix'' then if_Bridge i else b)"
proof -
  let ?own = "if_Bridge i \<noteq> [] \<and> if_Bridge i \<noteq> ''phenix''"
  let ?ok = "\<lambda>j. (if ?own then if_Bridge j = if_Bridge i \<and> if_BridgeSetInTopo j \<noteq> Some False
      else if_BridgeSetInTopo j = Some False
        \<or> if_BridgeSetInTopo j = None \<and> if_Bridge j = if_Bridge i)"
  have step: "?ok (bridge_default b j)" if "?ok j" for b j
    using that by (auto simp: bridge_default_def Let_def split: option.splits if_splits)
  have "?ok (foldl (\<lambda>i b. bridge_default b i) j bs)" if "?ok j" for j
    using that step by (induction bs arbitrary: j) simp_all
  then have "?ok (foldl (\<lambda>i b. bridge_default b i) i bs)" using assms by simp
  then show ?thesis
    by (auto simp: bridge_default_def Let_def split: option.splits if_splits)
qed

theorem bridge_default_history_witness:
  "if_Bridge (bridge_default ''exp2'' (bridge_default ''exp1'' (empty_interface\<lparr>if_Bridge := ''phenix''\<rparr>))) = ''exp2''
   \<and> if_Bridge (bridge_default ''exp2'' (bridge_default ''exp1'' (empty_interface\<lparr>if_Bridge := ''br9''\<rparr>))) = ''br9''"
  using bridge_default_history[of "empty_interface\<lparr>if_Bridge := ''phenix''\<rparr>" "''exp2''" "[''exp1'']"]
    bridge_default_history[of "empty_interface\<lparr>if_Bridge := ''br9''\<rparr>" "''exp2''" "[''exp1'']"]
  by (simp add: empty_interface_def)

lemma network_defaults_total:
  assumes "None \<notin> set (net_Interfaces n)"
  shows "Network_SetDefaults b n = Inr (n\<lparr>net_Interfaces := map (map_option (bridge_default b)) (net_Interfaces n)\<rparr>)"
proof -
  have "mapR (\<lambda>i. bindR (deref i) (\<lambda>i. Inr (Some (bridge_default b i)))) (net_Interfaces n)
      = Inr (map (map_option (bridge_default b)) (net_Interfaces n))"
    using assms by (intro mapR_total) (metis (no_types, lifting) bindR.simps(2) deref_Inr not_None_eq option.simps(9))
  then show ?thesis by (simp add: Network_SetDefaults_def)
qed

subsection \<open>The interface string\<close>

lemma interface_config_total:
  assumes "None \<notin> set (net_Interfaces n)"
  shows "InterfaceConfig n = Inr (join_with '' '' (map (\<lambda>i. interface_config (the i)) (net_Interfaces n)))"
proof -
  have "mapR (\<lambda>i. bindR (deref i) (\<lambda>i. Inr (interface_config i))) (net_Interfaces n)
      = Inr (map (\<lambda>i. interface_config (the i)) (net_Interfaces n))"
    using assms by (intro mapR_total) (metis bindR.simps(2) deref_Inr not_None_eq option.sel)
  then show ?thesis by (simp add: InterfaceConfig_def)
qed

end
