(* ===== verification/Topo_Node.thy ===== *)
theory Topo_Node
  imports Topo_Network
begin

section \<open>The nodes of a topology\<close>

text \<open>
  The structs of \<^verbatim>\<open>types/version/v1/node.go\<close> and the operations on them: adding labels,
  injections, deletions, commands, interfaces and delays, validating a node, filling in its
  defaults and printing its disk and injection strings; and the reserved hostnames of
  \<^verbatim>\<open>hostname.go\<close>. The slices hold pointers, here options; no two pointers are shared.
\<close>

subsection \<open>Data\<close>

record General =
  gen_Hostname :: string
  gen_Description :: string
  gen_VMType :: string
  gen_Snapshot :: "bool option"
  gen_DoNotBoot :: "bool option"

record Drive =
  dr_Image :: string
  dr_Iface :: string
  dr_CacheMode :: string
  dr_InjectPartition :: "int option"

record Hardware =
  hw_CPU :: string
  hw_VCPU :: int
  hw_Memory :: int
  hw_OSType :: string
  hw_Drives :: "Drive option list"

record Injection =
  inj_Src :: string
  inj_Dst :: string
  inj_Description :: string
  inj_Permissions :: string

record Deletion =
  del_Path :: string
  del_Description :: string

record C2Delay =
  c2_Hostname :: string
  c2_UseUUID :: bool

record Delay =
  dl_Timer :: string
  dl_User :: bool
  dl_C2 :: "C2Delay list"

record Node =
  nd_Annotations :: "(string, any) gomap"
  nd_Labels :: "(string, string) gomap"
  nd_Type :: string
  nd_General :: "General option"
  nd_Hardware :: "Hardware option"
  nd_Network :: "Network option"
  nd_Injections :: "Injection option list"
  nd_Deletions :: "Deletion option list"
  nd_Advanced :: "(string, string) gomap"
  nd_Overrides :: "(string, string) gomap"
  nd_Delay :: "Delay option"
  nd_Commands :: "string list"
  nd_External :: "bool option"

definition empty_node :: Node where
  "empty_node =
     \<lparr>nd_Annotations = None, nd_Labels = None, nd_Type = [], nd_General = None, nd_Hardware = None,
      nd_Network = None, nd_Injections = [], nd_Deletions = [], nd_Advanced = None,
      nd_Overrides = None, nd_Delay = None, nd_Commands = [], nd_External = None\<rparr>"

definition empty_general :: General where
  "empty_general =
     \<lparr>gen_Hostname = [], gen_Description = [], gen_VMType = [], gen_Snapshot = None,
      gen_DoNotBoot = None\<rparr>"

definition empty_hardware :: Hardware where
  "empty_hardware =
     \<lparr>hw_CPU = [], hw_VCPU = 0, hw_Memory = 0, hw_OSType = [], hw_Drives = []\<rparr>"

definition empty_delay :: Delay where
  "empty_delay = \<lparr>dl_Timer = [], dl_User = False, dl_C2 = []\<rparr>"

definition External :: "Node \<Rightarrow> bool" where
  "External n \<longleftrightarrow> nd_External n \<noteq> None"

subsection \<open>Getters that fill in a default\<close>

definition Hostname :: "General option \<Rightarrow> string" where
  "Hostname g = (case g of None \<Rightarrow> [] | Some g \<Rightarrow> gen_Hostname g)"

definition VMType :: "General option \<Rightarrow> string" where
  "VMType g = (case g of None \<Rightarrow> [] | Some g \<Rightarrow> gen_VMType g)"

definition Snapshot :: "General option \<Rightarrow> bool option" where
  "Snapshot g =
     (case g of None \<Rightarrow> None
      | Some g \<Rightarrow> (case gen_Snapshot g of None \<Rightarrow> Some False | Some b \<Rightarrow> Some b))"

definition DoNotBoot :: "General option \<Rightarrow> bool option" where
  "DoNotBoot g =
     (case g of None \<Rightarrow> None
      | Some g \<Rightarrow> (case gen_DoNotBoot g of None \<Rightarrow> Some False | Some b \<Rightarrow> Some b))"

definition VCPU :: "Hardware option \<Rightarrow> int" where
  "VCPU h = (case h of None \<Rightarrow> 0 | Some h \<Rightarrow> hw_VCPU h)"

definition Memory :: "Hardware option \<Rightarrow> int" where
  "Memory h = (case h of None \<Rightarrow> 0 | Some h \<Rightarrow> hw_Memory h)"

definition OSType :: "Hardware option \<Rightarrow> string" where
  "OSType h = (case h of None \<Rightarrow> [] | Some h \<Rightarrow> hw_OSType h)"

definition GetInjectPartition :: "Drive \<Rightarrow> int" where
  "GetInjectPartition d = (case dr_InjectPartition d of None \<Rightarrow> 1 | Some p \<Rightarrow> p)"

definition Node_Delay :: "Node \<Rightarrow> Delay" where
  "Node_Delay n = (case nd_Delay n of None \<Rightarrow> empty_delay | Some d \<Rightarrow> d)"

definition GetAnnotation :: "string \<Rightarrow> Node \<Rightarrow> any option" where
  "GetAnnotation a n = map_get (nd_Annotations n) a"

definition Delayed :: "Node \<Rightarrow> string" where
  "Delayed n =
     (case nd_Delay n of
        None \<Rightarrow> []
      | Some d \<Rightarrow>
          if dl_Timer d \<noteq> [] then ''timer:'' @ dl_Timer d
          else if dl_User d then ''user''
          else if dl_C2 d \<noteq> [] then ''cc:'' @ join_with '','' (map c2_Hostname (dl_C2 d))
          else [])"

subsection \<open>Adding to a node\<close>

definition AddAnnotation :: "string \<Rightarrow> any \<Rightarrow> Node \<Rightarrow> Node go" where
  "AddAnnotation k a n =
     bindR (map_put (map_made (nd_Annotations n)) k a) (\<lambda>m. Inr (n\<lparr>nd_Annotations := m\<rparr>))"

definition AddLabel :: "string \<Rightarrow> string \<Rightarrow> Node \<Rightarrow> Node go" where
  "AddLabel k v n = bindR (map_put (map_made (nd_Labels n)) k v) (\<lambda>m. Inr (n\<lparr>nd_Labels := m\<rparr>))"

definition AddAdvanced :: "string \<Rightarrow> string \<Rightarrow> Node \<Rightarrow> Node go" where
  "AddAdvanced k v n =
     bindR (map_put (map_made (nd_Advanced n)) k v) (\<lambda>m. Inr (n\<lparr>nd_Advanced := m\<rparr>))"

definition AddOverride :: "string \<Rightarrow> string \<Rightarrow> Node \<Rightarrow> Node go" where
  "AddOverride k v n =
     bindR (map_put (map_made (nd_Overrides n)) k v) (\<lambda>m. Inr (n\<lparr>nd_Overrides := m\<rparr>))"

definition AddCommand :: "string \<Rightarrow> Node \<Rightarrow> Node" where
  "AddCommand cmd n =
     (if cmd \<in> set (nd_Commands n) then n else n\<lparr>nd_Commands := nd_Commands n @ [cmd]\<rparr>)"

definition AddTimerDelay :: "string \<Rightarrow> Node \<Rightarrow> Node go" where
  "AddTimerDelay d n =
     bindR (deref (nd_Delay n)) (\<lambda>x. Inr (n\<lparr>nd_Delay := Some (x\<lparr>dl_Timer := d\<rparr>)\<rparr>))"

definition AddUserDelay :: "bool \<Rightarrow> Node \<Rightarrow> Node go" where
  "AddUserDelay d n =
     bindR (deref (nd_Delay n)) (\<lambda>x. Inr (n\<lparr>nd_Delay := Some (x\<lparr>dl_User := d\<rparr>)\<rparr>))"

definition AddC2Delay :: "string \<Rightarrow> bool \<Rightarrow> Node \<Rightarrow> Node" where
  "AddC2Delay hostname useuuid n =
     n\<lparr>nd_Delay := Some (empty_delay\<lparr>dl_C2 :=
         dl_C2 empty_delay @ [\<lparr>c2_Hostname = hostname, c2_UseUUID = useuuid\<rparr>]\<rparr>)\<rparr>"

definition AddHardware :: "string \<Rightarrow> int \<Rightarrow> int \<Rightarrow> Node \<Rightarrow> Node" where
  "AddHardware os vcpu memory n =
     n\<lparr>nd_Hardware := Some (empty_hardware\<lparr>hw_OSType := os, hw_VCPU := vcpu, hw_Memory := memory\<rparr>)\<rparr>"

definition AddDrive :: "string \<Rightarrow> int \<Rightarrow> Hardware \<Rightarrow> Hardware" where
  "AddDrive disk part h =
     h\<lparr>hw_Drives := hw_Drives h
        @ [Some \<lparr>dr_Image = disk, dr_Iface = [], dr_CacheMode = [], dr_InjectPartition = Some part\<rparr>]\<rparr>"

definition network_made :: "Network option \<Rightarrow> Network" where
  "network_made net = (case net of None \<Rightarrow> empty_network | Some x \<Rightarrow> x)"

definition AddNetworkInterface :: "string \<Rightarrow> string \<Rightarrow> string \<Rightarrow> Node \<Rightarrow> Node" where
  "AddNetworkInterface typ name vlan n =
     (let i = empty_interface\<lparr>if_Type := typ, if_Name := name, if_VLAN := vlan\<rparr>;
          net = network_made (nd_Network n)
      in n\<lparr>nd_Network := Some (net\<lparr>net_Interfaces := net_Interfaces net @ [Some i]\<rparr>)\<rparr>)"

definition AddNetworkRoute :: "string \<Rightarrow> string \<Rightarrow> int \<Rightarrow> Node \<Rightarrow> Node" where
  "AddNetworkRoute dest next_hop cost n =
     (let r = \<lparr>rt_Destination = dest, rt_Next = next_hop, rt_Cost = Some cost\<rparr>;
          net = network_made (nd_Network n)
      in n\<lparr>nd_Network := Some (net\<lparr>net_Routes := net_Routes net @ [r]\<rparr>)\<rparr>)"

text \<open>Each Go map of the argument is the list of its entries in the order the range gives them.\<close>

definition nat_config :: "(string \<times> string list) list \<Rightarrow> NAT" where
  "nat_config m =
     foldl (\<lambda>c (out, ins). \<lparr>nat_In = nat_In c @ ins, nat_Out = out\<rparr>) \<lparr>nat_In = [], nat_Out = []\<rparr> m"

fun AddNetworkNAT :: "(string \<times> string list) list list \<Rightarrow> Node \<Rightarrow> Node go" where
  "AddNetworkNAT [] n = Inr n"
| "AddNetworkNAT (m # ms) n =
     bindR (deref (nd_Network n)) (\<lambda>net.
       AddNetworkNAT ms (n\<lparr>nd_Network := Some (net\<lparr>net_NAT := net_NAT net @ [nat_config m]\<rparr>)\<rparr>))"

definition AddNetworkOSPF ::
  "string \<Rightarrow> int \<Rightarrow> int \<Rightarrow> int \<Rightarrow> (int \<times> string list) list \<Rightarrow> Node \<Rightarrow> Node go" where
  "AddNetworkOSPF routerID dead hello retrans areas n =
     bindR (deref (nd_Network n)) (\<lambda>net.
       Inr (n\<lparr>nd_Network := Some (net\<lparr>net_OSPF := Some
         \<lparr>ospf_RouterID = routerID,
          ospf_Areas = map (\<lambda>(i, nets). \<lparr>area_AreaID = Some i, area_AreaNetworks = nets\<rparr>) areas,
          ospf_DeadInterval = Some dead, ospf_HelloInterval = Some hello,
          ospf_RetransmissionInterval = Some retrans\<rparr>\<rparr>)\<rparr>))"

text \<open>
  The search loop of \<^verbatim>\<open>AddInject\<close> and \<^verbatim>\<open>AddDeletion\<close>: the list with the first match
  changed, or \<^const>\<open>None\<close> when nothing matches.
\<close>

fun update_first :: "('a \<Rightarrow> bool) \<Rightarrow> ('a \<Rightarrow> 'a) \<Rightarrow> 'a option list \<Rightarrow> 'a option list option go" where
  "update_first p f [] = Inr None"
| "update_first p f (x # xs) =
     bindR (deref x) (\<lambda>y.
       if p y then Inr (Some (Some (f y) # xs))
       else bindR (update_first p f xs) (\<lambda>r. Inr (map_option (Cons x) r)))"

definition upsert ::
  "('a \<Rightarrow> bool) \<Rightarrow> ('a \<Rightarrow> 'a) \<Rightarrow> 'a \<Rightarrow> 'a option list \<Rightarrow> 'a option list go" where
  "upsert p f new xs =
     bindR (update_first p f xs) (\<lambda>r. case r of None \<Rightarrow> Inr (xs @ [Some new]) | Some ys \<Rightarrow> Inr ys)"

definition AddInject :: "string \<Rightarrow> string \<Rightarrow> string \<Rightarrow> string \<Rightarrow> Node \<Rightarrow> Node go" where
  "AddInject src dst perms desc n =
     (if map_get (nd_Labels n) ''disable-injects'' \<noteq> None then Inr n
      else
        bindR (upsert (\<lambda>j. inj_Dst j = dst)
                 (\<lambda>j. j\<lparr>inj_Src := src, inj_Permissions := perms, inj_Description := desc\<rparr>)
                 \<lparr>inj_Src = src, inj_Dst = dst, inj_Description = desc, inj_Permissions = perms\<rparr>
                 (nd_Injections n))
          (\<lambda>js. Inr (n\<lparr>nd_Injections := js\<rparr>)))"

definition AddDeletion :: "string \<Rightarrow> string \<Rightarrow> Node \<Rightarrow> Node go" where
  "AddDeletion path desc n =
     (if map_get (nd_Labels n) ''disable-injects'' \<noteq> None then Inr n
      else
        bindR (upsert (\<lambda>d. del_Path d = path) (\<lambda>d. d\<lparr>del_Description := desc\<rparr>)
                 \<lparr>del_Path = path, del_Description = desc\<rparr> (nd_Deletions n))
          (\<lambda>ds. Inr (n\<lparr>nd_Deletions := ds\<rparr>)))"

subsection \<open>Reserved hostnames\<close>

datatype hostname_err = ReservedAll string | AllDigits string | WindowsPhenix string
datatype hostname_warning = CaseOfAll string | MatchesPhenix string

definition minimegaWildcardVM :: string where
  "minimegaWildcardVM = ''all''"

definition phenixHostname :: string where
  "phenixHostname = ''phenix''"

definition trim_digits :: "string \<Rightarrow> string" where
  "trim_digits s = rev (dropWhile is_digit (rev (dropWhile is_digit s)))"

definition isDigits :: "string \<Rightarrow> bool" where
  "isDigits s \<longleftrightarrow> s \<noteq> [] \<and> trim_digits s = []"

definition checkHostnameKeywords ::
  "unicase \<Rightarrow> string \<Rightarrow> string \<Rightarrow> hostname_err + hostname_warning option" where
  "checkHostnameKeywords u hostname osType =
     (if hostname = minimegaWildcardVM then Inl (ReservedAll hostname)
      else if isDigits hostname then Inl (AllDigits hostname)
      else if equal_fold u hostname minimegaWildcardVM then Inr (Some (CaseOfAll hostname))
      else if equal_fold u hostname phenixHostname \<and> equal_fold u osType ''windows''
      then Inl (WindowsPhenix hostname)
      else if equal_fold u hostname phenixHostname then Inr (Some (MatchesPhenix hostname))
      else Inr None)"

definition CheckHostname :: "unicase \<Rightarrow> string \<Rightarrow> string \<Rightarrow> hostname_err + hostname_warning option" where
  "CheckHostname u hostname osType = checkHostnameKeywords u hostname osType"

subsection \<open>Validation\<close>

datatype node_err =
  ExternalFalse
| BadHostname hostname_err
| DuplicateInterface string
| GatewayIgnored string string
| ManyGateways

fun check_interfaces ::
  "unicase \<Rightarrow> string list \<Rightarrow> nat \<Rightarrow> Interface option list \<Rightarrow> node_err option" where
  "check_interfaces u seen gateways [] = None"
| "check_interfaces u seen gateways (None # is) = check_interfaces u seen gateways is"
| "check_interfaces u seen gateways (Some i # is) =
     (if if_Name i \<noteq> [] \<and> if_Name i \<in> set seen then Some (DuplicateInterface (if_Name i))
      else
        let seen' = (if if_Name i \<noteq> [] then if_Name i # seen else seen)
        in if if_Gateway i = [] then check_interfaces u seen' gateways is
           else if to_lower u (if_Proto i) = ''dhcp'' \<or> to_lower u (if_Proto i) = ''manual''
           then Some (GatewayIgnored (if_Name i) (if_Proto i))
           else if gateways + 1 > 1 then Some ManyGateways
           else check_interfaces u seen' (gateways + 1) is)"

text \<open>The result is what \<^verbatim>\<open>validate\<close> logs, if anything, and the error it returns.\<close>

definition validate :: "unicase \<Rightarrow> Node \<Rightarrow> (hostname_warning option \<times> node_err option) go" where
  "validate u n =
     (case nd_External n of
        Some external \<Rightarrow> Inr (None, if external then None else Some ExternalFalse)
      | None \<Rightarrow>
          let osType = (case nd_Hardware n of None \<Rightarrow> [] | Some h \<Rightarrow> hw_OSType h)
          in bindR (deref (nd_General n)) (\<lambda>g.
               case checkHostnameKeywords u (gen_Hostname g) osType of
                 Inl e \<Rightarrow> Inr (None, Some (BadHostname e))
               | Inr w \<Rightarrow>
                   (case nd_Network n of
                      None \<Rightarrow> Inr (w, None)
                    | Some net \<Rightarrow> Inr (w, check_interfaces u [] 0 (net_Interfaces net)))))"

subsection \<open>Defaults\<close>

definition general_defaults :: "General \<Rightarrow> General" where
  "general_defaults g =
     g\<lparr>gen_VMType := (if gen_VMType g = [] then ''kvm'' else gen_VMType g),
       gen_Snapshot := (case gen_Snapshot g of None \<Rightarrow> Some True | Some b \<Rightarrow> Some b),
       gen_DoNotBoot := (case gen_DoNotBoot g of None \<Rightarrow> Some False | Some b \<Rightarrow> Some b)\<rparr>"

definition hardware_defaults :: "Hardware \<Rightarrow> Hardware" where
  "hardware_defaults h =
     h\<lparr>hw_CPU := (if hw_CPU h = [] then ''Broadwell'' else hw_CPU h),
       hw_VCPU := (if hw_VCPU h = 0 then 1 else hw_VCPU h),
       hw_Memory := (if hw_Memory h = 0 then 512 else hw_Memory h),
       hw_OSType := (if hw_OSType h = [] then ''linux'' else hw_OSType h)\<rparr>"

definition setDefaults :: "string \<Rightarrow> Node \<Rightarrow> Node go" where
  "setDefaults bridge n =
     (if External n then Inr n
      else
        bindR (deref (nd_General n)) (\<lambda>g.
        bindR (deref (nd_Hardware n)) (\<lambda>h.
          let n' = n\<lparr>nd_General := Some (general_defaults g),
                     nd_Hardware := Some (hardware_defaults h),
                     nd_Advanced := map_made (nd_Advanced n),
                     nd_Overrides := map_made (nd_Overrides n)\<rparr>
          in (case nd_Network n of
                None \<Rightarrow> Inr n'
              | Some net \<Rightarrow>
                  bindR (Network_SetDefaults bridge net) (\<lambda>net'. Inr (n'\<lparr>nd_Network := Some net'\<rparr>))))))"

subsection \<open>Strings given to minimega\<close>

text \<open>\<^verbatim>\<open>strconv.ParseInt(s, 8, 64)\<close> on a string of at most four bytes.\<close>

definition parse_octal :: "string \<Rightarrow> int option" where
  "parse_octal s =
     (let sign = (if prefix ''-'' s then -1 else 1);
          ds = (if prefix ''-'' s \<or> prefix ''+'' s then tl s else s)
      in if ds = [] \<or> list_ex (\<lambda>c. code_of c < 48 \<or> 55 < code_of c) ds then None
         else Some (sign * foldl (\<lambda>v c. 8 * v + (int (code_of c) - 48)) 0 ds))"

definition inject_string :: "string \<Rightarrow> Injection \<Rightarrow> string" where
  "inject_string baseDir j =
     (let q = CHR 0x22; src = (if prefix ''/'' (inj_Src j) then inj_Src j
                               else baseDir @ ''/'' @ inj_Src j)
      in [q] @ src @ [q, CHR '':'', q] @ inj_Dst j @ [q])"

text \<open>The path and mode of the \<^verbatim>\<open>os.Chmod\<close> call, when one is made.\<close>

definition inject_chmod :: "Injection \<Rightarrow> (string \<times> 32 word) option" where
  "inject_chmod j =
     (if inj_Permissions j \<noteq> [] \<and> length (inj_Permissions j) \<le> 4
      then map_option (\<lambda>p. (inj_Src j, word_of_int p)) (parse_octal (inj_Permissions j))
      else None)"

text \<open>The string returned and the calls of \<^verbatim>\<open>os.Chmod\<close>, in order.\<close>

definition FileInjects :: "string \<Rightarrow> Node \<Rightarrow> (string \<times> (string \<times> 32 word) list) go" where
  "FileInjects baseDir n =
     bindR (mapR deref (nd_Injections n)) (\<lambda>js.
       Inr (join_with '' '' (map (inject_string baseDir) js), List.map_filter inject_chmod js))"

definition FileDeletions :: "Node \<Rightarrow> string go" where
  "FileDeletions n =
     bindR (mapR deref (nd_Deletions n)) (\<lambda>ds.
       Inr (join_with '','' (map (\<lambda>d. [CHR 0x22] @ del_Path d @ [CHR 0x22]) ds)))"

definition drive_config :: "string \<Rightarrow> bool \<Rightarrow> Drive \<Rightarrow> string" where
  "drive_config snapshot first d =
     join_with '',''
       ([if first \<and> snapshot \<noteq> [] then snapshot else dr_Image d]
        @ (if dr_Iface d \<noteq> [] then [dr_Iface d] else [])
        @ (if dr_CacheMode d = [] then (if snapshot \<noteq> [] then [''writeback''] else [])
           else [dr_CacheMode d]))"

definition DiskConfig :: "string \<Rightarrow> Hardware \<Rightarrow> string go" where
  "DiskConfig snapshot h =
     bindR (mapR deref (hw_Drives h)) (\<lambda>ds.
       Inr (join_with '' '' (map (\<lambda>(k, d). drive_config snapshot (k = 0) d) (enumerate 0 ds))))"

subsection \<open>Injections and deletions form a map\<close>

text \<open>A list of pointers as a map from a key of the elements: the first element with the key.\<close>

definition keyed :: "('a \<Rightarrow> 'k) \<Rightarrow> 'a option list \<Rightarrow> 'k \<Rightarrow> 'a option" where
  "keyed key xs = map_of (map (\<lambda>x. (key (the x), the x)) xs)"

definition keys_ok :: "('a \<Rightarrow> 'k) \<Rightarrow> 'a option list \<Rightarrow> bool" where
  "keys_ok key xs \<longleftrightarrow> None \<notin> set xs \<and> distinct (map (\<lambda>x. key (the x)) xs)"

lemma keyed_simps [simp]:
  "keyed key [] = Map.empty" "keyed key (Some y # xs) = (keyed key xs)(key y \<mapsto> y)"
  by (simp_all add: keyed_def)

lemma keyed_dom: "dom (keyed key xs) = (\<lambda>x. key (the x)) ` set xs"
  by (auto simp: keyed_def dom_map_of_conv_image_fst image_image)

lemma update_first_map:
  assumes "keys_ok key xs" and "\<And>x. key (f x) = key x"
  shows "case keyed key xs k of
      None \<Rightarrow> update_first (\<lambda>x. key x = k) f xs = Inr None
    | Some x \<Rightarrow> \<exists>ys. update_first (\<lambda>x. key x = k) f xs = Inr (Some ys) \<and> None \<notin> set ys
        \<and> map (\<lambda>x. key (the x)) ys = map (\<lambda>x. key (the x)) xs
        \<and> keyed key ys = (keyed key xs)(k \<mapsto> f x)"
  using assms(1)
proof (induction xs)
  case (Cons a xs)
  then obtain y where [simp]: "a = Some y" by (cases a) (auto simp: keys_ok_def)
  have ok: "keys_ok key xs" and fresh: "keyed key xs (key y) = None"
    using Cons.prems keyed_dom[of key xs] by (auto simp: keys_ok_def)
  show ?case
    using Cons.IH[OF ok] fresh Cons.prems
    by (cases "key y = k"; cases "keyed key xs k")
       (auto simp: keys_ok_def assms(2) fun_upd_twist)
qed simp

lemma upsert_map:
  assumes "keys_ok key xs" and "\<And>x. key (f x) = key x" and "key new = k"
  shows "\<exists>ys. upsert (\<lambda>x. key x = k) f new xs = Inr ys \<and> keys_ok key ys
    \<and> keyed key ys = (keyed key xs)(k \<mapsto> (case keyed key xs k of None \<Rightarrow> new | Some x \<Rightarrow> f x))"
proof (cases "keyed key xs k")
  case None
  then have "k \<notin> (\<lambda>x. key (the x)) ` set xs" using keyed_dom[of key xs] by auto
  moreover have "keyed key (xs @ [Some new]) = (keyed key xs)(k \<mapsto> new)"
    using None assms(3) by (auto simp: keyed_def map_add_def fun_eq_iff split: option.splits)
  ultimately show ?thesis
    using None update_first_map[OF assms(1,2), of k] assms
    by (auto simp: upsert_def keys_ok_def)
next
  case (Some x)
  then show ?thesis
    using update_first_map[OF assms(1,2), of k] assms(1) by (fastforce simp: upsert_def keys_ok_def)
qed

text \<open>
  The injections of a node are a map from the destination: adding an injection replaces
  the one with the same destination or appends a new one, leaves every other one alone, and
  never makes two with one destination; with the label \<^verbatim>\<open>disable-injects\<close> it does nothing.
\<close>

theorem add_inject_map:
  assumes "keys_ok inj_Dst (nd_Injections n)"
  shows "\<exists>js. AddInject src dst perms desc n = Inr (n\<lparr>nd_Injections := js\<rparr>)
    \<and> keys_ok inj_Dst js
    \<and> keyed inj_Dst js =
        (if map_get (nd_Labels n) ''disable-injects'' = None
         then (keyed inj_Dst (nd_Injections n))(dst \<mapsto>
           \<lparr>inj_Src = src, inj_Dst = dst, inj_Description = desc, inj_Permissions = perms\<rparr>)
         else keyed inj_Dst (nd_Injections n))"
proof (cases "map_get (nd_Labels n) ''disable-injects''")
  case None
  let ?f = "\<lambda>j :: Injection. j\<lparr>inj_Src := src, inj_Permissions := perms, inj_Description := desc\<rparr>"
  let ?new = "\<lparr>inj_Src = src, inj_Dst = dst, inj_Description = desc, inj_Permissions = perms\<rparr>"
  have same: "?f j = ?new" if "keyed inj_Dst (nd_Injections n) dst = Some j" for j :: Injection
  proof -
    have "inj_Dst j = dst" using that by (auto simp: keyed_def dest!: map_of_SomeD)
    then show ?thesis by (cases j) simp
  qed
  obtain js where "upsert (\<lambda>j. inj_Dst j = dst) ?f ?new (nd_Injections n) = Inr js"
    "keys_ok inj_Dst js"
    "keyed inj_Dst js = (keyed inj_Dst (nd_Injections n))(dst \<mapsto>
      (case keyed inj_Dst (nd_Injections n) dst of None \<Rightarrow> ?new | Some j \<Rightarrow> ?f j))"
    using upsert_map[OF assms, of ?f ?new dst] by auto
  then show ?thesis using None same by (auto simp: AddInject_def split: option.splits)
qed (use assms in \<open>auto simp: AddInject_def intro!: exI[of _ "nd_Injections n"]\<close>)

theorem add_inject_map_witness:
  "\<exists>js. AddInject ''b'' ''/etc/x'' [] [] (empty_node\<lparr>nd_Injections := [Some \<lparr>inj_Src = ''a'',
        inj_Dst = ''/etc/x'', inj_Description = [], inj_Permissions = []\<rparr>]\<rparr>)
      = Inr (empty_node\<lparr>nd_Injections := js\<rparr>)
    \<and> keyed inj_Dst js = [''/etc/x'' \<mapsto>
        \<lparr>inj_Src = ''b'', inj_Dst = ''/etc/x'', inj_Description = [], inj_Permissions = []\<rparr>]"
  using add_inject_map[of "empty_node\<lparr>nd_Injections := [Some \<lparr>inj_Src = ''a'',
        inj_Dst = ''/etc/x'', inj_Description = [], inj_Permissions = []\<rparr>]\<rparr>" "''b''" "''/etc/x''" "[]" "[]"]
  by (auto simp: keys_ok_def empty_node_def)

lemma add_deletion_map:
  assumes "keys_ok del_Path (nd_Deletions n)"
    and "map_get (nd_Labels n) ''disable-injects'' = None"
  shows "\<exists>ds. AddDeletion path desc n = Inr (n\<lparr>nd_Deletions := ds\<rparr>) \<and> keys_ok del_Path ds
    \<and> keyed del_Path ds =
        (keyed del_Path (nd_Deletions n))(path \<mapsto> \<lparr>del_Path = path, del_Description = desc\<rparr>)"
proof -
  let ?f = "\<lambda>d :: Deletion. d\<lparr>del_Description := desc\<rparr>"
  let ?new = "\<lparr>del_Path = path, del_Description = desc\<rparr>"
  have same: "?f d = ?new" if "keyed del_Path (nd_Deletions n) path = Some d" for d :: Deletion
  proof -
    have "del_Path d = path" using that by (auto simp: keyed_def dest!: map_of_SomeD)
    then show ?thesis by (cases d) simp
  qed
  show ?thesis
    using upsert_map[OF assms(1), of ?f ?new path] assms(2) same
    by (fastforce simp: AddDeletion_def split: option.splits)
qed

subsection \<open>Delays\<close>

text \<open>A C2 delay replaces the whole delay of a node: an earlier timer, user or C2 delay is lost.\<close>

lemma add_c2_delay_forgets:
  "Delayed (AddC2Delay h u n) = ''cc:'' @ h"
  "AddC2Delay h u (AddC2Delay h' u' n) = AddC2Delay h u n"
  by (simp_all add: Delayed_def AddC2Delay_def empty_delay_def)

lemma add_timer_delay:
  "AddTimerDelay d n =
     (case nd_Delay n of None \<Rightarrow> Inl NilDeref
      | Some x \<Rightarrow> Inr (n\<lparr>nd_Delay := Some (x\<lparr>dl_Timer := d\<rparr>)\<rparr>))"
  by (simp add: AddTimerDelay_def split: option.splits)

subsection \<open>Reserved hostnames\<close>

lemma isDigits_iff: "isDigits s \<longleftrightarrow> s \<noteq> [] \<and> list_all is_digit s"
proof -
  have "trim_digits s = [] \<longleftrightarrow> list_all is_digit (dropWhile is_digit s)"
    by (auto simp: trim_digits_def dropWhile_eq_Nil_conv list_all_iff)
  also have "\<dots> \<longleftrightarrow> list_all is_digit s"
    by (metis append_Nil2 dropWhile_append3 list_all_append list_all_iff set_takeWhileD takeWhile_dropWhile_id)
  finally show ?thesis by (simp add: isDigits_def)
qed

text \<open>
  A hostname is refused exactly when it is \<^verbatim>\<open>all\<close>, a number, or for a Windows node
  \<^verbatim>\<open>phenix\<close> in any case.
\<close>

theorem hostname_refused_iff:
  "(\<exists>e. CheckHostname u h os = Inl e) \<longleftrightarrow>
     h = ''all'' \<or> (h \<noteq> [] \<and> list_all is_digit h)
     \<or> equal_fold u h ''phenix'' \<and> equal_fold u os ''windows''"
proof -
  have "length (runes h) = 3" if "equal_fold u h ''all''"
    using that by (auto simp: equal_fold_def runes_def dest: arg_cong[of _ _ length])
  moreover have "length (runes h) = 6" if "equal_fold u h ''phenix''"
    using that by (auto simp: equal_fold_def runes_def dest: arg_cong[of _ _ length])
  ultimately have "\<not> (equal_fold u h ''all'' \<and> equal_fold u h ''phenix'')" by auto
  then show ?thesis
    by (auto simp: CheckHostname_def checkHostnameKeywords_def minimegaWildcardVM_def
        phenixHostname_def isDigits_iff)
qed

subsection \<open>Validation\<close>

text \<open>The interfaces of a list that are not nil.\<close>

definition live :: "Interface option list \<Rightarrow> Interface list" where
  "live is = map the (filter (\<lambda>i. i \<noteq> None) is)"

definition iface_names :: "Interface list \<Rightarrow> string list" where
  "iface_names is = filter (\<lambda>s. s \<noteq> []) (map if_Name is)"

definition gateways_of :: "Interface list \<Rightarrow> Interface list" where
  "gateways_of is = filter (\<lambda>i. if_Gateway i \<noteq> []) is"

definition static_proto :: "unicase \<Rightarrow> Interface \<Rightarrow> bool" where
  "static_proto u i \<longleftrightarrow> to_lower u (if_Proto i) \<noteq> ''dhcp'' \<and> to_lower u (if_Proto i) \<noteq> ''manual''"

lemma live_simps [simp]: "live [] = []" "live (None # is) = live is" "live (Some i # is) = i # live is"
  by (simp_all add: live_def)

lemma iface_lists_simps [simp]:
  "iface_names [] = []" "gateways_of [] = []"
  "iface_names (i # is) = (if if_Name i = [] then iface_names is else if_Name i # iface_names is)"
  "gateways_of (i # is) = (if if_Gateway i = [] then gateways_of is else i # gateways_of is)"
  by (simp_all add: iface_names_def gateways_of_def)

lemma check_interfaces_iff:
  "g \<le> 1 \<Longrightarrow> check_interfaces u seen g is = None \<longleftrightarrow>
     distinct (iface_names (live is)) \<and> set (iface_names (live is)) \<inter> set seen = {}
     \<and> (\<forall>i \<in> set (gateways_of (live is)). static_proto u i)
     \<and> g + length (gateways_of (live is)) \<le> 1"
proof (induction u seen g "is" rule: check_interfaces.induct)
  case (3 u seen g i "is")
  then show ?case by (cases "if_Gateway i = []") (auto simp: static_proto_def Let_def)
qed auto

text \<open>
  An internal node passes validation exactly when its hostname is allowed, no two of its
  interfaces share a name, at most one interface has a gateway, and that one has a protocol
  that uses it; an external node passes exactly when it does not say \<^verbatim>\<open>external: false\<close>.
\<close>

theorem validate_iff:
  assumes "nd_General n = Some g"
  shows "(\<exists>w. validate u n = Inr (w, None)) \<longleftrightarrow>
    (case nd_External n of
       Some b \<Rightarrow> b
     | None \<Rightarrow>
         (\<exists>w. CheckHostname u (gen_Hostname g) (OSType (nd_Hardware n)) = Inr w)
         \<and> (case nd_Network n of
              None \<Rightarrow> True
            | Some net \<Rightarrow>
                distinct (iface_names (live (net_Interfaces net)))
                \<and> length (gateways_of (live (net_Interfaces net))) \<le> 1
                \<and> (\<forall>i \<in> set (gateways_of (live (net_Interfaces net))). static_proto u i)))"
  using assms
  by (auto simp: validate_def CheckHostname_def OSType_def Let_def check_interfaces_iff
      split: option.splits sum.splits)

theorem validate_iff_witness:
  "\<not> (\<exists>w. validate \<lparr>u_lower = id, u_fold = id\<rparr> (empty_node\<lparr>nd_General := Some (empty_general\<lparr>gen_Hostname := ''plc''\<rparr>),
       nd_Network := Some (empty_network\<lparr>net_Interfaces :=
         [Some (empty_interface\<lparr>if_Name := ''eth0'', if_Gateway := ''10.0.0.1''\<rparr>), None,
          Some (empty_interface\<lparr>if_Name := ''eth1'', if_Gateway := ''10.0.1.1''\<rparr>)]\<rparr>)\<rparr>) = Inr (w, None))"
  using validate_iff[of "empty_node\<lparr>nd_General := Some (empty_general\<lparr>gen_Hostname := ''plc''\<rparr>),
       nd_Network := Some (empty_network\<lparr>net_Interfaces :=
         [Some (empty_interface\<lparr>if_Name := ''eth0'', if_Gateway := ''10.0.0.1''\<rparr>), None,
          Some (empty_interface\<lparr>if_Name := ''eth1'', if_Gateway := ''10.0.1.1''\<rparr>)]\<rparr>)\<rparr>"
      "empty_general\<lparr>gen_Hostname := ''plc''\<rparr>" "\<lparr>u_lower = id, u_fold = id\<rparr>"]
  by (simp add: empty_node_def empty_network_def empty_interface_def)

subsection \<open>Defaults\<close>

text \<open>
  A node the code can handle without a panic: it has a \<^verbatim>\<open>general\<close> part, an internal node
  has a \<^verbatim>\<open>hardware\<close> part, and no interface is nil.
\<close>

definition node_ok :: "Node \<Rightarrow> bool" where
  "node_ok n \<longleftrightarrow>
     nd_General n \<noteq> None
     \<and> (\<not> External n \<longrightarrow> nd_Hardware n \<noteq> None)
     \<and> (\<forall>net. nd_Network n = Some net \<longrightarrow> None \<notin> set (net_Interfaces net))"

text \<open>What \<^verbatim>\<open>setDefaults\<close> makes of such a node.\<close>

definition with_defaults :: "string \<Rightarrow> Node \<Rightarrow> Node" where
  "with_defaults bridge n =
     (if External n then n
      else n\<lparr>nd_General := map_option general_defaults (nd_General n),
             nd_Hardware := map_option hardware_defaults (nd_Hardware n),
             nd_Advanced := map_made (nd_Advanced n), nd_Overrides := map_made (nd_Overrides n),
             nd_Network := map_option (\<lambda>net.
               net\<lparr>net_Interfaces := map (map_option (bridge_default bridge)) (net_Interfaces net)\<rparr>)
               (nd_Network n)\<rparr>)"

lemma setDefaults_total: "node_ok n \<Longrightarrow> setDefaults b n = Inr (with_defaults b n)"
  by (auto simp: node_ok_def setDefaults_def with_defaults_def network_defaults_total Let_def
      split: option.splits)

lemma general_defaults_idem [simp]: "general_defaults (general_defaults g) = general_defaults g"
  by (simp add: general_defaults_def split: option.splits)

lemma hardware_defaults_idem [simp]: "hardware_defaults (hardware_defaults h) = hardware_defaults h"
  by (simp add: hardware_defaults_def)

lemma with_defaults_idem [simp]: "with_defaults b (with_defaults b n) = with_defaults b n"
  by (auto simp: with_defaults_def External_def option.map_comp o_def intro!: option.map_cong)

lemma with_defaults_ok [simp]: "node_ok (with_defaults b n) = node_ok n"
  by (auto simp: node_ok_def with_defaults_def External_def)

lemma with_defaults_hostname [simp]: "Hostname (nd_General (with_defaults b n)) = Hostname (nd_General n)"
  by (auto simp: with_defaults_def Hostname_def general_defaults_def split: option.splits)

lemma with_defaults_external [simp]: "External (with_defaults b n) = External n"
  by (simp add: with_defaults_def External_def)

text \<open>An internal node with its defaults has a machine type, at least some CPU and memory.\<close>

lemma with_defaults_filled:
  assumes "node_ok n" and "\<not> External n"
  shows "VMType (nd_General (with_defaults b n)) \<noteq> []"
    and "gen_Snapshot (the (nd_General (with_defaults b n))) \<noteq> None"
    and "gen_DoNotBoot (the (nd_General (with_defaults b n))) \<noteq> None"
    and "VCPU (nd_Hardware (with_defaults b n)) \<noteq> 0"
    and "Memory (nd_Hardware (with_defaults b n)) \<noteq> 0"
    and "OSType (nd_Hardware (with_defaults b n)) \<noteq> []"
  using assms
  by (auto simp: node_ok_def with_defaults_def VMType_def VCPU_def Memory_def OSType_def
      general_defaults_def hardware_defaults_def split: option.splits)

subsection \<open>Disks\<close>

text \<open>
  A snapshot replaces the first disk only: the disk string has one part per drive, in
  order, the first naming the snapshot and every other its own image.
\<close>

theorem disk_config_parts:
  assumes "hw_Drives h = map Some ds" and "ds \<noteq> []"
    and "\<forall>d \<in> set ds. CHR '' '' \<notin> set (dr_Image d @ dr_Iface d @ dr_CacheMode d)
        \<and> CHR '','' \<notin> set (dr_Image d)"
    and "snapshot \<noteq> []" and "CHR '' '' \<notin> set snapshot" and "CHR '','' \<notin> set snapshot"
  shows "\<exists>s. DiskConfig snapshot h = Inr s
    \<and> map (\<lambda>p. hd (split_on CHR '','' p)) (split_on CHR '' '' s) = snapshot # map dr_Image (tl ds)"
proof -
  let ?c = "\<lambda>(k, d). drive_config snapshot (k = 0) d"
  have drives: "mapR deref (hw_Drives h) = Inr ds"
    using assms(1) by simp
  have nosp: "CHR '' '' \<notin> set (drive_config snapshot b d)" if "d \<in> set ds" for b d
    using that assms(3,5) by (auto simp: drive_config_def)
  have head: "hd (split_on CHR '','' (drive_config snapshot b d)) = (if b then snapshot else dr_Image d)"
    if "d \<in> set ds" for b d
    using that assms(3,4,6) by (auto simp: drive_config_def split_on_append split_on_free)
  have sp: "split_on CHR '' '' (join_with '' '' (map ?c (enumerate 0 ds))) = map ?c (enumerate 0 ds)"
    using assms(2) nosp by (intro split_join) (auto simp: enumerate_eq_zip dest: set_zip_rightD)
  have rest: "map (\<lambda>p. hd (split_on CHR '','' p)) (map ?c (enumerate (Suc k) es)) = map dr_Image es"
    if "set es \<subseteq> set ds" for k es
    using that by (induction es arbitrary: k) (simp_all add: head)
  obtain d ds' where ds: "ds = d # ds'" using assms(2) by (cases ds) auto
  then have "map (\<lambda>p. hd (split_on CHR '','' p)) (map ?c (enumerate 0 ds)) = snapshot # map dr_Image (tl ds)"
    using head[of d True] rest[of ds' 0] by auto
  then show ?thesis using drives sp by (simp add: DiskConfig_def)
qed

theorem disk_config_parts_witness:
  "\<exists>s. DiskConfig ''snap'' (empty_hardware\<lparr>hw_Drives := map Some
        [\<lparr>dr_Image = ''a.qc2'', dr_Iface = ''ide'', dr_CacheMode = [], dr_InjectPartition = None\<rparr>,
         \<lparr>dr_Image = ''b.qc2'', dr_Iface = [], dr_CacheMode = ''none'', dr_InjectPartition = None\<rparr>]\<rparr>) = Inr s
    \<and> map (\<lambda>p. hd (split_on CHR '','' p)) (split_on CHR '' '' s) = [''snap'', ''b.qc2'']"
  using disk_config_parts[of "empty_hardware\<lparr>hw_Drives := map Some
        [\<lparr>dr_Image = ''a.qc2'', dr_Iface = ''ide'', dr_CacheMode = [], dr_InjectPartition = None\<rparr>,
         \<lparr>dr_Image = ''b.qc2'', dr_Iface = [], dr_CacheMode = ''none'', dr_InjectPartition = None\<rparr>]\<rparr>"
      "[\<lparr>dr_Image = ''a.qc2'', dr_Iface = ''ide'', dr_CacheMode = [], dr_InjectPartition = None\<rparr>,
         \<lparr>dr_Image = ''b.qc2'', dr_Iface = [], dr_CacheMode = ''none'', dr_InjectPartition = None\<rparr>]"
      "''snap''"]
  by (simp add: empty_hardware_def)

end
