(* ===== verification/Topology.thy ===== *)
theory Topology
  imports Topo_Node
begin

section \<open>Topologies\<close>

text \<open>
  \<^verbatim>\<open>TopologySpec\<close> of \<^verbatim>\<open>types/version/v1/topology.go\<close>: the queries over its nodes, adding and
  removing a node, and \<^verbatim>\<open>Init\<close>, which reports duplicate hostnames and invalid nodes and
  fills in the defaults. A receiver that may be nil is an option. A topology that passes
  \<^verbatim>\<open>Init\<close> is a map from hostnames to nodes, which the queries read and the updates change.
\<close>

record TopologySpec =
  ts_IncludeTopologies :: "string list"
  ts_Nodes :: "Node option list"

datatype topo_err = DuplicateHostname string | ValidatingNode string node_err

definition node_hostname :: "Node option \<Rightarrow> string go" where
  "node_hostname n = bindR (deref n) (\<lambda>n. bindR (deref (nd_General n)) (\<lambda>g. Inr (gen_Hostname g)))"

definition IncludedTopologies :: "TopologySpec option \<Rightarrow> string list" where
  "IncludedTopologies t = (case t of None \<Rightarrow> [] | Some t \<Rightarrow> ts_IncludeTopologies t)"

definition Nodes :: "TopologySpec option \<Rightarrow> Node option list" where
  "Nodes t = (case t of None \<Rightarrow> [] | Some t \<Rightarrow> ts_Nodes t)"

definition BootableNodes :: "TopologySpec option \<Rightarrow> Node option list go" where
  "BootableNodes t =
     filterR (\<lambda>n. bindR (deref n) (\<lambda>n. bindR (deref (nd_General n)) (\<lambda>g.
       Inr (\<not> (case gen_DoNotBoot g of None \<Rightarrow> False | Some dnb \<Rightarrow> dnb))))) (Nodes t)"

definition SchedulableNodes :: "string \<Rightarrow> TopologySpec option \<Rightarrow> Node option list go" where
  "SchedulableNodes platform t =
     filterR (\<lambda>n. bindR (deref n) (\<lambda>n. Inr (\<not> External n))) (Nodes t)"

definition FindNodeByName :: "string \<Rightarrow> TopologySpec \<Rightarrow> Node option go" where
  "FindNodeByName name t =
     bindR (findR (\<lambda>n. bindR (node_hostname n) (\<lambda>h. Inr (h = name))) (ts_Nodes t)) (\<lambda>idx.
       Inr (case idx of None \<Rightarrow> None | Some k \<Rightarrow> ts_Nodes t ! k))"

definition FindNodesWithLabels :: "string list \<Rightarrow> TopologySpec \<Rightarrow> Node option list go" where
  "FindNodesWithLabels labels t =
     filterR (\<lambda>n. existsR (\<lambda>l. bindR (deref n) (\<lambda>n. Inr (map_get (nd_Labels n) l \<noteq> None))) labels)
       (ts_Nodes t)"

definition FindDelayedNodes :: "TopologySpec \<Rightarrow> Node option list go" where
  "FindDelayedNodes t = filterR (\<lambda>n. bindR (deref n) (\<lambda>n. Inr (Delayed n \<noteq> []))) (ts_Nodes t)"

definition FindNodesWithVLAN :: "string \<Rightarrow> TopologySpec \<Rightarrow> Node option list go" where
  "FindNodesWithVLAN vlan t =
     filterR (\<lambda>n. bindR (deref n) (\<lambda>n. bindR (deref (nd_Network n)) (\<lambda>net.
       existsR (\<lambda>i. bindR (deref i) (\<lambda>i. Inr (if_VLAN i = vlan))) (net_Interfaces net)))) (ts_Nodes t)"

definition AddNode :: "string \<Rightarrow> string \<Rightarrow> TopologySpec \<Rightarrow> TopologySpec" where
  "AddNode typ hostname t =
     t\<lparr>ts_Nodes := ts_Nodes t
        @ [Some (empty_node\<lparr>nd_Type := typ, nd_General := Some (empty_general\<lparr>gen_Hostname := hostname\<rparr>)\<rparr>)]\<rparr>"

definition RemoveNode :: "string \<Rightarrow> TopologySpec \<Rightarrow> TopologySpec go" where
  "RemoveNode hostname t =
     bindR (findR (\<lambda>n. bindR (node_hostname n) (\<lambda>h. Inr (h = hostname))) (ts_Nodes t)) (\<lambda>idx.
       case idx of
         None \<Rightarrow> Inr t
       | Some k \<Rightarrow> Inr (t\<lparr>ts_Nodes := remove_nth k (ts_Nodes t)\<rparr>))"

definition HasCommands :: "TopologySpec \<Rightarrow> bool go" where
  "HasCommands t = existsR (\<lambda>n. bindR (deref n) (\<lambda>n. Inr (nd_Commands n \<noteq> []))) (ts_Nodes t)"

text \<open>
  The loop of \<^verbatim>\<open>Init\<close>: the nodes with their defaults, the warnings logged (with the hostname)
  and the errors, in order. \<open>seen\<close> are the keys of the map of lowercased hostnames.
\<close>

fun init_nodes ::
  "unicase \<Rightarrow> string \<Rightarrow> string list \<Rightarrow> Node option list \<Rightarrow>
   (Node option list \<times> (string \<times> hostname_warning) list \<times> topo_err list) go" where
  "init_nodes u bridge seen [] = Inr ([], [], [])"
| "init_nodes u bridge seen (p # ps) =
     bindR (deref p) (\<lambda>n. bindR (deref (nd_General n)) (\<lambda>g.
       let hostname = gen_Hostname g;
           hostnameLower = to_lower u hostname;
           dup = hostnameLower \<in> set seen
       in bindR (validate u n) (\<lambda>(warning, err).
          bindR (setDefaults bridge n) (\<lambda>n'.
          bindR (init_nodes u bridge (if dup then seen else hostnameLower # seen) ps) (\<lambda>(ps', log, errs).
            Inr (Some n' # ps',
                 (case warning of None \<Rightarrow> [] | Some w \<Rightarrow> [(hostname, w)]) @ log,
                 (if dup then [DuplicateHostname hostname] else [])
                 @ (case err of None \<Rightarrow> [] | Some e \<Rightarrow> [ValidatingNode hostname e]) @ errs))))))"

definition TopologySpec_Init ::
  "unicase \<Rightarrow> string \<Rightarrow> TopologySpec \<Rightarrow>
   (TopologySpec \<times> (string \<times> hostname_warning) list \<times> topo_err list) go" where
  "TopologySpec_Init u bridge t =
     bindR (init_nodes u bridge [] (ts_Nodes t)) (\<lambda>(ns, log, errs).
       Inr (t\<lparr>ts_Nodes := ns\<rparr>, log, errs))"

subsection \<open>Well-formed topologies\<close>

definition topo_ok :: "TopologySpec \<Rightarrow> bool" where
  "topo_ok t \<longleftrightarrow> (\<forall>p \<in> set (ts_Nodes t). \<exists>n. p = Some n \<and> node_ok n)"

text \<open>The nodes and the hostnames of a topology without nil pointers.\<close>

abbreviation host :: "Node option \<Rightarrow> string" where
  "host p \<equiv> Hostname (nd_General (the p))"

definition hosts :: "TopologySpec \<Rightarrow> string list" where
  "hosts t = map host (ts_Nodes t)"

lemma node_hostname_ok: "topo_ok t \<Longrightarrow> p \<in> set (ts_Nodes t) \<Longrightarrow> node_hostname p = Inr (host p)"
  by (auto simp: topo_ok_def node_ok_def node_hostname_def Hostname_def)

lemma takeWhile_neq_length: "(\<exists>x \<in> set xs. q x) \<Longrightarrow> length (takeWhile (\<lambda>x. \<not> q x) xs) < length xs"
  by (induction xs) auto

lemma findR_pure:
  "(\<And>x. x \<in> set xs \<Longrightarrow> p x = Inr (q x)) \<Longrightarrow>
   findR p xs = Inr (if \<exists>x \<in> set xs. q x then Some (length (takeWhile (\<lambda>x. \<not> q x) xs)) else None)"
  by (induction xs) auto

lemma remove_nth_filter:
  "distinct (map key xs) \<Longrightarrow>
   remove_nth (length (takeWhile (\<lambda>x. key x \<noteq> k) xs)) xs = filter (\<lambda>x. key x \<noteq> k) xs"
proof (induction xs)
  case (Cons x xs)
  have "filter (\<lambda>y. key y \<noteq> key x) xs = xs" using Cons.prems by (auto simp: filter_id_conv image_iff)
  then show ?case using Cons by (auto simp: remove_nth_def)
qed (simp add: remove_nth_def)

lemma find_first_nth:
  "\<exists>x \<in> set xs. q x \<Longrightarrow> find q xs = Some (xs ! length (takeWhile (\<lambda>x. \<not> q x) xs))"
  by (induction xs) auto

lemma find_none: "\<not> (\<exists>x \<in> set xs. q x) \<Longrightarrow> find q xs = None"
  by (simp add: find_None_iff)

subsection \<open>A topology as a map from hostnames\<close>

definition node_at :: "TopologySpec \<Rightarrow> string \<Rightarrow> Node option" where
  "node_at t = keyed (\<lambda>n. Hostname (nd_General n)) (ts_Nodes t)"

lemma node_at_find:
  assumes "topo_ok t"
  shows "node_at t h = (case find (\<lambda>p. host p = h) (ts_Nodes t) of None \<Rightarrow> None | Some p \<Rightarrow> p)"
proof -
  have "keyed (\<lambda>n. Hostname (nd_General n)) ps h
      = (case find (\<lambda>p. host p = h) ps of None \<Rightarrow> None | Some p \<Rightarrow> p)"
    if "\<forall>p \<in> set ps. p \<noteq> None" for ps
    using that by (induction ps) auto
  then show ?thesis using assms by (force simp: node_at_def topo_ok_def)
qed

lemma host_search:
  assumes "topo_ok t"
  shows "findR (\<lambda>n. bindR (node_hostname n) (\<lambda>h. Inr (h = name))) (ts_Nodes t) =
    Inr (if name \<in> set (hosts t) then Some (length (takeWhile (\<lambda>p. host p \<noteq> name) (ts_Nodes t))) else None)"
  using findR_pure[of "ts_Nodes t" "\<lambda>n. bindR (node_hostname n) (\<lambda>h. Inr (h = name))" "\<lambda>p. host p = name"]
    node_hostname_ok[OF assms] by (auto simp: hosts_def)

lemma find_node_by_name:
  assumes "topo_ok t"
  shows "FindNodeByName h t = Inr (node_at t h)"
proof (cases "\<exists>p \<in> set (ts_Nodes t). host p = h")
  case True
  moreover from True have "h \<in> set (hosts t)" by (auto simp: hosts_def)
  ultimately show ?thesis
    by (simp add: FindNodeByName_def host_search[OF assms] node_at_find[OF assms] find_first_nth)
next
  case False
  moreover from False have "h \<notin> set (hosts t)" by (auto simp: hosts_def)
  ultimately show ?thesis
    by (simp add: FindNodeByName_def host_search[OF assms] node_at_find[OF assms] find_none)
qed

lemma remove_node:
  "topo_ok t \<Longrightarrow> distinct (hosts t) \<Longrightarrow>
   RemoveNode h t = Inr (t\<lparr>ts_Nodes := filter (\<lambda>p. host p \<noteq> h) (ts_Nodes t)\<rparr>)"
  using remove_nth_filter[of host "ts_Nodes t" h]
  by (auto simp: RemoveNode_def host_search hosts_def filter_empty_conv intro!: TopologySpec.equality
      sym[OF filter_True])

lemma keyed_append_new:
  "None \<notin> set xs \<Longrightarrow> keyed key xs (key y) = None \<Longrightarrow>
   keyed key (xs @ [Some y]) = (keyed key xs)(key y \<mapsto> y)"
  by (auto simp: keyed_def map_add_def fun_eq_iff split: option.splits)

lemma keyed_filter:
  "\<forall>x \<in> set xs. \<exists>y. x = Some y \<Longrightarrow> keyed key (filter (\<lambda>x. key (the x) \<noteq> k) xs) = (keyed key xs)(k := None)"
  by (induction xs) (auto simp: fun_upd_twist)

text \<open>
  C16: a topology with distinct hostnames is a map from hostnames to nodes: finding a node reads
  the map, adding a node under a new hostname sets one entry, removing a node clears one entry
  and leaves every other node, and hostnames stay distinct.
\<close>

theorem topology_is_map:
  assumes "topo_ok t" and "distinct (hosts t)"
  shows "FindNodeByName h t = Inr (node_at t h)
    \<and> (\<exists>t'. RemoveNode h t = Inr t' \<and> node_at t' = (node_at t)(h := None) \<and> topo_ok t' \<and> distinct (hosts t'))
    \<and> (h \<in> set (hosts t) \<or>
        (\<exists>n. node_at (AddNode typ h t) = (node_at t)(h \<mapsto> n) \<and> nd_Type n = typ \<and> \<not> External n)
        \<and> distinct (hosts (AddNode typ h t)))"
proof (intro conjI)
  show "FindNodeByName h t = Inr (node_at t h)" by (rule find_node_by_name[OF assms(1)])
next
  have nn: "None \<notin> set (ts_Nodes t)" using assms(1) by (auto simp: topo_ok_def)
  let ?t' = "t\<lparr>ts_Nodes := filter (\<lambda>p. host p \<noteq> h) (ts_Nodes t)\<rparr>"
  have "node_at ?t' = (node_at t)(h := None)" 
    using keyed_filter[of "ts_Nodes t" "\<lambda>n. Hostname (nd_General n)" h] assms(1)
    by (auto simp: node_at_def topo_ok_def)
  moreover have "topo_ok ?t'" using assms(1) by (auto simp: topo_ok_def)
  moreover have "distinct (hosts ?t')" using assms(2) by (simp add: hosts_def distinct_map_filter)
  ultimately show "\<exists>t'. RemoveNode h t = Inr t' \<and> node_at t' = (node_at t)(h := None)
      \<and> topo_ok t' \<and> distinct (hosts t')"
    using remove_node[OF assms] by auto
next
  have nn: "None \<notin> set (ts_Nodes t)" using assms(1) by (auto simp: topo_ok_def)
  let ?n = "empty_node\<lparr>nd_Type := typ, nd_General := Some (empty_general\<lparr>gen_Hostname := h\<rparr>)\<rparr>"
  have host_n: "Hostname (nd_General ?n) = h" by (simp add: Hostname_def)
  show "h \<in> set (hosts t) \<or>
      (\<exists>n. node_at (AddNode typ h t) = (node_at t)(h \<mapsto> n) \<and> nd_Type n = typ \<and> \<not> External n)
      \<and> distinct (hosts (AddNode typ h t))"
  proof (cases "h \<in> set (hosts t)")
    case False
    then have "node_at t h = None"
      using keyed_dom[of "\<lambda>n. Hostname (nd_General n)" "ts_Nodes t"] by (auto simp: node_at_def hosts_def)
    then have "node_at (AddNode typ h t) = (node_at t)(h \<mapsto> ?n)"
      using keyed_append_new[OF nn, of "\<lambda>n. Hostname (nd_General n)" ?n] host_n
      by (simp add: node_at_def AddNode_def)
    moreover have "distinct (hosts (AddNode typ h t))"
      using False assms(2) host_n by (simp add: hosts_def AddNode_def)
    ultimately show ?thesis
      by (intro disjI2 conjI exI[of _ ?n]) (simp_all add: External_def empty_node_def)
  qed simp
qed

text \<open>A two-node topology, for the examples below.\<close>

definition example_node :: "string \<Rightarrow> string \<Rightarrow> Node" where
  "example_node h vlan =
     empty_node\<lparr>nd_General := Some (empty_general\<lparr>gen_Hostname := h\<rparr>), nd_Hardware := Some empty_hardware,
       nd_Network := Some (empty_network\<lparr>net_Interfaces :=
         [Some (empty_interface\<lparr>if_Name := ''eth0'', if_VLAN := vlan\<rparr>)]\<rparr>)\<rparr>"

definition example_topology :: TopologySpec where
  "example_topology =
     \<lparr>ts_IncludeTopologies = [],
      ts_Nodes = [Some (example_node ''plc'' ''ops''), Some (example_node ''hmi'' ''mgmt'')]\<rparr>"

lemma example_node_simps [simp]:
  "node_ok (example_node h v)" "Hostname (nd_General (example_node h v)) = h"
  "nd_External (example_node h v) = None"
  by (simp_all add: example_node_def node_ok_def empty_node_def empty_network_def Hostname_def)

lemma example_topology_ok [simp]: "topo_ok example_topology" "hosts example_topology = [''plc'', ''hmi'']"
  by (simp_all add: example_topology_def topo_ok_def hosts_def)

theorem topology_is_map_witness:
  "FindNodeByName ''hmi'' example_topology = Inr (Some (example_node ''hmi'' ''mgmt''))
   \<and> (\<exists>t'. RemoveNode ''hmi'' example_topology = Inr t' \<and> node_at t' ''hmi'' = None
        \<and> node_at t' ''plc'' = Some (example_node ''plc'' ''ops''))"
proof -
  have at: "node_at example_topology
      = [''plc'' \<mapsto> example_node ''plc'' ''ops'', ''hmi'' \<mapsto> example_node ''hmi'' ''mgmt'']"
    by (simp add: node_at_def example_topology_def fun_upd_twist)
  have m: "FindNodeByName ''hmi'' example_topology = Inr (node_at example_topology ''hmi'')"
    "\<exists>t'. RemoveNode ''hmi'' example_topology = Inr t'
      \<and> node_at t' = (node_at example_topology)(''hmi'' := None)"
    using topology_is_map[of example_topology "''hmi''"] by auto
  then show ?thesis by (auto simp: at)
qed

subsection \<open>Initialisation\<close>

definition node_valid :: "unicase \<Rightarrow> Node option \<Rightarrow> bool" where
  "node_valid u p \<longleftrightarrow> (\<exists>w. validate u (the p) = Inr (w, None))"

lemma validate_total: "node_ok n \<Longrightarrow> \<exists>w e. validate u n = Inr (w, e)"
  by (auto simp: node_ok_def validate_def Let_def split: option.splits sum.splits)

lemma init_nodes_total:
  assumes "\<forall>p \<in> set ps. \<exists>n. p = Some n \<and> node_ok n"
  shows "\<exists>log errs. init_nodes u b seen ps = Inr (map (map_option (with_defaults b)) ps, log, errs)
    \<and> (errs = [] \<longleftrightarrow> distinct (map (\<lambda>p. to_lower u (host p)) ps)
         \<and> set (map (\<lambda>p. to_lower u (host p)) ps) \<inter> set seen = {}
         \<and> (\<forall>p \<in> set ps. node_valid u p))"
  using assms
proof (induction ps arbitrary: seen)
  case (Cons p ps)
  then obtain n where [simp]: "p = Some n" and ok: "node_ok n" by auto
  obtain g where g: "nd_General n = Some g" using ok by (auto simp: node_ok_def)
  have host: "Hostname (nd_General n) = gen_Hostname g" by (simp add: g Hostname_def)
  obtain w e where v: "validate u n = Inr (w, e)" using validate_total[OF ok] by blast
  let ?h = "to_lower u (gen_Hostname g)"
  let ?seen = "if ?h \<in> set seen then seen else ?h # seen"
  obtain log errs where IH: "init_nodes u b ?seen ps = Inr (map (map_option (with_defaults b)) ps, log, errs)"
      "errs = [] \<longleftrightarrow> distinct (map (\<lambda>p. to_lower u (host p)) ps)
         \<and> set (map (\<lambda>p. to_lower u (host p)) ps) \<inter> set ?seen = {} \<and> (\<forall>p \<in> set ps. node_valid u p)"
    using Cons.IH[of ?seen] Cons.prems by auto
  have val: "node_valid u p \<longleftrightarrow> e = None" using v by (auto simp: node_valid_def)
  let ?errs = "(if ?h \<in> set seen then [DuplicateHostname (gen_Hostname g)] else [])
      @ (case e of None \<Rightarrow> [] | Some x \<Rightarrow> [ValidatingNode (gen_Hostname g) x]) @ errs"
  have "init_nodes u b seen (p # ps) = Inr (map (map_option (with_defaults b)) (p # ps),
      (case w of None \<Rightarrow> [] | Some x \<Rightarrow> [(gen_Hostname g, x)]) @ log, ?errs)"
    using IH(1) by (simp add: g v setDefaults_total[OF ok] Let_def)
  moreover have "?errs = [] \<longleftrightarrow> ?h \<notin> set seen \<and> e = None \<and> errs = []"
    by (auto split: option.splits)
  then have "?errs = [] \<longleftrightarrow> distinct (map (\<lambda>p. to_lower u (host p)) (p # ps))
      \<and> set (map (\<lambda>p. to_lower u (host p)) (p # ps)) \<inter> set seen = {}
      \<and> (\<forall>p \<in> set (p # ps). node_valid u p)"
    using IH(2) val host by (cases "?h \<in> set seen") auto
  ultimately show ?case by blast
qed simp

text \<open>
  C15: initialising a topology never panics on a well-formed topology. It reports no error
  exactly when the hostnames are distinct without regard to case and every node is valid, and
  gives every node its defaults either way.
\<close>

theorem topology_init:
  assumes "topo_ok t"
  shows "\<exists>log errs. TopologySpec_Init u b t
      = Inr (t\<lparr>ts_Nodes := map (map_option (with_defaults b)) (ts_Nodes t)\<rparr>, log, errs)
    \<and> (errs = [] \<longleftrightarrow> distinct (map (to_lower u) (hosts t)) \<and> (\<forall>p \<in> set (ts_Nodes t). node_valid u p))"
proof -
  have "map (\<lambda>p. to_lower u (host p)) (ts_Nodes t) = map (to_lower u) (hosts t)"
    by (simp add: hosts_def)
  then show ?thesis
    using init_nodes_total[of "ts_Nodes t" u b "[]"] assms
    by (auto simp: TopologySpec_Init_def topo_ok_def)
qed

theorem topology_init_witness:
  "\<exists>t' log errs. TopologySpec_Init \<lparr>u_lower = id, u_fold = id\<rparr> ''phenix''
       (example_topology\<lparr>ts_Nodes := [Some (example_node ''plc'' ''ops''), Some (example_node ''PLC'' ''ops'')]\<rparr>)
     = Inr (t', log, errs) \<and> errs \<noteq> []"
proof -
  let ?t = "example_topology\<lparr>ts_Nodes := [Some (example_node ''plc'' ''ops''), Some (example_node ''PLC'' ''ops'')]\<rparr>"
  have "topo_ok ?t" by (simp add: topo_ok_def)
  moreover have "\<not> distinct (map (to_lower \<lparr>u_lower = id, u_fold = id\<rparr>) (hosts ?t))"
  proof -
    have "\<not> distinct (map (to_lower \<lparr>u_lower = id, u_fold = id\<rparr>) [''plc'', ''PLC''])" by code_simp
    then show ?thesis by (simp add: hosts_def)
  qed
  ultimately show ?thesis
    using topology_init[of ?t "\<lparr>u_lower = id, u_fold = id\<rparr>" "''phenix''"] by metis
qed

lemma check_interfaces_defaults:
  "check_interfaces u seen g (map (map_option (bridge_default b)) is) = check_interfaces u seen g is"
  by (induction u seen g "is" rule: check_interfaces.induct) (auto simp: Let_def)

lemma not_windows [simp]: "\<not> equal_fold u [] ''windows''" "\<not> equal_fold u ''linux'' ''windows''"
  by (auto simp: equal_fold_def runes_def dest: arg_cong[of _ _ length])

lemma hostname_check_defaults:
  "checkHostnameKeywords u h (if os = [] then ''linux'' else os) = checkHostnameKeywords u h os"
  by (auto simp: checkHostnameKeywords_def)

lemma validate_defaults: "node_ok n \<Longrightarrow> validate u (with_defaults b n) = validate u n"
  using hostname_check_defaults[of u "gen_Hostname (the (nd_General n))" "hw_OSType (the (nd_Hardware n))"]
  by (auto simp: node_ok_def with_defaults_def validate_def External_def Let_def general_defaults_def
      hardware_defaults_def check_interfaces_defaults split: option.splits sum.splits)

text \<open>
  Initialisation is stable: initialising an initialised topology again with the same bridge
  changes no node and gives the same warnings and errors.
\<close>

theorem topology_init_stable:
  assumes "topo_ok t" and "TopologySpec_Init u b t = Inr (t', log, errs)"
  shows "TopologySpec_Init u b t' = Inr (t', log, errs)"
proof -
  have "init_nodes u b seen (map (map_option (with_defaults b)) ps) = init_nodes u b seen ps"
    if "\<forall>p \<in> set ps. \<exists>n. p = Some n \<and> node_ok n" for seen ps
    using that
  proof (induction ps arbitrary: seen)
    case (Cons p ps)
    then obtain n where [simp]: "p = Some n" and ok: "node_ok n" by auto
    obtain g g' where g: "nd_General n = Some g" "nd_General (with_defaults b n) = Some g'"
      using ok with_defaults_ok[of b n] unfolding node_ok_def by auto
    have "gen_Hostname g' = gen_Hostname g" using with_defaults_hostname[of b n] by (simp add: g Hostname_def)
    moreover obtain w e where "validate u n = Inr (w, e)" using validate_total[OF ok] by blast
    ultimately show ?case
      using Cons ok g
      by (simp add: setDefaults_total validate_defaults Let_def split: option.splits)
  qed simp
  then have same: "init_nodes u b [] (map (map_option (with_defaults b)) (ts_Nodes t)) = init_nodes u b [] (ts_Nodes t)"
    using assms(1) by (simp add: topo_ok_def)
  have "ts_Nodes t' = map (map_option (with_defaults b)) (ts_Nodes t)" "t' = t\<lparr>ts_Nodes := ts_Nodes t'\<rparr>"
    using init_nodes_total[of "ts_Nodes t" u b "[]"] assms
    by (auto simp: TopologySpec_Init_def topo_ok_def)
  moreover have "init_nodes u b [] (ts_Nodes t) = Inr (ts_Nodes t', log, errs)"
    using assms(2) by (auto simp: TopologySpec_Init_def bindR_Inr_iff)
  ultimately show ?thesis
    using same by (simp add: TopologySpec_Init_def)
qed

theorem topology_init_stable_witness:
  "\<exists>t' log errs. TopologySpec_Init \<lparr>u_lower = id, u_fold = id\<rparr> ''br1'' example_topology = Inr (t', log, errs)
    \<and> TopologySpec_Init \<lparr>u_lower = id, u_fold = id\<rparr> ''br1'' t' = Inr (t', log, errs)"
proof -
  obtain t' log errs where
    "TopologySpec_Init \<lparr>u_lower = id, u_fold = id\<rparr> ''br1'' example_topology = Inr (t', log, errs)"
    using init_nodes_total[of "ts_Nodes example_topology" "\<lparr>u_lower = id, u_fold = id\<rparr>" "''br1''" "[]"]
      example_topology_ok(1) by (fastforce simp: TopologySpec_Init_def topo_ok_def)
  then show ?thesis
    using topology_init_stable[of example_topology "\<lparr>u_lower = id, u_fold = id\<rparr>" "''br1''" t' log errs]
    by auto
qed

subsection \<open>Queries\<close>

lemma schedulable_nodes:
  "topo_ok t \<Longrightarrow> SchedulableNodes p (Some t) = Inr (filter (\<lambda>n. \<not> External (the n)) (ts_Nodes t))"
  unfolding SchedulableNodes_def Nodes_def
  by (subst filterR_total[where q = "\<lambda>n. \<not> External (the n)"]) (auto simp: topo_ok_def)

lemma nodes_with_labels:
  "topo_ok t \<Longrightarrow>
   FindNodesWithLabels ls t = Inr (filter (\<lambda>n. \<exists>l \<in> set ls. map_get (nd_Labels (the n)) l \<noteq> None) (ts_Nodes t))"
  unfolding FindNodesWithLabels_def
  by (subst filterR_total[where q = "\<lambda>n. \<exists>l \<in> set ls. map_get (nd_Labels (the n)) l \<noteq> None"])
     (auto simp: topo_ok_def existsR_total list_ex_iff)

text \<open>
  A node without a network, which validation and initialisation accept, makes the search for a
  VLAN panic when the nodes before it are fine.
\<close>

lemma vlan_search_panics:
  assumes "ts_Nodes t = Some n # ps" and "nd_Network n = None"
  shows "FindNodesWithVLAN vlan t = Inl NilDeref"
  using assms by (simp add: FindNodesWithVLAN_def)

end
