(* ===== verification/Experiment_Spec.thy ===== *)
theory Experiment_Spec
  imports Topology
begin

section \<open>Experiments\<close>

text \<open>
  \<^verbatim>\<open>types/version/v1/experiment.go\<close>: the VLAN aliases and range of an experiment, its
  initialisation, its schedule and the status of its apps. Where the code ranges over a map, the keys in the order of the range are
  an argument. \<open>base\<close> stands for \<^verbatim>\<open>common.PhenixBase\<close> and \<open>abs_path\<close> for \<^verbatim>\<open>filepath.Abs\<close>, whose
  result depends on the working directory. Of a scenario only what \<^verbatim>\<open>VerifyScenario\<close> reads is
  modelled: the apps with their hosts.
\<close>

subsection \<open>VLANs\<close>

record VLANSpec =
  vl_Aliases :: "(string, int) gomap"
  vl_Min :: int
  vl_Max :: int

datatype vlan_err =
  VlanBelowMin string int int
| VlanAboveMax string int int
| AliasExists string string
| RangeExists int int string

definition empty_vlans :: VLANSpec where
  "empty_vlans = \<lparr>vl_Aliases = None, vl_Min = 0, vl_Max = 0\<rparr>"

definition VLANSpec_Init :: "VLANSpec \<Rightarrow> VLANSpec" where
  "VLANSpec_Init v = v\<lparr>vl_Aliases := map_made (vl_Aliases v)\<rparr>"

definition VLANSpec_Aliases :: "VLANSpec \<Rightarrow> (string, int) gomap" where
  "VLANSpec_Aliases v = map_made (vl_Aliases v)"

text \<open>The loop over the aliases that \<^verbatim>\<open>Validate\<close> and \<^verbatim>\<open>SetVLANRange\<close> share.\<close>

fun check_range :: "int \<Rightarrow> int \<Rightarrow> (string \<Rightarrow> int option) \<Rightarrow> string list \<Rightarrow> vlan_err option" where
  "check_range mn mx m [] = None"
| "check_range mn mx m (k # ks) =
     (let v = the (m k)
      in if mn \<noteq> 0 \<and> v < mn then Some (VlanBelowMin k v mn)
         else if mx \<noteq> 0 \<and> v > mx then Some (VlanAboveMax k v mx)
         else check_range mn mx m ks)"

definition VLANSpec_Validate :: "string list \<Rightarrow> VLANSpec \<Rightarrow> vlan_err option" where
  "VLANSpec_Validate ks v = check_range (vl_Min v) (vl_Max v) (map_get (vl_Aliases v)) ks"

subsection \<open>The spec\<close>

record ScenarioApp =
  app_Name :: string
  app_Hosts :: "string option list"

record ScenarioSpec =
  sc_Apps :: "ScenarioApp option list"

record ExperimentSpec =
  es_ExperimentName :: string
  es_BaseDir :: string
  es_DefaultBridge :: string
  es_Topology :: "TopologySpec option"
  es_Scenario :: "ScenarioSpec option"
  es_VLANs :: "VLANSpec option"
  es_Schedules :: "(string, string) gomap"
  es_DeployMode :: string
  es_UseGREMesh :: bool

definition add_alias :: "(string, int) gomap \<Rightarrow> string \<Rightarrow> (string, int) gomap go" where
  "add_alias m vlan = (if map_get m vlan = None then map_put m vlan 0 else Inr m)"

fun add_iface_aliases :: "(string, int) gomap \<Rightarrow> Interface option list \<Rightarrow> (string, int) gomap go" where
  "add_iface_aliases m [] = Inr m"
| "add_iface_aliases m (i # is) =
     bindR (deref i) (\<lambda>i. bindR (add_alias m (if_VLAN i)) (\<lambda>m'. add_iface_aliases m' is))"

fun add_node_aliases :: "(string, int) gomap \<Rightarrow> Node option list \<Rightarrow> (string, int) gomap go" where
  "add_node_aliases m [] = Inr m"
| "add_node_aliases m (n # ns) =
     bindR (deref n) (\<lambda>n.
       case nd_Network n of
         None \<Rightarrow> add_node_aliases m ns
       | Some net \<Rightarrow> bindR (add_iface_aliases m (net_Interfaces net)) (\<lambda>m'. add_node_aliases m' ns))"

text \<open>The part of \<^verbatim>\<open>Init\<close> before the topology.\<close>

definition spec_defaults :: "string \<Rightarrow> (string \<Rightarrow> string option) \<Rightarrow> ExperimentSpec \<Rightarrow> ExperimentSpec" where
  "spec_defaults base abs_path e =
     (let dir = (if es_BaseDir e = [] then base @ ''/experiments/'' @ es_ExperimentName e else es_BaseDir e);
          dir' = (if prefix ''/'' dir then dir else case abs_path dir of None \<Rightarrow> dir | Some p \<Rightarrow> p);
          vlans = (case es_VLANs e of None \<Rightarrow> VLANSpec_Init empty_vlans | Some v \<Rightarrow> v)
      in e\<lparr>es_BaseDir := dir',
           es_DefaultBridge := (if es_DefaultBridge e = [] then ''phenix'' else es_DefaultBridge e),
           es_VLANs := Some (vlans\<lparr>vl_Aliases := map_made (vl_Aliases vlans)\<rparr>),
           es_Schedules := map_made (es_Schedules e)\<rparr>)"

text \<open>
  The spec after the call and the errors of the topology: a non-empty list is the error that
  \<^verbatim>\<open>Init\<close> returns.
\<close>

definition ExperimentSpec_Init ::
  "unicase \<Rightarrow> string \<Rightarrow> (string \<Rightarrow> string option) \<Rightarrow> ExperimentSpec \<Rightarrow> (ExperimentSpec \<times> topo_err list) go" where
  "ExperimentSpec_Init u base abs_path e =
     (let e1 = spec_defaults base abs_path e
      in (case es_Topology e1 of
            None \<Rightarrow> Inr (e1, [])
          | Some t \<Rightarrow>
              bindR (TopologySpec_Init u (es_DefaultBridge e1) t) (\<lambda>(t', log, errs).
                let e2 = e1\<lparr>es_Topology := Some t'\<rparr>
                in if errs \<noteq> [] then Inr (e2, errs)
                   else
                     bindR (deref (es_VLANs e2)) (\<lambda>v.
                     bindR (add_node_aliases (vl_Aliases v) (ts_Nodes t')) (\<lambda>m.
                       Inr (e2\<lparr>es_VLANs := Some (v\<lparr>vl_Aliases := m\<rparr>)\<rparr>, []))))))"

definition ExperimentSpec_VLANs :: "ExperimentSpec \<Rightarrow> VLANSpec" where
  "ExperimentSpec_VLANs e = (case es_VLANs e of None \<Rightarrow> empty_vlans | Some v \<Rightarrow> v)"

definition vlans_made :: "ExperimentSpec \<Rightarrow> VLANSpec" where
  "vlans_made e =
     (case es_VLANs e of None \<Rightarrow> \<lparr>vl_Aliases = Some Map.empty, vl_Min = 0, vl_Max = 0\<rparr> | Some v \<Rightarrow> v)"

definition SetVLANAlias ::
  "string \<Rightarrow> int \<Rightarrow> bool \<Rightarrow> ExperimentSpec \<Rightarrow> (ExperimentSpec \<times> vlan_err option) go" where
  "SetVLANAlias a i f e =
     (let v = vlans_made e; e1 = e\<lparr>es_VLANs := Some v\<rparr>
      in if map_get (vl_Aliases v) a \<noteq> None \<and> \<not> f then Inr (e1, Some (AliasExists a (es_ExperimentName e)))
         else if vl_Min v \<noteq> 0 \<and> i < vl_Min v then Inr (e1, Some (VlanBelowMin a i (vl_Min v)))
         else if vl_Max v \<noteq> 0 \<and> i > vl_Max v then Inr (e1, Some (VlanAboveMax a i (vl_Max v)))
         else bindR (map_put (vl_Aliases v) a i) (\<lambda>m.
                Inr (e1\<lparr>es_VLANs := Some (v\<lparr>vl_Aliases := m\<rparr>)\<rparr>, None)))"

definition SetVLANRange ::
  "string list \<Rightarrow> int \<Rightarrow> int \<Rightarrow> bool \<Rightarrow> ExperimentSpec \<Rightarrow> ExperimentSpec \<times> vlan_err option" where
  "SetVLANRange ks minVal maxVal f e =
     (let v = vlans_made e; e1 = e\<lparr>es_VLANs := Some v\<rparr>
      in if vl_Min v \<noteq> 0 \<and> vl_Max v \<noteq> 0 \<and> \<not> f
         then (e1, Some (RangeExists (vl_Min v) (vl_Max v) (es_ExperimentName e)))
         else
           (case check_range minVal maxVal (map_get (vl_Aliases v)) ks of
              Some err \<Rightarrow> (e1, Some err)
            | None \<Rightarrow> (e1\<lparr>es_VLANs := Some (v\<lparr>vl_Min := minVal, vl_Max := maxVal\<rparr>)\<rparr>, None)))"

definition ExperimentSpec_Schedules :: "ExperimentSpec \<Rightarrow> (string, string) gomap" where
  "ExperimentSpec_Schedules e = map_made (es_Schedules e)"

definition ScheduleNode :: "string \<Rightarrow> string \<Rightarrow> ExperimentSpec \<Rightarrow> ExperimentSpec go" where
  "ScheduleNode node host_name e =
     bindR (map_put (es_Schedules e) node host_name) (\<lambda>m. Inr (e\<lparr>es_Schedules := m\<rparr>))"

text \<open>The warnings: the host and the app of every host that is not in the topology.\<close>

definition VerifyScenario :: "ExperimentSpec \<Rightarrow> (string \<times> string) list go" where
  "VerifyScenario e =
     (case es_Scenario e of
        None \<Rightarrow> Inr []
      | Some sc \<Rightarrow>
          bindR (deref (es_Topology e)) (\<lambda>t.
          bindR (mapR node_hostname (ts_Nodes t)) (\<lambda>hs.
          bindR (mapR (\<lambda>app. bindR (deref app) (\<lambda>app. bindR (mapR deref (app_Hosts app)) (\<lambda>xs.
              Inr (map (\<lambda>h. (h, app_Name app)) (filter (\<lambda>h. h \<notin> set hs) xs))))) (sc_Apps sc)) (\<lambda>ws.
            Inr (concat ws)))))"

definition SnapshotName :: "string \<Rightarrow> string \<Rightarrow> ExperimentSpec \<Rightarrow> string" where
  "SnapshotName headnode node e =
     headnode @ ''_'' @ es_ExperimentName e @ ''_'' @ node @ ''_snapshot''"

subsection \<open>The status\<close>

record ExperimentStatus =
  st_StartTime :: string
  st_Schedules :: "(string, string) gomap"
  st_Apps :: "(string, any) gomap"
  st_VLANs :: "(string, int) gomap"
  st_Frequency :: "(string, string) gomap"
  st_Running :: "(string, bool) gomap"
  st_Cleanup :: "(string, bool) gomap"

definition ExperimentStatus_Init :: "ExperimentStatus \<Rightarrow> ExperimentStatus" where
  "ExperimentStatus_Init s =
     s\<lparr>st_Schedules := map_made (st_Schedules s), st_Apps := map_made (st_Apps s),
       st_VLANs := map_made (st_VLANs s)\<rparr>"

definition set_or_delete :: "('k, 'v) gomap \<Rightarrow> 'k \<Rightarrow> 'v option \<Rightarrow> ('k, 'v) gomap" where
  "set_or_delete m k v = Some ((map_get (map_made m))(k := v))"

text \<open>\<open>as_map\<close> is what the code stores for a value: a struct as a map of its fields, else the value.\<close>

definition SetAppStatus :: "(any \<Rightarrow> any) \<Rightarrow> string \<Rightarrow> any option \<Rightarrow> ExperimentStatus \<Rightarrow> ExperimentStatus" where
  "SetAppStatus as_map a status s = s\<lparr>st_Apps := set_or_delete (st_Apps s) a (map_option as_map status)\<rparr>"

definition SetAppFrequency :: "string \<Rightarrow> string \<Rightarrow> ExperimentStatus \<Rightarrow> ExperimentStatus" where
  "SetAppFrequency a f s =
     s\<lparr>st_Frequency := set_or_delete (st_Frequency s) a (if f = [] then None else Some f)\<rparr>"

definition SetAppRunning :: "string \<Rightarrow> bool \<Rightarrow> ExperimentStatus \<Rightarrow> ExperimentStatus" where
  "SetAppRunning a r s = s\<lparr>st_Running := set_or_delete (st_Running s) a (Some r)\<rparr>"

definition SetAppCleanup :: "string \<Rightarrow> bool \<Rightarrow> ExperimentStatus \<Rightarrow> ExperimentStatus" where
  "SetAppCleanup a pending s =
     s\<lparr>st_Cleanup := set_or_delete (st_Cleanup s) a (if pending then Some True else None)\<rparr>"

definition ResetAppStatus :: "ExperimentStatus \<Rightarrow> ExperimentStatus" where
  "ResetAppStatus s = s\<lparr>st_Apps := Some Map.empty, st_Frequency := None, st_Running := None\<rparr>"

subsection \<open>VLAN ids stay in the range\<close>

text \<open>A bound of 0 is no bound.\<close>

definition within :: "int \<Rightarrow> int \<Rightarrow> int \<Rightarrow> bool" where
  "within mn mx i \<longleftrightarrow> (mn = 0 \<or> mn \<le> i) \<and> (mx = 0 \<or> i \<le> mx)"

definition vlans_ok :: "VLANSpec \<Rightarrow> bool" where
  "vlans_ok v \<longleftrightarrow> (\<forall>k i. map_get (vl_Aliases v) k = Some i \<longrightarrow> within (vl_Min v) (vl_Max v) i)"

lemma check_range_iff:
  "check_range mn mx m ks = None \<longleftrightarrow> (\<forall>k \<in> set ks. within mn mx (the (m k)))"
  by (induction ks) (auto simp: within_def Let_def not_less)

lemma check_range_dom:
  assumes "set ks = dom m"
  shows "check_range mn mx m ks = None \<longleftrightarrow> (\<forall>k i. m k = Some i \<longrightarrow> within mn mx i)"
  using assms by (fastforce simp: check_range_iff dom_def)

lemma validate_vlans_ok:
  "set ks = dom (map_get (vl_Aliases v)) \<Longrightarrow> VLANSpec_Validate ks v = None \<longleftrightarrow> vlans_ok v"
  by (simp add: VLANSpec_Validate_def check_range_dom vlans_ok_def)

lemma vlans_made_simps [simp]:
  "es_VLANs e = Some v \<Longrightarrow> vlans_made e = v" "es_VLANs e = None \<Longrightarrow> vlans_ok (vlans_made e)"
  by (simp_all add: vlans_made_def vlans_ok_def)

text \<open>
  C20: the VLAN ids of an experiment stay within its range: whatever aliases and ranges are set,
  in any order, with or without force, an experiment whose ids are in range keeps them in range,
  and an attempt that fails leaves aliases and range as they were.
\<close>

theorem vlan_range_invariant:
  assumes "vlans_ok (vlans_made e)" and "vl_Aliases (vlans_made e) \<noteq> None"
    and "set ks = dom (map_get (vl_Aliases (vlans_made e)))"
  shows "(\<exists>e' err. SetVLANAlias a i f e = Inr (e', err) \<and> vlans_ok (vlans_made e')
        \<and> vl_Aliases (vlans_made e') \<noteq> None
        \<and> (err \<noteq> None \<or> map_get (vl_Aliases (vlans_made e')) a = Some i)
        \<and> (err = None \<or> vlans_made e' = vlans_made e))
    \<and> (\<exists>e' err. SetVLANRange ks mn mx f e = (e', err) \<and> vlans_ok (vlans_made e')
        \<and> vl_Aliases (vlans_made e') = vl_Aliases (vlans_made e)
        \<and> (err \<noteq> None \<or> (vl_Min (vlans_made e') = mn \<and> vl_Max (vlans_made e') = mx))
        \<and> (err = None \<or> vlans_made e' = vlans_made e))"
proof (intro conjI)
  let ?v = "vlans_made e"
  obtain m where m: "vl_Aliases ?v = Some m" using assms(2) by auto
  show "\<exists>e' err. SetVLANAlias a i f e = Inr (e', err) \<and> vlans_ok (vlans_made e')
        \<and> vl_Aliases (vlans_made e') \<noteq> None
        \<and> (err \<noteq> None \<or> map_get (vl_Aliases (vlans_made e')) a = Some i)
        \<and> (err = None \<or> vlans_made e' = vlans_made e)"
    using assms(1) m
    by (auto simp: SetVLANAlias_def Let_def vlans_ok_def within_def map_put_def not_less)
  show "\<exists>e' err. SetVLANRange ks mn mx f e = (e', err) \<and> vlans_ok (vlans_made e')
        \<and> vl_Aliases (vlans_made e') = vl_Aliases (vlans_made e)
        \<and> (err \<noteq> None \<or> (vl_Min (vlans_made e') = mn \<and> vl_Max (vlans_made e') = mx))
        \<and> (err = None \<or> vlans_made e' = vlans_made e)"
    using assms(1) check_range_dom[OF assms(3), of mn mx]
    by (auto simp: SetVLANRange_def Let_def vlans_ok_def split: option.splits)
qed

definition example_spec :: ExperimentSpec where
  "example_spec =
     \<lparr>es_ExperimentName = ''exp'', es_BaseDir = [], es_DefaultBridge = [], es_Topology = Some example_topology,
      es_Scenario = None, es_VLANs = None, es_Schedules = None, es_DeployMode = [], es_UseGREMesh = False\<rparr>"

theorem vlan_range_invariant_witness:
  "\<exists>e' err. SetVLANAlias ''ops'' 7 True (example_spec\<lparr>es_VLANs :=
        Some \<lparr>vl_Aliases = Some [''ops'' \<mapsto> 5], vl_Min = 4, vl_Max = 8\<rparr>\<rparr>) = Inr (e', err)
     \<and> vlans_ok (vlans_made e')"
proof -
  let ?e = "example_spec\<lparr>es_VLANs := Some \<lparr>vl_Aliases = Some [''ops'' \<mapsto> 5], vl_Min = 4, vl_Max = 8\<rparr>\<rparr>"
  have "vlans_ok (vlans_made ?e)" "vl_Aliases (vlans_made ?e) \<noteq> None"
    "set [''ops''] = dom (map_get (vl_Aliases (vlans_made ?e)))"
    by (simp_all add: vlans_ok_def within_def)
  then show ?thesis using vlan_range_invariant[of ?e "[''ops'']" "''ops''" 7 True] by blast
qed

subsection \<open>Initialisation\<close>

text \<open>The VLANs of the interfaces of a list of nodes.\<close>

definition iface_vlans :: "Interface option list \<Rightarrow> string set" where
  "iface_vlans is = (\<lambda>i. if_VLAN (the i)) ` set is"

definition node_vlans :: "Node option \<Rightarrow> string set" where
  "node_vlans p = (case nd_Network (the p) of None \<Rightarrow> {} | Some net \<Rightarrow> iface_vlans (net_Interfaces net))"

definition with_zero :: "string set \<Rightarrow> (string \<Rightarrow> int option) \<Rightarrow> string \<Rightarrow> int option" where
  "with_zero vs m k = (case m k of Some i \<Rightarrow> Some i | None \<Rightarrow> if k \<in> vs then Some 0 else None)"

lemma with_zero_simps [simp]:
  "with_zero {} m = m" "with_zero A (with_zero B m) = with_zero (A \<union> B) m"
  by (auto simp: with_zero_def fun_eq_iff split: option.splits)

lemma add_alias_zero: "add_alias (Some m) v = Inr (Some (with_zero {v} m))"
  by (auto simp: add_alias_def map_put_def with_zero_def fun_eq_iff split: option.splits)

lemma add_iface_aliases_zero:
  "None \<notin> set is \<Longrightarrow> add_iface_aliases (Some m) is = Inr (Some (with_zero (iface_vlans is) m))"
proof (induction "is" arbitrary: m)
  case (Cons i "is")
  then obtain x where "i = Some x" by (cases i) auto
  then show ?case using Cons by (simp add: add_alias_zero iface_vlans_def Un_commute)
qed (simp add: iface_vlans_def)

lemma add_node_aliases_zero:
  "\<forall>p \<in> set ps. \<exists>n. p = Some n \<and> node_ok n \<Longrightarrow>
   add_node_aliases (Some m) ps = Inr (Some (with_zero (\<Union>p \<in> set ps. node_vlans p) m))"
proof (induction ps arbitrary: m)
  case (Cons p ps)
  then obtain n where n: "p = Some n" "node_ok n" by auto
  then show ?case
    using Cons
    by (auto simp: node_vlans_def node_ok_def add_iface_aliases_zero Un_commute split: option.splits)
qed simp

lemma iface_vlans_defaults:
  assumes "None \<notin> set is"
  shows "iface_vlans (map (map_option (bridge_default b)) is) = iface_vlans is"
proof -
  have "if_VLAN (the (map_option (bridge_default b) i)) = if_VLAN (the i)" if "i \<in> set is" for i
    using assms that by (cases i) auto
  then show ?thesis by (simp add: iface_vlans_def image_image)
qed

lemma node_vlans_defaults: "node_ok n \<Longrightarrow> node_vlans (Some (with_defaults b n)) = node_vlans (Some n)"
  by (cases "nd_Network n") (auto simp: node_vlans_def with_defaults_def node_ok_def iface_vlans_defaults)

text \<open>
  Initialising an experiment on a well-formed topology either reports the errors of the
  topology or gives every VLAN that an interface names an alias, with id 0 (none yet) unless the
  alias is set already; aliases that are set stay, no other alias appears, and the experiment has
  a bridge and a schedule.
\<close>

theorem experiment_init_aliases:
  assumes "es_Topology e = Some t" and "topo_ok t"
  shows "\<exists>e' errs. ExperimentSpec_Init u base abs_path e = Inr (e', errs)
    \<and> es_DefaultBridge e' \<noteq> [] \<and> es_Schedules e' \<noteq> None
    \<and> (errs = [] \<or> es_VLANs e' = es_VLANs (spec_defaults base abs_path e))
    \<and> (errs \<noteq> [] \<or> map_get (VLANSpec_Aliases (ExperimentSpec_VLANs e')) =
          with_zero (\<Union>p \<in> set (ts_Nodes t). node_vlans p)
            (map_get (VLANSpec_Aliases (ExperimentSpec_VLANs e))))"
proof -
  let ?e1 = "spec_defaults base abs_path e"
  let ?b = "es_DefaultBridge ?e1"
  obtain log errs where init: "init_nodes u ?b [] (ts_Nodes t)
      = Inr (map (map_option (with_defaults ?b)) (ts_Nodes t), log, errs)"
    using init_nodes_total[of "ts_Nodes t" u ?b "[]"] assms(2) by (auto simp: topo_ok_def)
  have e1: "es_Topology ?e1 = Some t" "?b \<noteq> []" "es_Schedules ?e1 \<noteq> None"
    using assms(1) by (auto simp: spec_defaults_def Let_def map_made_def split: option.splits)
  obtain v m where v: "es_VLANs ?e1 = Some v" "vl_Aliases v = Some m"
    "m = map_get (VLANSpec_Aliases (ExperimentSpec_VLANs e))"
    by (cases "es_VLANs e"; cases "vl_Aliases (the (es_VLANs e))")
       (auto simp: spec_defaults_def Let_def VLANSpec_Init_def empty_vlans_def VLANSpec_Aliases_def
        ExperimentSpec_VLANs_def)
  let ?ps = "map (map_option (with_defaults ?b)) (ts_Nodes t)"
  have "\<forall>p \<in> set ?ps. \<exists>n. p = Some n \<and> node_ok n" using assms(2) by (auto simp: topo_ok_def)
  then have "add_node_aliases (Some m) ?ps = Inr (Some (with_zero (\<Union>p \<in> set ?ps. node_vlans p) m))"
    by (rule add_node_aliases_zero)
  moreover have "(\<Union>p \<in> set ?ps. node_vlans p) = (\<Union>p \<in> set (ts_Nodes t). node_vlans p)"
  proof -
    have "node_vlans (map_option (with_defaults ?b) p) = node_vlans p" if "p \<in> set (ts_Nodes t)" for p
      using assms(2) that node_vlans_defaults by (force simp: topo_ok_def)
    then show ?thesis by simp
  qed
  ultimately show ?thesis
    using e1 v init
    by (auto simp: ExperimentSpec_Init_def Let_def TopologySpec_Init_def ExperimentSpec_VLANs_def
        VLANSpec_Aliases_def)
qed

theorem experiment_init_aliases_witness:
  "\<exists>e'. ExperimentSpec_Init \<lparr>u_lower = id, u_fold = id\<rparr> ''/phenix'' (\<lambda>_. None)
        (example_spec\<lparr>es_VLANs := Some \<lparr>vl_Aliases = Some [''ops'' \<mapsto> 5], vl_Min = 0, vl_Max = 0\<rparr>\<rparr>) = Inr (e', [])
     \<and> map_get (VLANSpec_Aliases (ExperimentSpec_VLANs e')) = [''ops'' \<mapsto> 5, ''mgmt'' \<mapsto> 0]"
proof -
  let ?e = "example_spec\<lparr>es_VLANs := Some \<lparr>vl_Aliases = Some [''ops'' \<mapsto> 5], vl_Min = 0, vl_Max = 0\<rparr>\<rparr>"
  let ?u = "\<lparr>u_lower = id, u_fold = id\<rparr> :: unicase"
  have t: "es_Topology ?e = Some example_topology" by (simp add: example_spec_def)
  obtain e' errs where i: "ExperimentSpec_Init ?u ''/phenix'' (\<lambda>_. None) ?e = Inr (e', errs)"
    and a: "errs \<noteq> [] \<or> map_get (VLANSpec_Aliases (ExperimentSpec_VLANs e')) =
      with_zero (\<Union>p \<in> set (ts_Nodes example_topology). node_vlans p) [''ops'' \<mapsto> 5]"
    using experiment_init_aliases[OF t example_topology_ok(1), of ?u "''/phenix''" "\<lambda>_. None"]
    by (auto simp: ExperimentSpec_VLANs_def VLANSpec_Aliases_def)
  have valid: "node_valid ?u (Some (example_node h v))" if "checkHostnameKeywords ?u h [] = Inr None" for h v
    using that by (simp add: node_valid_def validate_def example_node_def empty_node_def empty_general_def
        empty_hardware_def empty_network_def empty_interface_def)
  have "checkHostnameKeywords ?u ''plc'' [] = Inr None" "checkHostnameKeywords ?u ''hmi'' [] = Inr None"
    "distinct (map (to_lower ?u) [''plc'', ''hmi''])" by code_simp+
  then obtain ns log where "init_nodes ?u ''phenix'' [] (ts_Nodes example_topology) = Inr (ns, log, [])"
    using init_nodes_total[of "ts_Nodes example_topology" ?u "''phenix''" "[]"] valid
    by (auto simp: example_topology_def)
  moreover have "es_DefaultBridge (spec_defaults ''/phenix'' (\<lambda>_. None) ?e) = ''phenix''"
    "es_Topology (spec_defaults ''/phenix'' (\<lambda>_. None) ?e) = Some example_topology"
    by (simp_all add: spec_defaults_def example_spec_def Let_def)
  ultimately have "errs = []"
    using i by (auto simp: ExperimentSpec_Init_def Let_def TopologySpec_Init_def bindR_Inr_iff)
  moreover have "(\<Union>p \<in> set (ts_Nodes example_topology). node_vlans p) = {''ops'', ''mgmt''}"
    by (auto simp: example_topology_def example_node_def node_vlans_def iface_vlans_def empty_network_def)
  moreover have "with_zero {''ops'', ''mgmt''} [''ops'' \<mapsto> 5] = [''ops'' \<mapsto> 5, ''mgmt'' \<mapsto> 0]"
    by (simp add: with_zero_def fun_eq_iff)
  ultimately show ?thesis using i a by auto
qed

text \<open>
  An alias without an id yet has id 0, which \<^verbatim>\<open>SetVLANRange\<close> and \<^verbatim>\<open>Validate\<close> take for an id below
  the range: with a lower bound, a range is refused as long as any alias is unassigned.
\<close>

lemma range_refused_unassigned:
  assumes "k \<in> set ks" and "map_get (vl_Aliases (vlans_made e)) k = Some 0" and "0 < mn"
  shows "snd (SetVLANRange ks mn mx f e) \<noteq> None"
proof -
  have "\<not> within mn mx (the (map_get (vl_Aliases (vlans_made e)) k))" using assms by (simp add: within_def)
  then have "check_range mn mx (map_get (vl_Aliases (vlans_made e))) ks \<noteq> None"
    using assms(1) unfolding check_range_iff by blast
  then show ?thesis by (auto simp: SetVLANRange_def Let_def)
qed

subsection \<open>Scenarios and schedules\<close>

text \<open>
  A node that is scheduled is on the host it was scheduled on, the others where they were;
  without \<^verbatim>\<open>Init\<close> the schedule is a nil map and the call panics.
\<close>

lemma schedule_node:
  "ScheduleNode n h e =
     (case es_Schedules e of
        None \<Rightarrow> Inl NilMapWrite
      | Some m \<Rightarrow> Inr (e\<lparr>es_Schedules := Some (m(n \<mapsto> h))\<rparr>))"
  by (simp add: ScheduleNode_def map_put_def split: option.splits)

text \<open>
  Verifying a scenario warns about exactly the hosts of apps that are not nodes of the
  topology, in order; it panics when the experiment has a scenario but no topology.
\<close>

theorem verify_scenario:
  assumes "es_Scenario e = Some sc" and "sc_Apps sc = map Some as"
    and "\<forall>a \<in> set as. app_Hosts a = map Some (hs a)"
  shows "case es_Topology e of
      None \<Rightarrow> VerifyScenario e = Inl NilDeref
    | Some t \<Rightarrow> topo_ok t \<longrightarrow> VerifyScenario e =
        Inr (concat (map (\<lambda>a. map (\<lambda>h. (h, app_Name a)) (filter (\<lambda>h. h \<notin> set (hosts t)) (hs a))) as))"
proof (cases "es_Topology e")
  case None
  then show ?thesis using assms(1) by (simp add: VerifyScenario_def)
next
  case (Some t)
  have "VerifyScenario e =
      Inr (concat (map (\<lambda>a. map (\<lambda>h. (h, app_Name a)) (filter (\<lambda>h. h \<notin> set (hosts t)) (hs a))) as))"
    if ok: "topo_ok t"
  proof -
    have h: "mapR node_hostname (ts_Nodes t) = Inr (hosts t)"
      using mapR_total[of "ts_Nodes t" node_hostname host] node_hostname_ok[OF ok] by (simp add: hosts_def)
    have "mapR (\<lambda>app. bindR (deref app) (\<lambda>app. bindR (mapR deref (app_Hosts app)) (\<lambda>xs.
        Inr (map (\<lambda>h. (h, app_Name app)) (filter (\<lambda>h. h \<notin> set (hosts t)) xs))))) (map Some bs)
      = Inr (map (\<lambda>a. map (\<lambda>h. (h, app_Name a)) (filter (\<lambda>h. h \<notin> set (hosts t)) (hs a))) bs)"
      if "set bs \<subseteq> set as" for bs
      using that assms(3) by (induction bs) auto
    then show ?thesis using assms(1,2) Some h by (simp add: VerifyScenario_def)
  qed
  then show ?thesis using Some by simp
qed

theorem verify_scenario_witness:
  "VerifyScenario (example_spec\<lparr>es_Scenario := Some \<lparr>sc_Apps =
       [Some \<lparr>app_Name = ''ntp'', app_Hosts = [Some ''plc'', Some ''ghost'']\<rparr>]\<rparr>\<rparr>) = Inr [(''ghost'', ''ntp'')]"
  using verify_scenario[of "example_spec\<lparr>es_Scenario := Some \<lparr>sc_Apps =
       [Some \<lparr>app_Name = ''ntp'', app_Hosts = [Some ''plc'', Some ''ghost'']\<rparr>]\<rparr>\<rparr>"
      "\<lparr>sc_Apps = [Some \<lparr>app_Name = ''ntp'', app_Hosts = [Some ''plc'', Some ''ghost'']\<rparr>]\<rparr>"
      "[\<lparr>app_Name = ''ntp'', app_Hosts = [Some ''plc'', Some ''ghost'']\<rparr>]" "\<lambda>_. [''plc'', ''ghost'']"]
  by (simp add: example_spec_def)

subsection \<open>The status of apps\<close>

lemma app_status_maps:
  "map_get (st_Running (SetAppRunning a r s)) = (map_get (st_Running s))(a \<mapsto> r)"
  "map_get (st_Frequency (SetAppFrequency a f s)) = (map_get (st_Frequency s))(a := (if f = [] then None else Some f))"
  "map_get (st_Cleanup (SetAppCleanup a p s)) = (map_get (st_Cleanup s))(a := (if p then Some True else None))"
  by (simp_all add: SetAppRunning_def SetAppFrequency_def SetAppCleanup_def set_or_delete_def)

text \<open>Resetting the status forgets what apps reported and how they ran, not their pending clean-up.\<close>

lemma reset_app_status:
  "map_get (st_Apps (ResetAppStatus s)) = Map.empty" "map_get (st_Frequency (ResetAppStatus s)) = Map.empty"
  "map_get (st_Running (ResetAppStatus s)) = Map.empty" "st_Cleanup (ResetAppStatus s) = st_Cleanup s"
  by (simp_all add: ResetAppStatus_def)

end
