(* ===== verification/Workflow_Topology.thy ===== *)
theory Workflow_Topology
  imports Experiment_Spec
begin

section \<open>Topologies with includes, and their check before they are used\<close>

text \<open>
  \<^verbatim>\<open>types/topology.go\<close>: decoding a topology merges in the topologies it includes. A topology that can
  be loaded is an entry of a list: the source it is found under (a name in the store or a path), the
  name of its config and its own spec, decoded; a source without an entry cannot be loaded or decoded.
  \<^verbatim>\<open>api/workflow/prepare.go\<close>: the check of a decoded topology before an experiment is created, stopped
  or updated, and the VLAN aliases and schedules an update builds from it.
\<close>

subsection \<open>Includes\<close>

type_synonym loadable = "(string \<times> string \<times> TopologySpec) list"

datatype include_err = NotLoaded string | CyclicImport string | DuplicateIncluded string string

text \<open>The loop over the nodes of an included topology; \<open>seen\<close> are the keys of the map of hostnames.\<close>

fun append_new :: "string \<Rightarrow> string list \<Rightarrow> Node option list \<Rightarrow> (include_err + Node option list) go" where
  "append_new inc seen [] = Inr (Inr [])"
| "append_new inc seen (n # ns) =
     bindR (node_hostname n) (\<lambda>h.
       if h \<in> set seen then Inr (Inl (DuplicateIncluded inc h))
       else bindR (append_new inc (h # seen) ns) (\<lambda>r. Inr (map_sum id ((#) n) r)))"

definition merge_nodes :: "string \<Rightarrow> Node option list \<Rightarrow> Node option list \<Rightarrow> (include_err + Node option list) go" where
  "merge_nodes inc nodes child =
     bindR (mapR node_hostname nodes) (\<lambda>seen.
     bindR (append_new inc seen child) (\<lambda>r. Inr (map_sum id (append nodes) r)))"

text \<open>The loop over the includes; \<open>visited\<close> are the keys of the map of visited configs.\<close>

function include_topologies ::
  "loadable \<Rightarrow> string list \<Rightarrow> string list \<Rightarrow> Node option list \<Rightarrow> (include_err + Node option list) go" where
  "include_topologies L visited [] nodes = Inr (Inr nodes)"
| "include_topologies L visited (s # ss) nodes =
     (case map_of L s of
        None \<Rightarrow> Inr (Inl (NotLoaded s))
      | Some (name, child) \<Rightarrow>
          if name \<in> set visited then Inr (Inl (CyclicImport name))
          else
            bindR (include_topologies L (name # visited) (ts_IncludeTopologies child) (ts_Nodes child)) (\<lambda>r.
              case r of
                Inl e \<Rightarrow> Inr (Inl e)
              | Inr included \<Rightarrow>
                  bindR (merge_nodes s nodes included) (\<lambda>r.
                    case r of Inl e \<Rightarrow> Inr (Inl e) | Inr nodes' \<Rightarrow> include_topologies L visited ss nodes')))"
  by pat_completeness auto

termination
proof (relation "measures [\<lambda>(L, visited, ss, nodes). card (fst ` snd ` set L - set visited), \<lambda>(L, visited, ss, nodes). length ss]", goal_cases)
  case (2 L visited s ss nodes p name child)
  have "(s, name, child) \<in> set L" using 2 map_of_SomeD by fastforce
  then have "name \<in> fst ` snd ` set L - set visited" using 2 by force
  then have "card (fst ` snd ` set L - set (name # visited)) < card (fst ` snd ` set L - set visited)"
    by (intro psubset_card_mono) auto
  then show ?case by simp
qed auto

definition DecodeTopology :: "loadable \<Rightarrow> string \<Rightarrow> TopologySpec \<Rightarrow> (include_err + TopologySpec) go" where
  "DecodeTopology L name t =
     bindR (include_topologies L [name] (ts_IncludeTopologies t) (ts_Nodes t)) (\<lambda>r.
       Inr (map_sum id (\<lambda>ns. t\<lparr>ts_Nodes := ns\<rparr>) r))"

subsection \<open>The check before use\<close>

datatype section_err = EmptyNode nat | NoGeneral nat | NoHardware string nat | EmptyInterface string nat nat

fun first_nil :: "nat \<Rightarrow> 'a option list \<Rightarrow> nat option" where
  "first_nil j [] = None"
| "first_nil j (None # xs) = Some j"
| "first_nil j (Some x # xs) = first_nil (Suc j) xs"

fun checkNodeSections :: "nat \<Rightarrow> Node option list \<Rightarrow> section_err option" where
  "checkNodeSections i [] = None"
| "checkNodeSections i (None # ns) = Some (EmptyNode i)"
| "checkNodeSections i (Some n # ns) =
     (case nd_General n of
        None \<Rightarrow> Some (NoGeneral i)
      | Some g \<Rightarrow>
          if nd_Hardware n = None \<and> \<not> External n then Some (NoHardware (gen_Hostname g) i)
          else
            (case first_nil 0 (case nd_Network n of None \<Rightarrow> [] | Some net \<Rightarrow> net_Interfaces net) of
               Some j \<Rightarrow> Some (EmptyInterface (gen_Hostname g) i j)
             | None \<Rightarrow> checkNodeSections (Suc i) ns))"

datatype unusable = BadSections section_err | BadNodes "topo_err list"

definition checkTopology :: "unicase \<Rightarrow> TopologySpec \<Rightarrow> unusable option go" where
  "checkTopology u t =
     (case checkNodeSections 0 (ts_Nodes t) of
        Some e \<Rightarrow> Inr (Some (BadSections e))
      | None \<Rightarrow>
          bindR (TopologySpec_Init u [] t) (\<lambda>(t', log, errs).
            Inr (if errs = [] then None else Some (BadNodes errs))))"

subsection \<open>Aliases and schedules\<close>

fun iface_ids :: "(string, int) gomap \<Rightarrow> (string \<Rightarrow> int option) \<Rightarrow> Interface option list \<Rightarrow> (string \<Rightarrow> int option) go" where
  "iface_ids mappings m [] = Inr m"
| "iface_ids mappings m (i # is) =
     bindR (deref i) (\<lambda>i.
       iface_ids mappings (m(if_VLAN i \<mapsto> (case map_get mappings (if_VLAN i) of None \<Rightarrow> 0 | Some v \<Rightarrow> v))) is)"

fun node_ids :: "(string, int) gomap \<Rightarrow> (string \<Rightarrow> int option) \<Rightarrow> Node option list \<Rightarrow> (string \<Rightarrow> int option) go" where
  "node_ids mappings m [] = Inr m"
| "node_ids mappings m (n # ns) =
     bindR (deref n) (\<lambda>n.
     bindR (iface_ids mappings m (case nd_Network n of None \<Rightarrow> [] | Some net \<Rightarrow> net_Interfaces net)) (\<lambda>m'.
       node_ids mappings m' ns))"

definition vlanAliases :: "TopologySpec \<Rightarrow> (string, int) gomap \<Rightarrow> (string, int) gomap go" where
  "vlanAliases t mappings = bindR (node_ids mappings Map.empty (ts_Nodes t)) (\<lambda>m. Inr (Some m))"

fun node_hosts :: "(string, string) gomap \<Rightarrow> (string \<Rightarrow> string option) \<Rightarrow> Node option list \<Rightarrow> (string \<Rightarrow> string option) go" where
  "node_hosts mappings m [] = Inr m"
| "node_hosts mappings m (n # ns) =
     bindR (deref n) (\<lambda>n.
       if External n then node_hosts mappings m ns
       else
         let hostname = Hostname (nd_General n)
         in node_hosts mappings (case map_get mappings hostname of None \<Rightarrow> m | Some h \<Rightarrow> m(hostname \<mapsto> h)) ns)"

definition nodeSchedules :: "TopologySpec \<Rightarrow> (string, string) gomap \<Rightarrow> (string, string) gomap go" where
  "nodeSchedules t mappings = bindR (node_hosts mappings Map.empty (ts_Nodes t)) (\<lambda>m. Inr (Some m))"

subsection \<open>What the check establishes\<close>

lemma first_nil_None: "first_nil j xs = None \<longleftrightarrow> None \<notin> set xs"
  by (induction j xs rule: first_nil.induct) auto

lemma first_nil_Some: "first_nil j xs = Some k \<Longrightarrow> None \<in> set xs"
  using first_nil_None[of j xs] by auto

lemma sections_None:
  "checkNodeSections i ns = None \<longleftrightarrow> (\<forall>p \<in> set ns. \<exists>n. p = Some n \<and> node_ok n)"
  by (induction i ns rule: checkNodeSections.induct)
    (auto simp: node_ok_def first_nil_None dest: first_nil_Some split: option.split)

lemma checkTopology_total:
  "\<exists>r. checkTopology u t = Inr r
     \<and> (r = None \<longleftrightarrow> topo_ok t \<and> distinct (map (to_lower u) (hosts t)) \<and> (\<forall>p \<in> set (ts_Nodes t). node_valid u p))"
proof (cases "checkNodeSections 0 (ts_Nodes t)")
  case (Some e)
  then have "\<not> topo_ok t" using sections_None[of 0 "ts_Nodes t"] by (simp add: topo_ok_def)
  then show ?thesis using Some by (simp add: checkTopology_def)
next
  case None
  then have ok: "\<forall>p \<in> set (ts_Nodes t). \<exists>n. p = Some n \<and> node_ok n" by (simp add: sections_None)
  have "map (\<lambda>p. to_lower u (host p)) (ts_Nodes t) = map (to_lower u) (hosts t)" by (simp add: hosts_def)
  then show ?thesis using init_nodes_total[OF ok, of u "[]" "[]"] None ok
    by (auto simp: checkTopology_def TopologySpec_Init_def topo_ok_def)
qed

text \<open>Initialising an experiment on a topology that passes: what the result keeps.\<close>

lemma experiment_init_passes:
  assumes t: "es_Topology e = Some t" and pass: "checkTopology u t = Inr None"
  shows "\<exists>e'. ExperimentSpec_Init u base abs_path e = Inr (e', [])
    \<and> es_DefaultBridge e' = (if es_DefaultBridge e = [] then ''phenix'' else es_DefaultBridge e)
    \<and> es_Schedules e' = map_made (es_Schedules e)"
proof -
  have ok: "topo_ok t" "distinct (map (to_lower u) (hosts t))" "\<forall>p \<in> set (ts_Nodes t). node_valid u p"
    using checkTopology_total[of u t] pass by auto
  let ?e1 = "spec_defaults base abs_path e"
  let ?b = "es_DefaultBridge ?e1"
  have b: "?b = (if es_DefaultBridge e = [] then ''phenix'' else es_DefaultBridge e)" "es_Topology ?e1 = Some t"
    "es_Schedules ?e1 = map_made (es_Schedules e)"
    using t by (auto simp: spec_defaults_def Let_def split: option.splits)
  have "map (\<lambda>p. to_lower u (host p)) (ts_Nodes t) = map (to_lower u) (hosts t)" by (simp add: hosts_def)
  then obtain log where init: "init_nodes u ?b [] (ts_Nodes t) = Inr (map (map_option (with_defaults ?b)) (ts_Nodes t), log, [])"
    using init_nodes_total[of "ts_Nodes t" u ?b "[]"] ok by (auto simp: topo_ok_def)
  obtain v m where v: "es_VLANs ?e1 = Some v" "vl_Aliases v = Some m"
    by (cases "es_VLANs e"; cases "vl_Aliases (the (es_VLANs e))")
       (auto simp: spec_defaults_def Let_def VLANSpec_Init_def empty_vlans_def)
  let ?ps = "map (map_option (with_defaults ?b)) (ts_Nodes t)"
  have "\<forall>p \<in> set ?ps. \<exists>n. p = Some n \<and> node_ok n" using ok(1) by (auto simp: topo_ok_def)
  from add_node_aliases_zero[OF this] show ?thesis using b v init
    by (auto simp: ExperimentSpec_Init_def Let_def TopologySpec_Init_def)
qed

subsection \<open>What decoding includes gives\<close>

lemma bind_both: "bindR m (\<lambda>r. case r of Inl e \<Rightarrow> Inr (Inl e) | Inr x \<Rightarrow> f x) = Inr (Inr y) \<longleftrightarrow> (\<exists>x. m = Inr (Inr x) \<and> f x = Inr (Inr y))"
  by (cases m) (auto split: sum.split)

lemma map_both: "bindR m (\<lambda>r. Inr (map_sum id g r)) = Inr (Inr y) \<longleftrightarrow> (\<exists>x. m = Inr (Inr x) \<and> y = g x)"
proof (cases m)
  case (Inr r)
  then show ?thesis by (cases r) auto
qed simp

definition named :: "Node option list \<Rightarrow> bool" where
  "named ns \<longleftrightarrow> (\<forall>p \<in> set ns. \<exists>n g. p = Some n \<and> nd_General n = Some g)"

lemma node_hostname_Inr: "node_hostname p = Inr h \<longleftrightarrow> (\<exists>n g. p = Some n \<and> nd_General n = Some g \<and> h = gen_Hostname g)"
  by (auto simp: node_hostname_def bindR_Inr_iff deref_Inr)

lemma hostnames_Inr: "mapR node_hostname ns = Inr hs \<longleftrightarrow> named ns \<and> hs = map host ns"
proof (induction ns arbitrary: hs)
  case (Cons p ns)
  then show ?case by (auto simp: bindR_Inr_iff node_hostname_Inr named_def Hostname_def)
qed (auto simp: named_def)

lemma append_new_Inr:
  "append_new inc seen ns = Inr (Inr r) \<longleftrightarrow> r = ns \<and> named ns \<and> distinct (map host ns) \<and> set (map host ns) \<inter> set seen = {}"
proof (induction inc seen ns arbitrary: r rule: append_new.induct)
  case (2 inc seen n ns)
  show ?case
  proof (cases "node_hostname n")
    case (Inr h)
    then obtain m g where n: "n = Some m" "nd_General m = Some g" "h = gen_Hostname g" by (auto simp: node_hostname_Inr)
    have IH: "append_new inc (h # seen) ns = Inr (Inr r) \<longleftrightarrow> r = ns \<and> named ns \<and> distinct (map host ns) \<and> set (map host ns) \<inter> set (h # seen) = {}"
      if "h \<notin> set seen" for r using "2.IH"[of h, OF that] .
    have "append_new inc seen (n # ns) = Inr (Inr r) \<longleftrightarrow> h \<notin> set seen \<and> (\<exists>r'. append_new inc (h # seen) ns = Inr (Inr r') \<and> r = n # r')"
      using Inr by (simp add: map_both)
    moreover have "host n = h" "named (n # ns) = named ns" using n by (auto simp: named_def Hostname_def)
    moreover have "(\<exists>r'. append_new inc (h # seen) ns = Inr (Inr r') \<and> r = n # r') \<longleftrightarrow>
        r = n # ns \<and> named ns \<and> distinct (map host ns) \<and> set (map host ns) \<inter> set (h # seen) = {}" if "h \<notin> set seen"
      unfolding IH[OF that] by blast
    ultimately show ?thesis by auto
  next
    case (Inl p)
    then have "\<not> named (n # ns)" by (cases n) (auto simp: named_def node_hostname_def deref_def split: option.splits)
    then show ?thesis using Inl by simp
  qed
qed (auto simp: named_def)

lemma merge_nodes_Inr:
  "merge_nodes inc nodes child = Inr (Inr ns) \<longleftrightarrow>
     ns = nodes @ child \<and> named ns \<and> distinct (map host child) \<and> set (map host child) \<inter> set (map host nodes) = {}"
proof -
  have "merge_nodes inc nodes child = Inr (Inr ns) \<longleftrightarrow>
      (\<exists>seen r. mapR node_hostname nodes = Inr seen \<and> append_new inc seen child = Inr (Inr r) \<and> ns = nodes @ r)"
    by (simp add: merge_nodes_def bindR_Inr_iff[of "mapR _ _"] map_both)
  then show ?thesis by (auto simp: hostnames_Inr append_new_Inr named_def)
qed

lemma include_topologies_Inr:
  "include_topologies L visited ss nodes = Inr (Inr ns) \<Longrightarrow>
     \<exists>extra. ns = nodes @ extra \<and> (distinct (map host nodes) \<longrightarrow> distinct (map host ns))
       \<and> (\<forall>p \<in> set extra. \<exists>s name child. (s, name, child) \<in> set L \<and> name \<notin> set visited \<and> p \<in> set (ts_Nodes child))
       \<and> (\<forall>s \<in> set ss. \<exists>name child. map_of L s = Some (name, child) \<and> name \<notin> set visited \<and> set (ts_Nodes child) \<subseteq> set extra)
       \<and> (ss \<noteq> [] \<longrightarrow> named ns)"
proof (induction L visited ss nodes arbitrary: ns rule: include_topologies.induct)
  case (2 L visited s ss nodes)
  obtain name child where s: "map_of L s = Some (name, child)" "name \<notin> set visited"
    using "2.prems" by (auto split: option.splits if_splits)
  obtain included nodes' where inc: "include_topologies L (name # visited) (ts_IncludeTopologies child) (ts_Nodes child) = Inr (Inr included)"
    and mg: "merge_nodes s nodes included = Inr (Inr nodes')" and rest: "include_topologies L visited ss nodes' = Inr (Inr ns)"
    using "2.prems" s by (auto simp: bind_both)
  obtain e1 where e1: "included = ts_Nodes child @ e1"
      "\<forall>p \<in> set e1. \<exists>s n c. (s, n, c) \<in> set L \<and> n \<notin> set (name # visited) \<and> p \<in> set (ts_Nodes c)"
    using "2.IH"(1)[OF s(1) refl s(2) inc] by blast
  note m = mg[unfolded merge_nodes_Inr]
  obtain e2 where e2: "ns = nodes' @ e2" "distinct (map host nodes') \<longrightarrow> distinct (map host ns)"
      "\<forall>p \<in> set e2. \<exists>s n c. (s, n, c) \<in> set L \<and> n \<notin> set visited \<and> p \<in> set (ts_Nodes c)"
      "\<forall>s \<in> set ss. \<exists>n c. map_of L s = Some (n, c) \<and> n \<notin> set visited \<and> set (ts_Nodes c) \<subseteq> set e2" "ss \<noteq> [] \<longrightarrow> named ns"
    using "2.IH"(2)[OF s(1) refl s(2) rest] by blast
  have L: "(s, name, child) \<in> set L" using s(1) by (rule map_of_SomeD)
  show ?case
  proof (intro exI[of _ "included @ e2"] conjI)
    show "ns = nodes @ included @ e2" using e2(1) m by simp
    show "distinct (map host nodes) \<longrightarrow> distinct (map host ns)" using e2(2) m by auto
    show "\<forall>p \<in> set (included @ e2). \<exists>s n c. (s, n, c) \<in> set L \<and> n \<notin> set visited \<and> p \<in> set (ts_Nodes c)"
      using e1 e2(3) L s(2) by fastforce
    show "\<forall>t \<in> set (s # ss). \<exists>n c. map_of L t = Some (n, c) \<and> n \<notin> set visited \<and> set (ts_Nodes c) \<subseteq> set (included @ e2)"
      using s e1(1) e2(4) by fastforce
    show "s # ss \<noteq> [] \<longrightarrow> named ns" using m e2(1,5) by (cases ss) (use rest in auto)
  qed
qed auto

subsection \<open>Aliases and schedules of a topology that passes\<close>

lemma iface_ids_total:
  "None \<notin> set is \<Longrightarrow> iface_ids w m is = Inr (\<lambda>v. if v \<in> iface_vlans is then Some (case map_get w v of None \<Rightarrow> 0 | Some i \<Rightarrow> i) else m v)"
proof (induction "is" arbitrary: m)
  case (Cons i "is")
  then obtain x where "i = Some x" by (cases i) auto
  then show ?case using Cons by (auto simp: iface_vlans_def fun_eq_iff)
qed (simp add: iface_vlans_def)

lemma node_ids_total:
  "\<forall>p \<in> set ps. \<exists>n. p = Some n \<and> node_ok n \<Longrightarrow>
   node_ids w m ps = Inr (\<lambda>v. if v \<in> (\<Union>p \<in> set ps. node_vlans p) then Some (case map_get w v of None \<Rightarrow> 0 | Some i \<Rightarrow> i) else m v)"
proof (induction ps arbitrary: m)
  case (Cons p ps)
  then obtain n where n: "p = Some n" "node_ok n" by auto
  let ?is = "case nd_Network n of None \<Rightarrow> [] | Some net \<Rightarrow> net_Interfaces net"
  have "None \<notin> set ?is" "iface_vlans ?is = node_vlans p" using n by (auto simp: node_ok_def node_vlans_def iface_vlans_def split: option.splits)
  then show ?case using Cons n iface_ids_total[of ?is w m] by (auto simp: fun_eq_iff)
qed simp

lemma vlanAliases_total:
  "topo_ok t \<Longrightarrow> vlanAliases t w = Inr (Some (\<lambda>v. if v \<in> (\<Union>p \<in> set (ts_Nodes t). node_vlans p)
      then Some (case map_get w v of None \<Rightarrow> 0 | Some i \<Rightarrow> i) else None))"
  using node_ids_total[of "ts_Nodes t" w Map.empty] by (simp add: vlanAliases_def topo_ok_def)

lemma node_hosts_total:
  "\<forall>p \<in> set ps. p \<noteq> None \<Longrightarrow>
   node_hosts w m ps = Inr (\<lambda>h. if (\<exists>n. Some n \<in> set ps \<and> \<not> External n \<and> Hostname (nd_General n) = h) \<and> map_get w h \<noteq> None
      then map_get w h else m h)"
proof (induction ps arbitrary: m)
  case (Cons p ps)
  then obtain n where n: "p = Some n" by auto
  then show ?case using Cons by (auto simp: fun_eq_iff Let_def split: option.splits)
qed simp

lemma nodeSchedules_total:
  "topo_ok t \<Longrightarrow> nodeSchedules t w = Inr (Some (\<lambda>h.
     if \<exists>n. Some n \<in> set (ts_Nodes t) \<and> \<not> External n \<and> Hostname (nd_General n) = h then map_get w h else None))"
proof -
  assume ok: "topo_ok t"
  have "node_hosts w Map.empty (ts_Nodes t) = Inr (\<lambda>h. if (\<exists>n. Some n \<in> set (ts_Nodes t) \<and> \<not> External n \<and> Hostname (nd_General n) = h)
      \<and> map_get w h \<noteq> None then map_get w h else Map.empty h)"
    by (rule node_hosts_total) (use ok in \<open>auto simp: topo_ok_def\<close>)
  moreover have "(if P \<and> x \<noteq> None then x else Map.empty h) = (if P then x else None)" for P and x :: "string option" and h :: string
    by (cases x) auto
  ultimately show ?thesis by (simp only: nodeSchedules_def bindR.simps)
qed

subsection \<open>Properties\<close>

text \<open>
  C36: the check of a topology before it is used never panics, whatever is nil in the topology. It
  passes exactly when no part that the code reads is nil, the hostnames are distinct without regard to
  case and every node is valid; and an experiment on a topology that passes initialises without an
  error and without a panic, whatever its bridge, aliases and settings.
\<close>

theorem topology_preflight:
  "\<exists>r. checkTopology u t = Inr r
     \<and> (r = None \<longleftrightarrow> topo_ok t \<and> distinct (map (to_lower u) (hosts t)) \<and> (\<forall>p \<in> set (ts_Nodes t). node_valid u p))
     \<and> (r = None \<longrightarrow> (\<forall>e base abs_path. \<exists>e'. ExperimentSpec_Init u base abs_path (e\<lparr>es_Topology := Some t\<rparr>) = Inr (e', [])))"
proof -
  obtain r where r: "checkTopology u t = Inr r"
      "r = None \<longleftrightarrow> topo_ok t \<and> distinct (map (to_lower u) (hosts t)) \<and> (\<forall>p \<in> set (ts_Nodes t). node_valid u p)"
    using checkTopology_total by blast
  have "\<exists>e'. ExperimentSpec_Init u base abs_path (e\<lparr>es_Topology := Some t\<rparr>) = Inr (e', [])" if "r = None" for e base abs_path
    using experiment_init_passes[of "e\<lparr>es_Topology := Some t\<rparr>" t u] r(1) that by auto
  then show ?thesis using r by (intro exI[of _ r]) simp
qed

text \<open>Two hostnames that differ only in case do not pass; a node without a general section does not pass.\<close>

theorem topology_preflight_witness:
  "(\<exists>x. checkTopology \<lparr>u_lower = id, u_fold = id\<rparr> (example_topology\<lparr>ts_Nodes := [Some (example_node ''plc'' ''ops''), None]\<rparr>) = Inr (Some x))
   \<and> (\<forall>e base abs_path. \<exists>e'. ExperimentSpec_Init \<lparr>u_lower = id, u_fold = id\<rparr> base abs_path (e\<lparr>es_Topology := Some (example_topology\<lparr>ts_Nodes := []\<rparr>)\<rparr>)
        = Inr (e', []))"
proof -
  let ?u = "\<lparr>u_lower = id, u_fold = id\<rparr> :: unicase"
  have bad: "\<not> topo_ok (example_topology\<lparr>ts_Nodes := [Some (example_node ''plc'' ''ops''), None]\<rparr>)" by (simp add: topo_ok_def)
  have "checkTopology ?u (example_topology\<lparr>ts_Nodes := []\<rparr>) = Inr None" by (simp add: checkTopology_def TopologySpec_Init_def)
  then show ?thesis
    using topology_preflight[of ?u "example_topology\<lparr>ts_Nodes := [Some (example_node ''plc'' ''ops''), None]\<rparr>"] bad
      topology_preflight[of ?u "example_topology\<lparr>ts_Nodes := []\<rparr>"]
    by (metis (no_types, lifting) Inr_inject not_None_eq)
qed



text \<open>Decoding reads the hostname of every node when there is an include, before the check of the sections.\<close>

lemma include_of_unnamed_node:
  assumes "map_of L s = Some (n, child)" and "n \<noteq> name" and "ts_IncludeTopologies child = []"
    and "ts_IncludeTopologies t = [s]" and "ts_Nodes t = [None]"
  shows "DecodeTopology L name t = Inl NilDeref"
  using assms by (simp add: DecodeTopology_def merge_nodes_def node_hostname_def deref_def)

end
