(* ===== verification/Config_Api.thy ===== *)
theory Config_Api
  imports Config_Store
begin

section \<open>Managing configs\<close>

text \<open>
  \<^verbatim>\<open>api/config/config.go\<close> over a store of configs \<open>S\<close>: reading, creating, updating (with renaming) and
  deleting configs, with the hooks that other packages register for a kind. A hook may change the
  config and the state, so it is a function of both; the hook of this package, which checks the
  name, is \<open>name_hook\<close>. \<open>valid\<close> is \<^verbatim>\<open>types.ValidateConfigSpec\<close>, the OpenAPI check. The locale
  \<open>config_api\<close> holds the lemmas, for any store with the contract \<^const>\<open>config_store\<close>; the Bolt store is
  an instance (\<open>tapi\<close>). Not modelled: the walk over the default configs and the editor.
\<close>

type_synonym ('s, 'v) config_hook = "string \<Rightarrow> 'v Config \<Rightarrow> 's \<Rightarrow> 's \<times> 'v Config \<times> string option"

datatype config_api_err =
  NoName
| NoSource
| UnknownKind string
| Reading string
| Invalid string
| HookFailed string
| InStore config_err
| Several "config_api_err list"

type_synonym ('s, 'a) api_action = "('s, config_api_err, 'a) action"

definition in_store :: "('s, 'a) config_action \<Rightarrow> ('s, 'a) api_action" where
  "in_store m s = (case m s of (s', Inl e) \<Rightarrow> (s', Inl (InStore e)) | (s', Inr x) \<Rightarrow> (s', Inr x))"

definition AllKinds :: "string list" where
  "AllKinds = [''Topology'', ''Scenario'', ''Experiment'', ''Image'', ''User'', ''Role'']"

text \<open>\<^verbatim>\<open>^[a-zA-Z0-9_@.-]*$\<close>\<close>

definition name_char :: "char \<Rightarrow> bool" where
  "name_char c \<longleftrightarrow>
     (CHR ''a'' \<le> c \<and> c \<le> CHR ''z'') \<or> (CHR ''A'' \<le> c \<and> c \<le> CHR ''Z'') \<or> (CHR ''0'' \<le> c \<and> c \<le> CHR ''9'')
     \<or> c \<in> {CHR ''_'', CHR ''@'', CHR ''.'', CHR ''-''}"

definition NameRegex :: "string \<Rightarrow> bool" where
  "NameRegex s \<longleftrightarrow> list_all name_char s"

definition name_hook :: "('s, 'v) config_hook" where
  "name_hook stage c s =
     (s, c, if (stage = ''create'' \<or> stage = ''update'') \<and> \<not> NameRegex (c_Name c)
            then Some ''config name is not a valid format'' else None)"

definition hooks_of :: "(string \<Rightarrow> ('s, 'v) config_hook list) \<Rightarrow> string \<Rightarrow> ('s, 'v) config_hook list" where
  "hooks_of H kind = (if kind \<in> set AllKinds then [name_hook] else []) @ H kind"

definition Config_List :: "unicase \<Rightarrow> ('s, 'v) cstore \<Rightarrow> string \<Rightarrow> ('s, 'v Config list) api_action" where
  "Config_List u S which =
     (let w = to_lower u which
      in if w = [] \<or> w = ''all'' then in_store (cs_list S AllKinds)
         else if w = ''topology'' then in_store (cs_list S [''Topology''])
         else if w = ''scenario'' then in_store (cs_list S [''Scenario''])
         else if w = ''experiment'' then in_store (cs_list S [''Experiment''])
         else if w = ''image'' then in_store (cs_list S [''Image''])
         else if w = ''user'' then in_store (cs_list S [''User''])
         else if w = ''role'' then in_store (cs_list S [''Role''])
         else failE (UnknownKind which))"

definition config_named :: "unicase \<Rightarrow> string list \<Rightarrow> string \<Rightarrow> ('s, 'v Config) api_action" where
  "config_named u ks name = in_store (readE (\<lambda>_. NewConfig u ks name))"

definition Config_Get :: "unicase \<Rightarrow> string list \<Rightarrow> ('s, 'v) cstore \<Rightarrow> string \<Rightarrow> ('s, 'v Config) api_action" where
  "Config_Get u ks S name =
     (if name = [] then failE NoName
      else bindE (config_named u ks name) (\<lambda>c. in_store (cs_get S c)))"

definition checkV :: "('v Config \<Rightarrow> string option) \<Rightarrow> 'v Config \<Rightarrow> ('s, unit) api_action" where
  "checkV valid c = checkE (map_option Invalid (valid c))"

fun run_hooks ::
  "('v Config \<Rightarrow> string option) \<Rightarrow> string \<Rightarrow> ('s, 'v) config_hook list \<Rightarrow> 'v Config \<Rightarrow> ('s, 'v Config) api_action" where
  "run_hooks valid stage [] c = retE c"
| "run_hooks valid stage (h # hs) c =
     (\<lambda>s. case h stage c s of
        (s', c', Some m) \<Rightarrow> (s', Inl (HookFailed m))
      | (s', c', None) \<Rightarrow> bindE (checkV valid c') (\<lambda>_. run_hooks valid stage hs c') s')"

text \<open>
  What \<^verbatim>\<open>Create\<close> is given: a config, the decoded contents of a file or YAML text (an error when
  reading or decoding fails), or nothing.
\<close>

datatype 'v create_source = FromConfig "'v Config" | FromText "string + 'v Config" | FromNothing

definition source_config :: "'v create_source \<Rightarrow> ('s, 'v Config) api_action" where
  "source_config src =
     (case src of
        FromConfig c \<Rightarrow> retE c
      | FromText (Inl m) \<Rightarrow> failE (Reading m)
      | FromText (Inr c) \<Rightarrow> retE (reset_times c)
      | FromNothing \<Rightarrow> failE NoSource)"

definition Config_Create ::
  "('v Config \<Rightarrow> string option) \<Rightarrow> (string \<Rightarrow> ('s, 'v) config_hook list) \<Rightarrow> ('s, 'v) cstore \<Rightarrow> bool \<Rightarrow> string
   \<Rightarrow> 'v create_source \<Rightarrow> ('s, 'v Config) api_action" where
  "Config_Create valid H S validate now src =
     (let v = (if validate then valid else (\<lambda>_. None))
      in bindE (source_config src) (\<lambda>c.
         bindE (checkV v c) (\<lambda>_.
         bindE (run_hooks v ''create'' (hooks_of H (c_Kind c)) c) (\<lambda>c'.
           in_store (cs_create S now c')))))"

text \<open>The errors of the hooks of a stage that only reports, \<^verbatim>\<open>delete\<close> and \<^verbatim>\<open>rename\<close>.\<close>

fun report_hooks :: "string \<Rightarrow> ('s, 'v) config_hook list \<Rightarrow> 'v Config \<Rightarrow> 's \<Rightarrow> 's \<times> config_api_err list" where
  "report_hooks stage [] c s = (s, [])"
| "report_hooks stage (h # hs) c s =
     (case h stage c s of
        (s', c', err) \<Rightarrow>
          (case report_hooks stage hs c' s' of
             (s'', errs) \<Rightarrow> (s'', (case err of None \<Rightarrow> errs | Some m \<Rightarrow> HookFailed m # errs))))"

definition several :: "'s \<times> config_api_err list \<Rightarrow> 's \<times> (config_api_err + unit)" where
  "several r = (fst r, if snd r = [] then Inr () else Inl (Several (snd r)))"

definition renamed :: "(string \<Rightarrow> ('s, 'v) config_hook list) \<Rightarrow> 'v Config \<Rightarrow> ('s, unit) api_action" where
  "renamed H old s = several (report_hooks ''rename'' (hooks_of H (c_Kind old)) old s)"

definition rename_config ::
  "(string \<Rightarrow> ('s, 'v) config_hook list) \<Rightarrow> ('s, 'v) cstore \<Rightarrow> string \<Rightarrow> 'v Config \<Rightarrow> 'v Config \<Rightarrow> ('s, unit) api_action" where
  "rename_config H S now old c =
     bindE (in_store (cs_create S now c)) (\<lambda>c' s.
       case cs_delete S old s of
         (s', Inl e) \<Rightarrow> (fst (cs_delete S c' s'), Inl (InStore e))
       | (s', Inr _) \<Rightarrow> renamed H old s')"

definition Config_Update ::
  "unicase \<Rightarrow> string list \<Rightarrow> ('v Config \<Rightarrow> string option) \<Rightarrow> (string \<Rightarrow> ('s, 'v) config_hook list) \<Rightarrow> ('s, 'v) cstore
   \<Rightarrow> string \<Rightarrow> string \<Rightarrow> 'v Config \<Rightarrow> ('s, unit) api_action" where
  "Config_Update u ks valid H S now name c =
     bindE (bindE (config_named u ks name) (\<lambda>c. in_store (cs_get S c))) (\<lambda>old.
       let c1 = c\<lparr>c_Metadata := (c_Metadata c)\<lparr>cm_Created := cm_Created (c_Metadata old)\<rparr>\<rparr>
       in bindE (checkV valid c1) (\<lambda>_.
          bindE (run_hooks valid ''update'' (hooks_of H (c_Kind c1)) c1) (\<lambda>c2 s.
            case cs_update S now c2 s of
              (s', Inr _) \<Rightarrow> (s', Inr ())
            | (s', Inl (ConfigNotExist n k)) \<Rightarrow> rename_config H S now old c2 s'
            | (s', Inl e) \<Rightarrow> (s', Inl (InStore e)))))"

definition delete_one :: "(string \<Rightarrow> ('s, 'v) config_hook list) \<Rightarrow> ('s, 'v) cstore \<Rightarrow> 'v Config \<Rightarrow> 's \<Rightarrow> 's \<times> config_api_err list" where
  "delete_one H S c s =
     (case cs_delete S c s of
        (s', Inl e) \<Rightarrow> (s', [InStore e])
      | (s', Inr _) \<Rightarrow> report_hooks ''delete'' (hooks_of H (c_Kind c)) c s')"

fun delete_each :: "(string \<Rightarrow> ('s, 'v) config_hook list) \<Rightarrow> ('s, 'v) cstore \<Rightarrow> 'v Config list \<Rightarrow> 's \<Rightarrow> 's \<times> config_api_err list" where
  "delete_each H S [] s = (s, [])"
| "delete_each H S (c # cs) s =
     (case delete_one H S c s of
        (s', errs) \<Rightarrow> (case delete_each H S cs s' of (s'', rest) \<Rightarrow> (s'', errs @ rest)))"

definition Config_Delete ::
  "unicase \<Rightarrow> string list \<Rightarrow> (string \<Rightarrow> ('s, 'v) config_hook list) \<Rightarrow> ('s, 'v) cstore \<Rightarrow> string \<Rightarrow> ('s, unit) api_action" where
  "Config_Delete u ks H S name s =
     (if name = [] then (s, Inl NoName)
      else if name = ''all'' then
        (case Config_List u S ''all'' s of
           (s', Inl e) \<Rightarrow> (s', Inr ())
         | (s', Inr cs) \<Rightarrow> several (delete_each H S cs s'))
      else
        bindE (Config_Get u ks S name) (\<lambda>c s.
          case cs_delete S c s of
            (s', Inl e) \<Rightarrow> (s', Inl (InStore e))
          | (s', Inr _) \<Rightarrow> several (report_hooks ''delete'' (hooks_of H (c_Kind c)) c s')) s)"

text \<open>
  How a typed spec is kept in the fields of a config: \<^verbatim>\<open>structs.MapDefaultCase\<close> and
  \<^verbatim>\<open>mapstructure.Decode\<close>.
\<close>

record ('x, 'v) spec_codec =
  sp_encode :: "'x \<Rightarrow> (string, 'v) gomap"
  sp_decode :: "(string, 'v) gomap \<Rightarrow> string + 'x"

text \<open>A codec that keeps the whole spec in one field.\<close>

definition one_field :: "('a \<Rightarrow> 'v) \<Rightarrow> ('v \<Rightarrow> 'a option) \<Rightarrow> ('a, 'v) spec_codec" where
  "one_field wrap prj =
     \<lparr>sp_encode = (\<lambda>x. Some [''spec'' \<mapsto> wrap x]),
      sp_decode = (\<lambda>m. case map_get m ''spec'' of
         None \<Rightarrow> Inl ''no spec'' | Some v \<Rightarrow> (case prj v of None \<Rightarrow> Inl ''wrong type'' | Some x \<Rightarrow> Inr x))\<rparr>"

subsection \<open>Names\<close>

lemma find_kind_member: "canonicalKind u ks kind \<noteq> [] \<Longrightarrow> canonicalKind u ks kind \<in> set ks"
  unfolding canonicalKind_def by (induction ks) (auto split: if_splits)

lemma NewConfig_Inr:
  assumes "NewConfig u ks name = Inr c"
  shows "c_Kind c \<in> set ks \<and> fresh_config c \<and> (\<exists>k n. split_on CHR ''/'' name = [k, n] \<and> c_Name c = n \<and> c_Kind c = canonicalKind u ks k)"
proof -
  have "length (split_on CHR ''/'' name) = 2" using assms by (auto simp: NewConfig_def Let_def split: if_splits)
  then obtain k n where "split_on CHR ''/'' name = [k, n]" by (auto simp: length_Suc_conv numeral_2_eq_2)
  then show ?thesis
    using assms find_kind_member[of u ks k]
    by (auto simp: NewConfig_def Let_def fresh_config_def empty_config_def empty_metadata_def split: if_splits)
qed

text \<open>A name whose kind folds to exactly one of the kinds is of that kind.\<close>

lemma unique_kind:
  assumes "\<And>x. x \<in> set ks \<Longrightarrow> equal_fold u x s \<longleftrightarrow> x = k" and "k \<in> set ks"
  shows "canonicalKind u ks s = k"
  using assms unfolding canonicalKind_def by (induction ks) auto

lemma NewConfig_key:
  assumes "NewConfig u ks (k @ ''/'' @ n) = Inr t" and "CHR ''/'' \<notin> set k"
  shows "config_key t = (canonicalKind u ks k, n)"
proof -
  obtain l m where lm: "split_on CHR ''/'' (k @ ''/'' @ n) = [l, m]" "c_Name t = m" "c_Kind t = canonicalKind u ks l"
    using NewConfig_Inr[OF assms(1)] by blast
  have "split_on CHR ''/'' (k @ ''/'' @ n) = k # split_on CHR ''/'' n"
    using split_on_append[of "CHR ''/''" k n] assms(2) by simp
  then have "l = k" "split_on CHR ''/'' n = [m]" using lm(1) by auto
  moreover from this(2) have "m = n" using join_split_on[of "CHR ''/''" n] by simp
  ultimately show ?thesis using lm(2,3) by simp
qed

subsection \<open>Hooks that leave the stored configs alone\<close>

text \<open>A hook that may read the store and change the config, but not its key nor when it was created.\<close>

definition quiet_hook :: "('s \<Rightarrow> bool) \<Rightarrow> ('s \<Rightarrow> 'm) \<Rightarrow> ('s, 'v) config_hook \<Rightarrow> bool" where
  "quiet_hook ok view h \<longleftrightarrow>
     (\<forall>stage c s s' c' e. ok s \<longrightarrow> h stage c s = (s', c', e) \<longrightarrow>
        ok s' \<and> view s' = view s \<and> config_key c' = config_key c
        \<and> cm_Created (c_Metadata c') = cm_Created (c_Metadata c))"

lemma quiet_name_hook [simp]: "quiet_hook ok view name_hook"
  by (auto simp: quiet_hook_def name_hook_def)

lemma quiet_hooks_of: "\<forall>h \<in> set (H k). quiet_hook ok view h \<Longrightarrow> \<forall>h \<in> set (hooks_of H k). quiet_hook ok view h"
  by (auto simp: hooks_of_def)

lemma quiet_hookD:
  "quiet_hook ok view h \<Longrightarrow> ok s \<Longrightarrow> h stage c s = (s', c', e) \<Longrightarrow>
   ok s' \<and> view s' = view s \<and> config_key c' = config_key c \<and> cm_Created (c_Metadata c') = cm_Created (c_Metadata c)"
  unfolding quiet_hook_def by blast

lemma run_quiet:
  "\<forall>h \<in> set hs. quiet_hook ok view h \<Longrightarrow> ok s \<Longrightarrow> run_hooks valid stage hs c s = (s', r) \<Longrightarrow>
   ok s' \<and> view s' = view s \<and> (case r of
      Inr c' \<Rightarrow> config_key c' = config_key c \<and> cm_Created (c_Metadata c') = cm_Created (c_Metadata c) | Inl e \<Rightarrow> True)"
proof (induction hs arbitrary: c s)
  case (Cons h hs)
  obtain s1 c1 e where h: "h stage c s = (s1, c1, e)" by (metis prod.exhaust)
  have q: "ok s1 \<and> view s1 = view s \<and> config_key c1 = config_key c \<and> cm_Created (c_Metadata c1) = cm_Created (c_Metadata c)"
    using quiet_hookD[of ok view h s stage c s1 c1 e] Cons.prems h by simp
  show ?case
  proof (cases "e = None \<and> valid c1 = None")
    case True
    then show ?thesis using Cons.IH[of s1 c1] Cons.prems h q by (auto simp: checkV_def bindE_def split: sum.splits)
  next
    case False
    then show ?thesis using Cons.prems h q by (auto simp: checkV_def bindE_def split: option.splits)
  qed
qed auto

lemma report_quiet:
  "\<forall>h \<in> set hs. quiet_hook ok view h \<Longrightarrow> ok s \<Longrightarrow> report_hooks stage hs c s = (s', errs) \<Longrightarrow> ok s' \<and> view s' = view s"
proof (induction hs arbitrary: c s errs)
  case (Cons h hs)
  obtain s1 c1 e where h: "h stage c s = (s1, c1, e)" by (metis prod.exhaust)
  have q: "ok s1 \<and> view s1 = view s" using quiet_hookD[of ok view h s stage c s1 c1 e] Cons.prems h by simp
  obtain s2 errs' where "report_hooks stage hs c1 s1 = (s2, errs')" by fastforce
  then show ?case using Cons.IH[of s1 c1 errs'] Cons.prems h q by (auto split: option.splits)
qed simp

subsection \<open>Outcomes of an update\<close>

text \<open>
  What an update does to the configs under the old key \<open>k\<close> and the key \<open>k'\<close> of the new config:
  nothing, the new config replaced or added, or moved from \<open>k\<close> to \<open>k'\<close>.
\<close>

definition update_outcome :: "('k \<rightharpoonup> 'a) \<Rightarrow> ('k \<rightharpoonup> 'a) \<Rightarrow> 'k \<Rightarrow> 'k \<Rightarrow> ('a \<Rightarrow> bool) \<Rightarrow> bool \<Rightarrow> bool" where
  "update_outcome m m' k k' good done \<longleftrightarrow>
     (\<exists>c. good c \<and> (if m k' = None then m' = m(k := None, k' \<mapsto> c) else m' = m(k' \<mapsto> c)))
     \<or> \<not> done \<and> (m' = m \<or> m k' = None \<and> (\<exists>c. good c \<and> m' = m(k' \<mapsto> c)))"

lemma outcome_weaken:
  assumes "update_outcome m m' k k' P d" and imp: "\<And>x. P x \<Longrightarrow> Q x"
  shows "update_outcome m m' k k' Q d"
proof -
  consider (moved) c where "P c" "if m k' = None then m' = m(k := None, k' \<mapsto> c) else m' = m(k' \<mapsto> c)"
    | (same) "\<not> d" "m' = m" | (both) c where "\<not> d" "m k' = None" "P c" "m' = m(k' \<mapsto> c)"
    using assms(1) unfolding update_outcome_def by blast
  then show ?thesis
  proof cases
    case moved
    then show ?thesis using imp unfolding update_outcome_def by blast
  next
    case same
    then show ?thesis by (simp add: update_outcome_def)
  next
    case both
    then show ?thesis using imp unfolding update_outcome_def by blast
  qed
qed

text \<open>A new config derived from \<open>c\<close> that keeps the time \<open>old\<close> was created.\<close>

definition keeps_created :: "'v Config \<Rightarrow> 'v Config \<Rightarrow> 'v Config \<Rightarrow> bool" where
  "keeps_created old c x \<longleftrightarrow> config_key x = config_key c
     \<and> (cm_Created (c_Metadata old) \<noteq> [] \<longrightarrow> cm_Created (c_Metadata x) = cm_Created (c_Metadata old))"

subsection \<open>The calls over any store of configs\<close>

locale config_api = config_store S ok view norm
  for S :: "('s, 'v) cstore" and ok :: "'s \<Rightarrow> bool" and view :: "'s \<Rightarrow> string \<times> string \<rightharpoonup> 'v Config"
    and norm :: "'v Config \<Rightarrow> 'v Config" +
  fixes u :: unicase and ks :: "string list"
  assumes kinds_order: "set ks = set config_kinds"
begin

lemma named:
  assumes "NewConfig u ks name = Inr t" and "ok s" and "cs_get S t s = (s', r)"
  shows "ok s' \<and> view s' = view s \<and> existing_outcome (view s) (view s') (config_key t) (\<lambda>c. view s (config_key t) = Some c) r"
  using get_law[OF assms(2) _ _ assms(3)] NewConfig_Inr[OF assms(1)] kinds_order by blast

lemma get_named:
  assumes "ok s" and "Config_Get u ks S name s = (s', r)"
  shows "ok s' \<and> view s' = view s
    \<and> (case r of
         Inr c \<Rightarrow> \<exists>t. NewConfig u ks name = Inr (t :: 'v Config) \<and> view s (config_key t) = Some c \<and> config_key c = config_key t
       | Inl e \<Rightarrow> True)"
proof (cases "NewConfig u ks name :: config_err + 'v Config")
  case (Inl e)
  then show ?thesis using assms by (auto simp: Config_Get_def config_named_def in_store_def bindE_def split: if_splits)
next
  case (Inr t)
  obtain s1 r1 where g: "cs_get S t s = (s1, r1)" by fastforce
  note n = named[OF Inr assms(1) g]
  have "s' = (if name = [] then s else s1) \<and> (\<forall>c. r = Inr c \<longrightarrow> r1 = Inr c)"
    using assms(2) g Inr by (auto simp: Config_Get_def config_named_def in_store_def bindE_def split: if_splits sum.splits)
  then have s': "ok s' \<and> view s' = view s" and r: "\<And>c. r = Inr c \<Longrightarrow> r1 = Inr c" using n assms(1) by auto
  show ?thesis
  proof (cases r)
    case (Inl e)
    then show ?thesis using s' by simp
  next
    case [simp]: (Inr c)
    have "view s (config_key t) = Some c" using n r by (simp add: existing_outcome_def)
    then show ?thesis using s' \<open>NewConfig u ks name = Inr t\<close> view_key[OF assms(1)] by fastforce
  qed
qed

lemma renaming:
  assumes "ok s" and "c_Kind c \<in> set config_kinds" and "c_Kind old \<in> set config_kinds"
    and "view s (config_key c) = None" and "view s (config_key old) = Some old"
    and "\<forall>k. \<forall>h \<in> set (H k). quiet_hook ok view h" and "rename_config H S now old c s = (s', r)"
  shows "ok s' \<and> update_outcome (view s) (view s') (config_key old) (config_key c) (\<lambda>x. x = norm (created_at now c)) (r = Inr ())"
proof -
  obtain s1 r1 where c: "cs_create S now c s = (s1, r1)" by fastforce
  note c1 = create_law[OF assms(1,2) c]
  show ?thesis
  proof (cases r1)
    case (Inl e)
    then show ?thesis using assms(7) c c1 by (auto simp: rename_config_def in_store_def bindE_def update_outcome_def)
  next
    case (Inr c')
    then have s1: "ok s1" "view s1 = (view s)(config_key c \<mapsto> norm c')" "c' = created_at now c" using c1 by auto
    have c': "config_key c' = config_key c" by (simp add: s1(3) created_at_def Let_def)
    obtain s2 d where d: "cs_delete S old s1 = (s2, d)" by fastforce
    note d1 = delete_law[OF s1(1) assms(3) d]
    show ?thesis
    proof (cases d)
      case (Inl e)
      obtain s3 d3 where d3: "cs_delete S c' s2 = (s3, d3)" by fastforce
      have "s' = s3 \<and> r = Inl (InStore e)"
        using assms(7) c \<open>r1 = Inr c'\<close> d Inl d3 by (auto simp: rename_config_def in_store_def bindE_def)
      moreover have "ok s2" "view s2 = view s1" using d1 Inl by (auto simp: existing_outcome_def)
      moreover have "ok s3 \<and> (view s3 = view s1 \<or> view s3 = view s)"
        using delete_law[OF _ _ d3] calculation(2,3) assms(2,4) c' s1(2)
        by (auto simp: existing_outcome_def split: sum.splits)
      ultimately show ?thesis using s1(2,3) assms(4) by (auto simp: update_outcome_def)
    next
      case (Inr x)
      obtain s3 errs where rep: "report_hooks ''rename'' (hooks_of H (c_Kind old)) old s2 = (s3, errs)" by fastforce
      have s2: "ok s2" "view s2 = (view s1)(config_key old := None)" using d1 Inr by (auto simp: existing_outcome_def)
      have "s' = s3" using assms(7) c \<open>r1 = Inr c'\<close> d Inr rep
        by (auto simp: rename_config_def in_store_def bindE_def renamed_def several_def)
      moreover have "ok s3" "view s3 = (view s1)(config_key old := None)"
        using report_quiet[OF quiet_hooks_of[of H "c_Kind old" ok view] s2(1) rep] assms(6) s2(2) by auto
      moreover have "config_key old \<noteq> config_key c" using assms(4,5) by auto
      ultimately show ?thesis using s1(2,3) assms(4) by (auto simp: update_outcome_def fun_upd_twist)
    qed
  qed
qed

lemma put_or_rename:
  assumes "ok s" and "c_Kind c \<in> set config_kinds" and "c_Kind old \<in> set config_kinds"
    and "view s (config_key old) = Some old" and "\<forall>k. \<forall>h \<in> set (H k). quiet_hook ok view h"
    and "(case cs_update S now c s of
               (s', Inr _) \<Rightarrow> (s', Inr ())
             | (s', Inl (ConfigNotExist n k)) \<Rightarrow> rename_config H S now old c s'
             | (s', Inl e) \<Rightarrow> (s', Inl (InStore e))) = (s', r)"
  shows "ok s' \<and> update_outcome (view s) (view s') (config_key old) (config_key c)
    (\<lambda>x. x = norm (updated_at now c) \<or> x = norm (created_at now c)) (r = Inr ())"
proof -
  obtain s1 r1 where up: "cs_update S now c s = (s1, r1)" by fastforce
  note u1 = update_law[OF assms(1,2) up]
  show ?thesis
  proof (cases r1)
    case (Inr c')
    then show ?thesis using assms(6) up u1 by (auto simp: existing_outcome_def update_outcome_def)
  next
    case (Inl e)
    then have s1: "ok s1" "view s1 = view s" using u1 by (auto simp: existing_outcome_def)
    show ?thesis
    proof (cases "\<exists>n k. e = ConfigNotExist n k")
      case True
      then have "view s (config_key c) = None" "rename_config H S now old c s1 = (s', r)"
        using u1 Inl assms(6) up by (auto simp: existing_outcome_def)
      then have "ok s' \<and> update_outcome (view s) (view s') (config_key old) (config_key c) (\<lambda>x. x = norm (created_at now c)) (r = Inr ())"
        using renaming[OF s1(1) assms(2,3) _ _ assms(5)] assms(4) s1(2) by simp
      then show ?thesis by (auto elim: outcome_weaken)
    next
      case False
      then have "s' = s1 \<and> r \<noteq> Inr ()" using assms(6) up Inl by (auto split: config_err.splits)
      then show ?thesis using s1 by (simp add: update_outcome_def)
    qed
  qed
qed

lemma updating:
  assumes "ok s" and "c_Kind c \<in> set config_kinds" and "\<forall>k. \<forall>h \<in> set (H k). quiet_hook ok view h"
    and t: "NewConfig u ks name = Inr (t :: 'v Config)" and run: "Config_Update u ks valid H S now name c s = (s', r)"
  shows "ok s' \<and> (case view s (config_key t) of
      None \<Rightarrow> view s' = view s \<and> r \<noteq> Inr ()
    | Some old \<Rightarrow> update_outcome (view s) (view s') (config_key t) (config_key c) (keeps_created old c) (r = Inr ()))"
proof -
  obtain s1 r1 where g: "cs_get S t s = (s1, r1)" by fastforce
  note g1 = named[OF t assms(1) g]
  show ?thesis
  proof (cases r1)
    case (Inl e)
    then have "s' = s1 \<and> r = Inl (InStore e)"
      using run t g by (auto simp: Config_Update_def config_named_def in_store_def bindE_def)
    then show ?thesis using g1 by (auto simp: update_outcome_def split: option.splits)
  next
    case (Inr old)
    have s1: "ok s1" "view s1 = view s" and old: "view s (config_key t) = Some old"
      using g1 Inr by (auto simp: existing_outcome_def)
    have okey: "config_key old = config_key t" using view_key[OF assms(1) old] .
    let ?c1 = "c\<lparr>c_Metadata := (c_Metadata c)\<lparr>cm_Created := cm_Created (c_Metadata old)\<rparr>\<rparr>"
    obtain s2 r2 where h: "run_hooks valid ''update'' (hooks_of H (c_Kind c)) ?c1 s1 = (s2, r2)" by fastforce
    have hq: "ok s2" "view s2 = view s" "\<And>c'. r2 = Inr c' \<Longrightarrow> config_key c' = config_key c \<and> cm_Created (c_Metadata c') = cm_Created (c_Metadata old)"
      using run_quiet[OF quiet_hooks_of[of H "c_Kind c" ok view] s1(1) h] assms(3) s1(2) by auto
    have start: "Config_Update u ks valid H S now name c s =
        (case valid ?c1 of Some m \<Rightarrow> (s1, Inl (Invalid m)) | None \<Rightarrow>
          (case r2 of Inl e \<Rightarrow> (s2, Inl e) | Inr c2 \<Rightarrow>
            (case cs_update S now c2 s2 of
               (s', Inr _) \<Rightarrow> (s', Inr ())
             | (s', Inl (ConfigNotExist n k)) \<Rightarrow> rename_config H S now old c2 s'
             | (s', Inl e) \<Rightarrow> (s', Inl (InStore e)))))"
      using t g Inr h
      by (auto simp: Config_Update_def config_named_def in_store_def bindE_def checkV_def Let_def split: option.splits sum.splits)
    show ?thesis
    proof (cases "valid ?c1 = None \<and> (\<exists>c2. r2 = Inr c2)")
      case False
      then show ?thesis using run start s1 hq(1,2) old
        by (auto simp: update_outcome_def split: option.splits sum.splits)
    next
      case True
      then obtain c2 where c2: "r2 = Inr c2" by blast
      note key = hq(3)[OF c2]
      have "c_Kind c2 \<in> set config_kinds" "c_Kind old \<in> set config_kinds"
        using key assms(2) okey NewConfig_Inr[OF t] kinds_order by simp_all
      note step = put_or_rename[OF hq(1) this _ assms(3)]
      have "ok s' \<and> update_outcome (view s) (view s') (config_key old) (config_key c2)
          (\<lambda>x. x = norm (updated_at now c2) \<or> x = norm (created_at now c2)) (r = Inr ())"
        using step[of now s' r] run start True c2 hq(2) old okey by simp
      moreover have "keeps_created old c x" if "x = norm (updated_at now c2) \<or> x = norm (created_at now c2)" for x
        using that key by (auto simp: keeps_created_def norm_key[simplified] norm_times updated_at_def created_at_def Let_def)
      ultimately have "ok s' \<and> update_outcome (view s) (view s') (config_key old) (config_key c2) (keeps_created old c) (r = Inr ())"
        by (blast intro: outcome_weaken)
      then show ?thesis using old okey key by simp
    qed
  qed
qed

end

interpretation tapi: config_api "BoltDB ref_bolt text_json" "config_ok ref_bolt text_json rb_good"
    "config_view ref_bolt text_json" text_norm u config_kinds for u
  by (intro config_api.intro config_api_axioms.intro tcs.is_config_store) simp

subsection \<open>Updating and renaming\<close>


text \<open>A file with the topology \<open>a\<close>, created at \<open>t0\<close>.\<close>

definition topo_config :: "string \<Rightarrow> string Config" where
  "topo_config n = \<lparr>c_Version = ''phenix.sandia.gov/v1'', c_Kind = ''Topology'',
     c_Metadata = \<lparr>cm_Name = n, cm_Created = ''t0'', cm_Updated = ''t0'', cm_Annotations = None\<rparr>,
     c_Spec = None, c_Status = None\<rparr>"

definition topo_db :: rbolt where
  "topo_db = [([''Topology''], 0, [(''a'', case text_marshal (topo_config ''a'') of Inr b \<Rightarrow> b | Inl _ \<Rightarrow> [])])]"

lemma topo_marshal: "\<exists>b. text_marshal (topo_config n) = Inr b"
  by (simp add: text_marshal_def topo_config_def)

lemma topo_db_ok: "config_ok ref_bolt text_json rb_good topo_db"
proof -
  obtain b where b: "text_marshal (topo_config ''a'') = Inr b" using topo_marshal by blast
  have "c_Kind (topo_config ''a'') = ''Topology''" "c_Name (topo_config ''a'') = ''a''" by (simp_all add: topo_config_def)
  then show ?thesis using b
    by (auto simp: config_ok_def topo_db_def rb_good_def rb_defs text_json_def split: if_splits)
qed

lemma topo_view: "config_view ref_bolt text_json topo_db (''Topology'', ''a'') \<noteq> None"
  using tcs.view_get(1)[OF topo_db_ok, of "''Topology''" "''a''"]
  by (simp add: config_kinds_def StoredVersion_def topo_db_def rb_defs)

lemma new_topology:
  "NewConfig \<lparr>u_lower = id, u_fold = id\<rparr> config_kinds ''topology/a''
   = Inr (empty_config\<lparr>c_Version := ''phenix.sandia.gov/v1'', c_Kind := ''Topology'',
       c_Metadata := empty_metadata\<lparr>cm_Name := ''a''\<rparr>\<rparr>)"
  by (simp add: NewConfig_def Let_def canonicalKind_def config_kinds_def StoredVersion_def APIGroup_def equal_fold_def runes_def rune_fold_def)


end
