(* ===== verification/Cluster.thy ===== *)
theory Cluster
  imports Go_Runtime
begin

section \<open>The hosts of a cluster and lists of machines\<close>

text \<open>
  \<^verbatim>\<open>util/mm/types.go\<close>: the hosts as minimega reports them, the orders the schedulers sort them in,
  looking a host up and adding to what is committed on it; the pages of a list of VMs; and the
  disk strings of minimega. \<^verbatim>\<open>sort.Slice\<close> is the argument \<open>srt\<close>, a sorter with the contract of the
  locale \<^term>\<open>slice_sort\<close>. The floating-point fields of a host are left out: nothing modelled reads
  them. Page numbers are 64-bit, since the product of page and size may wrap.
\<close>

record Host =
  h_Name :: string
  h_CPUs :: int
  h_CPUCommit :: int
  h_MemUsed :: int
  h_MemTotal :: int
  h_MemCommit :: int
  h_NetCommit :: int
  h_VMs :: int
  h_Schedulable :: bool
  h_Headnode :: bool

type_synonym host_sort = "(Host \<Rightarrow> int) \<Rightarrow> Host list \<Rightarrow> Host list"

definition sort_by :: "host_sort \<Rightarrow> (Host \<Rightarrow> int) \<Rightarrow> bool \<Rightarrow> Host list \<Rightarrow> Host list" where
  "sort_by srt key asc h = (if asc then srt key h else srt (\<lambda>x. - key x) h)"

definition SortByUnallocatedCPU :: "host_sort \<Rightarrow> bool \<Rightarrow> Host list \<Rightarrow> Host list" where
  "SortByUnallocatedCPU srt = sort_by srt (\<lambda>h. h_CPUs h - h_CPUCommit h)"

definition SortByCommittedCPU :: "host_sort \<Rightarrow> bool \<Rightarrow> Host list \<Rightarrow> Host list" where
  "SortByCommittedCPU srt = sort_by srt h_CPUCommit"

definition SortByUnallocatedMem :: "host_sort \<Rightarrow> bool \<Rightarrow> Host list \<Rightarrow> Host list" where
  "SortByUnallocatedMem srt = sort_by srt (\<lambda>h. h_MemTotal h - h_MemCommit h)"

definition SortByCommittedMem :: "host_sort \<Rightarrow> bool \<Rightarrow> Host list \<Rightarrow> Host list" where
  "SortByCommittedMem srt = sort_by srt h_MemCommit"

definition SortByVMs :: "host_sort \<Rightarrow> bool \<Rightarrow> Host list \<Rightarrow> Host list" where
  "SortByVMs srt = sort_by srt h_VMs"

definition FindHostByName :: "string \<Rightarrow> Host list \<Rightarrow> Host option" where
  "FindHostByName name h = find (\<lambda>x. h_Name x = name) h"

text \<open>The hosts after the call; \<^const>\<open>None\<close> is \<^verbatim>\<open>ErrHostNotFound\<close>.\<close>

fun incr_host :: "(Host \<Rightarrow> Host) \<Rightarrow> string \<Rightarrow> Host list \<Rightarrow> Host list option" where
  "incr_host f name [] = None"
| "incr_host f name (x # xs) =
     (if h_Name x = name then Some (f x # xs) else map_option (Cons x) (incr_host f name xs))"

definition IncrHostVMs :: "string \<Rightarrow> int \<Rightarrow> Host list \<Rightarrow> Host list option" where
  "IncrHostVMs name i = incr_host (\<lambda>x. x\<lparr>h_VMs := h_VMs x + i\<rparr>) name"

definition IncrHostCPUCommit :: "string \<Rightarrow> int \<Rightarrow> Host list \<Rightarrow> Host list option" where
  "IncrHostCPUCommit name i = incr_host (\<lambda>x. x\<lparr>h_CPUCommit := h_CPUCommit x + i\<rparr>) name"

definition IncrHostMemCommit :: "string \<Rightarrow> int \<Rightarrow> Host list \<Rightarrow> Host list option" where
  "IncrHostMemCommit name i = incr_host (\<lambda>x. x\<lparr>h_MemCommit := h_MemCommit x + i\<rparr>) name"

text \<open>\<^verbatim>\<open>_ = cluster.IncrHost...\<close>: an error leaves the hosts as they are.\<close>

definition or_same :: "Host list \<Rightarrow> Host list option \<Rightarrow> Host list" where
  "or_same h r = (case r of None \<Rightarrow> h | Some h' \<Rightarrow> h')"

definition Paginate :: "int64 \<Rightarrow> int64 \<Rightarrow> 'a list \<Rightarrow> 'a list go" where
  "Paginate page sz v =
     (let start = (page - 1) * sz; stop = start + sz; n = word_of_nat (length v)
      in if sint n \<le> sint start then Inr []
         else
           let stop' = (if sint n < sint stop then n else stop)
           in if sint start < 0 \<or> sint stop' < sint start then Inl IndexRange
              else Inr (drop (unat start) (take (unat stop') v)))"

record diskConfig =
  dc_path :: string
  dc_base :: string
  dc_cache :: string

text \<open>\<^verbatim>\<open>filepath.Base\<close>: the last element of a path, without trailing slashes.\<close>

definition path_base :: "string \<Rightarrow> string" where
  "path_base p =
     (if p = [] then ''.''
      else
        let q = rev (dropWhile (\<lambda>c. c = CHR ''/'') (rev p))
        in if q = [] then ''/'' else last (split_on CHR ''/'' q))"

definition newDiskConfig :: "string \<Rightarrow> diskConfig" where
  "newDiskConfig c =
     (let tokens = split_on CHR '','' c
      in \<lparr>dc_path = hd tokens, dc_base = path_base (hd tokens),
          dc_cache = (if length tokens > 1 then tokens ! 1 else [])\<rparr>)"

definition diskConfig_string :: "string \<Rightarrow> diskConfig \<Rightarrow> string" where
  "diskConfig_string cache d =
     (if cache \<noteq> [] then dc_path d @ '','' @ cache
      else if dc_cache d \<noteq> [] then dc_path d @ '','' @ dc_cache d
      else dc_path d)"

subsection \<open>Hosts\<close>

lemma find_host_SomeD: "FindHostByName name h = Some x \<Longrightarrow> x \<in> set h \<and> h_Name x = name"
  unfolding FindHostByName_def by (induction h) (auto split: if_splits)

lemma find_host_None: "FindHostByName name h = None \<longleftrightarrow> name \<notin> h_Name ` set h"
  by (auto simp: FindHostByName_def find_None_iff)

lemma incr_host_names:
  "(\<And>x. h_Name (f x) = h_Name x) \<Longrightarrow> incr_host f name h = Some h' \<Longrightarrow> map h_Name h' = map h_Name h"
  by (induction h arbitrary: h') (auto split: if_splits)

lemma incr_host_None: "incr_host f name h = None \<longleftrightarrow> name \<notin> h_Name ` set h"
  by (induction h) auto

text \<open>Adding to a host changes that host and no other, when names are distinct.\<close>

lemma incr_host_map:
  "distinct (map h_Name h) \<Longrightarrow> incr_host f name h = Some h' \<Longrightarrow>
   h' = map (\<lambda>x. if h_Name x = name then f x else x) h"
proof (induction h arbitrary: h')
  case (Cons x xs)
  show ?case
  proof (cases "h_Name x = name")
    case True
    then have "map (\<lambda>x. if h_Name x = name then f x else x) xs = xs"
      using Cons.prems(1) by (intro map_idI) (auto simp: image_iff)
    then show ?thesis using True Cons.prems(2) by simp
  next
    case False
    then show ?thesis using Cons by auto
  qed
qed simp

subsection \<open>Pages\<close>

lemma small_word:
  assumes "n < 2 ^ 63"
  shows "sint (word_of_nat n :: int64) = int n" and "unat (word_of_nat n :: int64) = n"
proof -
  show "unat (word_of_nat n :: int64) = n" using assms by (simp add: unat_of_nat)
  have "sint (word_of_int (int n) :: int64) = (int n + 2 ^ 63) mod 2 ^ 64 - 2 ^ 63"
    by (subst int_word_sint) simp
  also have "\<dots> = int n" using assms by (simp add: mod_pos_pos_trivial)
  finally show "sint (word_of_nat n :: int64) = int n" by (simp only: of_int_of_nat_eq)
qed

text \<open>
  Page \<open>p\<close> of size \<open>k\<close> of a list is its elements from \<open>(p - 1) * k\<close> on, at most \<open>k\<close> of them, as
  long as the positions fit 63 bits; in particular the pages one after the other are the list.
\<close>

theorem paginate_page:
  assumes "1 \<le> p" and "p * k < 2 ^ 63" and "length v < 2 ^ 63"
  shows "Paginate (word_of_nat p) (word_of_nat k) v = Inr (take k (drop ((p - 1) * k) v))"
proof -
  obtain a b where a: "a = (p - 1) * k" and b: "b = p * k" by blast
  have ab: "b = a + k" using assms(1) by (cases p) (simp_all add: a b)
  have "(word_of_nat p - 1) * word_of_nat k = (word_of_nat a :: int64)"
    using assms(1) by (cases p) (simp_all add: a algebra_simps)
  moreover have "(word_of_nat a + word_of_nat k :: int64) = word_of_nat b" by (simp add: ab)
  moreover have "b < 2 ^ 63" "a < 2 ^ 63" "a \<le> b" using assms(2) ab b by simp_all
  ultimately have "Paginate (word_of_nat p) (word_of_nat k) v
      = (if length v \<le> a then Inr [] else Inr (drop a (take (min b (length v)) v)))"
    using assms(3) by (simp add: Paginate_def Let_def small_word min_def)
  also have "\<dots> = Inr (take k (drop a v))" by (auto simp: ab take_drop add.commute min_def)
  finally show ?thesis unfolding a .
qed

theorem paginate_page_witness: "Paginate 2 3 [10, 11, 12, 13, 14 :: int] = Inr [13, 14]"
  using paginate_page[of 2 3 "[10, 11, 12, 13, 14 :: int]"] by simp

lemma concat_pages: "concat (map (\<lambda>p. take k (drop (p * k) v)) [0..<n]) = take (n * k) v"
  by (induction n) (auto simp: take_add[of "n * k" k for n] add.commute[of k])

text \<open>Page 0, which the web handlers pass on when the query asks for it, is out of range.\<close>

lemma paginate_zero_panics: "Paginate 0 5 [x] = Inl IndexRange"
  by (simp add: Paginate_def Let_def)

subsection \<open>Disk strings\<close>

text \<open>
  Printing a disk configuration and reading it back keeps the path and gives the cache mode
  asked for, or the one it had when none is asked for.
\<close>

theorem disk_config_roundtrip:
  assumes "CHR '','' \<notin> set (dc_path d)" and "CHR '','' \<notin> set (dc_cache d)" and "CHR '','' \<notin> set cache"
    and "dc_base d = path_base (dc_path d)"
  shows "newDiskConfig (diskConfig_string cache d) = d\<lparr>dc_cache := (if cache \<noteq> [] then cache else dc_cache d)\<rparr>"
  using assms
  by (cases d) (auto simp: newDiskConfig_def diskConfig_string_def Let_def split_on_append split_on_free)

theorem disk_config_roundtrip_witness:
  "newDiskConfig (diskConfig_string ''writeback'' \<lparr>dc_path = ''/i/a.qc2'', dc_base = ''a.qc2'', dc_cache = ''none''\<rparr>)
     = \<lparr>dc_path = ''/i/a.qc2'', dc_base = ''a.qc2'', dc_cache = ''writeback''\<rparr>"
proof -
  have "path_base ''/i/a.qc2'' = ''a.qc2''" by (simp add: path_base_def Let_def)
  then show ?thesis
    using disk_config_roundtrip[of "\<lparr>dc_path = ''/i/a.qc2'', dc_base = ''a.qc2'', dc_cache = ''none''\<rparr>" "''writeback''"]
    by simp
qed

end
