(* ===== verification/Scheduler.thy ===== *)
theory Scheduler
  imports Experiment_Spec Cluster
begin

section \<open>Scheduling the nodes of an experiment on the hosts of the cluster\<close>

text \<open>
  \<^verbatim>\<open>scheduler\<close>: the registry, the schedulers \<^verbatim>\<open>round-robin\<close>, \<^verbatim>\<open>isolate-experiment\<close> and
  \<^verbatim>\<open>subnet-compute\<close>, and the one that runs a program of the user. A scheduler changes the schedule
  of an experiment spec. The cluster is the argument \<open>cluster\<close>, the result of
  \<^verbatim>\<open>mm.GetClusterHosts(true)\<close>; \<open>srt\<close> is \<^verbatim>\<open>sort.Slice\<close>; \<open>ord\<close> gives the keys of the schedule in the
  order a range takes. Amounts of CPUs and memory are integers: the float64 quotients the code
  compares with 1 are exact enough to compare the integers themselves, which are far below
  \<open>2 ^ 53\<close>. Messages printed on the way are left out.

  The locale \<open>scheduler\<close> is the contract of the interface \<^verbatim>\<open>Scheduler\<close>: when it reports no error,
  every node that phenix launches has a host, nodes outside the topology keep theirs, and nothing
  else of the spec changes. All three built-in schedulers are instances.
\<close>

datatype sched_err =
  NoVMs | GettingHosts string | NodeWithoutInterfaces string | NoUnusedHosts
| UserSchedulerMissing string | UserSchedulerFailed string | SchedPanic go_panic

type_synonym sched_result = "ExperimentSpec \<times> sched_err option"
type_synonym hosts_result = "string + Host list"
type_synonym sched_order = "(string \<Rightarrow> string option) \<Rightarrow> string list"

text \<open>\<^verbatim>\<open>spec.Schedules()[node] = host\<close>: on a spec without a schedule this writes to a fresh map.\<close>

definition put_schedule :: "string \<Rightarrow> string \<Rightarrow> ExperimentSpec \<Rightarrow> ExperimentSpec" where
  "put_schedule node h e =
     (case es_Schedules e of None \<Rightarrow> e | Some m \<Rightarrow> e\<lparr>es_Schedules := Some (m(node \<mapsto> h))\<rparr>)"

abbreviation sched :: "ExperimentSpec \<Rightarrow> string \<Rightarrow> string option" where
  "sched e \<equiv> map_get (es_Schedules e)"

abbreviation spec_nodes :: "ExperimentSpec \<Rightarrow> Node option list" where
  "spec_nodes e \<equiv> Nodes (es_Topology e)"

subsection \<open>round-robin\<close>

definition count_manual :: "string list \<Rightarrow> Host list \<Rightarrow> Host list" where
  "count_manual names cluster =
     foldl (\<lambda>c name. if FindHostByName name c \<noteq> None then or_same c (IncrHostVMs name 1 c) else c) cluster names"

fun rr_loop :: "host_sort \<Rightarrow> Node option list \<Rightarrow> Host list \<Rightarrow> ExperimentSpec \<Rightarrow> Host list \<times> sched_result" where
  "rr_loop srt [] c e = (c, e, None)"
| "rr_loop srt (p # ps) c e =
     (case p of
        None \<Rightarrow> (c, e, Some (SchedPanic NilDeref))
      | Some n \<Rightarrow>
          if External n then rr_loop srt ps c e
          else
            let name = Hostname (nd_General n)
            in if sched e name \<noteq> None then rr_loop srt ps c e
               else
                 (case c of
                    [] \<Rightarrow> (c, e, Some (SchedPanic IndexRange))
                  | h # hs \<Rightarrow>
                      rr_loop srt ps (SortByVMs srt True (h\<lparr>h_VMs := h_VMs h + 1\<rparr> # hs))
                        (put_schedule name (h_Name h) e)))"

definition roundRobin_Schedule ::
  "host_sort \<Rightarrow> sched_order \<Rightarrow> hosts_result \<Rightarrow> ExperimentSpec \<Rightarrow> sched_result" where
  "roundRobin_Schedule srt ord cluster e =
     (if spec_nodes e = [] then (e, Some NoVMs)
      else
        (case cluster of
           Inl m \<Rightarrow> (e, Some (GettingHosts m))
         | Inr c \<Rightarrow>
             let c1 = count_manual (map (\<lambda>k. the (sched e k)) (ord (sched e))) c
             in snd (rr_loop srt (spec_nodes e) (SortByVMs srt True c1) e)))"

subsection \<open>isolate-experiment\<close>

text \<open>\<^verbatim>\<open>float64(a) / float64(b) < 1.0\<close>; dividing by 0 gives an infinity or NaN.\<close>

definition ratio_below_one :: "int \<Rightarrow> int \<Rightarrow> bool" where
  "ratio_below_one a b \<longleftrightarrow> (if b = 0 then a < 0 else if 0 < b then a < b else b < a)"

definition host_fits :: "int \<Rightarrow> int \<Rightarrow> Host \<Rightarrow> bool" where
  "host_fits totalCPU totalMEM h \<longleftrightarrow>
     ratio_below_one (totalCPU + h_CPUCommit h) (h_CPUs h)
     \<and> ratio_below_one (totalMEM + h_MemCommit h) (h_MemTotal h)"

text \<open>The totals over the nodes to launch and the first hostname among them that is not empty.\<close>

fun node_totals :: "Node option list \<Rightarrow> int \<times> int \<times> string \<Rightarrow> (int \<times> int \<times> string) go" where
  "node_totals [] acc = Inr acc"
| "node_totals (p # ps) (cpu, mem, first) =
     bindR (deref p) (\<lambda>n.
       if External n then node_totals ps (cpu, mem, first)
       else node_totals ps (cpu + VCPU (nd_Hardware n), mem + Memory (nd_Hardware n),
              if first = [] then Hostname (nd_General n) else first))"

fun schedule_all :: "string \<Rightarrow> Node option list \<Rightarrow> ExperimentSpec \<Rightarrow> ExperimentSpec" where
  "schedule_all h [] e = e"
| "schedule_all h (p # ps) e =
     (case p of
        None \<Rightarrow> schedule_all h ps e
      | Some n \<Rightarrow>
          schedule_all h ps (if External n then e else put_schedule (Hostname (nd_General n)) h e))"

definition isolateExperiment_Schedule ::
  "host_sort \<Rightarrow> hosts_result \<Rightarrow> ExperimentSpec \<Rightarrow> sched_result" where
  "isolateExperiment_Schedule srt cluster e =
     (if spec_nodes e = [] then (e, Some NoVMs)
      else
        (case cluster of
           Inl m \<Rightarrow> (e, Some (GettingHosts m))
         | Inr c \<Rightarrow>
             (case node_totals (spec_nodes e) (0, 0, []) of
                Inl p \<Rightarrow> (e, Some (SchedPanic p))
              | Inr (totalCPU, totalMEM, first) \<Rightarrow>
                  let manual = (case sched e first of
                                  None \<Rightarrow> None
                                | Some name \<Rightarrow> find (\<lambda>h. h_VMs h = 0) (case FindHostByName name c of None \<Rightarrow> [] | Some h \<Rightarrow> [h]));
                      c1 = SortByUnallocatedMem srt False c;
                      fitting = find (\<lambda>h. h_VMs h = 0 \<and> host_fits totalCPU totalMEM h) c1;
                      unused = find (\<lambda>h. h_VMs h = 0) c1
                  in (case (case manual of Some h \<Rightarrow> Some h
                            | None \<Rightarrow> (case fitting of Some h \<Rightarrow> Some h | None \<Rightarrow> unused)) of
                        Some h \<Rightarrow> (schedule_all (h_Name h) (spec_nodes e) e, None)
                      | None \<Rightarrow> (e, Some NoUnusedHosts)))))"

subsection \<open>subnet-compute\<close>

text \<open>The VLAN of the first interface of a node; an error when it has none.\<close>

definition first_vlan :: "Node \<Rightarrow> sched_err + string" where
  "first_vlan n =
     (case nd_Network n of
        None \<Rightarrow> Inl (NodeWithoutInterfaces (Hostname (nd_General n)))
      | Some net \<Rightarrow>
          (case net_Interfaces net of
             [] \<Rightarrow> Inl (NodeWithoutInterfaces (Hostname (nd_General n)))
           | None # is \<Rightarrow> Inl (SchedPanic NilDeref)
           | Some i # is \<Rightarrow> Inr (if_VLAN i)))"

type_synonym vlan_hosts = "string \<Rightarrow> string list"

text \<open>
  The VMs scheduled by hand: their memory is committed on their host, and their VLAN maps to it.
  In \<open>vlan_hosts\<close> a VLAN that is not in the map has no hosts, which the code treats alike.
\<close>

fun manual_vlans ::
  "ExperimentSpec \<Rightarrow> string list \<Rightarrow> Host list \<Rightarrow> vlan_hosts \<Rightarrow> sched_err + Host list \<times> vlan_hosts" where
  "manual_vlans e [] c v = Inr (c, v)"
| "manual_vlans e (node # ks) c v =
     (let h = the (sched e node)
      in (case FindHostByName h c of
            None \<Rightarrow> manual_vlans e ks c v
          | Some hst \<Rightarrow>
              (case FindNodeByName node (case es_Topology e of None \<Rightarrow> \<lparr>ts_IncludeTopologies = [], ts_Nodes = []\<rparr> | Some t \<Rightarrow> t) of
                 Inl p \<Rightarrow> Inl (SchedPanic p)
               | Inr None \<Rightarrow> manual_vlans e ks c v
               | Inr (Some n) \<Rightarrow>
                   (case first_vlan n of
                      Inl err \<Rightarrow> Inl err
                    | Inr vlan \<Rightarrow>
                        manual_vlans e ks (or_same c (IncrHostMemCommit h (Memory (nd_Hardware n)) c))
                          (v(vlan := v vlan @ [h_Name hst]))))))"

definition vlan_host :: "int \<Rightarrow> string list \<Rightarrow> Host list \<Rightarrow> Host option" where
  "vlan_host mem names c =
     (case find (\<lambda>name. case FindHostByName name c of None \<Rightarrow> False | Some h \<Rightarrow> h_MemCommit h + mem < h_MemTotal h) names of
        None \<Rightarrow> None | Some name \<Rightarrow> FindHostByName name c)"

fun subnet_loop :: "host_sort \<Rightarrow> Node option list \<Rightarrow> Host list \<Rightarrow> vlan_hosts \<Rightarrow> ExperimentSpec \<Rightarrow> sched_result" where
  "subnet_loop srt [] c v e = (e, None)"
| "subnet_loop srt (p # ps) c v e =
     (case p of
        None \<Rightarrow> (e, Some (SchedPanic NilDeref))
      | Some n \<Rightarrow>
          if External n \<or> sched e (Hostname (nd_General n)) \<noteq> None then subnet_loop srt ps c v e
          else
            (case first_vlan n of
               Inl err \<Rightarrow> (e, Some err)
             | Inr vlan \<Rightarrow>
                 let mem = Memory (nd_Hardware n); name = Hostname (nd_General n)
                 in (case vlan_host mem (v vlan) c of
                       Some h \<Rightarrow>
                         subnet_loop srt ps
                           (SortByCommittedMem srt True (or_same c (IncrHostMemCommit (h_Name h) mem c))) v
                           (put_schedule name (h_Name h) e)
                     | None \<Rightarrow>
                         (case c of
                            [] \<Rightarrow> (e, Some (SchedPanic IndexRange))
                          | h # hs \<Rightarrow>
                              subnet_loop srt ps
                                (SortByCommittedMem srt True (or_same c (IncrHostMemCommit (h_Name h) mem c)))
                                (v(vlan := v vlan @ [h_Name h])) (put_schedule name (h_Name h) e)))))"

definition subnetCompute_Schedule ::
  "host_sort \<Rightarrow> sched_order \<Rightarrow> hosts_result \<Rightarrow> ExperimentSpec \<Rightarrow> sched_result" where
  "subnetCompute_Schedule srt ord cluster e =
     (if spec_nodes e = [] then (e, Some NoVMs)
      else
        (case cluster of
           Inl m \<Rightarrow> (e, Some (GettingHosts m))
         | Inr c \<Rightarrow>
             (case manual_vlans e (ord (sched e)) c (\<lambda>_. []) of
                Inl err \<Rightarrow> (e, Some err)
              | Inr (c1, v) \<Rightarrow> subnet_loop srt (spec_nodes e) (SortByCommittedMem srt True c1) v e)))"

subsection \<open>User programs and the registry\<close>

text \<open>
  The programs in the path: \<^const>\<open>None\<close> when there is no such command, else what running it and
  decoding its output into the spec makes of the spec, and the failure if there is one (a failed
  decoding may have changed the spec already).
\<close>

type_synonym user_programs = "string \<Rightarrow> (ExperimentSpec \<Rightarrow> Host list \<Rightarrow> ExperimentSpec \<times> string option) option"

definition userScheduler_Schedule :: "user_programs \<Rightarrow> string \<Rightarrow> hosts_result \<Rightarrow> ExperimentSpec \<Rightarrow> sched_result" where
  "userScheduler_Schedule progs name cluster e =
     (case progs (''phenix-scheduler-'' @ name) of
        None \<Rightarrow> (e, Some (UserSchedulerMissing name))
      | Some run \<Rightarrow>
          (case cluster of
             Inl m \<Rightarrow> (e, Some (GettingHosts m))
           | Inr c \<Rightarrow>
               (case run e c of
                  (e', Some m) \<Rightarrow> (e', Some (UserSchedulerFailed m))
                | (e', None) \<Rightarrow> (e'\<lparr>es_Schedules := ExperimentSpec_Schedules e'\<rparr>, None))))"

definition Schedule ::
  "user_programs \<Rightarrow> host_sort \<Rightarrow> sched_order \<Rightarrow> string \<Rightarrow> hosts_result \<Rightarrow> ExperimentSpec \<Rightarrow> sched_result" where
  "Schedule progs srt ord name cluster e =
     (if name = ''round-robin'' then roundRobin_Schedule srt ord cluster e
      else if name = ''isolate-experiment'' then isolateExperiment_Schedule srt cluster e
      else if name = ''subnet-compute'' then subnetCompute_Schedule srt ord cluster e
      else userScheduler_Schedule progs name cluster e)"

subsection \<open>The contract of a scheduler\<close>

definition internal_names :: "Node option list \<Rightarrow> string set" where
  "internal_names ps = {Hostname (nd_General n) | n. Some n \<in> set ps \<and> \<not> External n}"

lemma internal_names_simps [simp]:
  "internal_names [] = {}"
  "internal_names (None # ps) = internal_names ps"
  "internal_names (Some n # ps) =
     (if External n then internal_names ps else insert (Hostname (nd_General n)) (internal_names ps))"
  by (auto simp: internal_names_def)

text \<open>How a spec may change while it is scheduled: only its schedule, and only at the given names.\<close>

definition rescheduled :: "string set \<Rightarrow> ExperimentSpec \<Rightarrow> ExperimentSpec \<Rightarrow> bool" where
  "rescheduled ns e e' \<longleftrightarrow>
     e' = e\<lparr>es_Schedules := es_Schedules e'\<rparr> \<and> (es_Schedules e' = None \<longleftrightarrow> es_Schedules e = None)
     \<and> (\<forall>k. k \<notin> ns \<longrightarrow> sched e' k = sched e k)"

lemma rescheduled_refl [simp]: "rescheduled ns e e"
  by (simp add: rescheduled_def)

lemma rescheduled_trans: "rescheduled ns e f \<Longrightarrow> rescheduled ms f g \<Longrightarrow> ns \<union> ms \<subseteq> ks \<Longrightarrow> rescheduled ks e g"
  by (cases e; cases f; cases g) (auto simp: rescheduled_def subset_iff; metis)

lemma rescheduled_put: "name \<in> ns \<Longrightarrow> rescheduled ns e (put_schedule name h e)"
  by (cases e) (auto simp: rescheduled_def put_schedule_def split: option.splits)

lemma put_schedule_get:
  "sched (put_schedule name h e) k = (if k = name \<and> es_Schedules e \<noteq> None then Some h else sched e k)"
  by (auto simp: put_schedule_def split: option.splits)

lemma put_schedule_keeps [simp]:
  "es_Schedules (put_schedule name h e) = None \<longleftrightarrow> es_Schedules e = None"
  "es_Topology (put_schedule name h e) = es_Topology e"
  by (auto simp: put_schedule_def split: option.splits)

locale scheduler =
  fixes schedule :: "ExperimentSpec \<Rightarrow> sched_result"
  assumes frame: "schedule e = (e', r) \<Longrightarrow> rescheduled (internal_names (spec_nodes e)) e e'"
    and complete: "schedule e = (e', None) \<Longrightarrow> es_Schedules e \<noteq> None \<Longrightarrow>
                   k \<in> internal_names (spec_nodes e) \<Longrightarrow> sched e' k \<noteq> None"
begin

lemma nodes_kept: "schedule e = (e', r) \<Longrightarrow> spec_nodes e' = spec_nodes e"
  using frame by (cases e; cases e') (fastforce simp: rescheduled_def)

text \<open>What is scheduled afterwards: what was scheduled before and every node phenix launches.\<close>

lemma schedule_dom:
  assumes "schedule e = (e', None)" and "es_Schedules e \<noteq> None"
  shows "dom (sched e') = dom (sched e) \<union> internal_names (spec_nodes e)"
  using frame[OF assms(1)] complete[OF assms] unfolding rescheduled_def dom_def by auto metis+

end

text \<open>A scheduler that leaves the nodes alone that have a host already.\<close>

locale stable_scheduler = scheduler +
  assumes keeps: "schedule e = (e', r) \<Longrightarrow> sched e k = Some h \<Longrightarrow> sched e' k = Some h"
begin

lemma reschedule_same:
  assumes "schedule e = (e', None)" and "es_Schedules e \<noteq> None" and "schedule e' = (e'', r)"
  shows "e'' = e'"
proof -
  have n: "spec_nodes e' = spec_nodes e" by (rule nodes_kept[OF assms(1)])
  have f: "rescheduled (internal_names (spec_nodes e)) e' e''" using frame[OF assms(3)] by (simp add: n)
  have some: "es_Schedules e' \<noteq> None" using frame[OF assms(1)] assms(2) by (simp add: rescheduled_def)
  have "sched e'' k = sched e' k" for k
  proof (cases "k \<in> internal_names (spec_nodes e)")
    case True
    then show ?thesis using complete[OF assms(1,2)] keeps[OF assms(3)] by fastforce
  next
    case False
    then show ?thesis using f by (simp add: rescheduled_def)
  qed
  then have "es_Schedules e'' = es_Schedules e'"
    using f some by (cases "es_Schedules e'"; cases "es_Schedules e''") (auto simp: rescheduled_def)
  moreover have "e'' = e'\<lparr>es_Schedules := es_Schedules e''\<rparr>" using f by (simp add: rescheduled_def)
  ultimately show ?thesis by simp
qed

lemma reschedule_fst: "schedule e = (e', None) \<Longrightarrow> es_Schedules e \<noteq> None \<Longrightarrow> fst (schedule e') = e'"
  using reschedule_same by (cases "schedule e'") simp

lemma keeps_map_le: "schedule e = (e', r) \<Longrightarrow> sched e \<subseteq>\<^sub>m sched e'"
  using keeps by (force simp: map_le_def dom_def)

end

text \<open>The contract as a relation between a spec, the result and the error, for the loops over nodes.\<close>

definition fills :: "string set \<Rightarrow> ExperimentSpec \<Rightarrow> sched_result \<Rightarrow> bool" where
  "fills ns e res \<longleftrightarrow>
     rescheduled ns e (fst res)
     \<and> (snd res = None \<and> es_Schedules e \<noteq> None \<longrightarrow> (\<forall>k \<in> ns. sched (fst res) k \<noteq> None))
     \<and> (\<forall>k h. sched e k = Some h \<longrightarrow> sched (fst res) k = Some h)"

lemma fills_done [simp]: "fills {} e (e, None)" "fills ns e (e, Some err)"
  by (simp_all add: fills_def)

lemma fills_skip: "fills ns e res \<Longrightarrow> sched e name = Some h \<Longrightarrow> fills (insert name ns) e res"
  unfolding fills_def
  by (auto intro: rescheduled_trans[OF rescheduled_refl[of "{}"]])

lemma fills_put:
  assumes "sched e name = None" and "fills ns (put_schedule name h e) res"
  shows "fills (insert name ns) e res"
proof -
  have "rescheduled (insert name ns) e (fst res)"
    using assms(2) by (auto simp: fills_def intro: rescheduled_trans[OF rescheduled_put[of name "{name}"]])
  moreover have kept: "sched (put_schedule name h e) k = Some x \<Longrightarrow> sched (fst res) k = Some x" for k x
    using assms(2) by (simp add: fills_def)
  have "es_Schedules e \<noteq> None \<Longrightarrow> sched (fst res) name = Some h"
    by (rule kept) (simp add: put_schedule_get)
  moreover have "sched e k = Some x \<Longrightarrow> sched (fst res) k = Some x" for k x
    by (rule kept) (use assms(1) in \<open>auto simp: put_schedule_get\<close>)
  ultimately show ?thesis using assms(2) unfolding fills_def by simp
qed

lemma stable_scheduler_fills:
  "(\<And>e. fills (internal_names (spec_nodes e)) e (schedule e)) \<Longrightarrow> stable_scheduler schedule"
  by unfold_locales (metis fills_def fst_conv snd_conv)+

lemma rr_loop_fills: "fills (internal_names ps) e (snd (rr_loop srt ps c e))"
  by (induction ps arbitrary: c e)
     (auto simp: Let_def intro: fills_skip fills_put split: option.split list.split)

lemma subnet_loop_fills: "fills (internal_names ps) e (subnet_loop srt ps c v e)"
  by (induction ps arbitrary: c v e)
     (auto simp: Let_def intro: fills_skip fills_put split: option.split list.split sum.split)

interpretation rr: stable_scheduler "roundRobin_Schedule srt ord cluster" for srt ord cluster
  by (rule stable_scheduler_fills)
     (auto simp: roundRobin_Schedule_def Let_def rr_loop_fills split: sum.split)

interpretation subnet: stable_scheduler "subnetCompute_Schedule srt ord cluster" for srt ord cluster
  by (rule stable_scheduler_fills)
     (auto simp: subnetCompute_Schedule_def Let_def subnet_loop_fills split: sum.split)

lemma schedule_all_fst: "rescheduled (internal_names ps) e (schedule_all h ps e)"
  by (induction ps arbitrary: e)
     (auto intro: rescheduled_trans[OF rescheduled_put[of _ "{_}"]] split: option.split)

lemma schedule_all_get:
  "es_Schedules e \<noteq> None \<Longrightarrow>
   sched (schedule_all h ps e) k = (if k \<in> internal_names ps then Some h else sched e k)"
  by (induction ps arbitrary: e) (auto simp: put_schedule_get simp del: not_None_eq split: option.split)

interpretation isolate: scheduler "isolateExperiment_Schedule srt cluster" for srt cluster
proof unfold_locales
  fix srt cluster e e' r
  assume "isolateExperiment_Schedule srt cluster e = (e', r)"
  then show "rescheduled (internal_names (spec_nodes e)) e e'"
    by (auto simp: isolateExperiment_Schedule_def Let_def schedule_all_fst split: if_splits sum.splits prod.splits option.splits)
next
  fix srt cluster e e' k
  assume "isolateExperiment_Schedule srt cluster e = (e', None)" "es_Schedules e \<noteq> None"
    "k \<in> internal_names (spec_nodes e)"
  then show "sched e' k \<noteq> None"
    by (auto simp: isolateExperiment_Schedule_def Let_def schedule_all_get split: if_splits sum.splits prod.splits option.splits)
qed

subsection \<open>Balance of round-robin\<close>

text \<open>The nodes a spec places on a host.\<close>

definition placed_on :: "ExperimentSpec \<Rightarrow> string \<Rightarrow> string set" where
  "placed_on e h = {k. sched e k = Some h}"

text \<open>
  The state of the loop relative to the spec \<open>e0\<close> it started from and the VMs \<open>base\<close> the hosts ran
  before any node was placed: VM counts are right, the first host has the fewest, and no host that
  received a node is ahead of another by more than one.
\<close>

definition rr_inv :: "(string \<Rightarrow> int) \<Rightarrow> ExperimentSpec \<Rightarrow> string list \<Rightarrow> Host list \<Rightarrow> ExperimentSpec \<Rightarrow> bool" where
  "rr_inv base e0 names c e \<longleftrightarrow>
     c \<noteq> [] \<and> distinct (map h_Name c) \<and> h_Name ` set c = set names \<and> es_Schedules e \<noteq> None
     \<and> (\<forall>x \<in> set c. h_VMs (hd c) \<le> h_VMs x)
     \<and> (\<forall>x \<in> set c. finite (placed_on e (h_Name x)) \<and> placed_on e0 (h_Name x) \<subseteq> placed_on e (h_Name x)
           \<and> h_VMs x = base (h_Name x) + int (card (placed_on e (h_Name x))))
     \<and> (\<forall>x \<in> set c. \<forall>y \<in> set c. placed_on e (h_Name x) \<noteq> placed_on e0 (h_Name x) \<longrightarrow> h_VMs x \<le> h_VMs y + 1)"

lemma placed_on_put:
  "sched e name = None \<Longrightarrow> es_Schedules e \<noteq> None \<Longrightarrow>
   placed_on (put_schedule name h e) x = (if x = h then insert name (placed_on e x) else placed_on e x)"
  by (auto simp: placed_on_def put_schedule_get)

lemma rr_inv_sort:
  assumes "slice_sort srt" and "c \<noteq> []" and "distinct (map h_Name c)" and "h_Name ` set c = set names"
    and "es_Schedules e \<noteq> None"
    and "\<forall>x \<in> set c. finite (placed_on e (h_Name x)) \<and> placed_on e0 (h_Name x) \<subseteq> placed_on e (h_Name x)
           \<and> h_VMs x = base (h_Name x) + int (card (placed_on e (h_Name x)))"
    and "\<forall>x \<in> set c. \<forall>y \<in> set c. placed_on e (h_Name x) \<noteq> placed_on e0 (h_Name x) \<longrightarrow> h_VMs x \<le> h_VMs y + 1"
  shows "rr_inv base e0 names (SortByVMs srt True c) e"
proof -
  note s = slice_sort.srt_set[OF assms(1)] slice_sort.srt_distinct_map[OF assms(1)]
    slice_sort.srt_Nil_iff[OF assms(1)]
  have "\<forall>x \<in> set c. h_VMs (hd (srt h_VMs c)) \<le> h_VMs x"
    using slice_sort.srt_hd_least[OF assms(1,2)] by blast
  then show ?thesis
    using assms(2-) unfolding rr_inv_def SortByVMs_def sort_by_def if_True s by blast
qed

lemma rr_inv_step:
  assumes "slice_sort srt" and inv: "rr_inv base e0 names (h # hs) e" and new: "sched e name = None"
  shows "rr_inv base e0 names (SortByVMs srt True (h\<lparr>h_VMs := h_VMs h + 1\<rparr> # hs)) (put_schedule name (h_Name h) e)"
proof (rule rr_inv_sort[OF assms(1)])
  let ?e = "put_schedule name (h_Name h) e" and ?h = "h\<lparr>h_VMs := h_VMs h + 1\<rparr>"
  have some: "es_Schedules e \<noteq> None" and dist: "h_Name h \<notin> h_Name ` set hs"
    and cnt: "\<forall>x \<in> set (h # hs). finite (placed_on e (h_Name x)) \<and> placed_on e0 (h_Name x) \<subseteq> placed_on e (h_Name x)
           \<and> h_VMs x = base (h_Name x) + int (card (placed_on e (h_Name x)))"
    and bal: "\<forall>x \<in> set (h # hs). \<forall>y \<in> set (h # hs). placed_on e (h_Name x) \<noteq> placed_on e0 (h_Name x) \<longrightarrow> h_VMs x \<le> h_VMs y + 1"
    and least: "\<forall>x \<in> set hs. h_VMs h \<le> h_VMs x"
    using inv by (auto simp: rr_inv_def)
  have other: "placed_on ?e (h_Name x) = placed_on e (h_Name x)" if "x \<in> set hs" for x
    using that dist by (metis imageI placed_on_put[OF new some])
  have here: "placed_on ?e (h_Name h) = insert name (placed_on e (h_Name h))" "name \<notin> placed_on e (h_Name h)"
    using new placed_on_put[OF new some] by (simp_all, simp add: placed_on_def)
  show "\<forall>x \<in> set (?h # hs). finite (placed_on ?e (h_Name x)) \<and> placed_on e0 (h_Name x) \<subseteq> placed_on ?e (h_Name x)
           \<and> h_VMs x = base (h_Name x) + int (card (placed_on ?e (h_Name x)))"
    using cnt here by (auto simp: other)
  show "\<forall>x \<in> set (?h # hs). \<forall>y \<in> set (?h # hs). placed_on ?e (h_Name x) \<noteq> placed_on e0 (h_Name x) \<longrightarrow> h_VMs x \<le> h_VMs y + 1"
    using bal least by (fastforce simp: other)
qed (use inv in \<open>auto simp: rr_inv_def\<close>)

lemma rr_loop_inv:
  assumes "slice_sort srt" and "None \<notin> set ps"
  shows "rr_inv base e0 names c e \<Longrightarrow>
         \<exists>c' e'. rr_loop srt ps c e = (c', e', None) \<and> rr_inv base e0 names c' e'"
  using assms(2)
proof (induction ps arbitrary: c e)
  case (Cons p ps)
  obtain n where p: "p = Some n" using Cons.prems(2) by (cases p) auto
  obtain h hs where c: "c = h # hs" using Cons.prems(1) by (cases c) (auto simp: rr_inv_def)
  show ?case
  proof (cases "External n \<or> sched e (Hostname (nd_General n)) \<noteq> None")
    case True
    then show ?thesis using Cons by (auto simp: p Let_def)
  next
    case False
    then show ?thesis
      using Cons.IH[OF rr_inv_step[OF assms(1)]] Cons.prems by (simp add: p c Let_def)
  qed
qed simp

lemma find_host_self: "distinct (map h_Name c) \<Longrightarrow> x \<in> set c \<Longrightarrow> FindHostByName (h_Name x) c = Some x"
  unfolding FindHostByName_def by (induction c) (auto simp: image_iff)

lemma incr_host_vms:
  assumes "distinct (map h_Name c)"
  shows "(if FindHostByName name c \<noteq> None then or_same c (IncrHostVMs name 1 c) else c)
       = map (\<lambda>x. x\<lparr>h_VMs := h_VMs x + (if h_Name x = name then 1 else 0)\<rparr>) c"
proof (cases "FindHostByName name c")
  case None
  then show ?thesis by (auto simp: find_host_None image_iff intro!: map_idI[symmetric])
next
  case (Some h)
  then obtain c' where c': "IncrHostVMs name 1 c = Some c'"
    by (metis IncrHostVMs_def find_host_None incr_host_None option.distinct(1) option.exhaust)
  then have "c' = map (\<lambda>x. if h_Name x = name then x\<lparr>h_VMs := h_VMs x + 1\<rparr> else x) c"
    unfolding IncrHostVMs_def by (rule incr_host_map[OF assms])
  then show ?thesis using Some by (simp add: c' or_same_def)
qed

lemma count_manual_eq:
  "distinct (map h_Name c) \<Longrightarrow>
   count_manual names c = map (\<lambda>x. x\<lparr>h_VMs := h_VMs x + int (count_list names (h_Name x))\<rparr>) c"
proof (induction names arbitrary: c)
  case (Cons n ns)
  let ?c = "map (\<lambda>x. x\<lparr>h_VMs := h_VMs x + (if h_Name x = n then 1 else 0)\<rparr>) c"
  have "count_manual (n # ns) c = count_manual ns ?c"
    using incr_host_vms[OF Cons.prems] by (simp add: count_manual_def)
  also have "\<dots> = map (\<lambda>x. x\<lparr>h_VMs := h_VMs x + int (count_list ns (h_Name x))\<rparr>) ?c"
    using Cons.prems by (intro Cons.IH) (simp add: comp_def)
  finally show ?case by (auto simp: comp_def)
qed (simp add: count_manual_def)

lemma count_list_card: "distinct ks \<Longrightarrow> count_list (map f ks) y = card {k \<in> set ks. f k = y}"
proof (induction ks)
  case (Cons k ks)
  then have "{x. (x = k \<or> x \<in> set ks) \<and> f x = y} = (if f k = y then insert k else id) {x \<in> set ks. f x = y}"
    by auto
  then show ?case using Cons by simp
qed simp

text \<open>
  C23: round-robin succeeds on a cluster with hosts, and no host that received a node has more than
  one VM more than any other, counting the VMs that run already and everything scheduled.
\<close>

theorem round_robin_balanced:
  assumes "slice_sort srt" and "c \<noteq> []" and "distinct (map h_Name c)"
    and "spec_nodes e \<noteq> []" and "None \<notin> set (spec_nodes e)"
    and "es_Schedules e = Some m" and "finite (dom m)" and "set (ord m) = dom m" and "distinct (ord m)"
  shows "\<exists>e'. roundRobin_Schedule srt ord (Inr c) e = (e', None)
    \<and> (\<forall>x \<in> set c. \<forall>y \<in> set c. placed_on e' (h_Name x) \<noteq> placed_on e (h_Name x) \<longrightarrow>
         h_VMs x + int (card (placed_on e' (h_Name x))) \<le> h_VMs y + int (card (placed_on e' (h_Name y))) + 1)"
proof -
  let ?c = "count_manual (map (\<lambda>k. the (m k)) (ord m)) c"
  define base where "base n = (case FindHostByName n c of None \<Rightarrow> 0 | Some x \<Rightarrow> h_VMs x)" for n
  have base: "base (h_Name x) = h_VMs x" if "x \<in> set c" for x
    using that by (simp add: base_def find_host_self[OF assms(3)])
  have "{k \<in> dom m. the (m k) = n} = placed_on e n" for n
    using assms(6) by (auto simp: placed_on_def dom_def)
  then have c: "?c = map (\<lambda>x. x\<lparr>h_VMs := h_VMs x + int (card (placed_on e (h_Name x)))\<rparr>) c"
    by (simp add: count_manual_eq[OF assms(3)] count_list_card[OF assms(9)] assms(8))
  have fin: "finite (placed_on e n)" for n
    using assms(6) by (auto simp: placed_on_def intro: finite_subset[OF _ assms(7)])
  have "rr_inv base e (map h_Name c) (SortByVMs srt True ?c) e"
    unfolding c using assms(2,3,6) fin
    by (intro rr_inv_sort[OF assms(1)]) (auto simp: comp_def base image_image)
  then obtain c' e' where run: "rr_loop srt (spec_nodes e) (SortByVMs srt True ?c) e = (c', e', None)"
    and inv: "rr_inv base e (map h_Name c) c' e'"
    using rr_loop_inv[OF assms(1,5)] by blast
  have names: "h_Name ` set c' = h_Name ` set c" and vms: "\<forall>x \<in> set c'. h_VMs x = base (h_Name x) + int (card (placed_on e' (h_Name x)))"
    and bal: "\<forall>x \<in> set c'. \<forall>y \<in> set c'. placed_on e' (h_Name x) \<noteq> placed_on e (h_Name x) \<longrightarrow> h_VMs x \<le> h_VMs y + 1"
    using inv unfolding rr_inv_def set_map by blast+
  have count: "\<exists>x' \<in> set c'. h_Name x' = h_Name x \<and> h_VMs x' = h_VMs x + int (card (placed_on e' (h_Name x)))"
    if x: "x \<in> set c" for x
  proof -
    obtain x' where x': "x' \<in> set c'" "h_Name x' = h_Name x" using names x by (metis imageE imageI)
    then show ?thesis using vms base[OF x] by metis
  qed
  have "h_VMs x + int (card (placed_on e' (h_Name x))) \<le> h_VMs y + int (card (placed_on e' (h_Name y))) + 1"
    if "x \<in> set c" "y \<in> set c" "placed_on e' (h_Name x) \<noteq> placed_on e (h_Name x)" for x y
    using count[OF that(1)] count[OF that(2)] bal that(3) by metis
  then show ?thesis using run assms(4,6) by (simp add: roundRobin_Schedule_def Let_def)
qed

subsection \<open>Isolation\<close>

definition launched :: "Node option list \<Rightarrow> Node list" where
  "launched ps = filter (\<lambda>n. \<not> External n) (map the ps)"

lemma launched_simps [simp]:
  "launched [] = []"
  "launched (Some n # ps) = (if External n then launched ps else n # launched ps)"
  by (simp_all add: launched_def)

lemma node_totals_eq:
  assumes "None \<notin> set ps"
  shows "\<exists>first \<in> insert f (internal_names ps). node_totals ps (cpu, mem, f)
     = Inr (cpu + (\<Sum>n \<leftarrow> launched ps. VCPU (nd_Hardware n)), mem + (\<Sum>n \<leftarrow> launched ps. Memory (nd_Hardware n)), first)"
  using assms
proof (induction ps arbitrary: cpu mem f)
  case (Cons p ps)
  then obtain n where p: "p = Some n" by (cases p) auto
  define f' where "f' = (if External n \<or> f \<noteq> [] then f else Hostname (nd_General n))"
  have "None \<notin> set ps" using Cons.prems by simp
  note IH = Cons.IH[OF this, of f' "if External n then cpu else cpu + VCPU (nd_Hardware n)"
      "if External n then mem else mem + Memory (nd_Hardware n)"]
  then show ?case by (cases "External n"; cases "f = []") (auto simp: p f'_def algebra_simps)
qed simp

lemma find_None_or: "(\<exists>x. find q xs = Some x \<and> x \<in> set xs \<and> q x) \<or> find q xs = None \<and> (\<forall>x \<in> set xs. \<not> q x)"
  by (induction xs) auto

text \<open>
  Isolation puts every node that is launched on one host of the cluster that runs nothing, and
  reports an error exactly when every host is in use. When nothing is scheduled by hand, that host
  has room for all of them if there is such a host.
\<close>

theorem isolate_on_unused_host:
  assumes "slice_sort srt" and "spec_nodes e \<noteq> []" and "None \<notin> set (spec_nodes e)" and "es_Schedules e = Some m"
    and fits_def: "fits = host_fits (\<Sum>n \<leftarrow> launched (spec_nodes e). VCPU (nd_Hardware n))
                        (\<Sum>n \<leftarrow> launched (spec_nodes e). Memory (nd_Hardware n))"
  shows "if \<forall>h \<in> set c. h_VMs h \<noteq> 0 then isolateExperiment_Schedule srt (Inr c) e = (e, Some NoUnusedHosts)
    else \<exists>h \<in> set c. \<exists>e'. h_VMs h = 0 \<and> isolateExperiment_Schedule srt (Inr c) e = (e', None)
       \<and> (\<forall>k. sched e' k = (if k \<in> internal_names (spec_nodes e) then Some (h_Name h) else sched e k))
       \<and> ((\<forall>k \<in> insert [] (internal_names (spec_nodes e)). m k = None) \<and> (\<exists>x \<in> set c. h_VMs x = 0 \<and> fits x) \<longrightarrow> fits h)"
proof -
  let ?c = "SortByUnallocatedMem srt False c" and ?unused = "\<lambda>h. h_VMs h = 0"
  have set_c: "set ?c = set c"
    by (simp add: SortByUnallocatedMem_def sort_by_def slice_sort.srt_set[OF assms(1)])
  obtain first where tot: "node_totals (spec_nodes e) (0, 0, [])
      = Inr (\<Sum>n \<leftarrow> launched (spec_nodes e). VCPU (nd_Hardware n), \<Sum>n \<leftarrow> launched (spec_nodes e). Memory (nd_Hardware n), first)"
    and first: "first \<in> insert [] (internal_names (spec_nodes e))"
    using node_totals_eq[OF assms(3), of "[]" 0 0] by auto
  define manual where "manual = (case m first of None \<Rightarrow> None
      | Some name \<Rightarrow> find ?unused (case FindHostByName name c of None \<Rightarrow> [] | Some h \<Rightarrow> [h]))"
  define pick where "pick = (case manual of Some h \<Rightarrow> Some h
      | None \<Rightarrow> (case find (\<lambda>h. ?unused h \<and> fits h) ?c of Some h \<Rightarrow> Some h | None \<Rightarrow> find ?unused ?c))"
  have run: "isolateExperiment_Schedule srt (Inr c) e
      = (case pick of Some h \<Rightarrow> (schedule_all (h_Name h) (spec_nodes e) e, None) | None \<Rightarrow> (e, Some NoUnusedHosts))"
    using assms(2,4) unfolding pick_def manual_def fits_def by (simp add: isolateExperiment_Schedule_def tot Let_def)
  have manual: "h \<in> set c \<and> ?unused h \<and> m first \<noteq> None" if "manual = Some h" for h
    using that find_host_SomeD unfolding manual_def by (auto split: option.splits if_splits)
  have pick: "case pick of None \<Rightarrow> \<forall>h \<in> set c. \<not> ?unused h
      | Some h \<Rightarrow> h \<in> set c \<and> ?unused h \<and> (m first = None \<and> (\<exists>x \<in> set c. ?unused x \<and> fits x) \<longrightarrow> fits h)"
    using manual find_None_or[of "\<lambda>h. ?unused h \<and> fits h" ?c] find_None_or[of ?unused ?c]
    unfolding pick_def set_c by (auto split: option.splits)
  show ?thesis
  proof (cases pick)
    case None
    then show ?thesis using pick run by simp
  next
    case (Some h)
    then have h: "h \<in> set c" "?unused h" "(m first = None \<and> (\<exists>x \<in> set c. ?unused x \<and> fits x) \<longrightarrow> fits h)"
      using pick by auto
    have "\<forall>k. sched (schedule_all (h_Name h) (spec_nodes e) e) k
        = (if k \<in> internal_names (spec_nodes e) then Some (h_Name h) else sched e k)"
      using assms(4) by (simp add: schedule_all_get)
    then show ?thesis using h first run Some by auto
  qed
qed

text \<open>A spec of two nodes and a cluster of two hosts, for the examples.\<close>

definition sched_example :: "(string \<rightharpoonup> string) \<Rightarrow> ExperimentSpec" where
  "sched_example m =
     \<lparr>es_ExperimentName = ''exp'', es_BaseDir = [], es_DefaultBridge = ''phenix'', es_Topology = Some example_topology,
      es_Scenario = None, es_VLANs = None, es_Schedules = Some m, es_DeployMode = [], es_UseGREMesh = False\<rparr>"

definition example_host :: "string \<Rightarrow> int \<Rightarrow> Host" where
  "example_host n vms =
     \<lparr>h_Name = n, h_CPUs = 8, h_CPUCommit = 0, h_MemUsed = 0, h_MemTotal = 4096, h_MemCommit = 0,
      h_NetCommit = 0, h_VMs = vms, h_Schedulable = True, h_Headnode = False\<rparr>"

lemma sched_example_simps [simp]:
  "spec_nodes (sched_example m) = [Some (example_node ''plc'' ''ops''), Some (example_node ''hmi'' ''mgmt'')]"
  "es_Schedules (sched_example m) = Some m"
  "internal_names (spec_nodes (sched_example m)) = {''plc'', ''hmi''}"
  "\<not> External (example_node n v)"
  by (simp_all add: sched_example_def Nodes_def example_topology_def External_def)

lemma example_host_simps [simp]: "h_Name (example_host n v) = n" "h_VMs (example_host n v) = v"
  by (simp_all add: example_host_def)

theorem round_robin_balanced_witness:
  "\<exists>e'. roundRobin_Schedule insertion_sort (\<lambda>_. []) (Inr [example_host ''a'' 1, example_host ''b'' 2]) (sched_example Map.empty) = (e', None)
    \<and> (placed_on e' ''a'' \<noteq> {} \<longrightarrow> 1 + int (card (placed_on e' ''a'')) \<le> 2 + int (card (placed_on e' ''b'')) + 1)"
proof -
  have "placed_on (sched_example Map.empty) h = {}" for h by (simp add: placed_on_def)
  then show ?thesis
    using round_robin_balanced[OF isort.slice_sort_axioms, of "[example_host ''a'' 1, example_host ''b'' 2]"
      "sched_example Map.empty" Map.empty "\<lambda>_. []"] by auto
qed

theorem isolate_on_unused_host_witness:
  "\<exists>e'. isolateExperiment_Schedule insertion_sort (Inr [example_host ''a'' 1, example_host ''b'' 0]) (sched_example Map.empty) = (e', None)
    \<and> sched e' ''plc'' = Some ''b'' \<and> sched e' ''hmi'' = Some ''b''"
  using isolate_on_unused_host[OF isort.slice_sort_axioms, of "sched_example Map.empty" Map.empty
      _ "[example_host ''a'' 1, example_host ''b'' 0]"] by auto

subsection \<open>Every built-in scheduler keeps the contract\<close>

lemma builtin_contract:
  assumes "name \<in> {''round-robin'', ''isolate-experiment'', ''subnet-compute''}"
    and "Schedule progs srt ord name cluster e = (e', None)" and "es_Schedules e \<noteq> None"
  shows "dom (sched e') = dom (sched e) \<union> internal_names (spec_nodes e)
    \<and> e' = e\<lparr>es_Schedules := es_Schedules e'\<rparr>
    \<and> (\<forall>k. k \<notin> internal_names (spec_nodes e) \<longrightarrow> sched e' k = sched e k)
    \<and> (name \<noteq> ''isolate-experiment'' \<longrightarrow>
         sched e \<subseteq>\<^sub>m sched e' \<and> fst (Schedule progs srt ord name cluster e') = e')"
proof -
  consider (rr) "name = ''round-robin''" | (iso) "name = ''isolate-experiment''" | (sub) "name = ''subnet-compute''"
    using assms(1) by auto
  then show ?thesis
  proof cases
    case rr
    then have run: "roundRobin_Schedule srt ord cluster e = (e', None)" using assms(2) by (simp add: Schedule_def)
    show ?thesis
      using rr.schedule_dom[OF run assms(3)] rr.frame[OF run] rr.reschedule_fst[OF run assms(3)] rr.keeps_map_le[OF run] rr
      by (simp add: rescheduled_def Schedule_def)
  next
    case iso
    then have run: "isolateExperiment_Schedule srt cluster e = (e', None)" using assms(2) by (simp add: Schedule_def)
    show ?thesis using isolate.schedule_dom[OF run assms(3)] isolate.frame[OF run] iso by (simp add: rescheduled_def)
  next
    case sub
    then have run: "subnetCompute_Schedule srt ord cluster e = (e', None)" using assms(2) by (simp add: Schedule_def)
    show ?thesis
      using subnet.schedule_dom[OF run assms(3)] subnet.frame[OF run] subnet.reschedule_fst[OF run assms(3)] subnet.keeps_map_le[OF run] sub
      by (simp add: rescheduled_def Schedule_def)
  qed
qed

text \<open>
  C22: when a built-in scheduler reports no error, the nodes with a host are those that had one and
  every node of the topology that phenix launches; nothing else of the spec changes. Running
  round-robin or subnet-compute again changes nothing.
\<close>

theorem schedule_contract:
  assumes "name \<in> {''round-robin'', ''isolate-experiment'', ''subnet-compute''}"
    and "Schedule progs srt ord name cluster e = (e', None)" and "es_Schedules e \<noteq> None"
  shows "dom (sched e') = dom (sched e) \<union> internal_names (spec_nodes e)
    \<and> e' = e\<lparr>es_Schedules := es_Schedules e'\<rparr>
    \<and> (\<forall>k. k \<notin> internal_names (spec_nodes e) \<longrightarrow> sched e' k = sched e k)
    \<and> (name \<noteq> ''isolate-experiment'' \<longrightarrow>
         sched e \<subseteq>\<^sub>m sched e' \<and> fst (Schedule progs srt ord name cluster e') = e')"
  using builtin_contract[OF assms] .

theorem schedule_contract_witness:
  "\<exists>e'. Schedule (\<lambda>_. None) insertion_sort (\<lambda>_. []) ''round-robin'' (Inr [example_host ''a'' 0, example_host ''b'' 0]) (sched_example Map.empty) = (e', None)
     \<and> dom (sched e') = {''plc'', ''hmi''}"
proof -
  let ?run = "Schedule (\<lambda>_. None) insertion_sort (\<lambda>_. []) ''round-robin'' (Inr [example_host ''a'' 0, example_host ''b'' 0]) (sched_example Map.empty)"
  have "snd ?run = None"
    by (simp add: Schedule_def roundRobin_Schedule_def Let_def count_manual_def SortByVMs_def sort_by_def insertion_sort_def External_def put_schedule_get)
  then have "?run = (fst ?run, None)" by (metis prod.collapse)
  then have "?run = (fst ?run, None) \<and> dom (sched (fst ?run)) = {''plc'', ''hmi''}"
    using schedule_contract[of "''round-robin''" "\<lambda>_. None" insertion_sort "\<lambda>_. []"
      "Inr [example_host ''a'' 0, example_host ''b'' 0]" "sched_example Map.empty" "fst ?run"]
    by simp
  then show ?thesis by blast
qed

end
