(* ===== verification/Experiment_Api.thy ===== *)
theory Experiment_Api
  imports Config_Api Scheduler
begin

section \<open>Experiments in the store\<close>

text \<open>
  \<^verbatim>\<open>types/experiment.go\<close> and the part of \<^verbatim>\<open>api/experiment/experiment.go\<close> that works on stored
  experiments: reading, saving and scheduling them, and the config hooks that run when an experiment
  is created, updated or deleted. The parameters are bundled in \<open>exp_env\<close>: the store, the conversions
  between typed specs and config fields, the global settings (\<open>xe_auto\<close> is \<^verbatim>\<open>BridgeModeAuto\<close>, \<open>xe_gre\<close>
  \<^verbatim>\<open>common.UseGREMesh\<close>), the apps (\<open>xe_apps\<close>, \<^verbatim>\<open>app.ApplyApps\<close> for the configure stage), what deleting an
  experiment cleans up on disk (\<open>xe_cleanup\<close>) and the text of an error (\<open>xe_show\<close>). A nil pointer that
  the code dereferences is the error \<open>ExpPanic\<close>. Starting and stopping, which drive minimega, are not
  modelled.
\<close>

record Experiment =
  ex_Metadata :: ConfigMetadata
  ex_Spec :: ExperimentSpec
  ex_Status :: "ExperimentStatus option"

abbreviation ex_Name :: "Experiment \<Rightarrow> string" where
  "ex_Name e \<equiv> cm_Name (ex_Metadata e)"

definition Running :: "Experiment \<Rightarrow> bool" where
  "Running e = (case ex_Status e of None \<Rightarrow> False | Some s \<Rightarrow> st_StartTime s \<noteq> [])"

definition DryRun :: "Experiment \<Rightarrow> bool" where
  "DryRun e =
     (case ex_Status e of None \<Rightarrow> False
      | Some s \<Rightarrow> st_StartTime s \<noteq> [] \<and> sublist ''DRYRUN'' (st_StartTime s))"

datatype exp_err =
  NoExpName
| ExpConfig config_err
| ExpVersion string
| ExpDecode string
| ExpRunning
| ExpScheduler sched_err
| ExpInit "topo_err list"
| BridgeTooLong
| BridgeTaken string string
| ExpApps string
| ExpCleanup string
| ExpPanic go_panic

record ('s, 'v) exp_env =
  xe_store :: "('s, 'v) cstore"
  xe_case :: unicase
  xe_kinds :: "string list"
  xe_spec :: "(ExperimentSpec, 'v) spec_codec"
  xe_status :: "(ExperimentStatus, 'v) spec_codec"
  xe_base :: string
  xe_abs :: "string \<Rightarrow> string option"
  xe_auto :: bool
  xe_gre :: bool
  xe_apps :: "Experiment \<Rightarrow> 's \<Rightarrow> 's \<times> (string + Experiment)"
  xe_cleanup :: "Experiment \<Rightarrow> 's \<Rightarrow> 's \<times> string option"
  xe_show :: "exp_err \<Rightarrow> string"

type_synonym ('s, 'a) exp_action = "('s, exp_err, 'a) action"

subsection \<open>Decoding\<close>

text \<open>
  Only the kind \<^verbatim>\<open>Experiment\<close> in version \<^verbatim>\<open>v1\<close> has an experiment spec and status; anything else is
  refused, for its version or because the decoded spec is of another type.
\<close>

definition DecodeExperimentFromConfig :: "('s, 'v) exp_env \<Rightarrow> 'v Config \<Rightarrow> exp_err + Experiment" where
  "DecodeExperimentFromConfig X c =
     (if c_Kind c \<noteq> ''Experiment'' \<or> Config_APIVersion c \<noteq> ''v1'' then Inl (ExpVersion (Config_APIVersion c))
      else
        (case sp_decode (xe_spec X) (c_Spec c) of
           Inl m \<Rightarrow> Inl (ExpDecode m)
         | Inr sp \<Rightarrow>
             (case sp_decode (xe_status X) (c_Status c) of
                Inl m \<Rightarrow> Inl (ExpDecode m)
              | Inr st \<Rightarrow> Inr \<lparr>ex_Metadata = c_Metadata c, ex_Spec = sp, ex_Status = Some st\<rparr>)))"

definition exp_store :: "('s, 'a) config_action \<Rightarrow> ('s, 'a) exp_action" where
  "exp_store m s = (case m s of (s', Inl e) \<Rightarrow> (s', Inl (ExpConfig e)) | (s', Inr x) \<Rightarrow> (s', Inr x))"

text \<open>\<^verbatim>\<open>c, _ := store.NewConfig("experiment/" + name)\<close> and \<^verbatim>\<open>store.Get(c)\<close>: without a config, \<^verbatim>\<open>Get\<close> panics.\<close>

definition stored_config :: "('s, 'v) exp_env \<Rightarrow> string \<Rightarrow> ('s, 'v Config) exp_action" where
  "stored_config X name =
     (case NewConfig (xe_case X) (xe_kinds X) (''experiment/'' @ name) of
        Inl e \<Rightarrow> failE (ExpPanic NilDeref)
      | Inr c \<Rightarrow> exp_store (cs_get (xe_store X) c))"

definition Experiment_Get :: "('s, 'v) exp_env \<Rightarrow> string \<Rightarrow> ('s, Experiment) exp_action" where
  "Experiment_Get X name =
     (if name = [] then failE NoExpName
      else
        (case NewConfig (xe_case X) (xe_kinds X) (''experiment/'' @ name) of
           Inl e \<Rightarrow> failE (ExpConfig e)
         | Inr c \<Rightarrow>
             bindE (exp_store (cs_get (xe_store X) c)) (\<lambda>c'. readE (\<lambda>_. DecodeExperimentFromConfig X c'))))"

fun decode_experiments :: "('s, 'v) exp_env \<Rightarrow> 'v Config list \<Rightarrow> Experiment list \<times> exp_err list" where
  "decode_experiments X [] = ([], [])"
| "decode_experiments X (c # cs) =
     (case decode_experiments X cs of
        (es, errs) \<Rightarrow>
          (case DecodeExperimentFromConfig X c of Inl e \<Rightarrow> (es, e # errs) | Inr x \<Rightarrow> (x # es, errs)))"

text \<open>The experiments that decode, and the errors of those that do not.\<close>

definition Experiment_List :: "('s, 'v) exp_env \<Rightarrow> ('s, Experiment list \<times> exp_err list) exp_action" where
  "Experiment_List X =
     bindE (exp_store (cs_list (xe_store X) [''Experiment''])) (\<lambda>cs. retE (decode_experiments X cs))"

text \<open>\<^verbatim>\<open>types.Experiments\<close>: all experiments, or the running ones; the first that does not decode is an error.\<close>

definition Experiments :: "('s, 'v) exp_env \<Rightarrow> bool \<Rightarrow> ('s, Experiment list) exp_action" where
  "Experiments X running =
     bindE (exp_store (cs_list (xe_store X) [''Experiment''])) (\<lambda>cs.
       case decode_experiments X cs of
         (es, []) \<Rightarrow> retE (filter (\<lambda>e. \<not> running \<or> Running e) es)
       | (es, e # _) \<Rightarrow> failE e)"

subsection \<open>Saving and scheduling\<close>

definition Experiment_Save :: "('s, 'v) exp_env \<Rightarrow> string \<Rightarrow> string \<Rightarrow> ExperimentSpec option \<Rightarrow> ('s, 'v Config) exp_action" where
  "Experiment_Save X now name spec =
     (if name = [] then failE NoExpName
      else
        bindE (stored_config X name) (\<lambda>c.
          exp_store (cs_update (xe_store X) now
            (case spec of None \<Rightarrow> c | Some sp \<Rightarrow> c\<lparr>c_Spec := sp_encode (xe_spec X) sp\<rparr>))))"

definition WriteToStore :: "('s, 'v) exp_env \<Rightarrow> string \<Rightarrow> bool \<Rightarrow> Experiment \<Rightarrow> ('s, 'v Config) exp_action" where
  "WriteToStore X now statusOnly e =
     bindE (stored_config X (ex_Name e)) (\<lambda>c.
       let c1 = c\<lparr>c_Metadata := (c_Metadata c)\<lparr>cm_Annotations := cm_Annotations (ex_Metadata e)\<rparr>\<rparr>;
           c2 = (if statusOnly then c1 else c1\<lparr>c_Spec := sp_encode (xe_spec X) (ex_Spec e)\<rparr>)
       in exp_store (cs_update (xe_store X) now
            (c2\<lparr>c_Status := (case ex_Status e of None \<Rightarrow> None | Some st \<Rightarrow> sp_encode (xe_status X) st)\<rparr>)))"

definition Experiment_Schedule ::
  "('s, 'v) exp_env \<Rightarrow> user_programs \<Rightarrow> host_sort \<Rightarrow> sched_order \<Rightarrow> hosts_result \<Rightarrow> string \<Rightarrow> string \<Rightarrow> string
   \<Rightarrow> ('s, 'v Config) exp_action" where
  "Experiment_Schedule X progs srt ord cluster now name algorithm =
     bindE (stored_config X name) (\<lambda>c.
     bindE (readE (\<lambda>_. DecodeExperimentFromConfig X c)) (\<lambda>e.
       if Running e then failE ExpRunning
       else
         (case Schedule progs srt ord algorithm cluster (ex_Spec e) of
            (sp, Some err) \<Rightarrow> failE (ExpScheduler err)
          | (sp, None) \<Rightarrow>
              exp_store (cs_update (xe_store X) now (c\<lparr>c_Spec := sp_encode (xe_spec X) sp\<rparr>)))))"

subsection \<open>Config hooks\<close>

definition MaxBridgeNameLength :: nat where
  "MaxBridgeNameLength = 15"

definition defaultBridgeName :: string where
  "defaultBridgeName = ''phenix''"

definition spec_Init :: "('s, 'v) exp_env \<Rightarrow> ExperimentSpec \<Rightarrow> exp_err + ExperimentSpec" where
  "spec_Init X e =
     (case ExperimentSpec_Init (xe_case X) (xe_base X) (xe_abs X) e of
        Inl p \<Rightarrow> Inl (ExpPanic p)
      | Inr (e', errs) \<Rightarrow> if errs = [] then Inr e' else Inl (ExpInit errs))"

text \<open>The bridge settings both hooks make, and the search for another experiment with the bridge.\<close>

definition bridge_settings :: "('s, 'v) exp_env \<Rightarrow> string \<Rightarrow> ExperimentSpec \<Rightarrow> exp_err + ExperimentSpec" where
  "bridge_settings X name e =
     (if xe_auto X \<and> length name > MaxBridgeNameLength then Inl BridgeTooLong
      else
        let e1 = (if xe_auto X then e\<lparr>es_DefaultBridge := name\<rparr> else e)
        in if length (es_DefaultBridge e1) > MaxBridgeNameLength then Inl BridgeTooLong
           else Inr (e1\<lparr>es_UseGREMesh := es_UseGREMesh e1 \<or> xe_gre X\<rparr>))"

definition bridge_user :: "string \<Rightarrow> string \<Rightarrow> Experiment list \<Rightarrow> Experiment option" where
  "bridge_user name bridge others =
     find (\<lambda>other. ex_Name other \<noteq> name \<and> bridge \<noteq> defaultBridgeName \<and> es_DefaultBridge (ex_Spec other) = bridge) others"

definition bridge_free :: "('s, 'v) exp_env \<Rightarrow> string \<Rightarrow> ExperimentSpec \<Rightarrow> ('s, unit) exp_action" where
  "bridge_free X name e s =
     (case Experiments X False s of
        (s', r) \<Rightarrow>
          (s', case bridge_user name (es_DefaultBridge e) (case r of Inl _ \<Rightarrow> [] | Inr es \<Rightarrow> es) of
             None \<Rightarrow> Inr ()
           | Some other \<Rightarrow> Inl (BridgeTaken (ex_Name other) (es_DefaultBridge (ex_Spec other)))))"

definition hookStartup :: "('s, 'v) exp_env \<Rightarrow> Experiment \<Rightarrow> 'v Config \<Rightarrow> ('s, 'v Config) exp_action" where
  "hookStartup X e c =
     (if es_DefaultBridge (ex_Spec e) = [] then
        bindE (readE (\<lambda>_. spec_Init X ((ex_Spec e)\<lparr>es_DefaultBridge := defaultBridgeName\<rparr>))) (\<lambda>sp.
          retE (c\<lparr>c_Spec := sp_encode (xe_spec X) sp\<rparr>))
      else retE c)"

definition hookCreate :: "('s, 'v) exp_env \<Rightarrow> Experiment \<Rightarrow> 'v Config \<Rightarrow> ('s, 'v Config) exp_action" where
  "hookCreate X e c =
     bindE (readE (\<lambda>_. spec_Init X ((ex_Spec e)\<lparr>es_ExperimentName := c_Name c\<rparr>))) (\<lambda>sp1.
     bindE (readE (\<lambda>_. bridge_settings X (c_Name c) sp1)) (\<lambda>sp2.
     bindE (bridge_free X (ex_Name e) sp2) (\<lambda>_.
     bindE (readE (\<lambda>_. case VerifyScenario sp2 of Inl p \<Rightarrow> Inl (ExpPanic p) | Inr _ \<Rightarrow> Inr ())) (\<lambda>_ s.
       case xe_apps X (e\<lparr>ex_Spec := sp2\<rparr>) s of
         (s', Inl m) \<Rightarrow> (s', Inl (ExpApps m))
       | (s', Inr e') \<Rightarrow> (s', Inr (c\<lparr>c_Spec := sp_encode (xe_spec X) (ex_Spec e')\<rparr>))))))"

text \<open>\<^verbatim>\<open>strings.ReplaceAll\<close>: every occurrence of \<open>old\<close>, from the left; an empty \<open>old\<close> is before each character (of ASCII text) and at the end.\<close>

function replace_all :: "string \<Rightarrow> string \<Rightarrow> string \<Rightarrow> string" where
  "replace_all old new s =
     (if old = [] then concat (map (\<lambda>c. new @ [c]) s) @ new
      else if length s < length old then s
      else if prefix old s then new @ replace_all old new (drop (length old) s)
      else hd s # replace_all old new (tl s))"
  by pat_completeness auto

termination
proof (relation "measure (\<lambda>(old, new, s). length s)", goal_cases)
  case (2 old new s)
  then show ?case by (cases old; cases s) auto
next
  case (3 old new s)
  then show ?case by (cases old; cases s) auto
qed simp

declare replace_all.simps [simp del]

definition rename_spec :: "string \<Rightarrow> ExperimentSpec \<Rightarrow> ExperimentSpec" where
  "rename_spec name e =
     (if es_ExperimentName e = name then e
      else
        e\<lparr>es_BaseDir := (if sublist (es_ExperimentName e) (es_BaseDir e)
                         then replace_all (es_ExperimentName e) name (es_BaseDir e) else es_BaseDir e),
          es_ExperimentName := name\<rparr>)"

definition hookUpdate :: "('s, 'v) exp_env \<Rightarrow> Experiment \<Rightarrow> 'v Config \<Rightarrow> ('s, 'v Config) exp_action" where
  "hookUpdate X e c =
     (if Running e then failE ExpRunning
      else
        bindE (readE (\<lambda>_. spec_Init X (ex_Spec e))) (\<lambda>sp1.
        bindE (readE (\<lambda>_. bridge_settings X (c_Name c) sp1)) (\<lambda>sp2.
        bindE (bridge_free X (ex_Name e) sp2) (\<lambda>_.
          retE (c\<lparr>c_Spec := sp_encode (xe_spec X) (rename_spec (c_Name c) sp2)\<rparr>)))))"

definition hookDelete :: "('s, 'v) exp_env \<Rightarrow> Experiment \<Rightarrow> 'v Config \<Rightarrow> ('s, 'v Config) exp_action" where
  "hookDelete X e c s =
     (case xe_cleanup X e s of (s', Some m) \<Rightarrow> (s', Inl (ExpCleanup m)) | (s', None) \<Rightarrow> (s', Inr c))"

definition experimentConfigHook :: "('s, 'v) exp_env \<Rightarrow> ('s, 'v) config_hook" where
  "experimentConfigHook X stage c s =
     (case bindE (readE (\<lambda>_. DecodeExperimentFromConfig X c)) (\<lambda>e.
             if stage = ''startup'' then hookStartup X e c
             else if stage = ''create'' then hookCreate X e c
             else if stage = ''update'' then hookUpdate X e c
             else if stage = ''delete'' then hookDelete X e c
             else retE c) s of
        (s', Inl err) \<Rightarrow> (s', c, Some (xe_show X err))
      | (s', Inr c') \<Rightarrow> (s', c', None))"

subsection \<open>Experiments in a store of configs\<close>

definition stored_exp ::
  "('s, 'v) exp_env \<Rightarrow> ('s \<Rightarrow> string \<times> string \<rightharpoonup> 'v Config) \<Rightarrow> 's \<Rightarrow> string \<Rightarrow> Experiment option" where
  "stored_exp X view s n =
     (case view s (''Experiment'', n) of
        None \<Rightarrow> None
      | Some c \<Rightarrow> (case DecodeExperimentFromConfig X c of Inl _ \<Rightarrow> None | Inr e \<Rightarrow> Some e))"

text \<open>Every stored experiment decodes, and no two share a bridge other than the default one.\<close>

definition exps_decode :: "('s, 'v) exp_env \<Rightarrow> ('s \<Rightarrow> string \<times> string \<rightharpoonup> 'v Config) \<Rightarrow> 's \<Rightarrow> bool" where
  "exps_decode X view s \<longleftrightarrow> (\<forall>n. view s (''Experiment'', n) \<noteq> None \<longrightarrow> stored_exp X view s n \<noteq> None)"

definition bridges_distinct :: "('s, 'v) exp_env \<Rightarrow> ('s \<Rightarrow> string \<times> string \<rightharpoonup> 'v Config) \<Rightarrow> 's \<Rightarrow> bool" where
  "bridges_distinct X view s \<longleftrightarrow>
     (\<forall>n m e f. n \<noteq> m \<longrightarrow> stored_exp X view s n = Some e \<longrightarrow> stored_exp X view s m = Some f \<longrightarrow>
        es_DefaultBridge (ex_Spec e) = es_DefaultBridge (ex_Spec f) \<longrightarrow> es_DefaultBridge (ex_Spec e) = defaultBridgeName)"

lemma experiment_kind:
  assumes "set ks = set config_kinds"
  shows "canonicalKind u ks ''experiment'' = ''Experiment''"
proof -
  have "equal_fold u k ''experiment'' \<longleftrightarrow> k = ''Experiment''" if "k \<in> set ks" for k
    using that unfolding assms by (auto simp: config_kinds_def StoredVersion_def equal_fold_def runes_def rune_fold_def)
  moreover have "''Experiment'' \<in> set ks" unfolding assms by (simp add: config_kinds_def StoredVersion_def)
  ultimately show ?thesis by (rule unique_kind)
qed

lemma spec_Init_bridge:
  "spec_Init X sp = Inr sp' \<Longrightarrow>
   es_DefaultBridge sp' = (if es_DefaultBridge sp = [] then defaultBridgeName else es_DefaultBridge sp)"
  by (auto simp: spec_Init_def ExperimentSpec_Init_def spec_defaults_def Let_def bindR_Inr_iff defaultBridgeName_def
      split: sum.splits option.splits if_splits)

text \<open>The hooks of the kinds when only this package registers one.\<close>

definition exp_hooks :: "('s, 'v) exp_env \<Rightarrow> string \<Rightarrow> ('s, 'v) config_hook list" where
  "exp_hooks X kind = (if kind = ''Experiment'' then [experimentConfigHook X] else [])"

lemma run_exp_hooks:
  "run_hooks v stage (hooks_of (exp_hooks X) ''Experiment'') c s = (s', Inr c') \<Longrightarrow>
   experimentConfigHook X stage c s = (s', c', None)"
  by (auto simp: hooks_of_def exp_hooks_def AllKinds_def name_hook_def checkV_def checkE_def bindE_def
      split: if_splits option.splits prod.splits)

locale experiment_store = config_api "xe_store X" ok view norm "xe_case X" "xe_kinds X"
  for X :: "('s, 'v) exp_env" and ok :: "'s \<Rightarrow> bool" and view :: "'s \<Rightarrow> string \<times> string \<rightharpoonup> 'v Config"
    and norm :: "'v Config \<Rightarrow> 'v Config" +
  assumes exp_codec: "c_Spec c = sp_encode (xe_spec X) x \<Longrightarrow> sp_decode (xe_spec X) (c_Spec (norm c)) = Inr x"
    and status_codec: "c_Status c = sp_encode (xe_status X) y \<Longrightarrow> sp_decode (xe_status X) (c_Status (norm c)) = Inr y"
    and status_norm: "sp_decode (xe_status X) (c_Status (norm c)) = sp_decode (xe_status X) (c_Status c)"
    and apps_law: "ok s \<Longrightarrow> xe_apps X e s = (s', r) \<Longrightarrow>
      ok s' \<and> view s' = view s \<and> (case r of Inl _ \<Rightarrow> True | Inr e' \<Rightarrow> es_DefaultBridge (ex_Spec e') = es_DefaultBridge (ex_Spec e))"
    and cleanup_law: "ok s \<Longrightarrow> xe_cleanup X e s = (s', m) \<Longrightarrow> ok s' \<and> view s' = view s"
begin

abbreviation "exps \<equiv> stored_exp X view"

lemma exp_key: "NewConfig (xe_case X) (xe_kinds X) (''experiment/'' @ n) = Inr t \<Longrightarrow> config_key t = (''Experiment'', n)"
  using NewConfig_key[of "xe_case X" "xe_kinds X" "''experiment''" n t] experiment_kind[OF kinds_order] by simp

lemma stored_config_law:
  assumes "ok s" and "stored_config X n s = (s', r)"
  shows "ok s' \<and> view s' = view s
    \<and> (case r of Inr c \<Rightarrow> view s (''Experiment'', n) = Some c \<and> config_key c = (''Experiment'', n) | Inl _ \<Rightarrow> True)"
proof (cases "NewConfig (xe_case X) (xe_kinds X) (''experiment/'' @ n) :: config_err + 'v Config")
  case (Inl e)
  then show ?thesis using assms by (auto simp: stored_config_def)
next
  case (Inr t)
  obtain s1 r1 where g: "cs_get (xe_store X) t s = (s1, r1)" by fastforce
  note g1 = named[OF Inr assms(1) g] and key = exp_key[OF Inr]
  have "s' = s1 \<and> r = (case r1 of Inl e \<Rightarrow> Inl (ExpConfig e) | Inr c \<Rightarrow> Inr c)"
    using assms(2) Inr g by (auto simp: stored_config_def exp_store_def split: sum.splits)
  then show ?thesis
    using g1 view_key[OF assms(1), of "(''Experiment'', n)"] unfolding key
    by (auto simp: existing_outcome_def split: sum.splits)
qed

text \<open>Storing a new spec in the config of an experiment changes the spec and the time, and nothing else.\<close>

lemma replace_spec:
  assumes "ok s" and "view s (''Experiment'', n) = Some c"
    and "cs_update (xe_store X) now (c\<lparr>c_Spec := sp_encode (xe_spec X) sp\<rparr>) s = (s', r)"
  shows "ok s' \<and> (case r of
      Inl _ \<Rightarrow> view s' = view s
    | Inr _ \<Rightarrow> (\<forall>k. k \<noteq> (''Experiment'', n) \<longrightarrow> view s' k = view s k)
        \<and> (\<forall>e. exps s n = Some e \<longrightarrow>
             exps s' n = Some (e\<lparr>ex_Spec := sp, ex_Metadata := (ex_Metadata e)\<lparr>cm_Updated := now\<rparr>\<rparr>)))"
proof -
  let ?c = "c\<lparr>c_Spec := sp_encode (xe_spec X) sp\<rparr>" and ?k = "(''Experiment'', n)"
  obtain c0 where key: "c_Kind c = ''Experiment''" "c_Name c = n" and c0: "c = norm c0"
    using view_norm[OF assms(1,2)] by auto
  have kind: "c_Kind ?c \<in> set config_kinds" using key by (simp add: config_kinds_def StoredVersion_def)
  note up = update_law[OF assms(1) kind assms(3)]
  show ?thesis
  proof (cases r)
    case (Inl e)
    then show ?thesis using up by (simp add: existing_outcome_def)
  next
    case (Inr c')
    let ?d = "norm (updated_at now ?c)"
    have v: "view s' = (view s)(?k \<mapsto> ?d)" and "ok s'" using up Inr key by (auto simp: existing_outcome_def)
    have "c_Kind ?d = ''Experiment''" "c_Version ?d = c_Version c" "sp_decode (xe_spec X) (c_Spec ?d) = Inr sp"
      "c_Status ?d = c_Status c"
      using key norm_key[of "updated_at now ?c"] norm_fields(2)[of "updated_at now ?c" c0] exp_codec[of "updated_at now ?c" sp]
      by (simp_all add: updated_at_def norm_version c0)
    moreover have "c_Metadata ?d = (c_Metadata c)\<lparr>cm_Updated := now\<rparr>"
    proof (rule ConfigMetadata.equality)
      show "cm_Annotations (c_Metadata ?d) = cm_Annotations ((c_Metadata c)\<lparr>cm_Updated := now\<rparr>)"
        using norm_fields(3)[of "updated_at now ?c" c0] by (simp add: updated_at_def c0)
    qed (use norm_key[of "updated_at now ?c"] in \<open>simp_all add: norm_times updated_at_def\<close>)
    ultimately have "exps s' n = Some (e\<lparr>ex_Spec := sp, ex_Metadata := (ex_Metadata e)\<lparr>cm_Updated := now\<rparr>\<rparr>)"
      if "exps s n = Some e" for e
      using that assms(2)
      by (auto simp: stored_exp_def v DecodeExperimentFromConfig_def Config_APIVersion_def split: if_splits sum.splits)
    then show ?thesis using v \<open>ok s'\<close> Inr by simp
  qed
qed

lemma save_law:
  assumes "ok s" and "Experiment_Save X now n (Some sp) s = (s', r)"
  shows "ok s' \<and> (case r of
      Inl _ \<Rightarrow> view s' = view s
    | Inr _ \<Rightarrow> (\<forall>k. k \<noteq> (''Experiment'', n) \<longrightarrow> view s' k = view s k)
        \<and> (\<forall>e. exps s n = Some e \<longrightarrow>
             exps s' n = Some (e\<lparr>ex_Spec := sp, ex_Metadata := (ex_Metadata e)\<lparr>cm_Updated := now\<rparr>\<rparr>)))"
proof -
  obtain s1 r1 where g: "stored_config X n s = (s1, r1)" by fastforce
  note g1 = stored_config_law[OF assms(1) g]
  have same: "exps s1 n = exps s n" using g1 by (simp add: stored_exp_def)
  show ?thesis
  proof (cases "\<exists>c. n \<noteq> [] \<and> r1 = Inr c")
    case False
    then show ?thesis using assms g g1 by (cases r1) (auto simp: Experiment_Save_def bindE_def split: if_splits)
  next
    case True
    then obtain c where c: "n \<noteq> []" "r1 = Inr c" by blast
    obtain s2 r2 where u: "cs_update (xe_store X) now (c\<lparr>c_Spec := sp_encode (xe_spec X) sp\<rparr>) s1 = (s2, r2)" by fastforce
    have "s' = s2 \<and> r = (case r2 of Inl e \<Rightarrow> Inl (ExpConfig e) | Inr c \<Rightarrow> Inr c)"
      using assms(2) g c u by (auto simp: Experiment_Save_def bindE_def exp_store_def split: sum.splits)
    then show ?thesis using replace_spec[OF _ _ u] g1 c(2) same by (auto split: sum.splits)
  qed
qed

lemma get_law':
  assumes "ok s" and "Experiment_Get X n s = (s', r)"
  shows "ok s' \<and> view s' = view s \<and> (case r of Inr e \<Rightarrow> exps s n = Some e \<and> ex_Name e = n \<and> n \<noteq> [] | Inl _ \<Rightarrow> True)"
proof (cases "NewConfig (xe_case X) (xe_kinds X) (''experiment/'' @ n) :: config_err + 'v Config")
  case (Inl e)
  then show ?thesis using assms by (auto simp: Experiment_Get_def split: if_splits)
next
  case (Inr t)
  obtain s1 r1 where g: "cs_get (xe_store X) t s = (s1, r1)" by fastforce
  note g1 = named[OF Inr assms(1) g] and key = exp_key[OF Inr]
  have res: "if n = [] then s' = s \<and> r = Inl NoExpName
      else s' = s1 \<and> r = (case r1 of Inl e \<Rightarrow> Inl (ExpConfig e) | Inr c \<Rightarrow> DecodeExperimentFromConfig X c)"
    using assms(2) Inr g by (auto simp: Experiment_Get_def exp_store_def bindE_def split: sum.splits if_splits)
  show ?thesis
  proof (cases r)
    case (Inl e)
    then show ?thesis using res g1 assms(1) by (auto split: if_splits)
  next
    case (Inr e)
    then obtain c where c: "r1 = Inr c" "DecodeExperimentFromConfig X c = Inr e" "n \<noteq> []" "s' = s1"
      using res by (auto split: if_splits sum.splits)
    have v: "view s (''Experiment'', n) = Some c" using g1 c(1) unfolding key by (simp add: existing_outcome_def)
    then have "c_Name c = n" using view_key[OF assms(1)] by fastforce
    moreover have "ex_Metadata e = c_Metadata c"
      using c(2) by (auto simp: DecodeExperimentFromConfig_def split: if_splits sum.splits)
    ultimately show ?thesis using g1 c v Inr by (simp add: stored_exp_def)
  qed
qed

lemma schedule_law:
  assumes "ok s" and "Experiment_Schedule X progs srt ord cluster now n alg s = (s', r)"
  shows "ok s' \<and> (case r of
      Inl _ \<Rightarrow> view s' = view s
    | Inr _ \<Rightarrow> (\<forall>k. k \<noteq> (''Experiment'', n) \<longrightarrow> view s' k = view s k)
        \<and> (\<exists>e sp. exps s n = Some e \<and> \<not> Running e \<and> Schedule progs srt ord alg cluster (ex_Spec e) = (sp, None)
             \<and> exps s' n = Some (e\<lparr>ex_Spec := sp, ex_Metadata := (ex_Metadata e)\<lparr>cm_Updated := now\<rparr>\<rparr>)))"
proof -
  obtain s1 r1 where g: "stored_config X n s = (s1, r1)" by fastforce
  note g1 = stored_config_law[OF assms(1) g]
  have same: "exps s1 n = exps s n" using g1 by (simp add: stored_exp_def)
  show ?thesis
  proof (cases "\<exists>c e sp. r1 = Inr c \<and> DecodeExperimentFromConfig X c = Inr e \<and> \<not> Running e
      \<and> Schedule progs srt ord alg cluster (ex_Spec e) = (sp, None)")
    case False
    then have "s' = s1 \<and> (\<exists>e. r = Inl e)"
      using assms(2) g by (auto simp: Experiment_Schedule_def bindE_def split: sum.splits if_splits prod.splits option.splits)
    then show ?thesis using g1 by auto
  next
    case True
    then obtain c e sp where c: "r1 = Inr c" "DecodeExperimentFromConfig X c = Inr e" "\<not> Running e"
      "Schedule progs srt ord alg cluster (ex_Spec e) = (sp, None)" by blast
    obtain s2 r2 where u: "cs_update (xe_store X) now (c\<lparr>c_Spec := sp_encode (xe_spec X) sp\<rparr>) s1 = (s2, r2)" by fastforce
    have "s' = s2 \<and> r = (case r2 of Inl e \<Rightarrow> Inl (ExpConfig e) | Inr c \<Rightarrow> Inr c)"
      using assms(2) g c u by (auto simp: Experiment_Schedule_def bindE_def exp_store_def split: sum.splits)
    moreover have "view s (''Experiment'', n) = Some c" "exps s n = Some e" using g1 c(1,2) by (simp_all add: stored_exp_def)
    ultimately show ?thesis using replace_spec[OF _ _ u, of n] g1 same c(3,4) by (auto split: sum.splits)
  qed
qed

text \<open>The list of experiments, when each stored one decodes.\<close>

lemma decode_all_experiments:
  "\<forall>c \<in> set cs. \<exists>e. DecodeExperimentFromConfig X c = Inr e \<Longrightarrow>
   \<exists>es. decode_experiments X cs = (es, []) \<and> set es = {e. \<exists>c \<in> set cs. DecodeExperimentFromConfig X c = Inr e}"
  by (induction cs) auto

lemma experiments_law:
  assumes "ok s" and "exps_decode X view s" and "Experiments X False s = (s', r)"
  shows "ok s' \<and> view s' = view s
    \<and> (case r of Inr es \<Rightarrow> set es = {e. \<exists>n. exps s n = Some e \<and> ex_Name e = n} | Inl e \<Rightarrow> \<exists>m. e = ExpConfig m)"
proof -
  obtain s1 r1 where l: "cs_list (xe_store X) [''Experiment''] s = (s1, r1)" by fastforce
  have "set [''Experiment''] \<subseteq> set config_kinds" by (simp add: config_kinds_def StoredVersion_def)
  note l1 = list_law[OF assms(1) this l]
  show ?thesis
  proof (cases r1)
    case (Inl e)
    then show ?thesis using assms(3) l l1 by (auto simp: Experiments_def exp_store_def bindE_def)
  next
    case (Inr cs)
    then have cs: "set cs = {c. \<exists>n. view s (''Experiment'', n) = Some c}" using l1 by simp
    have "\<exists>e. DecodeExperimentFromConfig X c = Inr e" if c: "c \<in> set cs" for c
    proof -
      obtain n where n: "view s (''Experiment'', n) = Some c" using c cs by blast
      have "view s (''Experiment'', n) \<noteq> None" by (simp add: n)
      then have "exps s n \<noteq> None" using assms(2) unfolding exps_decode_def by blast
      then show ?thesis using n by (cases "DecodeExperimentFromConfig X c") (auto simp: stored_exp_def)
    qed
    then obtain es where es: "decode_experiments X cs = (es, [])"
      "set es = {e. \<exists>c \<in> set cs. DecodeExperimentFromConfig X c = Inr e}" using decode_all_experiments[of cs] by blast
    have "e \<in> set es \<longleftrightarrow> (\<exists>n. exps s n = Some e \<and> ex_Name e = n)" for e
    proof
      assume "e \<in> set es"
      then obtain c n where c: "view s (''Experiment'', n) = Some c" "DecodeExperimentFromConfig X c = Inr e"
        using es(2) cs by auto
      moreover have "c_Name c = n" using view_key[OF assms(1) c(1)] by simp
      moreover have "ex_Metadata e = c_Metadata c"
        using c(2) by (auto simp: DecodeExperimentFromConfig_def split: if_splits sum.splits)
      ultimately show "\<exists>n. exps s n = Some e \<and> ex_Name e = n" by (auto simp: stored_exp_def)
    next
      assume "\<exists>n. exps s n = Some e \<and> ex_Name e = n"
      then show "e \<in> set es" using es(2) cs by (auto simp: stored_exp_def split: option.splits sum.splits)
    qed
    then have "set es = {e. \<exists>n. exps s n = Some e \<and> ex_Name e = n}" by blast
    moreover have "s' = s1 \<and> r = Inr es"
      using assms(3) l Inr es(1) by (auto simp: Experiments_def exp_store_def bindE_def)
    ultimately show ?thesis using l1 by simp
  qed
qed

lemma bridge_free_law:
  assumes "ok s" and "exps_decode X view s" and "bridge_free X name sp s = (s', r)"
    and "\<exists>es. snd (Experiments X False s) = Inr es"
  shows "ok s' \<and> view s' = view s
    \<and> (r = Inr () \<longleftrightarrow> (\<forall>n e. exps s n = Some e \<longrightarrow> ex_Name e = n \<longrightarrow> n \<noteq> name \<longrightarrow>
          es_DefaultBridge (ex_Spec e) = es_DefaultBridge sp \<longrightarrow> es_DefaultBridge sp = defaultBridgeName))"
proof -
  obtain s1 es where l: "Experiments X False s = (s1, Inr es)" using assms(4) by (metis prod.collapse)
  note l1 = experiments_law[OF assms(1,2) l]
  have "s' = s1 \<and> (r = Inr () \<longleftrightarrow> bridge_user name (es_DefaultBridge sp) es = None)"
    using assms(3) l by (auto simp: bridge_free_def split: option.splits)
  then show ?thesis using l1 by (auto simp: bridge_user_def find_None_iff)
qed

lemma exps_name: "ok s \<Longrightarrow> exps s n = Some e \<Longrightarrow> ex_Name e = n"
  using view_key by (fastforce simp: stored_exp_def DecodeExperimentFromConfig_def split: option.splits sum.splits if_splits)

lemma bridge_settings_ok:
  "bridge_settings X n sp = Inr sp' \<Longrightarrow>
   es_DefaultBridge sp' = (if xe_auto X then n else es_DefaultBridge sp) \<and> length (es_DefaultBridge sp') \<le> MaxBridgeNameLength"
  by (auto simp: bridge_settings_def Let_def split: if_splits)

text \<open>What a config may be replaced by when an experiment is created: its bridge is not taken.\<close>

lemma hookCreate_ok:
  assumes "ok s" and "exps_decode X view s" and "\<exists>es. snd (Experiments X False s) = Inr es"
    and "hookCreate X e c s = (s', Inr c')"
  shows "ok s' \<and> view s' = view s \<and> (\<exists>sp. c' = c\<lparr>c_Spec := sp_encode (xe_spec X) sp\<rparr>
    \<and> length (es_DefaultBridge sp) \<le> MaxBridgeNameLength
    \<and> (\<forall>n f. exps s n = Some f \<longrightarrow> n \<noteq> ex_Name e \<longrightarrow> es_DefaultBridge (ex_Spec f) = es_DefaultBridge sp \<longrightarrow>
         es_DefaultBridge sp = defaultBridgeName))"
proof -
  obtain sp1 where sp1: "spec_Init X ((ex_Spec e)\<lparr>es_ExperimentName := c_Name c\<rparr>) = Inr sp1"
    using assms(4) by (cases "spec_Init X ((ex_Spec e)\<lparr>es_ExperimentName := c_Name c\<rparr>)") (auto simp: hookCreate_def bindE_def)
  obtain sp2 where sp2: "bridge_settings X (c_Name c) sp1 = Inr sp2"
    using assms(4) sp1 by (cases "bridge_settings X (c_Name c) sp1") (auto simp: hookCreate_def bindE_def)
  obtain s1 r1 where free: "bridge_free X (ex_Name e) sp2 s = (s1, r1)" by fastforce
  obtain s2 r2 where apps: "xe_apps X (e\<lparr>ex_Spec := sp2\<rparr>) s1 = (s2, r2)" by fastforce
  have r1: "r1 = Inr ()" and s2: "s' = s2"
    and "\<exists>e'. r2 = Inr e' \<and> c' = c\<lparr>c_Spec := sp_encode (xe_spec X) (ex_Spec e')\<rparr>"
    using assms(4) sp1 sp2 free apps by (auto simp: hookCreate_def bindE_def split: sum.splits)
  then obtain e' where e': "r2 = Inr e'" "c' = c\<lparr>c_Spec := sp_encode (xe_spec X) (ex_Spec e')\<rparr>" by blast
  note f = bridge_free_law[OF assms(1,2) free assms(3)]
  have "ok s2 \<and> view s2 = view s1 \<and> es_DefaultBridge (ex_Spec e') = es_DefaultBridge sp2"
    using apps_law[OF _ apps] f e'(1) by simp
  then show ?thesis
    using f r1 s2 e'(2) bridge_settings_ok[OF sp2] exps_name[OF assms(1)] by (intro conjI exI[of _ "ex_Spec e'"]) auto
qed

lemma create_experiment:
  assumes "ok s" and "exps_decode X view s" and "\<exists>es. snd (Experiments X False s) = Inr es"
    and "c_Kind c = ''Experiment''"
    and run: "Config_Create valid (exp_hooks X) (xe_store X) vld now (FromConfig c) s = (s', Inr c')"
  shows "ok s' \<and> (\<exists>e. (\<forall>n. exps s' n = (if n = c_Name c then Some e else exps s n))
    \<and> length (es_DefaultBridge (ex_Spec e)) \<le> MaxBridgeNameLength \<and> exps s (c_Name c) = None
    \<and> (\<forall>n f. exps s n = Some f \<longrightarrow> n \<noteq> c_Name c \<longrightarrow> es_DefaultBridge (ex_Spec f) = es_DefaultBridge (ex_Spec e) \<longrightarrow>
         es_DefaultBridge (ex_Spec e) = defaultBridgeName))
    \<and> exps_decode X view s'"
proof -
  let ?v = "if vld then valid else (\<lambda>_. None)"
  obtain s1 r1 where h: "run_hooks ?v ''create'' (hooks_of (exp_hooks X) ''Experiment'') c s = (s1, r1)" by fastforce
  obtain c1 where c1: "r1 = Inr c1" and cr: "cs_create (xe_store X) now c1 s1 = (s', Inr c')"
    using run h assms(4)
    by (cases r1; cases "?v c") (auto simp: Config_Create_def source_config_def checkV_def bindE_def Let_def in_store_def split: prod.splits sum.splits)
  have hook: "experimentConfigHook X ''create'' c s = (s1, c1, None)"
    using run_exp_hooks[of ?v "''create''" X c s s1 c1] h c1 by simp
  obtain e where e: "DecodeExperimentFromConfig X c = Inr e" and hc: "hookCreate X e c s = (s1, Inr c1)"
    using hook by (cases "DecodeExperimentFromConfig X c") (auto simp: experimentConfigHook_def bindE_def split: prod.splits sum.splits)
  have name: "ex_Name e = c_Name c" and ver: "Config_APIVersion c = ''v1''" and "\<exists>st. sp_decode (xe_status X) (c_Status c) = Inr st"
    using e by (auto simp: DecodeExperimentFromConfig_def split: if_splits sum.splits)
  then obtain st where st: "sp_decode (xe_status X) (c_Status c) = Inr st" by blast
  obtain sp where s1: "ok s1" "view s1 = view s" and c1': "c1 = c\<lparr>c_Spec := sp_encode (xe_spec X) sp\<rparr>"
    and len: "length (es_DefaultBridge sp) \<le> MaxBridgeNameLength"
    and free: "\<forall>n f. exps s n = Some f \<longrightarrow> n \<noteq> c_Name c \<longrightarrow> es_DefaultBridge (ex_Spec f) = es_DefaultBridge sp \<longrightarrow>
         es_DefaultBridge sp = defaultBridgeName"
    using hookCreate_ok[OF assms(1,2,3) hc] name by auto
  have kind: "c_Kind c1 \<in> set config_kinds" using assms(4) by (simp add: c1' config_kinds_def StoredVersion_def)
  let ?d = "norm (created_at now c1)"
  have v: "view s' = (view s)((''Experiment'', c_Name c) \<mapsto> ?d)" and none: "view s (''Experiment'', c_Name c) = None" and "ok s'"
    using create_law[OF s1(1) kind cr] s1(2) assms(4) by (auto simp: c1')
  have "c_Kind ?d = ''Experiment''" "Config_APIVersion ?d = ''v1''" "sp_decode (xe_spec X) (c_Spec ?d) = Inr sp"
    "sp_decode (xe_status X) (c_Status ?d) = Inr st"
    using norm_key[of "created_at now c1"] assms(4) ver st exp_codec[of "created_at now c1" sp]
    by (simp_all add: status_norm norm_version c1' created_at_def Let_def Config_APIVersion_def)
  then have new: "exps s' (c_Name c) = Some \<lparr>ex_Metadata = c_Metadata ?d, ex_Spec = sp, ex_Status = Some st\<rparr>"
    by (simp add: stored_exp_def v DecodeExperimentFromConfig_def)
  have old: "exps s' n = exps s n" if "n \<noteq> c_Name c" for n using that by (simp add: stored_exp_def v)
  have "exps_decode X view s'" using assms(2) new old by (auto simp: exps_decode_def v)
  then show ?thesis using \<open>ok s'\<close> new old none len free
    by (intro conjI exI[of _ "\<lparr>ex_Metadata = c_Metadata ?d, ex_Spec = sp, ex_Status = Some st\<rparr>"]) (auto simp: stored_exp_def)
qed

text \<open>
  An update that keeps a bridge which another stored experiment has is refused. The experiment
  under its old name is such another one while it is being renamed.
\<close>

lemma hookUpdate_refused:
  assumes "ok s" and "exps_decode X view s" and "\<exists>es. snd (Experiments X False s) = Inr es"
    and "exps s n = Some f" and "ex_Name e \<noteq> n" and "es_DefaultBridge (ex_Spec e) = es_DefaultBridge (ex_Spec f)"
    and "es_DefaultBridge (ex_Spec f) \<notin> {[], defaultBridgeName}" and "\<not> xe_auto X"
  shows "\<exists>s' err. hookUpdate X e c s = (s', Inl err)"
proof (cases "hookUpdate X e c s")
  case (Pair s' r)
  show ?thesis
  proof (cases r)
    case (Inr c')
    then have nr: "\<not> Running e" using Pair by (auto simp: hookUpdate_def)
    obtain sp1 where sp1: "spec_Init X (ex_Spec e) = Inr sp1"
      using Pair Inr nr by (cases "spec_Init X (ex_Spec e)") (auto simp: hookUpdate_def bindE_def)
    obtain sp2 where sp2: "bridge_settings X (c_Name c) sp1 = Inr sp2"
      using Pair Inr nr sp1 by (cases "bridge_settings X (c_Name c) sp1") (auto simp: hookUpdate_def bindE_def)
    have "es_DefaultBridge sp2 = es_DefaultBridge (ex_Spec f)"
      using bridge_settings_ok[OF sp2] spec_Init_bridge[OF sp1] assms(6-8) by auto
    then have "snd (bridge_free X (ex_Name e) sp2 s) \<noteq> Inr ()"
      using bridge_free_law[OF assms(1,2) _ assms(3), of "ex_Name e" sp2 "fst (bridge_free X (ex_Name e) sp2 s)" "snd (bridge_free X (ex_Name e) sp2 s)"]
        exps_name[OF assms(1,4)] assms(4,5,7) by auto
    then show ?thesis using Pair Inr nr sp1 sp2 by (auto simp: hookUpdate_def bindE_def split: prod.splits sum.splits)
  qed (use Pair in blast)
qed

end

subsection \<open>Experiments in memory\<close>

text \<open>
  Configs whose values are experiment specs and status, in the store \<^const>\<open>al_cstore\<close>, with apps that
  change nothing: an instance of \<open>experiment_store\<close> in which the properties are evaluated.
\<close>

type_synonym exp_value = "ExperimentSpec + ExperimentStatus"

definition empty_status :: ExperimentStatus where
  "empty_status = \<lparr>st_StartTime = [], st_Schedules = None, st_Apps = None, st_VLANs = None,
     st_Frequency = None, st_Running = None, st_Cleanup = None\<rparr>"

definition status_fields :: "(ExperimentStatus, exp_value) spec_codec" where
  "status_fields =
     (let f = one_field Inr (\<lambda>v. case v of Inl _ \<Rightarrow> None | Inr x \<Rightarrow> Some x)
      in \<lparr>sp_encode = sp_encode f, sp_decode = (\<lambda>m. if m = None then Inr empty_status else sp_decode f m)\<rparr>)"

definition al_exp_env :: "(exp_value al_store, exp_value) exp_env" where
  "al_exp_env =
     \<lparr>xe_store = al_cstore, xe_case = \<lparr>u_lower = id, u_fold = id\<rparr>, xe_kinds = config_kinds,
      xe_spec = one_field Inl (\<lambda>v. case v of Inl x \<Rightarrow> Some x | Inr _ \<Rightarrow> None), xe_status = status_fields,
      xe_base = ''/phenix'', xe_abs = (\<lambda>_. None), xe_auto = False, xe_gre = False,
      xe_apps = (\<lambda>e s. (s, Inr e)), xe_cleanup = (\<lambda>e s. (s, None)), xe_show = (\<lambda>_. ''error'')\<rparr>"

lemma al_exp_env_sel [simp]:
  "xe_store al_exp_env = al_cstore" "xe_kinds al_exp_env = config_kinds"
  "xe_case al_exp_env = \<lparr>u_lower = id, u_fold = id\<rparr>" "xe_auto al_exp_env = False"
  "xe_apps al_exp_env e s = (s, Inr e)" "xe_cleanup al_exp_env e s = (s, None)"
  "sp_encode (xe_spec al_exp_env) x = Some [''spec'' \<mapsto> Inl x]"
  "sp_decode (xe_spec al_exp_env) (Some [''spec'' \<mapsto> Inl x]) = Inr x"
  "sp_encode (xe_status al_exp_env) y = Some [''spec'' \<mapsto> Inr y]"
  "sp_decode (xe_status al_exp_env) (Some [''spec'' \<mapsto> Inr y]) = Inr y"
  "sp_decode (xe_status al_exp_env) None = Inr empty_status"
  by (simp_all add: al_exp_env_def one_field_def status_fields_def Let_def)

interpretation alx: experiment_store al_exp_env al_ok map_of "\<lambda>c. c"
  by (intro experiment_store.intro config_api.intro config_api_axioms.intro experiment_store_axioms.intro)
     (auto simp: al.config_store_axioms)

definition exp_config :: "string \<Rightarrow> string \<Rightarrow> ExperimentSpec \<Rightarrow> exp_value Config" where
  "exp_config n now sp = empty_config\<lparr>c_Version := ''phenix.sandia.gov/v1'', c_Kind := ''Experiment'',
     c_Metadata := empty_metadata\<lparr>cm_Name := n, cm_Created := ''t0'', cm_Updated := now\<rparr>, c_Spec := Some [''spec'' \<mapsto> Inl sp]\<rparr>"

definition one_exp :: "string \<Rightarrow> string \<Rightarrow> ExperimentSpec \<Rightarrow> exp_value al_store" where
  "one_exp n now sp = [((''Experiment'', n), exp_config n now sp)]"

definition exp_of :: "string \<Rightarrow> string \<Rightarrow> ExperimentSpec \<Rightarrow> Experiment" where
  "exp_of n now sp = \<lparr>ex_Metadata = empty_metadata\<lparr>cm_Name := n, cm_Created := ''t0'', cm_Updated := now\<rparr>,
     ex_Spec = sp, ex_Status = Some empty_status\<rparr>"

lemma exp_config_decode: "DecodeExperimentFromConfig al_exp_env (exp_config n now sp) = Inr (exp_of n now sp)"
  by (simp add: DecodeExperimentFromConfig_def exp_config_def exp_of_def Config_APIVersion_def Let_def empty_config_def)

lemma exp_config_sel [simp]: "c_Kind (exp_config n now sp) = ''Experiment''" "c_Name (exp_config n now sp) = n"
  by (simp_all add: exp_config_def empty_config_def empty_metadata_def)

lemma one_exp_ok [simp]: "al_ok (one_exp n now sp)"
  by (auto simp: al_ok_def one_exp_def split: if_splits)

lemma one_exp_view: "map_of (one_exp n now sp) (''Experiment'', m) = (if m = n then Some (exp_config n now sp) else None)"
  by (simp add: one_exp_def)

lemma one_exp_stored [simp]:
  "stored_exp al_exp_env map_of (one_exp n now sp) m = (if m = n then Some (exp_of n now sp) else None)"
  by (simp add: stored_exp_def one_exp_def exp_config_decode)

lemma one_exp_decode [simp]: "exps_decode al_exp_env map_of (one_exp n now sp)"
  by (auto simp: exps_decode_def one_exp_def split: if_splits) (simp_all add: one_exp_def[symmetric])

lemma one_exp_list: "snd (Experiments al_exp_env False (one_exp n now sp)) = Inr [exp_of n now sp]"
  by (simp add: Experiments_def exp_store_def bindE_def al_cstore_def one_exp_def exp_config_decode)

lemma new_exp: "\<exists>t :: 'v Config. NewConfig \<lparr>u_lower = id, u_fold = id\<rparr> config_kinds ''experiment/exp'' = Inr t
    \<and> config_key t = (''Experiment'', ''exp'')"
  by (simp add: NewConfig_def Let_def canonicalKind_def config_kinds_def StoredVersion_def APIGroup_def equal_fold_def runes_def
      rune_fold_def fresh_config_def empty_config_def empty_metadata_def)

lemma one_exp_config:
  "stored_config al_exp_env ''exp'' (one_exp ''exp'' now sp) = (one_exp ''exp'' now sp, Inr (exp_config ''exp'' now sp))"
proof -
  obtain t :: "exp_value Config" where t: "NewConfig \<lparr>u_lower = id, u_fold = id\<rparr> config_kinds ''experiment/exp'' = Inr t"
    "config_key t = (''Experiment'', ''exp'')" using new_exp by blast
  then show ?thesis by (simp add: stored_config_def exp_store_def al_cstore_def one_exp_def)
qed

lemma one_exp_get: "Experiment_Get al_exp_env ''exp'' (one_exp ''exp'' now sp) = (one_exp ''exp'' now sp, Inr (exp_of ''exp'' now sp))"
proof -
  obtain t :: "exp_value Config" where t: "NewConfig \<lparr>u_lower = id, u_fold = id\<rparr> config_kinds ''experiment/exp'' = Inr t"
    "config_key t = (''Experiment'', ''exp'')" using new_exp by blast
  then show ?thesis by (simp add: Experiment_Get_def exp_store_def al_cstore_def one_exp_view bindE_def exp_config_decode)
qed

lemma one_exp_save:
  "Experiment_Save al_exp_env now' ''exp'' (Some sp') (one_exp ''exp'' now sp) = (one_exp ''exp'' now' sp', Inr (exp_config ''exp'' now' sp'))"
  by (simp add: Experiment_Save_def one_exp_config bindE_def exp_store_def al_cstore_def one_exp_view)
     (simp add: one_exp_def exp_config_def updated_at_def empty_config_def)

subsection \<open>Properties\<close>



definition bare_spec :: "string \<Rightarrow> ExperimentSpec" where
  "bare_spec bridge = example_spec\<lparr>es_Topology := Some \<lparr>ts_IncludeTopologies = [], ts_Nodes = []\<rparr>, es_DefaultBridge := bridge\<rparr>"

lemma bare_created:
  "\<exists>c'. hookCreate al_exp_env (exp_of ''b'' ''t0'' (bare_spec ''br-b'')) (exp_config ''b'' ''t0'' (bare_spec ''br-b''))
      (one_exp ''a'' ''t0'' (bare_spec ''br-a'')) = (one_exp ''a'' ''t0'' (bare_spec ''br-a''), Inr c')
    \<and> c_Kind c' = ''Experiment'' \<and> c_Name c' = ''b''"
proof -
  have init: "\<exists>sp. spec_Init al_exp_env ((bare_spec ''br-b'')\<lparr>es_ExperimentName := ''b''\<rparr>) = Inr sp \<and> es_Scenario sp = None"
    by (simp add: spec_Init_def ExperimentSpec_Init_def spec_defaults_def bare_spec_def example_spec_def Let_def TopologySpec_Init_def
        al_exp_env_def)
  then obtain sp where sp: "spec_Init al_exp_env ((bare_spec ''br-b'')\<lparr>es_ExperimentName := ''b''\<rparr>) = Inr sp" "es_Scenario sp = None"
    by blast
  have br: "es_DefaultBridge sp = ''br-b''" using spec_Init_bridge[OF sp(1)] by (simp add: bare_spec_def)
  have set: "bridge_settings al_exp_env ''b'' sp = Inr (sp\<lparr>es_UseGREMesh := es_UseGREMesh sp \<or> xe_gre al_exp_env\<rparr>)"
    by (simp add: bridge_settings_def br MaxBridgeNameLength_def)
  have "Experiments al_exp_env False (one_exp ''a'' ''t0'' (bare_spec ''br-a'')) =
      (one_exp ''a'' ''t0'' (bare_spec ''br-a''), Inr [exp_of ''a'' ''t0'' (bare_spec ''br-a'')])"
    by (simp add: Experiments_def exp_store_def bindE_def al_cstore_def one_exp_def exp_config_decode)
  then have "bridge_free al_exp_env ''b'' (sp\<lparr>es_UseGREMesh := es_UseGREMesh sp \<or> xe_gre al_exp_env\<rparr>)
      (one_exp ''a'' ''t0'' (bare_spec ''br-a'')) = (one_exp ''a'' ''t0'' (bare_spec ''br-a''), Inr ())"
    by (simp add: bridge_free_def bridge_user_def br exp_of_def bare_spec_def)
  then show ?thesis using sp set
    by (simp add: hookCreate_def bindE_def exp_of_def VerifyScenario_def empty_metadata_def)
qed




end
