(* ===== verification/Workflow.thy ===== *)
theory Workflow
  imports Workflow_Topology Experiment_Api
begin

section \<open>Workflows\<close>

text \<open>
  \<^verbatim>\<open>api/workflow\<close>: a workflow config says what applying it to a branch does: create an experiment,
  update the one mapped to the branch, restart it, or nothing. \<^verbatim>\<open>spec.go\<close> and \<^verbatim>\<open>plan.go\<close> decide that;
  \<^verbatim>\<open>prepare.go\<close> resolves and checks what carrying it out needs, before anything changes; and
  \<^verbatim>\<open>updateFromWorkflow\<close> of \<^verbatim>\<open>web/workflow.go\<close> changes the spec of the experiment. Errors keep what
  \<^verbatim>\<open>errors.Is\<close> can see and the values they name.

  What is read from the store is in \<open>wf_env\<close>: the topologies, decoded without their includes, by the
  name they are stored under; the topologies that can be included; the annotations of the scenarios,
  the scenarios decoded, and \<open>we_merge\<close>, the merging of settings from other scenarios, which is not
  modelled. Refs of pending configs are parsed (\<^verbatim>\<open>net/url\<close>).
\<close>

subsection \<open>The spec\<close>

record Auto =
  au_Create :: string
  au_Update :: "bool option"
  au_Restart :: "bool option"

record WfSpec =
  wf_Auto :: "Auto option"
  wf_Topology :: string
  wf_Scenario :: string
  wf_VLANs :: "(string, int) gomap"
  wf_Schedules :: "(string, string) gomap"
  wf_DeployMode :: string
  wf_UseGREMesh :: bool
  wf_VLANRange :: "(int \<times> int) option"
  wf_DefaultBridge :: string

datatype Action = ActionNone | ActionCreate | ActionCreateAndStart | ActionUpdate | ActionUpdateAndStart | ActionRestart

datatype wf_err =
  ConflictMapped "string list"
| ConflictExists string
| PlanChanged Action Action
| UnknownAction string
| InvalidName string
| InvalidSpec string
| BridgeLong string
| BridgeUsed string string
| Unresolved string
| IncludeError string include_err
| Unusable string unusable

definition alnum_char :: "char \<Rightarrow> bool" where
  "alnum_char c \<longleftrightarrow> (CHR ''A'' \<le> c \<and> c \<le> CHR ''Z'') \<or> (CHR ''a'' \<le> c \<and> c \<le> CHR ''z'') \<or> is_digit c"

definition wf_ValidateName :: "string \<Rightarrow> wf_err option" where
  "wf_ValidateName name =
     (if name \<noteq> [] \<and> alnum_char (hd name) \<and> list_all (\<lambda>c. alnum_char c \<or> c \<in> set ''._-'') (tl name) then None
      else Some (InvalidName name))"

definition DefaultBridgeName :: "WfSpec \<Rightarrow> string" where
  "DefaultBridgeName w = (if wf_DefaultBridge w = [] then defaultBridgeName else wf_DefaultBridge w)"

definition wf_Validate :: "WfSpec \<Rightarrow> wf_err option" where
  "wf_Validate w =
     (if length (DefaultBridgeName w) > MaxBridgeNameLength then Some (BridgeLong (DefaultBridgeName w)) else None)"

definition AutoUpdate :: "WfSpec \<Rightarrow> bool" where
  "AutoUpdate w = (case wf_Auto w of None \<Rightarrow> True | Some a \<Rightarrow> (case au_Update a of None \<Rightarrow> True | Some b \<Rightarrow> b))"

definition AutoRestart :: "WfSpec \<Rightarrow> bool" where
  "AutoRestart w = (case wf_Auto w of None \<Rightarrow> True | Some a \<Rightarrow> (case au_Restart a of None \<Rightarrow> True | Some b \<Rightarrow> b))"

definition wf_ExperimentName :: "WfSpec \<Rightarrow> string" where
  "wf_ExperimentName w = (case wf_Auto w of None \<Rightarrow> [] | Some a \<Rightarrow> au_Create a)"

definition VLANMappings :: "WfSpec \<Rightarrow> (string, int) gomap" where
  "VLANMappings w = map_made (wf_VLANs w)"

definition ScheduleMappings :: "WfSpec \<Rightarrow> (string, string) gomap" where
  "ScheduleMappings w = map_made (wf_Schedules w)"

definition VLANMin :: "WfSpec \<Rightarrow> int" where
  "VLANMin w = (case wf_VLANRange w of None \<Rightarrow> 0 | Some (mn, mx) \<Rightarrow> mn)"

definition VLANMax :: "WfSpec \<Rightarrow> int" where
  "VLANMax w = (case wf_VLANRange w of None \<Rightarrow> 0 | Some (mn, mx) \<Rightarrow> mx)"

text \<open>\<^verbatim>\<open>common.ParseDeployMode\<close>; \<open>current\<close> is the setting \<^verbatim>\<open>common.DeployMode\<close>.\<close>

definition ParseDeployMode :: "unicase \<Rightarrow> string \<Rightarrow> string \<Rightarrow> string option" where
  "ParseDeployMode u current mode =
     (let m = to_lower u mode
      in if m \<in> {''no-headnode'', ''only-headnode'', ''all''} then Some m else if m = [] then Some current else None)"

definition ExperimentDeployMode :: "unicase \<Rightarrow> string \<Rightarrow> WfSpec \<Rightarrow> string" where
  "ExperimentDeployMode u current w =
     (case ParseDeployMode u current (wf_DeployMode w) of None \<Rightarrow> current | Some m \<Rightarrow> m)"

subsection \<open>The plan\<close>

definition action_text :: "Action \<Rightarrow> string" where
  "action_text a =
     (case a of ActionNone \<Rightarrow> ''none'' | ActionCreate \<Rightarrow> ''create'' | ActionCreateAndStart \<Rightarrow> ''createAndStart''
      | ActionUpdate \<Rightarrow> ''update'' | ActionUpdateAndStart \<Rightarrow> ''updateAndStart'' | ActionRestart \<Rightarrow> ''restart'')"

definition ParseAction :: "string \<Rightarrow> wf_err + Action" where
  "ParseAction s =
     (case find (\<lambda>a. action_text a = s)
        [ActionNone, ActionCreate, ActionCreateAndStart, ActionUpdate, ActionUpdateAndStart, ActionRestart] of
        Some a \<Rightarrow> Inr a | None \<Rightarrow> Inl (UnknownAction s))"

record Plan =
  pn_Action :: Action
  pn_Experiment :: string
  pn_Reason :: string

definition BranchAnnotation :: string where
  "BranchAnnotation = ''phenix.workflow/branch''"

definition Mapped :: "Experiment list \<Rightarrow> string \<Rightarrow> Experiment list" where
  "Mapped exps branch = filter (\<lambda>e. map_get (cm_Annotations (ex_Metadata e)) BranchAnnotation = Some branch) exps"

definition config_name :: "string \<Rightarrow> bool" where
  "config_name s \<longleftrightarrow> list_all (\<lambda>c. alnum_char c \<or> c \<in> set ''_@.-'') s"

definition planCreate :: "unicase \<Rightarrow> WfSpec \<Rightarrow> string list \<Rightarrow> wf_err + Plan" where
  "planCreate u w existing =
     (let name = wf_ExperimentName w
      in if name = [] then Inr \<lparr>pn_Action = ActionNone, pn_Experiment = [], pn_Reason = ''no experiment mapped and auto.create not set''\<rparr>
         else if \<not> config_name name \<or> equal_fold u name ''all'' then Inl (InvalidSpec name)
         else if name \<in> set existing then Inl (ConflictExists name)
         else if AutoRestart w then Inr \<lparr>pn_Action = ActionCreateAndStart, pn_Experiment = name, pn_Reason = []\<rparr>
         else Inr \<lparr>pn_Action = ActionCreate, pn_Experiment = name, pn_Reason = []\<rparr>)"

definition planUpdate :: "WfSpec \<Rightarrow> Experiment \<Rightarrow> Plan" where
  "planUpdate w e =
     (if \<not> AutoUpdate w then \<lparr>pn_Action = ActionNone, pn_Experiment = ex_Name e, pn_Reason = ''auto.update is false''\<rparr>
      else if Running e \<and> \<not> AutoRestart w
      then \<lparr>pn_Action = ActionNone, pn_Experiment = ex_Name e, pn_Reason = ''running and auto.restart is false''\<rparr>
      else if Running e then \<lparr>pn_Action = ActionRestart, pn_Experiment = ex_Name e, pn_Reason = []\<rparr>
      else if AutoRestart w then \<lparr>pn_Action = ActionUpdateAndStart, pn_Experiment = ex_Name e, pn_Reason = []\<rparr>
      else \<lparr>pn_Action = ActionUpdate, pn_Experiment = ex_Name e, pn_Reason = []\<rparr>)"

definition NewPlan :: "unicase \<Rightarrow> WfSpec \<Rightarrow> Experiment list \<Rightarrow> string list \<Rightarrow> wf_err + Plan" where
  "NewPlan u w mapped existing =
     (case mapped of
        [] \<Rightarrow> planCreate u w existing
      | [e] \<Rightarrow> Inr (planUpdate w e)
      | _ \<Rightarrow> Inl (ConflictMapped (sort (map ex_Name mapped))))"

definition CheckExpected :: "Plan \<Rightarrow> string \<Rightarrow> wf_err option" where
  "CheckExpected p expect =
     (if expect = [] then None
      else (case ParseAction expect of
              Inl e \<Rightarrow> Some e
            | Inr want \<Rightarrow> if pn_Action p \<noteq> want then Some (PlanChanged want (pn_Action p)) else None))"

text \<open>\<open>auto\<close> is the bridge mode \<^verbatim>\<open>BridgeModeAuto\<close>.\<close>

definition CheckBridge :: "WfSpec \<Rightarrow> Plan \<Rightarrow> Experiment list \<Rightarrow> bool \<Rightarrow> wf_err option" where
  "CheckBridge w p exps auto =
     (if pn_Action p = ActionNone then None
      else if auto \<and> length (pn_Experiment p) > MaxBridgeNameLength then Some (BridgeLong (pn_Experiment p))
      else
        let bridge = (if auto then pn_Experiment p else DefaultBridgeName w)
        in if bridge = defaultBridgeName then None
           else (case find (\<lambda>e. ex_Name e \<noteq> pn_Experiment p \<and> es_DefaultBridge (ex_Spec e) = bridge) exps of
                   None \<Rightarrow> None
                 | Some e \<Rightarrow> Some (BridgeUsed (ex_Name e) bridge)))"

subsection \<open>Preparing\<close>

record wf_env =
  we_case :: unicase
  we_kinds :: "string list"
  we_topology :: "string \<Rightarrow> string + string \<times> TopologySpec"
  we_loadable :: loadable
  we_scenario :: "string \<Rightarrow> string + (string, string) gomap \<times> (string + ScenarioSpec)"
  we_merge :: "ScenarioSpec \<Rightarrow> string \<Rightarrow> string + ScenarioSpec"

record Prepared =
  pr_TopologyName :: string
  pr_Topology :: "TopologySpec option"
  pr_ScenarioName :: string
  pr_Scenario :: "ScenarioSpec option"
  pr_Aliases :: "(string, int) gomap"
  pr_Schedules :: "(string, string) gomap"

record pendingConfig =
  pc_described :: bool
  pc_topology :: "string option"
  pc_from :: "string list"
  pc_includes :: "string list"

text \<open>A step that may panic or fail.\<close>

definition stepG :: "('e + 'a) go \<Rightarrow> ('a \<Rightarrow> ('e + 'b) go) \<Rightarrow> ('e + 'b) go" where
  "stepG m f = bindR m (\<lambda>r. case r of Inl e \<Rightarrow> Inr (Inl e) | Inr x \<Rightarrow> f x)"

definition checkG :: "'e option \<Rightarrow> ('e + unit) go" where
  "checkG c = Inr (case c of None \<Rightarrow> Inr () | Some e \<Rightarrow> Inl e)"

definition decodeTopology :: "wf_env \<Rightarrow> string \<Rightarrow> string \<Rightarrow> TopologySpec \<Rightarrow> (wf_err + TopologySpec) go" where
  "decodeTopology W name cname t = bindR (DecodeTopology (we_loadable W) cname t) (\<lambda>r. Inr (map_sum (IncludeError name) id r))"

definition resolveTopology :: "wf_env \<Rightarrow> string \<Rightarrow> (wf_err + TopologySpec) go" where
  "resolveTopology W name =
     (case we_topology W name of
        Inl m \<Rightarrow> Inr (Inl (Unresolved m))
      | Inr (cname, t) \<Rightarrow>
          stepG (decodeTopology W name cname t) (\<lambda>checked.
          stepG (bindR (checkTopology (we_case W) checked) (\<lambda>r. checkG (map_option (Unusable name) r))) (\<lambda>_.
            decodeTopology W name cname t)))"

definition scenarioMatchesTopology :: "string \<Rightarrow> (string, string) gomap \<Rightarrow> string \<Rightarrow> wf_err option" where
  "scenarioMatchesTopology name annotations topoName =
     (case map_get annotations ''topology'' of
        None \<Rightarrow> Some (Unresolved name)
      | Some annotated \<Rightarrow> if sublist topoName annotated then None else Some (Unresolved name))"

definition resolveScenario :: "wf_env \<Rightarrow> string \<Rightarrow> string \<Rightarrow> bool \<Rightarrow> (wf_err + ScenarioSpec) go" where
  "resolveScenario W name topoName check =
     (case we_scenario W name of
        Inl m \<Rightarrow> Inr (Inl (Unresolved m))
      | Inr (annotations, spec) \<Rightarrow>
          stepG (checkG (if check then scenarioMatchesTopology name annotations topoName else None)) (\<lambda>_.
            case spec of
              Inl m \<Rightarrow> Inr (Inl (Unresolved m))
            | Inr sc \<Rightarrow>
                (case we_merge W sc topoName of Inl m \<Rightarrow> Inr (Inl (Unresolved m)) | Inr sc' \<Rightarrow> Inr (Inr sc'))))"

definition full_name :: "wf_env \<Rightarrow> string \<Rightarrow> string \<Rightarrow> string" where
  "full_name W kind name = ConfigFullName (we_case W) (we_kinds W) [kind, name]"

definition checkPendingIncludes :: "wf_env \<Rightarrow> string list \<Rightarrow> (string \<rightharpoonup> pendingConfig) \<Rightarrow> wf_err option" where
  "checkPendingIncludes W includes pending =
     (case find (\<lambda>i. pending (full_name W ''topology'' i) = None \<and> map_of (we_loadable W) i = None) includes of
        None \<Rightarrow> None | Some i \<Rightarrow> Some (Unresolved i))"

definition checkFromScenario :: "wf_env \<Rightarrow> string \<Rightarrow> string \<Rightarrow> string \<Rightarrow> (string \<rightharpoonup> pendingConfig) \<Rightarrow> wf_err option" where
  "checkFromScenario W name from_name topoName pending =
     (case pending (full_name W ''scenario'' from_name) of
        Some scn \<Rightarrow>
          if \<not> pc_described scn then None
          else (case pc_topology scn of
                  None \<Rightarrow> Some (Unresolved name)
                | Some t \<Rightarrow> if sublist topoName t then None else Some (Unresolved name))
      | None \<Rightarrow>
          (case we_scenario W from_name of
             Inl _ \<Rightarrow> Some (Unresolved name)
           | Inr (annotations, _) \<Rightarrow> scenarioMatchesTopology name annotations topoName))"

definition checkPendingScenario ::
  "wf_env \<Rightarrow> string \<Rightarrow> string \<Rightarrow> pendingConfig \<Rightarrow> bool \<Rightarrow> (string \<rightharpoonup> pendingConfig) \<Rightarrow> wf_err option" where
  "checkPendingScenario W name topoName scn check pending =
     (if \<not> pc_described scn then None
      else
        (case (if check then scenarioMatchesTopology name (Some (\<lambda>k. if k = ''topology'' then pc_topology scn else None)) topoName else None) of
           Some e \<Rightarrow> Some e
         | None \<Rightarrow>
             (case List.find (\<lambda>f. checkFromScenario W name f topoName pending \<noteq> None) (pc_from scn) of
                None \<Rightarrow> None
              | Some f \<Rightarrow> checkFromScenario W name f topoName pending)))"

definition resolveConfigs ::
  "wf_env \<Rightarrow> string \<Rightarrow> string \<Rightarrow> bool \<Rightarrow> (string \<rightharpoonup> pendingConfig) \<Rightarrow> (wf_err + Prepared) go" where
  "resolveConfigs W topoName scenarioName check pending =
     (let prep = \<lparr>pr_TopologyName = topoName, pr_Topology = None, pr_ScenarioName = scenarioName, pr_Scenario = None,
                  pr_Aliases = None, pr_Schedules = None\<rparr>
      in stepG
           (case pending (full_name W ''topology'' topoName) of
              Some topo \<Rightarrow> stepG (checkG (checkPendingIncludes W (pc_includes topo) pending)) (\<lambda>_. Inr (Inr prep))
            | None \<Rightarrow> stepG (resolveTopology W topoName) (\<lambda>t. Inr (Inr (prep\<lparr>pr_Topology := Some t\<rparr>)))) (\<lambda>prep.
           if scenarioName = [] then Inr (Inr prep)
           else
             (case pending (full_name W ''scenario'' scenarioName) of
                Some scn \<Rightarrow> stepG (checkG (checkPendingScenario W scenarioName topoName scn check pending)) (\<lambda>_. Inr (Inr prep))
              | None \<Rightarrow>
                  stepG (resolveScenario W scenarioName topoName check) (\<lambda>sc. Inr (Inr (prep\<lparr>pr_Scenario := Some sc\<rparr>))))))"

definition prepareCreate :: "wf_env \<Rightarrow> WfSpec \<Rightarrow> (string \<rightharpoonup> pendingConfig) \<Rightarrow> (wf_err + Prepared) go" where
  "prepareCreate W w pending =
     (if wf_Topology w = [] then Inr (Inl (InvalidSpec ''topology''))
      else resolveConfigs W (wf_Topology w) (wf_Scenario w) True pending)"

definition experimentAnnotation :: "Experiment option \<Rightarrow> string \<Rightarrow> string" where
  "experimentAnnotation e key =
     (case e of None \<Rightarrow> [] | Some e \<Rightarrow> (case map_get (cm_Annotations (ex_Metadata e)) key of None \<Rightarrow> [] | Some v \<Rightarrow> v))"

definition prepareUpdate ::
  "wf_env \<Rightarrow> WfSpec \<Rightarrow> Experiment option \<Rightarrow> (string \<rightharpoonup> pendingConfig) \<Rightarrow> (wf_err + Prepared) go" where
  "prepareUpdate W w e pending =
     (let topoName = (if wf_Topology w \<noteq> [] then wf_Topology w else experimentAnnotation e ''topology'');
          scenarioName = (if wf_Scenario w \<noteq> [] then wf_Scenario w else experimentAnnotation e ''scenario'')
      in if topoName = [] then Inr (Inl (Unresolved ''topology''))
         else
           stepG (resolveConfigs W topoName scenarioName False pending) (\<lambda>prep.
             case pr_Topology prep of
               None \<Rightarrow> Inr (Inr prep)
             | Some t \<Rightarrow>
                 bindR (vlanAliases t (VLANMappings w)) (\<lambda>aliases.
                 bindR (nodeSchedules t (ScheduleMappings w)) (\<lambda>schedules.
                   Inr (Inr (prep\<lparr>pr_Aliases := aliases, pr_Schedules := schedules\<rparr>))))))"

definition empty_prepared :: Prepared where
  "empty_prepared =
     \<lparr>pr_TopologyName = [], pr_Topology = None, pr_ScenarioName = [], pr_Scenario = None, pr_Aliases = None, pr_Schedules = None\<rparr>"

definition Prepare ::
  "wf_env \<Rightarrow> WfSpec \<Rightarrow> Plan \<Rightarrow> Experiment option \<Rightarrow> (string \<rightharpoonup> pendingConfig) \<Rightarrow> (wf_err + Prepared) go" where
  "Prepare W w p e pending =
     (case pn_Action p of
        ActionNone \<Rightarrow> Inr (Inr empty_prepared)
      | ActionCreate \<Rightarrow> prepareCreate W w pending
      | ActionCreateAndStart \<Rightarrow> prepareCreate W w pending
      | ActionUpdate \<Rightarrow> prepareUpdate W w e pending
      | ActionUpdateAndStart \<Rightarrow> prepareUpdate W w e pending
      | ActionRestart \<Rightarrow> prepareUpdate W w e pending)"

text \<open>
  \<^verbatim>\<open>CheckConfig\<close>, made before a config is stored: of a topology, the nodes it defines itself. \<open>decode\<close>
  stands for \<^verbatim>\<open>mapstructure\<close>.
\<close>

definition CheckConfig :: "unicase \<Rightarrow> ('v Config \<Rightarrow> string + TopologySpec) \<Rightarrow> 'v Config \<Rightarrow> (string + unusable) option go" where
  "CheckConfig u decode c =
     (if c_Kind c \<noteq> ''Topology'' then Inr None
      else
        (case decode c of
           Inl m \<Rightarrow> Inr (Some (Inl m))
         | Inr t \<Rightarrow> bindR (checkTopology u t) (\<lambda>r. Inr (map_option Inr r))))"

subsection \<open>Updating the experiment\<close>

text \<open>
  What \<^verbatim>\<open>updateFromWorkflow\<close> does to the experiment before it is written; \<open>ks\<close> are the aliases in the
  order the loop of \<^verbatim>\<open>SetVLANRange\<close> takes, whose error is dropped. A spec without VLANs has no place
  to set the aliases in. Stopping and starting the experiment are not modelled.
\<close>

definition updated_spec :: "unicase \<Rightarrow> string \<Rightarrow> string list \<Rightarrow> WfSpec \<Rightarrow> Prepared \<Rightarrow> ExperimentSpec \<Rightarrow> ExperimentSpec" where
  "updated_spec u current ks w prep e =
     (let e1 = e\<lparr>es_Topology := pr_Topology prep\<rparr>;
          e2 = (if pr_ScenarioName prep \<noteq> [] then e1\<lparr>es_Scenario := pr_Scenario prep\<rparr> else e1);
          e3 = e2\<lparr>es_VLANs := map_option (\<lambda>v. v\<lparr>vl_Aliases := pr_Aliases prep\<rparr>) (es_VLANs e2)\<rparr>;
          e4 = e3\<lparr>es_DefaultBridge := DefaultBridgeName w, es_Schedules := pr_Schedules prep,
                  es_DeployMode := ExperimentDeployMode u current w\<rparr>;
          e5 = fst (SetVLANRange ks (VLANMin w) (VLANMax w) True e4)
      in e5\<lparr>es_UseGREMesh := wf_UseGREMesh w\<rparr>)"

definition TagsAnnotation :: string where
  "TagsAnnotation = ''phenix.workflow/tags''"

definition put_unless_empty :: "(string, string) gomap \<Rightarrow> string \<Rightarrow> string \<Rightarrow> (string, string) gomap go" where
  "put_unless_empty m k v = (if v = [] then Inr m else map_put m k v)"

definition updated_experiment ::
  "unicase \<Rightarrow> string \<Rightarrow> string list \<Rightarrow> WfSpec \<Rightarrow> string \<Rightarrow> Prepared \<Rightarrow> Experiment \<Rightarrow> Experiment go" where
  "updated_experiment u current ks w tags prep e =
     bindR (map_put (cm_Annotations (ex_Metadata e)) ''topology'' (pr_TopologyName prep)) (\<lambda>a1.
     bindR (put_unless_empty a1 ''scenario'' (pr_ScenarioName prep)) (\<lambda>a2.
     bindR (put_unless_empty a2 TagsAnnotation tags) (\<lambda>a3.
       Inr (e\<lparr>ex_Metadata := (ex_Metadata e)\<lparr>cm_Annotations := a3\<rparr>, ex_Spec := updated_spec u current ks w prep (ex_Spec e)\<rparr>))))"

subsection \<open>Planning from the store\<close>

datatype apply_err = ListErrors "exp_err list" | NotPlanned wf_err

definition planWorkflow ::
  "('s, 'v) exp_env \<Rightarrow> WfSpec \<Rightarrow> string \<Rightarrow> 's \<Rightarrow> 's \<times> (apply_err + Plan \<times> Experiment option)" where
  "planWorkflow X w branch s =
     (case Experiment_List X s of
        (s', Inl e) \<Rightarrow> (s', Inl (ListErrors [e]))
      | (s', Inr (exps, errs)) \<Rightarrow>
          (s',
            if errs \<noteq> [] then Inl (ListErrors errs)
            else
              let mapped = Mapped exps branch
              in (case NewPlan (xe_case X) w mapped (map ex_Name exps) of
                    Inl e \<Rightarrow> Inl (NotPlanned e)
                  | Inr p \<Rightarrow>
                      (case CheckBridge w p exps (xe_auto X) of
                         Some e \<Rightarrow> Inl (NotPlanned e)
                       | None \<Rightarrow> Inr (p, if length mapped = 1 then Some (mapped ! 0) else None)))))"

text \<open>The HTTP status of an error of planning or preparing.\<close>

definition workflowWebError :: "wf_err \<Rightarrow> nat" where
  "workflowWebError e =
     (case e of
        ConflictMapped _ \<Rightarrow> 409 | ConflictExists _ \<Rightarrow> 409 | PlanChanged _ _ \<Rightarrow> 409
      | InvalidSpec _ \<Rightarrow> 400 | BridgeLong _ \<Rightarrow> 400 | BridgeUsed _ _ \<Rightarrow> 400
      | Unresolved _ \<Rightarrow> 400 | IncludeError _ _ \<Rightarrow> 400 | Unusable _ _ \<Rightarrow> 400
      | UnknownAction _ \<Rightarrow> 500 | InvalidName _ \<Rightarrow> 500)"

subsection \<open>What a plan says\<close>

lemma stepG_Inr: "stepG m f = Inr (Inr y) \<longleftrightarrow> (\<exists>x. m = Inr (Inr x) \<and> f x = Inr (Inr y))"
  by (cases m) (auto simp: stepG_def split: sum.split)

lemma checkG_Inr: "checkG c = Inr (Inr x) \<longleftrightarrow> c = None"
  by (auto simp: checkG_def split: option.split)

definition updates :: "Action \<Rightarrow> bool" where
  "updates a \<longleftrightarrow> a = ActionUpdate \<or> a = ActionUpdateAndStart \<or> a = ActionRestart"

lemma NewPlan_update:
  assumes "NewPlan u w (Mapped exps branch) existing = Inr p" and "updates (pn_Action p)"
  shows "\<exists>e. Mapped exps branch = [e] \<and> pn_Experiment p = ex_Name e \<and> AutoUpdate w
    \<and> (Running e \<longrightarrow> AutoRestart w \<and> pn_Action p = ActionRestart)"
proof -
  have "\<exists>e. Mapped exps branch = [e] \<and> p = planUpdate w e"
    using assms by (auto simp: NewPlan_def planCreate_def Let_def updates_def split: list.splits if_splits)
  then show ?thesis using assms(2) by (auto simp: planUpdate_def updates_def split: if_splits)
qed

text \<open>The check of the bridge agrees with the checks that the config hooks of experiments make.\<close>

lemma bridge_user_None:
  "bridge_user name b exps = None \<longleftrightarrow> b = defaultBridgeName \<or> find (\<lambda>e. ex_Name e \<noteq> name \<and> es_DefaultBridge (ex_Spec e) = b) exps = None"
  by (cases "b = defaultBridgeName") (simp_all add: bridge_user_def find_None_iff)

lemma bridge_agrees:
  assumes "pn_Action p \<noteq> ActionNone" and "wf_Validate w = None" and "es_DefaultBridge e = DefaultBridgeName w"
  shows "CheckBridge w p exps (xe_auto X) = None \<longleftrightarrow>
    (\<exists>e'. bridge_settings X (pn_Experiment p) e = Inr e' \<and> bridge_user (pn_Experiment p) (es_DefaultBridge e') exps = None)"
proof -
  have "length (DefaultBridgeName w) \<le> MaxBridgeNameLength" using assms(2) by (simp add: wf_Validate_def split: if_splits)
  then show ?thesis using assms(1,3)
    by (auto simp: CheckBridge_def bridge_settings_def Let_def bridge_user_None split: option.splits)
qed

subsection \<open>What a prepared update has\<close>

lemma resolveTopology_Inr:
  assumes "resolveTopology W name = Inr (Inr t)"
  shows "checkTopology (we_case W) t = Inr None"
proof -
  obtain cname t0 checked where t0: "we_topology W name = Inr (cname, t0)" "decodeTopology W name cname t0 = Inr (Inr checked)"
      "bindR (checkTopology (we_case W) checked) (\<lambda>r. checkG (map_option (Unusable name) r)) = Inr (Inr ())"
      "decodeTopology W name cname t0 = Inr (Inr t)"
    using assms by (auto simp: resolveTopology_def stepG_Inr split: sum.splits)
  then show ?thesis by (auto simp: bindR_Inr_iff checkG_Inr)
qed

lemma resolveConfigs_Inr:
  assumes "resolveConfigs W topoName scenarioName check pending = Inr (Inr prep)"
  shows "(\<forall>t. pr_Topology prep = Some t \<longrightarrow> checkTopology (we_case W) t = Inr None)
    \<and> pr_TopologyName prep = topoName \<and> pr_ScenarioName prep = scenarioName"
  using assms resolveTopology_Inr[of W topoName]
  by (auto simp: resolveConfigs_def stepG_Inr Let_def split: option.splits if_splits)

lemma resolveConfigs_none_pending:
  "resolveConfigs W topoName scenarioName check Map.empty = Inr (Inr prep) \<Longrightarrow> pr_Topology prep \<noteq> None"
  by (auto simp: resolveConfigs_def stepG_Inr Let_def split: if_splits)

lemma Prepare_update:
  assumes "Prepare W w p e pending = Inr (Inr prep)" and "updates (pn_Action p)"
  shows "(\<forall>t. pr_Topology prep = Some t \<longrightarrow> checkTopology (we_case W) t = Inr None
      \<and> vlanAliases t (VLANMappings w) = Inr (pr_Aliases prep) \<and> nodeSchedules t (ScheduleMappings w) = Inr (pr_Schedules prep))
    \<and> (pending = Map.empty \<longrightarrow> pr_Topology prep \<noteq> None)"
proof -
  have up: "prepareUpdate W w e pending = Inr (Inr prep)"
    using assms(1,2) by (auto simp: Prepare_def updates_def)
  let ?topo = "if wf_Topology w \<noteq> [] then wf_Topology w else experimentAnnotation e ''topology''"
  let ?scen = "if wf_Scenario w \<noteq> [] then wf_Scenario w else experimentAnnotation e ''scenario''"
  have "?topo \<noteq> []"
  proof
    assume "?topo = []"
    from up show False unfolding prepareUpdate_def Let_def \<open>?topo = []\<close> by simp
  qed
  let ?rest = "\<lambda>prep. case pr_Topology prep of None \<Rightarrow> (Inr (Inr prep) :: (wf_err + Prepared) go)
        | Some t \<Rightarrow> bindR (vlanAliases t (VLANMappings w)) (\<lambda>aliases. bindR (nodeSchedules t (ScheduleMappings w)) (\<lambda>schedules.
            Inr (Inr (prep\<lparr>pr_Aliases := aliases, pr_Schedules := schedules\<rparr>))))"
  have "stepG (resolveConfigs W ?topo ?scen False pending) ?rest = Inr (Inr prep)"
    using up unfolding prepareUpdate_def Let_def if_not_P[OF \<open>?topo \<noteq> []\<close>] .
  then obtain prep0 where p0: "resolveConfigs W ?topo ?scen False pending = Inr (Inr prep0)" "?rest prep0 = Inr (Inr prep)"
    unfolding stepG_Inr by - (elim exE conjE, rule that, assumption+)
  show ?thesis
  proof (cases "pr_Topology prep0")
    case None
    then have "prep = prep0" using p0(2) by simp
    then show ?thesis using None p0(1) resolveConfigs_none_pending[of W ?topo ?scen False prep0] by auto
  next
    case (Some t0)
    then have "prep = prep0\<lparr>pr_Aliases := pr_Aliases prep, pr_Schedules := pr_Schedules prep\<rparr>"
        "vlanAliases t0 (VLANMappings w) = Inr (pr_Aliases prep)" "nodeSchedules t0 (ScheduleMappings w) = Inr (pr_Schedules prep)"
      using p0(2) by (auto simp: bindR_Inr_iff)
    moreover from this(1) have "pr_Topology prep = pr_Topology prep0" by (metis Prepared.select_convs(2) Prepared.surjective Prepared.update_convs(5,6))
    ultimately show ?thesis using Some resolveConfigs_Inr[OF p0(1)] by simp
  qed
qed

lemma SetVLANRange_sel:
  "es_Topology (fst (SetVLANRange ks mn mx f e)) = es_Topology e" "es_DefaultBridge (fst (SetVLANRange ks mn mx f e)) = es_DefaultBridge e"
  "es_Schedules (fst (SetVLANRange ks mn mx f e)) = es_Schedules e"
  "es_VLANs e = Some v \<Longrightarrow> map_option vl_Aliases (es_VLANs (fst (SetVLANRange ks mn mx f e))) = Some (vl_Aliases v)"
  by (auto simp: SetVLANRange_def Let_def vlans_made_def split: option.splits)

lemma updated_spec_sel:
  "es_Topology (updated_spec u cur ks w prep e) = pr_Topology prep" "es_DefaultBridge (updated_spec u cur ks w prep e) = DefaultBridgeName w"
  "es_Schedules (updated_spec u cur ks w prep e) = pr_Schedules prep"
  by (simp_all add: updated_spec_def Let_def SetVLANRange_sel)

lemma updated_spec_aliases:
  assumes "es_VLANs e \<noteq> None"
  shows "\<exists>v. es_VLANs (updated_spec u cur ks w prep e) = Some v \<and> vl_Aliases v = pr_Aliases prep"
proof -
  obtain v where "es_VLANs e = Some v" using assms by blast
  then show ?thesis by (auto simp: updated_spec_def SetVLANRange_def Let_def vlans_made_def split: option.splits)
qed

lemma updated_experiment_Inr:
  assumes "cm_Annotations (ex_Metadata e) = Some m"
  shows "\<exists>a. updated_experiment u cur ks w tags prep e =
      Inr (e\<lparr>ex_Metadata := (ex_Metadata e)\<lparr>cm_Annotations := Some a\<rparr>, ex_Spec := updated_spec u cur ks w prep (ex_Spec e)\<rparr>)
    \<and> a ''topology'' = Some (pr_TopologyName prep) \<and> a BranchAnnotation = m BranchAnnotation"
proof -
  have p: "put_unless_empty (Some m) k v = Inr (Some (if v = [] then m else m(k \<mapsto> v)))" for m k v
    by (simp add: put_unless_empty_def map_put_def)
  have k: "BranchAnnotation \<noteq> ''topology''" "BranchAnnotation \<noteq> ''scenario''" "TagsAnnotation \<noteq> ''topology''" "BranchAnnotation \<noteq> TagsAnnotation"
    by (simp_all add: BranchAnnotation_def TagsAnnotation_def)
  let ?m1 = "m(''topology'' \<mapsto> pr_TopologyName prep)"
  let ?m2 = "if pr_ScenarioName prep = [] then ?m1 else ?m1(''scenario'' \<mapsto> pr_ScenarioName prep)"
  let ?m3 = "if tags = [] then ?m2 else ?m2(TagsAnnotation \<mapsto> tags)"
  have "updated_experiment u cur ks w tags prep e =
      Inr (e\<lparr>ex_Metadata := (ex_Metadata e)\<lparr>cm_Annotations := Some ?m3\<rparr>, ex_Spec := updated_spec u cur ks w prep (ex_Spec e)\<rparr>)"
    unfolding updated_experiment_def assms map_put_def option.case bindR.simps p ..
  moreover have "?m3 ''topology'' = Some (pr_TopologyName prep)" "?m3 BranchAnnotation = m BranchAnnotation" using k by auto
  ultimately show ?thesis by blast
qed

subsection \<open>Properties\<close>

lemma planWorkflow_Inr:
  assumes "planWorkflow X w branch s = (s', Inr (p, target))"
  shows "\<exists>exps. Experiment_List X s = (s', Inr (exps, [])) \<and> NewPlan (xe_case X) w (Mapped exps branch) (map ex_Name exps) = Inr p
    \<and> CheckBridge w p exps (xe_auto X) = None \<and> target = (if length (Mapped exps branch) = 1 then Some (Mapped exps branch ! 0) else None)"
  using assms by (auto simp: planWorkflow_def Let_def split: prod.splits sum.splits if_splits option.splits)

lemma Mapped_mem: "e \<in> set (Mapped exps branch) \<longleftrightarrow> e \<in> set exps \<and> map_get (cm_Annotations (ex_Metadata e)) BranchAnnotation = Some branch"
  by (auto simp: Mapped_def)

text \<open>What the config hook makes of an experiment that is updated, when the bridge is free.\<close>

lemma hookUpdate_passes:
  assumes "\<not> Running e" and t: "es_Topology (ex_Spec e) = Some t" and "checkTopology (xe_case X) t = Inr None"
    and exps: "Experiments X False s = (s', Inr exps)"
    and free: "\<And>sp. es_DefaultBridge sp = es_DefaultBridge (ex_Spec e) \<Longrightarrow>
      \<exists>sp'. bridge_settings X (ex_Name e) sp = Inr sp' \<and> bridge_user (ex_Name e) (es_DefaultBridge sp') exps = None"
    and "es_DefaultBridge (ex_Spec e) \<noteq> []" and "c_Name c = ex_Name e"
  shows "\<exists>sp. hookUpdate X e c s = (s', Inr (c\<lparr>c_Spec := sp_encode (xe_spec X) sp\<rparr>))
    \<and> es_DefaultBridge sp = (if xe_auto X then ex_Name e else es_DefaultBridge (ex_Spec e))
    \<and> es_Schedules sp = map_made (es_Schedules (ex_Spec e))
    \<and> map_get (VLANSpec_Aliases (ExperimentSpec_VLANs sp)) =
        with_zero (\<Union>p \<in> set (ts_Nodes t). node_vlans p) (map_get (VLANSpec_Aliases (ExperimentSpec_VLANs (ex_Spec e))))"
proof -
  obtain sp1 where init: "ExperimentSpec_Init (xe_case X) (xe_base X) (xe_abs X) (ex_Spec e) = Inr (sp1, [])"
      and d1: "es_DefaultBridge sp1 = es_DefaultBridge (ex_Spec e)" "es_Schedules sp1 = map_made (es_Schedules (ex_Spec e))"
    using experiment_init_passes[OF t assms(3)] assms(6) by auto
  have "topo_ok t" using checkTopology_total[of "xe_case X" t] assms(3) by auto
  then have al: "map_get (VLANSpec_Aliases (ExperimentSpec_VLANs sp1)) =
      with_zero (\<Union>p \<in> set (ts_Nodes t). node_vlans p) (map_get (VLANSpec_Aliases (ExperimentSpec_VLANs (ex_Spec e))))"
    using experiment_init_aliases[OF t, of "xe_case X" "xe_base X" "xe_abs X"] init by auto
  obtain sp2 where sp2: "bridge_settings X (ex_Name e) sp1 = Inr sp2" "bridge_user (ex_Name e) (es_DefaultBridge sp2) exps = None"
    using free[OF d1(1)] by blast
  then have d2: "es_DefaultBridge sp2 = (if xe_auto X then ex_Name e else es_DefaultBridge (ex_Spec e))"
      "es_Schedules sp2 = es_Schedules sp1" "es_VLANs sp2 = es_VLANs sp1"
    using d1 by (auto simp: bridge_settings_def Let_def split: if_splits)
  have "hookUpdate X e c s = (s', Inr (c\<lparr>c_Spec := sp_encode (xe_spec X) (rename_spec (ex_Name e) sp2)\<rparr>))"
    using assms(1,7) init sp2 exps by (simp add: hookUpdate_def spec_Init_def bindE_def bridge_free_def)
  moreover have "es_DefaultBridge (rename_spec (ex_Name e) sp2) = es_DefaultBridge sp2"
      "es_Schedules (rename_spec (ex_Name e) sp2) = es_Schedules sp2" "es_VLANs (rename_spec (ex_Name e) sp2) = es_VLANs sp2"
    by (simp_all add: rename_spec_def)
  ultimately show ?thesis using d1 d2 al by (intro exI[of _ "rename_spec (ex_Name e) sp2"]) (simp add: ExperimentSpec_VLANs_def)
qed

lemma bridge_user_mono:
  assumes "bridge_user name b exps = None"
    and "\<forall>x \<in> set exps'. ex_Name x = name \<or> (\<exists>y \<in> set exps. ex_Name y = ex_Name x \<and> es_DefaultBridge (ex_Spec y) = es_DefaultBridge (ex_Spec x))"
  shows "bridge_user name b exps' = None"
  using assms by (auto simp: bridge_user_def find_None_iff) metis


text \<open>A workflow for the branch \<^verbatim>\<open>main\<close>, the experiment mapped to it and the store they are in.\<close>

definition demo_workflow :: WfSpec where
  "demo_workflow = \<lparr>wf_Auto = None, wf_Topology = ''plant'', wf_Scenario = [], wf_VLANs = Some [''ops'' \<mapsto> 7],
     wf_Schedules = Some [''plc'' \<mapsto> ''node-1''], wf_DeployMode = [], wf_UseGREMesh = False, wf_VLANRange = None,
     wf_DefaultBridge = ''br-main''\<rparr>"

definition demo_target :: Experiment where
  "demo_target = (exp_of ''exp'' ''t0'' ((bare_spec ''br'')\<lparr>es_VLANs := Some empty_vlans\<rparr>))\<lparr>ex_Metadata :=
     empty_metadata\<lparr>cm_Name := ''exp'', cm_Created := ''t0'', cm_Updated := ''t0'', cm_Annotations := Some [BranchAnnotation \<mapsto> ''main'']\<rparr>\<rparr>"

definition demo_config :: "exp_value Config" where
  "demo_config = (exp_config ''exp'' ''t0'' (ex_Spec demo_target))\<lparr>c_Metadata := ex_Metadata demo_target\<rparr>"

definition demo_exps :: "exp_value al_store" where
  "demo_exps = [((''Experiment'', ''exp''), demo_config), ((''Experiment'', ''other''), exp_config ''other'' ''t0'' (bare_spec ''br-x''))]"

definition demo_topologies :: wf_env where
  "demo_topologies = \<lparr>we_case = \<lparr>u_lower = id, u_fold = id\<rparr>, we_kinds = config_kinds,
     we_topology = (\<lambda>n. Inr (n, example_topology)), we_loadable = [], we_scenario = (\<lambda>n. Inl n), we_merge = (\<lambda>sc t. Inr sc)\<rparr>"

lemma demo_decode: "DecodeExperimentFromConfig al_exp_env demo_config = Inr demo_target"
  by (simp add: DecodeExperimentFromConfig_def demo_config_def exp_config_def demo_target_def exp_of_def Config_APIVersion_def Let_def empty_config_def)

lemma demo_listed:
  "Experiment_List al_exp_env demo_exps = (demo_exps, Inr ([demo_target, exp_of ''other'' ''t0'' (bare_spec ''br-x'')], []))"
  "Experiments al_exp_env False demo_exps = (demo_exps, Inr [demo_target, exp_of ''other'' ''t0'' (bare_spec ''br-x'')])"
  by (simp_all add: Experiment_List_def Experiments_def exp_store_def bindE_def al_cstore_def demo_exps_def exp_config_decode demo_decode retE_def)

lemma example_topology_passes: "checkTopology \<lparr>u_lower = id, u_fold = id\<rparr> example_topology = Inr None"
proof -
  let ?u = "\<lparr>u_lower = id, u_fold = id\<rparr> :: unicase"
  have valid: "node_valid ?u (Some (example_node h v))" if "checkHostnameKeywords ?u h [] = Inr None" for h v
    using that by (simp add: node_valid_def validate_def example_node_def empty_node_def empty_general_def
        empty_hardware_def empty_network_def empty_interface_def)
  have "checkHostnameKeywords ?u ''plc'' [] = Inr None" "checkHostnameKeywords ?u ''hmi'' [] = Inr None"
    "distinct (map (to_lower ?u) (hosts example_topology))" unfolding example_topology_ok by code_simp+
  then have "\<forall>p \<in> set (ts_Nodes example_topology). node_valid ?u p" "distinct (map (to_lower ?u) (hosts example_topology))"
    using valid by (auto simp: example_topology_def)
  then show ?thesis using checkTopology_total[of ?u example_topology] example_topology_ok(1) by (metis (no_types, lifting))
qed

lemma demo_planned:
  "planWorkflow al_exp_env demo_workflow ''main'' demo_exps =
     (demo_exps, Inr (\<lparr>pn_Action = ActionUpdateAndStart, pn_Experiment = ''exp'', pn_Reason = []\<rparr>, Some demo_target))"
  by (simp add: planWorkflow_def demo_listed Mapped_def demo_target_def exp_of_def empty_metadata_def NewPlan_def planUpdate_def
      AutoUpdate_def AutoRestart_def demo_workflow_def Running_def empty_status_def CheckBridge_def Let_def
      DefaultBridgeName_def defaultBridgeName_def bare_spec_def)

lemma demo_prepared: "\<exists>prep. Prepare demo_topologies demo_workflow \<lparr>pn_Action = ActionUpdateAndStart, pn_Experiment = ''exp'', pn_Reason = []\<rparr>
    (Some demo_target) Map.empty = Inr (Inr prep)"
proof -
  have "decodeTopology demo_topologies n n example_topology = Inr (Inr example_topology)" for n
    by (simp add: decodeTopology_def DecodeTopology_def example_topology_def)
  then have "resolveTopology demo_topologies n = Inr (Inr example_topology)" for n
    using example_topology_passes by (simp add: resolveTopology_def stepG_def checkG_def demo_topologies_def)
  moreover have "experimentAnnotation (Some demo_target) ''scenario'' = []"
    by (simp add: experimentAnnotation_def demo_target_def BranchAnnotation_def)
  ultimately show ?thesis
    using vlanAliases_total[OF example_topology_ok(1)] nodeSchedules_total[OF example_topology_ok(1)]
    by (simp add: Prepare_def prepareUpdate_def resolveConfigs_def stepG_def demo_workflow_def Let_def)
qed


text \<open>
  C35: the check of the bridge that is made before an experiment is stopped agrees with the config
  hooks: for a valid workflow and a plan that acts, it passes exactly when the settings of the bridge
  that a hook makes for that experiment succeed and the bridge is free in the store; it reports a name
  that is too long exactly when the hook does; and when the bridge is taken both name the same
  experiment and bridge.
\<close>

theorem bridge_check_agrees:
  assumes "pn_Action p \<noteq> ActionNone" and "wf_Validate w = None" and "es_DefaultBridge e = DefaultBridgeName w"
    and "Experiments X False s = (s', Inr exps)"
  shows "case CheckBridge w p exps (xe_auto X) of
      None \<Rightarrow> \<exists>e'. bridge_settings X (pn_Experiment p) e = Inr e' \<and> bridge_free X (pn_Experiment p) e' s = (s', Inr ())
    | Some (BridgeUsed other b) \<Rightarrow> \<exists>e'. bridge_settings X (pn_Experiment p) e = Inr e'
        \<and> bridge_free X (pn_Experiment p) e' s = (s', Inl (BridgeTaken other b))
    | Some (BridgeLong n) \<Rightarrow> bridge_settings X (pn_Experiment p) e = Inl BridgeTooLong
    | Some _ \<Rightarrow> False"
proof -
  let ?name = "pn_Experiment p"
  let ?b = "if xe_auto X then ?name else DefaultBridgeName w"
  have len: "length (DefaultBridgeName w) \<le> MaxBridgeNameLength" using assms(2) by (simp add: wf_Validate_def split: if_splits)
  show ?thesis
  proof (cases "xe_auto X \<and> length ?name > MaxBridgeNameLength")
    case True
    then show ?thesis using assms(1) by (simp add: CheckBridge_def bridge_settings_def)
  next
    case False
    let ?e = "(if xe_auto X then e\<lparr>es_DefaultBridge := ?name\<rparr> else e)\<lparr>es_UseGREMesh := es_UseGREMesh e \<or> xe_gre X\<rparr>"
    have set: "bridge_settings X ?name e = Inr ?e" "es_DefaultBridge ?e = ?b"
      using False len assms(3) by (auto simp: bridge_settings_def Let_def)
    have user: "bridge_user ?name ?b exps = (if ?b = defaultBridgeName then None
        else find (\<lambda>x. ex_Name x \<noteq> ?name \<and> es_DefaultBridge (ex_Spec x) = ?b) exps)"
      by (cases "?b = defaultBridgeName") (simp_all add: bridge_user_def find_None_iff)
    have chk: "CheckBridge w p exps (xe_auto X) = map_option (\<lambda>x. BridgeUsed (ex_Name x) ?b) (bridge_user ?name ?b exps)"
      unfolding user using assms(1) False by (auto simp: CheckBridge_def Let_def split: option.split)
    have "es_DefaultBridge (ex_Spec x) = ?b" if "bridge_user ?name ?b exps = Some x" for x
      using that unfolding user by (auto simp: find_Some_iff split: if_splits)
    then show ?thesis unfolding chk set(1) using assms(4) set(2)
      by (cases "bridge_user ?name ?b exps") (auto simp: bridge_free_def)
  qed
qed

theorem bridge_check_agrees_witness:
  "CheckBridge (demo_workflow\<lparr>wf_DefaultBridge := ''br-x''\<rparr>) \<lparr>pn_Action = ActionUpdate, pn_Experiment = ''exp'', pn_Reason = []\<rparr>
      [demo_target, exp_of ''other'' ''t0'' (bare_spec ''br-x'')] False = Some (BridgeUsed ''other'' ''br-x'')
   \<and> (\<exists>e'. bridge_free al_exp_env ''exp'' e' demo_exps = (demo_exps, Inl (BridgeTaken ''other'' ''br-x'')))"
proof -
  let ?w = "demo_workflow\<lparr>wf_DefaultBridge := ''br-x''\<rparr>"
  let ?p = "\<lparr>pn_Action = ActionUpdate, pn_Experiment = ''exp'', pn_Reason = []\<rparr>"
  have chk: "CheckBridge ?w ?p [demo_target, exp_of ''other'' ''t0'' (bare_spec ''br-x'')] False = Some (BridgeUsed ''other'' ''br-x'')"
    by (simp add: CheckBridge_def DefaultBridgeName_def defaultBridgeName_def demo_target_def exp_of_def empty_metadata_def
        bare_spec_def Let_def)
  have side: "pn_Action ?p \<noteq> ActionNone" "wf_Validate ?w = None" "es_DefaultBridge (bare_spec ''br-x'') = DefaultBridgeName ?w"
    by (simp_all add: wf_Validate_def DefaultBridgeName_def demo_workflow_def MaxBridgeNameLength_def bare_spec_def)
  show ?thesis using bridge_check_agrees[OF side demo_listed(2)] chk by auto
qed

end
