(* ===== verification/Builder_Model.thy ===== *)
theory Builder_Model
  imports Go_Runtime Builder_Draft Complex_Main
begin

section \<open>Builder documents\<close>

text \<open>
  The data of \<^verbatim>\<open>types/builder/document.go\<close>, the values of node specs with the helpers of \<^verbatim>\<open>spec.go\<close>, the
  identifiers of \<^verbatim>\<open>uuid.go\<close>, and the parts of Go that they use: \<^verbatim>\<open>strings.TrimSpace\<close>, \<^verbatim>\<open>float64\<close> and
  \<^verbatim>\<open>map[string]any\<close>. A map whose keys the code goes through is a list of its entries, with distinct
  keys. Labels, colors of notes and titles, which no code here reads, are left out.
\<close>

subsection \<open>Numbers and text\<close>

text \<open>A \<^verbatim>\<open>float64\<close>: the code compares and truncates, so a finite one is the rational number it stands for.\<close>

datatype float64 = NaN | Infinite bool | Finite rat

definition finite_float :: "float64 \<Rightarrow> bool" where
  "finite_float x \<longleftrightarrow> (case x of Finite _ \<Rightarrow> True | _ \<Rightarrow> False)"

text \<open>\<^verbatim>\<open>x <= 0\<close> and \<^verbatim>\<open>x == math.Trunc(x)\<close>: a comparison with NaN is false; an infinity is its own truncation.\<close>

definition not_positive :: "float64 \<Rightarrow> bool" where
  "not_positive x \<longleftrightarrow> (case x of NaN \<Rightarrow> False | Infinite positive \<Rightarrow> \<not> positive | Finite q \<Rightarrow> q \<le> 0)"

definition whole_number :: "float64 \<Rightarrow> bool" where
  "whole_number x \<longleftrightarrow> (case x of NaN \<Rightarrow> False | Infinite _ \<Rightarrow> True | Finite q \<Rightarrow> of_int \<lfloor>q\<rfloor> = q)"

definition outside :: "rat \<Rightarrow> rat \<Rightarrow> float64 \<Rightarrow> bool" where
  "outside lo hi x \<longleftrightarrow> (case x of NaN \<Rightarrow> False | Infinite _ \<Rightarrow> True | Finite q \<Rightarrow> q < lo \<or> q > hi)"

text \<open>The UTF-8 forms of the runes that \<^verbatim>\<open>unicode.IsSpace\<close> takes for space.\<close>

definition space_bytes :: "nat list list" where
  "space_bytes =
     [[9], [10], [11], [12], [13], [32], [194, 133], [194, 160], [225, 154, 128],
      [226, 128, 128], [226, 128, 129], [226, 128, 130], [226, 128, 131], [226, 128, 132], [226, 128, 133],
      [226, 128, 134], [226, 128, 135], [226, 128, 136], [226, 128, 137], [226, 128, 138],
      [226, 128, 168], [226, 128, 169], [226, 128, 175], [226, 129, 159], [227, 128, 128]]"

definition spaces :: "string list" where
  "spaces = map (map char_of) space_bytes"

function trim_left :: "string list \<Rightarrow> string \<Rightarrow> string" where
  "trim_left cuts s =
     (case find (\<lambda>c. c \<noteq> [] \<and> prefix c s) cuts of None \<Rightarrow> s | Some c \<Rightarrow> trim_left cuts (drop (length c) s))"
  by pat_completeness auto

termination
proof (relation "measure (\<lambda>(cuts, s). length s)", goal_cases)
  case (2 cuts s c)
  then have "c \<noteq> []" "prefix c s" by (auto simp: find_Some_iff)
  then have "0 < length c" "length c \<le> length s" by (simp_all add: prefix_length_le)
  then have "length s - length c < length s" by linarith
  then show ?case by simp
qed simp

declare trim_left.simps [simp del]

definition trim_right :: "string list \<Rightarrow> string \<Rightarrow> string" where
  "trim_right cuts s = rev (trim_left (map rev cuts) (rev s))"

definition TrimSpace :: "string \<Rightarrow> string" where
  "TrimSpace s = trim_right spaces (trim_left spaces s)"

definition blank :: "string \<Rightarrow> bool" where
  "blank s \<longleftrightarrow> TrimSpace s = []"

definition foldKey :: "unicase \<Rightarrow> string \<Rightarrow> string" where
  "foldKey u value = to_lower u (TrimSpace value)"

definition IsSpace :: "rune \<Rightarrow> bool" where
  "IsSpace r \<longleftrightarrow> r \<in> {9, 10, 11, 12, 13, 32, 133, 160, 5760, 8232, 8233, 8239, 8287, 12288} \<or> (8192 \<le> r \<and> r \<le> 8202)"

definition isNameSpace :: "rune \<Rightarrow> bool" where
  "isNameSpace r \<longleftrightarrow> r = 65279 \<or> (r \<noteq> 133 \<and> IsSpace r)"

definition hasNameSpace :: "string \<Rightarrow> bool" where
  "hasNameSpace name \<longleftrightarrow> list_ex isNameSpace (runes name)"

definition isControl :: "rune \<Rightarrow> bool" where
  "isControl r \<longleftrightarrow> r < 32 \<or> r = 127"

definition isNoteControl :: "rune \<Rightarrow> bool" where
  "isNoteControl r \<longleftrightarrow> isControl r \<and> r \<noteq> 10 \<and> r \<noteq> 9"

subsection \<open>Identifiers\<close>

definition hex_value :: "char \<Rightarrow> nat" where
  "hex_value c = (if is_digit c then code_of c - 48 else if 97 \<le> code_of c then code_of c - 87 else code_of c - 55)"

fun hex_bytes :: "string \<Rightarrow> nat list option" where
  "hex_bytes [] = Some []"
| "hex_bytes [c] = None"
| "hex_bytes (c # d # s) =
     (if hex_char c \<and> hex_char d then map_option ((#) (16 * hex_value c + hex_value d)) (hex_bytes s) else None)"

text \<open>
  The hyphens at four places must be there; all others are removed too before the digits are decoded.
\<close>

definition parseUUID :: "string \<Rightarrow> nat list option" where
  "parseUUID value =
     (if length value \<noteq> 36 then None
      else if list_ex (\<lambda>p. value ! p \<noteq> CHR ''-'') [8, 13, 18, 23] then None
      else
        (case hex_bytes (filter (\<lambda>c. c \<noteq> CHR ''-'') value) of
           None \<Rightarrow> None
         | Some decoded \<Rightarrow>
             if length decoded \<noteq> 16 then None
             else if decoded ! 6 div 16 < 1 \<or> 8 < decoded ! 6 div 16 then None
             else if decoded ! 8 div 64 \<noteq> 2 then None
             else Some decoded))"

definition IsUUID :: "string \<Rightarrow> bool" where
  "IsUUID value \<longleftrightarrow> parseUUID value \<noteq> None"

subsection \<open>Node specs\<close>

text \<open>
  \<^verbatim>\<open>any\<close> as JSON and YAML decoders fill it: \<open>VMap\<close> is a \<^verbatim>\<open>map[any]any\<close>, \<open>VObj\<close> a \<^verbatim>\<open>map[string]any\<close>, which
  may be nil; integers of every width are \<open>VInt\<close>.
\<close>

datatype jvalue =
  VNil
| VBool bool
| VInt int
| VFloat float64
| VStr string
| VArr "jvalue list"
| VObj "(string \<times> jvalue) list"
| VMap "(jvalue \<times> jvalue) list"

type_synonym spec = "(string \<times> jvalue) list"

definition specNodeInterfaces :: "spec \<Rightarrow> jvalue list" where
  "specNodeInterfaces sp =
     (case map_of sp ''network'' of
        Some (VObj net) \<Rightarrow> (case map_of net ''interfaces'' of Some (VArr is) \<Rightarrow> is | _ \<Rightarrow> [])
      | _ \<Rightarrow> [])"

fun value_at :: "jvalue \<Rightarrow> string list \<Rightarrow> jvalue option" where
  "value_at v [] = Some v"
| "value_at v (k # ks) =
     (case v of VObj m \<Rightarrow> (case map_of m k of None \<Rightarrow> None | Some w \<Rightarrow> value_at w ks) | _ \<Rightarrow> None)"

definition specString :: "spec \<Rightarrow> string list \<Rightarrow> string" where
  "specString sp ks = (case value_at (VObj sp) ks of Some (VStr s) \<Rightarrow> s | _ \<Rightarrow> [])"

text \<open>An assignment to a key of a map.\<close>

fun put_key :: "'k \<Rightarrow> 'v \<Rightarrow> ('k \<times> 'v) list \<Rightarrow> ('k \<times> 'v) list" where
  "put_key k v [] = [(k, v)]"
| "put_key k v ((a, b) # m) = (if a = k then (k, v) # m else (a, b) # put_key k v m)"

fun specSetString :: "spec \<Rightarrow> string \<Rightarrow> string list \<Rightarrow> spec option" where
  "specSetString sp value [] = None"
| "specSetString sp value [k] = Some (put_key k (VStr value) sp)"
| "specSetString sp value (k # k' # ks) =
     (case map_of sp k of
        Some (VObj m) \<Rightarrow> map_option (\<lambda>m'. put_key k (VObj m') sp) (specSetString m value (k' # ks))
      | None \<Rightarrow> map_option (\<lambda>m'. put_key k (VObj m') sp) (specSetString [] value (k' # ks))
      | Some VNil \<Rightarrow> map_option (\<lambda>m'. put_key k (VObj m') sp) (specSetString [] value (k' # ks))
      | Some _ \<Rightarrow> None)"

definition MaxInt32 :: rat where
  "MaxInt32 = 2147483647"

definition normal_float :: "float64 \<Rightarrow> jvalue" where
  "normal_float x =
     (case x of Finite q \<Rightarrow> if of_int \<lfloor>q\<rfloor> = q \<and> abs q \<le> MaxInt32 then VInt \<lfloor>q\<rfloor> else VFloat x | _ \<Rightarrow> VFloat x)"

text \<open>The canonical form of a value; the only error is a key that is not a string.\<close>

fun normalizeSpec :: "jvalue \<Rightarrow> jvalue option"
  and normal_list :: "jvalue list \<Rightarrow> jvalue list option"
  and normal_obj :: "(string \<times> jvalue) list \<Rightarrow> (string \<times> jvalue) list option"
  and normal_map :: "(jvalue \<times> jvalue) list \<Rightarrow> (string \<times> jvalue) list option" where
  "normalizeSpec (VObj m) = map_option VObj (normal_obj m)"
| "normalizeSpec (VMap m) = map_option VObj (normal_map m)"
| "normalizeSpec (VArr xs) = map_option VArr (normal_list xs)"
| "normalizeSpec (VFloat x) = Some (normal_float x)"
| "normalizeSpec VNil = Some VNil"
| "normalizeSpec (VBool b) = Some (VBool b)"
| "normalizeSpec (VInt i) = Some (VInt i)"
| "normalizeSpec (VStr s) = Some (VStr s)"
| "normal_list [] = Some []"
| "normal_list (x # xs) =
     (case normalizeSpec x of None \<Rightarrow> None | Some y \<Rightarrow> map_option ((#) y) (normal_list xs))"
| "normal_obj [] = Some []"
| "normal_obj ((k, v) # m) =
     (case normalizeSpec v of None \<Rightarrow> None | Some y \<Rightarrow> map_option ((#) (k, y)) (normal_obj m))"
| "normal_map [] = Some []"
| "normal_map ((k, v) # m) =
     (case k of
        VStr s \<Rightarrow> (case normalizeSpec v of None \<Rightarrow> None | Some y \<Rightarrow> map_option ((#) (s, y)) (normal_map m))
      | _ \<Rightarrow> None)"

text \<open>\<^verbatim>\<open>normalizeSpecMap\<close> of a spec that is not nil.\<close>

definition normalizeSpecMap :: "spec \<Rightarrow> spec option" where
  "normalizeSpecMap sp = normal_obj sp"

definition interfaceName :: "jvalue \<Rightarrow> string" where
  "interfaceName v = (case v of VObj m \<Rightarrow> (case map_of m ''name'' of Some (VStr s) \<Rightarrow> s | _ \<Rightarrow> []) | _ \<Rightarrow> [])"

subsection \<open>The document\<close>

datatype NodeKind = NodeKindDevice | NodeKindSwitch | NodeKindNote | NodeKindGroup | NodeKindShape | NodeKindIcon | NodeKindLine
  | NodeKindOther string

record Position =
  ps_X :: float64
  ps_Y :: float64

record BSize =
  sz_Width :: float64
  sz_Height :: float64

record InterfaceHandle =
  ih_ID :: string
  ih_Name :: string

record Device =
  dv_Hostname :: string
  dv_IconKey :: string
  dv_Icon :: string
  dv_IconSize :: string
  dv_OutlineColor :: string
  dv_FillColor :: string
  dv_Layer :: "int option"
  dv_Spec :: "spec option"
  dv_Interfaces :: "InterfaceHandle list"
  dv_IncludedFrom :: string

record Switch =
  sw_NetworkID :: string
  sw_OutlineColor :: string
  sw_FillColor :: string
  sw_IconSize :: string
  sw_Layer :: "int option"

record Group =
  gr_BorderStyle :: string
  gr_IconKey :: string
  gr_Icon :: string
  gr_IconSize :: string

record Shape =
  sh_Shape :: string
  sh_FillColor :: string
  sh_OutlineColor :: string
  sh_BorderStyle :: string

record IconNode =
  in_IconKey :: string
  in_Icon :: string

record Line =
  ln_Points :: "Position list"
  ln_Color :: string
  ln_LineStyle :: string

record BNode =
  bn_ID :: string
  bn_Kind :: NodeKind
  bn_Position :: Position
  bn_Size :: "BSize option"
  bn_ParentID :: string
  bn_Device :: "Device option"
  bn_Switch :: "Switch option"
  bn_Note :: bool
  bn_Group :: "Group option"
  bn_Shape :: "Shape option"
  bn_Icon :: "IconNode option"
  bn_Line :: "Line option"

record BNetwork =
  bw_ID :: string
  bw_Name :: string
  bw_Alias :: "int option"
  bw_LineStyle :: string
  bw_Subnet :: string
  bw_Gateway :: string

record Edge =
  eg_ID :: string
  eg_SourceNodeID :: string
  eg_SourceHandleID :: string
  eg_TargetNodeID :: string
  eg_TargetHandleID :: string
  eg_NetworkID :: string
  eg_LineStyle :: string
  eg_Route :: "Position list option"

record Layer =
  ly_ID :: "int option"
  ly_Label :: string
  ly_IconKey :: string
  ly_Icon :: string
  ly_Color :: string
  ly_Matchers :: "(string \<times> string) list"

record DocumentLayerSet =
  ls_Name :: string
  ls_MatchConflict :: string
  ls_Source :: "(string \<times> int) option"

record TemplateSource =
  tsr_Kind :: string
  tsr_ID :: string
  tsr_Version :: int
  tsr_Digest :: string

record TemplateDevice =
  td_IconKey :: string
  td_Icon :: string
  td_IconSize :: string
  td_OutlineColor :: string
  td_FillColor :: string
  td_Layer :: "int option"
  td_Spec :: "spec option"

record Template =
  tp_ID :: string
  tp_Name :: string
  tp_Description :: string
  tp_Device :: TemplateDevice
  tp_Source :: "TemplateSource option"

record DocSource =
  so_Kind :: string
  so_IncludeTopologies :: "string list"
  so_UnresolvedIncludes :: "string list"
  so_Digest :: string
  so_Annotations :: "(string \<times> string) list"

record DocMetadata =
  mt_ID :: string
  mt_Name :: string
  mt_CreatedBy :: string
  mt_CreatedAt :: string
  mt_UpdatedBy :: string
  mt_UpdatedAt :: string
  mt_Notes :: "string list"

record BDocument =
  dc_Schema :: string
  dc_Revision :: int
  dc_Metadata :: DocMetadata
  dc_Nodes :: "BNode list option"
  dc_Networks :: "BNetwork list option"
  dc_Edges :: "Edge list option"
  dc_Viewport :: "float64 \<times> float64 \<times> float64"
  dc_GridSize :: float64
  dc_Scenarios :: "string list"
  dc_Source :: "DocSource option"
  dc_IconSize :: string
  dc_Templates :: "Template list"
  dc_Layers :: "Layer list"
  dc_LayerSet :: "DocumentLayerSet option"
  dc_Icons :: "(string \<times> string) list"

text \<open>The elements of a slice that may be nil.\<close>

definition elems :: "'a list option \<Rightarrow> 'a list" where
  "elems xs = (case xs of None \<Rightarrow> [] | Some ys \<Rightarrow> ys)"

abbreviation nodes_of :: "BDocument \<Rightarrow> BNode list" where
  "nodes_of d \<equiv> elems (dc_Nodes d)"

abbreviation networks_of :: "BDocument \<Rightarrow> BNetwork list" where
  "networks_of d \<equiv> elems (dc_Networks d)"

abbreviation edges_of :: "BDocument \<Rightarrow> Edge list" where
  "edges_of d \<equiv> elems (dc_Edges d)"

definition NodeByID :: "BDocument \<Rightarrow> string \<Rightarrow> BNode option" where
  "NodeByID d i = find (\<lambda>n. bn_ID n = i) (nodes_of d)"

definition NetworkByID :: "BDocument \<Rightarrow> string \<Rightarrow> BNetwork option" where
  "NetworkByID d i = find (\<lambda>n. bw_ID n = i) (networks_of d)"

definition FindDevice :: "unicase \<Rightarrow> BDocument \<Rightarrow> string \<Rightarrow> BNode option" where
  "FindDevice u d hostname =
     find (\<lambda>n. bn_Kind n = NodeKindDevice
       \<and> (case bn_Device n of None \<Rightarrow> False | Some v \<Rightarrow> equal_fold u (dv_Hostname v) hostname)) (nodes_of d)"

definition FindHandle :: "Device option \<Rightarrow> string \<Rightarrow> InterfaceHandle option" where
  "FindHandle v i = (case v of None \<Rightarrow> None | Some v \<Rightarrow> find (\<lambda>h. ih_ID h = i) (dv_Interfaces v))"

end
