(* ===== verification/Builder_Parts.thy ===== *)
theory Builder_Parts
  imports Builder_Model
begin

section \<open>Patterns and images in Builder documents\<close>

text \<open>
  The scanners of regular expressions of \<^verbatim>\<open>types/builder/layerset.go\<close>, which refuse patterns that take long to
  match, and the reader of PNG chunks of \<^verbatim>\<open>types/builder/customicons.go\<close>. An index that only grows bounds each
  scan. Bytes are numbers below 256. Which refusal of an image applies only shows in the message; here
  it is \<^const>\<open>None\<close>.
\<close>

subsection \<open>Patterns\<close>

definition index_of :: "string \<Rightarrow> string \<Rightarrow> nat option" where
  "index_of sub s = find (\<lambda>i. prefix sub (drop i s)) [0..<Suc (length s)]"

abbreviation backslash :: char where
  "backslash \<equiv> CHR 0x5C"

definition escapeEnd :: "string \<Rightarrow> nat \<Rightarrow> nat" where
  "escapeEnd p i =
     (let rest = drop (Suc i) p
      in if prefix ''Q'' rest then (case index_of [backslash, CHR ''E''] rest of Some e \<Rightarrow> i + 1 + e + 2 | None \<Rightarrow> length p)
         else if prefix ''x{'' rest \<or> prefix ''p{'' rest \<or> prefix ''P{'' rest
         then (case index_of ''}'' rest of Some e \<Rightarrow> i + 1 + e + 1 | None \<Rightarrow> min (i + 2) (length p))
         else if prefix ''p'' rest \<or> prefix ''P'' rest then min (i + 3) (length p)
         else min (i + 2) (length p))"

lemma escapeEnd_later: "i < length p \<Longrightarrow> i < escapeEnd p i"
  by (auto simp: escapeEnd_def Let_def split: option.split)

function class_loop :: "string \<Rightarrow> nat \<Rightarrow> nat" where
  "class_loop p i =
     (if i \<ge> length p then i
      else if p ! i = backslash then class_loop p (escapeEnd p i)
      else if prefix ''[:'' (drop i p)
      then class_loop p (case index_of '':]'' (drop i p) of Some e \<Rightarrow> i + e + 2 | None \<Rightarrow> i + 1)
      else if p ! i = CHR '']'' then i + 1
      else class_loop p (i + 1))"
  by pat_completeness auto

termination
proof (relation "measure (\<lambda>(p, i). length p - i)", goal_cases)
  case (2 p i)
  then show ?case using escapeEnd_later[of i p] by auto
qed (auto split: option.split)

declare class_loop.simps [simp del]

definition skip_char :: "char \<Rightarrow> string \<Rightarrow> nat \<Rightarrow> nat" where
  "skip_char c p i = (if i < length p \<and> p ! i = c then i + 1 else i)"

definition classEnd :: "string \<Rightarrow> nat \<Rightarrow> nat" where
  "classEnd p i = class_loop p (skip_char CHR '']'' p (skip_char CHR ''^'' p (i + 1)))"

lemma class_loop_later: "i \<le> class_loop p i"
proof (induction p i rule: class_loop.induct)
  case (1 p i)
  show ?case
  proof (cases "i < length p")
    case True
    let ?n = "case index_of '':]'' (drop i p) of Some e \<Rightarrow> i + e + 2 | None \<Rightarrow> i + 1"
    have n: "i \<le> ?n" by (simp split: option.split)
    show ?thesis
    proof (cases "p ! i \<noteq> backslash \<and> prefix ''[:'' (drop i p)")
      case True
      then have "?n \<le> class_loop p ?n" using 1(2) \<open>i < length p\<close> by simp
      then have "i \<le> class_loop p ?n" using n by (rule le_trans[rotated])
      then show ?thesis using True \<open>i < length p\<close> by (subst class_loop.simps) simp
    next
      case False
      then show ?thesis using 1(1,3) escapeEnd_later[OF True] True by (subst class_loop.simps) auto
    qed
  qed (subst class_loop.simps, simp)
qed

lemma classEnd_later: "i < classEnd p i"
proof -
  have "i + 1 \<le> skip_char CHR '']'' p (skip_char CHR ''^'' p (i + 1))" by (simp add: skip_char_def)
  then show ?thesis using class_loop_later[of "skip_char CHR '']'' p (skip_char CHR ''^'' p (i + 1))" p] by (simp add: classEnd_def)
qed

record patternRepeat =
  pr_length :: nat
  pr_more :: bool
  pr_unbounded :: bool

definition number :: "string \<Rightarrow> nat" where
  "number ds = foldl (\<lambda>v c. 10 * v + (code_of c - 48)) 0 ds"

definition no_repeat :: patternRepeat where
  "no_repeat = \<lparr>pr_length = 0, pr_more = False, pr_unbounded = False\<rparr>"

definition repeatAt :: "string \<Rightarrow> nat \<Rightarrow> patternRepeat" where
  "repeatAt p i =
     (if p ! i \<in> {CHR ''*'', CHR ''+''} then \<lparr>pr_length = 1, pr_more = True, pr_unbounded = True\<rparr>
      else if p ! i = CHR ''?'' then \<lparr>pr_length = 1, pr_more = False, pr_unbounded = False\<rparr>
      else if p ! i \<noteq> CHR ''{'' then no_repeat
      else
        (let least = takeWhile is_digit (drop (i + 1) p); rest = drop (i + 1 + length least) p
         in if least = [] then no_repeat
            else if prefix ''}'' rest
            then \<lparr>pr_length = length least + 2, pr_more = (number least > 1), pr_unbounded = False\<rparr>
            else if prefix '','' rest then
              (let most = takeWhile is_digit (tl rest)
               in if prefix ''}'' (drop (length most) (tl rest))
                  then \<lparr>pr_length = length least + length most + 3,
                        pr_more = (most = [] \<or> max (number least) (number most) > 1), pr_unbounded = (most = [])\<rparr>
                  else no_repeat)
            else no_repeat))"

function repeats_loop :: "string \<Rightarrow> nat \<Rightarrow> nat \<Rightarrow> nat" where
  "repeats_loop p i found =
     (if i \<ge> length p then found
      else if p ! i = backslash then repeats_loop p (escapeEnd p i) found
      else if p ! i = CHR ''['' then repeats_loop p (classEnd p i) found
      else if p ! i = CHR ''('' then repeats_loop p (skip_char CHR ''?'' p (i + 1)) found
      else
        (let r = repeatAt p i
         in if pr_length r = 0 then repeats_loop p (i + 1) found
            else repeats_loop p (skip_char CHR ''?'' p (i + pr_length r)) (if pr_unbounded r then found + 1 else found)))"
  by pat_completeness auto

termination
proof (relation "measure (\<lambda>(p, i, found). length p - i)", goal_cases)
  case (2 p i found)
  then show ?case using escapeEnd_later[of i p] by auto
next
  case (3 p i found)
  then show ?case using classEnd_later[of i p] by auto
qed (auto simp: skip_char_def)

declare repeats_loop.simps [simp del]

definition unboundedRepeats :: "string \<Rightarrow> nat" where
  "unboundedRepeats p = repeats_loop p 0 0"

definition groupStart :: "string \<Rightarrow> nat \<Rightarrow> bool list \<Rightarrow> nat \<times> bool list" where
  "groupStart p i mixed =
     (if \<not> prefix ''(?'' (drop i p) then (i + 1, mixed @ [False])
      else
        (case find (\<lambda>k. p ! k \<in> set '':>)'') [i + 2..<length p] of
           None \<Rightarrow> (length p, mixed)
         | Some k \<Rightarrow> (k + 1, if p ! k \<noteq> CHR '')'' then mixed @ [False] else mixed)))"

lemma groupStart_later:
  assumes "i < length p"
  shows "i < fst (groupStart p i mixed)"
proof (cases "find (\<lambda>k. p ! k \<in> set '':>)'') [i + 2..<length p]")
  case (Some k)
  then have "k \<in> set [i + 2..<length p]" by (auto simp: find_Some_iff dest: nth_mem)
  then show ?thesis using Some by (simp add: groupStart_def)
qed (use assms in \<open>simp add: groupStart_def\<close>)

text \<open>\<open>mixed\<close>: for each open group whether it has a repeat or an alternative in it; the last is the innermost.\<close>

function nested_loop :: "string \<Rightarrow> nat \<Rightarrow> bool list \<Rightarrow> bool \<Rightarrow> bool" where
  "nested_loop p i mixed mixedGroup =
     (if i \<ge> length p then False
      else
        (let top = length mixed - 1
         in if p ! i = backslash then nested_loop p (escapeEnd p i) mixed False
            else if p ! i = CHR ''['' then nested_loop p (classEnd p i) mixed False
            else if p ! i = CHR ''('' then nested_loop p (fst (groupStart p i mixed)) (snd (groupStart p i mixed)) False
            else if p ! i = CHR '')'' \<and> top > 0
            then nested_loop p (i + 1) ((take top mixed)[top - 1 := mixed ! (top - 1) \<or> mixed ! top]) (mixed ! top)
            else if p ! i = CHR ''|'' then nested_loop p (i + 1) (mixed[top := True]) False
            else
              (let r = repeatAt p i
               in if pr_length r = 0 then nested_loop p (i + 1) mixed False
                  else if mixedGroup \<and> pr_more r then True
                  else nested_loop p (skip_char CHR ''?'' p (i + pr_length r)) (mixed[top := True]) False)))"
  by pat_completeness auto

termination
proof (relation "measure (\<lambda>(p, i, mixed, mixedGroup). length p - i)", goal_cases)
  case (2 p i mixed mixedGroup top)
  then show ?case using escapeEnd_later[of i p] by auto
next
  case (3 p i mixed mixedGroup top)
  then show ?case using classEnd_later[of i p] by auto
next
  case (4 p i mixed mixedGroup top)
  then show ?case using groupStart_later[of i p mixed] by auto
qed (auto simp: skip_char_def)

declare nested_loop.simps [simp del]

definition nestedRepeat :: "string \<Rightarrow> bool" where
  "nestedRepeat p \<longleftrightarrow> nested_loop p 0 [False] False"

subsection \<open>Images\<close>

text \<open>Standard base64 with padding, as \<^verbatim>\<open>Strict\<close> reads it: the bits that are left over are zero.\<close>

definition b64_value :: "char \<Rightarrow> nat option" where
  "b64_value c =
     (let k = code_of c
      in if 65 \<le> k \<and> k \<le> 90 then Some (k - 65) else if 97 \<le> k \<and> k \<le> 122 then Some (k - 71)
         else if is_digit c then Some (k + 4) else if c = CHR ''+'' then Some 62 else if c = CHR ''/'' then Some 63 else None)"

fun b64_decode :: "string \<Rightarrow> nat list option" where
  "b64_decode [] = Some []"
| "b64_decode (a # b # c # d # s) =
     (if s = [] \<and> d = CHR ''='' \<and> c = CHR ''='' then
        (case (b64_value a, b64_value b) of
           (Some v, Some w) \<Rightarrow> if w mod 16 = 0 then Some [4 * v + w div 16] else None
         | _ \<Rightarrow> None)
      else if s = [] \<and> d = CHR ''='' then
        (case (b64_value a, b64_value b, b64_value c) of
           (Some v, Some w, Some x) \<Rightarrow> if x mod 4 = 0 then Some [4 * v + w div 16, 16 * (w mod 16) + x div 4] else None
         | _ \<Rightarrow> None)
      else
        (case (b64_value a, b64_value b, b64_value c, b64_value d) of
           (Some v, Some w, Some x, Some y) \<Rightarrow>
             map_option (append [4 * v + w div 16, 16 * (w mod 16) + x div 4, 64 * (x mod 4) + y]) (b64_decode s)
         | _ \<Rightarrow> None))"
| "b64_decode _ = None"

definition MaxIconBytes :: nat where "MaxIconBytes = 40960"
definition MaxIconPixels :: nat where "MaxIconPixels = 96"

definition decodeIconData :: "string \<Rightarrow> nat list option" where
  "decodeIconData data =
     (if data = [] \<or> length data > (MaxIconBytes + 2) div 3 * 4 \<or> list_ex (\<lambda>c. code_of c \<in> {10, 13}) data then None
      else
        (case b64_decode data of
           None \<Rightarrow> None
         | Some bs \<Rightarrow> if bs = [] \<or> length bs > MaxIconBytes then None else Some bs))"

definition be32 :: "nat list \<Rightarrow> nat" where
  "be32 bs = foldl (\<lambda>v b. 256 * v + b) 0 (take 4 bs)"

definition png_text :: "string \<Rightarrow> nat list" where
  "png_text s = map code_of s"

definition pngSignature :: "nat list" where
  "pngSignature = [137, 80, 78, 71, 13, 10, 26, 10]"

definition colorTypeUses :: "nat \<Rightarrow> nat list \<Rightarrow> bool" where
  "colorTypeUses colorType kind \<longleftrightarrow>
     (if colorType = 3 then True else if colorType = 0 \<or> colorType = 2 then kind = png_text ''tRNS'' else False)"

definition side_ok :: "nat \<Rightarrow> bool" where
  "side_ok n \<longleftrightarrow> 1 \<le> n \<and> n \<le> MaxIconPixels"

text \<open>The chunks after the header: the data of the IDAT chunks, joined.\<close>

function chunk_loop :: "nat \<Rightarrow> nat list \<Rightarrow> bool \<Rightarrow> nat list \<Rightarrow> nat list option" where
  "chunk_loop colorType pixels ended rest =
     (if rest = [] then (if ended then Some pixels else None)
      else if ended \<or> length rest < 12 \<or> be32 rest > length rest - 12 then None
      else
        (let kind = take 4 (drop 4 rest); body = take (be32 rest) (drop 8 rest); more = drop (12 + be32 rest) rest
         in if kind = png_text ''IHDR'' then None
            else if kind = png_text ''IEND'' then (if body \<noteq> [] then None else chunk_loop colorType pixels True more)
            else if kind = png_text ''IDAT'' then chunk_loop colorType (pixels @ body) False more
            else if kind \<noteq> png_text ''PLTE'' \<and> kind \<noteq> png_text ''tRNS'' then None
            else if \<not> colorTypeUses colorType kind then None
            else chunk_loop colorType pixels False more))"
  by pat_completeness auto

termination
  by (relation "measure (\<lambda>(colorType, pixels, ended, rest). length rest)") auto

declare chunk_loop.simps [simp del]

text \<open>\<^verbatim>\<open>walkIconChunks\<close> of what follows the signature: width, height and pixel data.\<close>

definition walkIconChunks :: "nat list \<Rightarrow> (nat \<times> nat \<times> nat list) option" where
  "walkIconChunks rest =
     (if length rest < 12 \<or> be32 rest > length rest - 12 then None
      else
        (let body = take (be32 rest) (drop 8 rest); wide = be32 body; high = be32 (drop 4 body)
         in if take 4 (drop 4 rest) \<noteq> png_text ''IHDR'' \<or> length body \<noteq> 13 then None
            else if \<not> side_ok wide \<or> \<not> side_ok high then None
            else map_option (\<lambda>pixels. (wide, high, pixels)) (chunk_loop (body ! 9) [] False (drop (12 + be32 rest) rest))))"

definition iconChunks :: "nat list \<Rightarrow> (nat \<times> nat \<times> nat list) option" where
  "iconChunks data =
     (if data = [] \<or> length data > MaxIconBytes \<or> \<not> prefix pngSignature data then None else walkIconChunks (drop 8 data))"

end
