(* ===== verification/Builder_Check.thy ===== *)
theory Builder_Check
  imports Builder_Parts
begin

section \<open>Checking Builder documents\<close>

text \<open>
  \<^verbatim>\<open>types/builder/validate.go\<close>, with the checks of layers, templates and icons that it calls: every check
  of \<^verbatim>\<open>Document.Validate\<close>, in its order, as a function to the issues it adds. An issue has its code and
  its place; the message, which repeats the values at that place, is left out. The index of handles that
  \<^verbatim>\<open>validateEdges\<close> keeps is a cache of \<^const>\<open>FindHandle\<close>.

  Parameters, in \<open>doc_env\<close>: the case tables, the order in which the map of the three lists is gone
  through, whether a regular expression compiles (\<^verbatim>\<open>regexp\<close>), the length of the JSON of a template device,
  whether \<^verbatim>\<open>image/png\<close> decodes an image, and how many bytes \<^verbatim>\<open>compress/zlib\<close> leaves of compressed data.
\<close>

record Issue =
  is_Code :: string
  is_Path :: string
  is_NodeID :: string
  is_EdgeID :: string
  is_NetworkID :: string

record doc_env =
  de_case :: unicase
  de_lists :: "string list"
  de_regexp :: "string \<Rightarrow> bool"
  de_size :: "TemplateDevice \<Rightarrow> nat option"
  de_png :: "nat list \<Rightarrow> bool"
  de_zlib :: "nat list \<Rightarrow> nat option"

definition NewIssue :: "string \<Rightarrow> string \<Rightarrow> Issue" where
  "NewIssue code path = \<lparr>is_Code = code, is_Path = path, is_NodeID = [], is_EdgeID = [], is_NetworkID = []\<rparr>"

definition issue_if :: "bool \<Rightarrow> string \<Rightarrow> string \<Rightarrow> Issue list" where
  "issue_if b code path = (if b then [NewIssue code path] else [])"

definition item :: "string \<Rightarrow> nat \<Rightarrow> string" where
  "item path i = path @ ''['' @ dec_nat i @ '']''"

subsection \<open>Single values\<close>

definition doc_validateID :: "string \<Rightarrow> string \<Rightarrow> string \<Rightarrow> string \<Rightarrow> Issue list" where
  "doc_validateID path i required invalid =
     (if blank i then [NewIssue required path] else issue_if (\<not> IsUUID i) invalid path)"

definition has_control :: "string \<Rightarrow> bool" where
  "has_control s \<longleftrightarrow> list_ex isControl (runes s)"

definition iconKeys :: "string list" where
  "iconKeys =
     [''alpine'', ''android'', ''apple'', ''blackhat'', ''bsd'', ''cell-tower'', ''centos'', ''container'', ''desktop'',
      ''distribution'', ''external'', ''fedora'', ''firewall'', ''fox'', ''hacker'', ''human'', ''kali'', ''laptop'',
      ''linux'', ''lizard'', ''minimega'', ''ntp'', ''opensuse'', ''pfsense'', ''phenix'', ''plc'', ''printer'',
      ''redhat'', ''relay'', ''robot'', ''router'', ''rtac'', ''rtu'', ''server'', ''smartphone'', ''switch'',
      ''terminal'', ''transmission'', ''ubuntu'', ''vlan'', ''windows'', ''wireshark'', ''zeek'']"

definition iconKeyProblem :: "string \<Rightarrow> bool" where
  "iconKeyProblem key \<longleftrightarrow> key \<noteq> [] \<and> key \<notin> set iconKeys"

definition letter_digit :: "char \<Rightarrow> bool" where
  "letter_digit c \<longleftrightarrow> is_digit c \<or> (65 \<le> code_of c \<and> code_of c \<le> 90) \<or> (97 \<le> code_of c \<and> code_of c \<le> 122)"

definition config_chars :: "string \<Rightarrow> bool" where
  "config_chars s \<longleftrightarrow> s \<noteq> [] \<and> list_all (\<lambda>c. letter_digit c \<or> c \<in> set ''_@.-'') s"

definition IconNameProblem :: "string \<Rightarrow> bool" where
  "IconNameProblem name \<longleftrightarrow> length name > 64 \<or> \<not> config_chars name \<or> name = ''.'' \<or> name = ''..''"

definition hexColor :: "string \<Rightarrow> bool" where
  "hexColor s \<longleftrightarrow> length s = 7 \<and> hd s = CHR ''#'' \<and> list_all hex_char (tl s)"

definition colorProblem :: "string \<Rightarrow> bool" where
  "colorProblem color \<longleftrightarrow> color \<noteq> [] \<and> \<not> hexColor color"

definition iconSizeProblem :: "string \<Rightarrow> bool" where
  "iconSizeProblem sz \<longleftrightarrow> sz \<noteq> [] \<and> sz \<notin> {''small'', ''medium'', ''large''}"

definition line_style_bad :: "string \<Rightarrow> bool" where
  "line_style_bad s \<longleftrightarrow> s \<noteq> [] \<and> s \<notin> {''solid'', ''dashed'', ''dotted'', ''dash-dot''}"

definition border_style_bad :: "string \<Rightarrow> bool" where
  "border_style_bad s \<longleftrightarrow> s \<noteq> [] \<and> s \<notin> {''solid'', ''dashed'', ''dotted'', ''double''}"

definition isLayerID :: "int \<Rightarrow> bool" where
  "isLayerID i \<longleftrightarrow> 0 \<le> i \<and> i \<le> 99"

definition layerProblem :: "int option \<Rightarrow> bool" where
  "layerProblem layer \<longleftrightarrow> (case layer of None \<Rightarrow> False | Some i \<Rightarrow> \<not> isLayerID i)"

definition validateIconRef :: "string \<Rightarrow> string \<Rightarrow> string \<Rightarrow> Issue list" where
  "validateIconRef name path code = issue_if (name \<noteq> [] \<and> IconNameProblem name) code path"

definition IsConfigName :: "string \<Rightarrow> bool" where
  "IsConfigName name \<longleftrightarrow> name \<noteq> [] \<and> length name \<le> 256 \<and> config_chars name"

subsection \<open>Addresses\<close>

text \<open>
  \<^verbatim>\<open>netip.ParseAddr\<close>, as far as the code can tell: an IPv4 address is four decimal octets without leading
  zeros. A prefix length is a number that prints as it was written.
\<close>

type_synonym ipv4 = "32 word"

definition octet :: "string \<Rightarrow> nat option" where
  "octet s = find (\<lambda>n. dec_nat n = s) [0..<256]"

definition parse_ipv4 :: "string \<Rightarrow> ipv4 option" where
  "parse_ipv4 s =
     (case map octet (split_on CHR ''.'' s) of
        [Some a, Some b, Some c, Some d] \<Rightarrow> Some (word_of_nat (((a * 256 + b) * 256 + c) * 256 + d))
      | _ \<Rightarrow> None)"

definition subnet_mask :: "nat \<Rightarrow> ipv4" where
  "subnet_mask n = push_bit (32 - n) (- 1)"

definition ParseSubnet :: "string \<Rightarrow> (ipv4 \<times> nat) option" where
  "ParseSubnet text =
     (if CHR ''/'' \<notin> set text then None
      else
        (case parse_ipv4 (takeWhile (\<lambda>c. c \<noteq> CHR ''/'') text) of
           None \<Rightarrow> None
         | Some addr \<Rightarrow>
             (case find (\<lambda>n. dec_nat n = tl (dropWhile (\<lambda>c. c \<noteq> CHR ''/'') text)) [0..<33] of
                None \<Rightarrow> None
              | Some n \<Rightarrow> if addr AND subnet_mask n = addr then Some (addr, n) else None)))"

definition subnet_contains :: "ipv4 \<times> nat \<Rightarrow> ipv4 \<Rightarrow> bool" where
  "subnet_contains p addr \<longleftrightarrow> drop_bit (32 - snd p) (fst p XOR addr) = 0"

definition IsSubnetHost :: "ipv4 \<times> nat \<Rightarrow> ipv4 \<Rightarrow> bool" where
  "IsSubnetHost p addr \<longleftrightarrow>
     subnet_contains p addr
     \<and> (let hostBits = 32 - snd p
        in hostBits \<le> 1 \<or> (addr \<noteq> fst p \<and> addr \<noteq> fst p OR (push_bit hostBits 1 - 1)))"

definition validateNetworkAddressing :: "BNetwork \<Rightarrow> string \<Rightarrow> Issue list" where
  "validateNetworkAddressing n path =
     (let subnet = (if bw_Subnet n = [] then None else ParseSubnet (bw_Subnet n))
      in issue_if (bw_Subnet n \<noteq> [] \<and> subnet = None) ''network.subnet.invalid'' (path @ ''.subnet'')
         @ (if bw_Gateway n = [] then []
            else
              (case parse_ipv4 (bw_Gateway n) of
                 None \<Rightarrow> [NewIssue ''network.gateway.invalid'' (path @ ''.gateway'')]
               | Some gateway \<Rightarrow>
                   issue_if (case subnet of None \<Rightarrow> False | Some p \<Rightarrow> \<not> IsSubnetHost p gateway)
                     ''network.gateway.outside-subnet'' (path @ ''.gateway''))))"

subsection \<open>The head of the document\<close>

definition metadataPath :: "string \<Rightarrow> string" where
  "metadataPath key = ''metadata.'' @ key"

fun note_issues :: "nat \<Rightarrow> string list \<Rightarrow> Issue list" where
  "note_issues i [] = []"
| "note_issues i (note # notes) =
     (let path = item (metadataPath ''notes'') i
      in if blank note then [NewIssue ''metadata.note.blank'' path]
         else if length note > 4096 then [NewIssue ''metadata.note.too-long'' path]
         else issue_if (list_ex isNoteControl (runes note)) ''metadata.note.control'' path)
     @ note_issues (Suc i) notes"

definition validateNotes :: "string list \<Rightarrow> Issue list" where
  "validateNotes notes =
     issue_if (length notes > 100) ''metadata.notes.too-many'' (metadataPath ''notes'') @ note_issues 0 notes"

definition validateUser :: "string \<Rightarrow> string \<Rightarrow> Issue list" where
  "validateUser path user =
     (if length user > 256 then [NewIssue ''metadata.user.too-long'' path]
      else issue_if (has_control user) ''metadata.user.control'' path)"

definition validateTime :: "string \<Rightarrow> string \<Rightarrow> Issue list" where
  "validateTime path value = issue_if (value \<noteq> [] \<and> \<not> IsTime value) ''metadata.time.invalid'' path"

definition validateMetadata :: "DocMetadata \<Rightarrow> Issue list" where
  "validateMetadata m =
     doc_validateID (metadataPath ''id'') (mt_ID m) ''metadata.id.required'' ''metadata.id.invalid''
     @ (if length (mt_Name m) > 512 then [NewIssue ''metadata.name.too-long'' (metadataPath ''name'')]
        else issue_if (has_control (mt_Name m)) ''metadata.name.control'' (metadataPath ''name''))
     @ validateUser (metadataPath ''createdBy'') (mt_CreatedBy m) @ validateTime (metadataPath ''createdAt'') (mt_CreatedAt m)
     @ validateUser (metadataPath ''updatedBy'') (mt_UpdatedBy m) @ validateTime (metadataPath ''updatedAt'') (mt_UpdatedAt m)
     @ validateNotes (mt_Notes m)"

definition list_missing :: "BDocument \<Rightarrow> string \<Rightarrow> bool" where
  "list_missing d name \<longleftrightarrow>
     (if name = ''nodes'' then dc_Nodes d = None
      else if name = ''networks'' then dc_Networks d = None
      else if name = ''edges'' then dc_Edges d = None else False)"

definition validateHeader :: "doc_env \<Rightarrow> BDocument \<Rightarrow> Issue list" where
  "validateHeader E d =
     (let (x, y, zoom) = dc_Viewport d
      in issue_if (dc_Schema d \<noteq> ''https://phenix.sandia.gov/schemas/builder/v1'') ''document.schema.mismatch'' ''schema''
         @ issue_if (dc_Revision d \<noteq> 1) ''document.revision.mismatch'' ''revision''
         @ validateMetadata (dc_Metadata d)
         @ concat (map (\<lambda>name. issue_if (list_missing d name) ''document.list.missing'' name) (de_lists E))
         @ issue_if (\<not> finite_float x \<or> \<not> finite_float y \<or> \<not> finite_float zoom) ''document.viewport.not-finite'' ''viewport''
         @ issue_if (finite_float zoom \<and> not_positive zoom) ''document.zoom.not-positive'' ''viewport.zoom''
         @ issue_if (\<not> whole_number (dc_GridSize d) \<or> outside 4 200 (dc_GridSize d)) ''document.grid.invalid'' ''grid.size''
         @ issue_if (iconSizeProblem (dc_IconSize d)) ''document.icon-size.unknown'' ''iconSize'')"

subsection \<open>Networks\<close>

text \<open>
  The maps of what was seen; \<open>ns_byID\<close> is \<^verbatim>\<open>networksByID\<close>, in the order in which networks were put in.
\<close>

record net_seen =
  ns_IDs :: "string \<rightharpoonup> nat"
  ns_Names :: "string \<rightharpoonup> nat"
  ns_Aliases :: "int \<rightharpoonup> nat"
  ns_byID :: "(string \<times> BNetwork) list"

definition network_id :: "unicase \<Rightarrow> nat \<Rightarrow> BNetwork \<Rightarrow> net_seen \<Rightarrow> Issue list \<times> net_seen" where
  "network_id u i n s =
     (let path = item ''networks'' i @ ''.id'';
          here = doc_validateID path (bw_ID n) ''network.id.required'' ''network.id.invalid''
      in if blank (bw_ID n) then (here, s)
         else if ns_IDs s (foldKey u (bw_ID n)) \<noteq> None then (here @ [NewIssue ''network.id.duplicate'' path], s)
         else (here, s\<lparr>ns_IDs := (ns_IDs s)(foldKey u (bw_ID n) \<mapsto> i), ns_byID := ns_byID s @ [(bw_ID n, n)]\<rparr>))"

definition network_name :: "nat \<Rightarrow> BNetwork \<Rightarrow> net_seen \<Rightarrow> Issue list \<times> net_seen" where
  "network_name i n s =
     (let path = item ''networks'' i @ ''.name''
      in if blank (bw_Name n) then ([NewIssue ''network.name.required'' path], s)
         else if hasNameSpace (bw_Name n) then ([NewIssue ''network.name.whitespace'' path], s)
         else if ns_Names s (bw_Name n) \<noteq> None then ([NewIssue ''network.name.duplicate'' path], s)
         else ([], s\<lparr>ns_Names := (ns_Names s)(bw_Name n \<mapsto> i)\<rparr>))"

definition network_alias :: "nat \<Rightarrow> BNetwork \<Rightarrow> net_seen \<Rightarrow> Issue list \<times> net_seen" where
  "network_alias i n s =
     (let path = item ''networks'' i @ ''.alias''
      in case bw_Alias n of
           None \<Rightarrow> ([], s)
         | Some alias \<Rightarrow>
             if alias < 1 \<or> alias > 4094 then ([NewIssue ''network.alias.out-of-range'' path], s)
             else if ns_Aliases s alias \<noteq> None then ([NewIssue ''network.alias.duplicate'' path], s)
             else ([], s\<lparr>ns_Aliases := (ns_Aliases s)(alias \<mapsto> i)\<rparr>))"

fun network_loop :: "unicase \<Rightarrow> nat \<Rightarrow> net_seen \<Rightarrow> BNetwork list \<Rightarrow> Issue list \<times> net_seen" where
  "network_loop u i s [] = ([], s)"
| "network_loop u i s (n # ns) =
     (let (is1, s1) = network_id u i n s;
          (is2, s2) = network_name i n s1;
          is3 = issue_if (line_style_bad (bw_LineStyle n)) ''network.line-style.unknown'' (item ''networks'' i @ ''.lineStyle'')
                @ validateNetworkAddressing n (item ''networks'' i);
          (is4, s3) = network_alias i n s2;
          (rest, s4) = network_loop u (Suc i) s3 ns
      in (is1 @ is2 @ is3 @ is4 @ rest, s4))"

definition validateNetworks :: "unicase \<Rightarrow> BDocument \<Rightarrow> Issue list \<times> net_seen" where
  "validateNetworks u d =
     network_loop u 0 \<lparr>ns_IDs = Map.empty, ns_Names = Map.empty, ns_Aliases = Map.empty, ns_byID = []\<rparr> (networks_of d)"

subsection \<open>Nodes\<close>

record node_seen =
  ds_IDs :: "string \<rightharpoonup> nat"
  ds_Hostnames :: "string \<rightharpoonup> nat"
  ds_byID :: "(string \<times> BNode) list"
  ds_Owners :: "string \<rightharpoonup> string"

definition kind_text :: "NodeKind \<Rightarrow> string" where
  "kind_text k =
     (case k of NodeKindDevice \<Rightarrow> ''device'' | NodeKindSwitch \<Rightarrow> ''switch'' | NodeKindNote \<Rightarrow> ''note'' | NodeKindGroup \<Rightarrow> ''group''
      | NodeKindShape \<Rightarrow> ''shape'' | NodeKindIcon \<Rightarrow> ''icon'' | NodeKindLine \<Rightarrow> ''line'' | NodeKindOther s \<Rightarrow> s)"

definition payloads :: "BNode \<Rightarrow> (NodeKind \<times> bool) list" where
  "payloads n =
     [(NodeKindDevice, bn_Device n \<noteq> None), (NodeKindSwitch, bn_Switch n \<noteq> None), (NodeKindNote, bn_Note n),
      (NodeKindGroup, bn_Group n \<noteq> None), (NodeKindShape, bn_Shape n \<noteq> None), (NodeKindIcon, bn_Icon n \<noteq> None),
      (NodeKindLine, bn_Line n \<noteq> None)]"

definition validateNodePayload :: "BNode \<Rightarrow> string \<Rightarrow> Issue list" where
  "validateNodePayload n path =
     (if bn_Kind n \<notin> fst ` set (payloads n) then [NewIssue ''node.kind.unknown'' (path @ ''.kind'')]
      else
        concat (map (\<lambda>(k, present). issue_if (k = bn_Kind n \<and> \<not> present) ''node.payload.missing'' path) (payloads n))
        @ concat (map (\<lambda>(k, present). issue_if (present \<and> k \<noteq> bn_Kind n) ''node.payload.extra'' path) (payloads n))
        @ issue_if (bn_Kind n = NodeKindDevice \<and> (case bn_Device n of None \<Rightarrow> False | Some v \<Rightarrow> dv_Spec v = None))
            ''device.spec.required'' (path @ ''.device.spec''))"

definition validateIncludedFrom :: "BDocument \<Rightarrow> string \<Rightarrow> string \<Rightarrow> Issue list" where
  "validateIncludedFrom d name path =
     (if name = [] then []
      else if blank name \<or> hasNameSpace name then [NewIssue ''device.included-from.invalid'' path]
      else issue_if (case dc_Source d of None \<Rightarrow> True | Some so \<Rightarrow> so_IncludeTopologies so = []) ''device.included-from.no-includes'' path)"

text \<open>\<open>names\<close> are the interface names seen, folded; the owners of the handles are in the state of the nodes.\<close>

definition handle_id :: "unicase \<Rightarrow> string \<Rightarrow> string \<Rightarrow> InterfaceHandle \<Rightarrow> (string \<rightharpoonup> string) \<Rightarrow> Issue list \<times> (string \<rightharpoonup> string)" where
  "handle_id u path owner h owners =
     (let here = doc_validateID (path @ ''.id'') (ih_ID h) ''interface.id.required'' ''interface.id.invalid''
      in if blank (ih_ID h) then (here, owners)
         else if owners (foldKey u (ih_ID h)) \<noteq> None then (here @ [NewIssue ''interface.id.duplicate'' (path @ ''.id'')], owners)
         else (here, owners(foldKey u (ih_ID h) \<mapsto> owner)))"

definition handle_name :: "unicase \<Rightarrow> string \<Rightarrow> nat \<Rightarrow> InterfaceHandle \<Rightarrow> (string \<rightharpoonup> nat) \<Rightarrow> Issue list \<times> (string \<rightharpoonup> nat)" where
  "handle_name u path j h names =
     (if blank (ih_Name h) then ([NewIssue ''interface.name.required'' (path @ ''.name'')], names)
      else if names (foldKey u (ih_Name h)) \<noteq> None then ([NewIssue ''interface.name.duplicate'' (path @ ''.name'')], names)
      else ([], names(foldKey u (ih_Name h) \<mapsto> j)))"

fun handle_loop ::
  "unicase \<Rightarrow> string \<Rightarrow> string \<Rightarrow> nat \<Rightarrow> (string \<rightharpoonup> nat) \<Rightarrow> (string \<rightharpoonup> string) \<Rightarrow> InterfaceHandle list
   \<Rightarrow> Issue list \<times> (string \<rightharpoonup> string)" where
  "handle_loop u path owner j names owners [] = ([], owners)"
| "handle_loop u path owner j names owners (h # hs) =
     (let hp = item (path @ ''.device.interfaces'') j;
          (is1, owners1) = handle_id u hp owner h owners;
          (is2, names1) = handle_name u hp j h names;
          (rest, owners2) = handle_loop u path owner (Suc j) names1 owners1 hs
      in (is1 @ is2 @ rest, owners2))"

definition device_hostname :: "unicase \<Rightarrow> string \<Rightarrow> string \<Rightarrow> nat \<Rightarrow> (string \<rightharpoonup> nat) \<Rightarrow> Issue list \<times> (string \<rightharpoonup> nat)" where
  "device_hostname u hostname path i seen =
     (let p = path @ ''.device.hostname''
      in if blank hostname then ([NewIssue ''node.hostname.required'' p], seen)
         else if hasNameSpace hostname then ([NewIssue ''node.hostname.whitespace'' p], seen)
         else if seen (foldKey u hostname) \<noteq> None then ([NewIssue ''node.hostname.duplicate'' p], seen)
         else ([], seen(foldKey u hostname \<mapsto> i)))"

definition device_fields :: "BDocument \<Rightarrow> Device \<Rightarrow> string \<Rightarrow> Issue list" where
  "device_fields d v path =
     issue_if (iconKeyProblem (dv_IconKey v)) ''device.icon-key.unknown'' (path @ ''.device.iconKey'')
     @ validateIconRef (dv_Icon v) (path @ ''.device.icon'') ''device.icon.invalid''
     @ issue_if (iconSizeProblem (dv_IconSize v)) ''device.icon-size.unknown'' (path @ ''.device.iconSize'')
     @ issue_if (colorProblem (dv_OutlineColor v)) ''device.color.invalid'' (path @ ''.device.outlineColor'')
     @ issue_if (colorProblem (dv_FillColor v)) ''device.color.invalid'' (path @ ''.device.fillColor'')
     @ issue_if (layerProblem (dv_Layer v)) ''device.layer.out-of-range'' (path @ ''.device.layer'')
     @ validateIncludedFrom d (dv_IncludedFrom v) (path @ ''.device.includedFrom'')"

definition validateDevice :: "unicase \<Rightarrow> BDocument \<Rightarrow> BNode \<Rightarrow> Device \<Rightarrow> string \<Rightarrow> nat \<Rightarrow> node_seen \<Rightarrow> Issue list \<times> node_seen" where
  "validateDevice u d n v path i s =
     (let (is1, hosts1) = device_hostname u (dv_Hostname v) path i (ds_Hostnames s);
          (is2, owners1) = handle_loop u path (bn_ID n) 0 Map.empty (ds_Owners s) (dv_Interfaces v)
      in (is1 @ is2 @ device_fields d v path, s\<lparr>ds_Hostnames := hosts1, ds_Owners := owners1\<rparr>))"

definition validateSwitch :: "(string \<times> BNetwork) list \<Rightarrow> Switch \<Rightarrow> string \<Rightarrow> Issue list" where
  "validateSwitch nets h path =
     (if sw_NetworkID h = [] then [NewIssue ''switch.network.required'' (path @ ''.networkId'')]
      else issue_if (map_of nets (sw_NetworkID h) = None) ''switch.network.unknown'' (path @ ''.networkId''))
     @ issue_if (colorProblem (sw_OutlineColor h)) ''switch.color.invalid'' (path @ ''.outlineColor'')
     @ issue_if (colorProblem (sw_FillColor h)) ''switch.color.invalid'' (path @ ''.fillColor'')
     @ issue_if (iconSizeProblem (sw_IconSize h)) ''switch.icon-size.unknown'' (path @ ''.iconSize'')
     @ issue_if (layerProblem (sw_Layer h)) ''switch.layer.out-of-range'' (path @ ''.layer'')"

definition validateGroup :: "Group \<Rightarrow> string \<Rightarrow> Issue list" where
  "validateGroup g path =
     issue_if (border_style_bad (gr_BorderStyle g)) ''group.border-style.unknown'' (path @ ''.group.borderStyle'')
     @ issue_if (iconKeyProblem (gr_IconKey g)) ''group.icon-key.unknown'' (path @ ''.group.iconKey'')
     @ validateIconRef (gr_Icon g) (path @ ''.group.icon'') ''group.icon.invalid''
     @ issue_if (iconSizeProblem (gr_IconSize g)) ''group.icon-size.unknown'' (path @ ''.group.iconSize'')"

definition validateShape :: "Shape \<Rightarrow> string \<Rightarrow> Issue list" where
  "validateShape s path =
     issue_if (sh_Shape s \<notin> {''rectangle'', ''circle''}) ''drawing.shape.unknown'' (path @ ''.shape'')
     @ issue_if (colorProblem (sh_FillColor s)) ''drawing.color.invalid'' (path @ ''.fillColor'')
     @ issue_if (colorProblem (sh_OutlineColor s)) ''drawing.color.invalid'' (path @ ''.outlineColor'')
     @ issue_if (border_style_bad (sh_BorderStyle s)) ''drawing.border-style.unknown'' (path @ ''.borderStyle'')"

definition validateIconNode :: "IconNode \<Rightarrow> string \<Rightarrow> Issue list" where
  "validateIconNode i path =
     issue_if ((in_IconKey i = []) = (in_Icon i = [])) ''drawing.icon.ambiguous'' path
     @ issue_if (iconKeyProblem (in_IconKey i)) ''drawing.icon-key.unknown'' (path @ ''.iconKey'')
     @ validateIconRef (in_Icon i) (path @ ''.icon'') ''drawing.icon.invalid''"

definition finite_position :: "Position \<Rightarrow> bool" where
  "finite_position p \<longleftrightarrow> finite_float (ps_X p) \<and> finite_float (ps_Y p)"

definition validateLine :: "Line \<Rightarrow> string \<Rightarrow> Issue list" where
  "validateLine l path =
     (if length (ln_Points l) < 2 then [NewIssue ''drawing.points.too-few'' (path @ ''.points'')]
      else if length (ln_Points l) > 64 then [NewIssue ''drawing.points.too-many'' (path @ ''.points'')]
      else issue_if (\<not> list_all finite_position (ln_Points l)) ''drawing.points.not-finite'' (path @ ''.points''))
     @ issue_if (colorProblem (ln_Color l)) ''drawing.color.invalid'' (path @ ''.color'')
     @ issue_if (line_style_bad (ln_LineStyle l)) ''drawing.line-style.unknown'' (path @ ''.lineStyle'')"

definition validateKind ::
  "unicase \<Rightarrow> BDocument \<Rightarrow> (string \<times> BNetwork) list \<Rightarrow> BNode \<Rightarrow> string \<Rightarrow> nat \<Rightarrow> node_seen \<Rightarrow> Issue list \<times> node_seen" where
  "validateKind u d nets n path i s =
     (case bn_Kind n of
        NodeKindDevice \<Rightarrow> (case bn_Device n of None \<Rightarrow> ([], s) | Some v \<Rightarrow> validateDevice u d n v path i s)
      | NodeKindSwitch \<Rightarrow> (case bn_Switch n of None \<Rightarrow> [] | Some h \<Rightarrow> validateSwitch nets h (path @ ''.switch''), s)
      | NodeKindGroup \<Rightarrow> (case bn_Group n of None \<Rightarrow> [] | Some g \<Rightarrow> validateGroup g path, s)
      | NodeKindShape \<Rightarrow> (case bn_Shape n of None \<Rightarrow> [] | Some f \<Rightarrow> validateShape f (path @ ''.shape''), s)
      | NodeKindIcon \<Rightarrow> (case bn_Icon n of None \<Rightarrow> [] | Some f \<Rightarrow> validateIconNode f (path @ ''.icon''), s)
      | NodeKindLine \<Rightarrow> (case bn_Line n of None \<Rightarrow> [] | Some l \<Rightarrow> validateLine l (path @ ''.line''), s)
      | NodeKindNote \<Rightarrow> ([], s)
      | NodeKindOther _ \<Rightarrow> ([], s))"

definition node_id :: "unicase \<Rightarrow> nat \<Rightarrow> BNode \<Rightarrow> node_seen \<Rightarrow> Issue list \<times> node_seen" where
  "node_id u i n s =
     (let path = item ''nodes'' i @ ''.id'';
          here = doc_validateID path (bn_ID n) ''node.id.required'' ''node.id.invalid''
      in if blank (bn_ID n) then (here, s)
         else if ds_IDs s (foldKey u (bn_ID n)) \<noteq> None then (here @ [NewIssue ''node.id.duplicate'' path], s)
         else (here, s\<lparr>ds_IDs := (ds_IDs s)(foldKey u (bn_ID n) \<mapsto> i), ds_byID := ds_byID s @ [(bn_ID n, n)]\<rparr>))"

definition node_place :: "nat \<Rightarrow> BNode \<Rightarrow> Issue list" where
  "node_place i n =
     issue_if (\<not> finite_position (bn_Position n)) ''node.position.not-finite'' (item ''nodes'' i @ ''.position'')
     @ (case bn_Size n of
          None \<Rightarrow> []
        | Some z \<Rightarrow>
            issue_if (\<not> finite_float (sz_Width z) \<or> \<not> finite_float (sz_Height z)
                \<or> not_positive (sz_Width z) \<or> not_positive (sz_Height z))
              ''node.size.invalid'' (item ''nodes'' i @ ''.size''))"

fun node_loop ::
  "unicase \<Rightarrow> BDocument \<Rightarrow> (string \<times> BNetwork) list \<Rightarrow> nat \<Rightarrow> node_seen \<Rightarrow> BNode list \<Rightarrow> Issue list \<times> node_seen" where
  "node_loop u d nets i s [] = ([], s)"
| "node_loop u d nets i s (n # ns) =
     (let (is1, s1) = node_id u i n s;
          is2 = node_place i n @ validateNodePayload n (item ''nodes'' i);
          (is3, s2) = validateKind u d nets n (item ''nodes'' i) i s1;
          (rest, s3) = node_loop u d nets (Suc i) s2 ns
      in (is1 @ is2 @ is3 @ rest, s3))"

definition validateNodes :: "unicase \<Rightarrow> BDocument \<Rightarrow> (string \<times> BNetwork) list \<Rightarrow> Issue list \<times> node_seen" where
  "validateNodes u d nets =
     node_loop u d nets 0 \<lparr>ds_IDs = Map.empty, ds_Hostnames = Map.empty, ds_byID = [], ds_Owners = Map.empty\<rparr> (nodes_of d)"

subsection \<open>Parents\<close>

datatype chainState = chainUnknown | chainWalking | chainEnds | chainCycles

text \<open>
  The loop of \<^verbatim>\<open>parentCycle\<close>: the state of the chain, the states and the IDs walked. \<open>L\<close> is \<^verbatim>\<open>nodesByID\<close>.
\<close>

function chain_walk ::
  "(string \<times> BNode) list \<Rightarrow> string \<Rightarrow> (string \<Rightarrow> chainState) \<Rightarrow> string list
   \<Rightarrow> chainState \<times> (string \<Rightarrow> chainState) \<times> string list" where
  "chain_walk L i states walk =
     (case map_of L i of
        None \<Rightarrow> (chainEnds, states, walk)
      | Some n \<Rightarrow>
          if states i \<noteq> chainUnknown
          then ((if states i = chainWalking then chainCycles else states i), states, walk)
          else if bn_ParentID n = [] then (chainEnds, states(i := chainWalking), walk @ [i])
          else chain_walk L (bn_ParentID n) (states(i := chainWalking)) (walk @ [i]))"
  by pat_completeness auto

termination
proof (relation "measure (\<lambda>(L, i, states, walk). card {k \<in> fst ` set L. states k = chainUnknown})", goal_cases)
  case (2 L i states walk n)
  then have "(i, n) \<in> set L" by (simp add: map_of_SomeD)
  then have "i \<in> {k \<in> fst ` set L. states k = chainUnknown}" using 2 by force
  then have "{k \<in> fst ` set L. (states(i := chainWalking)) k = chainUnknown} \<subset> {k \<in> fst ` set L. states k = chainUnknown}" by auto
  then have "card {k \<in> fst ` set L. (states(i := chainWalking)) k = chainUnknown} < card {k \<in> fst ` set L. states k = chainUnknown}"
    by (intro psubset_card_mono) auto
  then show ?case by simp
qed simp

declare chain_walk.simps [simp del]

definition parentCycle :: "(string \<times> BNode) list \<Rightarrow> string \<Rightarrow> (string \<Rightarrow> chainState) \<Rightarrow> bool \<times> (string \<Rightarrow> chainState)" where
  "parentCycle L i states =
     (let (state, states', walk) = chain_walk L i states []
      in (state = chainCycles, foldl (\<lambda>s k. s(k := state)) states' walk))"

definition parent_issues ::
  "(string \<times> BNode) list \<Rightarrow> nat \<Rightarrow> BNode \<Rightarrow> (string \<Rightarrow> chainState) \<Rightarrow> Issue list \<times> (string \<Rightarrow> chainState)" where
  "parent_issues L i n states =
     (let path = item ''nodes'' i @ ''.parentId''
      in if bn_ParentID n = [] then ([], states)
         else if bn_ParentID n = bn_ID n then ([NewIssue ''node.parent.self'' path], states)
         else
           (case map_of L (bn_ParentID n) of
              None \<Rightarrow> ([NewIssue ''node.parent.unknown'' path], states)
            | Some parent \<Rightarrow>
                if bn_Kind parent \<noteq> NodeKindGroup then ([NewIssue ''node.parent.not-group'' path], states)
                else
                  (let (cyclic, states') = parentCycle L (bn_ParentID n) states
                   in (issue_if cyclic ''node.parent.cycle'' path, states'))))"

fun parent_loop :: "(string \<times> BNode) list \<Rightarrow> nat \<Rightarrow> (string \<Rightarrow> chainState) \<Rightarrow> BNode list \<Rightarrow> Issue list" where
  "parent_loop L i states [] = []"
| "parent_loop L i states (n # ns) =
     (let (is1, states1) = parent_issues L i n states in is1 @ parent_loop L (Suc i) states1 ns)"

definition validateParents :: "(string \<times> BNode) list \<Rightarrow> BDocument \<Rightarrow> Issue list" where
  "validateParents L d = parent_loop L 0 (\<lambda>_. chainUnknown) (nodes_of d)"

subsection \<open>Connections\<close>

text \<open>Device, handle and switch of an edge, from its two nodes and its two handles.\<close>

definition edgeEndpoints :: "BNode \<Rightarrow> string \<Rightarrow> BNode \<Rightarrow> string \<Rightarrow> (BNode \<times> string \<times> BNode) option" where
  "edgeEndpoints src sourceHandle target targetHandle =
     (if bn_Kind src = NodeKindDevice \<and> bn_Kind target = NodeKindSwitch
      then if bn_Device src = None \<or> sourceHandle = [] then None else Some (src, sourceHandle, target)
      else if bn_Kind src = NodeKindSwitch \<and> bn_Kind target = NodeKindDevice
      then if bn_Device target = None \<or> targetHandle = [] then None else Some (target, targetHandle, src)
      else None)"

definition validateEdgeNetwork :: "(string \<times> BNetwork) list \<Rightarrow> Edge \<Rightarrow> string \<Rightarrow> Switch \<Rightarrow> Issue list" where
  "validateEdgeNetwork nets e path h =
     (if eg_NetworkID e = [] then [NewIssue ''edge.network.required'' (path @ ''.networkId'')]
      else if map_of nets (eg_NetworkID e) = None then [NewIssue ''edge.network.unknown'' (path @ ''.networkId'')]
      else issue_if (eg_NetworkID e \<noteq> sw_NetworkID h) ''edge.network.mismatch'' (path @ ''.networkId''))"

definition validateRoute :: "string \<Rightarrow> Position list option \<Rightarrow> Issue list" where
  "validateRoute path route =
     (case route of
        None \<Rightarrow> []
      | Some ps \<Rightarrow>
          if length ps < 2 then [NewIssue ''edge.route.too-few'' path]
          else issue_if (\<not> list_all finite_position ps) ''edge.route.not-finite'' path)"

record edge_seen =
  es_IDs :: "string \<rightharpoonup> nat"
  es_Connected :: "string \<rightharpoonup> nat"

definition edge_id :: "unicase \<Rightarrow> nat \<Rightarrow> Edge \<Rightarrow> edge_seen \<Rightarrow> Issue list \<times> edge_seen" where
  "edge_id u i e s =
     (let path = item ''edges'' i @ ''.id'';
          here = doc_validateID path (eg_ID e) ''edge.id.required'' ''edge.id.invalid''
      in if blank (eg_ID e) then (here, s)
         else if es_IDs s (foldKey u (eg_ID e)) \<noteq> None then (here @ [NewIssue ''edge.id.duplicate'' path], s)
         else (here, s\<lparr>es_IDs := (es_IDs s)(foldKey u (eg_ID e) \<mapsto> i)\<rparr>))"

definition edge_join ::
  "(string \<times> BNetwork) list \<Rightarrow> nat \<Rightarrow> Edge \<Rightarrow> BNode \<Rightarrow> BNode \<Rightarrow> edge_seen \<Rightarrow> Issue list \<times> edge_seen" where
  "edge_join nets i e src target s =
     (let path = item ''edges'' i
      in if bn_ID src = bn_ID target then ([NewIssue ''edge.endpoints.same'' path], s)
         else
           (case edgeEndpoints src (eg_SourceHandleID e) target (eg_TargetHandleID e) of
              None \<Rightarrow> ([NewIssue ''edge.endpoints.invalid'' path], s)
            | Some (device, handle, sw) \<Rightarrow>
                if FindHandle (bn_Device device) handle = None then ([NewIssue ''edge.handle.unknown'' path], s)
                else
                  (let (is1, s1) =
                         (if es_Connected s handle \<noteq> None then ([NewIssue ''edge.interface.connected'' path], s)
                          else ([], s\<lparr>es_Connected := (es_Connected s)(handle \<mapsto> i)\<rparr>))
                   in (is1 @ (case bn_Switch sw of None \<Rightarrow> [] | Some h \<Rightarrow> validateEdgeNetwork nets e path h), s1))))"

definition edge_nodes ::
  "(string \<times> BNode) list \<Rightarrow> (string \<times> BNetwork) list \<Rightarrow> nat \<Rightarrow> Edge \<Rightarrow> edge_seen \<Rightarrow> Issue list \<times> edge_seen" where
  "edge_nodes L nets i e s =
     (let path = item ''edges'' i;
          src = map_of L (eg_SourceNodeID e); target = map_of L (eg_TargetNodeID e)
      in case (src, target) of
           (Some a, Some b) \<Rightarrow> edge_join nets i e a b s
         | _ \<Rightarrow>
             (issue_if (src = None) ''edge.source.unknown'' (path @ ''.sourceNodeId'')
              @ issue_if (target = None) ''edge.target.unknown'' (path @ ''.targetNodeId''), s))"

fun edge_loop ::
  "unicase \<Rightarrow> (string \<times> BNode) list \<Rightarrow> (string \<times> BNetwork) list \<Rightarrow> nat \<Rightarrow> edge_seen \<Rightarrow> Edge list \<Rightarrow> Issue list" where
  "edge_loop u L nets i s [] = []"
| "edge_loop u L nets i s (e # es) =
     (let (is1, s1) = edge_id u i e s;
          is2 = validateRoute (item ''edges'' i @ ''.route'') (eg_Route e)
                @ issue_if (line_style_bad (eg_LineStyle e)) ''edge.line-style.unknown'' (item ''edges'' i @ ''.lineStyle'');
          (is3, s2) = edge_nodes L nets i e s1
      in is1 @ is2 @ is3 @ edge_loop u L nets (Suc i) s2 es)"

definition validateEdges :: "unicase \<Rightarrow> (string \<times> BNode) list \<Rightarrow> (string \<times> BNetwork) list \<Rightarrow> BDocument \<Rightarrow> Issue list" where
  "validateEdges u L nets d = edge_loop u L nets 0 \<lparr>es_IDs = Map.empty, es_Connected = Map.empty\<rparr> (edges_of d)"

subsection \<open>Scenarios and the source\<close>

fun scenario_loop :: "unicase \<Rightarrow> nat \<Rightarrow> (string \<rightharpoonup> nat) \<Rightarrow> string list \<Rightarrow> Issue list" where
  "scenario_loop u i seen [] = []"
| "scenario_loop u i seen (name # names) =
     (let path = item ''scenarios'' i
      in if name = [] then NewIssue ''scenario.name.required'' path # scenario_loop u (Suc i) seen names
         else if length name > 256 then NewIssue ''scenario.name.too-long'' path # scenario_loop u (Suc i) seen names
         else if \<not> config_chars name then NewIssue ''scenario.name.invalid'' path # scenario_loop u (Suc i) seen names
         else if seen (foldKey u name) \<noteq> None
         then NewIssue ''scenario.name.duplicate'' path # scenario_loop u (Suc i) seen names
         else scenario_loop u (Suc i) (seen(foldKey u name \<mapsto> i)) names)"

definition validateScenarios :: "unicase \<Rightarrow> BDocument \<Rightarrow> Issue list" where
  "validateScenarios u d =
     issue_if (length (dc_Scenarios d) > 20) ''scenario.list.too-many'' ''scenarios''
     @ scenario_loop u 0 Map.empty (dc_Scenarios d)"

fun include_issues :: "string \<Rightarrow> nat \<Rightarrow> string list \<Rightarrow> Issue list" where
  "include_issues path i [] = []"
| "include_issues path i (name # names) =
     (if blank name then [NewIssue ''include.name.required'' (item path i)]
      else issue_if (hasNameSpace name) ''include.name.whitespace'' (item path i))
     @ include_issues path (Suc i) names"

definition annotationBytes :: "(string \<times> string) list \<Rightarrow> nat" where
  "annotationBytes m = sum_list (map (\<lambda>(k, v). length k + length v) m)"

definition annotationKeyProblem :: "string \<Rightarrow> string option" where
  "annotationKeyProblem key =
     (if blank key then Some ''source.annotation-key.blank''
      else if length key > 512 then Some ''source.annotation-key.too-long''
      else if has_control key then Some ''source.annotation-key.control''
      else None)"

definition validateAnnotations :: "(string \<times> string) list \<Rightarrow> Issue list" where
  "validateAnnotations m =
     issue_if (length m > 100) ''source.annotations.too-many'' ''source.annotations''
     @ issue_if (annotationBytes m > 256 * 1024) ''source.annotations.too-large'' ''source.annotations''
     @ concat (map (\<lambda>k. case annotationKeyProblem k of None \<Rightarrow> [] | Some c \<Rightarrow> [NewIssue c ''source.annotations'']) (sort (map fst m)))"

definition validateSource :: "BDocument \<Rightarrow> Issue list" where
  "validateSource d =
     (case dc_Source d of
        None \<Rightarrow> []
      | Some so \<Rightarrow>
          issue_if (so_Kind so \<notin> {''manual'', ''topology'', ''experiment''}) ''source.kind.unknown'' ''source.kind''
          @ include_issues ''source.includeTopologies'' 0 (so_IncludeTopologies so)
          @ include_issues ''source.unresolvedIncludes'' 0 (so_UnresolvedIncludes so)
          @ issue_if (so_Digest so \<noteq> [] \<and> \<not> IsDigest (so_Digest so)) ''source.digest.malformed'' ''source.digest''
          @ validateAnnotations (so_Annotations so))"

subsection \<open>Layers\<close>

definition matcher_path :: "string \<Rightarrow> bool" where
  "matcher_path field \<longleftrightarrow> list_all (\<lambda>k. k \<noteq> [] \<and> list_all (\<lambda>c. letter_digit c \<or> c \<in> set ''_-'') k) (split_on CHR ''.'' field)"

definition matcherPatternIssues :: "doc_env \<Rightarrow> string \<Rightarrow> string \<Rightarrow> Issue list" where
  "matcherPatternIssues E pattern path =
     (if pattern = [] then [NewIssue ''layer.matcher-pattern.required'' path]
      else if length pattern > 256 then [NewIssue ''layer.matcher-pattern.too-long'' path]
      else if \<not> de_regexp E pattern then [NewIssue ''layer.matcher-pattern.invalid'' path]
      else if nestedRepeat pattern then [NewIssue ''layer.matcher-pattern.invalid'' path]
      else issue_if (unboundedRepeats pattern > 3) ''layer.matcher-pattern.invalid'' path)"

definition matcherIssues :: "doc_env \<Rightarrow> (string \<times> string) list \<Rightarrow> string \<Rightarrow> Issue list" where
  "matcherIssues E matchers path =
     issue_if (length matchers > 16) ''layer.matchers.too-many'' path
     @ concat (map (\<lambda>field.
          (if length field > 128 then [NewIssue ''layer.matcher-path.too-long'' (path @ ''.'' @ field)]
           else issue_if (\<not> matcher_path field) ''layer.matcher-path.invalid'' (path @ ''.'' @ field))
          @ matcherPatternIssues E (the (map_of matchers field)) (path @ ''.'' @ field)) (sort (map fst matchers)))"

definition layerIssues :: "doc_env \<Rightarrow> Layer \<Rightarrow> string \<Rightarrow> Issue list" where
  "layerIssues E l path =
     (if blank (ly_Label l) then [NewIssue ''layer.label.required'' (path @ ''.label'')]
      else if length (ly_Label l) > 64 then [NewIssue ''layer.label.too-long'' (path @ ''.label'')]
      else issue_if (has_control (ly_Label l)) ''layer.label.control'' (path @ ''.label''))
     @ issue_if (iconKeyProblem (ly_IconKey l)) ''layer.icon-key.unknown'' (path @ ''.iconKey'')
     @ validateIconRef (ly_Icon l) (path @ ''.icon'') ''layer.icon.invalid''
     @ issue_if (colorProblem (ly_Color l)) ''layer.color.invalid'' (path @ ''.color'')
     @ matcherIssues E (ly_Matchers l) (path @ ''.matchers'')"

fun layer_loop :: "doc_env \<Rightarrow> string \<Rightarrow> nat \<Rightarrow> (int \<rightharpoonup> nat) \<Rightarrow> Layer list \<Rightarrow> Issue list" where
  "layer_loop E path i seen [] = []"
| "layer_loop E path i seen (l # ls) =
     (let p = item path i;
          (is1, seen1) =
            (case ly_ID l of
               None \<Rightarrow> ([NewIssue ''layer.id.out-of-range'' (p @ ''.id'')], seen)
             | Some n \<Rightarrow>
                 if \<not> isLayerID n then ([NewIssue ''layer.id.out-of-range'' (p @ ''.id'')], seen)
                 else if seen n \<noteq> None then ([NewIssue ''layer.id.duplicate'' (p @ ''.id'')], seen)
                 else ([], seen(n \<mapsto> i)))
      in is1 @ layerIssues E l p @ layer_loop E path (Suc i) seen1 ls)"

definition layerListIssues :: "doc_env \<Rightarrow> Layer list \<Rightarrow> string \<Rightarrow> Issue list" where
  "layerListIssues E layers path =
     issue_if (length layers > 32) ''layer.list.too-many'' path @ layer_loop E path 0 Map.empty layers"

definition matchConflictProblem :: "string \<Rightarrow> bool" where
  "matchConflictProblem r \<longleftrightarrow> r \<noteq> [] \<and> r \<notin> {''lowest'', ''highest''}"

definition IsLayerSetID :: "string \<Rightarrow> bool" where
  "IsLayerSetID i \<longleftrightarrow> i \<noteq> [] \<and> length i \<le> 128 \<and> list_all (\<lambda>c. letter_digit c \<or> c \<in> set ''_.:-'') i"

definition documentLayerSetIssues :: "DocumentLayerSet \<Rightarrow> Issue list" where
  "documentLayerSetIssues o' =
     (if length (ls_Name o') > 128 then [NewIssue ''layerset.name.too-long'' ''layerSet.name'']
      else issue_if (has_control (ls_Name o')) ''layerset.name.control'' ''layerSet.name'')
     @ issue_if (matchConflictProblem (ls_MatchConflict o')) ''layerset.match-conflict.unknown'' ''layerSet.matchConflict''
     @ (case ls_Source o' of
          None \<Rightarrow> []
        | Some (i, version) \<Rightarrow>
            issue_if (\<not> IsLayerSetID i) ''layerset.source-id.invalid'' ''layerSet.source.id''
            @ issue_if (version < 1) ''layerset.source-version.invalid'' ''layerSet.source.version'')"

definition validateLayers :: "doc_env \<Rightarrow> BDocument \<Rightarrow> Issue list" where
  "validateLayers E d =
     layerListIssues E (dc_Layers d) ''layers''
     @ (case dc_LayerSet d of None \<Rightarrow> [] | Some o' \<Rightarrow> documentLayerSetIssues o')"

subsection \<open>Templates and icons\<close>

definition template_source_id :: "string \<Rightarrow> bool" where
  "template_source_id i \<longleftrightarrow>
     i \<noteq> [] \<and> length i \<le> 128 \<and> letter_digit (hd i) \<and> list_all (\<lambda>c. letter_digit c \<or> c \<in> set ''._-'') (tl i)"

definition TemplateSource_issues :: "TemplateSource \<Rightarrow> string \<Rightarrow> Issue list" where
  "TemplateSource_issues s path =
     issue_if (tsr_Kind s \<notin> {''library'', ''builtin'', ''preloaded''}) ''template.source.kind-unknown'' (path @ ''.kind'')
     @ issue_if (\<not> template_source_id (tsr_ID s)) ''template.source.id-invalid'' (path @ ''.id'')
     @ issue_if (tsr_Version s < 1) ''template.source.version-invalid'' (path @ ''.version'')
     @ issue_if (tsr_Digest s \<noteq> [] \<and> \<not> IsDigest (tsr_Digest s)) ''template.source.digest-invalid'' (path @ ''.digest'')"

definition template_hostname :: "TemplateDevice \<Rightarrow> string \<Rightarrow> Issue list" where
  "template_hostname v path =
     (case td_Spec v of
        None \<Rightarrow> [NewIssue ''template.spec.required'' (path @ ''.device.spec'')]
      | Some sp \<Rightarrow>
          (let hostname = specString sp [''general'', ''hostname'']
           in if blank hostname then [NewIssue ''template.hostname.required'' (path @ ''.device.spec.general.hostname'')]
              else issue_if (hasNameSpace hostname) ''template.hostname.whitespace'' (path @ ''.device.spec.general.hostname'')))"

definition Template_Issues :: "doc_env \<Rightarrow> Template \<Rightarrow> string \<Rightarrow> Issue list" where
  "Template_Issues E t path =
     (let v = tp_Device t
      in (if blank (tp_Name t) then [NewIssue ''template.name.required'' (path @ ''.name'')]
          else if length (tp_Name t) > 128 then [NewIssue ''template.name.too-long'' (path @ ''.name'')]
          else issue_if (has_control (tp_Name t)) ''template.name.control'' (path @ ''.name''))
         @ (if length (tp_Description t) > 1024 then [NewIssue ''template.description.too-long'' (path @ ''.description'')]
            else issue_if (has_control (tp_Description t)) ''template.description.control'' (path @ ''.description''))
         @ template_hostname v path
         @ issue_if (iconKeyProblem (td_IconKey v)) ''template.icon-key.unknown'' (path @ ''.device.iconKey'')
         @ validateIconRef (td_Icon v) (path @ ''.device.icon'') ''template.icon.invalid''
         @ issue_if (iconSizeProblem (td_IconSize v)) ''template.icon-size.unknown'' (path @ ''.device.iconSize'')
         @ issue_if (colorProblem (td_OutlineColor v)) ''template.color.invalid'' (path @ ''.device.outlineColor'')
         @ issue_if (colorProblem (td_FillColor v)) ''template.color.invalid'' (path @ ''.device.fillColor'')
         @ issue_if (layerProblem (td_Layer v)) ''template.layer.out-of-range'' (path @ ''.device.layer'')
         @ (case de_size E v of
              None \<Rightarrow> [NewIssue ''template.device.unencodable'' (path @ ''.device'')]
            | Some n \<Rightarrow> issue_if (n > 16 * 1024) ''template.device.too-large'' (path @ ''.device''))
         @ (case tp_Source t of None \<Rightarrow> [] | Some s \<Rightarrow> TemplateSource_issues s (path @ ''.source'')))"

fun template_loop :: "doc_env \<Rightarrow> nat \<Rightarrow> (string \<rightharpoonup> nat) \<Rightarrow> Template list \<Rightarrow> Issue list" where
  "template_loop E i seen [] = []"
| "template_loop E i seen (t # ts) =
     (let path = item ''templates'' i;
          key = foldKey (de_case E) (tp_ID t);
          here = doc_validateID (path @ ''.id'') (tp_ID t) ''template.id.required'' ''template.id.invalid'';
          (is1, seen1) =
            (if blank (tp_ID t) then (here, seen)
             else if seen key \<noteq> None then (here @ [NewIssue ''template.id.duplicate'' (path @ ''.id'')], seen)
             else (here, seen(key \<mapsto> i)))
      in is1 @ Template_Issues E t path @ template_loop E (Suc i) seen1 ts)"

definition validateTemplates :: "doc_env \<Rightarrow> BDocument \<Rightarrow> Issue list" where
  "validateTemplates E d =
     issue_if (length (dc_Templates d) > 50) ''template.list.too-many'' ''templates'' @ template_loop E 0 Map.empty (dc_Templates d)"

definition checkPixelData :: "doc_env \<Rightarrow> nat list \<Rightarrow> bool" where
  "checkPixelData E joined \<longleftrightarrow> de_zlib E joined = Some 0"

definition ValidateIconPNG :: "doc_env \<Rightarrow> nat list \<Rightarrow> (nat \<times> nat) option" where
  "ValidateIconPNG E data =
     (case iconChunks data of
        None \<Rightarrow> None
      | Some (width, height, pixels) \<Rightarrow>
          if de_png E data \<and> checkPixelData E pixels then Some (width, height) else None)"

definition ValidateIcons :: "doc_env \<Rightarrow> (string \<times> string) list \<Rightarrow> string \<Rightarrow> Issue list" where
  "ValidateIcons E icons path =
     issue_if (length icons > 50) ''icon.list.too-many'' path
     @ concat (map (\<lambda>key.
          issue_if (IconNameProblem key) ''icon.name.invalid'' path
          @ (case decodeIconData (the (map_of icons key)) of
               None \<Rightarrow> [NewIssue ''icon.data.invalid'' path]
             | Some data \<Rightarrow> issue_if (ValidateIconPNG E data = None) ''icon.png.invalid'' path))
        (sort (map fst icons)))"

subsection \<open>The document\<close>

text \<open>The element that the path of an issue starts at: \<^verbatim>\<open>nodes\<close>, \<^verbatim>\<open>edges\<close> or \<^verbatim>\<open>networks\<close>, and an index.\<close>

definition elementPath :: "string \<Rightarrow> (string \<times> nat) option" where
  "elementPath path =
     (case find (\<lambda>k. prefix (k @ ''['') path) [''nodes'', ''edges'', ''networks''] of
        None \<Rightarrow> None
      | Some k \<Rightarrow>
          (let rest = drop (Suc (length k)) path; digits = takeWhile is_digit rest
           in if digits \<noteq> [] \<and> prefix '']'' (dropWhile is_digit rest)
              then Some (k, foldl (\<lambda>v c. 10 * v + (code_of c - 48)) 0 digits) else None))"

definition locateIssue :: "BDocument \<Rightarrow> Issue \<Rightarrow> Issue" where
  "locateIssue d p =
     (case elementPath (is_Path p) of
        None \<Rightarrow> p
      | Some (k, i) \<Rightarrow>
          if k = ''nodes'' then
            (if i < length (nodes_of d) \<and> is_NodeID p = [] \<and> \<not> blank (bn_ID (nodes_of d ! i))
             then p\<lparr>is_NodeID := bn_ID (nodes_of d ! i)\<rparr> else p)
          else if k = ''edges'' then
            (if i < length (edges_of d) \<and> is_EdgeID p = [] \<and> \<not> blank (eg_ID (edges_of d ! i))
             then p\<lparr>is_EdgeID := eg_ID (edges_of d ! i)\<rparr> else p)
          else
            (if i < length (networks_of d) \<and> is_NetworkID p = [] \<and> \<not> blank (bw_ID (networks_of d ! i))
             then p\<lparr>is_NetworkID := bw_ID (networks_of d ! i)\<rparr> else p))"

definition LocateIssues :: "BDocument \<Rightarrow> Issue list \<Rightarrow> Issue list" where
  "LocateIssues d = map (locateIssue d)"

text \<open>The issues found; none is a valid document.\<close>

definition document_issues :: "doc_env \<Rightarrow> BDocument \<Rightarrow> Issue list" where
  "document_issues E d =
     (let (nets, s) = validateNetworks (de_case E) d;
          (nodes, t) = validateNodes (de_case E) d (ns_byID s)
      in validateHeader E d @ nets @ nodes @ validateParents (ds_byID t) d
         @ validateEdges (de_case E) (ds_byID t) (ns_byID s) d
         @ validateScenarios (de_case E) d @ validateLayers E d @ validateSource d @ validateTemplates E d
         @ ValidateIcons E (dc_Icons d) ''icons'')"

definition Validate :: "doc_env \<Rightarrow> BDocument \<Rightarrow> Issue list" where
  "Validate E d = LocateIssues d (sort_key is_Path (document_issues E d))"

end
