(* ===== verification/Builder_Valid.thy ===== *)
theory Builder_Valid
  imports Builder_Check
begin

section \<open>What a valid Builder document is\<close>

text \<open>
  What the checks of \<^verbatim>\<open>Builder_Check\<close> establish: the conditions under which each loop finds nothing, the
  chains of parents, and the properties of a document without issues.
\<close>

named_theorems issue_simps \<open>when a check finds nothing\<close>

lemma issue_if_Nil [issue_simps]: "issue_if b code path = [] \<longleftrightarrow> \<not> b"
  by (simp add: issue_if_def)

lemma validateID_Nil [issue_simps]: "doc_validateID path i required invalid = [] \<longleftrightarrow> \<not> blank i \<and> IsUUID i"
  by (simp add: doc_validateID_def issue_simps)

lemma iconRef_Nil [issue_simps]: "validateIconRef name path code = [] \<longleftrightarrow> name = [] \<or> \<not> IconNameProblem name"
  by (auto simp: validateIconRef_def issue_simps)

lemma conj_when: "a \<longrightarrow> (b \<longleftrightarrow> c) \<Longrightarrow> (a \<and> l \<and> b) = (a \<and> l \<and> c)"
  by blast

text \<open>The keys \<open>ks\<close> are distinct, and none is one of those seen.\<close>

definition new_keys :: "'k set \<Rightarrow> 'k list \<Rightarrow> bool" where
  "new_keys seen ks \<longleftrightarrow> distinct ks \<and> set ks \<inter> seen = {}"

lemma new_keys_simps [simp]:
  "new_keys seen []" "new_keys seen (k # ks) \<longleftrightarrow> k \<notin> seen \<and> new_keys (insert k seen) ks"
  "new_keys seen (ks @ ls) \<longleftrightarrow> new_keys seen ks \<and> new_keys (set ks \<union> seen) ls"
  "new_keys {} ks \<longleftrightarrow> distinct ks"
  by (auto simp: new_keys_def)

subsection \<open>Chains of parents\<close>

text \<open>The chain of parents from an ID ends: at an ID that no node has, or at a node without a parent.\<close>

inductive parent_ends :: "(string \<times> BNode) list \<Rightarrow> string \<Rightarrow> bool" for L where
  no_node: "map_of L i = None \<Longrightarrow> parent_ends L i"
| no_parent: "map_of L i = Some n \<Longrightarrow> bn_ParentID n = [] \<Longrightarrow> parent_ends L i"
| parent: "map_of L i = Some n \<Longrightarrow> parent_ends L (bn_ParentID n) \<Longrightarrow> parent_ends L i"

definition parent_of :: "(string \<times> BNode) list \<Rightarrow> (string \<times> string) set" where
  "parent_of L = {(i, bn_ParentID n) | i n. map_of L i = Some n \<and> bn_ParentID n \<noteq> []}"

lemma parent_of_ends: "(i, j) \<in> parent_of L \<Longrightarrow> parent_ends L i \<longleftrightarrow> parent_ends L j"
  by (auto simp: parent_of_def intro: parent elim: parent_ends.cases)

lemma parents_end: "(i, j) \<in> (parent_of L)\<^sup>+ \<Longrightarrow> parent_ends L i \<longleftrightarrow> parent_ends L j"
  by (induction rule: trancl_induct) (auto simp: parent_of_ends)

lemma end_not_cyclic: "parent_ends L i \<Longrightarrow> (i, i) \<notin> (parent_of L)\<^sup>+"
proof (induction rule: parent_ends.induct)
  case (parent i n)
  show ?case
  proof
    assume "(i, i) \<in> (parent_of L)\<^sup>+"
    then obtain j where j: "(i, j) \<in> parent_of L" "(j, i) \<in> (parent_of L)\<^sup>*" by (meson tranclD)
    then have "j = bn_ParentID n" using parent.hyps(1) by (auto simp: parent_of_def)
    then show False using j parent.IH by (metis rtrancl_into_trancl1)
  qed
qed (auto simp: parent_of_def dest: tranclD)

text \<open>What the states say: the results kept are right, and the nodes of the walk in progress are marked.\<close>

definition states_ok :: "(string \<times> BNode) list \<Rightarrow> (string \<Rightarrow> chainState) \<Rightarrow> string list \<Rightarrow> bool" where
  "states_ok L states walk \<longleftrightarrow>
     (\<forall>k. (states k = chainEnds \<longrightarrow> parent_ends L k) \<and> (states k = chainCycles \<longrightarrow> \<not> parent_ends L k)
        \<and> (states k = chainWalking \<longleftrightarrow> k \<in> set walk))"

lemma chain_walk_law:
  "states_ok L states walk \<Longrightarrow> \<forall>k \<in> set walk. (k, i) \<in> (parent_of L)\<^sup>+ \<Longrightarrow> chain_walk L i states walk = (state, states', walk') \<Longrightarrow>
   state = (if parent_ends L i then chainEnds else chainCycles) \<and> states_ok L states' walk'
   \<and> (\<forall>k \<in> set walk'. parent_ends L k \<longleftrightarrow> parent_ends L i)"
proof (induction L i states walk rule: chain_walk.induct)
  case (1 L i states walk)
  have same: "\<forall>k \<in> set walk. parent_ends L k \<longleftrightarrow> parent_ends L i" using 1(3) parents_end by blast
  show ?case
  proof (cases "map_of L i")
    case None
    then show ?thesis using 1(2,4) same by (auto simp: chain_walk.simps no_node)
  next
    case (Some n)
    show ?thesis
    proof (cases "states i = chainUnknown")
      case False
      then have r: "state = (if states i = chainWalking then chainCycles else states i)" "states' = states" "walk' = walk"
        using 1(4) Some by (auto simp: chain_walk.simps)
      have "states i = chainWalking \<Longrightarrow> \<not> parent_ends L i"
        using 1(2,3) end_not_cyclic[of L i] by (auto simp: states_ok_def)
      then show ?thesis using r False 1(2) same by (cases "states i") (auto simp: states_ok_def)
    next
      case True
      have ok: "states_ok L (states(i := chainWalking)) (walk @ [i])" using 1(2) True by (auto simp: states_ok_def)
      show ?thesis
      proof (cases "bn_ParentID n = []")
        case True
        then show ?thesis using 1(4) Some \<open>states i = chainUnknown\<close> ok same no_parent[OF Some]
          by (auto simp: chain_walk.simps)
      next
        case False
        let ?p = "bn_ParentID n"
        have step: "(i, ?p) \<in> parent_of L" using Some False by (auto simp: parent_of_def)
        have run: "chain_walk L ?p (states(i := chainWalking)) (walk @ [i]) = (state, states', walk')"
          using 1(4) Some True False by (simp add: chain_walk.simps[of L i])
        have "\<forall>k \<in> set (walk @ [i]). (k, ?p) \<in> (parent_of L)\<^sup>+"
          using 1(3) step by (auto intro: trancl_into_trancl)
        moreover have "\<not> states i \<noteq> chainUnknown" using True by simp
        ultimately show ?thesis using 1(1)[OF Some _ False ok _ run] parent_of_ends[OF step] by simp
      qed
    qed
  qed
qed

lemma mark_states: "foldl (\<lambda>s k. s(k := state)) states walk = (\<lambda>k. if k \<in> set walk then state else states k)"
  by (induction walk arbitrary: states) (auto simp: fun_eq_iff)

lemma parentCycle_law:
  assumes "states_ok L states []" and "parentCycle L i states = (cyclic, states')"
  shows "cyclic = (\<not> parent_ends L i) \<and> states_ok L states' []"
proof -
  obtain state states1 walk where w: "chain_walk L i states [] = (state, states1, walk)" by (metis prod_cases3)
  have law: "state = (if parent_ends L i then chainEnds else chainCycles)" "states_ok L states1 walk"
      "\<forall>k \<in> set walk. parent_ends L k \<longleftrightarrow> parent_ends L i"
    using chain_walk_law[OF assms(1) _ w] by simp_all
  then have "states_ok L (\<lambda>k. if k \<in> set walk then state else states1 k) []" by (auto simp: states_ok_def)
  then show ?thesis using assms(2) w law(1) by (auto simp: parentCycle_def mark_states split: if_splits)
qed

lemma parent_loop_Nil:
  "states_ok L states [] \<Longrightarrow> parent_loop L i states ns = [] \<longleftrightarrow>
   (\<forall>n \<in> set ns. bn_ParentID n = [] \<or>
      (bn_ParentID n \<noteq> bn_ID n \<and> (\<exists>p. map_of L (bn_ParentID n) = Some p \<and> bn_Kind p = NodeKindGroup) \<and> parent_ends L (bn_ParentID n)))"
proof (induction L i states ns rule: parent_loop.induct)
  case (2 L i states n ns)
  obtain is1 states1 where p: "parent_issues L i n states = (is1, states1)" by fastforce
  obtain cyclic st where c: "parentCycle L (bn_ParentID n) states = (cyclic, st)" by fastforce
  note law = parentCycle_law[OF 2(2) c]
  have "states_ok L states1 []"
    using p c law 2(2) by (auto simp: parent_issues_def Let_def split: if_splits option.splits)
  moreover have "is1 = [] \<longleftrightarrow> bn_ParentID n = [] \<or> (bn_ParentID n \<noteq> bn_ID n
      \<and> (\<exists>p. map_of L (bn_ParentID n) = Some p \<and> bn_Kind p = NodeKindGroup) \<and> parent_ends L (bn_ParentID n))"
    using p c law by (auto simp: parent_issues_def Let_def issue_simps split: if_splits option.splits)
  ultimately show ?case using 2(1)[OF p[symmetric] refl] p by simp
qed simp

subsection \<open>Networks\<close>

definition aliases_of :: "BNetwork list \<Rightarrow> int list" where
  "aliases_of ns = List.map_filter bw_Alias ns"

lemma aliases_of_simps [simp]:
  "aliases_of [] = []" "aliases_of (n # ns) = (case bw_Alias n of None \<Rightarrow> aliases_of ns | Some a \<Rightarrow> a # aliases_of ns)"
  by (simp_all add: aliases_of_def map_filter_simps split: option.split)

text \<open>What is checked of a network by itself.\<close>

definition network_ok :: "BNetwork \<Rightarrow> bool" where
  "network_ok n \<longleftrightarrow>
     \<not> blank (bw_ID n) \<and> IsUUID (bw_ID n) \<and> \<not> blank (bw_Name n) \<and> \<not> hasNameSpace (bw_Name n)
     \<and> \<not> line_style_bad (bw_LineStyle n)
     \<and> (bw_Subnet n = [] \<or> ParseSubnet (bw_Subnet n) \<noteq> None)
     \<and> (bw_Gateway n = [] \<or> (\<exists>g. parse_ipv4 (bw_Gateway n) = Some g
          \<and> (\<forall>p. bw_Subnet n \<noteq> [] \<longrightarrow> ParseSubnet (bw_Subnet n) = Some p \<longrightarrow> IsSubnetHost p g)))
     \<and> (case bw_Alias n of None \<Rightarrow> True | Some a \<Rightarrow> 1 \<le> a \<and> a \<le> 4094)"

lemma addressing_Nil [issue_simps]:
  "validateNetworkAddressing n path = [] \<longleftrightarrow>
     (bw_Subnet n = [] \<or> ParseSubnet (bw_Subnet n) \<noteq> None)
     \<and> (bw_Gateway n = [] \<or> (\<exists>g. parse_ipv4 (bw_Gateway n) = Some g
          \<and> (\<forall>p. bw_Subnet n \<noteq> [] \<longrightarrow> ParseSubnet (bw_Subnet n) = Some p \<longrightarrow> IsSubnetHost p g)))"
  by (auto simp: validateNetworkAddressing_def Let_def issue_simps split: option.splits)

lemma network_loop_Nil:
  "fst (network_loop u i s ns) = [] \<longleftrightarrow>
     (\<forall>n \<in> set ns. network_ok n) \<and> new_keys (dom (ns_IDs s)) (map (\<lambda>n. foldKey u (bw_ID n)) ns)
     \<and> new_keys (dom (ns_Names s)) (map bw_Name ns) \<and> new_keys (dom (ns_Aliases s)) (aliases_of ns)"
proof (induction ns arbitrary: i s)
  case (Cons n ns)
  obtain is1 s1 where 1: "network_id u i n s = (is1, s1)" by fastforce
  obtain is2 s2 where 2: "network_name i n s1 = (is2, s2)" by fastforce
  obtain is4 s3 where 3: "network_alias i n s2 = (is4, s3)" by fastforce
  have r1: "is1 = [] \<longleftrightarrow> \<not> blank (bw_ID n) \<and> IsUUID (bw_ID n) \<and> foldKey u (bw_ID n) \<notin> dom (ns_IDs s)"
    using 1 by (auto simp: network_id_def Let_def issue_simps split: if_splits)
  have r2: "is2 = [] \<longleftrightarrow> \<not> blank (bw_Name n) \<and> \<not> hasNameSpace (bw_Name n) \<and> bw_Name n \<notin> dom (ns_Names s1)"
    using 2 by (auto simp: network_name_def Let_def split: if_splits)
  have r3: "is4 = [] \<longleftrightarrow> (case bw_Alias n of None \<Rightarrow> True | Some a \<Rightarrow> 1 \<le> a \<and> a \<le> 4094 \<and> a \<notin> dom (ns_Aliases s2))"
    using 3 by (auto simp: network_alias_def Let_def split: if_splits option.splits)
  have u1: "is1 = [] \<Longrightarrow> dom (ns_IDs s1) = insert (foldKey u (bw_ID n)) (dom (ns_IDs s))"
    using 1 r1 by (auto simp: network_id_def Let_def)
  have u2: "is2 = [] \<Longrightarrow> dom (ns_Names s2) = insert (bw_Name n) (dom (ns_Names s1))"
    using 2 r2 by (auto simp: network_name_def Let_def)
  have u3: "is4 = [] \<Longrightarrow> dom (ns_Aliases s3) = (case bw_Alias n of None \<Rightarrow> {} | Some a \<Rightarrow> {a}) \<union> dom (ns_Aliases s2)"
    using 3 r3 by (auto simp: network_alias_def Let_def split: option.splits)
  have same: "ns_Names s1 = ns_Names s" "ns_Aliases s2 = ns_Aliases s" "ns_IDs s3 = ns_IDs s1" "ns_Names s3 = ns_Names s2"
    subgoal using 1 by (auto simp: network_id_def Let_def split: if_splits)
    subgoal using 1 2 by (auto simp: network_id_def network_name_def Let_def split: if_splits)
    subgoal using 2 3 by (auto simp: network_name_def network_alias_def Let_def split: if_splits option.splits)
    subgoal using 3 by (auto simp: network_alias_def Let_def split: if_splits option.splits)
    done
  have here: "fst (network_loop u i s (n # ns)) = [] \<longleftrightarrow> (is1 = [] \<and> is2 = [] \<and> is4 = []) \<and> (\<not> line_style_bad (bw_LineStyle n)
      \<and> validateNetworkAddressing n (item ''networks'' i) = []) \<and> fst (network_loop u (Suc i) s3 ns) = []"
    using 1 2 3 by (auto simp: issue_simps split: prod.splits)
  have rest: "is1 = [] \<and> is2 = [] \<and> is4 = [] \<longrightarrow> (fst (network_loop u (Suc i) s3 ns) = [] \<longleftrightarrow> (\<forall>m \<in> set ns. network_ok m)
      \<and> new_keys (insert (foldKey u (bw_ID n)) (dom (ns_IDs s))) (map (\<lambda>m. foldKey u (bw_ID m)) ns)
      \<and> new_keys (insert (bw_Name n) (dom (ns_Names s))) (map bw_Name ns)
      \<and> new_keys ((case bw_Alias n of None \<Rightarrow> {} | Some a \<Rightarrow> {a}) \<union> dom (ns_Aliases s)) (aliases_of ns))"
    unfolding Cons.IH using u1 u2 u3 same by simp
  show ?case unfolding here conj_when[OF rest] unfolding r1 r2 r3 same
    by (cases "bw_Alias n") (simp_all add: network_ok_def addressing_Nil, blast+)
qed simp

lemma network_loop_byID:
  "fst (network_loop u i s ns) = [] \<Longrightarrow> ns_byID (snd (network_loop u i s ns)) = ns_byID s @ map (\<lambda>n. (bw_ID n, n)) ns"
proof (induction ns arbitrary: i s)
  case (Cons n ns)
  obtain is1 s1 where 1: "network_id u i n s = (is1, s1)" by fastforce
  obtain is2 s2 where 2: "network_name i n s1 = (is2, s2)" by fastforce
  obtain is4 s3 where 3: "network_alias i n s2 = (is4, s3)" by fastforce
  have nil: "is1 = []" "fst (network_loop u (Suc i) s3 ns) = []" using Cons.prems 1 2 3 by (auto split: prod.splits)
  have "ns_byID s1 = ns_byID s @ [(bw_ID n, n)]"
    using 1 nil(1) by (auto simp: network_id_def Let_def doc_validateID_def split: if_splits)
  moreover have "ns_byID s2 = ns_byID s1" using 2 by (auto simp: network_name_def Let_def split: if_splits)
  moreover have "ns_byID s3 = ns_byID s2" using 3 by (auto simp: network_alias_def Let_def split: if_splits option.splits)
  ultimately show ?case using Cons.IH[OF nil(2)] 1 2 3 by (auto split: prod.splits)
qed simp

subsection \<open>Nodes\<close>

definition handle_ok :: "InterfaceHandle \<Rightarrow> bool" where
  "handle_ok h \<longleftrightarrow> \<not> blank (ih_ID h) \<and> IsUUID (ih_ID h) \<and> \<not> blank (ih_Name h)"

lemma handle_loop_Nil:
  "fst (handle_loop u path owner j names owners hs) = [] \<longleftrightarrow>
     (\<forall>h \<in> set hs. handle_ok h) \<and> new_keys (dom owners) (map (\<lambda>h. foldKey u (ih_ID h)) hs)
     \<and> new_keys (dom names) (map (\<lambda>h. foldKey u (ih_Name h)) hs)"
proof (induction hs arbitrary: j names owners)
  case (Cons h hs)
  let ?hp = "item (path @ ''.device.interfaces'') j"
  obtain is1 owners1 where 1: "handle_id u ?hp owner h owners = (is1, owners1)" by fastforce
  obtain is2 names1 where 2: "handle_name u ?hp j h names = (is2, names1)" by fastforce
  have r1: "is1 = [] \<longleftrightarrow> \<not> blank (ih_ID h) \<and> IsUUID (ih_ID h) \<and> foldKey u (ih_ID h) \<notin> dom owners"
    using 1 by (auto simp: handle_id_def Let_def issue_simps split: if_splits)
  have r2: "is2 = [] \<longleftrightarrow> \<not> blank (ih_Name h) \<and> foldKey u (ih_Name h) \<notin> dom names"
    using 2 by (auto simp: handle_name_def split: if_splits)
  have u1: "is1 = [] \<Longrightarrow> dom owners1 = insert (foldKey u (ih_ID h)) (dom owners)"
    using 1 r1 by (auto simp: handle_id_def Let_def)
  have u2: "is2 = [] \<Longrightarrow> dom names1 = insert (foldKey u (ih_Name h)) (dom names)"
    using 2 r2 by (auto simp: handle_name_def)
  have here: "fst (handle_loop u path owner j names owners (h # hs)) = [] \<longleftrightarrow>
      (is1 = [] \<and> is2 = []) \<and> True \<and> fst (handle_loop u path owner (Suc j) names1 owners1 hs) = []"
    using 1 2 by (auto split: prod.splits)
  have rest: "is1 = [] \<and> is2 = [] \<longrightarrow> (fst (handle_loop u path owner (Suc j) names1 owners1 hs) = [] \<longleftrightarrow> (\<forall>h \<in> set hs. handle_ok h)
      \<and> new_keys (insert (foldKey u (ih_ID h)) (dom owners)) (map (\<lambda>h. foldKey u (ih_ID h)) hs)
      \<and> new_keys (insert (foldKey u (ih_Name h)) (dom names)) (map (\<lambda>h. foldKey u (ih_Name h)) hs))"
    unfolding Cons.IH using u1 u2 by simp
  show ?case unfolding here conj_when[OF rest] unfolding r1 r2 by (simp add: handle_ok_def, blast)
qed simp

lemma handle_loop_owners:
  "fst (handle_loop u path owner j names owners hs) = [] \<Longrightarrow>
   dom (snd (handle_loop u path owner j names owners hs)) = (\<lambda>h. foldKey u (ih_ID h)) ` set hs \<union> dom owners"
proof (induction hs arbitrary: j names owners)
  case (Cons h hs)
  let ?hp = "item (path @ ''.device.interfaces'') j"
  obtain is1 owners1 where 1: "handle_id u ?hp owner h owners = (is1, owners1)" by fastforce
  obtain is2 names1 where 2: "handle_name u ?hp j h names = (is2, names1)" by fastforce
  have nil: "is1 = []" "fst (handle_loop u path owner (Suc j) names1 owners1 hs) = []"
    using Cons.prems 1 2 by (auto split: prod.splits)
  have "dom owners1 = insert (foldKey u (ih_ID h)) (dom owners)"
    using 1 nil(1) by (auto simp: handle_id_def Let_def doc_validateID_def split: if_splits)
  then show ?case using Cons.IH[OF nil(2)] 1 2 by (simp add: case_prod_unfold Let_def)
qed simp

text \<open>What is checked of a device, a kind and a node by themselves.\<close>

definition device_ok :: "unicase \<Rightarrow> BDocument \<Rightarrow> Device \<Rightarrow> bool" where
  "device_ok u d v \<longleftrightarrow>
     \<not> blank (dv_Hostname v) \<and> \<not> hasNameSpace (dv_Hostname v) \<and> (\<forall>h \<in> set (dv_Interfaces v). handle_ok h)
     \<and> distinct (map (\<lambda>h. foldKey u (ih_Name h)) (dv_Interfaces v)) \<and> device_fields d v [] = []"

definition kind_ok :: "unicase \<Rightarrow> BDocument \<Rightarrow> (string \<times> BNetwork) list \<Rightarrow> BNode \<Rightarrow> bool" where
  "kind_ok u d nets n \<longleftrightarrow>
     (case bn_Kind n of
        NodeKindDevice \<Rightarrow> \<forall>v. bn_Device n = Some v \<longrightarrow> device_ok u d v
      | NodeKindSwitch \<Rightarrow> \<forall>h. bn_Switch n = Some h \<longrightarrow> validateSwitch nets h [] = []
      | NodeKindGroup \<Rightarrow> \<forall>g. bn_Group n = Some g \<longrightarrow> validateGroup g [] = []
      | NodeKindShape \<Rightarrow> \<forall>f. bn_Shape n = Some f \<longrightarrow> validateShape f [] = []
      | NodeKindIcon \<Rightarrow> \<forall>f. bn_Icon n = Some f \<longrightarrow> validateIconNode f [] = []
      | NodeKindLine \<Rightarrow> \<forall>l. bn_Line n = Some l \<longrightarrow> validateLine l [] = []
      | _ \<Rightarrow> True)"

definition payload_ok :: "BNode \<Rightarrow> bool" where
  "payload_ok n \<longleftrightarrow>
     bn_Kind n \<in> fst ` set (payloads n) \<and> (\<forall>(k, present) \<in> set (payloads n). present \<longleftrightarrow> k = bn_Kind n)
     \<and> (\<forall>v. bn_Kind n = NodeKindDevice \<longrightarrow> bn_Device n = Some v \<longrightarrow> dv_Spec v \<noteq> None)"

definition doc_node_ok :: "unicase \<Rightarrow> BDocument \<Rightarrow> (string \<times> BNetwork) list \<Rightarrow> BNode \<Rightarrow> bool" where
  "doc_node_ok u d nets n \<longleftrightarrow>
     \<not> blank (bn_ID n) \<and> IsUUID (bn_ID n) \<and> node_place 0 n = [] \<and> payload_ok n \<and> kind_ok u d nets n"

lemma device_fields_Nil: "device_fields d v path = [] \<longleftrightarrow> device_fields d v [] = []"
  by (auto simp: device_fields_def validateIncludedFrom_def issue_simps)

lemma switch_Nil: "validateSwitch nets h path = [] \<longleftrightarrow> validateSwitch nets h [] = []"
  by (auto simp: validateSwitch_def issue_simps)

lemma group_Nil: "validateGroup g path = [] \<longleftrightarrow> validateGroup g [] = []"
  by (auto simp: validateGroup_def issue_simps)

lemma shape_Nil: "validateShape f path = [] \<longleftrightarrow> validateShape f [] = []"
  by (auto simp: validateShape_def issue_simps)

lemma icon_Nil: "validateIconNode f path = [] \<longleftrightarrow> validateIconNode f [] = []"
  by (auto simp: validateIconNode_def issue_simps)

lemma line_Nil: "validateLine l path = [] \<longleftrightarrow> validateLine l [] = []"
  by (auto simp: validateLine_def issue_simps)

lemma place_Nil: "node_place i n = [] \<longleftrightarrow> node_place 0 n = []"
  by (auto simp: node_place_def issue_simps split: option.split)

lemma payload_Nil: "validateNodePayload n path = [] \<longleftrightarrow> payload_ok n"
  unfolding validateNodePayload_def payload_ok_def
  by (auto simp: issue_simps split: option.split)

text \<open>The devices of nodes, and the interface handles of devices.\<close>

definition devices_of :: "BNode list \<Rightarrow> Device list" where
  "devices_of ns = concat (map (\<lambda>n. if bn_Kind n = NodeKindDevice then case bn_Device n of None \<Rightarrow> [] | Some v \<Rightarrow> [v] else []) ns)"

definition handles_of :: "Device list \<Rightarrow> InterfaceHandle list" where
  "handles_of vs = concat (map dv_Interfaces vs)"

abbreviation hostnames :: "unicase \<Rightarrow> BNode list \<Rightarrow> string list" where
  "hostnames u ns \<equiv> map (\<lambda>v. foldKey u (dv_Hostname v)) (devices_of ns)"

abbreviation handle_ids :: "unicase \<Rightarrow> BNode list \<Rightarrow> string list" where
  "handle_ids u ns \<equiv> map (\<lambda>h. foldKey u (ih_ID h)) (handles_of (devices_of ns))"

lemma devices_of_simps [simp]:
  "devices_of [] = []" "handles_of [] = []" "handles_of (v # vs) = dv_Interfaces v @ handles_of vs"
  "devices_of (n # ns) = devices_of [n] @ devices_of ns" "handles_of (vs @ ws) = handles_of vs @ handles_of ws"
  by (simp_all add: devices_of_def handles_of_def)

declare devices_of_simps(4) [simp del]

lemma device_law:
  assumes "validateDevice u d n v path i s = (is, s1)"
  shows "is = [] \<longleftrightarrow> device_ok u d v \<and> foldKey u (dv_Hostname v) \<notin> dom (ds_Hostnames s)
      \<and> new_keys (dom (ds_Owners s)) (map (\<lambda>h. foldKey u (ih_ID h)) (dv_Interfaces v))"
    and "is = [] \<Longrightarrow> dom (ds_Hostnames s1) = insert (foldKey u (dv_Hostname v)) (dom (ds_Hostnames s))"
    and "is = [] \<Longrightarrow> dom (ds_Owners s1) = (\<lambda>h. foldKey u (ih_ID h)) ` set (dv_Interfaces v) \<union> dom (ds_Owners s)"
    and "ds_IDs s1 = ds_IDs s" "ds_byID s1 = ds_byID s"
proof -
  obtain is1 hosts1 where 1: "device_hostname u (dv_Hostname v) path i (ds_Hostnames s) = (is1, hosts1)" by fastforce
  let ?loop = "handle_loop u path (bn_ID n) 0 Map.empty (ds_Owners s) (dv_Interfaces v)"
  have eq: "is = is1 @ fst ?loop @ device_fields d v path" "s1 = s\<lparr>ds_Hostnames := hosts1, ds_Owners := snd ?loop\<rparr>"
    using assms 1 by (auto simp: validateDevice_def case_prod_unfold Let_def)
  have r: "is1 = [] \<longleftrightarrow> \<not> blank (dv_Hostname v) \<and> \<not> hasNameSpace (dv_Hostname v) \<and> foldKey u (dv_Hostname v) \<notin> dom (ds_Hostnames s)"
    using 1 by (auto simp: device_hostname_def Let_def split: if_splits)
  show "is = [] \<longleftrightarrow> device_ok u d v \<and> foldKey u (dv_Hostname v) \<notin> dom (ds_Hostnames s)
      \<and> new_keys (dom (ds_Owners s)) (map (\<lambda>h. foldKey u (ih_ID h)) (dv_Interfaces v))"
    unfolding eq append_is_Nil_conv r handle_loop_Nil device_fields_Nil[of d v path]
    by (simp add: device_ok_def, blast)
  show "is = [] \<Longrightarrow> dom (ds_Hostnames s1) = insert (foldKey u (dv_Hostname v)) (dom (ds_Hostnames s))"
    using 1 by (auto simp: eq device_hostname_def Let_def split: if_splits)
  show "is = [] \<Longrightarrow> dom (ds_Owners s1) = (\<lambda>h. foldKey u (ih_ID h)) ` set (dv_Interfaces v) \<union> dom (ds_Owners s)"
    by (simp add: eq handle_loop_owners)
qed (use assms in \<open>auto simp: validateDevice_def case_prod_unfold Let_def\<close>)

lemma kind_law:
  assumes "validateKind u d nets n path i s = (is, s1)"
  shows "is = [] \<longleftrightarrow> kind_ok u d nets n \<and> new_keys (dom (ds_Hostnames s)) (hostnames u [n])
      \<and> new_keys (dom (ds_Owners s)) (handle_ids u [n])"
    and "is = [] \<Longrightarrow> dom (ds_Hostnames s1) = set (hostnames u [n]) \<union> dom (ds_Hostnames s)"
    and "is = [] \<Longrightarrow> dom (ds_Owners s1) = set (handle_ids u [n]) \<union> dom (ds_Owners s)"
    and "ds_IDs s1 = ds_IDs s" "ds_byID s1 = ds_byID s"
proof -
  have "(is = [] \<longleftrightarrow> kind_ok u d nets n \<and> new_keys (dom (ds_Hostnames s)) (hostnames u [n]) \<and> new_keys (dom (ds_Owners s)) (handle_ids u [n]))
      \<and> (is = [] \<longrightarrow> dom (ds_Hostnames s1) = set (hostnames u [n]) \<union> dom (ds_Hostnames s)
           \<and> dom (ds_Owners s1) = set (handle_ids u [n]) \<union> dom (ds_Owners s))
      \<and> ds_IDs s1 = ds_IDs s \<and> ds_byID s1 = ds_byID s"
  proof (cases "\<exists>v. bn_Kind n = NodeKindDevice \<and> bn_Device n = Some v")
    case True
    then obtain v where v: "bn_Kind n = NodeKindDevice" "bn_Device n = Some v" by blast
    then have "validateDevice u d n v path i s = (is, s1)" using assms by (simp add: validateKind_def)
    moreover have "kind_ok u d nets n = device_ok u d v" "devices_of [n] = [v]" using v by (simp_all add: kind_ok_def devices_of_def)
    ultimately show ?thesis using device_law[of u d n v path i s "is" s1] by auto
  next
    case False
    then show ?thesis using assms
      by (cases "bn_Kind n") (auto simp: kind_ok_def devices_of_def validateKind_def switch_Nil[of _ _ "path @ ''.switch''"]
          group_Nil[of _ path] shape_Nil[of _ "path @ ''.shape''"] icon_Nil[of _ "path @ ''.icon''"] line_Nil[of _ "path @ ''.line''"]
          split: option.splits)
  qed
  then show "is = [] \<longleftrightarrow> kind_ok u d nets n \<and> new_keys (dom (ds_Hostnames s)) (hostnames u [n])
      \<and> new_keys (dom (ds_Owners s)) (handle_ids u [n])"
    and "is = [] \<Longrightarrow> dom (ds_Hostnames s1) = set (hostnames u [n]) \<union> dom (ds_Hostnames s)"
    and "is = [] \<Longrightarrow> dom (ds_Owners s1) = set (handle_ids u [n]) \<union> dom (ds_Owners s)"
    and "ds_IDs s1 = ds_IDs s" "ds_byID s1 = ds_byID s" by blast+
qed

lemma node_loop_Nil:
  "fst (node_loop u d nets i s ns) = [] \<longleftrightarrow>
     (\<forall>n \<in> set ns. doc_node_ok u d nets n) \<and> new_keys (dom (ds_IDs s)) (map (\<lambda>n. foldKey u (bn_ID n)) ns)
     \<and> new_keys (dom (ds_Hostnames s)) (hostnames u ns) \<and> new_keys (dom (ds_Owners s)) (handle_ids u ns)"
proof (induction ns arbitrary: i s)
  case (Cons n ns)
  obtain is1 s1 where 1: "node_id u i n s = (is1, s1)" by fastforce
  obtain is3 s2 where 3: "validateKind u d nets n (item ''nodes'' i) i s1 = (is3, s2)" by fastforce
  have r1: "is1 = [] \<longleftrightarrow> \<not> blank (bn_ID n) \<and> IsUUID (bn_ID n) \<and> foldKey u (bn_ID n) \<notin> dom (ds_IDs s)"
    using 1 by (auto simp: node_id_def Let_def issue_simps split: if_splits)
  have u1: "is1 = [] \<Longrightarrow> dom (ds_IDs s1) = insert (foldKey u (bn_ID n)) (dom (ds_IDs s))"
    using 1 r1 by (auto simp: node_id_def Let_def)
  have same: "ds_Hostnames s1 = ds_Hostnames s" "ds_Owners s1 = ds_Owners s"
    using 1 by (auto simp: node_id_def Let_def split: if_splits)
  note kind = kind_law[OF 3]
  have here: "fst (node_loop u d nets i s (n # ns)) = [] \<longleftrightarrow>
      (is1 = [] \<and> is3 = []) \<and> (node_place 0 n = [] \<and> payload_ok n) \<and> fst (node_loop u d nets (Suc i) s2 ns) = []"
    using 1 3 place_Nil[of i n] by (auto simp: payload_Nil split: prod.splits)
  have rest: "is1 = [] \<and> is3 = [] \<longrightarrow> (fst (node_loop u d nets (Suc i) s2 ns) = [] \<longleftrightarrow> (\<forall>n \<in> set ns. doc_node_ok u d nets n)
      \<and> new_keys (insert (foldKey u (bn_ID n)) (dom (ds_IDs s))) (map (\<lambda>n. foldKey u (bn_ID n)) ns)
      \<and> new_keys (set (hostnames u [n]) \<union> dom (ds_Hostnames s)) (hostnames u ns)
      \<and> new_keys (set (handle_ids u [n]) \<union> dom (ds_Owners s)) (handle_ids u ns))"
    unfolding Cons.IH using u1 kind(2-4) same by simp
  have key: "new_keys K (hostnames u (n # ns)) \<longleftrightarrow> new_keys K (hostnames u [n]) \<and> new_keys (set (hostnames u [n]) \<union> K) (hostnames u ns)"
      "new_keys K (handle_ids u (n # ns)) \<longleftrightarrow> new_keys K (handle_ids u [n]) \<and> new_keys (set (handle_ids u [n]) \<union> K) (handle_ids u ns)" for K
    by (simp_all add: devices_of_simps(4)[of n ns])
  show ?case unfolding here conj_when[OF rest] unfolding r1 kind(1) same key
    by (simp add: doc_node_ok_def, blast)
qed simp

lemma node_loop_byID:
  "fst (node_loop u d nets i s ns) = [] \<Longrightarrow> ds_byID (snd (node_loop u d nets i s ns)) = ds_byID s @ map (\<lambda>n. (bn_ID n, n)) ns"
proof (induction ns arbitrary: i s)
  case (Cons n ns)
  obtain is1 s1 where 1: "node_id u i n s = (is1, s1)" by fastforce
  obtain is3 s2 where 3: "validateKind u d nets n (item ''nodes'' i) i s1 = (is3, s2)" by fastforce
  have nil: "is1 = []" "fst (node_loop u d nets (Suc i) s2 ns) = []" using Cons.prems 1 3 by (auto split: prod.splits)
  have "ds_byID s1 = ds_byID s @ [(bn_ID n, n)]"
    using 1 nil(1) by (auto simp: node_id_def Let_def doc_validateID_def split: if_splits)
  then show ?case using Cons.IH[OF nil(2)] kind_law(5)[OF 3] 1 3 by (simp add: case_prod_unfold Let_def)
qed simp

subsection \<open>Connections\<close>

text \<open>
  An edge joins an interface of a device with a switch of its network. Which end is the interface follows
  from the kind of the source.
\<close>

definition edge_handle :: "(string \<times> BNode) list \<Rightarrow> Edge \<Rightarrow> string" where
  "edge_handle L e =
     (case map_of L (eg_SourceNodeID e) of
        Some a \<Rightarrow> if bn_Kind a = NodeKindDevice then eg_SourceHandleID e else eg_TargetHandleID e
      | None \<Rightarrow> eg_TargetHandleID e)"

definition joins :: "(string \<times> BNetwork) list \<Rightarrow> Edge \<Rightarrow> BNode \<Rightarrow> string \<Rightarrow> BNode \<Rightarrow> bool" where
  "joins nets e a h b \<longleftrightarrow>
     bn_Kind a = NodeKindDevice \<and> bn_Kind b = NodeKindSwitch \<and> bn_ID a \<noteq> bn_ID b \<and> h \<noteq> []
     \<and> (\<exists>v. bn_Device a = Some v \<and> (\<exists>k \<in> set (dv_Interfaces v). ih_ID k = h))
     \<and> (\<forall>w. bn_Switch b = Some w \<longrightarrow>
          eg_NetworkID e \<noteq> [] \<and> map_of nets (eg_NetworkID e) \<noteq> None \<and> eg_NetworkID e = sw_NetworkID w)"

definition edge_joins :: "(string \<times> BNode) list \<Rightarrow> (string \<times> BNetwork) list \<Rightarrow> Edge \<Rightarrow> bool" where
  "edge_joins L nets e \<longleftrightarrow>
     (\<exists>a b. map_of L (eg_SourceNodeID e) = Some a \<and> map_of L (eg_TargetNodeID e) = Some b
        \<and> (joins nets e a (eg_SourceHandleID e) b \<or> joins nets e b (eg_TargetHandleID e) a))"

definition edge_ok :: "Edge \<Rightarrow> bool" where
  "edge_ok e \<longleftrightarrow>
     \<not> blank (eg_ID e) \<and> IsUUID (eg_ID e) \<and> \<not> line_style_bad (eg_LineStyle e)
     \<and> (\<forall>ps. eg_Route e = Some ps \<longrightarrow> 2 \<le> length ps \<and> list_all finite_position ps)"

lemma FindHandle_None: "FindHandle v h = None \<longleftrightarrow> (\<forall>w. v = Some w \<longrightarrow> (\<forall>k \<in> set (dv_Interfaces w). ih_ID k \<noteq> h))"
  by (auto simp: FindHandle_def find_None_iff split: option.split)

lemma edge_nodes_Nil:
  assumes "edge_nodes L nets i e s = (is, s1)"
  shows "is = [] \<longleftrightarrow> edge_joins L nets e \<and> edge_handle L e \<notin> dom (es_Connected s)"
    and "is = [] \<Longrightarrow> dom (es_Connected s1) = insert (edge_handle L e) (dom (es_Connected s))"
    and "es_IDs s1 = es_IDs s"
proof -
  show "is = [] \<longleftrightarrow> edge_joins L nets e \<and> edge_handle L e \<notin> dom (es_Connected s)"
  proof (cases "map_of L (eg_SourceNodeID e) = None \<or> map_of L (eg_TargetNodeID e) = None")
    case True
    then show ?thesis using assms by (auto simp: edge_nodes_def edge_joins_def Let_def issue_simps split: option.splits)
  next
    case False
    then obtain a b where ab: "map_of L (eg_SourceNodeID e) = Some a" "map_of L (eg_TargetNodeID e) = Some b" by auto
    then have "edge_join nets i e a b s = (is, s1)" using assms by (simp add: edge_nodes_def)
    then have "is = [] \<longleftrightarrow> (joins nets e a (eg_SourceHandleID e) b \<or> joins nets e b (eg_TargetHandleID e) a) \<and> edge_handle L e \<notin> dom (es_Connected s)"
      using ab by (auto simp: edge_join_def edgeEndpoints_def joins_def edge_handle_def validateEdgeNetwork_def FindHandle_None Let_def issue_simps
          split: if_splits option.splits)
    then show ?thesis using ab by (simp add: edge_joins_def)
  qed
  show "is = [] \<Longrightarrow> dom (es_Connected s1) = insert (edge_handle L e) (dom (es_Connected s))"
    using assms by (auto simp: edge_nodes_def edge_join_def edgeEndpoints_def edge_handle_def Let_def issue_simps split: if_splits option.splits)
  show "es_IDs s1 = es_IDs s"
    using assms by (auto simp: edge_nodes_def edge_join_def Let_def split: if_splits option.splits)
qed

lemma edge_loop_Nil:
  "edge_loop u L nets i s es = [] \<longleftrightarrow>
     (\<forall>e \<in> set es. edge_ok e \<and> edge_joins L nets e) \<and> new_keys (dom (es_IDs s)) (map (\<lambda>e. foldKey u (eg_ID e)) es)
     \<and> new_keys (dom (es_Connected s)) (map (edge_handle L) es)"
proof (induction es arbitrary: i s)
  case (Cons e es)
  obtain is1 s1 where 1: "edge_id u i e s = (is1, s1)" by fastforce
  obtain is3 s2 where 3: "edge_nodes L nets i e s1 = (is3, s2)" by fastforce
  have r1: "is1 = [] \<longleftrightarrow> \<not> blank (eg_ID e) \<and> IsUUID (eg_ID e) \<and> foldKey u (eg_ID e) \<notin> dom (es_IDs s)"
    using 1 by (auto simp: edge_id_def Let_def issue_simps split: if_splits)
  have u1: "is1 = [] \<Longrightarrow> dom (es_IDs s1) = insert (foldKey u (eg_ID e)) (dom (es_IDs s))"
    using 1 r1 by (auto simp: edge_id_def Let_def)
  have same: "es_Connected s1 = es_Connected s" using 1 by (auto simp: edge_id_def Let_def split: if_splits)
  note join = edge_nodes_Nil[OF 3]
  have here: "edge_loop u L nets i s (e # es) = [] \<longleftrightarrow>
      (is1 = [] \<and> is3 = []) \<and> (\<not> line_style_bad (eg_LineStyle e) \<and> (\<forall>ps. eg_Route e = Some ps \<longrightarrow> 2 \<le> length ps \<and> list_all finite_position ps))
      \<and> edge_loop u L nets (Suc i) s2 es = []"
    using 1 3 by (auto simp: validateRoute_def issue_simps not_less split: prod.splits option.splits)
  have rest: "is1 = [] \<and> is3 = [] \<longrightarrow> (edge_loop u L nets (Suc i) s2 es = [] \<longleftrightarrow> (\<forall>e \<in> set es. edge_ok e \<and> edge_joins L nets e)
      \<and> new_keys (insert (foldKey u (eg_ID e)) (dom (es_IDs s))) (map (\<lambda>e. foldKey u (eg_ID e)) es)
      \<and> new_keys (insert (edge_handle L e) (dom (es_Connected s))) (map (edge_handle L) es))"
    unfolding Cons.IH using u1 join(2,3) same by simp
  show ?case unfolding here conj_when[OF rest] unfolding r1 join(1) same
    by (simp add: edge_ok_def, blast)
qed simp

subsection \<open>Parents are groups and form no cycle\<close>

lemma map_of_keyed: "map_of (map (\<lambda>x. (f x, x)) xs) k = find (\<lambda>x. f x = k) xs"
  by (induction xs) auto

lemma find_keyed: "distinct (map f xs) \<Longrightarrow> find (\<lambda>x. f x = k) xs = Some x \<longleftrightarrow> x \<in> set xs \<and> f x = k"
  by (induction xs) (auto simp: image_iff)

definition parent_rel :: "BDocument \<Rightarrow> (string \<times> string) set" where
  "parent_rel d = {(bn_ID n, bn_ParentID n) | n. n \<in> set (nodes_of d) \<and> bn_ParentID n \<noteq> []}"

lemma finite_parent_rel: "finite (parent_rel d)"
proof -
  have "parent_rel d \<subseteq> (\<lambda>n. (bn_ID n, bn_ParentID n)) ` set (nodes_of d)" by (auto simp: parent_rel_def)
  then show ?thesis by (rule finite_subset) simp
qed

lemma parents_acyclic:
  assumes "distinct (map bn_ID (nodes_of d))" and "L = map (\<lambda>n. (bn_ID n, n)) (nodes_of d)"
  shows "(\<forall>n \<in> set (nodes_of d). bn_ParentID n = [] \<or> parent_ends L (bn_ParentID n)) \<longleftrightarrow> acyclic (parent_rel d)"
proof
  have L: "map_of L i = Some n \<longleftrightarrow> n \<in> set (nodes_of d) \<and> bn_ID n = i" for i n
    using assms by (simp add: map_of_keyed find_keyed)
  have rel: "parent_rel d = parent_of L" by (auto simp: parent_rel_def parent_of_def L)
  show "acyclic (parent_rel d)" if all: "\<forall>n \<in> set (nodes_of d). bn_ParentID n = [] \<or> parent_ends L (bn_ParentID n)"
  proof (rule acyclicI, intro allI notI)
    fix i
    assume c: "(i, i) \<in> (parent_rel d)\<^sup>+"
    then obtain j where "(i, j) \<in> parent_rel d" by (meson tranclD)
    then obtain n where n: "n \<in> set (nodes_of d)" "bn_ID n = i" "bn_ParentID n \<noteq> []" by (auto simp: parent_rel_def)
    then have "parent_ends L i" using all parent[of L i n] by (auto simp: L)
    then show False using c end_not_cyclic[of L i] by (simp add: rel)
  qed
  show "\<forall>n \<in> set (nodes_of d). bn_ParentID n = [] \<or> parent_ends L (bn_ParentID n)" if "acyclic (parent_rel d)"
  proof -
    have "wf ((parent_rel d)\<inverse>)" by (rule finite_acyclic_wf_converse[OF finite_parent_rel that])
    then have "parent_ends L i" for i
    proof (induction i rule: wf_induct_rule)
      case (less i)
      show ?case
      proof (cases "map_of L i")
        case (Some n)
        then show ?thesis using less[of "bn_ParentID n"] L[of i n]
          by (cases "bn_ParentID n = []") (auto simp: parent_rel_def intro: no_parent parent)
      qed (rule no_node)
    qed
    then show ?thesis by blast
  qed
qed

subsection \<open>Valid documents\<close>

definition node_table :: "BDocument \<Rightarrow> (string \<times> BNode) list" where
  "node_table d = map (\<lambda>n. (bn_ID n, n)) (nodes_of d)"

definition network_table :: "BDocument \<Rightarrow> (string \<times> BNetwork) list" where
  "network_table d = map (\<lambda>n. (bw_ID n, n)) (networks_of d)"

definition valid_networks :: "unicase \<Rightarrow> BDocument \<Rightarrow> bool" where
  "valid_networks u d \<longleftrightarrow>
     (\<forall>n \<in> set (networks_of d). network_ok n) \<and> distinct (map (\<lambda>n. foldKey u (bw_ID n)) (networks_of d))
     \<and> distinct (map bw_Name (networks_of d)) \<and> distinct (aliases_of (networks_of d))"

definition valid_nodes :: "unicase \<Rightarrow> BDocument \<Rightarrow> bool" where
  "valid_nodes u d \<longleftrightarrow>
     (\<forall>n \<in> set (nodes_of d). doc_node_ok u d (network_table d) n) \<and> distinct (map (\<lambda>n. foldKey u (bn_ID n)) (nodes_of d))
     \<and> distinct (hostnames u (nodes_of d)) \<and> distinct (handle_ids u (nodes_of d))"

definition valid_parents :: "BDocument \<Rightarrow> bool" where
  "valid_parents d \<longleftrightarrow>
     (\<forall>n \<in> set (nodes_of d). bn_ParentID n = [] \<or> (\<exists>p. NodeByID d (bn_ParentID n) = Some p \<and> bn_Kind p = NodeKindGroup))
     \<and> acyclic (parent_rel d)"

definition valid_edges :: "unicase \<Rightarrow> BDocument \<Rightarrow> bool" where
  "valid_edges u d \<longleftrightarrow>
     (\<forall>e \<in> set (edges_of d). edge_ok e \<and> edge_joins (node_table d) (network_table d) e)
     \<and> distinct (map (\<lambda>e. foldKey u (eg_ID e)) (edges_of d)) \<and> distinct (map (edge_handle (node_table d)) (edges_of d))"

definition valid_rest :: "doc_env \<Rightarrow> BDocument \<Rightarrow> bool" where
  "valid_rest E d \<longleftrightarrow>
     validateHeader E d = [] \<and> validateScenarios (de_case E) d = [] \<and> validateLayers E d = [] \<and> validateSource d = []
     \<and> validateTemplates E d = [] \<and> ValidateIcons E (dc_Icons d) ''icons'' = []"

definition valid_document :: "doc_env \<Rightarrow> BDocument \<Rightarrow> bool" where
  "valid_document E d \<longleftrightarrow>
     valid_networks (de_case E) d \<and> valid_nodes (de_case E) d \<and> valid_parents d \<and> valid_edges (de_case E) d \<and> valid_rest E d"

lemma networks_Nil: "fst (validateNetworks u d) = [] \<longleftrightarrow> valid_networks u d"
  by (simp add: validateNetworks_def valid_networks_def network_loop_Nil)

lemma networks_table: "fst (validateNetworks u d) = [] \<Longrightarrow> ns_byID (snd (validateNetworks u d)) = network_table d"
  by (simp add: validateNetworks_def network_table_def network_loop_byID)

lemma nodes_Nil: "fst (validateNodes u d (network_table d)) = [] \<longleftrightarrow> valid_nodes u d"
  by (simp add: validateNodes_def valid_nodes_def node_loop_Nil)

lemma nodes_table: "fst (validateNodes u d nets) = [] \<Longrightarrow> ds_byID (snd (validateNodes u d nets)) = node_table d"
  by (simp add: validateNodes_def node_table_def node_loop_byID)

lemma edges_Nil: "validateEdges u (node_table d) (network_table d) d = [] \<longleftrightarrow> valid_edges u d"
  by (simp add: validateEdges_def valid_edges_def edge_loop_Nil)

lemma valid_node_ids: "valid_nodes u d \<Longrightarrow> distinct (map bn_ID (nodes_of d))"
  by (auto simp: valid_nodes_def distinct_map inj_on_def)

lemma node_table_get: "map_of (node_table d) i = NodeByID d i"
  by (simp add: node_table_def NodeByID_def map_of_keyed)

lemma network_table_get: "map_of (network_table d) i = NetworkByID d i"
  by (simp add: network_table_def NetworkByID_def map_of_keyed)

lemma parents_Nil:
  assumes "valid_nodes u d"
  shows "validateParents (node_table d) d = [] \<longleftrightarrow> valid_parents d"
proof -
  note ids = valid_node_ids[OF assms]
  have self: "acyclic (parent_rel d) \<Longrightarrow> n \<in> set (nodes_of d) \<Longrightarrow> bn_ParentID n \<noteq> [] \<Longrightarrow> bn_ParentID n \<noteq> bn_ID n" for n
    by (force simp: parent_rel_def acyclic_def)
  have "states_ok (node_table d) (\<lambda>_. chainUnknown) []" by (simp add: states_ok_def)
  note loop = parent_loop_Nil[OF this]
  show ?thesis unfolding validateParents_def loop valid_parents_def node_table_get
    using self parents_acyclic[OF ids node_table_def] by blast
qed

lemma issues_Nil: "document_issues E d = [] \<longleftrightarrow> valid_document E d"
proof (cases "valid_networks (de_case E) d \<and> valid_nodes (de_case E) d")
  case True
  let ?u = "de_case E"
  have "fst (validateNetworks ?u d) = []" using True by (simp add: networks_Nil)
  note nets = this networks_table[OF this]
  have "fst (validateNodes ?u d (network_table d)) = []" using True by (simp add: nodes_Nil)
  note nodes = this nodes_table[OF this]
  show ?thesis using True nets nodes
    by (auto simp: document_issues_def case_prod_unfold Let_def parents_Nil[of ?u] edges_Nil valid_document_def valid_rest_def)
next
  case False
  then show ?thesis using networks_Nil[of "de_case E" d] networks_table[of "de_case E" d] nodes_Nil[of "de_case E" d]
    by (cases "valid_networks (de_case E) d") (auto simp: document_issues_def case_prod_unfold Let_def valid_document_def)
qed

lemma parent_calls_ok: "states_ok L states [] \<Longrightarrow> states_ok L (foldl (\<lambda>states k. snd (parentCycle L k states)) states ks) []"
proof (induction ks arbitrary: states)
  case (Cons k ks)
  have "states_ok L (snd (parentCycle L k states)) []"
    by (rule parentCycle_law[OF Cons.prems surjective_pairing, THEN conjunct2])
  then show ?case using Cons.IH by simp
qed simp

lemma sort_key_Nil: "sort_key f xs = [] \<longleftrightarrow> xs = []"
  by (metis length_0_conv length_sort)

section \<open>Properties\<close>

text \<open>
  C10: The checks find no issue exactly in the valid documents. In these every network, node, device,
  interface and edge is well formed by itself; IDs, names, aliases, host names and interface handles are
  each used once, IDs and host names without regard to case; parents are groups and following them
  never leads back; and every edge joins an interface of a device with a switch of the edge's network, no
  interface being joined twice.
\<close>

theorem Validate_exact: "Validate E d = [] \<longleftrightarrow> valid_document E d"
  by (simp add: Validate_def LocateIssues_def sort_key_Nil issues_Nil)

text \<open>
  The walk along parents that remembers what earlier walks found is exact: after any calls it reports
  a cycle for just those IDs from which the parents never end.
\<close>

theorem parentCycle_exact:
  "fst (parentCycle L i (foldl (\<lambda>states k. snd (parentCycle L k states)) (\<lambda>_. chainUnknown) ks)) \<longleftrightarrow> \<not> parent_ends L i"
proof -
  let ?states = "foldl (\<lambda>states k. snd (parentCycle L k states)) (\<lambda>_. chainUnknown) ks"
  have "states_ok L ?states []" by (rule parent_calls_ok) (simp add: states_ok_def)
  from parentCycle_law[OF this surjective_pairing, THEN conjunct1] show ?thesis .
qed

end
