(* ===== verification/Builder_Topology.thy ===== *)
theory Builder_Topology
  imports Builder_Valid Topo_Node Config_Store
begin

section \<open>The topology that a Builder document publishes as\<close>

text \<open>
  \<^verbatim>\<open>types/builder/topology.go\<close> with the errors of \<^verbatim>\<open>devicewarnings.go\<close>: the projection of a document
  to a topology config, and the checks a publish makes of it. A spec is a value, and its changes in place
  are changes of that value: \<^verbatim>\<open>normalizeSpecMap\<close> has made a copy that nothing else refers to. An issue
  has no \<^verbatim>\<open>Field\<close>, which repeats its path, and no message. The warnings of \<^verbatim>\<open>DesignWarnings\<close>, which block
  nothing, are left out.

  Parameter: \<open>schema\<close>, the check of \<^verbatim>\<open>types.ValidateConfigSpec\<close>, an OpenAPI validator.
\<close>

record BTopology =
  tpl_Spec :: spec
  tpl_VLANAliases :: "(string \<times> int) list"
  tpl_Warnings :: "Issue list"

datatype topology_err =
  DocumentInvalid "Issue list"
| SpecKeyNotString string
| GeneralNotObject string
| ConfigRefused config_err
| InterfaceVLANError "Issue list"
| InterfaceAddressError "Issue list"
| NodeHostnameError "Issue list"
| DeviceSetupError "Issue list"
| SchemaRefused string

definition topology_rune :: "char \<Rightarrow> bool" where
  "topology_rune c \<longleftrightarrow> letter_digit c \<or> c \<in> set ''_@.-''"

text \<open>Each run of other characters becomes a hyphen.\<close>

fun hyphenate :: "bool \<Rightarrow> string \<Rightarrow> string" where
  "hyphenate run [] = []"
| "hyphenate run (c # s) =
     (if topology_rune c then c # hyphenate False s
      else if run then hyphenate True s else CHR ''-'' # hyphenate True s)"

definition trim_chars :: "char set \<Rightarrow> string \<Rightarrow> string" where
  "trim_chars cs s = rev (dropWhile (\<lambda>c. c \<in> cs) (rev (dropWhile (\<lambda>c. c \<in> cs) s)))"

definition proposedName :: "string \<Rightarrow> string" where
  "proposedName name =
     (let proposed = trim_chars {CHR ''-''} (hyphenate False name) in if proposed = [] then ''topology'' else proposed)"

subsection \<open>The projection\<close>

definition projectedDevice :: "BNode \<Rightarrow> bool" where
  "projectedDevice n \<longleftrightarrow>
     bn_Kind n = NodeKindDevice \<and> (case bn_Device n of None \<Rightarrow> False | Some v \<Rightarrow> dv_IncludedFrom v = [])"

definition projectedNodes :: "BDocument \<Rightarrow> (nat \<times> string) list" where
  "projectedNodes d = map (\<lambda>(i, n). (i, bn_ID n)) (filter (projectedDevice \<circ> snd) (enumerate 0 (nodes_of d)))"

definition node_path :: "nat \<Rightarrow> string \<Rightarrow> string" where
  "node_path i below = item ''nodes'' i @ ''.'' @ below"

definition locate :: "Issue \<Rightarrow> (nat \<times> string) list \<Rightarrow> nat \<Rightarrow> string \<Rightarrow> Issue" where
  "locate issue nodes i below =
     (if i \<ge> length nodes then issue
      else issue\<lparr>is_Path := node_path (fst (nodes ! i)) below, is_NodeID := snd (nodes ! i)\<rparr>)"

definition deviceIssue :: "string \<Rightarrow> BNode \<Rightarrow> nat \<Rightarrow> string \<Rightarrow> Issue" where
  "deviceIssue code n i path = (NewIssue code (node_path i path))\<lparr>is_NodeID := bn_ID n\<rparr>"

definition switchNetworks :: "BDocument \<Rightarrow> string \<Rightarrow> BNetwork option" where
  "switchNetworks d =
     foldl (\<lambda>m n. case bn_Switch n of
         Some w \<Rightarrow> if bn_Kind n = NodeKindSwitch then m(bn_ID n := NetworkByID d (sw_NetworkID w)) else m
       | None \<Rightarrow> m) (\<lambda>_. None) (nodes_of d)"

definition handle_edge ::
  "BDocument \<Rightarrow> (string \<Rightarrow> BNetwork option) \<Rightarrow> (string \<rightharpoonup> BNetwork) \<Rightarrow> Edge \<Rightarrow> (string \<rightharpoonup> BNetwork)" where
  "handle_edge d switches handles e =
     (case (NodeByID d (eg_SourceNodeID e), NodeByID d (eg_TargetNodeID e)) of
        (Some source, Some target) \<Rightarrow>
          (case edgeEndpoints source (eg_SourceHandleID e) target (eg_TargetHandleID e) of
             None \<Rightarrow> handles
           | Some (device, handle, sw) \<Rightarrow>
               (case switches (bn_ID sw) of None \<Rightarrow> handles | Some network \<Rightarrow> handles(handle \<mapsto> network)))
      | _ \<Rightarrow> handles)"

definition handleNetworks :: "BDocument \<Rightarrow> string \<Rightarrow> BNetwork option" where
  "handleNetworks d = foldl (handle_edge d (switchNetworks d)) Map.empty (edges_of d)"

text \<open>The first interface of that name, else the first of that name in any case.\<close>

fun interface_search :: "unicase \<Rightarrow> string \<Rightarrow> nat \<Rightarrow> nat option \<Rightarrow> jvalue list \<Rightarrow> nat option" where
  "interface_search u name k fallback [] = fallback"
| "interface_search u name k fallback (x # xs) =
     (case x of
        VObj _ \<Rightarrow>
          if interfaceName x = name then Some k
          else interface_search u name (Suc k)
                 (if fallback = None \<and> foldKey u (interfaceName x) = foldKey u name then Some k else fallback) xs
      | _ \<Rightarrow> interface_search u name (Suc k) fallback xs)"

definition findInterfaceIndex :: "unicase \<Rightarrow> jvalue list \<Rightarrow> string \<Rightarrow> nat option" where
  "findInterfaceIndex u ifaces name = interface_search u name 0 None ifaces"

definition set_vlan :: "string \<Rightarrow> jvalue \<Rightarrow> jvalue" where
  "set_vlan vlan v = (case v of VObj m \<Rightarrow> VObj (put_key ''vlan'' (VStr vlan) m) | _ \<Rightarrow> v)"

fun connect_loop ::
  "unicase \<Rightarrow> (string \<Rightarrow> BNetwork option) \<Rightarrow> BNode \<Rightarrow> nat \<Rightarrow> nat \<Rightarrow> jvalue list \<Rightarrow> InterfaceHandle list
   \<Rightarrow> jvalue list \<times> Issue list" where
  "connect_loop u handles n i p ifaces [] = (ifaces, [])"
| "connect_loop u handles n i p ifaces (h # hs) =
     (case handles (ih_ID h) of
        None \<Rightarrow> connect_loop u handles n i (Suc p) ifaces hs
      | Some network \<Rightarrow>
          (case findInterfaceIndex u ifaces (ih_Name h) of
             None \<Rightarrow>
               (let (ifaces', warnings) = connect_loop u handles n i (Suc p) ifaces hs
                in (ifaces', deviceIssue ''interface.name.unmatched'' n i (item ''device.interfaces'' p @ ''.name'') # warnings))
           | Some k \<Rightarrow> connect_loop u handles n i (Suc p) (ifaces[k := set_vlan (bw_Name network) (ifaces ! k)]) hs))"

text \<open>The interfaces of a spec, put back where \<^const>\<open>specNodeInterfaces\<close> reads them.\<close>

definition put_interfaces :: "jvalue list \<Rightarrow> spec \<Rightarrow> spec" where
  "put_interfaces ifaces sp =
     (case map_of sp ''network'' of
        Some (VObj net) \<Rightarrow>
          (case map_of net ''interfaces'' of
             Some (VArr _) \<Rightarrow> put_key ''network'' (VObj (put_key ''interfaces'' (VArr ifaces) net)) sp
           | _ \<Rightarrow> sp)
      | _ \<Rightarrow> sp)"

definition connectInterfaces :: "unicase \<Rightarrow> BNode \<Rightarrow> Device \<Rightarrow> nat \<Rightarrow> spec \<Rightarrow> (string \<Rightarrow> BNetwork option) \<Rightarrow> spec \<times> Issue list" where
  "connectInterfaces u n v i sp handles =
     (let (ifaces, warnings) = connect_loop u handles n i 0 (specNodeInterfaces sp) (dv_Interfaces v)
      in (put_interfaces ifaces sp, warnings))"

text \<open>The normal form of a spec that may be nil; what is nil stays nil, which reads as empty.\<close>

definition normal_spec :: "Device \<Rightarrow> spec option" where
  "normal_spec v = (case dv_Spec v of None \<Rightarrow> Some [] | Some sp \<Rightarrow> normalizeSpecMap sp)"

definition deviceSpec ::
  "unicase \<Rightarrow> BNode \<Rightarrow> Device \<Rightarrow> nat \<Rightarrow> (string \<Rightarrow> BNetwork option) \<Rightarrow> topology_err + spec \<times> Issue list" where
  "deviceSpec u n v i handles =
     (case normal_spec v of
        None \<Rightarrow> Inl (SpecKeyNotString (dv_Hostname v))
      | Some sp \<Rightarrow>
          (let existing = specString sp [''general'', ''hostname''];
               warnings = (if existing \<noteq> [] \<and> existing \<noteq> dv_Hostname v
                           then [deviceIssue ''device.hostname.mismatch'' n i ''device.spec.general.hostname''] else [])
           in case specSetString sp (dv_Hostname v) [''general'', ''hostname''] of
                None \<Rightarrow> Inl (GeneralNotObject (dv_Hostname v))
              | Some sp1 \<Rightarrow>
                  (let (sp2, unmatched) = connectInterfaces u n v i sp1 handles in Inr (sp2, warnings @ unmatched))))"

fun device_specs ::
  "unicase \<Rightarrow> (string \<Rightarrow> BNetwork option) \<Rightarrow> nat \<Rightarrow> BNode list \<Rightarrow> topology_err + spec list \<times> Issue list" where
  "device_specs u handles i [] = Inr ([], [])"
| "device_specs u handles i (n # ns) =
     (if \<not> projectedDevice n then device_specs u handles (Suc i) ns
      else
        (case deviceSpec u n (the (bn_Device n)) i handles of
           Inl e \<Rightarrow> Inl e
         | Inr (sp, ws) \<Rightarrow>
             (case device_specs u handles (Suc i) ns of Inl e \<Rightarrow> Inl e | Inr (sps, rest) \<Rightarrow> Inr (sp # sps, ws @ rest))))"

definition vlan_aliases :: "BDocument \<Rightarrow> (string \<times> int) list" where
  "vlan_aliases d =
     foldl (\<lambda>m n. case bw_Alias n of None \<Rightarrow> m | Some alias \<Rightarrow> put_key (bw_Name n) alias m) [] (networks_of d)"

definition ToTopology :: "doc_env \<Rightarrow> BDocument \<Rightarrow> topology_err + BTopology" where
  "ToTopology E d =
     (if Validate E d \<noteq> [] then Inl (DocumentInvalid (Validate E d))
      else
        (case device_specs (de_case E) (handleNetworks d) 0 (nodes_of d) of
           Inl e \<Rightarrow> Inl e
         | Inr (specs, warnings) \<Rightarrow>
             (let includes = (case dc_Source d of None \<Rightarrow> [] | Some so \<Rightarrow> so_IncludeTopologies so)
              in Inr \<lparr>tpl_Spec = (''nodes'', VArr (map VObj specs))
                        # (if includes = [] then [] else [(''includeTopologies'', VArr (map VStr includes))]),
                      tpl_VLANAliases = vlan_aliases d, tpl_Warnings = warnings\<rparr>)))"

subsection \<open>Interfaces without a VLAN\<close>

text \<open>The entries of a topology spec, and what is not external among them.\<close>

definition spec_nodes :: "spec \<Rightarrow> jvalue list" where
  "spec_nodes sp = (case map_of sp ''nodes'' of Some (VArr xs) \<Rightarrow> xs | _ \<Rightarrow> [])"

definition key_set :: "spec \<Rightarrow> string \<Rightarrow> bool" where
  "key_set m k \<longleftrightarrow> (case map_of m k of None \<Rightarrow> False | Some v \<Rightarrow> v \<noteq> VNil)"

definition specInterfaceVLAN :: "jvalue \<Rightarrow> bool" where
  "specInterfaceVLAN iface \<longleftrightarrow>
     (case iface of
        VObj m \<Rightarrow> key_set m ''vlan'' \<and> (case map_of m ''vlan'' of Some (VStr vlan) \<Rightarrow> \<not> blank vlan | _ \<Rightarrow> True)
      | _ \<Rightarrow> True)"

definition fill_vlan :: "jvalue \<Rightarrow> jvalue" where
  "fill_vlan iface = (case iface of VObj m \<Rightarrow> if key_set m ''vlan'' then iface else set_vlan [] iface | _ \<Rightarrow> iface)"

definition fill_node :: "jvalue \<Rightarrow> jvalue" where
  "fill_node entry =
     (case entry of
        VObj m \<Rightarrow> if key_set m ''external'' then entry else VObj (put_interfaces (map fill_vlan (specNodeInterfaces m)) m)
      | _ \<Rightarrow> entry)"

definition fillAbsentVLANs :: "spec \<Rightarrow> spec" where
  "fillAbsentVLANs sp =
     (case map_of sp ''nodes'' of Some (VArr xs) \<Rightarrow> put_key ''nodes'' (VArr (map fill_node xs)) sp | _ \<Rightarrow> sp)"

definition vlan_issue :: "(nat \<times> string) list \<Rightarrow> nat \<Rightarrow> nat \<Rightarrow> Issue" where
  "vlan_issue nodes p k =
     locate (NewIssue ''interface.vlan.missing'' []) nodes p (item ''device.spec.network.interfaces'' k)"

definition node_vlans :: "(nat \<times> string) list \<Rightarrow> nat \<Rightarrow> jvalue \<Rightarrow> Issue list" where
  "node_vlans nodes p entry =
     (case entry of
        VObj m \<Rightarrow>
          if key_set m ''external'' then []
          else map (\<lambda>(k, _). vlan_issue nodes p k)
                 (filter (\<lambda>(k, iface). \<not> specInterfaceVLAN iface) (enumerate 0 (specNodeInterfaces m)))
      | _ \<Rightarrow> [])"

definition checkInterfaceVLANs :: "spec \<Rightarrow> (nat \<times> string) list \<Rightarrow> Issue list" where
  "checkInterfaceVLANs sp nodes = concat (map (\<lambda>(p, entry). node_vlans nodes p entry) (enumerate 0 (spec_nodes sp)))"

subsection \<open>Hostnames\<close>

definition isShortHostname :: "string \<Rightarrow> bool" where
  "isShortHostname hostname \<longleftrightarrow> length (runes hostname) = 1"

text \<open>Whether the hostname is refused, else whether there is a warning.\<close>

definition checkHostname :: "unicase \<Rightarrow> string \<Rightarrow> string \<Rightarrow> unit + bool" where
  "checkHostname u hostname osType =
     (if isShortHostname hostname then Inl ()
      else (case CheckHostname u hostname osType of Inl _ \<Rightarrow> Inl () | Inr w \<Rightarrow> Inr (w \<noteq> None)))"

definition hostnameCode :: "unicase \<Rightarrow> string \<Rightarrow> bool \<Rightarrow> string" where
  "hostnameCode u hostname refused =
     (if refused \<and> isShortHostname hostname then ''node.hostname.short''
      else if refused \<and> hostname = minimegaWildcardVM then ''node.hostname.reserved''
      else if refused \<and> hostname \<noteq> [] \<and> list_all is_digit hostname then ''node.hostname.numeric''
      else if refused then ''node.hostname.windows-phenix''
      else if equal_fold u hostname minimegaWildcardVM then ''node.hostname.reserved-case''
      else ''node.hostname.phenix'')"

definition startedNodes :: "spec \<Rightarrow> (nat \<times> string \<times> string) list" where
  "startedNodes sp =
     concat (map (\<lambda>(p, entry). case entry of
         VObj m \<Rightarrow> if key_set m ''external'' then []
                   else [(p, specString m [''general'', ''hostname''], specString m [''hardware'', ''os_type''])]
       | _ \<Rightarrow> []) (enumerate 0 (spec_nodes sp)))"

definition hostname_issue :: "unicase \<Rightarrow> (nat \<times> string) list \<Rightarrow> nat \<Rightarrow> string \<Rightarrow> bool \<Rightarrow> Issue" where
  "hostname_issue u nodes p hostname refused =
     locate (NewIssue (hostnameCode u hostname refused) []) nodes p ''device.hostname''"

text \<open>The problems, whether one of them is a hostname of a single character, and the warnings.\<close>

definition checkHostnames :: "unicase \<Rightarrow> spec \<Rightarrow> (nat \<times> string) list \<Rightarrow> Issue list \<times> bool \<times> Issue list" where
  "checkHostnames u sp nodes =
     (let refused = filter (\<lambda>(p, hostname, os). checkHostname u hostname os = Inl ()) (startedNodes sp);
          warned = filter (\<lambda>(p, hostname, os). checkHostname u hostname os = Inr True) (startedNodes sp)
      in (map (\<lambda>(p, hostname, os). hostname_issue u nodes p hostname True) refused,
          list_ex (\<lambda>(p, hostname, os). isShortHostname hostname) refused,
          map (\<lambda>(p, hostname, os). hostname_issue u nodes p hostname False) warned))"

subsection \<open>Shared addresses\<close>

definition ascii_space :: "char set" where
  "ascii_space = set (map char_of [32, 9, 10, 11, 12, 13 :: nat])"

definition trimASCIISpace :: "string \<Rightarrow> string" where
  "trimASCIISpace = trim_chars ascii_space"

definition ipv4_bytes :: "string \<Rightarrow> nat list option" where
  "ipv4_bytes s =
     (case map octet (split_on CHR ''.'' s) of [Some a, Some b, Some c, Some d] \<Rightarrow> Some [a, b, c, d] | _ \<Rightarrow> None)"

text \<open>
  \<^verbatim>\<open>netip.ParseAddr\<close> of an IPv6 address without its zone: the bytes read, where the ellipsis stands, and the
  rest of the text.
\<close>

definition hex_field :: "string \<Rightarrow> nat" where
  "hex_field ds = foldl (\<lambda>v c. 16 * v + hex_value c) 0 ds"

function ipv6_fields :: "nat list \<Rightarrow> nat option \<Rightarrow> string \<Rightarrow> (nat list \<times> nat option) option" where
  "ipv6_fields bytes ellipsis s =
     (let ds = takeWhile hex_char s; rest = dropWhile hex_char s
      in if length bytes \<ge> 16 \<or> ds = [] \<or> length ds > 4 then None
         else if rest \<noteq> [] \<and> hd rest = CHR ''.'' then
           (if (ellipsis = None \<and> length bytes \<noteq> 12) \<or> length bytes > 12 then None
            else map_option (\<lambda>four. (bytes @ four, ellipsis)) (ipv4_bytes s))
         else
           (let bytes1 = bytes @ [hex_field ds div 256, hex_field ds mod 256]
            in case rest of
                 [] \<Rightarrow> Some (bytes1, ellipsis)
               | [c] \<Rightarrow> None
               | c # c' # tail \<Rightarrow>
                   if c \<noteq> CHR '':'' then None
                   else if c' = CHR '':'' then
                     (if ellipsis \<noteq> None then None
                      else if tail = [] then Some (bytes1, Some (length bytes1))
                      else ipv6_fields bytes1 (Some (length bytes1)) tail)
                   else ipv6_fields bytes1 ellipsis (c' # tail)))"
  by pat_completeness auto

termination
  by (relation "measure (\<lambda>(bytes, ellipsis, s). 16 - length bytes)") auto

declare ipv6_fields.simps [simp del]

definition ipv6_bytes :: "string \<Rightarrow> nat list option" where
  "ipv6_bytes text =
     (let s = takeWhile (\<lambda>c. c \<noteq> CHR ''%'') text; zone = dropWhile (\<lambda>c. c \<noteq> CHR ''%'') text;
          leading = prefix ''::'' s
      in if length zone = 1 then None
         else if s = ''::'' then Some (replicate 16 0)
         else
           (case ipv6_fields [] (if leading then Some 0 else None) (if leading then drop 2 s else s) of
              None \<Rightarrow> None
            | Some (bytes, ellipsis) \<Rightarrow>
                (case ellipsis of
                   None \<Rightarrow> if length bytes = 16 then Some bytes else None
                 | Some k \<Rightarrow>
                     if length bytes \<ge> 16 then None
                     else Some (take k bytes @ replicate (16 - length bytes) 0 @ drop k bytes))))"

text \<open>The bytes of the address, without a zone; an IPv4 address in the form of IPv6 is that address.\<close>

definition unmapped_bytes :: "string \<Rightarrow> nat list option" where
  "unmapped_bytes s =
     (case find (\<lambda>c. c \<in> set ''.:%'') s of
        Some c \<Rightarrow>
          if c = CHR ''.'' then ipv4_bytes s
          else if c = CHR '':'' then
            map_option (\<lambda>bs. if take 12 bs = replicate 10 0 @ [255, 255] then drop 12 bs else bs) (ipv6_bytes s)
          else None
      | None \<Rightarrow> None)"

definition spec_str :: "spec \<Rightarrow> string \<Rightarrow> string" where
  "spec_str m k = (case map_of m k of Some (VStr s) \<Rightarrow> s | _ \<Rightarrow> [])"

definition interfaceIP :: "unicase \<Rightarrow> spec \<Rightarrow> nat list option" where
  "interfaceIP u iface =
     (if to_lower u (trimASCIISpace (spec_str iface ''proto'')) \<in> {''dhcp'', ''manual''} then None
      else unmapped_bytes (trimASCIISpace (takeWhile (\<lambda>c. c \<noteq> CHR ''/'') (spec_str iface ''address''))))"

definition interfaceMAC :: "spec \<Rightarrow> nat list option" where
  "interfaceMAC iface =
     (case hex_bytes (filter (\<lambda>c. c \<notin> set '':-.'') (trimASCIISpace (spec_str iface ''mac''))) of
        Some mac \<Rightarrow> if length mac = 6 then Some mac else None
      | None \<Rightarrow> None)"

definition interfaceNetwork :: "spec \<Rightarrow> string \<times> string" where
  "interfaceNetwork iface =
     ((if spec_str iface ''bridge'' = ''phenix'' then [] else spec_str iface ''bridge''), TrimSpace (spec_str iface ''vlan''))"

record addressUse =
  au_kind :: string
  au_address :: "nat list"
  au_network :: "string \<times> string"
  au_included :: bool
  au_issue :: Issue

type_synonym addressKey = "string \<times> nat list \<times> string \<times> string"

definition address_key :: "addressUse \<Rightarrow> addressKey" where
  "address_key use = (au_kind use, au_address use, au_network use)"

definition interface_uses :: "unicase \<Rightarrow> BNode \<Rightarrow> Device \<Rightarrow> nat \<Rightarrow> bool \<Rightarrow> nat \<Rightarrow> jvalue \<Rightarrow> addressUse list" where
  "interface_uses u n v i external k entry =
     (case entry of
        VObj iface \<Rightarrow>
          (let found = (\<lambda>kind address code key.
                 \<lparr>au_kind = kind, au_address = address, au_network = interfaceNetwork iface,
                  au_included = (dv_IncludedFrom v \<noteq> []),
                  au_issue = deviceIssue code n i (item ''device.spec.network.interfaces'' k @ ''.'' @ key)\<rparr>)
           in (case interfaceIP u iface of None \<Rightarrow> [] | Some a \<Rightarrow> [found ''ip'' a ''interface.ip.shared'' ''address''])
              @ (case interfaceMAC iface of
                   None \<Rightarrow> [] | Some a \<Rightarrow> if external then [] else [found ''mac'' a ''interface.mac.shared'' ''mac'']))
      | _ \<Rightarrow> [])"

definition node_uses :: "unicase \<Rightarrow> (string \<Rightarrow> BNetwork option) \<Rightarrow> nat \<Rightarrow> BNode \<Rightarrow> addressUse list" where
  "node_uses u handles i n =
     (case bn_Device n of
        None \<Rightarrow> []
      | Some v \<Rightarrow>
          if bn_Kind n \<noteq> NodeKindDevice then []
          else
            (case normal_spec v of
               None \<Rightarrow> []
             | Some sp \<Rightarrow>
                 (let sp1 = fst (connectInterfaces u n v i sp handles)
                  in concat (map (\<lambda>(k, entry). interface_uses u n v i (key_set sp1 ''external'') k entry)
                       (enumerate 0 (specNodeInterfaces sp1))))))"

definition eachAddressUse :: "unicase \<Rightarrow> BDocument \<Rightarrow> addressUse list" where
  "eachAddressUse u d =
     concat (map (\<lambda>(i, n). node_uses u (handleNetworks d) i n) (enumerate 0 (nodes_of d)))"

text \<open>The addresses in the order of their first use, each with its uses.\<close>

fun group_uses :: "(addressKey \<times> addressUse list) list \<Rightarrow> addressUse list \<Rightarrow> (addressKey \<times> addressUse list) list" where
  "group_uses shared [] = shared"
| "group_uses shared (use # uses) =
     (let k = address_key use
      in group_uses (put_key k ((case map_of shared k of None \<Rightarrow> [] | Some us \<Rightarrow> us) @ [use]) shared) uses)"

definition shared_issue :: "addressUse list \<Rightarrow> Issue list" where
  "shared_issue uses =
     (if length uses < 2 then []
      else (case find (\<lambda>use. \<not> au_included use) uses of None \<Rightarrow> [] | Some own \<Rightarrow> [au_issue own]))"

definition checkInterfaceAddresses :: "unicase \<Rightarrow> BDocument \<Rightarrow> Issue list" where
  "checkInterfaceAddresses u d = concat (map (shared_issue \<circ> snd) (group_uses [] (eachAddressUse u d)))"

subsection \<open>Settings with which the experiment would not start\<close>

fun spec_map :: "spec \<Rightarrow> string list \<Rightarrow> spec" where
  "spec_map sp [] = sp"
| "spec_map sp (k # ks) = (case map_of sp k of Some (VObj m) \<Rightarrow> spec_map m ks | _ \<Rightarrow> spec_map [] ks)"

definition device_spec :: "Device \<Rightarrow> spec" where
  "device_spec v = (case dv_Spec v of None \<Rightarrow> [] | Some sp \<Rightarrow> sp)"

definition ownDevice :: "BNode \<Rightarrow> bool" where
  "ownDevice n \<longleftrightarrow> projectedDevice n \<and> \<not> key_set (device_spec (the (bn_Device n))) ''external''"

definition isRoutingType :: "unicase \<Rightarrow> string \<Rightarrow> bool" where
  "isRoutingType u deviceType \<longleftrightarrow> equal_fold u deviceType ''router'' \<or> equal_fold u deviceType ''firewall''"

definition defaultAppsOn :: "spec \<Rightarrow> bool" where
  "defaultAppsOn sp \<longleftrightarrow>
     (case map_of (spec_map sp [''annotations'']) ''phenix/default-apps'' of Some (VBool b) \<Rightarrow> b | _ \<Rightarrow> True)"

definition routerOf :: "unicase \<Rightarrow> spec \<Rightarrow> string option" where
  "routerOf u sp =
     (if \<not> isRoutingType u (specString sp [''type'']) \<or> \<not> defaultAppsOn sp then None
      else Some (to_lower u (specString sp [''hardware'', ''os_type''])))"

definition vyattaOSTypes :: "string list" where
  "vyattaOSTypes = [''vyatta'', ''vyos'', ''linux'']"

definition iface_str :: "jvalue \<Rightarrow> string \<Rightarrow> string" where
  "iface_str iface k = (case iface of VObj m \<Rightarrow> spec_str m k | _ \<Rightarrow> [])"

definition ospfError :: "unicase \<Rightarrow> BNode \<Rightarrow> Device \<Rightarrow> nat \<Rightarrow> Issue list" where
  "ospfError u n v i =
     (let sp = device_spec v
      in case routerOf u sp of
           None \<Rightarrow> []
         | Some osType \<Rightarrow>
             if osType \<notin> set vyattaOSTypes \<or> key_set (spec_map sp [''network'']) ''ospf'' then []
             else
               (case find (\<lambda>(k, iface). iface_str iface ''proto'' = ''ospf'') (enumerate 0 (specNodeInterfaces sp)) of
                  None \<Rightarrow> []
                | Some (k, _) \<Rightarrow>
                    [deviceIssue ''device.ospf.missing'' n i (item ''device.spec.network.interfaces'' k @ ''.proto'')]))"

definition drivesError :: "BNode \<Rightarrow> Device \<Rightarrow> nat \<Rightarrow> Issue list" where
  "drivesError n v i =
     (case map_of (spec_map (device_spec v) [''hardware'']) ''drives'' of
        None \<Rightarrow> [deviceIssue ''device.drives.none'' n i ''device.spec.hardware.drives'']
      | Some drives \<Rightarrow>
          if drives = VNil \<or> drives = VArr [] then [deviceIssue ''device.drives.none'' n i ''device.spec.hardware.drives''] else [])"

definition interfaceByName :: "unicase \<Rightarrow> jvalue list \<Rightarrow> string \<Rightarrow> jvalue option" where
  "interfaceByName u ifaces name =
     find (\<lambda>iface. (case iface of VObj _ \<Rightarrow> True | _ \<Rightarrow> False) \<and> equal_fold u (interfaceName iface) name) ifaces"

definition ntp_label :: "BNode \<Rightarrow> jvalue option" where
  "ntp_label n =
     (if projectedDevice n then map_of (spec_map (device_spec (the (bn_Device n))) [''labels'']) ''ntp-server'' else None)"

text \<open>The errors of \<^verbatim>\<open>ntpIssues\<close>: only the first device with the label matters.\<close>

definition ntp_errors :: "unicase \<Rightarrow> BDocument \<Rightarrow> Issue list" where
  "ntp_errors u d =
     (case find (\<lambda>(i, n). ntp_label n \<noteq> None) (enumerate 0 (nodes_of d)) of
        None \<Rightarrow> []
      | Some (i, n) \<Rightarrow>
          (case ntp_label n of
             Some (VStr name) \<Rightarrow>
               (case interfaceByName u (specNodeInterfaces (device_spec (the (bn_Device n)))) name of
                  None \<Rightarrow> [deviceIssue ''device.ntp-server.invalid'' n i ''device.spec.labels.ntp-server'']
                | Some iface \<Rightarrow>
                    if iface_str iface ''address'' = []
                    then [deviceIssue ''device.ntp-server.invalid'' n i ''device.spec.labels.ntp-server''] else [])
           | _ \<Rightarrow> []))"

definition own_errors :: "unicase \<Rightarrow> nat \<Rightarrow> BNode \<Rightarrow> Issue list" where
  "own_errors u i n =
     (if ownDevice n then drivesError n (the (bn_Device n)) i @ ospfError u n (the (bn_Device n)) i else [])"

definition setupErrors :: "unicase \<Rightarrow> BDocument \<Rightarrow> Issue list" where
  "setupErrors u d = concat (map (\<lambda>(i, n). own_errors u i n) (enumerate 0 (nodes_of d))) @ ntp_errors u d"

subsection \<open>Publishing\<close>

record publish_env =
  pe_doc :: doc_env
  pe_kinds :: "string list"
  pe_schema :: "jvalue Config \<Rightarrow> string option"

definition topologyConfig :: "publish_env \<Rightarrow> string \<Rightarrow> BTopology \<Rightarrow> topology_err + jvalue Config" where
  "topologyConfig P name t =
     (case NewConfig (de_case (pe_doc P)) (pe_kinds P) (''topology/'' @ name) of
        Inl e \<Rightarrow> Inl (ConfigRefused e)
      | Inr c \<Rightarrow> Inr (c\<lparr>c_Version := ''phenix.sandia.gov/v1'', c_Spec := Some (map_of (tpl_Spec t))\<rparr>))"

record topologyProjection =
  pj_config :: "jvalue Config"
  pj_topology :: BTopology
  pj_warnings :: "Issue list"
  pj_blockers :: "topology_err list"
  pj_shortHostnames :: "topology_err option"
  pj_noDrives :: "topology_err option"
  pj_schema :: "topology_err option"

text \<open>The config and the topology share the spec in which the absent VLANs are filled in.\<close>

definition projectTopology :: "publish_env \<Rightarrow> BDocument \<Rightarrow> string \<Rightarrow> topology_err + topologyProjection" where
  "projectTopology P d name =
     bindR (ToTopology (pe_doc P) d) (\<lambda>t. bindR (topologyConfig P name t) (\<lambda>c.
       (let u = de_case (pe_doc P);
            nodes = projectedNodes d;
            sp = fillAbsentVLANs (tpl_Spec t);
            c1 = c\<lparr>c_Spec := Some (map_of sp)\<rparr>;
            vlans = checkInterfaceVLANs sp nodes;
            addresses = checkInterfaceAddresses u d;
            (hostnames, short, warnings) = checkHostnames u sp nodes;
            setup = setupErrors u d
        in Inr \<lparr>pj_config = c1, pj_topology = t\<lparr>tpl_Spec := sp\<rparr>, pj_warnings = tpl_Warnings t @ warnings,
                pj_blockers =
                  (if vlans = [] then [] else [InterfaceVLANError vlans])
                  @ (if addresses = [] then [] else [InterfaceAddressError addresses])
                  @ (if hostnames = [] then [] else [NodeHostnameError hostnames])
                  @ (if setup = [] then [] else [DeviceSetupError setup]),
                pj_shortHostnames = (if hostnames \<noteq> [] \<and> short then Some (NodeHostnameError hostnames) else None),
                pj_noDrives =
                  (if list_ex (\<lambda>issue. is_Code issue = ''device.drives.none'') setup then Some (DeviceSetupError setup) else None),
                pj_schema = map_option SchemaRefused (pe_schema P c1)\<rparr>)))"

text \<open>The warnings, and the config with the topology or the first reason against them.\<close>

definition PublishTopology ::
  "publish_env \<Rightarrow> BDocument \<Rightarrow> string \<Rightarrow> Issue list \<times> (topology_err + jvalue Config \<times> BTopology)" where
  "PublishTopology P d name =
     (case projectTopology P d name of
        Inl e \<Rightarrow> ([], Inl e)
      | Inr p \<Rightarrow>
          (pj_warnings p,
           case pj_blockers p of
             blocker # _ \<Rightarrow> Inl blocker
           | [] \<Rightarrow> (case pj_schema p of Some e \<Rightarrow> Inl e | None \<Rightarrow> Inr (pj_config p, pj_topology p))))"

definition ExportTopologyConfig ::
  "publish_env \<Rightarrow> BDocument \<Rightarrow> string \<Rightarrow> topology_err + jvalue Config \<times> Issue list \<times> topology_err list" where
  "ExportTopologyConfig P d name =
     bindR (projectTopology P d name) (\<lambda>p.
       (case pj_schema p of
          Some e \<Rightarrow>
            (case pj_shortHostnames p of
               Some s \<Rightarrow> Inl s
             | None \<Rightarrow> (case pj_noDrives p of Some s \<Rightarrow> Inl s | None \<Rightarrow> Inl e))
        | None \<Rightarrow> Inr (pj_config p, pj_warnings p, pj_blockers p)))"

definition PublishBlockers :: "publish_env \<Rightarrow> BDocument \<Rightarrow> string \<Rightarrow> topology_err + topology_err list" where
  "PublishBlockers P d name = bindR (projectTopology P d name) (\<lambda>p. Inr (pj_blockers p))"

definition ToTopologyConfig :: "publish_env \<Rightarrow> BDocument \<Rightarrow> string \<Rightarrow> topology_err + jvalue Config \<times> Issue list" where
  "ToTopologyConfig P d name =
     bindR (ToTopology (pe_doc P) d) (\<lambda>t. bindR (topologyConfig P name t) (\<lambda>c. Inr (c, tpl_Warnings t)))"

end
