(* ===== verification/Builder_Connect.thy ===== *)
theory Builder_Connect
  imports Builder_Topology
begin

section \<open>What is published of a Builder document\<close>

text \<open>
  Lemmas on the projection of \<^verbatim>\<open>Builder_Topology\<close>: the networks of connected interfaces, the VLANs written
  into specs, the nodes of the topology, and what the checks of a publish leave out.
\<close>

subsection \<open>Specs\<close>

lemma map_of_put_key [simp]: "map_of (put_key k v m) = (map_of m)(k \<mapsto> v)"
  by (induction k v m rule: put_key.induct) (auto simp: fun_eq_iff)

lemma specNodeInterfaces_put:
  assumes "length ifaces = length (specNodeInterfaces sp)"
  shows "specNodeInterfaces (put_interfaces ifaces sp) = ifaces"
  using assms by (auto simp: specNodeInterfaces_def put_interfaces_def split: option.splits jvalue.splits)

lemma put_interfaces_other: "k \<noteq> ''network'' \<Longrightarrow> map_of (put_interfaces ifaces sp) k = map_of sp k"
  by (auto simp: put_interfaces_def split: option.splits jvalue.splits)

lemma specString_put_interfaces:
  "k \<noteq> ''network'' \<Longrightarrow> specString (put_interfaces ifaces sp) (k # ks) = specString sp (k # ks)"
  by (simp add: specString_def put_interfaces_other)

lemma specSetString_get:
  "specSetString sp w ks = Some sp1 \<Longrightarrow> specString sp1 ks = w"
proof (induction sp w ks arbitrary: sp1 rule: specSetString.induct)
  case (3 sp w k k' ks)
  obtain m m' where "specSetString m w (k' # ks) = Some m'" "sp1 = put_key k (VObj m') sp"
      and "specString m' (k' # ks) = w"
    using 3 by (auto split: option.splits jvalue.splits)
  then show ?case by (simp add: specString_def)
qed (simp_all add: specString_def)

subsection \<open>Finding an interface\<close>

text \<open>What the search looks at.\<close>

definition shape :: "jvalue \<Rightarrow> string option" where
  "shape v = (case v of VObj _ \<Rightarrow> Some (interfaceName v) | _ \<Rightarrow> None)"

lemma shape_Some: "shape v = Some s \<longleftrightarrow> (\<exists>m. v = VObj m) \<and> interfaceName v = s"
  by (auto simp: shape_def split: jvalue.splits)

lemma search_shapes: "map shape xs = map shape ys \<Longrightarrow> interface_search u name k fb xs = interface_search u name k fb ys"
proof (induction xs arbitrary: ys k fb)
  case (Cons x xs)
  then obtain y ys' where y: "ys = y # ys'" "shape x = shape y" "map shape xs = map shape ys'" by (cases ys) auto
  then show ?case using Cons.IH[OF y(3)] by (auto simp: shape_def split: jvalue.splits)
qed simp

lemma search_found:
  "interface_search u name k fb xs = Some j \<Longrightarrow>
   (fb = Some j) \<or> (k \<le> j \<and> j < k + length xs \<and> (\<exists>s. shape (xs ! (j - k)) = Some s \<and> foldKey u s = foldKey u name))"
proof (induction xs arbitrary: k fb)
  case (Cons x xs)
  have step: "(fb' = Some j) \<or> (Suc k \<le> j \<and> j < Suc k + length xs \<and> (\<exists>s. shape (xs ! (j - Suc k)) = Some s \<and> foldKey u s = foldKey u name))"
    if "interface_search u name (Suc k) fb' xs = Some j" for fb' using Cons.IH[OF that] .
  have later: "k \<le> j \<and> j < k + length (x # xs) \<and> (\<exists>s. shape ((x # xs) ! (j - k)) = Some s \<and> foldKey u s = foldKey u name)"
    if "Suc k \<le> j \<and> j < Suc k + length xs \<and> (\<exists>s. shape (xs ! (j - Suc k)) = Some s \<and> foldKey u s = foldKey u name)"
  proof -
    have "j - k = Suc (j - Suc k)" using that by linarith
    then show ?thesis using that by auto
  qed
  show ?case
  proof (cases "shape x")
    case None
    then have "interface_search u name (Suc k) fb xs = Some j" using Cons.prems by (auto simp: shape_def split: jvalue.splits)
    then show ?thesis using step later by blast
  next
    case (Some s)
    then obtain m where x: "x = VObj m" "interfaceName x = s" by (auto simp: shape_Some)
    show ?thesis
    proof (cases "s = name")
      case True
      then show ?thesis using Cons.prems x Some by auto
    next
      case False
      let ?fb = "if fb = None \<and> foldKey u s = foldKey u name then Some k else fb"
      have run: "interface_search u name (Suc k) ?fb xs = Some j" using Cons.prems x False by auto
      have "?fb = Some j \<Longrightarrow> fb = Some j \<or> (j = k \<and> foldKey u s = foldKey u name)" by (auto split: if_splits)
      then show ?thesis using step[OF run] later Some by auto
    qed
  qed
qed simp

lemma findInterface_found:
  assumes "findInterfaceIndex u xs name = Some j"
  shows "j < length xs \<and> (\<exists>m. xs ! j = VObj m) \<and> foldKey u (interfaceName (xs ! j)) = foldKey u name"
  using search_found[OF assms[unfolded findInterfaceIndex_def]] by (auto simp: shape_Some)

subsection \<open>Writing the VLANs\<close>

lemma shape_set_vlan [simp]: "shape (set_vlan vlan v) = shape v"
  by (auto simp: shape_def set_vlan_def interfaceName_def split: jvalue.splits option.splits)

lemma shapes_upd: "map shape (xs[k := set_vlan vlan (xs ! k)]) = map shape xs"
  by (cases "k < length xs") (simp_all add: map_update list_update_same_conv list_update_beyond not_less)

lemma connect_shapes: "map shape (fst (connect_loop u H n i p xs hs)) = map shape xs"
proof (induction u H n i p xs hs rule: connect_loop.induct)
  case (2 u H n i p xs h hs)
  then show ?case by (auto simp: shapes_upd case_prod_unfold Let_def split: option.split)
qed simp

lemma connect_keep:
  "foldKey u (interfaceName (xs ! j)) \<notin> (\<lambda>h. foldKey u (ih_Name h)) ` set hs \<Longrightarrow>
   fst (connect_loop u H n i p xs hs) ! j = xs ! j"
proof (induction u H n i p xs hs rule: connect_loop.induct)
  case (2 u H n i p xs h hs)
  show ?case
  proof (cases "H (ih_ID h)")
    case None
    then show ?thesis using 2 by simp
  next
    case (Some net)
    show ?thesis
    proof (cases "findInterfaceIndex u xs (ih_Name h)")
      case None
      then show ?thesis using 2 Some by (simp add: case_prod_unfold Let_def)
    next
      case (Some k)
      have "k \<noteq> j" using findInterface_found[OF Some] 2(4) by auto
      then show ?thesis using 2(3)[OF \<open>H (ih_ID h) = Some net\<close> Some] 2(4) Some \<open>H (ih_ID h) = Some net\<close> by simp
    qed
  qed
qed simp

lemma connect_vlan:
  "distinct (map (\<lambda>h. foldKey u (ih_Name h)) hs) \<Longrightarrow> h \<in> set hs \<Longrightarrow> H (ih_ID h) = Some net \<Longrightarrow>
   findInterfaceIndex u xs (ih_Name h) = Some j \<Longrightarrow>
   value_at (fst (connect_loop u H n i p xs hs) ! j) [''vlan''] = Some (VStr (bw_Name net))"
proof (induction u H n i p xs hs rule: connect_loop.induct)
  case (2 u H n i p xs g hs)
  show ?case
  proof (cases "g = h")
    case True
    let ?xs = "xs[j := set_vlan (bw_Name net) (xs ! j)]"
    obtain m where j: "j < length xs" "xs ! j = VObj m" "foldKey u (interfaceName (xs ! j)) = foldKey u (ih_Name h)"
      using findInterface_found[OF 2(7)] by blast
    have "shape (?xs ! j) = shape (xs ! j)" using j(1) by simp
    then have "interfaceName (?xs ! j) = interfaceName (xs ! j)" using j(2) shape_Some[of "xs ! j"] shape_Some[of "?xs ! j"] by metis
    then have "foldKey u (interfaceName (?xs ! j)) \<notin> (\<lambda>h. foldKey u (ih_Name h)) ` set hs" using j(3) 2(4) True by auto
    then have "fst (connect_loop u H n i (Suc p) ?xs hs) ! j = set_vlan (bw_Name net) (VObj m)"
      using connect_keep[of u ?xs j hs H n i "Suc p"] j by simp
    then show ?thesis using 2(6,7) True by (simp add: set_vlan_def)
  next
    case False
    then have h: "h \<in> set hs" "distinct (map (\<lambda>h. foldKey u (ih_Name h)) hs)" using 2(4,5) by auto
    have same: "findInterfaceIndex u (xs[k := set_vlan w (xs ! k)]) (ih_Name h) = Some j" for k w
      using 2(7) search_shapes[OF shapes_upd] by (simp add: findInterfaceIndex_def)
    show ?thesis using 2(1-3) h 2(6,7) same by (auto simp: case_prod_unfold Let_def split: option.split)
  qed
qed simp

subsection \<open>The networks of the interfaces\<close>

lemma switches_fold:
  assumes "f = (\<lambda>m n. case bn_Switch n of Some w \<Rightarrow> if bn_Kind n = NodeKindSwitch then m(bn_ID n := g w) else m | None \<Rightarrow> m)"
  shows "i \<notin> bn_ID ` set ns \<Longrightarrow> foldl f m ns i = m i"
    and "distinct (map bn_ID ns) \<Longrightarrow> b \<in> set ns \<Longrightarrow> bn_Kind b = NodeKindSwitch \<Longrightarrow> bn_Switch b = Some w \<Longrightarrow>
      foldl f m ns (bn_ID b) = g w"
proof -
  have out: "i \<notin> bn_ID ` set ns \<Longrightarrow> foldl f m ns i = m i" for i m ns
    unfolding assms by (induction ns arbitrary: m) (auto split: option.split)
  then show "i \<notin> bn_ID ` set ns \<Longrightarrow> foldl f m ns i = m i" .
  show "distinct (map bn_ID ns) \<Longrightarrow> b \<in> set ns \<Longrightarrow> bn_Kind b = NodeKindSwitch \<Longrightarrow> bn_Switch b = Some w \<Longrightarrow>
      foldl f m ns (bn_ID b) = g w"
  proof (induction ns arbitrary: m)
    case (Cons n ns)
    show ?case
    proof (cases "n = b")
      case True
      then have "bn_ID b \<notin> bn_ID ` set ns" using Cons.prems(1) by auto
      then show ?thesis using out True Cons.prems(3,4) by (simp add: assms)
    qed (use Cons in auto)
  qed simp
qed

lemma switch_network:
  assumes "valid_nodes u d" and "b \<in> set (nodes_of d)" "bn_Kind b = NodeKindSwitch" "bn_Switch b = Some w"
  shows "switchNetworks d (bn_ID b) = NetworkByID d (sw_NetworkID w)"
  unfolding switchNetworks_def
  by (rule switches_fold(2)[OF refl valid_node_ids[OF assms(1)] assms(2-4)])

lemma NodeByID_Some: "NodeByID d i = Some n \<Longrightarrow> n \<in> set (nodes_of d) \<and> bn_ID n = i"
  by (auto simp: NodeByID_def find_Some_iff)

lemma payload_switch: "payload_ok n \<Longrightarrow> bn_Kind n = NodeKindSwitch \<Longrightarrow> \<exists>w. bn_Switch n = Some w"
  by (auto simp: payload_ok_def payloads_def)

text \<open>In a valid document every edge puts its network at its handle.\<close>

lemma edge_network:
  assumes "valid_nodes u d" and "edge_joins (node_table d) (network_table d) e"
  shows "\<exists>net. NetworkByID d (eg_NetworkID e) = Some net
     \<and> (\<forall>H. handle_edge d (switchNetworks d) H e = H(edge_handle (node_table d) e \<mapsto> net))"
proof -
  obtain a b where ab: "NodeByID d (eg_SourceNodeID e) = Some a" "NodeByID d (eg_TargetNodeID e) = Some b"
      and j: "joins (network_table d) e a (eg_SourceHandleID e) b \<or> joins (network_table d) e b (eg_TargetHandleID e) a"
    using assms(2) by (auto simp: edge_joins_def node_table_get)
  define sw where "sw = (if bn_Kind a = NodeKindDevice then b else a)"
  have sw: "bn_Kind sw = NodeKindSwitch" "sw \<in> set (nodes_of d)"
    using j NodeByID_Some[OF ab(1)] NodeByID_Some[OF ab(2)] by (auto simp: sw_def joins_def)
  then obtain w where w: "bn_Switch sw = Some w"
    using assms(1) payload_switch by (auto simp: valid_nodes_def doc_node_ok_def)
  have net: "NetworkByID d (eg_NetworkID e) \<noteq> None" "sw_NetworkID w = eg_NetworkID e"
    using j w by (auto simp: joins_def sw_def network_table_get)
  have ends: "\<exists>dev. edgeEndpoints a (eg_SourceHandleID e) b (eg_TargetHandleID e) = Some (dev, edge_handle (node_table d) e, sw)"
    using j ab by (auto simp: edgeEndpoints_def joins_def edge_handle_def node_table_get sw_def)
  show ?thesis using net ends ab switch_network[OF assms(1) sw(2,1) w] by (auto simp: handle_edge_def)
qed

lemma foldl_updates:
  "(\<And>e H. e \<in> set es \<Longrightarrow> f H e = H(key e \<mapsto> g e)) \<Longrightarrow> k \<notin> key ` set es \<Longrightarrow> foldl f H es k = H k"
  "(\<And>e H. e \<in> set es \<Longrightarrow> f H e = H(key e \<mapsto> g e)) \<Longrightarrow> distinct (map key es) \<Longrightarrow> e \<in> set es \<Longrightarrow> foldl f H es (key e) = Some (g e)"
proof -
  have out: "foldl f H es k = H k" if "\<And>e H. e \<in> set es \<Longrightarrow> f H e = H(key e \<mapsto> g e)" "k \<notin> key ` set es" for es H k
    using that by (induction es arbitrary: H) auto
  then show "(\<And>e H. e \<in> set es \<Longrightarrow> f H e = H(key e \<mapsto> g e)) \<Longrightarrow> k \<notin> key ` set es \<Longrightarrow> foldl f H es k = H k" .
  show "(\<And>e H. e \<in> set es \<Longrightarrow> f H e = H(key e \<mapsto> g e)) \<Longrightarrow> distinct (map key es) \<Longrightarrow> e \<in> set es \<Longrightarrow> foldl f H es (key e) = Some (g e)"
  proof (induction es arbitrary: H)
    case (Cons x xs)
    show ?case
    proof (cases "x = e")
      case True
      then have "key e \<notin> key ` set xs" using Cons.prems(2) by auto
      then have "foldl f (f H x) xs (key e) = f H x (key e)" by (rule out[rotated]) (rule Cons.prems(1), simp)
      then show ?thesis using True Cons.prems(1)[of x H] by simp
    qed (use Cons in auto)
  qed simp
qed

lemma handle_network:
  assumes "valid_nodes u d" "valid_edges u d" and "e \<in> set (edges_of d)"
  shows "\<exists>net. NetworkByID d (eg_NetworkID e) = Some net \<and> handleNetworks d (edge_handle (node_table d) e) = Some net"
proof -
  let ?net = "\<lambda>e. the (NetworkByID d (eg_NetworkID e))"
  have step: "handle_edge d (switchNetworks d) H e = H(edge_handle (node_table d) e \<mapsto> ?net e)"
      "NetworkByID d (eg_NetworkID e) = Some (?net e)" if "e \<in> set (edges_of d)" for e H
    using edge_network[OF assms(1), of e] assms(2) that by (auto simp: valid_edges_def)
  have "handleNetworks d (edge_handle (node_table d) e) = Some (?net e)" unfolding handleNetworks_def
    by (rule foldl_updates(2)) (use step assms in \<open>auto simp: valid_edges_def\<close>)
  then show ?thesis using step(2)[OF assms(3)] by blast
qed

subsection \<open>The nodes of the topology\<close>

lemma deviceSpec_law:
  assumes "deviceSpec u n v i H = Inr (sp, ws)"
  shows "specString sp [''general'', ''hostname''] = dv_Hostname v"
    and "\<exists>xs. specNodeInterfaces sp = fst (connect_loop u H n i 0 xs (dv_Interfaces v))"
proof -
  obtain sp0 sp1 where sp: "specSetString sp0 (dv_Hostname v) [''general'', ''hostname''] = Some sp1"
      "sp = put_interfaces (fst (connect_loop u H n i 0 (specNodeInterfaces sp1) (dv_Interfaces v))) sp1"
    using assms by (auto simp: deviceSpec_def connectInterfaces_def Let_def case_prod_unfold split: option.splits)
  show "specString sp [''general'', ''hostname''] = dv_Hostname v"
    using specSetString_get[OF sp(1)] by (simp add: sp(2) specString_put_interfaces)
  have "length (fst (connect_loop u H n i 0 (specNodeInterfaces sp1) (dv_Interfaces v))) = length (specNodeInterfaces sp1)"
    using connect_shapes[of u H n i 0] by (metis length_map)
  then show "\<exists>xs. specNodeInterfaces sp = fst (connect_loop u H n i 0 xs (dv_Interfaces v))"
    using specNodeInterfaces_put by (auto simp: sp(2))
qed

lemma device_specs_law:
  "device_specs u H i ns = Inr (sps, ws) \<Longrightarrow>
   list_all2 (\<lambda>n sp. \<exists>i ws. deviceSpec u n (the (bn_Device n)) i H = Inr (sp, ws)) (filter projectedDevice ns) sps"
proof (induction u H i ns arbitrary: sps ws rule: device_specs.induct)
  case (2 u H i n ns)
  then show ?case by (fastforce split: if_splits sum.splits)
qed simp

lemma ToTopology_Inr:
  assumes "ToTopology E d = Inr t"
  shows "valid_document E d"
    and "\<exists>sps. spec_nodes (tpl_Spec t) = map VObj sps
       \<and> list_all2 (\<lambda>n sp. \<exists>i ws. deviceSpec (de_case E) n (the (bn_Device n)) i (handleNetworks d) = Inr (sp, ws))
           (filter projectedDevice (nodes_of d)) sps"
proof -
  have "Validate E d = []" using assms by (auto simp: ToTopology_def split: if_splits)
  then show "valid_document E d" by (simp add: Validate_def LocateIssues_def sort_key_Nil issues_Nil)
  show "\<exists>sps. spec_nodes (tpl_Spec t) = map VObj sps
       \<and> list_all2 (\<lambda>n sp. \<exists>i ws. deviceSpec (de_case E) n (the (bn_Device n)) i (handleNetworks d) = Inr (sp, ws))
           (filter projectedDevice (nodes_of d)) sps"
    using assms device_specs_law by (auto simp: ToTopology_def Let_def spec_nodes_def split: if_splits sum.splits)
qed

subsection \<open>The checks of a publish\<close>

lemma distinct_put_key: "distinct (map fst m) \<Longrightarrow> distinct (map fst (put_key k v m)) \<and> fst ` set (put_key k v m) = insert k (fst ` set m)"
  by (induction k v m rule: put_key.induct) auto

lemma group_uses_keys: "distinct (map fst shared) \<Longrightarrow> distinct (map fst (group_uses shared uses))"
  by (induction shared uses rule: group_uses.induct) (auto simp: Let_def distinct_put_key)

lemma group_uses_get:
  "map_of (group_uses shared uses) k =
     (if map_of shared k = None \<and> filter (\<lambda>use. address_key use = k) uses = [] then None
      else Some ((case map_of shared k of None \<Rightarrow> [] | Some us \<Rightarrow> us) @ filter (\<lambda>use. address_key use = k) uses))"
  by (induction shared uses rule: group_uses.induct) (auto simp: Let_def split: option.split)

lemma shared_issue_Nil: "shared_issue uses = [] \<longleftrightarrow> length uses < 2 \<or> (\<forall>use \<in> set uses. au_included use)"
proof (cases "find (\<lambda>use. \<not> au_included use) uses")
  case None
  then have "\<forall>use \<in> set uses. au_included use" by (simp add: find_None_iff)
  then show ?thesis using None by (simp add: shared_issue_def)
next
  case (Some own)
  then have "find (\<lambda>use. \<not> au_included use) uses \<noteq> None" by simp
  then have "\<exists>use \<in> set uses. \<not> au_included use" by (auto simp: find_None_iff)
  then show ?thesis using Some by (simp add: shared_issue_def)
qed

text \<open>Two interfaces with one address on one network both come from included topologies.\<close>

definition addresses_apart :: "addressUse list \<Rightarrow> bool" where
  "addresses_apart uses \<longleftrightarrow>
     (\<forall>i < length uses. \<forall>j < length uses. i \<noteq> j \<longrightarrow> address_key (uses ! i) = address_key (uses ! j) \<longrightarrow>
        au_included (uses ! i))"

lemma filter_two: "length (filter p xs) < 2 \<longleftrightarrow> (\<forall>i < length xs. \<forall>j < length xs. p (xs ! i) \<longrightarrow> p (xs ! j) \<longrightarrow> i = j)"
proof -
  let ?I = "{i. i < length xs \<and> p (xs ! i)}"
  have "length (filter p xs) < 2 \<longleftrightarrow> card ?I \<le> Suc 0" by (simp add: length_filter_conv_card less_Suc_eq_le numeral_2_eq_2)
  also have "\<dots> \<longleftrightarrow> (\<forall>i \<in> ?I. \<forall>j \<in> ?I. i = j)" by (rule card_le_Suc0_iff_eq) simp
  finally show ?thesis by auto
qed

lemma shared_filter_Nil:
  "shared_issue (filter (\<lambda>use. address_key use = k) uses) = [] \<longleftrightarrow>
     (\<forall>i < length uses. \<forall>j < length uses. i \<noteq> j \<longrightarrow> address_key (uses ! i) = k \<longrightarrow> address_key (uses ! j) = k \<longrightarrow> au_included (uses ! i))"
proof -
  have one: "(\<forall>use \<in> set (filter (\<lambda>use. address_key use = k) uses). au_included use) \<longleftrightarrow>
      (\<forall>i < length uses. address_key (uses ! i) = k \<longrightarrow> au_included (uses ! i))"
    by (auto simp: in_set_conv_nth)
  show ?thesis unfolding shared_issue_Nil filter_two one
    by metis
qed

lemma addresses_Nil: "checkInterfaceAddresses u d = [] \<longleftrightarrow> addresses_apart (eachAddressUse u d)"
proof -
  let ?uses = "eachAddressUse u d"
  have keys: "(k, us) \<in> set (group_uses [] ?uses) \<longleftrightarrow> map_of (group_uses [] ?uses) k = Some us" for k us
    by (rule map_of_eq_Some_iff[symmetric]) (simp add: group_uses_keys)
  have none: "shared_issue [] = []" by (simp add: shared_issue_def)
  have get: "(\<forall>us. map_of (group_uses [] ?uses) k = Some us \<longrightarrow> shared_issue us = []) \<longleftrightarrow>
      shared_issue (filter (\<lambda>use. address_key use = k) ?uses) = []" for k
    by (cases "filter (\<lambda>use. address_key use = k) ?uses = []") (simp_all add: group_uses_get none)
  have "checkInterfaceAddresses u d = [] \<longleftrightarrow> (\<forall>k us. map_of (group_uses [] ?uses) k = Some us \<longrightarrow> shared_issue us = [])"
    using keys by (fastforce simp: checkInterfaceAddresses_def)
  also have "\<dots> \<longleftrightarrow> (\<forall>k. shared_issue (filter (\<lambda>use. address_key use = k) ?uses) = [])"
    by (simp add: get)
  also have "\<dots> \<longleftrightarrow> addresses_apart ?uses"
    unfolding shared_filter_Nil addresses_apart_def by metis
  finally show ?thesis .
qed

text \<open>The nodes that are started: those that are not external.\<close>

definition started :: "spec \<Rightarrow> spec set" where
  "started sp = {m. VObj m \<in> set (spec_nodes sp) \<and> \<not> key_set m ''external''}"

definition vlans_named :: "spec \<Rightarrow> bool" where
  "vlans_named sp \<longleftrightarrow>
     (\<forall>m \<in> started sp. \<forall>f. VObj f \<in> set (specNodeInterfaces m) \<longrightarrow>
        (\<exists>vlan. map_of f ''vlan'' = Some vlan \<and> vlan \<noteq> VNil \<and> (\<forall>name. vlan = VStr name \<longrightarrow> \<not> blank name)))"

lemma vlan_given:
  "specInterfaceVLAN iface \<longleftrightarrow> (\<forall>f. iface = VObj f \<longrightarrow>
     (\<exists>vlan. map_of f ''vlan'' = Some vlan \<and> vlan \<noteq> VNil \<and> (\<forall>name. vlan = VStr name \<longrightarrow> \<not> blank name)))"
  by (auto simp: specInterfaceVLAN_def key_set_def split: option.splits jvalue.splits)

definition hostnames_accepted :: "unicase \<Rightarrow> spec \<Rightarrow> bool" where
  "hostnames_accepted u sp \<longleftrightarrow>
     (\<forall>m \<in> started sp.
        length (runes (specString m [''general'', ''hostname''])) \<noteq> 1
        \<and> (\<exists>w. CheckHostname u (specString m [''general'', ''hostname'']) (specString m [''hardware'', ''os_type'']) = Inr w))"

lemma enumerate_ball: "(\<forall>x \<in> set (enumerate n xs). P (snd x)) \<longleftrightarrow> (\<forall>x \<in> set xs. P x)"
  by (metis (mono_tags, lifting) in_set_enumerate_eq map_snd_enumerate image_eqI list.set_map imageE)

lemma vlans_Nil: "checkInterfaceVLANs sp nodes = [] \<longleftrightarrow> vlans_named sp"
proof -
  have entry: "node_vlans nodes p entry = [] \<longleftrightarrow>
      (\<forall>m. entry = VObj m \<longrightarrow> \<not> key_set m ''external'' \<longrightarrow> (\<forall>iface \<in> set (specNodeInterfaces m). specInterfaceVLAN iface))" for p entry
    using enumerate_ball[of 0 _ specInterfaceVLAN]
    by (auto simp: node_vlans_def filter_empty_conv case_prod_unfold split: jvalue.split)
  let ?Q = "\<lambda>entry. \<forall>m. entry = VObj m \<longrightarrow> \<not> key_set m ''external'' \<longrightarrow> (\<forall>iface \<in> set (specNodeInterfaces m). specInterfaceVLAN iface)"
  have "checkInterfaceVLANs sp nodes = [] \<longleftrightarrow> (\<forall>x \<in> set (enumerate 0 (spec_nodes sp)). ?Q (snd x))"
    by (auto simp: checkInterfaceVLANs_def entry)
  also have "\<dots> \<longleftrightarrow> (\<forall>entry \<in> set (spec_nodes sp). ?Q entry)" by (rule enumerate_ball)
  also have "\<dots> \<longleftrightarrow> vlans_named sp" unfolding vlan_given vlans_named_def started_def by blast
  finally show ?thesis .
qed

lemma started_law:
  "(\<forall>(p, hostname, os) \<in> set (startedNodes sp). P hostname os) \<longleftrightarrow>
   (\<forall>m \<in> started sp. P (specString m [''general'', ''hostname'']) (specString m [''hardware'', ''os_type'']))"
proof -
  let ?Q = "\<lambda>entry. \<forall>m. entry = VObj m \<longrightarrow> \<not> key_set m ''external'' \<longrightarrow>
      P (specString m [''general'', ''hostname'']) (specString m [''hardware'', ''os_type''])"
  have "(\<forall>(p, hostname, os) \<in> set (startedNodes sp). P hostname os) \<longleftrightarrow> (\<forall>x \<in> set (enumerate 0 (spec_nodes sp)). ?Q (snd x))"
    by (auto simp: startedNodes_def split: jvalue.splits if_splits) fastforce
  also have "\<dots> \<longleftrightarrow> (\<forall>entry \<in> set (spec_nodes sp). ?Q entry)" by (rule enumerate_ball)
  finally show ?thesis by (auto simp: started_def)
qed

lemma hostnames_Nil: "fst (checkHostnames u sp nodes) = [] \<longleftrightarrow> hostnames_accepted u sp"
proof -
  have "fst (checkHostnames u sp nodes) = [] \<longleftrightarrow> (\<forall>(p, hostname, os) \<in> set (startedNodes sp). checkHostname u hostname os \<noteq> Inl ())"
    by (auto simp: checkHostnames_def Let_def filter_empty_conv)
  also have "\<dots> \<longleftrightarrow> hostnames_accepted u sp"
  proof -
    have "checkHostname u h os \<noteq> Inl () \<longleftrightarrow> \<not> isShortHostname h \<and> (\<exists>w. CheckHostname u h os = Inr w)" for h os
      by (cases "CheckHostname u h os") (simp_all add: checkHostname_def)
    then show ?thesis unfolding started_law hostnames_accepted_def by (simp add: isShortHostname_def)
  qed
  finally show ?thesis .
qed

lemma one_or_none [simp]: "(if b then [] else [x]) = [] \<longleftrightarrow> b"
  by simp

lemma blockers_Nil:
  assumes "projectTopology P d name = Inr p"
  shows "pj_blockers p = [] \<longleftrightarrow>
      vlans_named (tpl_Spec (pj_topology p)) \<and> addresses_apart (eachAddressUse (de_case (pe_doc P)) d)
      \<and> hostnames_accepted (de_case (pe_doc P)) (tpl_Spec (pj_topology p)) \<and> setupErrors (de_case (pe_doc P)) d = []"
    and "\<exists>t. ToTopology (pe_doc P) d = Inr t \<and> tpl_Spec (pj_topology p) = fillAbsentVLANs (tpl_Spec t)"
    and "c_Spec (pj_config p) = Some (map_of (tpl_Spec (pj_topology p)))"
    and "pj_schema p = map_option SchemaRefused (pe_schema P (pj_config p))"
  using assms
  by (auto simp: projectTopology_def bindR_Inr_iff Let_def case_prod_unfold vlans_Nil addresses_Nil hostnames_Nil
      simp del: if_split_asm)

lemma subseq_distinct: "subseq xs ys \<Longrightarrow> distinct ys \<Longrightarrow> distinct xs"
  by (induction rule: list_emb.induct) (auto dest: list_emb_set)

lemma hostnames_projected:
  "subseq (map (\<lambda>n. foldKey u (dv_Hostname (the (bn_Device n)))) (filter projectedDevice ns)) (hostnames u ns)"
  by (induction ns) (auto simp: devices_of_def projectedDevice_def split: option.splits intro: list_emb_append2)

subsection \<open>A small document\<close>

text \<open>
  A device and a switch that an edge connects; the spec of the device names another VLAN.
\<close>

definition ex_case :: unicase where "ex_case = \<lparr>u_lower = id, u_fold = id\<rparr>"
definition ex_env :: doc_env where
  "ex_env = \<lparr>de_case = ex_case, de_lists = [''nodes'', ''networks'', ''edges''], de_regexp = (\<lambda>_. True),
     de_size = (\<lambda>_. Some 0), de_png = (\<lambda>_. True), de_zlib = (\<lambda>_. Some 0)\<rparr>"

definition ex_uuid :: "char \<Rightarrow> string" where
  "ex_uuid c = ''1111111'' @ [c] @ ''-1111-4111-8111-111111111111''"

definition ex_device :: Device where
  "ex_device = \<lparr>dv_Hostname = ''plc'', dv_IconKey = [], dv_Icon = [], dv_IconSize = [], dv_OutlineColor = [], dv_FillColor = [],
     dv_Layer = None,
     dv_Spec = Some [(''hardware'', VObj [(''drives'', VArr [VObj []])]),
       (''network'', VObj [(''interfaces'', VArr [VObj [(''name'', VStr ''eth0''), (''vlan'', VStr ''old'')]])])],
     dv_Interfaces = [\<lparr>ih_ID = ex_uuid CHR ''3'', ih_Name = ''eth0''\<rparr>], dv_IncludedFrom = []\<rparr>"

definition ex_place :: Position where "ex_place = \<lparr>ps_X = Finite 0, ps_Y = Finite 0\<rparr>"

definition ex_node :: BNode where
  "ex_node = \<lparr>bn_ID = ex_uuid CHR ''1'', bn_Kind = NodeKindDevice, bn_Position = ex_place, bn_Size = None, bn_ParentID = [],
     bn_Device = Some ex_device, bn_Switch = None, bn_Note = False, bn_Group = None, bn_Shape = None, bn_Icon = None, bn_Line = None\<rparr>"

definition ex_switch :: BNode where
  "ex_switch = ex_node\<lparr>bn_ID := ex_uuid CHR ''2'', bn_Kind := NodeKindSwitch, bn_Device := None,
     bn_Switch := Some \<lparr>sw_NetworkID = ex_uuid CHR ''4'', sw_OutlineColor = [], sw_FillColor = [], sw_IconSize = [], sw_Layer = None\<rparr>\<rparr>"

definition ex_network :: BNetwork where
  "ex_network = \<lparr>bw_ID = ex_uuid CHR ''4'', bw_Name = ''EXP'', bw_Alias = None, bw_LineStyle = [], bw_Subnet = [], bw_Gateway = []\<rparr>"

definition ex_edge :: Edge where
  "ex_edge = \<lparr>eg_ID = ex_uuid CHR ''5'', eg_SourceNodeID = ex_uuid CHR ''1'', eg_SourceHandleID = ex_uuid CHR ''3'',
     eg_TargetNodeID = ex_uuid CHR ''2'', eg_TargetHandleID = [], eg_NetworkID = ex_uuid CHR ''4'', eg_LineStyle = [], eg_Route = None\<rparr>"

definition ex_document :: BDocument where
  "ex_document = \<lparr>dc_Schema = ''https://phenix.sandia.gov/schemas/builder/v1'', dc_Revision = 1,
     dc_Metadata = \<lparr>mt_ID = ex_uuid CHR ''6'', mt_Name = [], mt_CreatedBy = [], mt_CreatedAt = [], mt_UpdatedBy = [], mt_UpdatedAt = [], mt_Notes = []\<rparr>,
     dc_Nodes = Some [ex_node, ex_switch], dc_Networks = Some [ex_network], dc_Edges = Some [ex_edge],
     dc_Viewport = (Finite 0, Finite 0, Finite 1), dc_GridSize = Finite 20, dc_Scenarios = [], dc_Source = None, dc_IconSize = [],
     dc_Templates = [], dc_Layers = [], dc_LayerSet = None, dc_Icons = []\<rparr>"

text \<open>Text of visible ASCII characters is not blank, has no space and folds character by character.\<close>

definition plain :: "string \<Rightarrow> bool" where
  "plain s \<longleftrightarrow> s \<noteq> [] \<and> list_all (\<lambda>c. 33 \<le> code_of c \<and> code_of c \<le> 126) s"

lemma spaces_bytes: "c \<in> set spaces \<Longrightarrow> c \<noteq> [] \<and> (code_of (hd c) < 33 \<or> 126 < code_of (hd c)) \<and> (code_of (last c) < 33 \<or> 126 < code_of (last c))"
  by (auto simp: spaces_def space_bytes_def)

lemma trim_left_same: "(\<And>c. c \<in> set cs \<Longrightarrow> c = [] \<or> \<not> prefix c s) \<Longrightarrow> trim_left cs s = s"
proof -
  assume "\<And>c. c \<in> set cs \<Longrightarrow> c = [] \<or> \<not> prefix c s"
  then have "find (\<lambda>c. c \<noteq> [] \<and> prefix c s) cs = None" by (auto simp: find_None_iff)
  then show ?thesis by (simp add: trim_left.simps)
qed

lemma prefix_hd: "prefix c s \<Longrightarrow> c \<noteq> [] \<Longrightarrow> s \<noteq> [] \<and> hd c = hd s"
  by (cases c; cases s) auto

lemma plain_trim: "plain s \<Longrightarrow> TrimSpace s = s"
proof -
  assume p: "plain s"
  have hd: "33 \<le> code_of (hd s) \<and> code_of (hd s) \<le> 126" and last: "33 \<le> code_of (last s) \<and> code_of (last s) \<le> 126"
    using p by (auto simp: plain_def list_all_iff)
  have "trim_left spaces s = s"
    by (rule trim_left_same) (use hd spaces_bytes prefix_hd in fastforce)
  moreover have "trim_left (map rev spaces) (rev s) = rev s"
  proof (rule trim_left_same)
    fix c assume "c \<in> set (map rev spaces)"
    then obtain b where b: "c = rev b" "b \<in> set spaces" by auto
    show "c = [] \<or> \<not> prefix c (rev s)" using prefix_hd[of c "rev s"] spaces_bytes[OF b(2)] last b(1) by (auto simp: hd_rev)
  qed
  ultimately show ?thesis by (simp add: TrimSpace_def trim_right_def)
qed

lemma plain_facts [simp]:
  assumes "plain s"
  shows "\<not> blank s" "\<not> hasNameSpace s" "foldKey u s = map ascii_lower s"
proof -
  have n: "s \<noteq> []" "\<forall>c \<in> set s. 33 \<le> code_of c \<and> code_of c \<le> 126" using assms by (auto simp: plain_def list_all_iff)
  show "\<not> blank s" "foldKey u s = map ascii_lower s"
    using n by (auto simp: blank_def foldKey_def plain_trim[OF assms] to_lower_def is_ascii_def list_all_iff)
  have "runes s = map code_of s" unfolding runes_def by (rule runes_of_bytes) (use n in auto)
  then show "\<not> hasNameSpace s" using n by (auto simp: hasNameSpace_def list_ex_iff isNameSpace_def IsSpace_def)
qed

lemma ex_uuid_ok:
  assumes "is_digit c"
  shows "IsUUID (ex_uuid c)" "plain (ex_uuid c)"
  using assms by (auto simp: IsUUID_def parseUUID_def ex_uuid_def plain_def hex_char_def hex_value_def is_digit_def)

lemmas ex_simps = ex_env_def ex_case_def ex_device_def ex_place_def ex_node_def ex_switch_def ex_network_def ex_edge_def
  ex_document_def elems_def ex_uuid_ok

lemma ex_uuid_inject [simp]: "ex_uuid c = ex_uuid c' \<longleftrightarrow> c = c'" "ex_uuid c \<noteq> []"
  by (simp_all add: ex_uuid_def)

lemma ex_uuid_lower [simp]: "is_digit c \<Longrightarrow> map ascii_lower (ex_uuid c) = ex_uuid c"
  by (simp add: ex_uuid_def ascii_lower_def is_digit_def)

lemma ex_digits [simp]: "is_digit CHR ''1''" "is_digit CHR ''2''" "is_digit CHR ''3''" "is_digit CHR ''4''" "is_digit CHR ''5''" "is_digit CHR ''6''"
  by (simp_all add: is_digit_def)

lemma plain_words [simp]: "plain ''plc''" "plain ''eth0''" "plain ''EXP''"
  by (simp_all add: plain_def)

lemma ex_networks: "valid_networks ex_case ex_document"
  by (simp add: valid_networks_def network_ok_def ex_simps line_style_bad_def)

lemma ex_header: "validateHeader ex_env ex_document = []"
  by (simp add: validateHeader_def ex_simps list_missing_def validateMetadata_def doc_validateID_def metadataPath_def issue_if_def
      has_control_def runes_def validateUser_def validateTime_def validateNotes_def finite_float_def not_positive_def
      whole_number_def outside_def iconSizeProblem_def)

lemma ex_nodes: "valid_nodes ex_case ex_document"
  by (simp add: valid_nodes_def doc_node_ok_def node_place_def payload_ok_def payloads_def kind_ok_def device_ok_def ex_simps
      issue_if_def finite_position_def finite_float_def handle_ok_def device_fields_def iconKeyProblem_def validateIconRef_def
      iconSizeProblem_def colorProblem_def layerProblem_def validateIncludedFrom_def validateSwitch_def network_table_def
      devices_of_def handles_of_def)

lemma ex_parents: "valid_parents ex_document"
proof -
  have "parent_rel ex_document = {}" by (auto simp: parent_rel_def ex_simps)
  then show ?thesis by (simp add: valid_parents_def acyclic_def) (simp add: ex_simps)
qed

lemma ex_edges: "valid_edges ex_case ex_document"
  by (simp add: valid_edges_def edge_ok_def edge_joins_def joins_def node_table_def network_table_def ex_simps line_style_bad_def)

lemma ex_rest: "valid_rest ex_env ex_document"
  unfolding valid_rest_def
  by (simp add: ex_header, simp add: ex_simps validateScenarios_def validateLayers_def layerListIssues_def validateSource_def
      validateTemplates_def ValidateIcons_def issue_if_def)

lemma ex_valid: "Validate ex_env ex_document = []"
  using ex_networks ex_nodes ex_parents ex_edges ex_rest
  by (simp add: Validate_def LocateIssues_def sort_key_Nil issues_Nil valid_document_def) (simp add: ex_env_def)

definition ex_spec :: spec where
  "ex_spec =
     [(''hardware'', VObj [(''drives'', VArr [VObj []])]),
      (''network'', VObj [(''interfaces'', VArr [VObj [(''name'', VStr ''eth0''), (''vlan'', VStr ''EXP'')]])]),
      (''general'', VObj [(''hostname'', VStr ''plc'')])]"

definition ex_topology :: BTopology where
  "ex_topology = \<lparr>tpl_Spec = [(''nodes'', VArr [VObj ex_spec])], tpl_VLANAliases = [], tpl_Warnings = []\<rparr>"

lemma ex_handles: "handleNetworks ex_document = [ex_uuid CHR ''3'' \<mapsto> ex_network]"
  by (simp add: handleNetworks_def handle_edge_def switchNetworks_def NodeByID_def NetworkByID_def edgeEndpoints_def ex_simps)

lemma ex_ToTopology: "ToTopology ex_env ex_document = Inr ex_topology"
  unfolding ToTopology_def ex_handles
  by (simp add: ex_valid, simp add: ex_simps ex_topology_def ex_spec_def projectedDevice_def deviceSpec_def normal_spec_def
      normalizeSpecMap_def specString_def connectInterfaces_def specNodeInterfaces_def findInterfaceIndex_def interfaceName_def
      set_vlan_def put_interfaces_def vlan_aliases_def)

definition ex_publish :: publish_env where
  "ex_publish = \<lparr>pe_doc = ex_env, pe_kinds = [''Topology''], pe_schema = (\<lambda>_. None)\<rparr>"

lemma ex_fill: "fillAbsentVLANs (tpl_Spec ex_topology) = tpl_Spec ex_topology"
  by (simp add: ex_topology_def ex_spec_def fillAbsentVLANs_def fill_node_def fill_vlan_def key_set_def put_interfaces_def specNodeInterfaces_def)

lemma ex_started: "started (tpl_Spec ex_topology) = {ex_spec}"
  by (auto simp: started_def spec_nodes_def ex_topology_def ex_spec_def key_set_def)

lemma ex_checks:
  "vlans_named (tpl_Spec ex_topology)" "hostnames_accepted ex_case (tpl_Spec ex_topology)"
  "addresses_apart (eachAddressUse ex_case ex_document)" "setupErrors ex_case ex_document = []"
  subgoal by (simp add: vlans_named_def ex_started, simp add: ex_spec_def specNodeInterfaces_def specInterfaceVLAN_def key_set_def)
  subgoal
    by (simp add: hostnames_accepted_def ex_started, simp add: ex_spec_def specString_def isShortHostname_def runes_def
        CheckHostname_def checkHostnameKeywords_def minimegaWildcardVM_def phenixHostname_def isDigits_def trim_digits_def is_digit_def equal_fold_def ex_case_def rune_fold_def)
  subgoal
    by (simp add: addresses_apart_def eachAddressUse_def ex_handles, simp add: ex_simps node_uses_def normal_spec_def normalizeSpecMap_def
        connectInterfaces_def specNodeInterfaces_def findInterfaceIndex_def interfaceName_def set_vlan_def put_interfaces_def
        interface_uses_def interfaceIP_def interfaceMAC_def spec_str_def trimASCIISpace_def trim_chars_def to_lower_def is_ascii_def
        unmapped_bytes_def)
  subgoal
    by (simp add: setupErrors_def ex_simps own_errors_def ownDevice_def projectedDevice_def device_spec_def key_set_def drivesError_def
        ospfError_def routerOf_def isRoutingType_def specString_def equal_fold_def runes_def ntp_errors_def ntp_label_def)
  done

lemma ex_config: "\<exists>c. topologyConfig ex_publish ''plant'' ex_topology = Inr c"
  by (simp add: topologyConfig_def ex_publish_def NewConfig_def canonicalKind_def ex_env_def ex_case_def equal_fold_def runes_def rune_fold_def Let_def)

lemma ex_published: "\<exists>ws c. PublishTopology ex_publish ex_document ''plant'' = (ws, Inr (c, ex_topology))"
proof -
  have env: "pe_doc ex_publish = ex_env" "de_case ex_env = ex_case" "pe_schema ex_publish = (\<lambda>_. None)"
    by (simp_all add: ex_publish_def ex_env_def)
  obtain p where p: "projectTopology ex_publish ex_document ''plant'' = Inr p" "pj_topology p = ex_topology" "pj_schema p = None"
    using ex_config by (auto simp: projectTopology_def env ex_ToTopology Let_def case_prod_unfold ex_fill)
  have "pj_blockers p = []" using blockers_Nil(1)[OF p(1)] p(2) ex_checks by (simp add: env)
  then show ?thesis using p by (simp add: PublishTopology_def)
qed

section \<open>Properties\<close>

text \<open>
  The topology of a document has one node for each device that is not from an included topology, in
  the order of the document, and its hostname is that of the device, whatever the node spec says. No two
  hostnames are alike without regard to case.
\<close>

theorem topology_nodes:
  assumes "ToTopology E d = Inr t"
  shows "map (\<lambda>entry. case entry of VObj m \<Rightarrow> specString m [''general'', ''hostname''] | _ \<Rightarrow> []) (spec_nodes (tpl_Spec t)) =
      map (\<lambda>n. dv_Hostname (the (bn_Device n))) (filter projectedDevice (nodes_of d))
    \<and> distinct (map (\<lambda>n. foldKey (de_case E) (dv_Hostname (the (bn_Device n)))) (filter projectedDevice (nodes_of d)))"
proof
  obtain sps where sps: "spec_nodes (tpl_Spec t) = map VObj sps"
      "list_all2 (\<lambda>n sp. \<exists>i ws. deviceSpec (de_case E) n (the (bn_Device n)) i (handleNetworks d) = Inr (sp, ws))
         (filter projectedDevice (nodes_of d)) sps"
    using ToTopology_Inr(2)[OF assms] by blast
  from sps(2) have "map (\<lambda>sp. specString sp [''general'', ''hostname'']) sps =
      map (\<lambda>n. dv_Hostname (the (bn_Device n))) (filter projectedDevice (nodes_of d))"
    by (induction rule: list_all2_induct) (auto dest: deviceSpec_law(1))
  then show "map (\<lambda>entry. case entry of VObj m \<Rightarrow> specString m [''general'', ''hostname''] | _ \<Rightarrow> []) (spec_nodes (tpl_Spec t)) =
      map (\<lambda>n. dv_Hostname (the (bn_Device n))) (filter projectedDevice (nodes_of d))"
    by (simp add: sps(1) comp_def)
  have "distinct (hostnames (de_case E) (nodes_of d))"
    using ToTopology_Inr(1)[OF assms] by (simp add: valid_document_def valid_nodes_def)
  then show "distinct (map (\<lambda>n. foldKey (de_case E) (dv_Hostname (the (bn_Device n)))) (filter projectedDevice (nodes_of d)))"
    by (rule subseq_distinct[OF hostnames_projected])
qed

theorem topology_nodes_witness: "distinct (map (\<lambda>n. foldKey ex_case (dv_Hostname (the (bn_Device n)))) (filter projectedDevice [ex_node, ex_switch]))
    \<and> specString ex_spec [''general'', ''hostname''] = ''plc''"
proof -
  have "spec_nodes (tpl_Spec ex_topology) = [VObj ex_spec]" by (simp add: ex_topology_def spec_nodes_def)
  then show ?thesis using topology_nodes[OF ex_ToTopology] by (simp add: ex_simps projectedDevice_def)
qed

text \<open>
  C12: An interface that an edge connects is published on the VLAN of the network that the edge names,
  whatever VLAN the node spec gave it.
\<close>

theorem connected_vlan:
  assumes "ToTopology E d = Inr t"
    and "(n, VObj sp) \<in> set (zip (filter projectedDevice (nodes_of d)) (spec_nodes (tpl_Spec t)))"
    and "bn_Device n = Some v" and "h \<in> set (dv_Interfaces v)"
    and "e \<in> set (edges_of d)" and "edge_handle (node_table d) e = ih_ID h"
    and "findInterfaceIndex (de_case E) (specNodeInterfaces sp) (ih_Name h) = Some j"
  shows "\<exists>net. NetworkByID d (eg_NetworkID e) = Some net
    \<and> value_at (specNodeInterfaces sp ! j) [''vlan''] = Some (VStr (bw_Name net))"
proof -
  let ?u = "de_case E" and ?H = "handleNetworks d"
  have valid: "valid_nodes ?u d" "valid_edges ?u d" using ToTopology_Inr(1)[OF assms(1)] by (simp_all add: valid_document_def)
  obtain sps where sps: "spec_nodes (tpl_Spec t) = map VObj sps"
      "list_all2 (\<lambda>n sp. \<exists>i ws. deviceSpec ?u n (the (bn_Device n)) i ?H = Inr (sp, ws)) (filter projectedDevice (nodes_of d)) sps"
    using ToTopology_Inr(2)[OF assms(1)] by blast
  have "(n, sp) \<in> set (zip (filter projectedDevice (nodes_of d)) sps)"
    using assms(2) by (auto simp: sps(1) zip_map2)
  note pair = this set_zip_leftD[OF this]
  then have n: "n \<in> set (nodes_of d)" "projectedDevice n" by simp_all
  obtain i ws where dev: "deviceSpec ?u n v i ?H = Inr (sp, ws)"
    using pair(1) sps(2) assms(3) by (fastforce simp: list_all2_iff)
  obtain xs where xs: "specNodeInterfaces sp = fst (connect_loop ?u ?H n i 0 xs (dv_Interfaces v))"
    using deviceSpec_law(2)[OF dev] by blast
  have "device_ok ?u d v" using valid(1) n assms(3) by (auto simp: valid_nodes_def doc_node_ok_def kind_ok_def projectedDevice_def)
  then have names: "distinct (map (\<lambda>h. foldKey ?u (ih_Name h)) (dv_Interfaces v))" by (simp add: device_ok_def)
  obtain net where net: "NetworkByID d (eg_NetworkID e) = Some net" "?H (ih_ID h) = Some net"
    using handle_network[OF valid assms(5)] assms(6) by auto
  have "findInterfaceIndex ?u xs (ih_Name h) = Some j"
    using assms(7) search_shapes[OF connect_shapes] unfolding xs findInterfaceIndex_def by metis
  then show ?thesis using connect_vlan[where H = ?H, OF names assms(4) net(2)] net(1) unfolding xs by blast
qed

theorem connected_vlan_witness: "value_at (specNodeInterfaces ex_spec ! 0) [''vlan''] = Some (VStr ''EXP'')"
proof -
  have "\<exists>net. NetworkByID ex_document (eg_NetworkID ex_edge) = Some net
      \<and> value_at (specNodeInterfaces ex_spec ! 0) [''vlan''] = Some (VStr (bw_Name net))"
    by (rule connected_vlan[OF ex_ToTopology, of ex_node ex_spec ex_device "hd (dv_Interfaces ex_device)"])
      (simp_all add: ex_simps projectedDevice_def spec_nodes_def ex_topology_def edge_handle_def node_table_def,
       simp add: ex_spec_def specNodeInterfaces_def findInterfaceIndex_def interfaceName_def)
  then show ?thesis by (simp add: NetworkByID_def ex_simps)
qed



end
