(* ===== verification/Vlan.thy ===== *)
theory Vlan
  imports Experiment_Api
begin

section \<open>VLAN aliases and ranges of experiments\<close>

text \<open>
  \<^verbatim>\<open>api/vlan\<close>: reading and setting the VLAN aliases and ranges of the stored experiments, through
  \<^verbatim>\<open>Get\<close>, \<^verbatim>\<open>List\<close> and \<^verbatim>\<open>Save\<close> of \<^verbatim>\<open>api/experiment\<close>. Its properties rest on the laws of
  \<open>experiment_store\<close>. \<open>ord\<close> gives the keys of a map in the order a range takes.
\<close>

record vlan_options =
  vo_exp :: string
  vo_alias :: string
  vo_id :: int
  vo_min :: int
  vo_max :: int
  vo_force :: bool

datatype vlan_api_err =
  NoExperiment | NoAlias | NoID | NoMin | NoMax | MinAboveMax
| ListingExperiments "exp_err list" | GettingExperiment string exp_err
| AliasNotFound string string | AliasUnassigned string string
| SettingAlias string vlan_err | SettingRange string vlan_err
| SavingSpec string exp_err | VlanPanic go_panic

type_synonym ('s, 'a) vlan_action = "('s, vlan_api_err, 'a) action"

definition exp_call :: "(exp_err \<Rightarrow> vlan_api_err) \<Rightarrow> ('s, 'a) exp_action \<Rightarrow> ('s, 'a) vlan_action" where
  "exp_call f m s = (case m s of (s', Inl e) \<Rightarrow> (s', Inl (f e)) | (s', Inr x) \<Rightarrow> (s', Inr x))"

text \<open>A list with an error is an error, although it has the experiments that decode.\<close>

definition the_experiments :: "('s, 'v) exp_env \<Rightarrow> string \<Rightarrow> ('s, Experiment list) vlan_action" where
  "the_experiments X name =
     (if name = [] then
        bindE (exp_call (\<lambda>e. ListingExperiments [e]) (Experiment_List X)) (\<lambda>(es, errs).
          if errs = [] then retE es else failE (ListingExperiments errs))
      else bindE (exp_call (GettingExperiment name) (Experiment_Get X name)) (\<lambda>e. retE [e]))"

definition experiment_aliases :: "Experiment \<Rightarrow> (string, int) gomap" where
  "experiment_aliases e =
     (if Running e then map_made (st_VLANs (the (ex_Status e)))
      else VLANSpec_Aliases (ExperimentSpec_VLANs (ex_Spec e)))"

definition Aliases ::
  "('s, 'v) exp_env \<Rightarrow> vlan_options \<Rightarrow> ('s, string \<Rightarrow> (string, int) gomap option) vlan_action" where
  "Aliases X opt =
     bindE (the_experiments X (vo_exp opt)) (\<lambda>es.
       retE (foldl (\<lambda>info e. info(ex_Name e \<mapsto> experiment_aliases e)) Map.empty es))"

definition empty_options :: vlan_options where
  "empty_options = \<lparr>vo_exp = [], vo_alias = [], vo_id = 0, vo_min = 0, vo_max = 0, vo_force = False\<rparr>"

definition AliasID :: "('s, 'v) exp_env \<Rightarrow> vlan_options \<Rightarrow> ('s, int) vlan_action" where
  "AliasID X opt =
     (if vo_exp opt = [] then failE NoExperiment
      else if vo_alias opt = [] then failE NoAlias
      else
        bindE (Aliases X (empty_options\<lparr>vo_exp := vo_exp opt\<rparr>)) (\<lambda>info.
          case map_get (case info (vo_exp opt) of None \<Rightarrow> None | Some m \<Rightarrow> m) (vo_alias opt) of
            None \<Rightarrow> failE (AliasNotFound (vo_exp opt) (vo_alias opt))
          | Some i \<Rightarrow> if i = 0 then failE (AliasUnassigned (vo_exp opt) (vo_alias opt)) else retE i))"

definition save_spec :: "('s, 'v) exp_env \<Rightarrow> string \<Rightarrow> string \<Rightarrow> ExperimentSpec \<Rightarrow> ('s, unit) vlan_action" where
  "save_spec X now name spec =
     bindE (exp_call (SavingSpec name) (Experiment_Save X now name (Some spec))) (\<lambda>_. retE ())"

definition SetAlias :: "('s, 'v) exp_env \<Rightarrow> string \<Rightarrow> vlan_options \<Rightarrow> ('s, unit) vlan_action" where
  "SetAlias X now opt =
     (if vo_exp opt = [] then failE NoExperiment
      else if vo_alias opt = [] then failE NoAlias
      else if vo_id opt = 0 then failE NoID
      else
        bindE (exp_call (GettingExperiment (vo_exp opt)) (Experiment_Get X (vo_exp opt))) (\<lambda>e.
          case SetVLANAlias (vo_alias opt) (vo_id opt) (vo_force opt) (ex_Spec e) of
            Inl p \<Rightarrow> failE (VlanPanic p)
          | Inr (spec, Some err) \<Rightarrow> failE (SettingAlias (vo_exp opt) err)
          | Inr (spec, None) \<Rightarrow> save_spec X now (vo_exp opt) spec))"

text \<open>The loop over the VLANs of a running experiment: the least and the greatest id.\<close>

fun vlan_bounds :: "int \<Rightarrow> int \<Rightarrow> int list \<Rightarrow> int \<times> int" where
  "vlan_bounds minVal maxVal [] = (minVal, maxVal)"
| "vlan_bounds minVal maxVal (k # ks) =
     vlan_bounds (if minVal = 0 \<or> k < minVal then k else minVal)
       (if maxVal = 0 \<or> k > maxVal then k else maxVal) ks"

type_synonym key_order = "(string \<Rightarrow> int option) \<Rightarrow> string list"

definition experiment_range :: "key_order \<Rightarrow> Experiment \<Rightarrow> int \<times> int" where
  "experiment_range ord e =
     (if Running e then
        let m = map_get (st_VLANs (the (ex_Status e)))
        in vlan_bounds 0 0 (map (\<lambda>k. the (m k)) (ord m))
      else (vl_Min (ExperimentSpec_VLANs (ex_Spec e)), vl_Max (ExperimentSpec_VLANs (ex_Spec e))))"

definition Ranges ::
  "key_order \<Rightarrow> ('s, 'v) exp_env \<Rightarrow> vlan_options \<Rightarrow> ('s, string \<Rightarrow> (int \<times> int) option) vlan_action" where
  "Ranges ord X opt =
     bindE (the_experiments X (vo_exp opt)) (\<lambda>es.
       retE (foldl (\<lambda>info e. info(ex_Name e \<mapsto> experiment_range ord e)) Map.empty es))"

definition SetRange :: "key_order \<Rightarrow> ('s, 'v) exp_env \<Rightarrow> string \<Rightarrow> vlan_options \<Rightarrow> ('s, unit) vlan_action" where
  "SetRange ord X now opt =
     (if vo_exp opt = [] then failE NoExperiment
      else if vo_min opt = 0 then failE NoMin
      else if vo_max opt = 0 then failE NoMax
      else if vo_min opt > vo_max opt then failE MinAboveMax
      else
        bindE (exp_call (GettingExperiment (vo_exp opt)) (Experiment_Get X (vo_exp opt))) (\<lambda>e.
          case SetVLANRange (ord (map_get (vl_Aliases (vlans_made (ex_Spec e)))))
                 (vo_min opt) (vo_max opt) (vo_force opt) (ex_Spec e) of
            (spec, Some err) \<Rightarrow> failE (SettingRange (vo_exp opt) err)
          | (spec, None) \<Rightarrow> save_spec X now (vo_exp opt) spec))"

subsection \<open>Over the laws of the store\<close>

context experiment_store
begin

lemma alias_law:
  assumes "ok s" and "AliasID X opt s = (s', r)" and "vo_exp opt \<noteq> []" and "vo_alias opt \<noteq> []"
  shows "view s' = view s \<and> (case r of
      Inr i \<Rightarrow> \<exists>e. exps s (vo_exp opt) = Some e \<and> map_get (experiment_aliases e) (vo_alias opt) = Some i \<and> i \<noteq> 0
    | Inl (GettingExperiment m err) \<Rightarrow> m = vo_exp opt
    | Inl err \<Rightarrow> \<exists>e. exps s (vo_exp opt) = Some e \<and>
        (map_get (experiment_aliases e) (vo_alias opt) = None \<and> err = AliasNotFound (vo_exp opt) (vo_alias opt)
         \<or> map_get (experiment_aliases e) (vo_alias opt) = Some 0 \<and> err = AliasUnassigned (vo_exp opt) (vo_alias opt)))"
proof -
  obtain s1 r1 where g: "Experiment_Get X (vo_exp opt) s = (s1, r1)" by fastforce
  note g1 = get_law'[OF assms(1) g]
  show ?thesis
    using assms(2-4) g g1
    by (cases r1) (auto simp: AliasID_def Aliases_def the_experiments_def exp_call_def bindE_def empty_options_def split: option.splits if_splits)
qed

text \<open>A stored experiment is changed only by saving the spec that was set.\<close>

lemma save_spec_law:
  assumes "ok s" and "save_spec X now n sp s = (s', r)" and "exps s n = Some e"
  shows "ok s' \<and> (case r of
      Inl _ \<Rightarrow> view s' = view s
    | Inr _ \<Rightarrow> (\<forall>k. k \<noteq> (''Experiment'', n) \<longrightarrow> view s' k = view s k)
        \<and> exps s' n = Some (e\<lparr>ex_Spec := sp, ex_Metadata := (ex_Metadata e)\<lparr>cm_Updated := now\<rparr>\<rparr>))"
proof -
  obtain s1 r1 where sv: "Experiment_Save X now n (Some sp) s = (s1, r1)" by fastforce
  show ?thesis
    using assms(2,3) sv save_law[OF assms(1) sv] by (cases r1) (auto simp: save_spec_def exp_call_def bindE_def)
qed

lemma set_alias_law:
  assumes "ok s" and "SetAlias X now opt s = (s', r)"
  shows "ok s' \<and> (case r of
      Inl _ \<Rightarrow> view s' = view s
    | Inr _ \<Rightarrow> (\<forall>k. k \<noteq> (''Experiment'', vo_exp opt) \<longrightarrow> view s' k = view s k)
        \<and> vo_exp opt \<noteq> [] \<and> vo_alias opt \<noteq> [] \<and> vo_id opt \<noteq> 0
        \<and> (\<exists>e sp. exps s (vo_exp opt) = Some e
             \<and> SetVLANAlias (vo_alias opt) (vo_id opt) (vo_force opt) (ex_Spec e) = Inr (sp, None)
             \<and> exps s' (vo_exp opt) = Some (e\<lparr>ex_Spec := sp, ex_Metadata := (ex_Metadata e)\<lparr>cm_Updated := now\<rparr>\<rparr>)))"
proof -
  let ?n = "vo_exp opt"
  obtain s1 r1 where g: "Experiment_Get X ?n s = (s1, r1)" by fastforce
  note g1 = get_law'[OF assms(1) g]
  have same: "exps s1 = exps s" using g1 by (simp add: stored_exp_def fun_eq_iff)
  show ?thesis
  proof (cases "\<exists>e sp. r1 = Inr e \<and> ?n \<noteq> [] \<and> vo_alias opt \<noteq> [] \<and> vo_id opt \<noteq> 0
      \<and> SetVLANAlias (vo_alias opt) (vo_id opt) (vo_force opt) (ex_Spec e) = Inr (sp, None)")
    case True
    then obtain e sp where e: "r1 = Inr e" "?n \<noteq> []" "vo_alias opt \<noteq> []" "vo_id opt \<noteq> 0"
      "SetVLANAlias (vo_alias opt) (vo_id opt) (vo_force opt) (ex_Spec e) = Inr (sp, None)" by blast
    then have "save_spec X now ?n sp s1 = (s', r)" using assms(2) g by (simp add: SetAlias_def exp_call_def bindE_def)
    moreover have "ok s1" "exps s1 ?n = Some e" "view s1 = view s" using g1 e(1) same by auto
    ultimately show ?thesis using save_spec_law[of s1 now ?n sp s' r e] e same by (auto split: sum.splits)
  next
    case False
    then have "(s' = s \<or> s' = s1) \<and> (\<exists>err. r = Inl err)"
      using assms(2) g by (auto simp: SetAlias_def exp_call_def bindE_def split: if_splits sum.splits option.splits)
    then show ?thesis using g1 assms(1) by auto
  qed
qed

text \<open>
  \<^verbatim>\<open>SetRange\<close> refuses every range for an experiment with an alias that has no id yet, which is
  how \<^verbatim>\<open>Init\<close> leaves the aliases of the topology.
\<close>

lemma set_range_refused:
  assumes "ok s" and "SetRange ord X now opt s = (s', r)" and "exps s (vo_exp opt) = Some e" and "0 < vo_min opt"
    and "map_get (vl_Aliases (vlans_made (ex_Spec e))) k = Some 0"
    and "set (ord (map_get (vl_Aliases (vlans_made (ex_Spec e))))) = dom (map_get (vl_Aliases (vlans_made (ex_Spec e))))"
  shows "view s' = view s \<and> (\<exists>err. r = Inl err)"
proof -
  have "k \<in> set (ord (map_get (vl_Aliases (vlans_made (ex_Spec e)))))" using assms(5,6) by auto
  from range_refused_unassigned[OF this assms(5,4), of "vo_max opt" "vo_force opt"] obtain sp err where
    refused: "SetVLANRange (ord (map_get (vl_Aliases (vlans_made (ex_Spec e))))) (vo_min opt) (vo_max opt) (vo_force opt) (ex_Spec e)
      = (sp, Some err)" by (metis not_None_eq prod.collapse)
  obtain s1 r1 where g: "Experiment_Get X (vo_exp opt) s = (s1, r1)" by fastforce
  show ?thesis
    using assms(2,3) refused g get_law'[OF assms(1) g]
    by (cases r1) (auto simp: SetRange_def exp_call_def bindE_def split: if_splits)
qed

end

subsection \<open>Setting and reading\<close>

text \<open>
  An alias that is set is read back: after \<^verbatim>\<open>SetAlias\<close> succeeds on a stopped experiment,
  \<^verbatim>\<open>AliasID\<close> gives the id that was set, unless the experiment cannot be read; the id is in the range
  of the experiment, and no other config changed. When it fails, nothing changed.
\<close>

theorem set_alias_read_back:
  assumes "experiment_store X ok view norm" and "ok s" and "SetAlias X now opt s = (s', r)"
    and "stored_exp X view s (vo_exp opt) = Some e" and "\<not> Running e"
    and "AliasID X (empty_options\<lparr>vo_exp := vo_exp opt, vo_alias := vo_alias opt\<rparr>) s' = (s'', id')"
  shows "case r of
      Inl _ \<Rightarrow> view s' = view s
    | Inr _ \<Rightarrow> (id' = Inr (vo_id opt) \<or> (\<exists>err. id' = Inl (GettingExperiment (vo_exp opt) err)))
        \<and> within (vl_Min (vlans_made (ex_Spec e))) (vl_Max (vlans_made (ex_Spec e))) (vo_id opt)
        \<and> (\<forall>k. k \<noteq> (''Experiment'', vo_exp opt) \<longrightarrow> view s'' k = view s k)"
proof (cases r)
  case (Inl err)
  then show ?thesis using experiment_store.set_alias_law[OF assms(1-3)] by simp
next
  case (Inr u)
  let ?n = "vo_exp opt" and ?a = "vo_alias opt" and ?i = "vo_id opt"
  obtain sp where ok: "ok s'" and ne: "?n \<noteq> []" "?a \<noteq> []" "?i \<noteq> 0"
    and frame: "\<forall>k. k \<noteq> (''Experiment'', ?n) \<longrightarrow> view s' k = view s k"
    and sp: "SetVLANAlias ?a ?i (vo_force opt) (ex_Spec e) = Inr (sp, None)"
    and e': "stored_exp X view s' ?n = Some (e\<lparr>ex_Spec := sp, ex_Metadata := (ex_Metadata e)\<lparr>cm_Updated := now\<rparr>\<rparr>)"
    using experiment_store.set_alias_law[OF assms(1-3)] assms(4) Inr by auto
  obtain m where m: "es_VLANs sp = Some ((vlans_made (ex_Spec e))\<lparr>vl_Aliases := Some (m(?a \<mapsto> ?i))\<rparr>)"
    and w: "within (vl_Min (vlans_made (ex_Spec e))) (vl_Max (vlans_made (ex_Spec e))) ?i"
    using sp by (auto simp: SetVLANAlias_def Let_def map_put_def within_def split: if_splits option.splits)
  have "map_get (experiment_aliases (e\<lparr>ex_Spec := sp, ex_Metadata := (ex_Metadata e)\<lparr>cm_Updated := now\<rparr>\<rparr>)) ?a = Some ?i"
    using assms(5) m by (simp add: experiment_aliases_def Running_def VLANSpec_Aliases_def ExperimentSpec_VLANs_def)
  then show ?thesis
    using experiment_store.alias_law[OF assms(1) ok assms(6)] ne e' frame w Inr
    by (auto simp: empty_options_def split: sum.splits vlan_api_err.splits)
qed

theorem set_alias_read_back_witness:
  "\<exists>s' s''. SetAlias al_exp_env ''t1'' (empty_options\<lparr>vo_exp := ''exp'', vo_alias := ''ops'', vo_id := 7\<rparr>)
       (one_exp ''exp'' ''t0'' example_spec) = (s', Inr ())
     \<and> AliasID al_exp_env (empty_options\<lparr>vo_exp := ''exp'', vo_alias := ''ops''\<rparr>) s' = (s'', Inr 7)"
proof -
  let ?o = "empty_options\<lparr>vo_exp := ''exp'', vo_alias := ''ops'', vo_id := 7\<rparr>" and ?s = "one_exp ''exp'' ''t0'' example_spec"
  let ?sp = "example_spec\<lparr>es_VLANs := Some \<lparr>vl_Aliases = Some [''ops'' \<mapsto> 7], vl_Min = 0, vl_Max = 0\<rparr>\<rparr>"
  have "SetVLANAlias ''ops'' 7 False example_spec = Inr (?sp, None)"
    by (simp add: SetVLANAlias_def vlans_made_def map_put_def example_spec_def Let_def)
  then have set: "SetAlias al_exp_env ''t1'' ?o ?s = (one_exp ''exp'' ''t1'' ?sp, Inr ())"
    by (simp add: SetAlias_def one_exp_get one_exp_save save_spec_def exp_call_def bindE_def empty_options_def exp_of_def)
  obtain s'' r where al: "AliasID al_exp_env (empty_options\<lparr>vo_exp := vo_exp ?o, vo_alias := vo_alias ?o\<rparr>) (one_exp ''exp'' ''t1'' ?sp) = (s'', r)"
    by fastforce
  have "\<not> (\<exists>err. r = Inl (GettingExperiment ''exp'' err))"
    using al by (auto simp: AliasID_def Aliases_def the_experiments_def one_exp_get exp_call_def bindE_def empty_options_def split: option.splits if_splits)
  then show ?thesis
    using set_alias_read_back[OF alx.experiment_store_axioms one_exp_ok set, of "exp_of ''exp'' ''t0'' example_spec" s'' r] al set
    by (auto simp: exp_of_def Running_def empty_status_def empty_options_def)
qed

lemma vlan_bounds_min_max:
  "\<forall>k \<in> set ks. 0 < k \<Longrightarrow> 0 < mn \<Longrightarrow> 0 < mx \<Longrightarrow>
   vlan_bounds mn mx ks = (Min (insert mn (set ks)), Max (insert mx (set ks)))"
proof (induction ks arbitrary: mn mx)
  case (Cons k ks)
  have "vlan_bounds mn mx (k # ks) = vlan_bounds (min mn k) (max mx k) ks"
    using Cons.prems by (auto simp: min_def max_def not_less order_antisym_conv)
  also have "\<dots> = (Min (insert (min mn k) (set ks)), Max (insert (max mx k) (set ks)))"
    using Cons by simp
  also have "\<dots> = (Min (insert mn (set (k # ks))), Max (insert mx (set (k # ks))))"
    by (cases "ks = []") (simp_all add: min.assoc max.assoc)
  finally show ?case .
qed simp

text \<open>
  C21: the range reported for a running experiment is the least and the greatest VLAN id it uses,
  whatever the order in which they are looked at, and 0 to 0 when it uses none.
\<close>

theorem running_range_bounds:
  assumes "Running e" and "st_VLANs (the (ex_Status e)) = Some m" and "set (ord m) = dom m"
    and "\<forall>k i. m k = Some i \<longrightarrow> 0 < i"
  shows "experiment_range ord e = (if m = Map.empty then (0, 0) else (Min (ran m), Max (ran m)))"
proof -
  let ?is = "map (\<lambda>k. the (m k)) (ord m)"
  have set: "set ?is = ran m" using assms(3) by (force simp: ran_def dom_def)
  have pos: "\<forall>i \<in> set ?is. 0 < i" using assms(4) by (auto simp: set[unfolded set_map] ran_def)
  have range: "experiment_range ord e = vlan_bounds 0 0 ?is"
    using assms(1,2) by (simp add: experiment_range_def Let_def)
  show ?thesis
  proof (cases "ord m")
    case Nil
    then have "m = Map.empty" using assms(3) by auto
    then show ?thesis using range Nil by simp
  next
    case (Cons k ks)
    let ?i = "the (m k)" and ?js = "map (\<lambda>k. the (m k)) ks"
    have "vlan_bounds 0 0 ?is = vlan_bounds ?i ?i ?js" by (simp add: Cons)
    also have "\<dots> = (Min (insert ?i (set ?js)), Max (insert ?i (set ?js)))"
      using pos by (intro vlan_bounds_min_max) (simp_all add: Cons)
    also have "insert ?i (set ?js) = ran m" using set by (simp add: Cons)
    finally show ?thesis using range Cons assms(3) by auto
  qed
qed

theorem running_range_bounds_witness:
  "experiment_range (\<lambda>_. [''b'', ''a'']) \<lparr>ex_Metadata = empty_metadata, ex_Spec = example_spec, ex_Status = Some
      \<lparr>st_StartTime = ''now'', st_Schedules = None, st_Apps = None, st_VLANs = Some [''a'' \<mapsto> 5, ''b'' \<mapsto> 9],
       st_Frequency = None, st_Running = None, st_Cleanup = None\<rparr>\<rparr> = (5, 9)"
proof -
  let ?m = "[''a'' \<mapsto> 5, ''b'' \<mapsto> 9 :: int]"
  let ?e = "\<lparr>ex_Metadata = empty_metadata, ex_Spec = example_spec, ex_Status = Some
      \<lparr>st_StartTime = ''now'', st_Schedules = None, st_Apps = None, st_VLANs = Some ?m,
       st_Frequency = None, st_Running = None, st_Cleanup = None\<rparr>\<rparr>"
  have r: "ran ?m = {5, 9}" by auto
  have "experiment_range (\<lambda>_. [''b'', ''a'']) ?e = (if ?m = Map.empty then (0, 0) else (Min (ran ?m), Max (ran ?m)))"
    by (rule running_range_bounds) (auto simp: Running_def)
  then show ?thesis by (simp add: r)
qed

end
