(* ===== verification/Glob.thy ===== *)
theory Glob
  imports Go_Prelude
begin

section \<open>Shell patterns: \<^verbatim>\<open>filepath.Match\<close>\<close>

text \<open>
  Roles name resources with the patterns of \<^verbatim>\<open>path/filepath\<close>, so the decision of the access
  control is that of \<^verbatim>\<open>filepath.Match\<close>. This theory models that function of the standard
  library (on Unix) over byte codes: a pattern is cut into chunks at the stars, each chunk is
  matched against the start of the name, and a star may skip bytes other than the separator.
  In \<open>match_chunk\<close> and \<open>glob\<close> the outer \<^const>\<open>None\<close> is \<^verbatim>\<open>ErrBadPattern\<close>. The main fact is
  that a pattern is bad or not whatever name it is matched against: this is what makes the
  validity checks of \<^verbatim>\<open>rbac\<close>, which match against the name \<^verbatim>\<open>useless\<close>, meaningful.
\<close>

text \<open>The bytes with a meaning: \<^verbatim>\<open>*\<close> 42, \<^verbatim>\<open>-\<close> 45, \<^verbatim>\<open>/\<close> 47, \<^verbatim>\<open>?\<close> 63, \<^verbatim>\<open>[\<close> 91, \<^verbatim>\<open>\\<close> 92, \<^verbatim>\<open>]\<close> 93, \<^verbatim>\<open>^\<close> 94.\<close>

definition get_esc :: "nat list \<Rightarrow> (rune \<times> nat list) option" where
  "get_esc chunk =
     (case chunk of
        [] \<Rightarrow> None
      | c # cs \<Rightarrow>
          if c = 45 \<or> c = 93 then None
          else
            let ch = (if c = 92 then cs else chunk)
            in if ch = [] then None
               else
                 let (r, n) = rune_at ch; rest = drop n ch
                 in if (r = rune_error \<and> n = 1) \<or> rest = [] then None else Some (r, rest))"

lemma rune_at_width: "bs \<noteq> [] \<Longrightarrow> 1 \<le> snd (rune_at bs)"
proof (cases bs)
  case (Cons b xs)
  then show ?thesis
    by (cases "b < 128") (auto simp: rune_at.simps(2) Let_def split: list.splits if_splits)
qed simp

lemma get_esc_shorter: "get_esc ch = Some (r, rest) \<Longrightarrow> length rest < length ch"
  using rune_at_width[of ch] rune_at_width[of "tl ch"]
  by (cases ch) (auto simp: get_esc_def Let_def split: if_splits prod.splits)

text \<open>One range of a character class, \<open>lo\<close> or \<open>lo-hi\<close>.\<close>

definition next_range :: "nat list \<Rightarrow> (rune \<times> rune \<times> nat list) option" where
  "next_range chunk =
     (case get_esc chunk of
        None \<Rightarrow> None
      | Some (lo, ch1) \<Rightarrow>
          if hd ch1 = 45 then
            (case get_esc (tl ch1) of None \<Rightarrow> None | Some (hi, ch2) \<Rightarrow> Some (lo, hi, ch2))
          else Some (lo, lo, ch1))"

lemma next_range_shorter: "next_range ch = Some (lo, hi, rest) \<Longrightarrow> length rest < length ch"
  by (auto simp: next_range_def dest!: get_esc_shorter split: option.splits prod.splits if_splits)

text \<open>
  The ranges of a character class up to its closing bracket: whether one of them has the rune,
  and what follows. \<open>some\<close> says that a range has been read.
\<close>

function class_ranges :: "rune \<Rightarrow> bool \<Rightarrow> bool \<Rightarrow> nat list \<Rightarrow> (bool \<times> nat list) option" where
  "class_ranges r some m chunk =
     (if chunk \<noteq> [] \<and> hd chunk = 93 \<and> some then Some (m, tl chunk)
      else
        (case next_range chunk of
           None \<Rightarrow> None
         | Some (lo, hi, ch2) \<Rightarrow> class_ranges r True (m \<or> (lo \<le> r \<and> r \<le> hi)) ch2))"
  by pat_completeness auto

termination class_ranges
  by (relation "measure (\<lambda>(r, some, m, chunk). length chunk)") (auto dest: next_range_shorter)

declare class_ranges.simps [simp del]

lemma class_ranges_shorter: "class_ranges r some m chunk = Some (m', rest) \<Longrightarrow> length rest \<le> length chunk"
proof (induction r some m chunk rule: class_ranges.induct)
  case (1 r some m chunk)
  show ?case
  proof (cases "chunk \<noteq> [] \<and> hd chunk = 93 \<and> some")
    case True
    then show ?thesis using "1.prems" by (auto simp: class_ranges.simps[of _ _ _ chunk])
  next
    case False
    then obtain lo hi ch2 where n: "next_range chunk = Some (lo, hi, ch2)"
      using "1.prems" by (auto simp: class_ranges.simps[of r some m chunk] split: option.splits)
    then have "class_ranges r True (m \<or> (lo \<le> r \<and> r \<le> hi)) ch2 = Some (m', rest)"
      using "1.prems" False by (auto simp: class_ranges.simps[of r some m chunk])
    then show ?thesis using "1.IH"[OF False n refl refl] next_range_shorter[OF n] by simp
  qed
qed

text \<open>Matching one byte of the chunk; \<^const>\<open>None\<close> is a match that has failed.\<close>

definition match_byte :: "nat \<Rightarrow> nat list option \<Rightarrow> nat list option" where
  "match_byte c s =
     (case s of None \<Rightarrow> None | Some [] \<Rightarrow> None | Some (x # xs) \<Rightarrow> if c = x then Some xs else None)"

definition match_any :: "nat list option \<Rightarrow> nat list option" where
  "match_any s =
     (case s of None \<Rightarrow> None
      | Some t \<Rightarrow> if t = [] \<or> hd t = 47 then None else Some (drop (snd (rune_at t)) t))"

text \<open>The rune a class is matched against and the rest of the name; a failed match reads none.\<close>

definition class_rune :: "nat list option \<Rightarrow> rune \<times> nat list option" where
  "class_rune s =
     (case s of None \<Rightarrow> (0, None)
      | Some t \<Rightarrow> if t = [] then (0, None) else (fst (rune_at t), Some (drop (snd (rune_at t)) t)))"

text \<open>
  After a failure the chunk is still read to its end, to find syntax errors. The state is the
  rest of the name, or \<^const>\<open>None\<close> after a failure.
\<close>

function match_chunk :: "nat list \<Rightarrow> nat list option \<Rightarrow> nat list option option" where
  "match_chunk [] s = Some s"
| "match_chunk (c # cs) s =
     (if c = 91 then
        let (r, s1) = class_rune s;
            negated = (cs \<noteq> [] \<and> hd cs = 94)
        in (case class_ranges r False False (if negated then tl cs else cs) of
              None \<Rightarrow> None
            | Some (m, rest) \<Rightarrow> match_chunk rest (if m = negated then None else s1))
      else if c = 63 then match_chunk cs (match_any s)
      else if c = 92 then
        (case cs of [] \<Rightarrow> None | d # ds \<Rightarrow> match_chunk ds (match_byte d s))
      else match_chunk cs (match_byte c s))"
  by pat_completeness auto

termination match_chunk
  by (relation "measure (\<lambda>(chunk, s). length chunk)")
     (auto dest!: class_ranges_shorter split: if_splits)

fun scan :: "bool \<Rightarrow> nat list \<Rightarrow> nat list \<times> nat list" where
  "scan inrange [] = ([], [])"
| "scan inrange (c # cs) =
     (if c = 92 then
        (case cs of
           [] \<Rightarrow> ([c], [])
         | d # ds \<Rightarrow> (case scan inrange ds of (a, b) \<Rightarrow> (c # d # a, b)))
      else if c = 42 \<and> \<not> inrange then ([], c # cs)
      else (case scan (if c = 91 then True else if c = 93 then False else inrange) cs of
              (a, b) \<Rightarrow> (c # a, b)))"

definition scan_chunk :: "nat list \<Rightarrow> bool \<times> nat list \<times> nat list" where
  "scan_chunk p =
     (let q = dropWhile (\<lambda>c. c = 42) p
      in (p \<noteq> [] \<and> hd p = 42, scan False q))"

lemma scan_append: "scan b p = (chunk, rest) \<Longrightarrow> chunk @ rest = p"
  by (induction b p arbitrary: chunk rest rule: scan.induct)
     (auto split: if_splits prod.splits list.splits)

lemma scan_chunk_shorter:
  assumes "scan_chunk p = (star, chunk, rest)" and "p \<noteq> []"
  shows "length rest < length p"
proof -
  have q: "chunk @ rest = dropWhile (\<lambda>c. c = 42) p"
    using assms(1) by (auto simp: scan_chunk_def Let_def dest: scan_append)
  then have le: "length chunk + length rest \<le> length p"
    using length_dropWhile_le[of "\<lambda>c. c = 42" p] by (metis length_append)
  show ?thesis
  proof (cases "hd p = 42")
    case True
    then have "length (dropWhile (\<lambda>c. c = 42) p) < length p"
      using assms(2) length_dropWhile_le[of "\<lambda>c. c = 42" "tl p"] by (cases p) auto
    moreover have "length chunk + length rest = length (dropWhile (\<lambda>c. c = 42) p)"
      using q by (metis length_append)
    ultimately show ?thesis by simp
  next
    case False
    then obtain c cs where p: "p = c # cs" "c \<noteq> 42" using assms(2) by (cases p) auto
    then have "scan False p = (chunk, rest)" using assms(1) by (simp add: scan_chunk_def Let_def)
    then have "chunk \<noteq> []" using p by (auto split: if_splits list.splits prod.splits)
    then show ?thesis using le by (cases chunk) auto
  qed
qed

text \<open>
  The positions a star may skip to: \<open>None\<close> a syntax error, \<open>Some None\<close> no match, else the rest
  of the name after the first match. \<open>final\<close> says that no pattern is left after the chunk, so
  that the chunk has to end the name.
\<close>

fun skip_match :: "nat list \<Rightarrow> bool \<Rightarrow> nat list \<Rightarrow> nat list option option" where
  "skip_match chunk final [] = Some None"
| "skip_match chunk final (c # cs) =
     (if c = 47 then Some None
      else
        (case match_chunk chunk (Some cs) of
           None \<Rightarrow> None
         | Some (Some t) \<Rightarrow> if final \<and> t \<noteq> [] then skip_match chunk final cs else Some (Some t)
         | Some None \<Rightarrow> skip_match chunk final cs))"

text \<open>The syntax check of the pattern that is left after a failed match.\<close>

function check_rest :: "nat list \<Rightarrow> bool option" where
  "check_rest p =
     (if p = [] then Some False
      else
        (case scan_chunk p of (star, chunk, rest) \<Rightarrow>
           (case match_chunk chunk (Some []) of None \<Rightarrow> None | Some t \<Rightarrow> check_rest rest)))"
  by pat_completeness auto

termination check_rest
  by (relation "measure length") (auto dest: scan_chunk_shorter[OF sym])

declare check_rest.simps [simp del]

function glob :: "nat list \<Rightarrow> nat list \<Rightarrow> bool option" where
  "glob p name =
     (if p = [] then Some (name = [])
      else
        (case scan_chunk p of (star, chunk, rest) \<Rightarrow>
           if star \<and> chunk = [] then Some (47 \<notin> set name)
           else
             (case match_chunk chunk (Some name) of
                None \<Rightarrow> None
              | Some r \<Rightarrow>
                  if r \<noteq> None \<and> (the r = [] \<or> rest \<noteq> []) then glob rest (the r)
                  else if star then
                    (case skip_match chunk (rest = []) name of
                       None \<Rightarrow> None
                     | Some (Some t) \<Rightarrow> glob rest t
                     | Some None \<Rightarrow> check_rest rest)
                  else check_rest rest)))"
  by pat_completeness auto

termination glob
  by (relation "measure (\<lambda>(p, name). length p)") (auto dest: scan_chunk_shorter[OF sym])

declare glob.simps [simp del]

text \<open>\<^verbatim>\<open>filepath.Match(pattern, name)\<close>; \<^const>\<open>None\<close> is \<^verbatim>\<open>ErrBadPattern\<close>.\<close>

definition Match :: "string \<Rightarrow> string \<Rightarrow> bool option" where
  "Match pattern name = glob (map code_of pattern) (map code_of name)"

text \<open>\<^verbatim>\<open>matched, _ := filepath.Match(pattern, name)\<close>: a bad pattern matches nothing.\<close>

definition matches :: "string \<Rightarrow> string \<Rightarrow> bool" where
  "matches pattern name \<longleftrightarrow> Match pattern name = Some True"

definition bad_pattern :: "string \<Rightarrow> bool" where
  "bad_pattern pattern \<longleftrightarrow> Match pattern ''useless'' = None"

subsection \<open>A pattern is bad whatever the name\<close>

lemma class_ranges_bad:
  "map_option snd (class_ranges r some m chunk) = map_option snd (class_ranges r' some m' chunk)"
proof (induction r some m chunk arbitrary: r' m' rule: class_ranges.induct)
  case (1 r some m chunk)
  show ?case
  proof (cases "chunk \<noteq> [] \<and> hd chunk = 93 \<and> some")
    case True
    then show ?thesis by (simp add: class_ranges.simps[of _ _ _ chunk])
  next
    case False
    show ?thesis
    proof (cases "next_range chunk")
      case None
      then show ?thesis using False by (simp add: class_ranges.simps[of _ _ _ chunk])
    next
      case (Some x)
      obtain lo hi ch2 where x: "x = (lo, hi, ch2)" by (cases x)
      have e: "class_ranges r'' some m'' chunk = class_ranges r'' True (m'' \<or> (lo \<le> r'' \<and> r'' \<le> hi)) ch2"
        for r'' m'' using False Some x by (subst class_ranges.simps) auto
      show ?thesis unfolding e by (rule "1.IH"[OF False Some[unfolded x] refl refl])
    qed
  qed
qed

lemma class_ranges_None:
  "class_ranges r some m chunk = None \<longleftrightarrow> class_ranges r' some m' chunk = None"
  using class_ranges_bad[of r some m chunk r' m'] by (metis option.map_disc_iff)

lemma class_ranges_same:
  assumes "class_ranges r some m chunk = Some (a, rest)"
  shows "\<exists>b. class_ranges r' some m' chunk = Some (b, rest)"
proof -
  have "map_option snd (class_ranges r' some m' chunk) = Some rest"
    using class_ranges_bad[of r' some m' chunk r m] assms by simp
  then show ?thesis by auto
qed

lemma match_chunk_bad: "match_chunk chunk s = None \<longleftrightarrow> match_chunk chunk t = None"
proof (induction chunk s arbitrary: t rule: match_chunk.induct)
  case (2 c cs s)
  let ?cs = "if cs \<noteq> [] \<and> hd cs = 94 then tl cs else cs"
  obtain r s1 where rs: "class_rune s = (r, s1)" by fastforce
  obtain r' t1 where rt: "class_rune t = (r', t1)" by fastforce
  consider "c = 91" | "c = 63" | "c = 92" | "c \<noteq> 91" "c \<noteq> 63" "c \<noteq> 92" by blast
  then show ?case
  proof cases
    case 1
    show ?thesis
    proof (cases "class_ranges r False False ?cs")
      case None
      then show ?thesis using 1 rs rt class_ranges_None[of r False False ?cs r' False] by simp
    next
      case (Some x)
      obtain m rest where x: "x = (m, rest)" by fastforce
      obtain m' where m': "class_ranges r' False False ?cs = Some (m', rest)"
        using class_ranges_same[OF Some[unfolded x]] by blast
      have "match_chunk (c # cs) s = match_chunk rest (if m = (cs \<noteq> [] \<and> hd cs = 94) then None else s1)"
        using 1 rs Some x by simp
      moreover have "match_chunk (c # cs) t = match_chunk rest (if m' = (cs \<noteq> [] \<and> hd cs = 94) then None else t1)"
        using 1 rt m' by simp
      ultimately show ?thesis
        using "2.IH"(1)[OF 1 rs[symmetric] refl refl Some[unfolded x] refl] by presburger
    qed
  next
    case 2
    then show ?thesis using "2.IH"(2)[of "match_any t"] by simp
  next
    case 3
    then show ?thesis using "2.IH"(3)[of "hd cs" "tl cs" "match_byte (hd cs) t"] by (cases cs) simp_all
  next
    case 4
    then show ?thesis using "2.IH"(4)[of "match_byte c t"] by simp
  qed
qed simp

text \<open>Whether a pattern has a bad chunk.\<close>

function bad :: "nat list \<Rightarrow> bool" where
  "bad p =
     (if p = [] then False
      else (case scan_chunk p of (star, chunk, rest) \<Rightarrow> match_chunk chunk (Some []) = None \<or> bad rest))"
  by pat_completeness auto

termination bad
  by (relation "measure length") (auto dest: scan_chunk_shorter[OF sym])

declare bad.simps [simp del]

lemma check_rest_bad: "check_rest p = (if bad p then None else Some False)"
proof (induction p rule: check_rest.induct)
  case (1 p)
  obtain star chunk rest where sc: "scan_chunk p = (star, chunk, rest)" by (cases "scan_chunk p")
  show ?case
  proof (cases "p = [] \<or> match_chunk chunk (Some []) = None")
    case True
    then show ?thesis by (auto simp: check_rest.simps[of p] bad.simps[of p] sc)
  next
    case False
    then obtain t where "match_chunk chunk (Some []) = Some t" by auto
    then show ?thesis
      using 1[OF _ sc[symmetric] refl, of t] False by (simp add: check_rest.simps[of p] bad.simps[of p] sc)
  qed
qed

lemma skip_match_bad: "skip_match chunk final name = None \<Longrightarrow> match_chunk chunk s = None"
proof (induction chunk final name rule: skip_match.induct)
  case (2 chunk final c cs)
  then show ?case
    using match_chunk_bad[of chunk "Some cs" s] by (auto split: if_splits option.splits)
qed simp

lemma scan_Nil: "scan False p = ([], rest) \<Longrightarrow> p = [] \<or> hd p = 42"
  by (cases p) (auto split: if_splits prod.splits list.splits)

lemma scan_chunk_Nil:
  assumes "scan_chunk p = (star, chunk, rest)" and "chunk = []"
  shows "rest = []"
proof -
  let ?q = "dropWhile (\<lambda>c. c = 42) p"
  have q: "scan False ?q = ([], rest)" using assms by (simp add: scan_chunk_def Let_def)
  have "?q = []" using scan_Nil[OF q] hd_dropWhile[of "\<lambda>c. c = 42" p] by blast
  then have "scan False [] = ([], rest)" using q by (simp only:)
  then show ?thesis by simp
qed

lemma glob_bad: "glob p name = None \<longleftrightarrow> bad p"
proof (induction p name rule: glob.induct)
  case (1 p name)
  obtain star chunk rest where sc: "scan_chunk p = (star, chunk, rest)" by (cases "scan_chunk p")
  have trailing: "rest = []" if "chunk = []" using sc that by (rule scan_chunk_Nil)
  show ?case
  proof (cases "p = [] \<or> (star \<and> chunk = []) \<or> match_chunk chunk (Some name) = None")
    case True
    then show ?thesis
      using match_chunk_bad[of chunk "Some name" "Some []"] trailing
      by (auto simp: glob.simps[of p] bad.simps[of p] sc bad.simps[of "[]"])
  next
    case False
    then obtain r where r: "match_chunk chunk (Some name) = Some r" by auto
    then have ne: "match_chunk chunk (Some []) \<noteq> None" using match_chunk_bad by (metis option.discI)
    then have b: "bad p \<longleftrightarrow> bad rest" using False by (auto simp: bad.simps[of p] sc)
    have sk: "skip_match chunk final n \<noteq> None" for final n
      using ne skip_match_bad[of chunk final n "Some []"] by metis
    show ?thesis
    proof (cases "r \<noteq> None \<and> (the r = [] \<or> rest \<noteq> [])")
      case True
      then show ?thesis
        using "1.IH"(1)[OF _ sc[symmetric] refl _ r True] False b r by (auto simp: glob.simps[of p] sc)
    next
      case no: False
      obtain k where k: "skip_match chunk (rest = []) name = Some k" using sk by fastforce
      show ?thesis
      proof (cases "star \<and> k \<noteq> None")
        case True
        then obtain t where t: "k = Some t" by auto
        then have "glob p name = glob rest t"
          using False r no True k by (auto simp: glob.simps[of p] sc)
        moreover have "glob rest t = None \<longleftrightarrow> bad rest"
          using "1.IH"(2)[OF _ sc[symmetric] refl _ r no _ k t] False True by blast
        ultimately show ?thesis using b by simp
      next
        case nk: False
        then have "glob p name = check_rest rest"
          using False r no k by (auto simp: glob.simps[of p] sc)
        then show ?thesis using b by (simp add: check_rest_bad)
      qed
    qed
  qed
qed

lemma bad_pattern_any: "Match p name = None \<longleftrightarrow> bad_pattern p"
  by (simp add: Match_def bad_pattern_def glob_bad)

subsection \<open>Patterns without special bytes, and the star\<close>

definition plain :: "nat list \<Rightarrow> bool" where
  "plain p \<longleftrightarrow> set p \<inter> {42, 63, 91, 92} = {}"

lemma plain_scan: "plain p \<Longrightarrow> scan b p = (p, [])"
  by (induction p arbitrary: b) (auto simp: plain_def)

lemma plain_scan_chunk: "plain p \<Longrightarrow> scan_chunk p = (False, p, [])"
  by (cases p) (auto simp: scan_chunk_def plain_scan plain_def)

lemma match_chunk_None: "plain p \<Longrightarrow> match_chunk p None = Some None"
  by (induction p) (auto simp: plain_def match_byte_def)

lemma plain_match_chunk:
  "plain p \<Longrightarrow> match_chunk p (Some s) = Some (if prefix p s then Some (drop (length p) s) else None)"
proof (induction p arbitrary: s)
  case (Cons c cs)
  have pl: "plain cs" "c \<noteq> 91" "c \<noteq> 63" "c \<noteq> 92" using Cons.prems by (auto simp: plain_def)
  show ?case
    by (cases s) (auto simp: pl match_byte_def match_chunk_None Cons.IH)
qed simp

text \<open>A pattern without special bytes matches itself and nothing else.\<close>

lemma glob_plain: "plain p \<Longrightarrow> glob p name = Some (p = name)"
  by (subst glob.simps)
     (auto simp: plain_scan_chunk plain_match_chunk check_rest.simps[of "[]"] glob.simps[of "[]"]
       prefix_def)

lemma glob_star: "glob [42] name = Some (47 \<notin> set name)"
  by (subst glob.simps) (simp add: scan_chunk_def)

definition plain_name :: "string \<Rightarrow> bool" where
  "plain_name s \<longleftrightarrow> set s \<inter> {CHR ''*'', CHR ''?'', CHR ''['', CHR 0x5C} = {}"

lemma code_of_iff:
  "code_of c = (42 :: nat) \<longleftrightarrow> c = CHR ''*''" "code_of c = (63 :: nat) \<longleftrightarrow> c = CHR ''?''"
  "code_of c = (91 :: nat) \<longleftrightarrow> c = CHR ''[''" "code_of c = (92 :: nat) \<longleftrightarrow> c = CHR 0x5C"
  "code_of c = (47 :: nat) \<longleftrightarrow> c = CHR ''/''"
proof -
  have e: "code_of c = (of_char d :: nat) \<longleftrightarrow> c = d" for d by simp
  show "code_of c = (42 :: nat) \<longleftrightarrow> c = CHR ''*''" using e[of "CHR ''*''"] by simp
  show "code_of c = (63 :: nat) \<longleftrightarrow> c = CHR ''?''" using e[of "CHR ''?''"] by simp
  show "code_of c = (91 :: nat) \<longleftrightarrow> c = CHR ''[''" using e[of "CHR ''[''"] by simp
  show "code_of c = (92 :: nat) \<longleftrightarrow> c = CHR 0x5C" using e[of "CHR 0x5C"] by simp
  show "code_of c = (47 :: nat) \<longleftrightarrow> c = CHR ''/''" using e[of "CHR ''/''"] by simp
qed

lemma plain_codes: "plain_name s \<Longrightarrow> plain (map code_of s)"
  by (auto simp: plain_name_def plain_def code_of_iff)

lemma map_code_inj [simp]: "map code_of s = (map code_of t :: nat list) \<longleftrightarrow> s = t"
  by (metis (mono_tags, lifting) inj_map_eq_map inj_of_char)

lemma Match_plain: "plain_name p \<Longrightarrow> Match p name = Some (p = name)"
  by (simp add: Match_def glob_plain plain_codes)

lemma Match_star: "Match ''*'' name = Some (CHR ''/'' \<notin> set name)"
  by (auto simp: Match_def glob_star code_of_iff image_iff)

lemma matches_not_bad: "matches p name \<Longrightarrow> \<not> bad_pattern p"
  using bad_pattern_any[of p name] by (auto simp: matches_def)

end
