(* ===== verification/Rbac.thy ===== *)
theory Rbac
  imports Glob
begin

section \<open>Roles and policies\<close>

text \<open>
  \<^verbatim>\<open>web/rbac/policy.go\<close> and \<^verbatim>\<open>role.go\<close>: the decision whether a role allows a verb on a resource,
  and the operations that change the policies of a role; and the policy updates of
  \<^verbatim>\<open>migrations.go\<close>. Patterns are matched by \<open>matches\<close> of the theory \<open>Glob\<close>. The slice
  \<^verbatim>\<open>ResourceNames\<close> is an option, since the code tells nil from empty; no policy pointer is nil.
  \<^verbatim>\<open>policiesForResource\<close> ranges over a Go map: \<open>ord\<close> stands for the order the range takes, any
  rearrangement of the entries.
\<close>

record PolicySpec =
  pol_Resources :: "string list"
  pol_ResourceNames :: "string list option"
  pol_Verbs :: "string list"

record Role =
  role_Name :: string
  role_Policies :: "PolicySpec list"
  role_mapped :: "(string \<times> PolicySpec list) list option"

datatype rbac_error = ResourceNamesExist | ResourceNameExists string | ResourceNameInvalid string

definition slice_of :: "'a list option \<Rightarrow> 'a list" where
  "slice_of xs = (case xs of None \<Rightarrow> [] | Some ys \<Rightarrow> ys)"

text \<open>\<^verbatim>\<open>append(xs, ys...)\<close> on a slice that may be nil.\<close>

definition append_slice :: "'a list option \<Rightarrow> 'a list \<Rightarrow> 'a list option" where
  "append_slice xs ys = (if xs = None \<and> ys = [] then None else Some (slice_of xs @ ys))"

subsection \<open>The decision\<close>

fun names_loop :: "bool \<Rightarrow> string list \<Rightarrow> string \<Rightarrow> bool" where
  "names_loop allowed [] name = allowed"
| "names_loop allowed (n # ns) name =
     (let negate = prefix ''!'' n; p = remove1 CHR ''!'' n
      in if matches p name then (if negate then False else names_loop True ns name)
         else names_loop allowed ns name)"

definition resourceNameAllowed :: "PolicySpec \<Rightarrow> string \<Rightarrow> bool" where
  "resourceNameAllowed p name = names_loop False (slice_of (pol_ResourceNames p)) name"

definition verbAllowed :: "PolicySpec \<Rightarrow> string \<Rightarrow> bool" where
  "verbAllowed p verb = list_ex (\<lambda>v. v = ''*'' \<or> v = verb) (pol_Verbs p)"

text \<open>\<^verbatim>\<open>m[k] = append(m[k], p)\<close>, on the entries of the map.\<close>

fun map_append :: "'k \<Rightarrow> 'v \<Rightarrow> ('k \<times> 'v list) list \<Rightarrow> ('k \<times> 'v list) list" where
  "map_append k v [] = [(k, [v])]"
| "map_append k v ((k', vs) # m) = (if k = k' then (k', vs @ [v]) # m else (k', vs) # map_append k v m)"

definition map_resource ::
  "PolicySpec \<Rightarrow> (string \<times> PolicySpec list) list \<times> string list \<Rightarrow> string
   \<Rightarrow> (string \<times> PolicySpec list) list \<times> string list" where
  "map_resource p acc res =
     (case acc of (m, invalid) \<Rightarrow>
        if bad_pattern res then (m, invalid @ [res]) else (map_append res p m, invalid))"

definition map_policies :: "PolicySpec list \<Rightarrow> (string \<times> PolicySpec list) list \<times> string list" where
  "map_policies ps = foldl (\<lambda>acc p. foldl (map_resource p) acc (pol_Resources p)) ([], []) ps"

text \<open>The role with its policies mapped, and the invalid resources: an error when there are any.\<close>

definition mapPolicies :: "Role \<Rightarrow> Role \<times> string list" where
  "mapPolicies r =
     (case role_mapped r of
        Some m \<Rightarrow> (r, [])
      | None \<Rightarrow>
          (case map_policies (role_Policies r) of (m, invalid) \<Rightarrow> (r\<lparr>role_mapped := Some m\<rparr>, invalid)))"

type_synonym map_order = "(string \<times> PolicySpec list) list \<Rightarrow> (string \<times> PolicySpec list) list"

definition policiesForResource :: "map_order \<Rightarrow> Role \<Rightarrow> string \<Rightarrow> PolicySpec list" where
  "policiesForResource ord r resource =
     (case mapPolicies r of (r', invalid) \<Rightarrow>
        if invalid \<noteq> [] then []
        else concat (map snd (filter (\<lambda>(res, ps). matches res resource) (ord (the (role_mapped r'))))))"

definition Allowed :: "map_order \<Rightarrow> Role \<Rightarrow> string \<Rightarrow> string \<Rightarrow> string list \<Rightarrow> bool" where
  "Allowed ord r resource verb names =
     list_ex (\<lambda>p. verbAllowed p verb \<and> (names = [] \<or> list_ex (resourceNameAllowed p) names))
       (policiesForResource ord r resource)"

subsection \<open>Changing the policies\<close>

definition default_names :: "string list \<Rightarrow> string list" where
  "default_names names = (if names = [] \<or> names = [''''] then [''*''] else names)"

fun set_names :: "string list \<Rightarrow> PolicySpec list \<Rightarrow> PolicySpec list \<times> rbac_error option" where
  "set_names names [] = ([], None)"
| "set_names names (p # ps) =
     (if pol_ResourceNames p \<noteq> None then (p # ps, Some ResourceNamesExist)
      else
        let good = takeWhile (\<lambda>n. \<not> bad_pattern n) names;
            p' = p\<lparr>pol_ResourceNames := append_slice None good\<rparr>
        in (case find bad_pattern names of
              Some n \<Rightarrow> (p' # ps, Some (ResourceNameInvalid n))
            | None \<Rightarrow> (case set_names names ps of (ps', err) \<Rightarrow> (p' # ps', err))))"

definition SetResourceNames :: "string list \<Rightarrow> Role \<Rightarrow> Role \<times> rbac_error option" where
  "SetResourceNames names r =
     (case set_names (default_names names) (role_Policies r) of (ps, err) \<Rightarrow>
        (r\<lparr>role_Policies := ps\<rparr>, err))"

text \<open>
  The loop over the names a policy has when the loop starts; \<open>acc\<close> is the slice as it grows.
\<close>

fun add_name_loop :: "string \<Rightarrow> string list \<Rightarrow> string list \<Rightarrow> string list \<times> rbac_error option" where
  "add_name_loop name [] acc = (acc, None)"
| "add_name_loop name (existing # es) acc =
     (if name = existing then (acc, Some (ResourceNameExists name))
      else if bad_pattern name then (acc, Some (ResourceNameInvalid name))
      else add_name_loop name es (acc @ [name]))"

fun add_names :: "string \<Rightarrow> PolicySpec list \<Rightarrow> PolicySpec list \<times> rbac_error option" where
  "add_names name [] = ([], None)"
| "add_names name (p # ps) =
     (case pol_ResourceNames p of
        None \<Rightarrow> (case add_names name ps of (ps', err) \<Rightarrow> (p # ps', err))
      | Some ns \<Rightarrow>
          (case add_name_loop name ns ns of
             (ns', Some e) \<Rightarrow> (p\<lparr>pol_ResourceNames := Some ns'\<rparr> # ps, Some e)
           | (ns', None) \<Rightarrow>
               (case add_names name ps of (ps', err) \<Rightarrow> (p\<lparr>pol_ResourceNames := Some ns'\<rparr> # ps', err))))"

definition AddResourceName :: "string \<Rightarrow> Role \<Rightarrow> Role \<times> rbac_error option" where
  "AddResourceName name r =
     (case add_names name (role_Policies r) of (ps, err) \<Rightarrow> (r\<lparr>role_Policies := ps\<rparr>, err))"

definition AddPolicy :: "string list \<Rightarrow> string list option \<Rightarrow> string list \<Rightarrow> Role \<Rightarrow> Role" where
  "AddPolicy res rn v r =
     r\<lparr>role_Policies := role_Policies r
        @ [\<lparr>pol_Resources = res, pol_ResourceNames = rn, pol_Verbs = v\<rparr>]\<rparr>"

subsection \<open>Policies added at start-up\<close>

definition experimentFilesResource :: string where
  "experimentFilesResource = ''experiments/files''"

definition experimentFilesCreateVerb :: string where
  "experimentFilesCreateVerb = ''create''"

definition experimentFilesRole :: "string \<Rightarrow> bool" where
  "experimentFilesRole name \<longleftrightarrow> name = ''Experiment Admin'' \<or> name = ''Experiment User''"

definition add_missing :: "string list option \<Rightarrow> string list option \<Rightarrow> string list option" where
  "add_missing names rn =
     foldl (\<lambda>ns n. if n \<in> set (slice_of ns) then ns else append_slice ns [n]) rn (slice_of names)"

definition grant_files :: "string list option \<Rightarrow> PolicySpec \<Rightarrow> PolicySpec" where
  "grant_files names p =
     p\<lparr>pol_Verbs := (if experimentFilesCreateVerb \<in> set (pol_Verbs p) then pol_Verbs p
                     else pol_Verbs p @ [experimentFilesCreateVerb]),
       pol_ResourceNames := add_missing names (pol_ResourceNames p)\<rparr>"

definition grant_changes :: "string list option \<Rightarrow> PolicySpec \<Rightarrow> bool" where
  "grant_changes names p \<longleftrightarrow>
     experimentFilesCreateVerb \<notin> set (pol_Verbs p)
     \<or> (\<exists>n \<in> set (slice_of names). n \<notin> set (slice_of (pol_ResourceNames p)))"

text \<open>The policies after the call and whether they changed.\<close>

fun ensureExperimentFilesCreatePolicy ::
  "string list option \<Rightarrow> PolicySpec list \<Rightarrow> PolicySpec list \<times> bool" where
  "ensureExperimentFilesCreatePolicy names [] =
     ([\<lparr>pol_Resources = [experimentFilesResource], pol_ResourceNames = names,
        pol_Verbs = [experimentFilesCreateVerb]\<rparr>], True)"
| "ensureExperimentFilesCreatePolicy names (p # ps) =
     (if experimentFilesResource \<in> set (pol_Resources p)
      then (grant_files names p # ps, grant_changes names p)
      else (case ensureExperimentFilesCreatePolicy names ps of (ps', changed) \<Rightarrow> (p # ps', changed)))"

definition experimentResourceNames :: "PolicySpec list \<Rightarrow> string list option" where
  "experimentResourceNames ps =
     (case find (\<lambda>p. ''experiments'' \<in> set (pol_Resources p)) ps of
        None \<Rightarrow> None | Some p \<Rightarrow> pol_ResourceNames p)"

definition builderUsePolicy :: PolicySpec where
  "builderUsePolicy = \<lparr>pol_Resources = [''builder''], pol_ResourceNames = None, pol_Verbs = [''use'']\<rparr>"

definition builderAllowsUse :: "map_order \<Rightarrow> string \<Rightarrow> PolicySpec list \<Rightarrow> bool" where
  "builderAllowsUse ord name ps =
     Allowed ord \<lparr>role_Name = name, role_Policies = ps, role_mapped = None\<rparr> ''builder'' ''use'' []"

subsection \<open>The decision, declaratively\<close>

lemma names_loop_iff:
  "names_loop a ns name \<longleftrightarrow>
     (a \<or> (\<exists>n \<in> set ns. \<not> prefix ''!'' n \<and> matches (remove1 CHR ''!'' n) name))
     \<and> \<not> (\<exists>n. CHR ''!'' # n \<in> set ns \<and> matches n name)"
proof (induction a ns name rule: names_loop.induct)
  case (2 a n ns name)
  show ?case
  proof (cases "prefix ''!'' n")
    case True
    then obtain m where n: "n = CHR ''!'' # m" by (auto simp: prefix_def)
    then show ?thesis using 2 by (auto simp: Let_def)
  next
    case False
    then have "n \<noteq> CHR ''!'' # m" for m by auto
    then show ?thesis using 2 False by (auto simp: Let_def)
  qed
qed simp

text \<open>Whether a policy, looked at alone, allows the verb on some of the names.\<close>

definition policy_grants :: "PolicySpec \<Rightarrow> string \<Rightarrow> string list \<Rightarrow> bool" where
  "policy_grants p verb names \<longleftrightarrow>
     (''*'' \<in> set (pol_Verbs p) \<or> verb \<in> set (pol_Verbs p))
     \<and> (names = [] \<or> (\<exists>x \<in> set names.
          (\<exists>n \<in> set (slice_of (pol_ResourceNames p)). \<not> prefix ''!'' n \<and> matches (remove1 CHR ''!'' n) x)
          \<and> \<not> (\<exists>n. CHR ''!'' # n \<in> set (slice_of (pol_ResourceNames p)) \<and> matches n x)))"

definition bad_resources :: "PolicySpec list \<Rightarrow> string list" where
  "bad_resources ps = filter bad_pattern (concat (map pol_Resources ps))"

lemma policy_grants_iff:
  "policy_grants p verb names \<longleftrightarrow>
     verbAllowed p verb \<and> (names = [] \<or> list_ex (resourceNameAllowed p) names)"
  by (auto simp: policy_grants_def verbAllowed_def resourceNameAllowed_def names_loop_iff list_ex_iff)

text \<open>The pairs of a pattern and a policy the mapped policies hold.\<close>

definition entries :: "('k \<times> 'v list) list \<Rightarrow> ('k \<times> 'v) set" where
  "entries m = {(k, v). \<exists>vs. (k, vs) \<in> set m \<and> v \<in> set vs}"

lemma entries_append [simp]: "entries (map_append k v m) = insert (k, v) (entries m)"
  by (induction k v m rule: map_append.induct) (auto simp: entries_def)

lemma map_resources_fold:
  "foldl (map_resource p) (m, bads) rs = (m', bads') \<Longrightarrow>
   entries m' = entries m \<union> {(r, p) | r. r \<in> set rs \<and> \<not> bad_pattern r} \<and> bads' = bads @ filter bad_pattern rs"
proof (induction rs arbitrary: m bads)
  case (Cons r rs)
  show ?case
  proof (cases "bad_pattern r")
    case True
    then show ?thesis using Cons.IH[of m "bads @ [r]"] Cons.prems by (auto simp: map_resource_def)
  next
    case False
    then show ?thesis using Cons.IH[of "map_append r p m" bads] Cons.prems by (auto simp: map_resource_def)
  qed
qed simp

lemma map_policies_fold:
  "foldl (\<lambda>acc p. foldl (map_resource p) acc (pol_Resources p)) (m, bads) ps = (m', bads') \<Longrightarrow>
   entries m' = entries m \<union> {(r, p). p \<in> set ps \<and> r \<in> set (pol_Resources p) \<and> \<not> bad_pattern r}
   \<and> bads' = bads @ bad_resources ps"
proof (induction ps arbitrary: m bads)
  case (Cons p ps)
  obtain m1 bads1 where one: "foldl (map_resource p) (m, bads) (pol_Resources p) = (m1, bads1)" by fastforce
  show ?case
    using map_resources_fold[OF one] Cons.IH[of m1 bads1] Cons.prems one
    by (auto simp: bad_resources_def)
qed (simp add: bad_resources_def)

lemma Allowed_iff:
  assumes "role_mapped r = None" and "\<And>m. set (ord m) = set m"
  shows "Allowed ord r resource verb names \<longleftrightarrow>
     bad_resources (role_Policies r) = []
     \<and> (\<exists>p \<in> set (role_Policies r). policy_grants p verb names
          \<and> (\<exists>res \<in> set (pol_Resources p). matches res resource))"
proof -
  obtain m bads where mp: "map_policies (role_Policies r) = (m, bads)" by fastforce
  have m: "entries m = {(res, p). p \<in> set (role_Policies r) \<and> res \<in> set (pol_Resources p) \<and> \<not> bad_pattern res}"
    and bads: "bads = bad_resources (role_Policies r)"
    using map_policies_fold[OF mp[unfolded map_policies_def]] by (simp_all add: entries_def)
  have "p \<in> set (policiesForResource ord r resource) \<longleftrightarrow>
      bads = [] \<and> (\<exists>res. (res, p) \<in> entries m \<and> matches res resource)" for p
    using assms mp by (auto simp: policiesForResource_def mapPolicies_def entries_def)
  then show ?thesis
    using m bads matches_not_bad by (fastforce simp: Allowed_def list_ex_iff policy_grants_iff)
qed

lemmas Allowed_role = Allowed_iff[where r = "r\<lparr>role_mapped := None\<rparr>" for r, simplified]

text \<open>
  C17: what a role allows, whatever order the policy map is ranged over. A role with an invalid
  resource pattern allows nothing. Otherwise a verb on a resource is allowed exactly when one
  policy has a pattern for the resource, the verb or \<^verbatim>\<open>*\<close>, and, when names are given, allows
  one of the names: a pattern matches the name and no negated pattern of the policy does, in
  whatever order the patterns come.
\<close>

theorem role_allowed_iff:
  assumes "role_mapped r = None" and "\<And>m. set (ord m) = set m"
  shows "Allowed ord r resource verb names \<longleftrightarrow>
     (\<forall>p \<in> set (role_Policies r). \<forall>res \<in> set (pol_Resources p). \<not> bad_pattern res)
     \<and> (\<exists>p \<in> set (role_Policies r). policy_grants p verb names
          \<and> (\<exists>res \<in> set (pol_Resources p). matches res resource))"
  using Allowed_iff[OF assms] by (simp add: bad_resources_def filter_empty_conv)

theorem role_allowed_iff_witness:
  "\<not> Allowed rev \<lparr>role_Name = ''r'', role_Policies =
       [\<lparr>pol_Resources = [''vms''], pol_ResourceNames = Some [''!db'', ''*''], pol_Verbs = [''get'']\<rparr>],
       role_mapped = None\<rparr> ''vms'' ''get'' [''db'']
   \<and> Allowed rev \<lparr>role_Name = ''r'', role_Policies =
       [\<lparr>pol_Resources = [''vms''], pol_ResourceNames = Some [''!db'', ''*''], pol_Verbs = [''get'']\<rparr>],
       role_mapped = None\<rparr> ''vms'' ''get'' [''web'']"
proof -
  have p: "plain_name ''vms''" "plain_name ''db''" by (simp_all add: plain_name_def)
  show ?thesis
    by (simp add: role_allowed_iff policy_grants_def slice_of_def matches_def bad_pattern_def
        Match_plain[OF p(1)] Match_plain[OF p(2)] Match_star)
qed

text \<open>
  Adding a policy with valid resource patterns never takes a permission away; one invalid
  pattern takes every permission away.
\<close>

theorem add_policy_monotone:
  assumes "role_mapped r = None" and "\<And>m. set (ord m) = set m"
  shows "if \<exists>x \<in> set res. bad_pattern x
     then \<not> Allowed ord (AddPolicy res rn v r) resource verb names
     else Allowed ord (AddPolicy res rn v r) resource verb names \<longleftrightarrow>
       Allowed ord r resource verb names
       \<or> (\<forall>p \<in> set (role_Policies r). \<forall>x \<in> set (pol_Resources p). \<not> bad_pattern x)
          \<and> policy_grants \<lparr>pol_Resources = res, pol_ResourceNames = rn, pol_Verbs = v\<rparr> verb names
          \<and> (\<exists>x \<in> set res. matches x resource)"
proof -
  have "role_mapped (AddPolicy res rn v r) = None" using assms(1) by (simp add: AddPolicy_def)
  note a = Allowed_iff[OF this assms(2)] Allowed_iff[OF assms]
  show ?thesis unfolding a by (auto simp: AddPolicy_def bad_resources_def filter_empty_conv)
qed

theorem add_policy_monotone_witness:
  "\<not> Allowed id (AddPolicy [''[''] None [''*'']
      \<lparr>role_Name = ''r'', role_Policies =
        [\<lparr>pol_Resources = [''vms''], pol_ResourceNames = Some [''*''], pol_Verbs = [''get'']\<rparr>],
        role_mapped = None\<rparr>) ''vms'' ''get'' [''web'']"
proof -
  have "bad_pattern ''[''" by code_simp
  then show ?thesis
    using add_policy_monotone[of "\<lparr>role_Name = ''r'', role_Policies =
        [\<lparr>pol_Resources = [''vms''], pol_ResourceNames = Some [''*''], pol_Verbs = [''get'']\<rparr>],
        role_mapped = None\<rparr>" id "[''['']" None "[''*'']" "''vms''" "''get''" "[''web'']"]
    by simp
qed

subsection \<open>Naming resources\<close>

text \<open>
  \<^verbatim>\<open>SetResourceNames\<close> gives every policy of a role the same names, which are all valid
  patterns, or reports why it did not: a policy that had names, or an invalid name.
\<close>

theorem set_resource_names:
  "case SetResourceNames names r of (r', err) \<Rightarrow>
     (case err of
        None \<Rightarrow>
          list_all (\<lambda>p. pol_ResourceNames p = None) (role_Policies r)
          \<and> (role_Policies r = [] \<or> list_all (\<lambda>n. \<not> bad_pattern n) (default_names names))
          \<and> role_Policies r' = map (pol_ResourceNames_update (\<lambda>_. Some (default_names names))) (role_Policies r)
      | Some ResourceNamesExist \<Rightarrow> list_ex (\<lambda>p. pol_ResourceNames p \<noteq> None) (role_Policies r)
      | Some (ResourceNameInvalid n) \<Rightarrow> n \<in> set (default_names names) \<and> bad_pattern n
      | Some (ResourceNameExists n) \<Rightarrow> False)"
proof -
  have ne: "default_names names \<noteq> []" by (simp add: default_names_def)
  have "case set_names ns ps of (ps', err) \<Rightarrow>
     (case err of
        None \<Rightarrow> list_all (\<lambda>p. pol_ResourceNames p = None) ps
          \<and> (ps = [] \<or> list_all (\<lambda>n. \<not> bad_pattern n) ns)
          \<and> ps' = map (pol_ResourceNames_update (\<lambda>_. Some ns)) ps
      | Some ResourceNamesExist \<Rightarrow> list_ex (\<lambda>p. pol_ResourceNames p \<noteq> None) ps
      | Some (ResourceNameInvalid n) \<Rightarrow> n \<in> set ns \<and> bad_pattern n
      | Some (ResourceNameExists n) \<Rightarrow> False)" if "ns \<noteq> []" for ns ps
  proof (induction ps)
    case (Cons p ps)
    show ?case
    proof (cases "find bad_pattern ns")
      case None
      then have tw: "takeWhile (\<lambda>n. \<not> bad_pattern n) ns = ns" and all: "list_all (\<lambda>n. \<not> bad_pattern n) ns"
        by (simp_all add: find_None_iff list_all_iff)
      then show ?thesis
        using Cons None that all
        by (auto simp: tw append_slice_def slice_of_def Let_def split: option.splits rbac_error.splits prod.splits)
    next
      case (Some n)
      then have "n \<in> set ns" "bad_pattern n" by (auto simp: find_Some_iff)
      then show ?thesis using Some by (auto simp: Let_def)
    qed
  qed simp
  from this[OF ne, of "role_Policies r"] show ?thesis
    by (auto simp: SetResourceNames_def split: option.splits rbac_error.splits prod.splits)
qed

lemma add_name_loop_copies:
  "\<not> bad_pattern name \<Longrightarrow> name \<notin> set es \<Longrightarrow>
   add_name_loop name es acc = (acc @ replicate (length es) name, None)"
  by (induction es arbitrary: acc) (simp_all add: replicate_append_same)

lemma add_name_loop_found:
  "\<not> bad_pattern name \<Longrightarrow> name \<notin> set es \<Longrightarrow>
   add_name_loop name (es @ name # es') acc = (acc @ replicate (length es) name, Some (ResourceNameExists name))"
  by (induction es arbitrary: acc) (simp_all add: replicate_append_same)

text \<open>
  \<^verbatim>\<open>AddResourceName\<close> appends inside the loop over the names a policy has. A name that is new
  is added once per existing name, so not at all to a policy without names; and a name the
  policy has is added again once for every name before it, although the call reports that it
  exists. The start-up code saves the role after that report, so the stored role grows.
\<close>

theorem add_resource_name_copies:
  assumes "\<not> bad_pattern name" and "name \<notin> set before"
    and "role_Policies r = [\<lparr>pol_Resources = res, pol_ResourceNames = Some before, pol_Verbs = vs\<rparr>]"
    and "role_Policies r2 = [\<lparr>pol_Resources = res, pol_ResourceNames = Some (before @ name # after), pol_Verbs = vs\<rparr>]"
  shows "AddResourceName name r =
      (r\<lparr>role_Policies := [\<lparr>pol_Resources = res,
          pol_ResourceNames = Some (before @ replicate (length before) name), pol_Verbs = vs\<rparr>]\<rparr>, None)
    \<and> AddResourceName name r2 =
      (r2\<lparr>role_Policies := [\<lparr>pol_Resources = res,
          pol_ResourceNames = Some (before @ name # after @ replicate (length before) name), pol_Verbs = vs\<rparr>]\<rparr>,
       Some (ResourceNameExists name))"
  using assms by (simp add: AddResourceName_def add_name_loop_copies add_name_loop_found)

theorem add_resource_name_copies_witness:
  "AddResourceName ''*/*'' \<lparr>role_Name = ''Global Admin'', role_Policies =
      [\<lparr>pol_Resources = [''*'', ''*/*''], pol_ResourceNames = Some [''*'', ''*/*''], pol_Verbs = [''*'']\<rparr>],
      role_mapped = None\<rparr>
   = (\<lparr>role_Name = ''Global Admin'', role_Policies =
      [\<lparr>pol_Resources = [''*'', ''*/*''], pol_ResourceNames = Some [''*'', ''*/*'', ''*/*''], pol_Verbs = [''*'']\<rparr>],
      role_mapped = None\<rparr>, Some (ResourceNameExists ''*/*''))"
proof -
  have "\<not> bad_pattern ''*/*''" by code_simp
  then show ?thesis
    using add_resource_name_copies[of "''*/*''" "[''*'']" "\<lparr>role_Name = ''Global Admin'', role_Policies =
      [\<lparr>pol_Resources = [''*'', ''*/*''], pol_ResourceNames = Some [''*''], pol_Verbs = [''*'']\<rparr>],
      role_mapped = None\<rparr>" "[''*'', ''*/*'']" "[''*'']" "\<lparr>role_Name = ''Global Admin'', role_Policies =
      [\<lparr>pol_Resources = [''*'', ''*/*''], pol_ResourceNames = Some [''*'', ''*/*''], pol_Verbs = [''*'']\<rparr>],
      role_mapped = None\<rparr>" "[]"]
    by simp
qed

subsection \<open>Policies added at start-up\<close>

lemma slice_of_append [simp]: "slice_of (append_slice xs ys) = slice_of xs @ ys"
  by (auto simp: slice_of_def append_slice_def split: option.splits)

lemma add_missing_fold:
  "set (slice_of (foldl (\<lambda>ns n. if n \<in> set (slice_of ns) then ns else append_slice ns [n]) rn names))
     = set (slice_of rn) \<union> set names"
  "set names \<subseteq> set (slice_of rn) \<Longrightarrow>
   foldl (\<lambda>ns n. if n \<in> set (slice_of ns) then ns else append_slice ns [n]) rn names = rn"
  by (induction names arbitrary: rn) auto

lemma set_add_missing: "set (slice_of (add_missing names rn)) = set (slice_of rn) \<union> set (slice_of names)"
  by (simp add: add_missing_def add_missing_fold)

lemma grant_unchanged: "\<not> grant_changes names p \<Longrightarrow> grant_files names p = p"
  by (auto simp: grant_changes_def grant_files_def add_missing_def add_missing_fold(2) subset_iff)

lemma grant_twice: "\<not> grant_changes names (grant_files names p)"
  by (auto simp: grant_changes_def grant_files_def set_add_missing)

lemma ensure_files_cases:
  "ensureExperimentFilesCreatePolicy names ps = (ps', changed) \<Longrightarrow>
     ensureExperimentFilesCreatePolicy names ps' = (ps', False)
     \<and> (\<not> changed \<longrightarrow> ps' = ps)
     \<and> (\<exists>p \<in> set ps'. experimentFilesResource \<in> set (pol_Resources p)
          \<and> experimentFilesCreateVerb \<in> set (pol_Verbs p)
          \<and> set (slice_of names) \<subseteq> set (slice_of (pol_ResourceNames p)))
     \<and> bad_resources ps' = bad_resources ps @ bad_resources (drop (length ps) ps')"
proof (induction names ps arbitrary: ps' changed rule: ensureExperimentFilesCreatePolicy.induct)
  case (1 names)
  then show ?case by (auto simp: grant_changes_def grant_files_def add_missing_def add_missing_fold(2) bad_resources_def)
next
  case (2 names p ps)
  show ?case
  proof (cases "experimentFilesResource \<in> set (pol_Resources p)")
    case True
    moreover have "pol_Resources (grant_files names p) = pol_Resources p"
      "experimentFilesCreateVerb \<in> set (pol_Verbs (grant_files names p))"
      "set (slice_of names) \<subseteq> set (slice_of (pol_ResourceNames (grant_files names p)))"
      by (simp_all add: grant_files_def set_add_missing)
    ultimately show ?thesis
      using "2.prems" grant_twice[of names p] grant_unchanged[OF grant_twice, of names p] grant_unchanged[of names p]
      by (auto simp: bad_resources_def)
  next
    case False
    obtain ps1 c1 where r: "ensureExperimentFilesCreatePolicy names ps = (ps1, c1)" by fastforce
    then show ?thesis using "2.IH"[OF False r] "2.prems" False by (auto simp: bad_resources_def)
  qed
qed

lemma experiments_files_valid: "plain_name ''experiments/files''" "\<not> bad_pattern ''experiments/files''"
proof -
  show pl: "plain_name ''experiments/files''" by (simp add: plain_name_def)
  show "\<not> bad_pattern ''experiments/files''" by (simp add: bad_pattern_def Match_plain[OF pl])
qed

text \<open>
  The start-up update of a role lets it create experiment files, keeps a role valid, says
  truthfully whether it changed anything, and changes nothing the second time.
\<close>

theorem ensure_files_create:
  assumes "bad_resources ps = []" and "\<And>m. set (ord m) = set m"
    and "ensureExperimentFilesCreatePolicy names ps = (ps', changed)"
  shows "Allowed ord \<lparr>role_Name = n, role_Policies = ps', role_mapped = None\<rparr> ''experiments/files'' ''create'' []
    \<and> ensureExperimentFilesCreatePolicy names ps' = (ps', False)
    \<and> (changed \<or> ps' = ps)"
proof -
  note c = ensure_files_cases[OF assms(3)]
  have "drop (length ps) ps' = [] \<or> (\<exists>p. drop (length ps) ps' = [p] \<and> pol_Resources p = [experimentFilesResource])"
    using assms(3)
  proof (induction names ps arbitrary: ps' changed rule: ensureExperimentFilesCreatePolicy.induct)
    case (2 names p ps)
    then show ?case by (cases "experimentFilesResource \<in> set (pol_Resources p)") (auto split: prod.splits)
  qed auto
  then have "bad_resources (drop (length ps) ps') = []"
    using experiments_files_valid(2) by (auto simp: bad_resources_def experimentFilesResource_def)
  then have ok: "bad_resources ps' = []" using c assms(1) by simp
  obtain p where p: "p \<in> set ps'" "experimentFilesResource \<in> set (pol_Resources p)"
      "experimentFilesCreateVerb \<in> set (pol_Verbs p)" using c by blast
  then have "matches experimentFilesResource ''experiments/files''" "policy_grants p ''create'' []"
    by (simp_all add: matches_def experimentFilesResource_def Match_plain[OF experiments_files_valid(1)]
        policy_grants_def experimentFilesCreateVerb_def)
  then show ?thesis
    using c ok p Allowed_iff[of "\<lparr>role_Name = n, role_Policies = ps', role_mapped = None\<rparr>" ord, OF _ assms(2)]
    by auto
qed

theorem ensure_files_create_witness:
  "Allowed rev \<lparr>role_Name = ''Experiment User'', role_Policies =
      fst (ensureExperimentFilesCreatePolicy (Some [''exp1'']) []), role_mapped = None\<rparr>
      ''experiments/files'' ''create'' []"
  using ensure_files_create[of "[]" rev "Some [''exp1'']"
      "fst (ensureExperimentFilesCreatePolicy (Some [''exp1'']) [])" True "''Experiment User''"]
  by (simp add: bad_resources_def)

end
