(* ===== verification/Rbac_User.thy ===== *)
theory Rbac_User
  imports Rbac Config_Api
begin

section \<open>Users: passwords, tokens and roles\<close>

text \<open>
  \<^verbatim>\<open>web/rbac/user.go\<close> with \<^verbatim>\<open>UserSpec\<close> and \<^verbatim>\<open>RoleSpec\<close> of \<^verbatim>\<open>types/version/v1\<close>, over the configs of the
  store. A handle \<open>User\<close> holds the config and the decoded spec as they were when they were read; every
  change goes through \<open>update\<close>, which reads the stored config again under the user's lock, so a step
  of the model is one whole \<open>update\<close>. Parameters are \<^verbatim>\<open>bcrypt\<close> (the record \<open>bcrypt\<close>) and the conversions
  between a spec and the fields of a config (\<open>spec_codec\<close>: \<^verbatim>\<open>structs.MapDefaultCase\<close> and
  \<^verbatim>\<open>mapstructure.Decode\<close>); the locale \<open>user_store\<close> says that decoding what was encoded and stored gives
  the spec back. It extends \<open>config_api\<close>, so its lemmas hold for users in any store of configs.
\<close>

record RoleSpec =
  rsp_Name :: string
  rsp_Policies :: "PolicySpec list"

record UserSpec =
  us_Username :: string
  us_Password :: string
  us_FirstName :: string
  us_LastName :: string
  us_Role :: "RoleSpec option"
  us_Tokens :: "(string, string) gomap"

record 'v User =
  u_Spec :: UserSpec
  u_Config :: "'v Config"

datatype user_err =
  PasswordInvalid
| UserExists string
| TokenNotFound
| RoleNotFound
| HashFailure string
| DecodeFailure string
| UserConfig config_api_err

text \<open>\<open>ue_text\<close>: the string a value of a config is, if it is one.\<close>

record ('s, 'v) user_env =
  ue_store :: "('s, 'v) cstore"
  ue_case :: unicase
  ue_kinds :: "string list"
  ue_user :: "(UserSpec, 'v) spec_codec"
  ue_role :: "(RoleSpec, 'v) spec_codec"
  ue_text :: "'v \<Rightarrow> string option"

text \<open>\<open>bc_compare\<close> of a hash and a password: \<open>None\<close> a match, \<open>Some None\<close> a mismatch, else an error.\<close>

record bcrypt =
  bc_generate :: "string \<Rightarrow> string + string"
  bc_compare :: "string \<Rightarrow> string \<Rightarrow> string option option"

subsection \<open>Base 64\<close>

definition b64_alphabet :: string where
  "b64_alphabet = ''ABCDEFGHIJKLMNOPQRSTUVWXYZabcdefghijklmnopqrstuvwxyz0123456789+/''"

definition b64_digit :: "nat \<Rightarrow> char" where
  "b64_digit n = b64_alphabet ! (n mod 64)"

text \<open>\<^verbatim>\<open>base64.StdEncoding.EncodeToString\<close>.\<close>

fun b64 :: "nat list \<Rightarrow> string" where
  "b64 [] = []"
| "b64 [a] = [b64_digit (a div 4), b64_digit (a mod 4 * 16), CHR ''='', CHR ''='']"
| "b64 [a, b] =
     [b64_digit (a div 4), b64_digit (a mod 4 * 16 + b div 16), b64_digit (b mod 16 * 4), CHR ''='']"
| "b64 (a # b # c # xs) =
     [b64_digit (a div 4), b64_digit (a mod 4 * 16 + b div 16), b64_digit (b mod 16 * 4 + c div 64),
      b64_digit (c mod 64)] @ b64 xs"

definition token_enc :: "string \<Rightarrow> string" where
  "token_enc token = b64 (map code_of token)"

subsection \<open>Operations\<close>

definition tokenProxied :: string where
  "tokenProxied = ''proxied''"

type_synonym ('s, 'a) user_action = "('s, user_err, 'a) action"

definition user_config :: "('s, 'a) api_action \<Rightarrow> ('s, 'a) user_action" where
  "user_config m s = (case m s of (s', Inl e) \<Rightarrow> (s', Inl (UserConfig e)) | (s', Inr x) \<Rightarrow> (s', Inr x))"

definition decoded :: "('x, 'v) spec_codec \<Rightarrow> 'v Config \<Rightarrow> user_err + 'x" where
  "decoded cd c = (case sp_decode cd (c_Spec c) of Inl m \<Rightarrow> Inl (DecodeFailure m) | Inr x \<Rightarrow> Inr x)"

definition NewUser ::
  "('s, 'v) user_env \<Rightarrow> bcrypt \<Rightarrow> string \<Rightarrow> string \<Rightarrow> string \<Rightarrow> string \<Rightarrow> string \<Rightarrow> ('s, 'v User) user_action" where
  "NewUser E bc now u p firstName lastName s =
     (case bc_generate bc p of
        Inl m \<Rightarrow> (s, Inl (HashFailure m))
      | Inr hashed \<Rightarrow>
          let spec = \<lparr>us_Username = u, us_Password = hashed, us_FirstName = firstName,
                      us_LastName = lastName, us_Role = None, us_Tokens = None\<rparr>;
              c = empty_config\<lparr>c_Version := ''phenix.sandia.gov/v1'', c_Kind := ''User'',
                    c_Metadata := empty_metadata\<lparr>cm_Name := u\<rparr>, c_Spec := sp_encode (ue_user E) spec\<rparr>
          in (case cs_create (ue_store E) now c s of
                (s', Inl ConfigExist) \<Rightarrow> (s', Inl (UserExists u))
              | (s', Inl e) \<Rightarrow> (s', Inl (UserConfig (InStore e)))
              | (s', Inr c') \<Rightarrow> (s', Inr \<lparr>u_Spec = spec, u_Config = c'\<rparr>)))"

fun decode_users :: "('s, 'v) user_env \<Rightarrow> 'v Config list \<Rightarrow> user_err + 'v User list" where
  "decode_users E [] = Inr []"
| "decode_users E (c # cs) =
     (case decoded (ue_user E) c of
        Inl e \<Rightarrow> Inl e
      | Inr x \<Rightarrow> map_sum id (Cons \<lparr>u_Spec = x, u_Config = c\<rparr>) (decode_users E cs))"

definition GetUsers :: "('s, 'v) user_env \<Rightarrow> ('s, 'v User list) user_action" where
  "GetUsers E =
     bindE (user_config (Config_List (ue_case E) (ue_store E) ''user'')) (\<lambda>cs. readE (\<lambda>_. decode_users E cs))"

definition GetUser :: "('s, 'v) user_env \<Rightarrow> string \<Rightarrow> ('s, 'v User) user_action" where
  "GetUser E uname =
     bindE (user_config (Config_Get (ue_case E) (ue_kinds E) (ue_store E) (''user/'' @ uname))) (\<lambda>c.
     bindE (readE (\<lambda>_. decoded (ue_user E) c)) (\<lambda>x. retE \<lparr>u_Spec = x, u_Config = c\<rparr>))"

definition Save :: "('s, 'v) user_env \<Rightarrow> string \<Rightarrow> 'v User \<Rightarrow> ('s, 'v Config) user_action" where
  "Save E now u = user_config (in_store (cs_update (ue_store E) now (u_Config u)))"

text \<open>The store and the handle after the call, and the error.\<close>

definition update ::
  "('s, 'v) user_env \<Rightarrow> string \<Rightarrow> (UserSpec \<Rightarrow> UserSpec) \<Rightarrow> 'v User \<Rightarrow> 's \<Rightarrow> 's \<times> 'v User \<times> user_err option" where
  "update E now change u s =
     (case GetUser E (c_Name (u_Config u)) s of
        (s1, Inl e) \<Rightarrow> (s1, u, Some e)
      | (s1, Inr current) \<Rightarrow>
          let spec = change (u_Spec current);
              c = (u_Config current)\<lparr>c_Spec := sp_encode (ue_user E) spec\<rparr>
          in (case Save E now \<lparr>u_Spec = spec, u_Config = c\<rparr> s1 of
                (s2, Inl e) \<Rightarrow> (s2, u, Some e)
              | (s2, Inr c') \<Rightarrow> (s2, \<lparr>u_Spec = spec, u_Config = c'\<rparr>, None)))"

type_synonym ('s, 'v) user_change = "'v User \<Rightarrow> 's \<Rightarrow> 's \<times> 'v User \<times> user_err option"

definition UpdateFirstName :: "('s, 'v) user_env \<Rightarrow> string \<Rightarrow> string \<Rightarrow> ('s, 'v) user_change" where
  "UpdateFirstName E now name = update E now (us_FirstName_update (\<lambda>_. name))"

definition UpdateLastName :: "('s, 'v) user_env \<Rightarrow> string \<Rightarrow> string \<Rightarrow> ('s, 'v) user_change" where
  "UpdateLastName E now name = update E now (us_LastName_update (\<lambda>_. name))"

definition SetRole :: "('s, 'v) user_env \<Rightarrow> string \<Rightarrow> RoleSpec \<Rightarrow> ('s, 'v) user_change" where
  "SetRole E now role = update E now (us_Role_update (\<lambda>_. Some role))"

definition ValidatePassword :: "bcrypt \<Rightarrow> string \<Rightarrow> 'v User \<Rightarrow> user_err option" where
  "ValidatePassword bc p u =
     (case bc_compare bc (us_Password (u_Spec u)) p of
        None \<Rightarrow> None
      | Some None \<Rightarrow> Some PasswordInvalid
      | Some (Some m) \<Rightarrow> Some (HashFailure m))"

definition UpdatePassword ::
  "('s, 'v) user_env \<Rightarrow> bcrypt \<Rightarrow> string \<Rightarrow> string \<Rightarrow> string \<Rightarrow> ('s, 'v) user_change" where
  "UpdatePassword E bc now old newPass u s =
     (case ValidatePassword bc old u of
        Some e \<Rightarrow> (s, u, Some e)
      | None \<Rightarrow>
          (case bc_generate bc newPass of
             Inl m \<Rightarrow> (s, u, Some (HashFailure m))
           | Inr hashed \<Rightarrow> update E now (us_Password_update (\<lambda>_. hashed)) u s))"

definition add_token :: "string \<Rightarrow> string \<Rightarrow> UserSpec \<Rightarrow> UserSpec" where
  "add_token enc note spec =
     (let m = map_get (us_Tokens spec);
          m' = (if note = tokenProxied then (\<lambda>k. if m k = Some tokenProxied then None else m k) else m)
      in spec\<lparr>us_Tokens := Some (m'(enc \<mapsto> note))\<rparr>)"

definition AddToken :: "('s, 'v) user_env \<Rightarrow> string \<Rightarrow> string \<Rightarrow> string \<Rightarrow> ('s, 'v) user_change" where
  "AddToken E now token note = update E now (add_token (token_enc token) note)"

definition DeleteToken :: "('s, 'v) user_env \<Rightarrow> string \<Rightarrow> string \<Rightarrow> ('s, 'v) user_change" where
  "DeleteToken E now token =
     update E now (us_Tokens_update (map_option (\<lambda>m. m(token_enc token := None))))"

definition ValidateToken :: "string \<Rightarrow> 'v User \<Rightarrow> user_err option" where
  "ValidateToken token u =
     (if map_get (us_Tokens (u_Spec u)) (token_enc token) \<noteq> None then None else Some TokenNotFound)"

text \<open>\<open>ks\<close> are the keys of the map in the order the range gives them.\<close>

definition GetProxyToken :: "string list \<Rightarrow> 'v User \<Rightarrow> string" where
  "GetProxyToken ks u =
     (case find (\<lambda>k. map_get (us_Tokens (u_Spec u)) k = Some tokenProxied) ks of
        None \<Rightarrow> [] | Some k \<Rightarrow> k)"

subsection \<open>Roles in the store\<close>

definition role_of :: "RoleSpec \<Rightarrow> Role" where
  "role_of r = \<lparr>role_Name = rsp_Name r, role_Policies = rsp_Policies r, role_mapped = None\<rparr>"

definition role_named :: "('s, 'v) user_env \<Rightarrow> string \<Rightarrow> 'v Config \<Rightarrow> bool" where
  "role_named E name c \<longleftrightarrow>
     c_Name c = name \<or> (case map_get (c_Spec c) ''roleName'' of None \<Rightarrow> False | Some v \<Rightarrow> ue_text E v = Some name)"

definition RoleFromConfig :: "('s, 'v) user_env \<Rightarrow> string \<Rightarrow> ('s, RoleSpec) user_action" where
  "RoleFromConfig E name =
     bindE (user_config (Config_List (ue_case E) (ue_store E) ''role'')) (\<lambda>cs.
       case find (role_named E name) cs of
         None \<Rightarrow> failE RoleNotFound
       | Some c \<Rightarrow> readE (\<lambda>_. decoded (ue_role E) c))"

definition User_Role :: "('s, 'v) user_env \<Rightarrow> 'v User \<Rightarrow> ('s, Role) user_action" where
  "User_Role E u =
     (case us_Role (u_Spec u) of
        None \<Rightarrow> bindE (RoleFromConfig E ''disabled'') (\<lambda>r. retE (role_of r))
      | Some r \<Rightarrow> retE (role_of r))"

definition RoleName :: "('s, 'v) user_env \<Rightarrow> 'v User \<Rightarrow> 's \<Rightarrow> 's \<times> string" where
  "RoleName E u s =
     (case us_Role (u_Spec u) of
        None \<Rightarrow>
          (case RoleFromConfig E ''disabled'' s of (s', Inl e) \<Rightarrow> (s', []) | (s', Inr r) \<Rightarrow> (s', rsp_Name r))
      | Some r \<Rightarrow> (s, rsp_Name r))"

subsection \<open>Users in a store of configs\<close>

definition stored_user ::
  "('s, 'v) user_env \<Rightarrow> ('s \<Rightarrow> string \<times> string \<rightharpoonup> 'v Config) \<Rightarrow> 's \<Rightarrow> string \<Rightarrow> UserSpec option" where
  "stored_user E view s n =
     (case view s (''User'', n) of
        None \<Rightarrow> None
      | Some c \<Rightarrow> (case sp_decode (ue_user E) (c_Spec c) of Inl m \<Rightarrow> None | Inr x \<Rightarrow> Some x))"

lemma user_kind:
  assumes "set ks = set config_kinds"
  shows "canonicalKind u ks ''user'' = ''User''"
proof -
  have "equal_fold u k ''user'' \<longleftrightarrow> k = ''User''" if "k \<in> set ks" for k
    using that unfolding assms by (auto simp: config_kinds_def StoredVersion_def equal_fold_def runes_def rune_fold_def)
  moreover have "''User'' \<in> set ks" unfolding assms by (simp add: config_kinds_def StoredVersion_def)
  ultimately show ?thesis by (rule unique_kind)
qed

lemma user_key:
  assumes "NewConfig u ks (''user/'' @ n) = Inr t" and "set ks = set config_kinds"
  shows "config_key t = (''User'', n)"
  using NewConfig_key[of u ks "''user''" n t] assms by (simp add: user_kind)

locale user_store = config_api "ue_store E" ok view norm "ue_case E" "ue_kinds E"
  for E :: "('s, 'v) user_env" and ok :: "'s \<Rightarrow> bool" and view :: "'s \<Rightarrow> string \<times> string \<rightharpoonup> 'v Config"
    and norm :: "'v Config \<Rightarrow> 'v Config" +
  assumes user_codec: "c_Spec c = sp_encode (ue_user E) x \<Longrightarrow> sp_decode (ue_user E) (c_Spec (norm c)) = Inr x"
begin

abbreviation "users \<equiv> stored_user E view"

lemma get_user:
  assumes "ok s" and "GetUser E n s = (s', r)"
  shows "ok s' \<and> view s' = view s
    \<and> (case r of Inr x \<Rightarrow> users s n = Some (u_Spec x) \<and> config_key (u_Config x) = (''User'', n) | Inl e \<Rightarrow> True)"
proof -
  obtain s1 r1 where g: "Config_Get (ue_case E) (ue_kinds E) (ue_store E) (''user/'' @ n) s = (s1, r1)" by fastforce
  note g1 = get_named[OF assms(1) g]
  show ?thesis
  proof (cases r1)
    case (Inl e)
    then show ?thesis using assms(2) g g1 by (auto simp: GetUser_def user_config_def bindE_def)
  next
    case (Inr c)
    then obtain t :: "'v Config" where t: "NewConfig (ue_case E) (ue_kinds E) (''user/'' @ n) = Inr t"
      "view s (config_key t) = Some c" "config_key c = config_key t"
      using g1 by auto
    have key: "config_key t = (''User'', n)" by (rule user_key[OF t(1) kinds_order])
    show ?thesis
      using assms(2) g g1 Inr t(2,3) unfolding key
      by (auto simp: GetUser_def user_config_def bindE_def decoded_def stored_user_def split: sum.splits)
  qed
qed

lemma update_ok:
  assumes "ok s" and "update E now f u s = (s', u', None)"
  shows "ok s' \<and> (\<exists>spec. users s (c_Name (u_Config u)) = Some spec \<and> users s' (c_Name (u_Config u)) = Some (f spec)
      \<and> u_Spec u' = f spec)
    \<and> c_Name (u_Config u') = c_Name (u_Config u)
    \<and> (\<forall>k. k \<noteq> (''User'', c_Name (u_Config u)) \<longrightarrow> view s' k = view s k)"
proof -
  let ?n = "c_Name (u_Config u)"
  obtain s1 r1 where g: "GetUser E ?n s = (s1, r1)" by fastforce
  note g1 = get_user[OF assms(1) g]
  obtain x where x: "r1 = Inr x" using assms(2) g by (cases r1) (auto simp: update_def)
  have user: "users s ?n = Some (u_Spec x)" and key: "c_Kind (u_Config x) = ''User''" "c_Name (u_Config x) = ?n"
    and s1: "ok s1" "view s1 = view s" using g1 x by auto
  let ?c = "(u_Config x)\<lparr>c_Spec := sp_encode (ue_user E) (f (u_Spec x))\<rparr>"
  obtain s2 r2 where w: "cs_update (ue_store E) now ?c s1 = (s2, r2)" by fastforce
  have k: "c_Kind ?c \<in> set config_kinds" using key by (simp add: config_kinds_def StoredVersion_def)
  note w1 = update_law[OF s1(1) k w]
  obtain c' where c': "r2 = Inr c'" "s' = s2" "u' = \<lparr>u_Spec = f (u_Spec x), u_Config = c'\<rparr>"
    using assms(2) g x w by (cases r2) (auto simp: update_def Save_def user_config_def in_store_def Let_def)
  have v: "view s' = (view s)((''User'', ?n) \<mapsto> norm c')" and up: "c' = updated_at now ?c" and "ok s'"
    using w1 c' s1 key by (auto simp: existing_outcome_def)
  have "c_Spec c' = sp_encode (ue_user E) (f (u_Spec x))" by (simp add: up updated_at_def)
  then have "users s' ?n = Some (f (u_Spec x))" using user_codec by (simp add: stored_user_def v)
  then show ?thesis using user v c'(3) \<open>ok s'\<close> key(2) by (simp add: up updated_at_def)
qed

lemma update_err:
  assumes "ok s" and "update E now f u s = (s', u', Some e)"
  shows "ok s' \<and> view s' = view s \<and> u' = u"
proof -
  obtain s1 r1 where g: "GetUser E (c_Name (u_Config u)) s = (s1, r1)" by fastforce
  note g1 = get_user[OF assms(1) g]
  show ?thesis
  proof (cases r1)
    case (Inl e)
    then show ?thesis using assms(2) g g1 by (auto simp: update_def)
  next
    case (Inr x)
    let ?c = "(u_Config x)\<lparr>c_Spec := sp_encode (ue_user E) (f (u_Spec x))\<rparr>"
    obtain s2 r2 where w: "cs_update (ue_store E) now ?c s1 = (s2, r2)" by fastforce
    have "ok s1" "view s1 = view s" "c_Kind ?c \<in> set config_kinds"
      using g1 Inr by (auto simp: config_kinds_def StoredVersion_def)
    then show ?thesis using assms(2) g Inr w update_law[OF _ _ w]
      by (auto simp: update_def Save_def user_config_def in_store_def Let_def existing_outcome_def split: sum.splits)
  qed
qed

end

subsection \<open>Distinct tokens have distinct encodings\<close>

lemma b64_digit_inj: "m < 64 \<Longrightarrow> n < 64 \<Longrightarrow> b64_digit m = b64_digit n \<longleftrightarrow> m = n"
proof -
  have "distinct b64_alphabet" "length b64_alphabet = 64" by (simp_all add: b64_alphabet_def)
  then show "m < 64 \<Longrightarrow> n < 64 \<Longrightarrow> b64_digit m = b64_digit n \<longleftrightarrow> m = n"
    by (simp add: b64_digit_def nth_eq_iff_index_eq)
qed

lemma b64_digit_pad [simp]: "b64_digit n \<noteq> CHR ''=''" "CHR ''='' \<noteq> b64_digit n"
proof -
  have "CHR ''='' \<notin> set b64_alphabet" "length b64_alphabet = 64" by (simp_all add: b64_alphabet_def)
  then show "b64_digit n \<noteq> CHR ''=''"
    by (metis b64_digit_def nth_mem mod_less_divisor zero_less_numeral)
  then show "CHR ''='' \<noteq> b64_digit n" by simp
qed

text \<open>The four digits of three bytes, and the bytes back from them.\<close>

lemma b64_bytes:
  fixes a b c :: nat
  assumes "a < 256" "b < 256" "c < 256"
  shows "a div 4 < 64" "a mod 4 * 16 + b div 16 < 64" "b mod 16 * 4 + c div 64 < 64" "c mod 64 < 64"
    and "a div 4 * 4 + (a mod 4 * 16 + b div 16) div 16 = a"
    and "(a mod 4 * 16 + b div 16) mod 16 * 16 + (b mod 16 * 4 + c div 64) div 4 = b"
    and "(b mod 16 * 4 + c div 64) mod 4 * 64 + c mod 64 = c"
proof -
  have "b div 16 < 16" "c div 64 < 4" "a mod 4 < 4" "b mod 16 < 16" using assms by auto
  then show "a div 4 < 64" "a mod 4 * 16 + b div 16 < 64" "b mod 16 * 4 + c div 64 < 64" "c mod 64 < 64"
    and "a div 4 * 4 + (a mod 4 * 16 + b div 16) div 16 = a"
    and "(a mod 4 * 16 + b div 16) mod 16 * 16 + (b mod 16 * 4 + c div 64) div 4 = b"
    and "(b mod 16 * 4 + c div 64) mod 4 * 64 + c mod 64 = c"
    using assms by auto
qed

lemma b64_three:
  assumes "a < 256" "b < 256" "c < 256" "a' < 256" "b' < 256" "c' < 256"
    and "b64_digit (a div 4) = b64_digit (a' div 4)"
    and "b64_digit (a mod 4 * 16 + b div 16) = b64_digit (a' mod 4 * 16 + b' div 16)"
    and "b64_digit (b mod 16 * 4 + c div 64) = b64_digit (b' mod 16 * 4 + c' div 64)"
  shows "a = a' \<and> b = b' \<and> (b64_digit (c mod 64) = b64_digit (c' mod 64) \<longrightarrow> c = c')"
proof -
  note l = b64_bytes[OF assms(1-3)] and r = b64_bytes[OF assms(4-6)]
  have e: "a div 4 = a' div 4" "a mod 4 * 16 + b div 16 = a' mod 4 * 16 + b' div 16"
    "b mod 16 * 4 + c div 64 = b' mod 16 * 4 + c' div 64"
    using assms(7-9) l(1-3) r(1-3) b64_digit_inj by blast+
  have "c mod 64 = c' mod 64" if "b64_digit (c mod 64) = b64_digit (c' mod 64)"
    using that l(4) r(4) b64_digit_inj by blast
  then show ?thesis using e l(5-7) r(5-7) by metis
qed

lemma b64_inj:
  "\<forall>x \<in> set xs. x < 256 \<Longrightarrow> \<forall>y \<in> set ys. y < 256 \<Longrightarrow> b64 xs = b64 ys \<Longrightarrow> xs = ys"
proof (induction xs arbitrary: ys rule: b64.induct)
  case 1
  then show ?case by (cases ys rule: b64.cases) auto
next
  case (2 a)
  then obtain a' where "ys = [a']" by (cases ys rule: b64.cases) auto
  then show ?case using 2 b64_three[of a 0 0 a' 0 0] by simp
next
  case (3 a b)
  then obtain a' b' where "ys = [a', b']" by (cases ys rule: b64.cases) auto
  then show ?case using 3 b64_three[of a b 0 a' b' 0] by simp
next
  case (4 a b c xs)
  then obtain a' b' c' ys' where ys: "ys = a' # b' # c' # ys'" by (cases ys rule: b64.cases) auto
  have "xs = ys'" using "4.IH"[of ys'] "4.prems" by (simp add: ys)
  then show ?case using "4.prems" b64_three[of a b c a' b' c'] by (simp add: ys)
qed

lemma token_enc_inj [simp]: "token_enc s = token_enc t \<longleftrightarrow> s = t"
proof
  assume "token_enc s = token_enc t"
  then have "map code_of s = (map code_of t :: nat list)"
    by (intro b64_inj) (auto simp: token_enc_def)
  then show "s = t" by simp
qed simp

subsection \<open>Users in memory\<close>

text \<open>
  Configs whose values are user and role specs, in the store \<^const>\<open>al_cstore\<close>: an instance of
  \<open>user_store\<close> in which the properties below are evaluated.
\<close>

type_synonym spec_value = "UserSpec + RoleSpec"

definition al_env :: "(spec_value al_store, spec_value) user_env" where
  "al_env =
     \<lparr>ue_store = al_cstore, ue_case = \<lparr>u_lower = id, u_fold = id\<rparr>, ue_kinds = config_kinds,
      ue_user = one_field Inl (\<lambda>v. case v of Inl x \<Rightarrow> Some x | Inr _ \<Rightarrow> None),
      ue_role = one_field Inr (\<lambda>v. case v of Inl _ \<Rightarrow> None | Inr x \<Rightarrow> Some x),
      ue_text = (\<lambda>v. None)\<rparr>"

lemma al_env_sel [simp]:
  "ue_store al_env = al_cstore" "ue_kinds al_env = config_kinds" "ue_case al_env = \<lparr>u_lower = id, u_fold = id\<rparr>"
  "sp_encode (ue_user al_env) x = Some [''spec'' \<mapsto> Inl x]"
  "sp_decode (ue_user al_env) (Some [''spec'' \<mapsto> Inl x]) = Inr x"
  by (simp_all add: al_env_def one_field_def)

interpretation al: user_store al_env al_ok map_of "\<lambda>c. c"
  by (intro user_store.intro config_api.intro config_api_axioms.intro user_store_axioms.intro)
     (simp_all add: al.config_store_axioms)

definition example_user :: UserSpec where
  "example_user = \<lparr>us_Username = ''bob'', us_Password = ''#old'', us_FirstName = ''B'', us_LastName = ''C'',
     us_Role = None, us_Tokens = None\<rparr>"

definition bob :: "UserSpec \<Rightarrow> string \<Rightarrow> spec_value User" where
  "bob x now = \<lparr>u_Spec = x, u_Config = empty_config\<lparr>c_Version := ''phenix.sandia.gov/v1'', c_Kind := ''User'',
     c_Metadata := empty_metadata\<lparr>cm_Name := ''bob'', cm_Created := ''t0'', cm_Updated := now\<rparr>, c_Spec := Some [''spec'' \<mapsto> Inl x]\<rparr>\<rparr>"

definition bob_store :: "UserSpec \<Rightarrow> string \<Rightarrow> spec_value al_store" where
  "bob_store x now = [((''User'', ''bob''), u_Config (bob x now))]"

lemma bob_ok [simp]: "al_ok (bob_store x now)"
  by (auto simp: al_ok_def bob_store_def bob_def split: if_splits)

lemma bob_stored [simp]: "stored_user al_env map_of (bob_store x now) ''bob'' = Some x"
  by (simp add: stored_user_def bob_store_def bob_def)

lemma bob_sel [simp]: "u_Spec (bob x now) = x" "c_Name (u_Config (bob x now)) = ''bob''"
  by (simp_all add: bob_def)

lemma bob_get: "GetUser al_env ''bob'' (bob_store x now) = (bob_store x now, Inr (bob x now))"
proof -
  have "canonicalKind \<lparr>u_lower = id, u_fold = id\<rparr> config_kinds ''user'' = ''User''" by (rule user_kind) simp
  then show ?thesis
    by (simp add: GetUser_def Config_Get_def config_named_def NewConfig_def Let_def in_store_def user_config_def
        bindE_def al_cstore_def bob_store_def bob_def decoded_def)
qed

lemma bob_update: "update al_env now f (bob y t') (bob_store x t) = (bob_store (f x) now, bob (f x) now, None)"
  using bob_get[of x t]
  by (simp add: update_def Let_def Save_def user_config_def in_store_def al_cstore_def)
     (simp add: bob_store_def bob_def updated_at_def)

subsection \<open>Tokens, passwords and parallel changes\<close>



text \<open>
  A token is valid from when it is added until it is deleted, adding or deleting one leaves
  the validity of every other token as it was, except that a new proxy token replaces the
  earlier ones: a user never has two.
\<close>

theorem token_lifecycle:
  assumes "user_store E ok view norm" and "ok s" and "GetUser E n s = (s0, Inr v)"
    and "AddToken E now t note u s0 = (s1, u1, None)" and "c_Name (u_Config u) = n"
    and "DeleteToken E now' t u1 s1 = (s2, u2, None)"
  shows "ValidateToken t u1 = None \<and> ValidateToken t u2 \<noteq> None
    \<and> (\<forall>t'. t' \<noteq> t \<longrightarrow> ValidateToken t' u2 = ValidateToken t' u1)
    \<and> (\<forall>t'. t' \<noteq> t \<longrightarrow> note \<noteq> tokenProxied \<longrightarrow> ValidateToken t' u1 = ValidateToken t' v)
    \<and> (note = tokenProxied \<longrightarrow> {k. map_get (us_Tokens (u_Spec u1)) k = Some tokenProxied} = {token_enc t})"
proof -
  have s0: "ok s0" and v: "stored_user E view s0 n = Some (u_Spec v)"
    using user_store.get_user[OF assms(1,2,3)] by (auto simp: stored_user_def)
  note a = user_store.update_ok[OF assms(1) s0 assms(4)[unfolded AddToken_def]]
  have one: "u_Spec u1 = add_token (token_enc t) note (u_Spec v)"
    and got: "stored_user E view s1 n = Some (u_Spec u1)" and s1: "ok s1" "c_Name (u_Config u1) = n"
    using a v assms(5) by auto
  have two: "u_Spec u2 = us_Tokens_update (map_option (\<lambda>m. m(token_enc t := None))) (u_Spec u1)"
    using user_store.update_ok[OF assms(1) s1(1) assms(6)[unfolded DeleteToken_def]] got s1(2) by auto
  show ?thesis
    by (auto simp: two ValidateToken_def) (auto simp: one add_token_def Let_def split: if_splits)
qed

theorem token_lifecycle_witness:
  "\<exists>s1 u1 s2 u2.
     AddToken al_env ''t1'' ''t'' tokenProxied (bob example_user ''t0'') (bob_store example_user ''t0'') = (s1, u1, None)
     \<and> DeleteToken al_env ''t2'' ''t'' u1 s1 = (s2, u2, None)
     \<and> ValidateToken ''t'' u1 = None \<and> ValidateToken ''t'' u2 \<noteq> None"
proof -
  let ?x = "add_token (token_enc ''t'') tokenProxied example_user"
  let ?y = "us_Tokens_update (map_option (\<lambda>m. m(token_enc ''t'' := None))) ?x"
  have a: "AddToken al_env ''t1'' ''t'' tokenProxied (bob example_user ''t0'') (bob_store example_user ''t0'')
      = (bob_store ?x ''t1'', bob ?x ''t1'', None)"
    "DeleteToken al_env ''t2'' ''t'' (bob ?x ''t1'') (bob_store ?x ''t1'') = (bob_store ?y ''t2'', bob ?y ''t2'', None)"
    by (simp_all add: AddToken_def DeleteToken_def bob_update)
  show ?thesis
    using a token_lifecycle[OF al.user_store_axioms bob_ok bob_get a(1) _ a(2)] by auto
qed

text \<open>
  A password changes only for a caller who knows the old one, as the handle read it; after the
  change the new password is accepted, and nothing else of the record changes.
\<close>

theorem update_password:
  assumes "user_store E ok view norm" and "ok s" and "\<And>p h. bc_generate bc p = Inr h \<Longrightarrow> bc_compare bc h p = None"
    and "UpdatePassword E bc now old pw u s = (s', u', err)"
  shows "case err of
      Some e \<Rightarrow> view s' = view s \<and> u' = u
    | None \<Rightarrow> ValidatePassword bc old u = None \<and> ValidatePassword bc pw u' = None
        \<and> (\<exists>spec. stored_user E view s (c_Name (u_Config u)) = Some spec
             \<and> stored_user E view s' (c_Name (u_Config u)) = Some (spec\<lparr>us_Password := us_Password (u_Spec u')\<rparr>))"
proof (cases err)
  case None
  then have old: "ValidatePassword bc old u = None"
    using assms(4) by (auto simp: UpdatePassword_def split: option.splits)
  then obtain h where h: "bc_generate bc pw = Inr h"
    "update E now (us_Password_update (\<lambda>_. h)) u s = (s', u', None)"
    using assms(4) None by (auto simp: UpdatePassword_def split: sum.splits)
  then show ?thesis
    using None old user_store.update_ok[OF assms(1,2) h(2)] assms(3)[OF h(1)]
    by (auto simp: ValidatePassword_def)
next
  case (Some e)
  then show ?thesis
    using assms(4) user_store.update_err[OF assms(1,2)]
    by (auto simp: UpdatePassword_def split: option.splits sum.splits)
qed

definition example_bcrypt :: bcrypt where
  "example_bcrypt = \<lparr>bc_generate = (\<lambda>p. Inr (CHR ''#'' # p)),
    bc_compare = (\<lambda>h p. if h = CHR ''#'' # p then None else Some None)\<rparr>"

theorem update_password_witness:
  "\<exists>s' u'. UpdatePassword al_env example_bcrypt ''t1'' ''old'' ''new'' (bob example_user ''t0'') (bob_store example_user ''t0'') = (s', u', None)
     \<and> ValidatePassword example_bcrypt ''new'' u' = None"
proof -
  let ?n = "example_user\<lparr>us_Password := ''#new''\<rparr>"
  have u: "UpdatePassword al_env example_bcrypt ''t1'' ''old'' ''new'' (bob example_user ''t0'') (bob_store example_user ''t0'')
      = (bob_store ?n ''t1'', bob ?n ''t1'', None)"
    by (simp add: UpdatePassword_def ValidatePassword_def bob_update example_bcrypt_def example_user_def)
  show ?thesis
    using u update_password[OF al.user_store_axioms bob_ok _ u] by (auto simp: example_bcrypt_def split: if_splits)
qed

subsection \<open>Roles\<close>

text \<open>A user without a role gets the role \<^verbatim>\<open>disabled\<close> of the store; without such a role it gets an error.\<close>

lemma find_SomeD: "find P xs = Some x \<Longrightarrow> x \<in> set xs \<and> P x"
  by (induction xs) (auto split: if_splits)

context user_store
begin

lemma role_from_config:
  assumes "ok s" and "RoleFromConfig E name s = (s', Inr sp)"
  shows "\<exists>n c. view s (''Role'', n) = Some c \<and> role_named E name c \<and> decoded (ue_role E) c = Inr sp"
proof -
  obtain s1 r1 where l: "cs_list (ue_store E) [''Role''] s = (s1, r1)" by fastforce
  have "set [''Role''] \<subseteq> set config_kinds" by (simp add: config_kinds_def StoredVersion_def)
  note l1 = list_law[OF assms(1) this l]
  have "Config_List (ue_case E) (ue_store E) ''role'' = in_store (cs_list (ue_store E) [''Role''])"
    by (simp add: Config_List_def to_lower_def is_ascii_def ascii_lower_def)
  then obtain cs c where "r1 = Inr cs" "find (role_named E name) cs = Some c" "decoded (ue_role E) c = Inr sp"
    using assms(2) l by (cases r1) (auto simp: RoleFromConfig_def user_config_def in_store_def bindE_def split: option.splits)
  then show ?thesis using l1 find_SomeD by fastforce
qed

lemma no_role_is_disabled:
  assumes "ok s" and "us_Role (u_Spec u) = None" and "User_Role E u s = (s', Inr r)"
  shows "\<exists>n c sp. view s (''Role'', n) = Some c \<and> role_named E ''disabled'' c
    \<and> decoded (ue_role E) c = Inr sp \<and> r = role_of sp"
proof -
  obtain s1 r1 where f: "RoleFromConfig E ''disabled'' s = (s1, r1)" by fastforce
  then obtain sp where "r1 = Inr sp" "r = role_of sp" using assms(2,3) by (cases r1) (auto simp: User_Role_def bindE_def)
  then show ?thesis using role_from_config[OF assms(1)] f by blast
qed

end

end
