(* ===== verification/Web_Locks.thy ===== *)
theory Web_Locks
  imports Go_Prelude
begin

section \<open>Locks on experiments and machines\<close>

text \<open>
  \<^verbatim>\<open>web/cache\<close>: the cache of the web server, and the locks its handlers take on experiments and
  VMs, which are cache entries that expire. The package \<^verbatim>\<open>go-cache\<close> is the parameter
  \<open>'c gocache\<close>; the locale \<open>gocache_laws\<close> states what it documents: \<^verbatim>\<open>Add\<close> fails exactly when a
  live entry has the key, and an entry lives until its expiration. \<open>Lock\<close> calls \<^verbatim>\<open>Add\<close> and then
  \<^verbatim>\<open>Get\<close>, which is two steps: \<open>env\<close> is what others do to the cache between them. The empty
  status is \<^const>\<open>None\<close>. Times are nanoseconds.

  The step relation \<open>lock_step\<close> is the world of the handlers: they acquire and release locks and
  store other values while time passes; the invariant is mutual exclusion.
\<close>

datatype Status =
  StatusStopping | StatusStopped | StatusStarting | StatusStarted | StatusCreating | StatusUpdating
| StatusDeleting | StatusRedeploying | StatusSnapshotting | StatusRestoring | StatusCommitting

datatype cache_value = CBytes bytes | CStatus Status

text \<open>The duration \<^verbatim>\<open>-1\<close> is \<^verbatim>\<open>NoExpiration\<close>.\<close>

record 'c gocache =
  gc_get :: "int \<Rightarrow> string \<Rightarrow> 'c \<Rightarrow> cache_value option"
  gc_set :: "int \<Rightarrow> string \<Rightarrow> cache_value \<Rightarrow> int \<Rightarrow> 'c \<Rightarrow> 'c"
  gc_add :: "int \<Rightarrow> string \<Rightarrow> cache_value \<Rightarrow> int \<Rightarrow> 'c \<Rightarrow> string + 'c"
  gc_delete :: "string \<Rightarrow> 'c \<Rightarrow> 'c"

definition minute :: int where
  "minute = 60 * 1000000000"

definition lockTimeout :: int where
  "lockTimeout = 5 * minute"

subsection \<open>The cache\<close>

definition cache_Get :: "'c gocache \<Rightarrow> int \<Rightarrow> string \<Rightarrow> 'c \<Rightarrow> bytes option" where
  "cache_Get G now key c = (case gc_get G now key c of Some (CBytes v) \<Rightarrow> Some v | _ \<Rightarrow> None)"

definition cache_Set :: "'c gocache \<Rightarrow> int \<Rightarrow> string \<Rightarrow> bytes \<Rightarrow> 'c \<Rightarrow> 'c" where
  "cache_Set G now key val = gc_set G now key (CBytes val) (- 1)"

definition cache_SetWithExpire :: "'c gocache \<Rightarrow> int \<Rightarrow> string \<Rightarrow> bytes \<Rightarrow> int \<Rightarrow> 'c \<Rightarrow> 'c" where
  "cache_SetWithExpire G now key val exp = gc_set G now key (CBytes val) exp"

definition lock_key :: "string \<Rightarrow> string" where
  "lock_key key = ''LOCK|'' @ key"

definition Locked :: "'c gocache \<Rightarrow> int \<Rightarrow> string \<Rightarrow> 'c \<Rightarrow> Status option" where
  "Locked G now key c = (case gc_get G now (lock_key key) c of Some (CStatus s) \<Rightarrow> Some s | _ \<Rightarrow> None)"

definition Lock ::
  "'c gocache \<Rightarrow> int \<Rightarrow> int \<Rightarrow> ('c \<Rightarrow> 'c) \<Rightarrow> string \<Rightarrow> Status \<Rightarrow> int \<Rightarrow> 'c \<Rightarrow> 'c \<times> Status option" where
  "Lock G now later env key status exp c =
     (case gc_add G now (lock_key key) (CStatus status) exp c of
        Inr c' \<Rightarrow> (c', None)
      | Inl e \<Rightarrow> (env c, Locked G later key (env c)))"

definition Unlock :: "'c gocache \<Rightarrow> string \<Rightarrow> 'c \<Rightarrow> 'c" where
  "Unlock G key = gc_delete G (lock_key key)"

subsection \<open>Locks by purpose\<close>

datatype lock_err = ExperimentLocked string Status | VMLocked string Status

definition experiment_key :: "string \<Rightarrow> string" where
  "experiment_key name = ''experiment|'' @ name"

definition vm_key :: "string \<Rightarrow> string \<Rightarrow> string" where
  "vm_key exp name = ''vm|'' @ exp @ ''/'' @ name"

definition IsExperimentLocked :: "'c gocache \<Rightarrow> int \<Rightarrow> string \<Rightarrow> 'c \<Rightarrow> Status option" where
  "IsExperimentLocked G now name = Locked G now (experiment_key name)"

definition UnlockExperiment :: "'c gocache \<Rightarrow> string \<Rightarrow> 'c \<Rightarrow> 'c" where
  "UnlockExperiment G name = Unlock G (experiment_key name)"

definition UnlockVM :: "'c gocache \<Rightarrow> string \<Rightarrow> string \<Rightarrow> 'c \<Rightarrow> 'c" where
  "UnlockVM G exp name = Unlock G (vm_key exp name)"

type_synonym 'c lock_op = "'c gocache \<Rightarrow> int \<Rightarrow> int \<Rightarrow> ('c \<Rightarrow> 'c) \<Rightarrow> string \<Rightarrow> 'c \<Rightarrow> 'c \<times> lock_err option"
type_synonym 'c vm_lock_op =
  "'c gocache \<Rightarrow> int \<Rightarrow> int \<Rightarrow> ('c \<Rightarrow> 'c) \<Rightarrow> string \<Rightarrow> string \<Rightarrow> 'c \<Rightarrow> 'c \<times> lock_err option"

definition LockExperimentForCreation :: "'c lock_op" where
  "LockExperimentForCreation G now later env name c =
     map_prod id (map_option (ExperimentLocked name))
       (Lock G now later env (experiment_key name) StatusCreating lockTimeout c)"

definition LockExperimentForUpdate :: "'c lock_op" where
  "LockExperimentForUpdate G now later env name c =
     map_prod id (map_option (ExperimentLocked name))
       (Lock G now later env (experiment_key name) StatusUpdating lockTimeout c)"

definition LockExperimentForDeletion :: "'c lock_op" where
  "LockExperimentForDeletion G now later env name c =
     map_prod id (map_option (ExperimentLocked name))
       (Lock G now later env (experiment_key name) StatusDeleting (1 * minute) c)"

definition LockExperimentForStarting :: "'c lock_op" where
  "LockExperimentForStarting G now later env name c =
     map_prod id (map_option (ExperimentLocked name))
       (Lock G now later env (experiment_key name) StatusStarting lockTimeout c)"

definition LockExperimentForStopping :: "'c lock_op" where
  "LockExperimentForStopping G now later env name c =
     map_prod id (map_option (ExperimentLocked name))
       (Lock G now later env (experiment_key name) StatusStopping (1 * minute) c)"

definition LockVMForStarting :: "'c vm_lock_op" where
  "LockVMForStarting G now later env exp name c =
     map_prod id (map_option (VMLocked name))
       (Lock G now later env (vm_key exp name) StatusStarting (1 * minute) c)"

definition LockVMForStopping :: "'c vm_lock_op" where
  "LockVMForStopping G now later env exp name c =
     map_prod id (map_option (VMLocked name))
       (Lock G now later env (vm_key exp name) StatusStopping (1 * minute) c)"

definition LockVMForRedeploying :: "'c vm_lock_op" where
  "LockVMForRedeploying G now later env exp name c =
     map_prod id (map_option (VMLocked name))
       (Lock G now later env (vm_key exp name) StatusRedeploying lockTimeout c)"

definition LockVMForSnapshotting :: "'c vm_lock_op" where
  "LockVMForSnapshotting G now later env exp name c =
     map_prod id (map_option (VMLocked name))
       (Lock G now later env (vm_key exp name) StatusSnapshotting lockTimeout c)"

definition LockVMForRestoring :: "'c vm_lock_op" where
  "LockVMForRestoring G now later env exp name c =
     map_prod id (map_option (VMLocked name))
       (Lock G now later env (vm_key exp name) StatusRestoring lockTimeout c)"

definition LockVMForCommitting :: "'c vm_lock_op" where
  "LockVMForCommitting G now later env exp name c =
     map_prod id (map_option (VMLocked name))
       (Lock G now later env (vm_key exp name) StatusCommitting lockTimeout c)"

definition LockVMForMemorySnapshotting :: "'c vm_lock_op" where
  "LockVMForMemorySnapshotting G now later env exp name c =
     map_prod id (map_option (VMLocked name))
       (Lock G now later env (vm_key exp name) StatusSnapshotting lockTimeout c)"

subsection \<open>The handlers and their locks\<close>

text \<open>
  \<open>w_holders\<close> are the handlers that were told they have a lock and have not released it, each
  with the key and the time its lock expires. A handler releases its lock before it expires.
\<close>

record 'c world =
  w_now :: int
  w_cache :: 'c
  w_holders :: "(nat \<times> string \<times> int) set"

inductive lock_step :: "'c gocache \<Rightarrow> 'c world \<Rightarrow> 'c world \<Rightarrow> bool" for G where
  acquire: "0 < d \<Longrightarrow> Lock G (w_now w) (w_now w) id key st d (w_cache w) = (c', None) \<Longrightarrow>
    lock_step G w (w\<lparr>w_cache := c', w_holders := insert (a, key, w_now w + d) (w_holders w)\<rparr>)"
| refused: "0 < d \<Longrightarrow> Lock G (w_now w) (w_now w) id key st d (w_cache w) = (c', Some s) \<Longrightarrow>
    lock_step G w (w\<lparr>w_cache := c'\<rparr>)"
| release: "(a, key, dl) \<in> w_holders w \<Longrightarrow> w_now w \<le> dl \<Longrightarrow>
    lock_step G w (w\<lparr>w_cache := Unlock G key (w_cache w), w_holders := w_holders w - {(a, key, dl)}\<rparr>)"
| store: "\<not> prefix ''LOCK|'' key \<Longrightarrow>
    lock_step G w (w\<lparr>w_cache := cache_SetWithExpire G (w_now w) key v d (w_cache w)\<rparr>)"
| tick: "w_now w \<le> t \<Longrightarrow> lock_step G w (w\<lparr>w_now := t\<rparr>)"

inductive_cases lock_stepE: "lock_step G w w'"

inductive reachable :: "'c gocache \<Rightarrow> 'c world \<Rightarrow> 'c world \<Rightarrow> bool" for G w0 where
  reach_init: "reachable G w0 w0"
| reach_step: "reachable G w0 w \<Longrightarrow> lock_step G w w' \<Longrightarrow> reachable G w0 w'"

definition live_holders :: "'c world \<Rightarrow> string \<Rightarrow> nat set" where
  "live_holders w key = {a. \<exists>dl. (a, key, dl) \<in> w_holders w \<and> w_now w \<le> dl}"

text \<open>Only statuses are stored under lock keys.\<close>

definition locks_only :: "'c gocache \<Rightarrow> 'c \<Rightarrow> bool" where
  "locks_only G c \<longleftrightarrow> (\<forall>t k b. gc_get G t (lock_key k) c \<noteq> Some (CBytes b))"

text \<open>The entry of a lock lives as long as its holder may rely on it, and holders exclude each other.\<close>

definition held :: "'c gocache \<Rightarrow> 'c world \<Rightarrow> bool" where
  "held G w \<longleftrightarrow> (\<forall>a k d t. (a, k, d) \<in> w_holders w \<longrightarrow> w_now w \<le> t \<longrightarrow> t \<le> d \<longrightarrow>
     gc_get G t (lock_key k) (w_cache w) \<noteq> None)"

definition exclusive :: "'c world \<Rightarrow> bool" where
  "exclusive w \<longleftrightarrow> (\<forall>a b k d e. (a, k, d) \<in> w_holders w \<longrightarrow> (b, k, e) \<in> w_holders w \<longrightarrow>
     w_now w \<le> d \<longrightarrow> w_now w \<le> e \<longrightarrow> a = b \<and> d = e)"

definition lock_inv :: "'c gocache \<Rightarrow> 'c world \<Rightarrow> bool" where
  "lock_inv G w \<longleftrightarrow> locks_only G (w_cache w) \<and> held G w \<and> exclusive w"

locale gocache_laws =
  fixes G :: "'c gocache"
  assumes add_ok: "gc_add G now k v d c = Inr c' \<Longrightarrow>
      gc_get G now k c = None \<and> (\<forall>k'. k' \<noteq> k \<longrightarrow> (\<forall>t. gc_get G t k' c' = gc_get G t k' c))"
    and add_live: "gc_add G now k v d c = Inr c' \<Longrightarrow> 0 < d \<Longrightarrow> now \<le> t \<Longrightarrow>
      gc_get G t k c' = (if t \<le> now + d then Some v else None)"
    and add_only: "gc_add G now k v d c = Inr c' \<Longrightarrow> gc_get G t k c' = Some v' \<Longrightarrow> v' = v"
    and add_fails: "gc_add G now k v d c = Inl e \<Longrightarrow> gc_get G now k c \<noteq> None"
    and set_other: "k' \<noteq> k \<Longrightarrow> gc_get G t k' (gc_set G now k v d c) = gc_get G t k' c"
    and delete_get: "gc_get G t k' (gc_delete G k c) = (if k' = k then None else gc_get G t k' c)"
begin

lemma lock_free:
  assumes "0 < d" and "Lock G now now id key st d c = (c', None)" and "locks_only G c"
  shows "gc_get G now (lock_key key) c = None \<and> locks_only G c'
    \<and> (\<forall>t. now \<le> t \<and> t \<le> now + d \<longrightarrow> gc_get G t (lock_key key) c' \<noteq> None)
    \<and> (\<forall>k. k \<noteq> key \<longrightarrow> (\<forall>t. gc_get G t (lock_key k) c' = gc_get G t (lock_key k) c))"
proof (cases "gc_add G now (lock_key key) (CStatus st) d c")
  case (Inl e)
  then obtain v where v: "gc_get G now (lock_key key) c = Some v" using add_fails by blast
  then show ?thesis
    using assms(2,3) Inl by (cases v) (auto simp: Lock_def Locked_def locks_only_def)
next
  case (Inr c'')
  then have c': "c'' = c'" using assms(2) by (simp add: Lock_def)
  have other: "gc_get G t (lock_key k) c' = gc_get G t (lock_key k) c" if "k \<noteq> key" for t k
    using that add_ok[OF Inr] c' by (simp add: lock_key_def)
  moreover have "gc_get G t (lock_key k) c' \<noteq> Some (CBytes b)" for t k b
    using other[of k] add_only[OF Inr] assms(3) c' by (cases "k = key") (auto simp: locks_only_def)
  ultimately show ?thesis
    using add_ok[OF Inr] add_live[OF Inr assms(1)] c' by (auto simp: locks_only_def)
qed

lemma lock_taken:
  assumes "0 < d" and "Lock G now now id key st d c = (c', Some s)"
  shows "c' = c"
  using assms by (auto simp: Lock_def split: sum.splits)

lemma step_inv:
  assumes "lock_step G w w'" and "lock_inv G w"
  shows "lock_inv G w'"
  using assms(1)
proof (cases rule: lock_step.cases)
  case (acquire d key st c' a)
  have l: "locks_only G (w_cache w)" and h: "held G w" and x: "exclusive w"
    using assms(2) by (simp_all add: lock_inv_def)
  note f = lock_free[OF acquire(2,3) l]
  have none: "e < w_now w" if "(b, key, e) \<in> w_holders w" for b e
    using that f h unfolding held_def by (metis linorder_not_le order_refl)
  have "held G w'" unfolding held_def
  proof (intro allI impI)
    fix b k e t assume t: "(b, k, e) \<in> w_holders w'" "w_now w' \<le> t" "t \<le> e"
    show "gc_get G t (lock_key k) (w_cache w') \<noteq> None"
      using t f h none[of b e] unfolding acquire(1) held_def by (cases "k = key") auto
  qed
  moreover have "exclusive w'"
    using x none unfolding acquire(1) exclusive_def by (auto simp: not_le[symmetric])
  ultimately show ?thesis using f unfolding acquire(1) lock_inv_def by simp
next
  case (refused d key st c' s)
  then show ?thesis using assms(2) lock_taken[OF refused(2,3)] by (simp add: lock_inv_def held_def exclusive_def)
next
  case (release a key dl)
  have h: "held G w" and x: "exclusive w" using assms(2) by (simp_all add: lock_inv_def)
  have other: "gc_get G t (lock_key k) (Unlock G key (w_cache w)) = gc_get G t (lock_key k) (w_cache w)"
    if "k \<noteq> key" for t k using that by (simp add: Unlock_def delete_get lock_key_def)
  have "held G w'" unfolding held_def
  proof (intro allI impI)
    fix b k e t assume t: "(b, k, e) \<in> w_holders w'" "w_now w' \<le> t" "t \<le> e"
    have in_w: "(b, k, e) \<in> w_holders w" "(b, k, e) \<noteq> (a, key, dl)" "w_now w \<le> e"
      using t unfolding release(1) by auto
    have "k \<noteq> key"
    proof
      assume "k = key"
      then have "b = a \<and> e = dl" using x in_w release(2,3) unfolding exclusive_def by blast
      then show False using in_w(2) \<open>k = key\<close> by simp
    qed
    then show "gc_get G t (lock_key k) (w_cache w') \<noteq> None"
      using t h unfolding held_def release(1) by (auto simp: other)
  qed
  moreover have "exclusive w'" using x unfolding release(1) exclusive_def by auto
  moreover have "locks_only G (w_cache w')"
    using assms(2) unfolding release(1) by (auto simp: lock_inv_def locks_only_def Unlock_def delete_get)
  ultimately show ?thesis by (simp add: lock_inv_def)
next
  case (store key v d)
  have "lock_key k \<noteq> key" for k using store(2) by (auto simp: lock_key_def)
  then have "gc_get G t (lock_key k) (cache_SetWithExpire G (w_now w) key v d (w_cache w))
      = gc_get G t (lock_key k) (w_cache w)" for t k
    by (simp add: cache_SetWithExpire_def set_other)
  then show ?thesis
    using assms(2) unfolding store(1) by (simp add: lock_inv_def locks_only_def held_def exclusive_def)
next
  case (tick t)
  then show ?thesis
    using assms(2) unfolding lock_inv_def held_def exclusive_def tick(1)
    by (simp; meson order.trans)
qed

lemma reachable_inv: "reachable G w0 w \<Longrightarrow> lock_inv G w0 \<Longrightarrow> lock_inv G w"
  by (induction rule: reachable.induct) (auto intro: step_inv)

end

text \<open>The cache as a map from keys to values with their expiration, as \<^verbatim>\<open>go-cache\<close> keeps it.\<close>

definition map_cache_get :: "int \<Rightarrow> string \<Rightarrow> (string \<Rightarrow> (cache_value \<times> int option) option) \<Rightarrow> cache_value option" where
  "map_cache_get now k c =
     (case c k of
        None \<Rightarrow> None
      | Some (v, None) \<Rightarrow> Some v
      | Some (v, Some e) \<Rightarrow> if e < now then None else Some v)"

definition expiration :: "int \<Rightarrow> int \<Rightarrow> int option" where
  "expiration now d = (if 0 < d then Some (now + d) else None)"

definition map_cache :: "(string \<Rightarrow> (cache_value \<times> int option) option) gocache" where
  "map_cache =
     \<lparr>gc_get = map_cache_get,
      gc_set = (\<lambda>now k v d c. c(k \<mapsto> (v, expiration now d))),
      gc_add = (\<lambda>now k v d c. if map_cache_get now k c = None then Inr (c(k \<mapsto> (v, expiration now d)))
        else Inl ''item already exists''),
      gc_delete = (\<lambda>k c. c(k := None))\<rparr>"

interpretation mcache: gocache_laws map_cache
  by unfold_locales
     (auto simp: map_cache_def map_cache_get_def expiration_def split: if_splits option.splits)

subsection \<open>Mutual exclusion\<close>



text \<open>
  A lock that is free is acquired, one that is taken is refused with the status it is held
  for, and the lock for one purpose is refused while the lock for any other purpose on the same
  experiment is held; after \<^verbatim>\<open>UnlockExperiment\<close> the experiment is not locked.
\<close>

theorem experiment_lock_purposes:
  assumes "gocache_laws G" and "locks_only G c" and "now \<le> t" and "t \<le> now + minute"
    and "LockExperimentForDeletion G now now id name c = (c', None)"
  shows "IsExperimentLocked G now name c = None \<and> IsExperimentLocked G t name c' = Some StatusDeleting
    \<and> LockExperimentForStarting G t t id name c' = (c', Some (ExperimentLocked name StatusDeleting))
    \<and> LockExperimentForUpdate G t t id name c' = (c', Some (ExperimentLocked name StatusDeleting))
    \<and> LockExperimentForStopping G t t id name c' = (c', Some (ExperimentLocked name StatusDeleting))
    \<and> IsExperimentLocked G t name (UnlockExperiment G name c') = None"
proof -
  let ?k = "experiment_key name"
  have pos: "0 < minute" by (simp add: minute_def)
  have L: "Lock G now now id ?k StatusDeleting minute c = (c', None)"
    using assms(5) by (cases "Lock G now now id ?k StatusDeleting minute c")
      (auto simp: LockExperimentForDeletion_def)
  have free: "gc_get G now (lock_key ?k) c = None"
    using gocache_laws.lock_free[OF assms(1) pos L assms(2)] by blast
  then have added: "gc_add G now (lock_key ?k) (CStatus StatusDeleting) minute c = Inr c'"
    using L gocache_laws.add_fails[OF assms(1)] by (fastforce simp: Lock_def split: sum.splits)
  have got: "gc_get G t (lock_key ?k) c' = Some (CStatus StatusDeleting)"
    using gocache_laws.add_live[OF assms(1) added pos assms(3)] assms(4) by simp
  have refuse: "Lock G t t id ?k st d c' = (c', Some StatusDeleting)" for st d
    using got gocache_laws.add_ok[OF assms(1)] by (fastforce simp: Lock_def Locked_def split: sum.splits)
  show ?thesis
    by (simp add: IsExperimentLocked_def Locked_def free got refuse LockExperimentForStarting_def
        LockExperimentForUpdate_def LockExperimentForStopping_def UnlockExperiment_def Unlock_def
        gocache_laws.delete_get[OF assms(1)])
qed

theorem experiment_lock_purposes_witness:
  "\<exists>c'. LockExperimentForDeletion map_cache 0 0 id ''e'' Map.empty = (c', None)
    \<and> LockExperimentForStarting map_cache 1 1 id ''e'' c' = (c', Some (ExperimentLocked ''e'' StatusDeleting))"
proof -
  let ?c = "[lock_key (experiment_key ''e'') \<mapsto> (CStatus StatusDeleting, Some minute)]"
  have l: "LockExperimentForDeletion map_cache 0 0 id ''e'' Map.empty = (?c, None)"
    by (simp add: LockExperimentForDeletion_def Lock_def map_cache_def map_cache_get_def expiration_def minute_def)
  have "locks_only map_cache Map.empty" by (simp add: locks_only_def map_cache_def map_cache_get_def)
  then show ?thesis
    using l experiment_lock_purposes[OF mcache.gocache_laws_axioms _ _ _ l, of 1] by (auto simp: minute_def)
qed

subsection \<open>What is not excluded\<close>

text \<open>
  When the entry of a lock goes away between the \<^verbatim>\<open>Add\<close> and the \<^verbatim>\<open>Get\<close> of \<^verbatim>\<open>Lock\<close>, the caller is
  told it has the lock although nothing has been stored for it: the next caller gets it too.
\<close>

lemma lock_race:
  "\<exists>c c'. Lock map_cache 0 0 (Unlock map_cache ''k'') ''k'' StatusStarting 5 c = (c', None)
    \<and> Locked map_cache 0 ''k'' c' = None
    \<and> snd (Lock map_cache 0 0 id ''k'' StatusStopping 5 c') = None"
  by (rule exI[of _ "[lock_key ''k'' \<mapsto> (CStatus StatusUpdating, Some 5)]"],
      rule exI[of _ Map.empty])
     (simp add: Lock_def Locked_def Unlock_def map_cache_def map_cache_get_def expiration_def lock_key_def)

text \<open>
  A handler that outlives its lock and then releases it releases the lock of the handler that
  came after it.
\<close>

lemma late_release:
  assumes "Lock map_cache 0 0 id ''k'' StatusUpdating 5 Map.empty = (c1, None)"
    and "Lock map_cache 6 6 id ''k'' StatusDeleting 5 c1 = (c2, None)"
  shows "Locked map_cache 7 ''k'' c2 = Some StatusDeleting
    \<and> Locked map_cache 7 ''k'' (Unlock map_cache ''k'' c2) = None"
  using assms
  by (auto simp: Lock_def Locked_def Unlock_def map_cache_def map_cache_get_def expiration_def)

text \<open>The keys of experiments and VMs do not collide, for experiment names without a slash.\<close>

lemma lock_keys_distinct:
  "experiment_key x \<noteq> vm_key e n"
  "experiment_key x = experiment_key y \<longleftrightarrow> x = y"
  by (simp_all add: experiment_key_def vm_key_def)

lemma vm_keys_distinct:
  assumes "CHR ''/'' \<notin> set e" and "CHR ''/'' \<notin> set e'"
  shows "vm_key e n = vm_key e' n' \<longleftrightarrow> e = e' \<and> n = n'"
proof -
  have "takeWhile (\<lambda>c. c \<noteq> CHR ''/'') (e @ CHR ''/'' # n) = e" "takeWhile (\<lambda>c. c \<noteq> CHR ''/'') (e' @ CHR ''/'' # n') = e'"
    using assms by (auto simp: takeWhile_append)
  then show ?thesis by (auto simp: vm_key_def dest: arg_cong[of _ _ "takeWhile (\<lambda>c. c \<noteq> CHR ''/'')"])
qed

end
