(* ===== verification/Spec2Isabelle.thy ===== *)
theory Spec2Isabelle
  imports Builder_Content Workflow Builder_Connect Vlan Rbac_User Web_Locks
begin

section \<open>A verification development of phenix\<close>

text \<open>
  phenix (\<^verbatim>\<open>src/go\<close>) orchestrates experiments on clusters of virtual machines. What it knows is kept
  in one store: configs (topologies, scenarios, experiments, users, roles) and records (the drafts and
  published documents of the Builder, the graphical editor of topologies). The development models the
  parts that decide what is stored and whether a request may change it: the store, the typed specs, the
  access control, the scheduling of machines, and the Builder service. All file names below are
  relative to \<^verbatim>\<open>src/go\<close>.

  \<^bold>\<open>Parts of the program and their theories\<close>

  \<^item> \<open>Go_Prelude\<close>, \<open>Go_Runtime\<close>: Go strings, runes, words, sorting and nil pointers; the action
    type \<open>('s, 'e, 'a) action\<close> (a state, and an error or a result) with \<^const>\<open>retE\<close>, \<^const>\<open>failE\<close> and \<^const>\<open>bindE\<close>
    for code that returns early. \<open>Glob\<close>: the patterns of \<^verbatim>\<open>path/filepath\<close>.
  \<^item> The record store. \<open>Record_Spec\<close> (\<^verbatim>\<open>store/record.go\<close>, \<^verbatim>\<open>store/store.go\<close>): names, keys, errors, and the
    contract of a transaction: an abstract store from namespace and key to a value with a revision, and
    the locale \<open>record_tx\<close>. \<open>Bolt_Record\<close>, \<open>Bolt_Store\<close> (\<^verbatim>\<open>store/bolt_record.go\<close>): the Bolt store over
    bbolt, the byte layout of records, and the proof that it keeps the contract. \<open>Record_Store\<close>: the
    store as its clients see it, and simulation: a client does to any store what it does to the abstract
    store, unless the store fails.
  \<^item> The config store. \<open>Config_Store\<close> (\<^verbatim>\<open>store/bolt.go\<close>, \<^verbatim>\<open>store/types.go\<close>): configs in the same file.
    \<open>Config_Api\<close> (\<^verbatim>\<open>api/config/config.go\<close>): creating, updating, renaming and deleting with hooks.
  \<^item> Specs (\<^verbatim>\<open>types/version/v1\<close>). \<open>Topo_Network\<close>, \<open>Topo_Node\<close>, \<open>Topology\<close>, \<open>Experiment_Spec\<close>: interfaces,
    nodes, topologies, experiments and their VLANs. A struct is a record, a pointer an option.
  \<^item> Experiments. \<open>Cluster\<close> (\<^verbatim>\<open>util/mm/types.go\<close>) and \<open>Scheduler\<close> (\<^verbatim>\<open>scheduler\<close>): the hosts and the placement
    of nodes on them. \<open>Experiment_Api\<close> (\<^verbatim>\<open>types/experiment.go\<close>, \<^verbatim>\<open>api/experiment/experiment.go\<close>): stored
    experiments, their config hooks and scheduling. \<open>Vlan\<close> (\<^verbatim>\<open>api/vlan\<close>): aliases and ranges.
  \<^item> Workflows. \<open>Workflow_Topology\<close> (\<^verbatim>\<open>types/topology.go\<close>, \<^verbatim>\<open>api/workflow/prepare.go\<close>): topologies with
    includes and the check of a topology before use. \<open>Workflow\<close> (\<^verbatim>\<open>api/workflow\<close>, \<^verbatim>\<open>web/workflow.go\<close>): what
    applying a workflow to a branch does, what is resolved and checked before anything changes, and the
    changes to the spec of an experiment.
  \<^item> Access control. \<open>Rbac\<close>, \<open>Rbac_User\<close> (\<^verbatim>\<open>web/rbac\<close>): the decision whether a role allows a request, and
    users with their tokens. \<open>Web_Locks\<close> (\<^verbatim>\<open>web/cache\<close>): the locks of the web handlers.
  \<^item> The Builder service (\<^verbatim>\<open>api/builder\<close>). \<open>Builder_Draft\<close>, \<open>Builder_Service\<close> (\<^verbatim>\<open>service.go\<close>, \<^verbatim>\<open>content.go\<close>,
    \<^verbatim>\<open>validate.go\<close>): drafts, which are histories of documents with undo and redo. \<open>Builder_Laws\<close> and
    \<open>Builder_Calls\<close> hold the lemmas on them, \<open>Builder_Drafts\<close> the properties. \<open>Builder_Published\<close>,
    \<open>Builder_Cleanup\<close> (\<^verbatim>\<open>published.go\<close>, \<^verbatim>\<open>cleanup.go\<close>): the published copies of documents, and the
    cleanups that remove what nothing names any more. \<open>Builder_Documents\<close> holds what the calls do,
    \<open>Builder_Requests\<close> what any sequence of calls leaves of the content that a cleanup must not take,
    \<open>Builder_Orphans\<close> the cleanups, and \<open>Builder_Content\<close> the properties.
  \<^item> Builder documents (\<^verbatim>\<open>types/builder\<close>). \<open>Builder_Model\<close> (\<^verbatim>\<open>document.go\<close>, \<^verbatim>\<open>spec.go\<close>, \<^verbatim>\<open>uuid.go\<close>): the
    document, the values of node specs and identifiers. \<open>Builder_Parts\<close> (\<^verbatim>\<open>layerset.go\<close>,
    \<^verbatim>\<open>customicons.go\<close>): the scanners of patterns and the reader of PNG chunks. \<open>Builder_Check\<close>
    (\<^verbatim>\<open>validate.go\<close> and what it calls): every check of a document; \<open>Builder_Valid\<close>: what a valid document is.
    \<open>Builder_Topology\<close> (\<^verbatim>\<open>topology.go\<close>, \<^verbatim>\<open>devicewarnings.go\<close>): the topology config that a document
    publishes as and the checks that block a publish; \<open>Builder_Connect\<close>: what is published.

  \<^bold>\<open>How they interact\<close>

  Web handlers ask \<open>Rbac\<close> whether a request is allowed and take a lock of \<open>Web_Locks\<close>; then they call the
  api packages. These read and write configs through \<open>Config_Api\<close>, whose hooks run \<open>Experiment_Api\<close>, which
  initialises the spec of \<open>Experiment_Spec\<close> and calls \<open>Scheduler\<close>; or they call the Builder service,
  which works on records. Configs and records share one Bolt file. Each interface between two parts is
  a locale (\<open>record_tx\<close>, \<open>record_store\<close>, \<open>config_store\<close>, \<open>config_api\<close>, \<open>user_store\<close>, \<open>experiment_store\<close>,
  \<open>scheduler\<close>, \<open>builder_env\<close>, \<open>pub_env\<close>, and for packages outside the repository \<open>bbolt_laws\<close>, \<open>json_laws\<close>,
  \<open>gocache_laws\<close>, \<open>slice_sort\<close>), and is interpreted on the definitions that provide it.

  \<^bold>\<open>What the lemmas show\<close>

  \<^item> Stores: refinement of the abstract stores, all-or-nothing transactions, increasing revisions, no lost
    updates, exact listings, round trips of the byte layout; configs do not touch records.
  \<^item> Specs: when validation succeeds, in closed form; defaults; topologies as maps; VLANs inside the range.
  \<^item> Experiments: every scheduler keeps one contract; round-robin is balanced; bridges stay distinct.
  \<^item> Workflows: decoding includes ends; a topology that passes the check initialises an experiment without
    a panic or an error; an update that is planned and prepared is accepted by the config hook.
  \<^item> Access: what a role allows, in closed form; policies; token life; mutual exclusion of locks, as an
    invariant of a step relation.
  \<^item> Builder: every snapshot in the history of every draft can be read and is the document it was, after
    any sequence of calls; undo brings documents back; publishing is idempotent; failed calls change
    nothing; what holds on the abstract store holds on the Bolt store. A published document can be read
    under its identifier. A cleanup never takes content that a draft or a document names, whatever other
    requests run between its steps, and when it runs alone it removes exactly the orphans.
  \<^item> Builder documents: validation accepts exactly the documents that a declarative description allows,
    whose parents form no cycle and whose edges each join one interface with one network; a connected
    interface is published on its network's VLAN; what is published has VLANs everywhere, hostnames
    that phenix accepts and no shared addresses.

  \<^bold>\<open>Conventions, bounds and fuel\<close>

  Errors are values that keep what \<^verbatim>\<open>errors.Is\<close> and \<^verbatim>\<open>errors.As\<close> can see; texts of messages are left out
  where they only repeat values. Revisions and page numbers, where wrap-around matters, are 64-bit words,
  and the theorems name the bound under which they do not wrap; counts, sizes and times are integers,
  each with its bound in the theory that uses it. The order in which Go ranges over a map is an argument.
  No definition uses fuel: every loop is a recursion with a termination proof. Requests that run while
  another one does are a step relation, or an argument for what happens between two calls of the store.

  \<^bold>\<open>Not modelled\<close>

  Packages outside the repository (bbolt, \<^verbatim>\<open>encoding/json\<close>, gzip, SHA-256, bcrypt, go-cache, mapstructure,
  the clock) are parameters with the documented laws the code relies on. Left out are the programs that
  drive minimega, containers and VMs (\<^verbatim>\<open>util/mm\<close>, \<^verbatim>\<open>api/vm\<close>, \<^verbatim>\<open>api/soh\<close>, \<^verbatim>\<open>api/scorch\<close>, \<^verbatim>\<open>app\<close>, \<^verbatim>\<open>tunneler\<close>,
  starting and stopping in \<^verbatim>\<open>api/experiment\<close>), since what they do is in those programs; HTTP decoding and
  the command line (\<^verbatim>\<open>web\<close>, \<^verbatim>\<open>cmd\<close>); the staging of files of workflows; logging and settings;
  of Builder documents their JSON and YAML, which the Builder service uses as a codec, their generation
  from topologies, the import of old XML files and packages, and the warnings that block nothing; and the
  libraries of icons, templates and layer sets, which use the record store as drafts do.
\<close>

end
